(* ===== verification/Prelude.thy ===== *)
theory Prelude
  imports Main "HOL-Library.Word" "HOL-Library.Monad_Syntax"
begin

text \<open>
  What every component shares: the machine types of the Rust sources, the checked and
  saturating arithmetic they use, and the generic lemmas on options, lists and words.

  Bytes are \<open>8 word\<close> values and a byte slice is a list of them. An argument of a CBOR
  header is a \<open>u64\<close>, kept as a \<open>64 word\<close>. A \<open>usize\<close> (an offset, a length, a depth) is
  a natural number; the bound of the type, which only \<open>try_from\<close> and the checked
  operations observe, is \<open>usize_max\<close>, that of the 32-bit wasm target the library ships
  for.
\<close>

type_synonym u8 = "8 word"
type_synonym u64 = "64 word"
type_synonym bytes = "8 word list"

named_theorems cbor_simps \<open>evaluation of the CBOR readers on encoded items\<close>
named_theorems progress_intros \<open>every reader moves forward and stays inside the buffer\<close>

subsection \<open>Machine integers\<close>

definition usize_max :: nat where
  "usize_max = 4294967295"

definition u64_max :: nat where
  "u64_max = 18446744073709551615"

definition usize_checked_add :: "nat \<Rightarrow> nat \<Rightarrow> nat option" where
  "usize_checked_add a b = (if a + b \<le> usize_max then Some (a + b) else None)"

definition usize_checked_mul :: "nat \<Rightarrow> nat \<Rightarrow> nat option" where
  "usize_checked_mul a b = (if a * b \<le> usize_max then Some (a * b) else None)"

definition usize_saturating_add :: "nat \<Rightarrow> nat \<Rightarrow> nat" where
  "usize_saturating_add a b = min usize_max (a + b)"

text \<open>\<open>usize::try_from\<close> of a \<open>u64\<close>.\<close>

definition usize_of_u64 :: "u64 \<Rightarrow> nat option" where
  "usize_of_u64 n = (if unat n \<le> usize_max then Some (unat n) else None)"

definition u64_checked_mul :: "u64 \<Rightarrow> u64 \<Rightarrow> u64 option" where
  "u64_checked_mul a b = (if unat a * unat b \<le> u64_max then Some (a * b) else None)"

definition u64_checked_add :: "u64 \<Rightarrow> u64 \<Rightarrow> u64 option" where
  "u64_checked_add a b = (if unat a + unat b \<le> u64_max then Some (a + b) else None)"

lemma usize_checked_add_Some [simp]:
  "usize_checked_add a b = Some c \<longleftrightarrow> c = a + b \<and> a + b \<le> usize_max"
  by (auto simp: usize_checked_add_def)

lemma usize_checked_mul_Some [simp]:
  "usize_checked_mul a b = Some c \<longleftrightarrow> c = a * b \<and> a * b \<le> usize_max"
  by (auto simp: usize_checked_mul_def)

lemma usize_of_u64_Some [simp]:
  "usize_of_u64 n = Some c \<longleftrightarrow> c = unat n \<and> unat n \<le> usize_max"
  by (auto simp: usize_of_u64_def)

lemma usize_saturating_add_le: "usize_saturating_add a b \<le> usize_max"
  by (simp add: usize_saturating_add_def)

lemma usize_max_less_u64: "n \<le> usize_max \<Longrightarrow> n < 2 ^ 64"
  by (simp add: usize_max_def)

lemma u64_unat_of_nat: "n < 2 ^ 64 \<Longrightarrow> unat (of_nat n :: u64) = n"
  by (simp add: unat_of_nat take_bit_eq_mod)

lemma usize_of_u64_of_nat: "n \<le> usize_max \<Longrightarrow> usize_of_u64 (of_nat n) = Some n"
  by (simp only: usize_of_u64_def u64_unat_of_nat [OF usize_max_less_u64] if_True)

lemma u64_of_nat_inj:
  assumes "m < 2 ^ 64" "n < 2 ^ 64"
  shows "((of_nat m :: u64) = of_nat n) = (m = n)"
proof
  assume "(of_nat m :: u64) = of_nat n"
  then have "unat (of_nat m :: u64) = unat (of_nat n :: u64)"
    by simp
  then show "m = n"
    by (simp only: u64_unat_of_nat [OF assms(1)] u64_unat_of_nat [OF assms(2)])
qed simp

lemma u64_of_nat_eq_0: "n < 2 ^ 64 \<Longrightarrow> (of_nat n = (0 :: u64)) = (n = 0)"
  using u64_of_nat_inj [of n 0] by simp

subsection \<open>Options and lists\<close>

text \<open>\<open>Iterator::find_map\<close>: the first answer of a partial function along a list.\<close>

fun find_map :: "('a \<Rightarrow> 'b option) \<Rightarrow> 'a list \<Rightarrow> 'b option" where
  "find_map f [] = None"
| "find_map f (x # xs) = (case f x of Some y \<Rightarrow> Some y | None \<Rightarrow> find_map f xs)"

lemma find_map_None: "find_map f xs = None \<longleftrightarrow> (\<forall>x \<in> set xs. f x = None)"
  by (induction xs) (auto split: option.splits)

lemma find_map_SomeD: "find_map f xs = Some y \<Longrightarrow> \<exists>x \<in> set xs. f x = Some y"
  by (induction xs) (auto split: option.splits)

lemma find_map_append:
  "find_map f (xs @ ys) = (case find_map f xs of Some y \<Rightarrow> Some y | None \<Rightarrow> find_map f ys)"
  by (induction xs) (auto split: option.splits)

text \<open>\<open>slice.get(i)\<close> and \<open>Iterator::nth(i)\<close>.\<close>

definition nth_opt :: "'a list \<Rightarrow> nat \<Rightarrow> 'a option" where
  "nth_opt xs i = (if i < length xs then Some (xs ! i) else None)"

lemma nth_opt_Some: "nth_opt xs i = Some x \<longleftrightarrow> i < length xs \<and> x = xs ! i"
  by (auto simp: nth_opt_def)

lemma nth_opt_None: "nth_opt xs i = None \<longleftrightarrow> length xs \<le> i"
  by (auto simp: nth_opt_def)

lemma nth_opt_append [simp]:
  "nth_opt (xs @ ys) (length xs) = nth_opt ys 0"
  by (simp add: nth_opt_def nth_append)

lemma nth_opt_Cons [simp]:
  "nth_opt (x # xs) 0 = Some x" "nth_opt (x # xs) (Suc n) = nth_opt xs n"
  by (simp_all add: nth_opt_def)

lemma nth_opt_Nil [simp]: "nth_opt [] n = None"
  by (simp add: nth_opt_def)

text \<open>\<open>slice.get(a..b)\<close>.\<close>

definition slice_opt :: "'a list \<Rightarrow> nat \<Rightarrow> nat \<Rightarrow> 'a list option" where
  "slice_opt xs a b = (if a \<le> b \<and> b \<le> length xs then Some (take (b - a) (drop a xs)) else None)"

lemma slice_opt_append [simp]:
  "slice_opt (pre @ mid @ post) (length pre) (length pre + length mid) = Some mid"
  by (simp add: slice_opt_def)

subsection \<open>Text\<close>

text \<open>\<open>format!\<close> of an unsigned number: its decimal digits.\<close>

definition digit :: "nat \<Rightarrow> char" where
  "digit n = char_of (48 + n)"

fun decimal :: "nat \<Rightarrow> string" where
  "decimal n = (if n < 10 then [digit n] else decimal (n div 10) @ [digit (n mod 10)])"

declare decimal.simps [simp del]

end
