(* ===== verification/Cbor_Nav.thy ===== *)
theory Cbor_Nav
  imports Prelude
begin

text \<open>
  Header-level CBOR navigation: the functions \<open>read_header\<close>, \<open>read_be\<close>, \<open>is_break\<close>,
  \<open>skip_item\<close>, \<open>array_element_offsets\<close> and \<open>map_entry_offsets\<close> at the end of
  \<^verbatim>\<open>src/src/csl_preflight.rs\<close>. Every scan of the preflight checks is built from them.

  A function that returns \<open>Option\<close> there returns an \<open>option\<close> here. The loop of
  \<open>skip_item\<close> keeps its stack of open containers, innermost first; \<open>skip_loop\<close> is one
  run of that loop from a given offset and stack, and it terminates because every header
  moves the offset forward inside the buffer.
\<close>

unbundle bit_operations_syntax

subsection \<open>Headers\<close>

record header =
  hd_major :: u8
  hd_argument :: "u64 option"
  hd_len :: nat

definition read_be :: "bytes \<Rightarrow> nat \<Rightarrow> nat \<Rightarrow> u64 option" where
  "read_be bs at width =
     do {
       end \<leftarrow> usize_checked_add at width;
       slice \<leftarrow> slice_opt bs at end;
       Some (foldl (\<lambda>acc b. push_bit 8 acc OR ucast b) 0 slice)
     }"

definition mk_header :: "u8 \<Rightarrow> u64 option \<Rightarrow> nat \<Rightarrow> header" where
  "mk_header major argument len =
     \<lparr>hd_major = major, hd_argument = argument, hd_len = len\<rparr>"

definition read_header :: "bytes \<Rightarrow> nat \<Rightarrow> header option" where
  "read_header bs at =
     do {
       initial \<leftarrow> nth_opt bs at;
       let major = drop_bit 5 initial;
       let additional = initial AND 31;
       if additional \<le> 23 then Some (mk_header major (Some (ucast additional)) 1)
       else if additional = 24 then
         do { v \<leftarrow> read_be bs (at + 1) 1; Some (mk_header major (Some v) 2) }
       else if additional = 25 then
         do { v \<leftarrow> read_be bs (at + 1) 2; Some (mk_header major (Some v) 3) }
       else if additional = 26 then
         do { v \<leftarrow> read_be bs (at + 1) 4; Some (mk_header major (Some v) 5) }
       else if additional = 27 then
         do { v \<leftarrow> read_be bs (at + 1) 8; Some (mk_header major (Some v) 9) }
       else if additional = 31 then Some (mk_header major None 1)
       else None
     }"

definition is_break :: "bytes \<Rightarrow> nat \<Rightarrow> bool" where
  "is_break bs at \<longleftrightarrow> nth_opt bs at = Some 0xff"

text \<open>Whether the item at \<open>at\<close> is the unsigned integer \<open>value\<close>.\<close>

definition is_uint :: "bytes \<Rightarrow> nat \<Rightarrow> u64 \<Rightarrow> bool" where
  "is_uint bs at value =
     (case read_header bs at of
        Some h \<Rightarrow> hd_major h = 0 \<and> hd_argument h = Some value
      | None \<Rightarrow> False)"

lemma read_be_bound: "read_be bs at width = Some v \<Longrightarrow> at + width \<le> length bs"
  by (auto simp: read_be_def slice_opt_def split: Option.bind_splits if_splits)

text \<open>The bytes of a header lie inside the buffer and there is at least one of them.\<close>

lemma read_header_bound:
  assumes "read_header bs at = Some h"
  shows "0 < hd_len h \<and> at + hd_len h \<le> length bs"
  using assms
  by (auto simp: read_header_def mk_header_def Let_def nth_opt_Some dest!: read_be_bound
           split: Option.bind_splits if_splits)

subsection \<open>Skipping one item\<close>

text \<open>
  The effect of one header on the offset and the stack of open containers: a break closes
  an indefinite container, anything else takes a slot of the innermost one and may open its
  own.
\<close>

fun take_slot :: "u64 option list \<Rightarrow> u64 option list" where
  "take_slot (Some remaining # open) = Some (remaining - 1) # open"
| "take_slot open = open"

definition open_container :: "header \<Rightarrow> bytes \<Rightarrow> nat \<Rightarrow> u64 option list \<Rightarrow>
    (nat \<times> u64 option list) option" where
  "open_container h bs i open =
     (if hd_major h = 2 \<or> hd_major h = 3 then
        (case hd_argument h of
           Some payload \<Rightarrow>
             do {
               n \<leftarrow> usize_of_u64 payload;
               i' \<leftarrow> usize_checked_add i n;
               if i' > length bs then None else Some (i', open)
             }
         | None \<Rightarrow> Some (i, None # open))
      else if hd_major h = 4 then
        (case hd_argument h of
           Some n \<Rightarrow> Some (i, if n = 0 then open else Some n # open)
         | None \<Rightarrow> Some (i, None # open))
      else if hd_major h = 5 then
        (case hd_argument h of
           Some n \<Rightarrow>
             if n = 0 then Some (i, open)
             else do { m \<leftarrow> u64_checked_mul n 2; Some (i, Some m # open) }
         | None \<Rightarrow> Some (i, None # open))
      else if hd_major h = 6 then Some (i, Some 1 # open)
      else Some (i, open))"

definition skip_step :: "bytes \<Rightarrow> nat \<Rightarrow> u64 option list \<Rightarrow> (nat \<times> u64 option list) option" where
  "skip_step bs i open =
     do {
       h \<leftarrow> read_header bs i;
       let i = i + hd_len h;
       if hd_major h = 7 \<and> hd_argument h = None then
         (case open of None # open' \<Rightarrow> Some (i, open') | _ \<Rightarrow> None)
       else open_container h bs i (take_slot open)
     }"

text \<open>\<open>while matches!(open.last(), Some(Some(0))) { open.pop(); }\<close>\<close>

fun close_full :: "u64 option list \<Rightarrow> u64 option list" where
  "close_full (Some n # open) = (if n = 0 then close_full open else Some n # open)"
| "close_full open = open"

lemma open_container_bound:
  "open_container h bs i open = Some (i', open') \<Longrightarrow> i \<le> length bs \<Longrightarrow> i \<le> i' \<and> i' \<le> length bs"
  by (auto simp: open_container_def split: Option.bind_splits option.splits if_splits)

lemma skip_step_bound:
  assumes "skip_step bs i open = Some (i', open')"
  shows "i < i' \<and> i' \<le> length bs"
proof -
  from assms obtain h where h: "read_header bs i = Some h"
    and c: "i' = i + hd_len h \<or> open_container h bs (i + hd_len h) (take_slot open) = Some (i', open')"
    by (auto simp: skip_step_def Let_def split: Option.bind_splits if_splits list.splits option.splits)
  from read_header_bound [OF h] have b: "0 < hd_len h" "i + hd_len h \<le> length bs"
    by simp_all
  from c show ?thesis
  proof
    assume "i' = i + hd_len h"
    with b show ?thesis by simp
  next
    assume "open_container h bs (i + hd_len h) (take_slot open) = Some (i', open')"
    from open_container_bound [OF this b(2)] b show ?thesis by simp
  qed
qed

function skip_loop :: "bytes \<Rightarrow> nat \<Rightarrow> u64 option list \<Rightarrow> nat option" where
  "skip_loop bs i open =
     (case skip_step bs i open of
        None \<Rightarrow> None
      | Some (i', open') \<Rightarrow>
          (case close_full open' of
             [] \<Rightarrow> Some i'
           | c # open'' \<Rightarrow> skip_loop bs i' (c # open'')))"
  by pat_completeness auto
termination
  by (relation "measure (\<lambda>(bs, i, open). length bs - i)") (auto dest!: skip_step_bound)

declare skip_loop.simps [simp del]

definition skip_item :: "bytes \<Rightarrow> nat \<Rightarrow> nat option" where
  "skip_item bs at = skip_loop bs at []"

lemma skip_loop_bound: "skip_loop bs i open = Some j \<Longrightarrow> i < j \<and> j \<le> length bs"
proof (induction bs i "open" rule: skip_loop.induct)
  case (1 bs i "open")
  obtain i' open' where s: "skip_step bs i open = Some (i', open')"
    using "1.prems" by (auto simp: skip_loop.simps [of bs i "open"] split: option.splits)
  note b = skip_step_bound [OF s]
  show ?case
  proof (cases "close_full open'")
    case Nil
    with "1.prems" s b show ?thesis by (simp add: skip_loop.simps [of bs i "open"])
  next
    case (Cons c open'')
    with "1.prems" s have "skip_loop bs i' (c # open'') = Some j"
      by (simp add: skip_loop.simps [of bs i "open"])
    with "1.IH" [OF s refl Cons] b show ?thesis by simp
  qed
qed

lemma skip_item_bound [progress_intros]: "skip_item bs at = Some j \<Longrightarrow> at < j \<and> j \<le> length bs"
  by (simp add: skip_item_def skip_loop_bound)

subsection \<open>The items of an array and the entries of a map\<close>

text \<open>
  \<open>for _ in 0..count\<close> is a recursion over the count, \<open>while !is_break\<close> one over the
  rest of the buffer. Both give up as soon as \<open>skip_item\<close> does.
\<close>

fun elements_counted :: "bytes \<Rightarrow> nat \<Rightarrow> nat \<Rightarrow> nat list option" where
  "elements_counted bs 0 i = Some []"
| "elements_counted bs (Suc count) i =
     do {
       i' \<leftarrow> skip_item bs i;
       offsets \<leftarrow> elements_counted bs count i';
       Some (i # offsets)
     }"

function elements_to_break :: "bytes \<Rightarrow> nat \<Rightarrow> nat list option" where
  "elements_to_break bs i =
     (if is_break bs i then Some []
      else (case skip_item bs i of
              None \<Rightarrow> None
            | Some i' \<Rightarrow> map_option ((#) i) (elements_to_break bs i')))"
  by pat_completeness auto
termination
  by (relation "measure (\<lambda>(bs, i). length bs - i)") (auto dest!: skip_item_bound)

declare elements_to_break.simps [simp del]

definition array_element_offsets :: "bytes \<Rightarrow> nat \<Rightarrow> nat list option" where
  "array_element_offsets bs at =
     do {
       header \<leftarrow> read_header bs at;
       if hd_major header \<noteq> 4 then None
       else
         (case hd_argument header of
            Some count \<Rightarrow> elements_counted bs (unat count) (at + hd_len header)
          | None \<Rightarrow> elements_to_break bs (at + hd_len header))
     }"

text \<open>The closure \<open>pair\<close>: the offsets of a key and of its value, and where the entry ends.\<close>

definition entry_at :: "bytes \<Rightarrow> nat \<Rightarrow> ((nat \<times> nat) \<times> nat) option" where
  "entry_at bs key =
     do {
       val \<leftarrow> skip_item bs key;
       i' \<leftarrow> skip_item bs val;
       Some ((key, val), i')
     }"

fun entries_counted :: "bytes \<Rightarrow> nat \<Rightarrow> nat \<Rightarrow> (nat \<times> nat) list option" where
  "entries_counted bs 0 i = Some []"
| "entries_counted bs (Suc count) i =
     do {
       (entry, i') \<leftarrow> entry_at bs i;
       entries \<leftarrow> entries_counted bs count i';
       Some (entry # entries)
     }"

lemma entry_at_bound: "entry_at bs i = Some (e, j) \<Longrightarrow> i < j \<and> j \<le> length bs \<and> fst e = i \<and> i < snd e \<and> snd e < j"
  by (auto simp: entry_at_def dest!: skip_item_bound split: Option.bind_splits)

function entries_to_break :: "bytes \<Rightarrow> nat \<Rightarrow> (nat \<times> nat) list option" where
  "entries_to_break bs i =
     (if is_break bs i then Some []
      else (case entry_at bs i of
              None \<Rightarrow> None
            | Some (entry, i') \<Rightarrow> map_option ((#) entry) (entries_to_break bs i')))"
  by pat_completeness auto
termination
  by (relation "measure (\<lambda>(bs, i). length bs - i)") (auto dest!: entry_at_bound)

declare entries_to_break.simps [simp del]

definition map_entry_offsets :: "bytes \<Rightarrow> nat \<Rightarrow> (nat \<times> nat) list option" where
  "map_entry_offsets bs at =
     do {
       header \<leftarrow> read_header bs at;
       if hd_major header \<noteq> 5 then None
       else
         (case hd_argument header of
            Some count \<Rightarrow> entries_counted bs (unat count) (at + hd_len header)
          | None \<Rightarrow> entries_to_break bs (at + hd_len header))
     }"

text \<open>Offsets come in increasing order and stay inside the buffer.\<close>

lemma elements_counted_bound:
  "elements_counted bs n i = Some offs \<Longrightarrow>
     sorted_wrt (<) offs \<and> (\<forall>x \<in> set offs. i \<le> x \<and> x < length bs) \<and> length offs = n"
proof (induction n arbitrary: i offs)
  case (Suc n)
  then obtain i' rest where i': "skip_item bs i = Some i'"
    and rest: "elements_counted bs n i' = Some rest" and offs: "offs = i # rest"
    by (auto split: Option.bind_splits)
  from Suc.IH [OF rest] skip_item_bound [OF i'] offs show ?case
    by force
qed simp

lemma elements_to_break_bound:
  "elements_to_break bs i = Some offs \<Longrightarrow>
     sorted_wrt (<) offs \<and> (\<forall>x \<in> set offs. i \<le> x \<and> x < length bs)"
proof (induction bs i arbitrary: offs rule: elements_to_break.induct)
  case (1 bs i)
  show ?case
  proof (cases "is_break bs i")
    case True
    with "1.prems" show ?thesis by (simp add: elements_to_break.simps [of bs i])
  next
    case False
    with "1.prems" obtain i' rest where i': "skip_item bs i = Some i'"
      and rest: "elements_to_break bs i' = Some rest" and offs: "offs = i # rest"
      by (auto simp: elements_to_break.simps [of bs i] split: option.splits)
    from "1.IH" [OF False i' rest] skip_item_bound [OF i'] offs show ?thesis
      by force
  qed
qed

lemma array_element_offsets_bound:
  assumes "array_element_offsets bs at = Some offs"
  shows "sorted_wrt (<) offs \<and> (\<forall>x \<in> set offs. at < x \<and> x < length bs)"
  using assms
  by (fastforce simp: array_element_offsets_def
      dest: read_header_bound elements_counted_bound elements_to_break_bound
      split: Option.bind_splits if_splits option.splits)

end
