(* ===== verification/Cbor_Spec.thy ===== *)
theory Cbor_Spec
  imports Cbor_Nav
begin

text \<open>
  The abstract side of the CBOR components: well-formed data items (RFC 8949), the bytes each
  may be written as, their nesting depth and their number of items. The scans of the library
  work on bytes; the theorems about them say what they compute on the encoding of an item,
  wherever it sits in a buffer.

  An item records the width its header is written with, so every well-formed encoding is
  covered, the non-canonical ones too. The items of a map are its keys and values in turn.
\<close>

unbundle bit_operations_syntax

subsection \<open>Data items\<close>

datatype arg_width = Inline | Arg1 | Arg2 | Arg4 | Arg8

datatype item =
    Scalar nat arg_width nat
  | Str nat arg_width bytes
  | StrIndef nat "(arg_width \<times> bytes) list"
  | Arr arg_width "item list"
  | ArrIndef "item list"
  | Assoc arg_width "item list"
  | AssocIndef "item list"
  | Tagged arg_width nat item

fun width_bytes :: "arg_width \<Rightarrow> nat" where
  "width_bytes Inline = 0"
| "width_bytes Arg1 = 1"
| "width_bytes Arg2 = 2"
| "width_bytes Arg4 = 4"
| "width_bytes Arg8 = 8"

fun fits :: "arg_width \<Rightarrow> nat \<Rightarrow> bool" where
  "fits Inline n = (n < 24)"
| "fits w n = (n < 256 ^ width_bytes w)"

fun additional_info :: "arg_width \<Rightarrow> nat \<Rightarrow> nat" where
  "additional_info Inline n = n"
| "additional_info Arg1 n = 24"
| "additional_info Arg2 n = 25"
| "additional_info Arg4 n = 26"
| "additional_info Arg8 n = 27"

text \<open>\<open>be_bytes w n\<close>: the number \<open>n\<close> in \<open>w\<close> bytes, most significant first.\<close>

fun be_bytes :: "nat \<Rightarrow> nat \<Rightarrow> bytes" where
  "be_bytes 0 n = []"
| "be_bytes (Suc w) n = be_bytes w (n div 256) @ [of_nat n]"

definition initial_byte :: "nat \<Rightarrow> nat \<Rightarrow> u8" where
  "initial_byte major additional = of_nat (32 * major + additional)"

definition enc_head :: "nat \<Rightarrow> arg_width \<Rightarrow> nat \<Rightarrow> bytes" where
  "enc_head major w n =
     initial_byte major (additional_info w n) # be_bytes (width_bytes w) n"

definition enc_chunk :: "nat \<Rightarrow> arg_width \<times> bytes \<Rightarrow> bytes" where
  "enc_chunk major c = enc_head major (fst c) (length (snd c)) @ snd c"

fun encode :: "item \<Rightarrow> bytes" where
  "encode (Scalar major w n) = enc_head major w n"
| "encode (Str major w payload) = enc_head major w (length payload) @ payload"
| "encode (StrIndef major chunks) =
     initial_byte major 31 # concat (map (enc_chunk major) chunks) @ [0xff]"
| "encode (Arr w xs) = enc_head 4 w (length xs) @ concat (map encode xs)"
| "encode (ArrIndef xs) = initial_byte 4 31 # concat (map encode xs) @ [0xff]"
| "encode (Assoc w xs) = enc_head 5 w (length xs div 2) @ concat (map encode xs)"
| "encode (AssocIndef xs) = initial_byte 5 31 # concat (map encode xs) @ [0xff]"
| "encode (Tagged w n x) = enc_head 6 w n @ encode x"

fun well_formed :: "item \<Rightarrow> bool" where
  "well_formed (Scalar major w n) = (major \<in> {0, 1, 7} \<and> fits w n)"
| "well_formed (Str major w payload) = (major \<in> {2, 3} \<and> fits w (length payload))"
| "well_formed (StrIndef major chunks) =
     (major \<in> {2, 3} \<and> (\<forall>c \<in> set chunks. fits (fst c) (length (snd c))))"
| "well_formed (Arr w xs) = (fits w (length xs) \<and> (\<forall>x \<in> set xs. well_formed x))"
| "well_formed (ArrIndef xs) = (\<forall>x \<in> set xs. well_formed x)"
| "well_formed (Assoc w xs) =
     (even (length xs) \<and> fits w (length xs div 2) \<and> (\<forall>x \<in> set xs. well_formed x))"
| "well_formed (AssocIndef xs) = (even (length xs) \<and> (\<forall>x \<in> set xs. well_formed x))"
| "well_formed (Tagged w n x) = (fits w n \<and> well_formed x)"

text \<open>The level of the deepest item, the root being at level 0.\<close>

fun max_list :: "nat list \<Rightarrow> nat" where
  "max_list [] = 0"
| "max_list (x # xs) = max x (max_list xs)"

fun item_depth :: "item \<Rightarrow> nat" where
  "item_depth (Arr w xs) = max_list (map (\<lambda>x. Suc (item_depth x)) xs)"
| "item_depth (ArrIndef xs) = max_list (map (\<lambda>x. Suc (item_depth x)) xs)"
| "item_depth (Assoc w xs) = max_list (map (\<lambda>x. Suc (item_depth x)) xs)"
| "item_depth (AssocIndef xs) = max_list (map (\<lambda>x. Suc (item_depth x)) xs)"
| "item_depth (Tagged w n x) = Suc (item_depth x)"
| "item_depth _ = 0"

text \<open>The items of a document, tags and string chunks left out.\<close>

fun item_count :: "item \<Rightarrow> nat" where
  "item_count (Arr w xs) = Suc (sum_list (map item_count xs))"
| "item_count (ArrIndef xs) = Suc (sum_list (map item_count xs))"
| "item_count (Assoc w xs) = Suc (sum_list (map item_count xs))"
| "item_count (AssocIndef xs) = Suc (sum_list (map item_count xs))"
| "item_count (Tagged w n x) = item_count x"
| "item_count _ = 1"

subsection \<open>Where bytes occur in a buffer\<close>

definition occurs :: "bytes \<Rightarrow> nat \<Rightarrow> bytes \<Rightarrow> bool" where
  "occurs bs i xs \<longleftrightarrow> i + length xs \<le> length bs \<and> take (length xs) (drop i bs) = xs"

lemma occurs_appendI: "occurs (pre @ xs @ post) (length pre) xs"
  by (simp add: occurs_def)

lemma occurs_whole: "occurs xs 0 xs"
  by (simp add: occurs_def)

lemma occurs_append:
  "occurs bs i (xs @ ys) \<longleftrightarrow> occurs bs i xs \<and> occurs bs (i + length xs) ys"
  by (auto simp: occurs_def take_add append_eq_append_conv add.commute drop_drop)

lemma occurs_Cons:
  "occurs bs i (x # xs) \<longleftrightarrow> nth_opt bs i = Some x \<and> occurs bs (Suc i) xs"
  by (auto simp: occurs_def nth_opt_def Cons_nth_drop_Suc [symmetric] Suc_le_eq)

lemma occurs_Nil [simp]: "occurs bs i [] \<longleftrightarrow> i \<le> length bs"
  by (simp add: occurs_def)

lemma occurs_length: "occurs bs i xs \<Longrightarrow> i + length xs \<le> length bs"
  by (simp add: occurs_def)

lemma occurs_slice: "occurs bs i xs \<Longrightarrow> slice_opt bs i (i + length xs) = Some xs"
  by (simp add: occurs_def slice_opt_def)

subsection \<open>Headers of encoded items\<close>

lemma length_be_bytes [simp]: "length (be_bytes w n) = w"
  by (induction w arbitrary: n) auto

lemma shift_or_byte: "push_bit 8 (acc :: u64) OR ucast (b :: u8) = acc * 256 + ucast b"
proof -
  have "push_bit 8 acc + ucast b = push_bit 8 acc OR ucast b"
    by (rule disjunctive_add) (auto simp: bit_push_bit_iff bit_ucast_iff dest: bit_imp_le_length)
  then show ?thesis
    by (simp add: push_bit_eq_mult)
qed

lemma ucast_byte: "(ucast (of_nat n :: u8) :: u64) = of_nat (n mod 256)"
  by (simp add: unsigned_of_nat take_bit_eq_mod)

lemma fold_be_bytes:
  "n < 256 ^ w \<Longrightarrow>
     foldl (\<lambda>acc b. acc * 256 + ucast b) (acc :: u64) (be_bytes w n) = acc * 256 ^ w + of_nat n"
proof (induction w arbitrary: n)
  case (Suc w)
  have "n div 256 < 256 ^ w"
    using Suc.prems by (simp add: div_less_iff_less_mult mult.commute)
  then have "foldl (\<lambda>acc b. acc * 256 + ucast b) acc (be_bytes (Suc w) n)
      = (acc * 256 ^ w + of_nat (n div 256)) * 256 + of_nat (n mod 256)"
    by (simp only: be_bytes.simps foldl_append foldl.simps Suc.IH ucast_byte)
  also have "\<dots> = acc * 256 ^ Suc w + of_nat (n div 256 * 256 + n mod 256)"
    by (simp only: of_nat_add of_nat_mult of_nat_numeral power_Suc) (simp add: algebra_simps)
  also have "n div 256 * 256 + n mod 256 = n"
    by simp
  finally show ?case .
qed simp

lemma unat_initial_byte: "m < 8 \<Longrightarrow> a < 32 \<Longrightarrow> unat (initial_byte m a) = 32 * m + a"
  by (simp add: initial_byte_def unat_of_nat take_bit_eq_mod del: of_nat_add of_nat_mult)

lemma unat_and_31: "unat ((b :: u8) AND 31) = unat b mod 32"
proof -
  have "(31 :: u8) = mask 5"
    by (simp add: mask_eq_exp_minus_1)
  then show ?thesis
    by (simp only: flip: take_bit_eq_mask) (simp only: unsigned_take_bit_eq, simp add: take_bit_eq_mod)
qed

lemma initial_byte_major: "m < 8 \<Longrightarrow> a < 32 \<Longrightarrow> drop_bit 5 (initial_byte m a) = of_nat m"
  by (simp only: word_unat_eq_iff unat_drop_bit_eq unat_initial_byte)
     (simp add: drop_bit_eq_div unat_of_nat take_bit_eq_mod)

lemma initial_byte_additional: "m < 8 \<Longrightarrow> a < 32 \<Longrightarrow> initial_byte m a AND 31 = of_nat a"
  by (simp only: word_unat_eq_iff unat_and_31 unat_initial_byte)
     (simp add: unat_of_nat take_bit_eq_mod)

lemma initial_byte_break:
  assumes "m < 8" "a < 32"
  shows "initial_byte m a = 0xff \<longleftrightarrow> m = 7 \<and> a = 31"
proof -
  have "initial_byte m a = 0xff \<longleftrightarrow> 32 * m + a = 255"
    by (simp only: word_unat_eq_iff unat_initial_byte [OF assms]) simp
  moreover have "m = 7" if "32 * m + a = 255"
    using that assms by linarith
  ultimately show ?thesis
    by auto
qed

lemma read_be_bytes:
  "occurs bs i (be_bytes w n) \<Longrightarrow> n < 256 ^ w \<Longrightarrow> i + w \<le> usize_max \<Longrightarrow>
     read_be bs i w = Some (of_nat n)"
  using occurs_slice [of bs i "be_bytes w n"]
  by (simp add: read_be_def usize_checked_add_def shift_or_byte fold_be_bytes)

lemma read_header_inline:
  assumes "nth_opt bs i = Some (initial_byte m a)" "m < 8" "a < 24"
  shows "read_header bs i = Some (mk_header (of_nat m) (Some (of_nat a)) 1)"
proof -
  have "(of_nat a :: u8) \<le> 23" "unat (of_nat a :: u8) = a"
    using assms(3) by (simp_all add: word_le_nat_alt unat_of_nat take_bit_eq_mod)
  moreover have "(ucast (of_nat a :: u8) :: u64) = of_nat a"
    using assms(3) by (simp add: ucast_byte)
  ultimately show ?thesis
    using assms by (simp add: read_header_def initial_byte_major initial_byte_additional)
qed

lemma read_header_wide:
  assumes "nth_opt bs i = Some (initial_byte m (additional_info w n))" "m < 8" "w \<noteq> Inline"
    and "read_be bs (i + 1) (width_bytes w) = Some v"
  shows "read_header bs i = Some (mk_header (of_nat m) (Some v) (1 + width_bytes w))"
  using assms
  by (cases w) (simp_all add: read_header_def initial_byte_major initial_byte_additional
      flip: numeral_2_eq_2 numeral_3_eq_3)

lemma read_header_indefinite:
  assumes "nth_opt bs i = Some (initial_byte m 31)" "m < 8"
  shows "read_header bs i = Some (mk_header (of_nat m) None 1)"
  using assms
  by (simp add: read_header_def initial_byte_major initial_byte_additional)

lemma length_enc_head [simp]: "length (enc_head m w n) = Suc (width_bytes w)"
  by (simp add: enc_head_def)

lemma fits_u64: "fits w n \<Longrightarrow> n < 2 ^ 64"
  by (cases w) auto

lemma read_header_enc [cbor_simps]:
  assumes "occurs bs i (enc_head m w n)" "m < 8" "fits w n" "length bs \<le> usize_max"
  shows "read_header bs i = Some (mk_header (of_nat m) (Some (of_nat n)) (Suc (width_bytes w)))"
proof (cases "w = Inline")
  case True
  with assms show ?thesis
    using read_header_inline [of bs i m n] by (simp add: enc_head_def occurs_Cons)
next
  case False
  from assms(1) have hd: "nth_opt bs i = Some (initial_byte m (additional_info w n))"
    and tl: "occurs bs (i + 1) (be_bytes (width_bytes w) n)"
    by (simp_all add: enc_head_def occurs_Cons)
  have "n < 256 ^ width_bytes w"
    using False assms(3) by (cases w) auto
  moreover have "i + 1 + width_bytes w \<le> usize_max"
    using occurs_length [OF tl] assms(4) by simp
  ultimately have "read_be bs (i + 1) (width_bytes w) = Some (of_nat n)"
    using read_be_bytes [OF tl] by simp
  then show ?thesis
    using read_header_wide [OF hd assms(2) False] by simp
qed

lemma not_break_enc_head:
  assumes "occurs bs i (enc_head m w n)" "m < 8" "fits w n"
  shows "\<not> is_break bs i"
proof -
  have "additional_info w n < 31"
    using assms(3) by (cases w) auto
  then show ?thesis
    using assms initial_byte_break [of m "additional_info w n"]
    by (simp add: is_break_def enc_head_def occurs_Cons)
qed

subsection \<open>\<open>skip_item\<close> skips one item\<close>

definition skip_resume :: "bytes \<Rightarrow> nat \<Rightarrow> u64 option list \<Rightarrow> nat option" where
  "skip_resume bs i open =
     (case close_full open of [] \<Rightarrow> Some i | c # open' \<Rightarrow> skip_loop bs i (c # open'))"

lemma skip_loop_step:
  "skip_step bs i open = Some (i', open') \<Longrightarrow> skip_loop bs i open = skip_resume bs i' open'"
  by (simp add: skip_loop.simps [of bs i "open"] skip_resume_def)

lemma skip_resume_indef: "skip_resume bs i (None # open) = skip_loop bs i (None # open)"
  by (simp add: skip_resume_def)

lemma skip_resume_Nil [simp]: "skip_resume bs i [] = Some i"
  by (simp add: skip_resume_def)

lemma skip_resume_full: "skip_resume bs i (Some 0 # open) = skip_resume bs i open"
  by (simp add: skip_resume_def)

lemma skip_resume_more:
  "n \<noteq> 0 \<Longrightarrow> skip_resume bs i (Some n # open) = skip_loop bs i (Some n # open)"
  by (simp add: skip_resume_def)

lemma skip_loop_break:
  assumes "nth_opt bs i = Some 0xff"
  shows "skip_loop bs i (None # open) = skip_resume bs (Suc i) open"
proof -
  have "(0xff :: u8) = initial_byte 7 31"
    by (simp add: initial_byte_break)
  then have "read_header bs i = Some (mk_header 7 None 1)"
    using read_header_indefinite [of bs i 7] assms by simp
  then show ?thesis
    by (intro skip_loop_step) (simp add: skip_step_def mk_header_def)
qed

text \<open>Skipping one item takes one slot of the innermost container, and resumes after it.\<close>

definition skips :: "bytes \<Rightarrow> bytes \<Rightarrow> bool" where
  "skips bs xs \<longleftrightarrow>
     (\<forall>i open. occurs bs i xs \<longrightarrow> skip_loop bs i open = skip_resume bs (i + length xs) (take_slot open))"

lemma skips_counted:
  assumes "\<forall>xs \<in> set xss. skips bs xs" "length xss < 2 ^ 64" "occurs bs i (concat xss)"
  shows "skip_resume bs i (Some (of_nat (length xss)) # open) =
         skip_resume bs (i + length (concat xss)) open"
  using assms
proof (induction xss arbitrary: i)
  case Nil
  then show ?case by (simp add: skip_resume_full)
next
  case (Cons xs xss)
  then have "(of_nat (length (xs # xss)) :: u64) \<noteq> 0"
    using u64_of_nat_eq_0 [of "length (xs # xss)"] by simp
  then have "skip_resume bs i (Some (of_nat (length (xs # xss))) # open)
      = skip_loop bs i (Some (of_nat (length (xs # xss))) # open)"
    by (rule skip_resume_more)
  also have "\<dots> = skip_resume bs (i + length xs) (Some (of_nat (length xss)) # open)"
    using Cons.prems by (simp add: skips_def occurs_append)
  also have "\<dots> = skip_resume bs (i + length xs + length (concat xss)) open"
    using Cons.prems by (intro Cons.IH) (simp_all add: occurs_append)
  finally show ?case by (simp add: add.assoc)
qed

lemma skips_to_break:
  assumes "\<forall>xs \<in> set xss. skips bs xs" "occurs bs i (concat xss @ [0xff])"
  shows "skip_resume bs i (None # open) = skip_resume bs (i + length (concat xss) + 1) open"
  using assms
proof (induction xss arbitrary: i)
  case Nil
  then show ?case
    using skip_loop_break [of bs i "open"] by (simp add: skip_resume_indef occurs_Cons)
next
  case (Cons xs xss)
  have "skip_resume bs i (None # open) = skip_loop bs i (None # open)"
    by (rule skip_resume_indef)
  also have "\<dots> = skip_resume bs (i + length xs) (None # open)"
    using Cons.prems by (simp add: skips_def occurs_append)
  also have "\<dots> = skip_resume bs (i + length xs + length (concat xss) + 1) open"
    using Cons.prems by (intro Cons.IH) (simp_all add: occurs_append add.assoc)
  finally show ?case by (simp add: add.assoc)
qed

lemma skip_step_enc:
  assumes "occurs bs i (enc_head m w n)" "m < 8" "fits w n" "length bs \<le> usize_max"
  shows "skip_step bs i open =
    open_container (mk_header (of_nat m) (Some (of_nat n)) (Suc (width_bytes w))) bs
      (i + Suc (width_bytes w)) (take_slot open)"
  using read_header_enc [OF assms] by (simp add: skip_step_def mk_header_def)

lemma skip_step_indef:
  assumes "nth_opt bs i = Some (initial_byte m 31)" "m \<in> {2, 3, 4, 5}"
  shows "skip_step bs i open = Some (Suc i, None # take_slot open)"
proof -
  have "m < 8" using assms(2) by auto
  with assms read_header_indefinite [OF assms(1)] show ?thesis
    by (auto simp add: skip_step_def mk_header_def open_container_def)
qed

lemma skips_scalar:
  assumes "m \<in> {0, 1, 7}" "fits w n" "length bs \<le> usize_max"
  shows "skips bs (enc_head m w n)"
  unfolding skips_def
proof (intro allI impI)
  fix i "open"
  assume occ: "occurs bs i (enc_head m w n)"
  have "m < 8" using assms(1) by auto
  from skip_step_enc [OF occ this assms(2,3), of "open"] assms(1)
  have "skip_step bs i open = Some (i + Suc (width_bytes w), take_slot open)"
    by (auto simp: open_container_def mk_header_def)
  from skip_loop_step [OF this]
  show "skip_loop bs i open = skip_resume bs (i + length (enc_head m w n)) (take_slot open)"
    by simp
qed

lemma skips_str:
  assumes "m \<in> {2, 3}" "fits w (length payload)" "length bs \<le> usize_max"
  shows "skips bs (enc_head m w (length payload) @ payload)"
  unfolding skips_def
proof (intro allI impI)
  fix i "open"
  assume occ: "occurs bs i (enc_head m w (length payload) @ payload)"
  then have hd: "occurs bs i (enc_head m w (length payload))"
    by (simp add: occurs_append)
  have m: "m < 8" using assms(1) by auto
  have "i + Suc (width_bytes w) + length payload \<le> length bs"
    using occurs_length [OF occ] by simp
  moreover have "unat (of_nat (length payload) :: u64) = length payload"
    using fits_u64 [OF assms(2)] by (rule u64_unat_of_nat)
  ultimately have "skip_step bs i open = Some (i + Suc (width_bytes w) + length payload, take_slot open)"
    using skip_step_enc [OF hd m assms(2,3), of "open"] assms(1,3)
    by (auto simp: open_container_def mk_header_def usize_of_u64_def usize_checked_add_def)
  from skip_loop_step [OF this]
  show "skip_loop bs i open =
      skip_resume bs (i + length (enc_head m w (length payload) @ payload)) (take_slot open)"
    by (simp add: add.assoc)
qed

lemma skips_indef:
  assumes "m \<in> {2, 3, 4, 5}" "\<forall>xs \<in> set xss. skips bs xs"
  shows "skips bs (initial_byte m 31 # concat xss @ [0xff])"
  unfolding skips_def
proof (intro allI impI)
  fix i "open"
  assume occ: "occurs bs i (initial_byte m 31 # concat xss @ [0xff])"
  then have "skip_step bs i open = Some (Suc i, None # take_slot open)"
    using skip_step_indef assms(1) by (simp add: occurs_Cons)
  from skip_loop_step [OF this]
  have "skip_loop bs i open = skip_resume bs (Suc i) (None # take_slot open)" .
  also have "\<dots> = skip_resume bs (Suc i + length (concat xss) + 1) (take_slot open)"
    using occ by (intro skips_to_break assms(2)) (simp add: occurs_Cons)
  finally show "skip_loop bs i open =
      skip_resume bs (i + length (initial_byte m 31 # concat xss @ [0xff])) (take_slot open)"
    by simp
qed

text \<open>A counted container whose header announces \<open>n\<close> and holds \<open>k\<close> items: \<open>n = k\<close> for an
  array, \<open>k = 2 * n\<close> for a map, \<open>k = 1\<close> for a tag.\<close>

lemma skips_counted_container:
  assumes "m < 8" "fits w n" "length bs \<le> usize_max"
    and "\<forall>xs \<in> set xss. skips bs xs" "length xss < 2 ^ 64"
    and "\<And>i open. open_container (mk_header (of_nat m) (Some (of_nat n)) (Suc (width_bytes w))) bs i open =
        Some (i, if xss = [] then open else Some (of_nat (length xss)) # open)"
  shows "skips bs (enc_head m w n @ concat xss)"
  unfolding skips_def
proof (intro allI impI)
  fix i "open"
  let ?j = "i + Suc (width_bytes w)"
  assume occ: "occurs bs i (enc_head m w n @ concat xss)"
  then have hd: "occurs bs i (enc_head m w n)" and tl: "occurs bs ?j (concat xss)"
    by (simp_all add: occurs_append)
  have "skip_loop bs i open = skip_resume bs ?j (if xss = [] then take_slot open
      else Some (of_nat (length xss)) # take_slot open)"
    by (intro skip_loop_step) (simp only: skip_step_enc [OF hd assms(1-3)] assms(6))
  also have "\<dots> = skip_resume bs (?j + length (concat xss)) (take_slot open)"
    using skips_counted [OF assms(4,5) tl, of "take_slot open"] by auto
  finally show "skip_loop bs i open =
      skip_resume bs (i + length (enc_head m w n @ concat xss)) (take_slot open)"
    by (simp add: add.assoc)
qed

lemma encode_nonempty: "0 < length (encode x)"
  by (cases x) simp_all

lemma length_concat_encode: "length xs \<le> length (concat (map encode xs))"
proof (induction xs)
  case (Cons x xs)
  have "length (x # xs) \<le> length (encode x) + length (concat (map encode xs))"
    using Cons encode_nonempty [of x] by (simp only: list.size)
  then show ?case by simp
qed simp

lemma skips_encode_assoc:
  assumes "even (length xs)" "fits w (length xs div 2)" "length bs \<le> usize_max"
    and "\<forall>x \<in> set xs. skips bs (encode x)"
  shows "skips bs (enc_head 5 w (length xs div 2) @ concat (map encode xs))"
proof (cases "length xs < 2 ^ 64")
  case True
  let ?n = "length xs div 2"
  have n: "?n < 2 ^ 64" "2 * ?n = length xs"
    using True assms(1) by simp_all
  have "(of_nat (length xs) :: u64) = of_nat (2 * ?n)"
    by (simp only: n(2))
  then have "(of_nat (length xs) :: u64) = of_nat ?n * 2"
    by (simp only: of_nat_mult of_nat_numeral mult.commute)
  moreover have "unat (of_nat ?n :: u64) * unat (2 :: u64) \<le> u64_max"
    using True n(2) by (simp only: u64_unat_of_nat [OF n(1)]) (simp add: u64_max_def)
  ultimately have "u64_checked_mul (of_nat ?n) 2 = Some (of_nat (length xs))"
    by (simp only: u64_checked_mul_def if_True)
  moreover have "of_nat ?n = (0 :: u64) \<longleftrightarrow> xs = []"
    using u64_of_nat_eq_0 [OF n(1)] n(2) by auto
  ultimately show ?thesis
    using assms True by (intro skips_counted_container)
      (auto simp: open_container_def mk_header_def)
next
  case False
  then have "\<not> occurs bs i (enc_head 5 w (length xs div 2) @ concat (map encode xs))" for i
    using length_concat_encode [of xs] assms(3)
    by (auto simp: usize_max_def dest!: occurs_length)
  then show ?thesis by (simp add: skips_def)
qed

lemma skips_encode:
  assumes "well_formed x" "length bs \<le> usize_max"
  shows "skips bs (encode x)"
  using assms(1)
proof (induction x)
  case (Scalar m w n)
  then show ?case using skips_scalar assms(2) by simp
next
  case (Str m w payload)
  then show ?case using skips_str assms(2) by simp
next
  case (StrIndef m chunks)
  then have "\<forall>xs \<in> set (map (enc_chunk m) chunks). skips bs xs"
    using skips_str assms(2) by (auto simp: enc_chunk_def)
  moreover have "m \<in> {2, 3, 4, 5}" using StrIndef by auto
  ultimately show ?case
    using skips_indef by simp
next
  case (Arr w xs)
  have "skips bs (enc_head 4 w (length xs) @ concat (map encode xs))"
    using Arr assms(2) fits_u64 [of w "length xs"] u64_of_nat_eq_0 [of "length xs"]
    by (intro skips_counted_container) (auto simp: open_container_def mk_header_def)
  then show ?case by simp
next
  case (ArrIndef xs)
  then show ?case using skips_indef [of 4 "map encode xs" bs] by simp
next
  case (Assoc w xs)
  then show ?case using skips_encode_assoc assms(2) by simp
next
  case (AssocIndef xs)
  then show ?case using skips_indef [of 5 "map encode xs" bs] by simp
next
  case (Tagged w n x)
  have "skips bs (enc_head 6 w n @ concat [encode x])"
    using Tagged assms(2)
    by (intro skips_counted_container) (auto simp: open_container_def mk_header_def)
  then show ?case by simp
qed

text \<open>\<open>skip_item\<close> finds the end of an encoded item, wherever it sits in the buffer.\<close>

lemma skip_item_encode [cbor_simps]:
  assumes "well_formed x" "length bs \<le> usize_max" "occurs bs i (encode x)"
  shows "skip_item bs i = Some (i + length (encode x))"
  using skips_encode [OF assms(1,2)] assms(3) by (simp add: skips_def skip_item_def)

lemma not_break_initial:
  "nth_opt bs i = Some (initial_byte m a) \<Longrightarrow> m < 7 \<Longrightarrow> a < 32 \<Longrightarrow> \<not> is_break bs i"
  using initial_byte_break [of m a] by (auto simp: is_break_def)

lemma not_break_encode [cbor_simps]:
  assumes "well_formed x" "occurs bs i (encode x)"
  shows "\<not> is_break bs i"
  using assms
  by (cases x) (auto simp: occurs_append occurs_Cons dest: not_break_enc_head not_break_initial)

subsection \<open>The offsets of the items of a container\<close>

fun item_starts :: "nat \<Rightarrow> item list \<Rightarrow> nat list" where
  "item_starts i [] = []"
| "item_starts i (x # xs) = i # item_starts (i + length (encode x)) xs"

fun pair_up :: "'a list \<Rightarrow> ('a \<times> 'a) list" where
  "pair_up (k # v # rest) = (k, v) # pair_up rest"
| "pair_up _ = []"

abbreviation encodes :: "item list \<Rightarrow> bytes" where
  "encodes xs \<equiv> concat (map encode xs)"

lemma length_item_starts [simp]: "length (item_starts i xs) = length xs"
  by (induction xs arbitrary: i) auto

lemma item_starts_occur:
  "occurs bs i (encodes xs) \<Longrightarrow> k < length xs \<Longrightarrow> occurs bs (item_starts i xs ! k) (encode (xs ! k))"
proof (induction xs arbitrary: i k)
  case (Cons x xs)
  then show ?case by (cases k) (auto simp: occurs_append)
qed simp

lemma elements_counted_encode:
  assumes "length bs \<le> usize_max" "\<forall>x \<in> set xs. well_formed x" "occurs bs i (encodes xs)"
  shows "elements_counted bs (length xs) i = Some (item_starts i xs)"
  using assms(2,3)
proof (induction xs arbitrary: i)
  case (Cons x xs)
  then have "skip_item bs i = Some (i + length (encode x))"
    by (intro skip_item_encode assms(1)) (auto simp: occurs_append)
  with Cons show ?case by (simp add: occurs_append)
qed simp

lemma elements_to_break_encode:
  assumes "length bs \<le> usize_max" "\<forall>x \<in> set xs. well_formed x" "occurs bs i (encodes xs @ [0xff])"
  shows "elements_to_break bs i = Some (item_starts i xs)"
  using assms(2,3)
proof (induction xs arbitrary: i)
  case Nil
  then show ?case
    by (simp add: elements_to_break.simps [of bs i] is_break_def occurs_Cons)
next
  case (Cons x xs)
  then have x: "well_formed x" "occurs bs i (encode x)"
    by (auto simp: occurs_append)
  have "skip_item bs i = Some (i + length (encode x))"
    by (intro skip_item_encode assms(1) x)
  moreover have "elements_to_break bs (i + length (encode x)) =
      Some (item_starts (i + length (encode x)) xs)"
    using Cons by (simp add: occurs_append add.assoc)
  ultimately show ?case
    using not_break_encode [OF x] by (simp add: elements_to_break.simps [of bs i])
qed

text \<open>The bytes before the first item of a container, and the items it holds.\<close>

fun body_start :: "item \<Rightarrow> nat" where
  "body_start (Arr w xs) = Suc (width_bytes w)"
| "body_start (Assoc w xs) = Suc (width_bytes w)"
| "body_start (Tagged w n x) = Suc (width_bytes w)"
| "body_start _ = 1"

fun contents :: "item \<Rightarrow> item list" where
  "contents (Arr w xs) = xs"
| "contents (ArrIndef xs) = xs"
| "contents (Assoc w xs) = xs"
| "contents (AssocIndef xs) = xs"
| "contents (Tagged w n x) = [x]"
| "contents _ = []"

fun is_arr :: "item \<Rightarrow> bool" where
  "is_arr (Arr w xs) = True"
| "is_arr (ArrIndef xs) = True"
| "is_arr _ = False"

fun is_assoc :: "item \<Rightarrow> bool" where
  "is_assoc (Assoc w xs) = True"
| "is_assoc (AssocIndef xs) = True"
| "is_assoc _ = False"

lemma contents_occur:
  "occurs bs i (encode x) \<Longrightarrow> occurs bs (i + body_start x) (encodes (contents x)) \<or> contents x = []"
  by (cases x) (auto simp: occurs_append occurs_Cons)

lemma contents_well_formed: "well_formed x \<Longrightarrow> y \<in> set (contents x) \<Longrightarrow> well_formed y"
  by (cases x) auto

lemma array_element_offsets_encode:
  assumes "length bs \<le> usize_max" "well_formed x" "occurs bs i (encode x)" "is_arr x"
  shows "array_element_offsets bs i = Some (item_starts (i + body_start x) (contents x))"
proof (cases x)
  case (Arr w xs)
  then have "read_header bs i = Some (mk_header 4 (Some (of_nat (length xs))) (Suc (width_bytes w)))"
    using assms read_header_enc [of bs i 4 w "length xs"] by (simp add: occurs_append)
  moreover have "unat (of_nat (length xs) :: u64) = length xs"
    using Arr assms(2) by (auto intro: u64_unat_of_nat fits_u64)
  moreover have "elements_counted bs (length xs) (i + Suc (width_bytes w)) =
      Some (item_starts (i + Suc (width_bytes w)) xs)"
    using Arr assms by (intro elements_counted_encode) (auto simp: occurs_append)
  ultimately show ?thesis
    using Arr by (simp add: array_element_offsets_def mk_header_def)
next
  case (ArrIndef xs)
  then have "read_header bs i = Some (mk_header 4 None 1)"
    using assms read_header_indefinite [of bs i 4] by (simp add: occurs_Cons)
  moreover have "elements_to_break bs (i + 1) = Some (item_starts (i + 1) xs)"
    using ArrIndef assms by (intro elements_to_break_encode) (auto simp: occurs_Cons)
  ultimately show ?thesis
    using ArrIndef by (simp add: array_element_offsets_def mk_header_def)
qed (use assms(4) in auto)

lemma entries_counted_encode:
  assumes "length bs \<le> usize_max" "\<forall>x \<in> set xs. well_formed x" "occurs bs i (encodes xs)"
    and "length xs = 2 * n"
  shows "entries_counted bs n i = Some (pair_up (item_starts i xs))"
  using assms(2-)
proof (induction n arbitrary: xs i)
  case (Suc n)
  then obtain k v rest where xs: "xs = k # v # rest"
    by (cases xs; cases "tl xs") auto
  then have "skip_item bs i = Some (i + length (encode k))"
    "skip_item bs (i + length (encode k)) = Some (i + length (encode k) + length (encode v))"
    using Suc.prems assms(1) by (auto simp: occurs_append intro!: skip_item_encode)
  moreover have "entries_counted bs n (i + length (encode k) + length (encode v)) =
      Some (pair_up (item_starts (i + length (encode k) + length (encode v)) rest))"
    using Suc.prems xs by (intro Suc.IH) (auto simp: occurs_append)
  ultimately show ?case
    using xs by (simp add: entry_at_def)
qed simp

lemma entries_to_break_encode:
  assumes "length bs \<le> usize_max" "\<forall>x \<in> set xs. well_formed x" "occurs bs i (encodes xs @ [0xff])"
    and "even (length xs)"
  shows "entries_to_break bs i = Some (pair_up (item_starts i xs))"
  using assms(2-)
proof (induction xs arbitrary: i rule: pair_up.induct)
  case (1 k v rest)
  then have k: "well_formed k" "occurs bs i (encode k)"
    and v: "well_formed v" "occurs bs (i + length (encode k)) (encode v)"
    by (auto simp: occurs_append)
  have "entries_to_break bs (i + length (encode k) + length (encode v)) =
      Some (pair_up (item_starts (i + length (encode k) + length (encode v)) rest))"
    using 1 by (intro "1.IH") (auto simp: occurs_append add.assoc)
  then show ?case
    using not_break_encode [OF k] skip_item_encode [OF k(1) assms(1) k(2)]
      skip_item_encode [OF v(1) assms(1) v(2)]
    by (simp add: entries_to_break.simps [of bs i] entry_at_def)
qed (subst entries_to_break.simps, simp add: is_break_def occurs_Cons, simp)

lemma map_entry_offsets_encode:
  assumes "length bs \<le> usize_max" "well_formed x" "occurs bs i (encode x)" "is_assoc x"
  shows "map_entry_offsets bs i = Some (pair_up (item_starts (i + body_start x) (contents x)))"
proof (cases x)
  case (Assoc w xs)
  let ?n = "length xs div 2"
  have "read_header bs i = Some (mk_header 5 (Some (of_nat ?n)) (Suc (width_bytes w)))"
    using Assoc assms read_header_enc [of bs i 5 w ?n] by (simp add: occurs_append)
  moreover have "unat (of_nat ?n :: u64) = ?n"
    using Assoc assms(2) by (auto intro: u64_unat_of_nat fits_u64)
  moreover have "entries_counted bs ?n (i + Suc (width_bytes w)) =
      Some (pair_up (item_starts (i + Suc (width_bytes w)) xs))"
    using Assoc assms by (intro entries_counted_encode) (auto simp: occurs_append)
  ultimately show ?thesis
    using Assoc by (simp add: map_entry_offsets_def mk_header_def)
next
  case (AssocIndef xs)
  then have "read_header bs i = Some (mk_header 5 None 1)"
    using assms read_header_indefinite [of bs i 5] by (simp add: occurs_Cons)
  moreover have "entries_to_break bs (i + 1) = Some (pair_up (item_starts (i + 1) xs))"
    using AssocIndef assms by (intro entries_to_break_encode) (auto simp: occurs_Cons)
  ultimately show ?thesis
    using AssocIndef by (simp add: map_entry_offsets_def mk_header_def)
qed (use assms(4) in auto)

end
