(* ===== verification/Limits_Scan.thy ===== *)
theory Limits_Scan
  imports Cbor_Spec "HOL-Library.Multiset"
begin

text \<open>
  The iterative byte scans of \<^verbatim>\<open>src/src/cbor/limits.rs\<close>: \<open>scan_cbor_shape\<close> and the
  nesting depth and item count read off it, with and without the payloads under tag 24.

  The loop of \<open>scan_cbor_shape\<close> keeps its local variables in one record. One iteration is
  \<open>scan_step\<close>; it answers \<open>Inl\<close> where the loop breaks and \<open>Inr\<close> where it goes round
  again. \<open>collect\<close> says whether the caller passed a sink for embedded payloads, whose
  contents are the field \<open>sc_found\<close>.
\<close>

unbundle bit_operations_syntax

subsection \<open>The local state of the scan\<close>

record frame =
  fr_remaining :: "nat option"
  fr_nests :: bool
  fr_embeds :: bool
  fr_splice :: "(nat \<times> bytes) option"

datatype embedded_payload =
    Range nat nat nat
  | Spliced nat bytes

record scan =
  sc_stack :: "frame list"
  sc_depth :: nat
  sc_max_depth :: nat
  sc_items :: nat
  sc_pos :: nat
  sc_next_skip :: nat
  sc_found :: "embedded_payload list"

type_synonym ranges = "(nat \<times> nat) list"

definition scan_start :: scan where
  "scan_start =
     \<lparr>sc_stack = [], sc_depth = 0, sc_max_depth = 0, sc_items = 0, sc_pos = 0,
      sc_next_skip = 0, sc_found = []\<rparr>"

subsection \<open>One iteration\<close>

fun be_loop :: "u64 \<Rightarrow> bytes \<Rightarrow> u64" where
  "be_loop v [] = v"
| "be_loop v (b # rest) = be_loop (push_bit 8 v OR ucast b) rest"

definition limits_read_be :: "bytes \<Rightarrow> nat \<Rightarrow> nat \<Rightarrow> u64 option" where
  "limits_read_be bs at width =
     do {
       end \<leftarrow> usize_checked_add at width;
       slice \<leftarrow> slice_opt bs at end;
       Some (be_loop 0 slice)
     }"

text \<open>\<open>None\<close> where the scan breaks: a reserved or a truncated header.\<close>

definition scan_header :: "bytes \<Rightarrow> nat \<Rightarrow> u8 \<Rightarrow> (u64 option \<times> nat) option" where
  "scan_header bs i initial =
     (let additional = initial AND 31 in
      if additional \<le> 23 then Some (Some (ucast additional), 1)
      else if additional = 24 then map_option (\<lambda>v. (Some v, 2)) (limits_read_be bs (i + 1) 1)
      else if additional = 25 then map_option (\<lambda>v. (Some v, 3)) (limits_read_be bs (i + 1) 2)
      else if additional = 26 then map_option (\<lambda>v. (Some v, 5)) (limits_read_be bs (i + 1) 4)
      else if additional = 27 then map_option (\<lambda>v. (Some v, 9)) (limits_read_be bs (i + 1) 8)
      else if additional = 31 then Some (None, 1)
      else None)"

text \<open>Close every container that has taken all the items it declared.\<close>

fun close_frames :: "frame list \<Rightarrow> nat \<Rightarrow> frame list \<times> nat" where
  "close_frames [] depth = ([], depth)"
| "close_frames (f # stack) depth =
     (if fr_remaining f = Some 0
      then close_frames stack (if fr_nests f then depth - 1 else depth)
      else (f # stack, depth))"

fun take_item :: "frame list \<Rightarrow> frame list" where
  "take_item (f # stack) =
     (case fr_remaining f of
        Some remaining \<Rightarrow> f\<lparr>fr_remaining := Some (remaining - 1)\<rparr> # stack
      | None \<Rightarrow> f # stack)"
| "take_item [] = []"

definition open_frame :: "nat option \<Rightarrow> bool \<Rightarrow> bool \<Rightarrow> (nat \<times> bytes) option \<Rightarrow> scan \<Rightarrow> scan" where
  "open_frame remaining nests embeds spl s =
     s\<lparr>sc_stack := \<lparr>fr_remaining = remaining, fr_nests = nests, fr_embeds = embeds,
                    fr_splice = spl\<rparr> # sc_stack s,
       sc_depth := (if nests then sc_depth s + 1 else sc_depth s)\<rparr>"

fun extend_splice :: "frame list \<Rightarrow> bytes \<Rightarrow> frame list" where
  "extend_splice (f # stack) chunk =
     (case fr_splice f of
        Some (level, spliced) \<Rightarrow> f\<lparr>fr_splice := Some (level, spliced @ chunk)\<rparr> # stack
      | None \<Rightarrow> f # stack)"
| "extend_splice [] chunk = []"

text \<open>A break byte: it closes the innermost indefinite container.\<close>

definition scan_break :: "bool \<Rightarrow> scan \<Rightarrow> scan + scan" where
  "scan_break collect s =
     (case sc_stack s of
        f # stack \<Rightarrow>
          if fr_remaining f = None then
            Inr (s\<lparr>sc_pos := sc_pos s + 1,
                   sc_stack := stack,
                   sc_depth := (if fr_nests f then sc_depth s - 1 else sc_depth s),
                   sc_found :=
                     (case fr_splice f of
                        Some (level, spliced) \<Rightarrow>
                          if collect then sc_found s @ [Spliced level spliced] else sc_found s
                      | None \<Rightarrow> sc_found s)\<rparr>)
          else Inl (s\<lparr>sc_pos := sc_pos s + 1\<rparr>)
      | [] \<Rightarrow> Inl (s\<lparr>sc_pos := sc_pos s + 1\<rparr>))"

text \<open>A byte or text string whose header has been read.\<close>

definition scan_string :: "bytes \<Rightarrow> bool \<Rightarrow> bool \<Rightarrow> bool \<Rightarrow> u8 \<Rightarrow> u64 option \<Rightarrow> scan \<Rightarrow> scan + scan" where
  "scan_string bs collect chunk embeds major argument s =
     (let i = sc_pos s; level = sc_depth s in
      case argument of
        Some len \<Rightarrow>
          (case usize_of_u64 len \<bind> usize_checked_add i of
             Some end \<Rightarrow>
               if end \<le> length bs then
                 Inr (s\<lparr>sc_pos := end,
                        sc_found := (if collect \<and> embeds then sc_found s @ [Range level i end]
                                     else sc_found s),
                        sc_stack := (if collect \<and> \<not> embeds \<and> chunk \<and> major = 2
                                     then extend_splice (sc_stack s) (take (end - i) (drop i bs))
                                     else sc_stack s)\<rparr>)
               else Inl s
           | None \<Rightarrow> Inl s)
      | None \<Rightarrow> Inr (open_frame None False False (if embeds then Some (level, []) else None) s))"

text \<open>The contents a header announces.\<close>

definition scan_content :: "bytes \<Rightarrow> bool \<Rightarrow> bool \<Rightarrow> bool \<Rightarrow> u8 \<Rightarrow> u64 option \<Rightarrow> scan \<Rightarrow> scan + scan" where
  "scan_content bs collect chunk embeds major argument s =
     (if major = 2 \<or> major = 3 then scan_string bs collect chunk embeds major argument s
      else if major = 4 then
        (case argument of
           Some len \<Rightarrow>
             if len = 0 then Inr s
             else (case usize_of_u64 len of
                     Some n \<Rightarrow> Inr (open_frame (Some n) True False None s)
                   | None \<Rightarrow> Inl s)
         | None \<Rightarrow> Inr (open_frame None True False None s))
      else if major = 5 then
        (case argument of
           Some len \<Rightarrow>
             if len = 0 then Inr s
             else (case usize_of_u64 len \<bind> (\<lambda>n. usize_checked_mul n 2) of
                     Some n \<Rightarrow> Inr (open_frame (Some n) True False None s)
                   | None \<Rightarrow> Inl s)
         | None \<Rightarrow> Inr (open_frame None True False None s))
      else if major = 6 then Inr (open_frame (Some 1) True (argument = Some 24) None s)
      else Inr s)"

definition is_chunk :: "frame list \<Rightarrow> bool" where
  "is_chunk stack = (case stack of f # _ \<Rightarrow> \<not> fr_nests f | [] \<Rightarrow> False)"

definition under_tag_24 :: "frame list \<Rightarrow> bool" where
  "under_tag_24 stack = (case stack of f # _ \<Rightarrow> fr_embeds f | [] \<Rightarrow> False)"

text \<open>\<open>while next_skip < skip.len() && skip[next_skip].0 < i { next_skip += 1; }\<close>\<close>

definition advance_skip :: "ranges \<Rightarrow> nat \<Rightarrow> nat \<Rightarrow> nat" where
  "advance_skip skip i next = next + length (takeWhile (\<lambda>r. fst r < i) (drop next skip))"

text \<open>The part of an iteration after the slot is taken: the header and what it announces.\<close>

definition scan_body :: "bytes \<Rightarrow> nat \<Rightarrow> bool \<Rightarrow> bool \<Rightarrow> bool \<Rightarrow> u8 \<Rightarrow> scan \<Rightarrow> scan + scan" where
  "scan_body bs item_ceiling collect chunk under24 initial s =
     (let major = drop_bit 5 initial in
      case scan_header bs (sc_pos s) initial of
        None \<Rightarrow> Inl s
      | Some (argument, header_len) \<Rightarrow>
          let s = s\<lparr>sc_pos := sc_pos s + header_len\<rparr>;
              s = (if major \<noteq> 6 \<and> \<not> chunk then s\<lparr>sc_items := sc_items s + 1\<rparr> else s)
          in if major \<noteq> 6 \<and> \<not> chunk \<and> item_ceiling < sc_items s then Inl s
             else scan_content bs collect chunk (collect \<and> under24 \<and> major = 2) major argument s)"

definition scan_step :: "bytes \<Rightarrow> nat \<Rightarrow> nat \<Rightarrow> bool \<Rightarrow> ranges \<Rightarrow> scan \<Rightarrow> scan + scan" where
  "scan_step bs depth_ceiling item_ceiling collect skip s =
     (let (stack, depth) = close_frames (sc_stack s) (sc_depth s);
          s = s\<lparr>sc_stack := stack, sc_depth := depth\<rparr>;
          i = sc_pos s
      in case nth_opt bs i of
           None \<Rightarrow> Inl s
         | Some initial \<Rightarrow>
             if initial = 0xff then scan_break collect s
             else
               let deeper = sc_max_depth s < depth;
                   s = (if deeper then s\<lparr>sc_max_depth := depth\<rparr> else s)
               in if deeper \<and> depth_ceiling < depth then Inl s
                  else
                    let chunk = is_chunk stack; under24 = under_tag_24 stack;
                        next = advance_skip skip i (sc_next_skip s);
                        s = s\<lparr>sc_stack := take_item stack, sc_next_skip := next\<rparr>
                    in case nth_opt skip next of
                         Some (start, end) \<Rightarrow>
                           if start = i \<and> \<not> chunk then
                             let s = s\<lparr>sc_next_skip := next + 1\<rparr>
                             in if end \<le> i \<or> length bs < end then Inl s
                                else
                                  let s = s\<lparr>sc_items := sc_items s + 1\<rparr>
                                  in if item_ceiling < sc_items s then Inl s
                                     else Inr (s\<lparr>sc_pos := end\<rparr>)
                           else scan_body bs item_ceiling collect chunk under24 initial s
                       | None \<Rightarrow> scan_body bs item_ceiling collect chunk under24 initial s)"

subsection \<open>The loop\<close>

lemma limits_read_be_bound: "limits_read_be bs i w = Some v \<Longrightarrow> i + w \<le> length bs"
  by (auto simp: limits_read_be_def slice_opt_def split: Option.bind_splits if_splits)

lemma scan_header_bound:
  "scan_header bs i b = Some (arg, len) \<Longrightarrow> i < length bs \<Longrightarrow> 0 < len \<and> i + len \<le> length bs"
  by (auto simp: scan_header_def Let_def dest!: limits_read_be_bound split: if_splits)

lemma open_frame_pos [simp]: "sc_pos (open_frame r n e spl s) = sc_pos s"
  by (simp add: open_frame_def)

lemma scan_content_pos:
  "scan_content bs collect chunk embeds major arg s = Inr s' \<Longrightarrow> sc_pos s \<le> length bs \<Longrightarrow>
     sc_pos s \<le> sc_pos s' \<and> sc_pos s' \<le> length bs"
  by (auto simp: scan_content_def scan_string_def Let_def
      split: if_splits option.splits Option.bind_splits)

lemma scan_body_pos:
  "scan_body bs ic collect chunk u24 initial s = Inr s' \<Longrightarrow> sc_pos s < length bs \<Longrightarrow>
     sc_pos s < sc_pos s' \<and> sc_pos s' \<le> length bs"
  by (auto simp: scan_body_def Let_def split: if_splits option.splits
      dest!: scan_header_bound scan_content_pos)

lemma scan_step_pos:
  assumes "scan_step bs dc ic collect skip s = Inr s'"
  shows "sc_pos s < sc_pos s' \<and> sc_pos s' \<le> length bs"
proof -
  obtain stack depth where c: "close_frames (sc_stack s) (sc_depth s) = (stack, depth)"
    by fastforce
  show ?thesis
  proof (cases "nth_opt bs (sc_pos s)")
    case None
    with assms show ?thesis by (simp add: scan_step_def c Let_def)
  next
    case (Some initial)
    then have i: "sc_pos s < length bs" by (simp add: nth_opt_Some)
    with assms Some show ?thesis
      by (auto simp: scan_step_def c scan_break_def Let_def
          split: if_splits option.splits list.splits dest!: scan_body_pos)
  qed
qed

function scan_loop :: "bytes \<Rightarrow> nat \<Rightarrow> nat \<Rightarrow> bool \<Rightarrow> ranges \<Rightarrow> scan \<Rightarrow> scan" where
  "scan_loop bs depth_ceiling item_ceiling collect skip s =
     (case scan_step bs depth_ceiling item_ceiling collect skip s of
        Inl s' \<Rightarrow> s'
      | Inr s' \<Rightarrow> scan_loop bs depth_ceiling item_ceiling collect skip s')"
  by pat_completeness auto
termination
proof (relation "measure (\<lambda>(bs, dc, ic, collect, skip, s). length bs - sc_pos s)")
  fix bs dc ic collect skip s s'
  assume "scan_step bs dc ic collect skip s = Inr s'"
  from scan_step_pos [OF this]
  show "((bs, dc, ic, collect, skip, s'), (bs, dc, ic, collect, skip, s)) \<in>
      measure (\<lambda>(bs, dc, ic, collect, skip, s). length bs - sc_pos s)"
    by auto
qed simp

declare scan_loop.simps [simp del]

record cbor_shape =
  shape_depth :: nat
  shape_items :: nat

definition scan_cbor_shape :: "bytes \<Rightarrow> nat \<Rightarrow> nat \<Rightarrow> bool \<Rightarrow> ranges \<Rightarrow> cbor_shape \<times> embedded_payload list" where
  "scan_cbor_shape bs depth_ceiling item_ceiling collect skip =
     (let s = scan_loop bs depth_ceiling item_ceiling collect skip scan_start
      in (\<lparr>shape_depth = sc_max_depth s, shape_items = sc_items s\<rparr>, sc_found s))"

definition cbor_nesting_depth_capped :: "bytes \<Rightarrow> nat \<Rightarrow> nat" where
  "cbor_nesting_depth_capped bs ceiling =
     shape_depth (fst (scan_cbor_shape bs ceiling usize_max False []))"

definition cbor_item_count_capped :: "bytes \<Rightarrow> nat \<Rightarrow> nat" where
  "cbor_item_count_capped bs ceiling =
     shape_items (fst (scan_cbor_shape bs usize_max ceiling False []))"

end
