(* ===== verification/Limits_Depth.thy ===== *)
theory Limits_Depth
  imports Limits_Scan
begin

text \<open>
  What the scans of \<open>Limits_Scan\<close> compute. Capping is exact for every input: a scan that
  stops early answers the uncapped result cut off one past the ceiling. On the encoding of a
  well-formed item the uncapped scan finds the depth and the number of items of
  \<open>Cbor_Spec\<close>.
\<close>

unbundle bit_operations_syntax

subsection \<open>Headers\<close>

lemma be_loop_foldl: "be_loop v xs = foldl (\<lambda>acc b. push_bit 8 acc OR ucast b) v xs"
  by (induction xs arbitrary: v) auto

lemma limits_read_be_eq: "limits_read_be bs at w = read_be bs at w"
  by (simp add: limits_read_be_def read_be_def be_loop_foldl)

lemma scan_header_eq:
  "nth_opt bs i = Some b \<Longrightarrow>
     scan_header bs i b = map_option (\<lambda>h. (hd_argument h, hd_len h)) (read_header bs i)"
  by (auto simp: scan_header_def read_header_def limits_read_be_eq mk_header_def Let_def
      split: Option.bind_splits)

lemma scan_header_enc:
  assumes "occurs bs i (enc_head m w n)" "m < 8" "fits w n" "length bs \<le> usize_max"
  shows "scan_header bs i (initial_byte m (additional_info w n)) = Some (Some (of_nat n), Suc (width_bytes w))"
  using read_header_enc [OF assms] scan_header_eq [of bs i] assms(1)
  by (simp add: enc_head_def occurs_Cons mk_header_def)

subsection \<open>Capping\<close>

fun either :: "'a + 'a \<Rightarrow> 'a" where
  "either (Inl x) = x"
| "either (Inr x) = x"

text \<open>The depth the next item of the scan sits at, when there is one.\<close>

definition item_level :: "bytes \<Rightarrow> scan \<Rightarrow> nat option" where
  "item_level bs s =
     (case nth_opt bs (sc_pos s) of
        Some b \<Rightarrow> if b = 0xff then None else Some (snd (close_frames (sc_stack s) (sc_depth s)))
      | None \<Rightarrow> None)"

definition too_deep :: "bytes \<Rightarrow> nat \<Rightarrow> scan \<Rightarrow> bool" where
  "too_deep bs dc s \<longleftrightarrow>
     (case item_level bs s of Some d \<Rightarrow> sc_max_depth s < d \<and> dc < d | None \<Rightarrow> False)"

lemma open_frame_simps [simp]:
  "sc_max_depth (open_frame r n e spl s) = sc_max_depth s"
  "sc_items (open_frame r n e spl s) = sc_items s"
  "sc_depth (open_frame r n e spl s) = (if n then Suc (sc_depth s) else sc_depth s)"
  by (simp_all add: open_frame_def)

lemma scan_content_max_depth:
  "sc_max_depth (either (scan_content bs c ch e m a s)) = sc_max_depth s"
  by (simp add: scan_content_def scan_string_def Let_def split: option.split)

lemma scan_content_items:
  "sc_items (either (scan_content bs c ch e m a s)) = sc_items s"
  by (simp add: scan_content_def scan_string_def Let_def split: option.split)

lemma scan_content_depth:
  "sc_depth (either (scan_content bs c ch e m a s)) \<le> Suc (sc_depth s)"
  by (simp add: scan_content_def scan_string_def Let_def split: option.split)

lemma scan_body_max_depth:
  "sc_max_depth (either (scan_body bs ic c ch u b s)) = sc_max_depth s"
  by (auto simp: scan_body_def Let_def scan_content_max_depth split: option.split)

lemma scan_body_depth:
  "sc_depth (either (scan_body bs ic c ch u b s)) \<le> Suc (sc_depth s)"
  using scan_content_depth
  by (fastforce simp: scan_body_def Let_def split: option.split intro: order.trans)

lemma close_frames_depth: "snd (close_frames st d) \<le> d"
  by (induction st d rule: close_frames.induct) (auto intro: order.trans)

lemma scan_step_max_depth:
  "sc_max_depth (either (scan_step bs dc ic c skip s)) =
     (case item_level bs s of Some d \<Rightarrow> max (sc_max_depth s) d | None \<Rightarrow> sc_max_depth s)"
proof -
  obtain st d where c: "close_frames (sc_stack s) (sc_depth s) = (st, d)"
    by fastforce
  show ?thesis
  proof (cases "nth_opt bs (sc_pos s)")
    case None
    then show ?thesis by (simp add: scan_step_def item_level_def c Let_def)
  next
    case (Some b)
    then show ?thesis
      by (auto simp: scan_step_def item_level_def c Let_def scan_break_def scan_body_max_depth
          split: option.splits list.splits)
  qed
qed

lemma scan_step_depth:
  assumes "scan_step bs dc ic c skip s = Inr s'" "sc_depth s \<le> Suc (sc_max_depth s)"
  shows "sc_depth s' \<le> Suc (sc_max_depth s')"
proof -
  obtain st d where c: "close_frames (sc_stack s) (sc_depth s) = (st, d)"
    by fastforce
  have d: "d \<le> sc_depth s"
    using close_frames_depth [of "sc_stack s" "sc_depth s"] c by simp
  obtain b where b: "nth_opt bs (sc_pos s) = Some b"
    using assms(1) by (cases "nth_opt bs (sc_pos s)") (auto simp: scan_step_def c Let_def)
  have body: "sc_depth s' \<le> Suc (sc_depth t)" if "scan_body bs ic c ch u b t = Inr s'" for ch u t
    using scan_body_depth [of bs ic c ch u b t] that by simp
  have "sc_depth s' \<le> (if b = 0xff then d else Suc d)"
    using assms(1) b
    by (auto simp: scan_step_def c Let_def scan_break_def dest!: body
        split: if_splits option.splits list.splits)
  moreover have "sc_max_depth s' = (if b = 0xff then sc_max_depth s else max (sc_max_depth s) d)"
    using scan_step_max_depth [of bs dc ic c skip s] assms(1) b by (simp add: item_level_def c)
  ultimately show ?thesis
    using assms(2) d by (auto split: if_splits)
qed

lemma scan_step_too_deep:
  assumes "too_deep bs dc s"
  shows "\<exists>s'. scan_step bs dc ic c skip s = Inl s'"
proof -
  obtain st d where "close_frames (sc_stack s) (sc_depth s) = (st, d)"
    by fastforce
  with assms show ?thesis
    by (auto simp: too_deep_def item_level_def scan_step_def Let_def split: option.splits if_splits)
qed

lemma scan_step_cap:
  assumes "\<not> too_deep bs dc s" "dc \<le> dc'"
  shows "scan_step bs dc ic c skip s = scan_step bs dc' ic c skip s"
proof -
  obtain st d where cl: "close_frames (sc_stack s) (sc_depth s) = (st, d)"
    by fastforce
  show ?thesis
  proof (cases "nth_opt bs (sc_pos s)")
    case None
    then show ?thesis by (simp add: scan_step_def cl Let_def)
  next
    case (Some b)
    have "\<not> (sc_max_depth s < d \<and> dc < d) \<or> b = 0xff"
      using assms(1) Some by (cases "b = 0xff") (auto simp: too_deep_def item_level_def cl)
    then show ?thesis
      using assms(2) Some by (auto simp: scan_step_def cl Let_def)
  qed
qed

lemma scan_loop_max_depth_mono: "sc_max_depth s \<le> sc_max_depth (scan_loop bs dc ic c skip s)"
proof (induction bs dc ic c skip s rule: scan_loop.induct)
  case (1 bs dc ic c skip s)
  have "sc_max_depth s \<le> sc_max_depth (either (scan_step bs dc ic c skip s))"
    by (simp add: scan_step_max_depth split: option.split)
  with "1" show ?case
    by (cases "scan_step bs dc ic c skip s")
      (auto simp: scan_loop.simps [of bs dc ic c skip s] intro: order.trans)
qed

text \<open>Cutting the scan off at a depth changes nothing but what lies past the ceiling.\<close>

lemma scan_loop_depth_capped:
  assumes "dc \<le> dc'" "sc_max_depth s \<le> dc" "sc_depth s \<le> Suc (sc_max_depth s)"
  shows "sc_max_depth (scan_loop bs dc ic c skip s) =
    min (sc_max_depth (scan_loop bs dc' ic c skip s)) (Suc dc)"
  using assms
proof (induction bs dc ic c skip s rule: scan_loop.induct)
  case (1 bs dc ic c skip s)
  let ?cap = "scan_step bs dc ic c skip s" and ?full = "scan_step bs dc' ic c skip s"
  show ?case
  proof (cases "too_deep bs dc s")
    case True
    then obtain d where d: "item_level bs s = Some d" "sc_max_depth s < d" "dc < d"
      by (auto simp: too_deep_def split: option.splits)
    have "d \<le> sc_depth s"
      using d(1) close_frames_depth [of "sc_stack s" "sc_depth s"]
      by (auto simp: item_level_def split: option.splits if_splits)
    with d "1.prems" have [simp]: "d = Suc dc"
      by simp
    from scan_step_too_deep [OF True] obtain s' where s': "?cap = Inl s'" by blast
    then have "sc_max_depth (scan_loop bs dc ic c skip s) = Suc dc"
      using scan_step_max_depth [of bs dc ic c skip s] d "1.prems"
      by (simp add: scan_loop.simps [of bs dc ic c skip s])
    moreover have "Suc dc \<le> sc_max_depth (scan_loop bs dc' ic c skip s)"
      using scan_step_max_depth [of bs dc' ic c skip s] d "1.prems"
        scan_loop_max_depth_mono [of "either ?full" bs dc' ic c skip]
      by (cases ?full) (simp_all add: scan_loop.simps [of bs dc' ic c skip s])
    ultimately show ?thesis by simp
  next
    case False
    note eq = scan_step_cap [OF False "1.prems"(1), of ic c skip]
    have small: "sc_max_depth (either ?cap) \<le> dc"
      using False "1.prems"(2)
      by (auto simp: scan_step_max_depth too_deep_def split: option.splits)
    show ?thesis
    proof (cases ?cap)
      case (Inl s')
      moreover from Inl eq have "?full = Inl s'" by simp
      ultimately show ?thesis
        using small by (simp add: scan_loop.simps [of bs dc ic c skip s] scan_loop.simps [of bs dc' ic c skip s])
    next
      case (Inr s')
      moreover from Inr eq have "?full = Inr s'" by simp
      ultimately show ?thesis
        using small "1.IH" [OF Inr "1.prems"(1)] scan_step_depth [OF Inr "1.prems"(3)]
        by (simp add: scan_loop.simps [of bs dc ic c skip s] scan_loop.simps [of bs dc' ic c skip s])
    qed
  qed
qed

text \<open>The same for the item ceiling.\<close>

definition cut_at :: "nat \<Rightarrow> scan + scan \<Rightarrow> scan + scan \<Rightarrow> bool" where
  "cut_at ic r r' \<longleftrightarrow>
     r = r' \<and> sc_items (either r) \<le> ic \<or>
     (\<exists>s'. r = Inl s' \<and> sc_items s' = Suc ic) \<and> sc_items (either r') = Suc ic"

lemma scan_body_cut:
  assumes "ic \<le> ic'" "sc_items s \<le> ic"
  shows "cut_at ic (scan_body bs ic c ch u b s) (scan_body bs ic' c ch u b s)"
proof (cases "scan_header bs (sc_pos s) b")
  case None
  with assms show ?thesis by (simp add: scan_body_def cut_at_def Let_def)
next
  case (Some p)
  with assms show ?thesis
    by (cases p) (auto simp: scan_body_def cut_at_def Let_def scan_content_items)
qed

lemma scan_step_cut:
  assumes "ic \<le> ic'" "sc_items s \<le> ic"
  shows "cut_at ic (scan_step bs dc ic c skip s) (scan_step bs dc ic' c skip s)"
proof -
  obtain st d where cl: "close_frames (sc_stack s) (sc_depth s) = (st, d)"
    by fastforce
  show ?thesis
  proof (cases "nth_opt bs (sc_pos s)")
    case None
    with assms show ?thesis by (simp add: scan_step_def cl Let_def cut_at_def)
  next
    case (Some b)
    show ?thesis
    proof (cases "b = 0xff \<or> sc_max_depth s < d \<and> dc < d")
      case True
      with Some assms show ?thesis
        by (auto simp: scan_step_def cl Let_def cut_at_def scan_break_def split: list.split)
    next
      case False
      let ?n = "advance_skip skip (sc_pos s) (sc_next_skip s)"
      show ?thesis
      proof (cases "nth_opt skip ?n")
        case None
        with False Some assms show ?thesis
          by (simp add: scan_step_def cl Let_def scan_body_cut)
      next
        case (Some r)
        obtain x y where r: "r = (x, y)" by fastforce
        note facts = Some r False \<open>nth_opt bs (sc_pos s) = Some b\<close> assms
        show ?thesis
        proof (cases "x = sc_pos s \<and> \<not> is_chunk st")
          case True
          with facts this show ?thesis
            by (simp add: scan_step_def cl Let_def) (simp add: cut_at_def)
        next
          case False
          then have "(x = sc_pos s \<and> \<not> is_chunk st) = False" by simp
          note no_skip = this
          from facts show ?thesis
            by (simp add: scan_step_def cl Let_def scan_body_cut no_skip)
        qed
      qed
    qed
  qed
qed

lemma scan_body_items_mono:
  "n \<le> sc_items s \<Longrightarrow> n \<le> sc_items (either (scan_body bs ic c ch u b s))"
  by (auto simp: scan_body_def Let_def scan_content_items split: option.split)

lemma scan_break_items: "sc_items (either (scan_break c s)) = sc_items s"
  by (auto simp: scan_break_def split: list.split)

lemma scan_step_items_mono: "sc_items s \<le> sc_items (either (scan_step bs dc ic c skip s))"
  by (auto simp: scan_step_def Let_def scan_break_items split: option.split prod.split
      intro!: scan_body_items_mono)

lemma scan_loop_items_mono: "sc_items s \<le> sc_items (scan_loop bs dc ic c skip s)"
proof (induction bs dc ic c skip s rule: scan_loop.induct)
  case (1 bs dc ic c skip s)
  with scan_step_items_mono [of s bs dc ic c skip] show ?case
    by (cases "scan_step bs dc ic c skip s")
      (auto simp: scan_loop.simps [of bs dc ic c skip s] intro: order.trans)
qed

lemma scan_loop_items_capped:
  assumes "ic \<le> ic'" "sc_items s \<le> ic"
  shows "sc_items (scan_loop bs dc ic c skip s) = min (sc_items (scan_loop bs dc ic' c skip s)) (Suc ic)"
  using assms
proof (induction bs dc ic c skip s rule: scan_loop.induct)
  case (1 bs dc ic c skip s)
  let ?cap = "scan_step bs dc ic c skip s" and ?full = "scan_step bs dc ic' c skip s"
  from scan_step_cut [OF "1.prems", of bs dc c skip] consider
      (same) "?cap = ?full" "sc_items (either ?cap) \<le> ic"
    | (cut) s' where "?cap = Inl s'" "sc_items s' = Suc ic" "sc_items (either ?full) = Suc ic"
    by (auto simp: cut_at_def)
  then show ?case
  proof cases
    case same
    show ?thesis
    proof (cases ?cap)
      case (Inl s')
      moreover from Inl same have "?full = Inl s'" by simp
      ultimately show ?thesis
        using same
        by (simp add: scan_loop.simps [of bs dc ic c skip s] scan_loop.simps [of bs dc ic' c skip s])
    next
      case (Inr s')
      moreover from Inr same have "?full = Inr s'" by simp
      ultimately show ?thesis
        using same "1.IH" [OF Inr "1.prems"(1)]
        by (simp add: scan_loop.simps [of bs dc ic c skip s] scan_loop.simps [of bs dc ic' c skip s])
    qed
  next
    case cut
    then have "Suc ic \<le> sc_items (scan_loop bs dc ic' c skip s)"
      using scan_loop_items_mono [of "either ?full" bs dc ic' c skip]
      by (cases ?full) (simp_all add: scan_loop.simps [of bs dc ic' c skip s])
    with cut show ?thesis
      by (simp add: scan_loop.simps [of bs dc ic c skip s])
  qed
qed

subsection \<open>Scanning one item\<close>

text \<open>A state of a plain scan: nothing skipped, nothing collected.\<close>

definition plain :: "frame list \<Rightarrow> nat \<Rightarrow> nat \<Rightarrow> nat \<Rightarrow> nat \<Rightarrow> scan" where
  "plain stack depth max_depth items pos =
     \<lparr>sc_stack = stack, sc_depth = depth, sc_max_depth = max_depth, sc_items = items,
      sc_pos = pos, sc_next_skip = 0, sc_found = []\<rparr>"

abbreviation run :: "bytes \<Rightarrow> scan \<Rightarrow> scan" where
  "run bs s \<equiv> scan_loop bs usize_max usize_max False [] s"

definition no_full_top :: "frame list \<Rightarrow> bool" where
  "no_full_top stack \<longleftrightarrow> (case stack of f # _ \<Rightarrow> fr_remaining f \<noteq> Some 0 | [] \<Rightarrow> True)"

lemma close_frames_id: "no_full_top stack \<Longrightarrow> close_frames stack d = (stack, d)"
  by (cases stack) (auto simp: no_full_top_def)

lemma plain_simps [simp]:
  "sc_stack (plain st d md it p) = st" "sc_depth (plain st d md it p) = d"
  "sc_max_depth (plain st d md it p) = md" "sc_items (plain st d md it p) = it"
  "sc_pos (plain st d md it p) = p" "sc_next_skip (plain st d md it p) = 0"
  "sc_found (plain st d md it p) = []"
  by (simp_all add: plain_def)

lemma plain_updates [simp]:
  "(plain st d md it p)\<lparr>sc_stack := st'\<rparr> = plain st' d md it p"
  "(plain st d md it p)\<lparr>sc_depth := d'\<rparr> = plain st d' md it p"
  "(plain st d md it p)\<lparr>sc_max_depth := md'\<rparr> = plain st d md' it p"
  "(plain st d md it p)\<lparr>sc_items := it'\<rparr> = plain st d md it' p"
  "(plain st d md it p)\<lparr>sc_pos := p'\<rparr> = plain st d md it p'"
  "(plain st d md it p)\<lparr>sc_next_skip := 0\<rparr> = plain st d md it p"
  "(plain st d md it p)\<lparr>sc_found := []\<rparr> = plain st d md it p"
  by (simp_all add: plain_def)

lemma advance_skip_Nil [simp]: "advance_skip [] i n = n"
  by (simp add: advance_skip_def)

text \<open>A full container on top of the stack is closed before anything else happens.\<close>

lemma run_close:
  "fr_remaining f = Some 0 \<Longrightarrow>
     run bs (plain (f # st) d md it p) =
     run bs (plain st (if fr_nests f then d - 1 else d) md it p)"
  by (subst (1 2) scan_loop.simps) (simp add: scan_step_def)

lemma run_step:
  "scan_step bs usize_max usize_max False [] s = Inr s' \<Longrightarrow> run bs s = run bs s'"
  by (simp add: scan_loop.simps [of bs usize_max usize_max False "[]" s])

lemma scan_step_plain:
  assumes "no_full_top st" "nth_opt bs p = Some b" "b \<noteq> 0xff" "d \<le> usize_max"
  shows "scan_step bs usize_max ic False [] (plain st d md it p) =
    scan_body bs ic False (is_chunk st) (under_tag_24 st) b (plain (take_item st) d (max md d) it p)"
  using assms by (auto simp: scan_step_def close_frames_id Let_def max_def)

lemma scan_body_plain:
  assumes "scan_header bs p b = Some (arg, len)" "drop_bit 5 b \<noteq> (6 :: u8) \<Longrightarrow> \<not> ch \<Longrightarrow> it < ic"
  shows "scan_body bs ic False ch u b (plain st d md it p) =
    scan_content bs False ch False (drop_bit 5 b) arg
      (plain st d md (if drop_bit 5 b \<noteq> (6 :: u8) \<and> \<not> ch then Suc it else it) (p + len))"
  using assms by (auto simp: scan_body_def Let_def)

text \<open>One header of an encoded item, followed by its contents.\<close>

lemma run_header:
  assumes occ: "occurs bs p (enc_head m w n)" and "m < 8" "fits w n" "length bs \<le> usize_max"
    and "no_full_top st" "d \<le> usize_max" "m \<noteq> 6 \<Longrightarrow> \<not> is_chunk st \<Longrightarrow> it < usize_max"
    and content: "scan_content bs False (is_chunk st) False (of_nat m) (Some (of_nat n))
      (plain (take_item st) d (max md d) (if m \<noteq> 6 \<and> \<not> is_chunk st then Suc it else it)
         (p + Suc (width_bytes w))) = Inr s'"
  shows "run bs (plain st d md it p) = run bs s'"
proof -
  let ?b = "initial_byte m (additional_info w n)"
  have info: "additional_info w n < 31"
    using assms(3) by (cases w) auto
  have b: "nth_opt bs p = Some ?b" "?b \<noteq> 0xff"
    using occ initial_byte_break [OF assms(2), of "additional_info w n"] info
    by (auto simp: enc_head_def occurs_Cons)
  have major: "drop_bit 5 ?b = (of_nat m :: u8)"
    using initial_byte_major [OF assms(2)] info by simp
  have six: "(of_nat m :: u8) = 6 \<longleftrightarrow> m = 6"
    using assms(2) by (simp add: word_unat_eq_iff unat_of_nat take_bit_eq_mod)
  note body = scan_body_plain [OF scan_header_enc [OF occ assms(2-4)], of "is_chunk st" it,
      unfolded major six, OF assms(7)]
  have "scan_step bs usize_max usize_max False [] (plain st d md it p) = Inr s'"
    using content by (subst scan_step_plain [OF assms(5) b assms(6)]) (simp add: body)
  then show ?thesis by (rule run_step)
qed

lemma run_indef_header:
  assumes "nth_opt bs p = Some (initial_byte m 31)" "m < 6"
    and "no_full_top st" "d \<le> usize_max" "it < usize_max"
    and content: "scan_content bs False (is_chunk st) False (of_nat m) None
      (plain (take_item st) d (max md d) (if \<not> is_chunk st then Suc it else it) (Suc p)) = Inr s'"
  shows "run bs (plain st d md it p) = run bs s'"
proof -
  let ?b = "initial_byte m 31"
  have "?b \<noteq> 0xff" "drop_bit 5 ?b = (of_nat m :: u8)"
    using assms(2) initial_byte_break [of m 31] initial_byte_major [of m 31] by auto
  moreover have "scan_header bs p ?b = Some (None, 1)"
    using scan_header_eq [OF assms(1)] read_header_indefinite [OF assms(1)] assms(2)
    by (simp add: mk_header_def)
  moreover have "(of_nat m :: u8) \<noteq> 6"
    using assms(2) by (simp add: word_unat_eq_iff unat_of_nat take_bit_eq_mod)
  ultimately have "scan_step bs usize_max usize_max False [] (plain st d md it p) = Inr s'"
    using content assms(5)
    by (subst scan_step_plain [OF assms(3,1) _ assms(4)]) (simp_all add: scan_body_plain)
  then show ?thesis by (rule run_step)
qed

lemma run_break:
  assumes "nth_opt bs p = Some 0xff" "fr_remaining f = None"
  shows "run bs (plain (f # st) d md it p) =
    run bs (plain st (if fr_nests f then d - 1 else d) md it (Suc p))"
proof -
  have "no_full_top (f # st)"
    using assms(2) by (simp add: no_full_top_def)
  then show ?thesis
    using assms
    by (intro run_step) (auto simp: scan_step_def close_frames_id scan_break_def Let_def
        split: option.split)
qed

lemma open_frame_plain [simp]:
  "open_frame r n e spl (plain st d md it p) =
     plain (\<lparr>fr_remaining = r, fr_nests = n, fr_embeds = e, fr_splice = spl\<rparr> # st)
       (if n then Suc d else d) md it p"
  by (simp add: open_frame_def plain_def)

definition scans :: "bytes \<Rightarrow> item \<Rightarrow> bool" where
  "scans bs x \<longleftrightarrow>
     (\<forall>st d md it p. occurs bs p (encode x) \<longrightarrow> no_full_top st \<longrightarrow> \<not> is_chunk st \<longrightarrow>
        it + item_count x \<le> usize_max \<longrightarrow> d + item_depth x \<le> usize_max \<longrightarrow>
        run bs (plain st d md it p) =
        run bs (plain (take_item st) d (max md (d + item_depth x)) (it + item_count x)
          (p + length (encode x))))"

lemma item_count_pos: "0 < item_count x"
  by (induction x) auto

abbreviation takes :: "nat \<Rightarrow> frame list \<Rightarrow> frame list" where
  "takes k st \<equiv> (take_item ^^ k) st"

lemma is_chunk_take [simp]: "is_chunk (take_item st) = is_chunk st"
  by (cases st) (auto simp: is_chunk_def split: option.split)

definition counted :: "nat \<Rightarrow> bool \<Rightarrow> frame" where
  "counted n e = \<lparr>fr_remaining = Some n, fr_nests = True, fr_embeds = e, fr_splice = None\<rparr>"

definition indefinite :: "bool \<Rightarrow> frame" where
  "indefinite nests = \<lparr>fr_remaining = None, fr_nests = nests, fr_embeds = False, fr_splice = None\<rparr>"

lemma takes_counted [simp]: "takes k (counted n e # st) = counted (n - k) e # st"
  by (induction k arbitrary: n) (auto simp: counted_def)

lemma takes_indefinite [simp]: "takes k (indefinite b # st) = indefinite b # st"
  by (induction k) (auto simp: indefinite_def)

definition deepest :: "nat \<Rightarrow> nat \<Rightarrow> item list \<Rightarrow> nat" where
  "deepest d md xs = foldl (\<lambda>m x. max m (d + item_depth x)) md xs"

lemma deepest_children:
  "d \<le> md \<Longrightarrow>
     deepest (Suc d) md xs = max md (d + max_list (map (\<lambda>x. Suc (item_depth x)) xs))"
proof (induction xs arbitrary: md)
  case (Cons x xs)
  have "deepest (Suc d) md (x # xs) = deepest (Suc d) (max md (Suc d + item_depth x)) xs"
    by (simp add: deepest_def)
  also have "\<dots> = max (max md (Suc d + item_depth x))
      (d + max_list (map (\<lambda>x. Suc (item_depth x)) xs))"
    using Cons.prems by (intro Cons.IH) linarith
  finally show ?case by (simp add: nat_add_max_right max.assoc)
qed (simp add: deepest_def)

lemma scansD:
  assumes "scans bs x" "occurs bs p (encode x)" "no_full_top st" "\<not> is_chunk st"
    and "it + item_count x \<le> usize_max" "d + item_depth x \<le> usize_max"
  shows "run bs (plain st d md it p) =
    run bs (plain (take_item st) d (max md (d + item_depth x)) (it + item_count x)
      (p + length (encode x)))"
  using assms unfolding scans_def by blast

lemma scans_list:
  assumes "\<forall>x \<in> set xs. scans bs x" "occurs bs p (encodes xs)"
    and "\<And>k. k < length xs \<Longrightarrow> no_full_top (takes k st)" "\<not> is_chunk st"
    and "it + sum_list (map item_count xs) \<le> usize_max"
    and "\<forall>x \<in> set xs. d + item_depth x \<le> usize_max"
  shows "run bs (plain st d md it p) =
    run bs (plain (takes (length xs) st) d (deepest d md xs) (it + sum_list (map item_count xs))
      (p + length (encodes xs)))"
  using assms
proof (induction xs arbitrary: st md it p)
  case (Cons x xs)
  have occ: "occurs bs p (encode x)" "occurs bs (p + length (encode x)) (encodes xs)"
    using Cons.prems(2) by (simp_all add: occurs_append)
  have top: "no_full_top (takes k (take_item st))" if "k < length xs" for k
    using Cons.prems(3) [of "Suc k"] that by (simp add: funpow_swap1)
  have "run bs (plain st d md it p) =
      run bs (plain (take_item st) d (max md (d + item_depth x)) (it + item_count x) (p + length (encode x)))"
    using Cons.prems(1,4,5,6) Cons.prems(3) [of 0] by (intro scansD occ) simp_all
  also have "\<dots> = run bs (plain (takes (length xs) (take_item st)) d
      (deepest d (max md (d + item_depth x)) xs)
      (it + item_count x + sum_list (map item_count xs)) (p + length (encode x) + length (encodes xs)))"
    using Cons.prems(1,4,5,6) by (intro Cons.IH top occ) simp_all
  finally show ?case by (simp add: deepest_def add.assoc funpow_swap1)
qed (simp add: deepest_def)

lemma max_list_bound: "x \<in> set xs \<Longrightarrow> f x \<le> max_list (map f xs)"
  by (induction xs) auto


lemma counted_props [simp]:
  "is_chunk (counted n e # st) = False" "no_full_top (counted n e # st) = (n \<noteq> 0)"
  "fr_remaining (counted n e) = Some n" "fr_nests (counted n e) = True"
  by (simp_all add: counted_def is_chunk_def no_full_top_def)

lemma indefinite_props [simp]:
  "is_chunk (indefinite b # st) = (\<not> b)" "no_full_top (indefinite b # st)"
  "fr_remaining (indefinite b) = None" "fr_nests (indefinite b) = b"
  by (simp_all add: indefinite_def is_chunk_def no_full_top_def)

text \<open>The items of a container of a declared length, and the container closed.\<close>

lemma run_counted:
  assumes "\<forall>x \<in> set xs. scans bs x" "occurs bs p (encodes xs)" "d \<le> md"
    and "it + sum_list (map item_count xs) \<le> usize_max"
    and "d + max_list (map (\<lambda>x. Suc (item_depth x)) xs) \<le> usize_max"
  shows "run bs (plain (counted (length xs) e # st) (Suc d) md it p) =
    run bs (plain st d (max md (d + max_list (map (\<lambda>x. Suc (item_depth x)) xs)))
      (it + sum_list (map item_count xs)) (p + length (encodes xs)))"
proof -
  have "Suc d + item_depth x \<le> usize_max" if "x \<in> set xs" for x
    using max_list_bound [OF that, of "\<lambda>x. Suc (item_depth x)"] assms(5) by simp
  then have "run bs (plain (counted (length xs) e # st) (Suc d) md it p) =
      run bs (plain (counted 0 e # st) (Suc d) (deepest (Suc d) md xs)
        (it + sum_list (map item_count xs)) (p + length (encodes xs)))"
    using scans_list [OF assms(1,2), of "counted (length xs) e # st" it "Suc d" md] assms(4) by simp
  then show ?thesis
    by (simp add: run_close deepest_children [OF assms(3)])
qed

lemma run_indefinite:
  assumes "\<forall>x \<in> set xs. scans bs x" "occurs bs p (encodes xs @ [0xff])" "d \<le> md"
    and "it + sum_list (map item_count xs) \<le> usize_max"
    and "d + max_list (map (\<lambda>x. Suc (item_depth x)) xs) \<le> usize_max"
  shows "run bs (plain (indefinite True # st) (Suc d) md it p) =
    run bs (plain st d (max md (d + max_list (map (\<lambda>x. Suc (item_depth x)) xs)))
      (it + sum_list (map item_count xs)) (Suc (p + length (encodes xs))))"
proof -
  have occ: "occurs bs p (encodes xs)" "nth_opt bs (p + length (encodes xs)) = Some 0xff"
    using assms(2) by (simp_all add: occurs_append occurs_Cons)
  have "Suc d + item_depth x \<le> usize_max" if "x \<in> set xs" for x
    using max_list_bound [OF that, of "\<lambda>x. Suc (item_depth x)"] assms(5) by simp
  then have "run bs (plain (indefinite True # st) (Suc d) md it p) =
      run bs (plain (indefinite True # st) (Suc d) (deepest (Suc d) md xs)
        (it + sum_list (map item_count xs)) (p + length (encodes xs)))"
    using scans_list [OF assms(1) occ(1), of "indefinite True # st" it "Suc d" md] assms(4) by simp
  then show ?thesis
    by (simp add: run_break [OF occ(2)] deepest_children [OF assms(3)])
qed

text \<open>The contents of a string of known length are stepped over.\<close>

lemma scan_content_string:
  assumes "m \<in> {2, 3}" "p + n \<le> length bs" "length bs \<le> usize_max"
  shows "scan_content bs False ch False (of_nat m) (Some (of_nat n)) (plain st d md it p) =
    Inr (plain st d md it (p + n))"
proof -
  have n: "n \<le> usize_max" "p + n \<le> usize_max" using assms by simp_all
  have "usize_of_u64 (of_nat n) = Some n"
    using n(1) by (rule usize_of_u64_of_nat)
  moreover have "usize_checked_add p n = Some (p + n)"
    using n by (simp add: usize_checked_add_def)
  ultimately have "scan_string bs False ch False (of_nat m) (Some (of_nat n)) (plain st d md it p) =
      Inr (plain st d md it (p + n))"
    using assms(2) by (simp add: scan_string_def del: usize_of_u64_Some usize_checked_add_Some)
  moreover have "of_nat m = (2 :: u8) \<or> of_nat m = (3 :: u8)"
    using assms(1) by auto
  ultimately show ?thesis by (simp add: scan_content_def)
qed

lemma length_enc_chunk [simp]:
  "length (enc_chunk m c) = Suc (width_bytes (fst c) + length (snd c))"
  by (simp add: enc_chunk_def)

lemma run_chunks:
  assumes "\<forall>c \<in> set chunks. fits (fst c) (length (snd c))" "m \<in> {2, 3}"
    and "occurs bs p (concat (map (enc_chunk m) chunks) @ [0xff])" "length bs \<le> usize_max"
    and "d \<le> md" "d \<le> usize_max"
  shows "run bs (plain (indefinite False # st) d md it p) =
    run bs (plain st d md it (Suc (p + length (concat (map (enc_chunk m) chunks)))))"
  using assms(1,3)
proof (induction chunks arbitrary: p)
  case Nil
  then show ?case by (simp add: occurs_Cons run_break)
next
  case (Cons c chunks)
  obtain w payload where c: "c = (w, payload)" by fastforce
  have head: "occurs bs p (enc_head m w (length payload))"
      "p + Suc (width_bytes w) + length payload \<le> length bs" and w: "fits w (length payload)"
    using Cons.prems c by (auto simp: enc_chunk_def occurs_append dest: occurs_length)
  have "scan_content bs False True False (of_nat m) (Some (of_nat (length payload)))
      (plain (indefinite False # st) d md it (p + Suc (width_bytes w))) =
      Inr (plain (indefinite False # st) d md it (p + Suc (width_bytes w) + length payload))"
    using assms(2) head(2) assms(4) by (rule scan_content_string)
  then have "run bs (plain (indefinite False # st) d md it p) =
      run bs (plain (indefinite False # st) d md it (p + Suc (width_bytes w) + length payload))"
    using assms(2,5,6) takes_indefinite [of 1 False st]
    by (intro run_header [OF head(1) _ w assms(4)]) (auto simp: max_absorb1)
  also have "\<dots> = run bs (plain st d md it
      (Suc (p + Suc (width_bytes w) + length payload + length (concat (map (enc_chunk m) chunks)))))"
    using Cons.prems c by (intro Cons.IH) (auto simp: enc_chunk_def occurs_append add.assoc)
  finally show ?case using c by (simp add: add.assoc)
qed


lemma scan_content_open:
  "0 < n \<Longrightarrow> n \<le> usize_max \<Longrightarrow>
     scan_content bs False ch False (of_nat 4) (Some (of_nat n)) (plain st d md it p) =
     Inr (plain (counted n False # st) (Suc d) md it p)"
  "0 < n \<Longrightarrow> 2 * n \<le> usize_max \<Longrightarrow>
     scan_content bs False ch False (of_nat 5) (Some (of_nat n)) (plain st d md it p) =
     Inr (plain (counted (2 * n) False # st) (Suc d) md it p)"
  "scan_content bs False ch False (of_nat 6) (Some (of_nat n)) (plain st d md it p) =
     Inr (plain (counted 1 (of_nat n = (24 :: u64)) # st) (Suc d) md it p)"
  using u64_of_nat_eq_0 [OF usize_max_less_u64, of n] usize_of_u64_of_nat [of n]
  by (simp_all add: scan_content_def usize_checked_mul_def counted_def mult.commute
      del: usize_of_u64_Some)

lemma scan_content_empty:
  "m \<in> {4, 5} \<Longrightarrow>
     scan_content bs False ch False (of_nat m) (Some (of_nat 0)) (plain st d md it p) =
     Inr (plain st d md it p)"
  by (auto simp: scan_content_def)

lemma scan_content_indef:
  "m \<in> {4, 5} \<Longrightarrow>
     scan_content bs False ch False (of_nat m) None (plain st d md it p) =
     Inr (plain (indefinite True # st) (Suc d) md it p)"
  "m \<in> {2, 3} \<Longrightarrow>
     scan_content bs False ch False (of_nat m) None (plain st d md it p) =
     Inr (plain (indefinite False # st) d md it p)"
  by (auto simp: scan_content_def scan_string_def indefinite_def)

lemma scan_content_scalar:
  "m \<in> {0, 1, 7} \<Longrightarrow>
     scan_content bs False ch False (of_nat m) arg (plain st d md it p) = Inr (plain st d md it p)"
  by (auto simp: scan_content_def)

lemma scans_scalar:
  assumes "well_formed (Scalar m w n)" "length bs \<le> usize_max"
  shows "scans bs (Scalar m w n)"
  unfolding scans_def
proof (intro allI impI)
  fix st d md it p
  assume "occurs bs p (encode (Scalar m w n))" "no_full_top st" "\<not> is_chunk st"
    "it + item_count (Scalar m w n) \<le> usize_max" "d + item_depth (Scalar m w n) \<le> usize_max"
  moreover from assms have "m \<in> {0, 1, 7}" "m < 8" "fits w n" by auto
  ultimately show "run bs (plain st d md it p) = run bs (plain (take_item st) d
      (max md (d + item_depth (Scalar m w n))) (it + item_count (Scalar m w n))
      (p + length (encode (Scalar m w n))))"
    using assms(2) by (intro run_header [of _ _ m w n]) (auto simp: scan_content_scalar)
qed

lemma scans_str:
  assumes "well_formed (Str m w payload)" "length bs \<le> usize_max"
  shows "scans bs (Str m w payload)"
  unfolding scans_def
proof (intro allI impI)
  fix st d md it p
  assume h: "occurs bs p (encode (Str m w payload))" "no_full_top st" "\<not> is_chunk st"
    "it + item_count (Str m w payload) \<le> usize_max" "d + item_depth (Str m w payload) \<le> usize_max"
  from assms have m: "m \<in> {2, 3}" "m < 8" "m \<noteq> 6" "fits w (length payload)" by auto
  have "occurs bs p (enc_head m w (length payload))"
    "p + Suc (width_bytes w) + length payload \<le> length bs"
    using h(1) by (auto simp: occurs_append dest: occurs_length)
  then show "run bs (plain st d md it p) = run bs (plain (take_item st) d
      (max md (d + item_depth (Str m w payload))) (it + item_count (Str m w payload))
      (p + length (encode (Str m w payload))))"
    using h m assms(2)
    by (intro run_header [of _ _ m w "length payload"])
      (simp_all add: scan_content_string add.assoc)
qed

lemma scans_str_indef:
  assumes "well_formed (StrIndef m chunks)" "length bs \<le> usize_max"
  shows "scans bs (StrIndef m chunks)"
  unfolding scans_def
proof (intro allI impI)
  fix st d md it p
  let ?x = "StrIndef m chunks"
  assume h: "occurs bs p (encode ?x)" "no_full_top st" "\<not> is_chunk st"
    "it + item_count ?x \<le> usize_max" "d + item_depth ?x \<le> usize_max"
  from assms have m: "m \<in> {2, 3}" "m < 6" "\<forall>c \<in> set chunks. fits (fst c) (length (snd c))"
    by auto
  have occ: "nth_opt bs p = Some (initial_byte m 31)"
    "occurs bs (Suc p) (concat (map (enc_chunk m) chunks) @ [0xff])"
    using h(1) by (simp_all add: occurs_Cons)
  have "run bs (plain st d md it p) =
      run bs (plain (indefinite False # take_item st) d (max md d) (Suc it) (Suc p))"
    using h m by (intro run_indef_header [OF occ(1) m(2)]) (simp_all add: scan_content_indef)
  also have "\<dots> = run bs (plain (take_item st) d (max md d) (Suc it)
      (Suc (Suc p + length (concat (map (enc_chunk m) chunks)))))"
    using h by (intro run_chunks m occ assms(2)) simp_all
  finally show "run bs (plain st d md it p) = run bs (plain (take_item st) d
      (max md (d + item_depth ?x)) (it + item_count ?x) (p + length (encode ?x)))"
    by (simp add: add.assoc)
qed

lemma scans_counted:
  assumes "\<forall>x \<in> set xs. scans bs x" "fits w n" "length bs \<le> usize_max"
    and m: "m = 4 \<and> n = length xs \<or> m = 5 \<and> 2 * n = length xs"
    and occ: "occurs bs p (enc_head m w n @ encodes xs)" "no_full_top st" "\<not> is_chunk st"
    and it: "Suc it + sum_list (map item_count xs) \<le> usize_max"
    and d: "d + max_list (map (\<lambda>x. Suc (item_depth x)) xs) \<le> usize_max"
  shows "run bs (plain st d md it p) = run bs (plain (take_item st) d
    (max md (d + max_list (map (\<lambda>x. Suc (item_depth x)) xs)))
    (Suc it + sum_list (map item_count xs)) (p + Suc (width_bytes w) + length (encodes xs)))"
proof -
  have occs: "occurs bs p (enc_head m w n)" "occurs bs (p + Suc (width_bytes w)) (encodes xs)"
    using occ(1) by (simp_all add: occurs_append)
  have m8: "m < 8" "m \<in> {4, 5}" "m \<noteq> 6" using m by auto
  have len: "length xs \<le> usize_max"
    using length_concat_encode [of xs] occurs_length [OF occs(2)] assms(3) by linarith
  show ?thesis
  proof (cases "n = 0")
    case True
    then have "xs = []" using m by auto
    with True show ?thesis
      using occ it d m8 scan_content_empty [OF m8(2)]
      by (intro run_header [OF occs(1) m8(1) assms(2,3)]) simp_all
  next
    case False
    let ?s = "plain (counted (length xs) False # take_item st) (Suc d) (max md d) (Suc it)
      (p + Suc (width_bytes w))"
    have "scan_content bs False (is_chunk st) False (of_nat m) (Some (of_nat n))
        (plain (take_item st) d (max md d) (Suc it) (p + Suc (width_bytes w))) = Inr ?s"
      using m
    proof
      assume "m = 4 \<and> n = length xs"
      then show ?thesis
        using False len scan_content_open(1) [of n] by simp
    next
      assume "m = 5 \<and> 2 * n = length xs"
      then show ?thesis
        using False len scan_content_open(2) [of n] by simp
    qed
    then have "run bs (plain st d md it p) = run bs ?s"
      using occ it d m8 by (intro run_header [OF occs(1) m8(1) assms(2,3)]) simp_all
    also have "\<dots> = run bs (plain (take_item st) d
        (max (max md d) (d + max_list (map (\<lambda>x. Suc (item_depth x)) xs)))
        (Suc it + sum_list (map item_count xs)) (p + Suc (width_bytes w) + length (encodes xs)))"
      using it d by (intro run_counted assms(1) occs) simp_all
    finally show ?thesis by (simp add: max.assoc)
  qed
qed

lemma scans_indef:
  assumes "\<forall>x \<in> set xs. scans bs x" "length bs \<le> usize_max" "m \<in> {4, 5}"
    and occ: "occurs bs p (initial_byte m 31 # encodes xs @ [0xff])" "no_full_top st" "\<not> is_chunk st"
    and it: "Suc it + sum_list (map item_count xs) \<le> usize_max"
    and d: "d + max_list (map (\<lambda>x. Suc (item_depth x)) xs) \<le> usize_max"
  shows "run bs (plain st d md it p) = run bs (plain (take_item st) d
    (max md (d + max_list (map (\<lambda>x. Suc (item_depth x)) xs)))
    (Suc it + sum_list (map item_count xs)) (Suc (Suc p + length (encodes xs))))"
proof -
  have occs: "nth_opt bs p = Some (initial_byte m 31)" "occurs bs (Suc p) (encodes xs @ [0xff])"
    using occ(1) by (simp_all add: occurs_Cons)
  have "m < 6" using assms(3) by auto
  have "run bs (plain st d md it p) =
      run bs (plain (indefinite True # take_item st) (Suc d) (max md d) (Suc it) (Suc p))"
    using occ it d assms(3)
    by (intro run_indef_header [OF occs(1) \<open>m < 6\<close>]) (simp_all add: scan_content_indef)
  also have "\<dots> = run bs (plain (take_item st) d
      (max (max md d) (d + max_list (map (\<lambda>x. Suc (item_depth x)) xs)))
      (Suc it + sum_list (map item_count xs)) (Suc (Suc p + length (encodes xs))))"
    using it d by (intro run_indefinite assms(1) occs) simp_all
  finally show ?thesis by (simp add: max.assoc)
qed

lemma scans_tagged:
  assumes "scans bs x" "fits w n" "length bs \<le> usize_max"
  shows "scans bs (Tagged w n x)"
  unfolding scans_def
proof (intro allI impI)
  fix st d md it p
  assume h: "occurs bs p (encode (Tagged w n x))" "no_full_top st" "\<not> is_chunk st"
    "it + item_count (Tagged w n x) \<le> usize_max" "d + item_depth (Tagged w n x) \<le> usize_max"
  let ?e = "of_nat n = (24 :: u64)"
  have occs: "occurs bs p (enc_head 6 w n)" "occurs bs (p + Suc (width_bytes w)) (encodes [x])"
    using h(1) by (simp_all add: occurs_append)
  have "run bs (plain st d md it p) = run bs (plain (counted (length [x]) ?e # take_item st) (Suc d)
      (max md d) it (p + Suc (width_bytes w)))"
    using h assms(2,3) scan_content_open(3) [of bs "is_chunk st" n "take_item st" d "max md d"]
    by (intro run_header [OF occs(1)]) simp_all
  also have "\<dots> = run bs (plain (take_item st) d
      (max (max md d) (d + max_list (map (\<lambda>x. Suc (item_depth x)) [x])))
      (it + sum_list (map item_count [x])) (p + Suc (width_bytes w) + length (encodes [x])))"
    using h assms(1) by (intro run_counted occs) simp_all
  finally show "run bs (plain st d md it p) = run bs (plain (take_item st) d
      (max md (d + item_depth (Tagged w n x))) (it + item_count (Tagged w n x))
      (p + length (encode (Tagged w n x))))"
    by (simp add: max.assoc add.assoc)
qed

lemma scans_encode:
  assumes "well_formed x" "length bs \<le> usize_max"
  shows "scans bs x"
  using assms(1)
proof (induction x)
  case (Arr w xs)
  then have "\<forall>x \<in> set xs. scans bs x" "fits w (length xs)" by auto
  from scans_counted [OF this assms(2), of 4] show ?case
    by (auto simp: scans_def add.assoc)
next
  case (ArrIndef xs)
  then have "\<forall>x \<in> set xs. scans bs x" by auto
  from scans_indef [OF this assms(2), of 4] show ?case
    by (auto simp: scans_def add.assoc)
next
  case (Assoc w xs)
  then have "\<forall>x \<in> set xs. scans bs x" "fits w (length xs div 2)" "2 * (length xs div 2) = length xs"
    by auto
  from scans_counted [OF this(1,2) assms(2), of 5] this(3) show ?case
    by (auto simp: scans_def add.assoc)
next
  case (AssocIndef xs)
  then have "\<forall>x \<in> set xs. scans bs x" by auto
  from scans_indef [OF this assms(2), of 5] show ?case
    by (auto simp: scans_def add.assoc)
next
  case (Tagged w n x)
  then show ?case using scans_tagged assms(2) by simp
qed (use scans_scalar scans_str scans_str_indef assms(2) in blast)+

subsection \<open>The scan of a whole document\<close>

lemma run_end: "run bs (plain [] d md it (length bs)) = plain [] d md it (length bs)"
  by (simp add: scan_loop.simps [of bs usize_max usize_max False "[]"] scan_step_def nth_opt_def)

lemma run_document:
  assumes "well_formed x" "length (encode x) \<le> usize_max" "item_count x \<le> usize_max"
    "item_depth x \<le> usize_max"
  shows "run (encode x) scan_start =
    plain [] 0 (item_depth x) (item_count x) (length (encode x))"
proof -
  have "run (encode x) (plain [] 0 0 0 0) =
      run (encode x) (plain [] 0 (item_depth x) (item_count x) (length (encode x)))"
    using scansD [OF scans_encode [OF assms(1,2)] occurs_whole, of "[]" 0 0 0] assms
    by (simp add: no_full_top_def is_chunk_def)
  then show ?thesis
    by (simp add: run_end) (simp add: scan_start_def plain_def)
qed

text \<open>Depth and count never exceed the number of bytes.\<close>

lemma encodes_depth:
  "\<forall>x \<in> set xs. item_depth x < length (encode x) \<Longrightarrow>
     max_list (map (\<lambda>x. Suc (item_depth x)) xs) \<le> length (encodes xs)"
  by (induction xs) auto

lemma encodes_count:
  "\<forall>x \<in> set xs. item_count x \<le> length (encode x) \<Longrightarrow>
     sum_list (map item_count xs) \<le> length (encodes xs)"
  by (induction xs) auto

lemma item_depth_length: "item_depth x < length (encode x)"
  by (induction x) (auto simp: less_Suc_eq_le intro!: trans_le_add2 le_SucI encodes_depth)

lemma item_count_length: "item_count x \<le> length (encode x)"
  by (induction x) (auto intro!: trans_le_add2 le_SucI encodes_count)

lemma nesting_depth_encode:
  assumes "well_formed x" "length (encode x) \<le> usize_max" "ceiling \<le> usize_max"
  shows "cbor_nesting_depth_capped (encode x) ceiling = min (item_depth x) (Suc ceiling)"
proof -
  have "run (encode x) scan_start = plain [] 0 (item_depth x) (item_count x) (length (encode x))"
    using item_depth_length [of x] item_count_length [of x] assms by (intro run_document) simp_all
  moreover have "sc_max_depth (scan_loop (encode x) ceiling usize_max False [] scan_start) =
      min (sc_max_depth (run (encode x) scan_start)) (Suc ceiling)"
    using assms(3) by (intro scan_loop_depth_capped) (simp_all add: scan_start_def)
  ultimately show ?thesis
    by (simp add: cbor_nesting_depth_capped_def scan_cbor_shape_def Let_def)
qed

lemma item_count_encode:
  assumes "well_formed x" "length (encode x) \<le> usize_max" "ceiling \<le> usize_max"
  shows "cbor_item_count_capped (encode x) ceiling = min (item_count x) (Suc ceiling)"
proof -
  have "run (encode x) scan_start = plain [] 0 (item_depth x) (item_count x) (length (encode x))"
    using item_depth_length [of x] item_count_length [of x] assms by (intro run_document) simp_all
  moreover have "sc_items (scan_loop (encode x) usize_max ceiling False [] scan_start) =
      min (sc_items (run (encode x) scan_start)) (Suc ceiling)"
    using assms(3) by (intro scan_loop_items_capped) (simp_all add: scan_start_def)
  ultimately show ?thesis
    by (simp add: cbor_item_count_capped_def scan_cbor_shape_def Let_def)
qed

end
