(* ===== verification/Limits_Embedded.thy ===== *)
theory Limits_Embedded
  imports Limits_Depth
begin

text \<open>
  The nesting depth read through the payloads under tag 24
  (\<open>cbor_nesting_depth_through_embedded_skipping\<close> of \<^verbatim>\<open>src/src/cbor/limits.rs\<close>): a worklist
  of documents, each scanned by \<open>scan_cbor_shape\<close>.

  The worklist is a Rust vector used as a stack; here its top is the head of the list. A
  document is borrowed from the root or owned; \<open>pd_borrowed\<close> tells them apart.
\<close>

definition MAX_FOLLOWED_EMBEDDINGS :: nat where
  "MAX_FOLLOWED_EMBEDDINGS = 2"

record pending =
  pd_document :: bytes
  pd_borrowed :: bool
  pd_base :: nat
  pd_embedding :: nat
  pd_skipped :: ranges

definition pending_payload ::
  "(nat \<Rightarrow> bytes \<Rightarrow> ranges) \<Rightarrow> pending \<Rightarrow> embedded_payload \<Rightarrow> pending" where
  "pending_payload payload_skip p found =
     (let (level, document, borrowed, skipped) =
        (case found of
           Range level start end \<Rightarrow>
             let payload = take (end - start) (drop start (pd_document p))
             in if pd_borrowed p
                then (level, payload, True,
                      if pd_embedding p = 0 then payload_skip start payload else [])
                else (level, payload, False, [])
         | Spliced level spliced \<Rightarrow> (level, spliced, False, []))
      in \<lparr>pd_document = document, pd_borrowed = borrowed,
          pd_base = usize_saturating_add (pd_base p) level,
          pd_embedding = pd_embedding p + 1, pd_skipped = skipped\<rparr>)"

definition scan_pending :: "nat \<Rightarrow> pending \<Rightarrow> cbor_shape \<times> embedded_payload list" where
  "scan_pending ceiling p =
     scan_cbor_shape (pd_document p) (ceiling - pd_base p) usize_max
       (pd_embedding p < MAX_FOLLOWED_EMBEDDINGS) (pd_skipped p)"

lemma scan_content_no_found:
  "sc_found (either (scan_content bs False ch False m arg s)) = sc_found s"
  by (auto simp: scan_content_def scan_string_def Let_def open_frame_def
      split: option.split Option.bind_split)

lemma scan_body_no_found:
  "sc_found (either (scan_body bs ic False ch u b s)) = sc_found s"
  by (auto simp: scan_body_def Let_def scan_content_no_found split: option.split)

lemma scan_step_no_found:
  "sc_found (either (scan_step bs dc ic False skip s)) = sc_found s"
proof -
  obtain st d where cl: "close_frames (sc_stack s) (sc_depth s) = (st, d)"
    by fastforce
  have "sc_found (either (scan_break False s')) = sc_found s'" for s'
    by (auto simp: scan_break_def split: list.split option.split)
  then show ?thesis
    by (auto simp: scan_step_def cl Let_def scan_body_no_found split: option.split)
qed

lemma scan_loop_no_found: "sc_found (scan_loop bs dc ic False skip s) = sc_found s"
proof (induction bs dc ic "False" skip s rule: scan_loop.induct)
  case (1 bs dc ic skip s)
  then show ?case
    using scan_step_no_found [of bs dc ic skip s]
    by (cases "scan_step bs dc ic False skip s")
      (simp_all add: scan_loop.simps [of bs dc ic False skip s])
qed

lemma pending_payload_embedding [simp]:
  "pd_embedding (pending_payload f p e) = Suc (pd_embedding p)"
  by (simp add: pending_payload_def Let_def split: embedded_payload.split)

lemma scan_pending_followed:
  "e \<in> set (snd (scan_pending c p)) \<Longrightarrow> pd_embedding p < MAX_FOLLOWED_EMBEDDINGS"
  by (cases "pd_embedding p < MAX_FOLLOWED_EMBEDDINGS")
    (simp_all add: scan_pending_def scan_cbor_shape_def Let_def scan_loop_no_found scan_start_def)

definition embeddings_left :: "pending \<Rightarrow> nat" where
  "embeddings_left p = MAX_FOLLOWED_EMBEDDINGS - pd_embedding p"

function embedded_loop ::
  "nat \<Rightarrow> (nat \<Rightarrow> bytes \<Rightarrow> ranges) \<Rightarrow> nat \<Rightarrow> pending list \<Rightarrow> nat" where
  "embedded_loop ceiling payload_skip deep [] = deep"
| "embedded_loop ceiling payload_skip deep (p # rest) =
     (let (shape, found) = scan_pending ceiling p;
          deep = max deep (usize_saturating_add (pd_base p) (shape_depth shape))
      in if ceiling < deep then deep
         else embedded_loop ceiling payload_skip deep
                (rev (map (pending_payload payload_skip p) found) @ rest))"
  by pat_completeness auto
termination
proof (relation "inv_image (mult less_than)
    (\<lambda>(ceiling, payload_skip, deep, ps). mset (map embeddings_left ps))")
  fix ceiling f deep p rest x shape found deep'
  assume x: "x = scan_pending ceiling p" "(shape, found) = x"
  let ?new = "rev (map (pending_payload f p) found)"
  have left: "embeddings_left q < embeddings_left p" if "q \<in> set ?new" for q
  proof -
    from that obtain e where "e \<in> set found" "q = pending_payload f p e" by auto
    with x scan_pending_followed [of e ceiling p] show ?thesis
      by (simp add: embeddings_left_def) (metis diff_less_mono2 lessI snd_conv)
  qed
  have "(mset (map embeddings_left rest) + mset (map embeddings_left ?new),
      mset (map embeddings_left rest) + {#embeddings_left p#}) \<in> mult less_than"
    using left by (intro one_step_implies_mult) auto
  then show "((ceiling, f, deep', ?new @ rest), ceiling, f, deep, p # rest) \<in>
      inv_image (mult less_than)
        (\<lambda>(ceiling, payload_skip, deep, ps). mset (map embeddings_left ps))"
    by (simp add: union_commute)
qed (simp add: wf_mult)

declare embedded_loop.simps(2) [simp del]

definition cbor_nesting_depth_through_embedded_skipping ::
  "bytes \<Rightarrow> nat \<Rightarrow> ranges \<Rightarrow> (nat \<Rightarrow> bytes \<Rightarrow> ranges) \<Rightarrow> nat" where
  "cbor_nesting_depth_through_embedded_skipping bs ceiling skip payload_skip =
     embedded_loop ceiling payload_skip 0
       [\<lparr>pd_document = bs, pd_borrowed = True, pd_base = 0, pd_embedding = 0, pd_skipped = skip\<rparr>]"

definition cbor_nesting_depth_through_embedded_capped :: "bytes \<Rightarrow> nat \<Rightarrow> nat" where
  "cbor_nesting_depth_through_embedded_capped bs ceiling =
     cbor_nesting_depth_through_embedded_skipping bs ceiling [] (\<lambda>_ _. [])"

subsection \<open>The worklist is the recursive reading\<close>

lemma scan_loop_exact:
  assumes "dc \<le> dc'" "sc_max_depth (scan_loop bs dc' ic c skip s) \<le> dc"
  shows "scan_loop bs dc ic c skip s = scan_loop bs dc' ic c skip s"
  using assms
proof (induction bs dc ic c skip s rule: scan_loop.induct)
  case (1 bs dc ic c skip s)
  let ?cap = "scan_step bs dc ic c skip s" and ?full = "scan_step bs dc' ic c skip s"
  have "\<not> too_deep bs dc s"
  proof
    assume "too_deep bs dc s"
    then obtain d where "item_level bs s = Some d" "dc < d"
      by (auto simp: too_deep_def split: option.splits)
    then have "dc < sc_max_depth (scan_loop bs dc' ic c skip s)"
      using scan_step_max_depth [of bs dc' ic c skip s]
        scan_loop_max_depth_mono [of "either ?full" bs dc' ic c skip]
      by (cases ?full) (simp_all add: scan_loop.simps [of bs dc' ic c skip s])
    with "1.prems"(2) show False by simp
  qed
  note eq = scan_step_cap [OF this "1.prems"(1), of ic c skip]
  show ?case
  proof (cases ?cap)
    case (Inl s')
    moreover from Inl eq have "?full = Inl s'" by simp
    ultimately show ?thesis
      by (simp add: scan_loop.simps [of bs dc ic c skip s] scan_loop.simps [of bs dc' ic c skip s])
  next
    case (Inr s')
    moreover from Inr eq have "?full = Inr s'" by simp
    ultimately show ?thesis
      using "1.IH" [OF Inr "1.prems"(1)] "1.prems"(2)
      by (simp add: scan_loop.simps [of bs dc ic c skip s] scan_loop.simps [of bs dc' ic c skip s])
  qed
qed

fun payload_level :: "embedded_payload \<Rightarrow> nat" where
  "payload_level (Range level start end) = level"
| "payload_level (Spliced level spliced) = level"

definition levels_ok :: "scan \<Rightarrow> bool" where
  "levels_ok s \<longleftrightarrow>
     (\<forall>e \<in> set (sc_found s). payload_level e \<le> sc_max_depth s) \<and>
     (\<forall>f \<in> set (sc_stack s). \<forall>l b. fr_splice f = Some (l, b) \<longrightarrow> l \<le> sc_max_depth s)"

lemma close_frames_set: "set (fst (close_frames st d)) \<subseteq> set st"
  by (induction st d rule: close_frames.induct) auto

lemma take_item_splice:
  "f \<in> set (take_item st) \<Longrightarrow> \<exists>g \<in> set st. fr_splice f = fr_splice g"
  by (cases st) (auto split: option.splits)

lemma extend_splice_level:
  "f \<in> set (extend_splice st b) \<Longrightarrow> fr_splice f = Some (l, x) \<Longrightarrow>
     \<exists>g \<in> set st. \<exists>y. fr_splice g = Some (l, y)"
  by (cases st) (auto split: option.splits)

lemma levels_okD:
  "levels_ok s \<Longrightarrow> f \<in> set (sc_stack s) \<Longrightarrow> fr_splice f = Some (l, b) \<Longrightarrow> l \<le> sc_max_depth s"
  by (auto simp: levels_ok_def)

lemma levels_ok_open_frame:
  "levels_ok s \<Longrightarrow> (\<And>l b. spl = Some (l, b) \<Longrightarrow> l \<le> sc_max_depth s) \<Longrightarrow>
     levels_ok (open_frame r n e spl s)"
  by (auto simp: levels_ok_def open_frame_def)

lemma levels_ok_extend:
  "levels_ok s \<Longrightarrow> levels_ok (s\<lparr>sc_pos := p, sc_stack := extend_splice (sc_stack s) b\<rparr>)"
  by (auto simp: levels_ok_def dest: extend_splice_level)

lemma levels_ok_string:
  assumes "levels_ok s" "sc_depth s \<le> sc_max_depth s"
  shows "levels_ok (either (scan_string bs c ch e m a s))"
  using assms levels_ok_extend [OF assms(1)]
  by (auto simp: scan_string_def Let_def intro!: levels_ok_open_frame split: option.splits)
    (auto simp: levels_ok_def)

lemma levels_ok_content:
  assumes "levels_ok s" "sc_depth s \<le> sc_max_depth s"
  shows "levels_ok (either (scan_content bs c ch e m a s))"
  using assms
  by (auto simp: scan_content_def levels_ok_string intro!: levels_ok_open_frame split: option.splits)

lemma levels_ok_body:
  assumes "levels_ok s" "sc_depth s \<le> sc_max_depth s"
  shows "levels_ok (either (scan_body bs ic c ch u b s))"
proof (cases "scan_header bs (sc_pos s) b")
  case None
  with assms show ?thesis by (simp add: scan_body_def Let_def)
next
  case (Some r)
  obtain arg len where r: "r = (arg, len)" by fastforce
  have moved: "levels_ok (s\<lparr>sc_pos := p, sc_items := it\<rparr>)" for p it
    using assms(1) by (simp add: levels_ok_def)
  have "levels_ok (s\<lparr>sc_pos := p\<rparr>)" for p
    using assms(1) by (simp add: levels_ok_def)
  with moved show ?thesis
    using Some assms(2) by (auto simp: scan_body_def Let_def r intro!: levels_ok_content)
qed

lemma levels_ok_break:
  "levels_ok s \<Longrightarrow> levels_ok (either (scan_break c s))"
  by (auto simp: scan_break_def levels_ok_def split: list.splits option.splits)

lemma levels_ok_weaken:
  assumes "levels_ok s" "sc_found t = sc_found s" "sc_max_depth s \<le> sc_max_depth t"
    and "\<And>f. f \<in> set (sc_stack t) \<Longrightarrow> \<exists>g \<in> set (sc_stack s). fr_splice f = fr_splice g"
  shows "levels_ok t"
  unfolding levels_ok_def
proof (intro conjI ballI allI impI)
  fix e assume "e \<in> set (sc_found t)"
  with assms(1-3) show "payload_level e \<le> sc_max_depth t"
    by (auto simp: levels_ok_def dest!: bspec)
next
  fix f l b assume "f \<in> set (sc_stack t)" "fr_splice f = Some (l, b)"
  with assms(4) [of f] obtain g where "g \<in> set (sc_stack s)" "fr_splice g = Some (l, b)"
    by auto
  with levels_okD [OF assms(1) this] assms(3) show "l \<le> sc_max_depth t" by simp
qed

lemma levels_ok_step:
  assumes "levels_ok s"
  shows "levels_ok (either (scan_step bs dc ic c skip s))"
proof -
  obtain st d where cl: "close_frames (sc_stack s) (sc_depth s) = (st, d)"
    by fastforce
  have st: "set st \<subseteq> set (sc_stack s)"
    using close_frames_set [of "sc_stack s" "sc_depth s"] cl by simp
  have taken: "\<exists>g \<in> set (sc_stack s). fr_splice f = fr_splice g" if "f \<in> set (take_item st)" for f
    using take_item_splice [OF that] st by blast
  have closed: "levels_ok (s\<lparr>sc_stack := st, sc_depth := d\<rparr>)"
    using assms st by (auto simp: levels_ok_def)
  let ?n = "advance_skip skip (sc_pos s) (sc_next_skip s)"
  show ?thesis
  proof (cases "nth_opt bs (sc_pos s)")
    case None
    with closed show ?thesis by (simp add: scan_step_def cl Let_def)
  next
    case (Some b)
    show ?thesis
    proof (cases "b = 0xff")
      case True
      with Some levels_ok_break [OF closed] show ?thesis by (simp add: scan_step_def cl Let_def)
    next
      case False
      note b = Some False
      show ?thesis
      proof (cases "sc_max_depth s < d \<and> dc < d")
        case True
        have "levels_ok (s\<lparr>sc_stack := st, sc_depth := d, sc_max_depth := d\<rparr>)"
          by (rule levels_ok_weaken [OF assms]) (use True st in auto)
        with True b show ?thesis
          by (simp add: scan_step_def cl Let_def)
      next
        case False
        have t: "levels_ok (s\<lparr>sc_depth := d, sc_stack := take_item st, sc_next_skip := ?n\<rparr>)"
          "sc_max_depth s < d \<Longrightarrow> levels_ok (s\<lparr>sc_depth := d, sc_max_depth := d,
             sc_stack := take_item st, sc_next_skip := ?n\<rparr>)"
          by (rule levels_ok_weaken [OF assms]; use taken in simp)+
        then have body: "\<not> sc_max_depth s < d \<Longrightarrow>
             levels_ok (either (scan_body bs ic c ch u b
               (s\<lparr>sc_depth := d, sc_stack := take_item st, sc_next_skip := ?n\<rparr>)))"
          "sc_max_depth s < d \<Longrightarrow> levels_ok (either (scan_body bs ic c ch u b
             (s\<lparr>sc_depth := d, sc_max_depth := d, sc_stack := take_item st, sc_next_skip := ?n\<rparr>)))"
          for ch u
          by (auto intro!: levels_ok_body)
        show ?thesis
        proof (cases "nth_opt skip ?n")
          case None
          with b False body show ?thesis by (simp add: scan_step_def cl Let_def)
        next
          case (Some r)
          obtain x y where r: "r = (x, y)" by fastforce
          show ?thesis
          proof (cases "x = sc_pos s \<and> \<not> is_chunk st")
            case True
            show ?thesis
              using b \<open>\<not> (sc_max_depth s < d \<and> dc < d)\<close> Some r True t
              by (simp add: scan_step_def cl Let_def) (simp add: levels_ok_def)
          next
            case no: False
            then have no_skip: "(x = sc_pos s \<and> \<not> is_chunk st) = False" by simp
            show ?thesis
              using b \<open>\<not> (sc_max_depth s < d \<and> dc < d)\<close> Some r body
              by (simp add: scan_step_def cl Let_def no_skip)
          qed
        qed
      qed
    qed
  qed
qed

lemma levels_ok_loop: "levels_ok s \<Longrightarrow> levels_ok (scan_loop bs dc ic c skip s)"
proof (induction bs dc ic c skip s rule: scan_loop.induct)
  case (1 bs dc ic c skip s)
  with levels_ok_step [of s bs dc ic c skip] show ?case
    by (cases "scan_step bs dc ic c skip s") (simp_all add: scan_loop.simps [of bs dc ic c skip s])
qed

text \<open>The recursive reading: a document whole, then every payload it embeds.\<close>

definition whole_scan :: "pending \<Rightarrow> cbor_shape \<times> embedded_payload list" where
  "whole_scan p =
     scan_cbor_shape (pd_document p) usize_max usize_max
       (pd_embedding p < MAX_FOLLOWED_EMBEDDINGS) (pd_skipped p)"

primrec depth_through :: "nat \<Rightarrow> (nat \<Rightarrow> bytes \<Rightarrow> ranges) \<Rightarrow> pending \<Rightarrow> nat" where
  "depth_through 0 f p = pd_base p + shape_depth (fst (whole_scan p))"
| "depth_through (Suc k) f p =
     max (pd_base p + shape_depth (fst (whole_scan p)))
       (max_list (map (\<lambda>e. depth_through k f (pending_payload f p e)) (snd (whole_scan p))))"

lemma scan_start_levels: "levels_ok scan_start"
  by (simp add: levels_ok_def scan_start_def)

lemma scan_pending_depth:
  "ceiling \<le> usize_max \<Longrightarrow>
     shape_depth (fst (scan_pending ceiling p)) =
     min (shape_depth (fst (whole_scan p))) (Suc (ceiling - pd_base p))"
  unfolding scan_pending_def whole_scan_def scan_cbor_shape_def Let_def
  by simp (rule scan_loop_depth_capped; simp add: scan_start_def)

lemma scan_pending_whole:
  assumes "ceiling \<le> usize_max" "shape_depth (fst (whole_scan p)) \<le> ceiling - pd_base p"
  shows "scan_pending ceiling p = whole_scan p"
  using scan_loop_exact [of "ceiling - pd_base p" usize_max "pd_document p" usize_max
      "pd_embedding p < MAX_FOLLOWED_EMBEDDINGS" "pd_skipped p" scan_start] assms
  by (simp add: scan_pending_def whole_scan_def scan_cbor_shape_def Let_def)

lemma whole_scan_levels:
  "e \<in> set (snd (whole_scan p)) \<Longrightarrow> payload_level e \<le> shape_depth (fst (whole_scan p))"
  using levels_ok_loop [OF scan_start_levels]
  by (simp add: whole_scan_def scan_cbor_shape_def Let_def levels_ok_def)

lemma whole_scan_followed:
  "e \<in> set (snd (whole_scan p)) \<Longrightarrow> pd_embedding p < MAX_FOLLOWED_EMBEDDINGS"
  by (cases "pd_embedding p < MAX_FOLLOWED_EMBEDDINGS")
    (simp_all add: whole_scan_def scan_cbor_shape_def Let_def scan_loop_no_found scan_start_def)

lemma pending_payload_base:
  "pd_base (pending_payload f p e) = usize_saturating_add (pd_base p) (payload_level e)"
  by (simp add: pending_payload_def Let_def split: embedded_payload.split)

lemma max_list_append: "max_list (xs @ ys) = max (max_list xs) (max_list ys)"
  by (induction xs) auto

lemma max_list_rev: "max_list (rev xs) = max_list xs"
  by (induction xs) (auto simp: max_list_append max.commute)

definition reading :: "(nat \<Rightarrow> bytes \<Rightarrow> ranges) \<Rightarrow> pending \<Rightarrow> nat" where
  "reading f p = depth_through (embeddings_left p) f p"

lemma reading_unfold:
  "reading f p = max (pd_base p + shape_depth (fst (whole_scan p)))
     (max_list (map (\<lambda>e. reading f (pending_payload f p e)) (snd (whole_scan p))))"
proof (cases "embeddings_left p")
  case 0
  then have "snd (whole_scan p) = []"
    using whole_scan_followed [of _ p] by (cases "snd (whole_scan p)") (auto simp: embeddings_left_def)
  with 0 show ?thesis by (simp add: reading_def)
next
  case (Suc k)
  then have "embeddings_left (pending_payload f p e) = k" for e
    by (simp add: embeddings_left_def)
  with Suc show ?thesis by (simp add: reading_def)
qed

lemma embedded_loop_reading:
  assumes "ceiling < usize_max" "\<forall>p \<in> set ps. pd_base p \<le> ceiling" "deep \<le> ceiling"
  shows "embedded_loop ceiling f deep ps =
    min (max deep (max_list (map (reading f) ps))) (Suc ceiling)"
  using assms
proof (induction ceiling f deep ps rule: embedded_loop.induct)
  case (1 ceiling f deep)
  then show ?case by simp
next
  case (2 ceiling f deep p rest)
  let ?sh = "shape_depth (fst (whole_scan p))"
  have base: "pd_base p \<le> ceiling" using "2.prems" by simp
  have capped: "shape_depth (fst (scan_pending ceiling p)) = min ?sh (Suc (ceiling - pd_base p))"
    using "2.prems" by (intro scan_pending_depth) simp
  have unfold: "max_list (map (reading f) (p # rest)) =
      max (pd_base p + ?sh) (max (max_list (map (\<lambda>e. reading f (pending_payload f p e)) (snd (whole_scan p))))
        (max_list (map (reading f) rest)))"
    using reading_unfold [of f p] by (simp add: max.assoc)
  show ?case
  proof (cases "?sh \<le> ceiling - pd_base p")
    case False
    then have "usize_saturating_add (pd_base p) (min ?sh (Suc (ceiling - pd_base p))) = Suc ceiling"
      using base "2.prems"(1) by (simp add: usize_saturating_add_def)
    then have "embedded_loop ceiling f deep (p # rest) = Suc ceiling"
      using "2.prems"(3) capped by (simp add: embedded_loop.simps(2) Let_def split_def)
    moreover have "Suc ceiling \<le> pd_base p + ?sh"
      using False base by simp
    ultimately show ?thesis unfolding unfold by simp
  next
    case True
    let ?found = "snd (whole_scan p)"
    let ?new = "rev (map (pending_payload f p) ?found)"
    have eq: "scan_pending ceiling p = whole_scan p"
      using "2.prems"(1) True by (intro scan_pending_whole) simp_all
    have deep: "usize_saturating_add (pd_base p) ?sh = pd_base p + ?sh" "pd_base p + ?sh \<le> ceiling"
      using True base "2.prems"(1) by (simp_all add: usize_saturating_add_def)
    have "(ceiling < max deep (pd_base p + ?sh)) = False"
      using deep(2) "2.prems"(3) by simp
    note no_stop = this
    have "pd_base q \<le> ceiling" if "q \<in> set ?new" for q
      using that whole_scan_levels [of _ p] deep(2)
      by (fastforce simp: pending_payload_base usize_saturating_add_def)
    then have bases: "\<forall>q \<in> set (?new @ rest). pd_base q \<le> ceiling"
      using "2.prems"(2) by auto
    have "embedded_loop ceiling f deep (p # rest) =
        embedded_loop ceiling f (max deep (pd_base p + ?sh)) (?new @ rest)"
      by (simp add: eq embedded_loop.simps(2) Let_def split_def deep(1) no_stop)
    also have "\<dots> = min (max (max deep (pd_base p + ?sh)) (max_list (map (reading f) (?new @ rest))))
        (Suc ceiling)"
      using "2.IH" [OF eq [symmetric] prod.collapse refl] "2.prems" deep bases no_stop by simp
    finally show ?thesis
      unfolding unfold by (simp add: max_list_append max_list_rev rev_map [symmetric] comp_def max.assoc map_append)
  qed
qed

lemma embedded_depth_reading:
  assumes "ceiling < usize_max"
  shows "cbor_nesting_depth_through_embedded_skipping bs ceiling skip f =
    min (reading f \<lparr>pd_document = bs, pd_borrowed = True, pd_base = 0, pd_embedding = 0,
      pd_skipped = skip\<rparr>) (Suc ceiling)"
  using assms
  by (simp add: cbor_nesting_depth_through_embedded_skipping_def embedded_loop_reading)

end
