(* ===== verification/Budgets.thy ===== *)
theory Budgets
  imports Limits_Depth
begin

text \<open>
  The budgets of \<^verbatim>\<open>src/src/cbor/limits.rs\<close>: the nesting left for embedded payloads
  (\<open>NestingBudget\<close>), the memory a descent may hold (\<open>DescentBudget\<close>) and the steps a walk
  may take (\<open>WorkBudget\<close>), with the constants they are made with.

  The Rust budgets are cells behind a shared reference; here every operation returns the
  budget after it. A guard, whose \<open>Drop\<close> refunds what was charged, is a value given back
  to \<open>drop\<close>.
\<close>

subsection \<open>The bounds\<close>

definition MAX_CBOR_DECODE_NESTING_DEPTH :: nat where "MAX_CBOR_DECODE_NESTING_DEPTH = 32768"
definition MAX_CBOR_NESTING_DEPTH :: nat where "MAX_CBOR_NESTING_DEPTH = 32768"
definition MAX_CBOR_VALIDATION_NESTING_DEPTH :: nat where
  "MAX_CBOR_VALIDATION_NESTING_DEPTH = MAX_CBOR_NESTING_DEPTH"
definition VALIDATOR_LEVEL_COST :: nat where "VALIDATOR_LEVEL_COST = 8192"
definition VALIDATOR_RULE_HOP_COST :: nat where "VALIDATOR_RULE_HOP_COST = 6144"
definition MAX_CBOR_VALIDATION_DESCENT_COST :: nat where
  "MAX_CBOR_VALIDATION_DESCENT_COST =
     (MAX_CBOR_VALIDATION_NESTING_DEPTH + 1) * (VALIDATOR_LEVEL_COST + 2 * VALIDATOR_RULE_HOP_COST)"
definition MAX_TYPED_DECODER_NESTING_DEPTH :: nat where "MAX_TYPED_DECODER_NESTING_DEPTH = 64"
definition MAX_CSL_NESTING_DEPTH :: nat where "MAX_CSL_NESTING_DEPTH = 128"
definition MAX_PALLAS_NESTING_DEPTH :: nat where "MAX_PALLAS_NESTING_DEPTH = 128"
definition MAX_EMBEDDED_DEPTH :: nat where "MAX_EMBEDDED_DEPTH = 8"
definition MAX_CBOR_MAPPING_WORK :: nat where "MAX_CBOR_MAPPING_WORK = 4000000"
definition MAX_CBOR_POSITION_MAP_ROWS :: nat where "MAX_CBOR_POSITION_MAP_ROWS = 500000"

record descent_weights =
  dw_level :: nat
  dw_rule_hop :: nat
  dw_raw_level :: nat

definition SCHEMA_WALKER_DESCENT :: descent_weights where
  "SCHEMA_WALKER_DESCENT = \<lparr>dw_level = 8192, dw_rule_hop = 4096, dw_raw_level = 3072\<rparr>"
definition POSITION_MAP_DESCENT :: descent_weights where
  "POSITION_MAP_DESCENT = \<lparr>dw_level = 28672, dw_rule_hop = 8192, dw_raw_level = 8192\<rparr>"
definition MAX_CBOR_MAPPING_DESCENT_COST :: nat where
  "MAX_CBOR_MAPPING_DESCENT_COST = (MAX_CBOR_NESTING_DEPTH + 1)
     * (dw_level SCHEMA_WALKER_DESCENT + 2 * dw_rule_hop SCHEMA_WALKER_DESCENT)"
definition MAX_CBOR_POSITION_MAP_DESCENT_COST :: nat where
  "MAX_CBOR_POSITION_MAP_DESCENT_COST = (MAX_CBOR_NESTING_DEPTH + 1)
     * (dw_level POSITION_MAP_DESCENT + 2 * dw_rule_hop POSITION_MAP_DESCENT)"

lemmas bound_defs =
  MAX_CBOR_DECODE_NESTING_DEPTH_def MAX_CBOR_NESTING_DEPTH_def
  MAX_CBOR_VALIDATION_NESTING_DEPTH_def VALIDATOR_LEVEL_COST_def VALIDATOR_RULE_HOP_COST_def
  MAX_CBOR_VALIDATION_DESCENT_COST_def MAX_TYPED_DECODER_NESTING_DEPTH_def
  MAX_CSL_NESTING_DEPTH_def MAX_PALLAS_NESTING_DEPTH_def MAX_EMBEDDED_DEPTH_def
  SCHEMA_WALKER_DESCENT_def POSITION_MAP_DESCENT_def MAX_CBOR_MAPPING_DESCENT_COST_def
  MAX_CBOR_POSITION_MAP_DESCENT_COST_def

subsection \<open>Refusals\<close>

definition nesting_depth_message :: "nat \<Rightarrow> string" where
  "nesting_depth_message limit =
     ''CBOR nesting is deeper than the supported limit of '' @ decimal limit @ '' levels''"
definition embedded_payloads_message :: "nat \<Rightarrow> string" where
  "embedded_payloads_message limit =
     ''embedded CBOR payloads are nested more deeply than the supported limit of ''
     @ decimal limit @ '' open payloads''"
definition native_script_clause :: string where
  "native_script_clause =
     ''; native scripts do not count toward it and may nest up to ''
     @ decimal MAX_CBOR_NESTING_DEPTH @ '' levels''"
definition typed_decoder_nesting_message :: "nat \<Rightarrow> string" where
  "typed_decoder_nesting_message limit =
     ''CBOR nesting is deeper than the supported limit of '' @ decimal limit
     @ '' levels for typed decoding'' @ native_script_clause"
definition csl_nesting_message :: "nat \<Rightarrow> string" where
  "csl_nesting_message limit =
     ''CBOR nesting is deeper than the supported limit of '' @ decimal limit
     @ '' levels for decoding by the serialization library'' @ native_script_clause"
definition pallas_nesting_message :: "nat \<Rightarrow> string" where
  "pallas_nesting_message limit =
     ''CBOR nesting is deeper than the supported limit of '' @ decimal limit
     @ '' levels for decoding by pallas and the Plutus evaluator'' @ native_script_clause"
definition cbor_nesting_message :: string where
  "cbor_nesting_message =
     ''CBOR nesting is deeper than the supported limit of '' @ decimal MAX_CBOR_NESTING_DEPTH
     @ '' levels''"
definition descent_cost_message :: "nat \<Rightarrow> string" where
  "descent_cost_message limit =
     ''the descent to this data item holds more memory than the maximum supported descent budget of ''
     @ decimal limit @ '' bytes''"
definition mapping_work_message :: "nat \<Rightarrow> string" where
  "mapping_work_message limit =
     ''walking the schema against this document costs more than the maximum supported ''
     @ decimal limit @ '' steps of mapping work''"
definition position_map_rows_message :: "nat \<Rightarrow> string" where
  "position_map_rows_message limit =
     ''mapping this document against the schema produces more than the maximum supported ''
     @ decimal limit @ '' position-map rows''"

subsection \<open>The nesting budget\<close>

datatype embedding_bound = Payloads | Levels

record nesting_budget =
  nb_remaining :: nat
  nb_open_payloads :: nat
  nb_refused :: "embedding_bound option"

definition nesting_for_document :: "bytes \<Rightarrow> nesting_budget option" where
  "nesting_for_document bs =
     (let depth = cbor_nesting_depth_capped bs MAX_CBOR_NESTING_DEPTH
      in if MAX_CBOR_NESTING_DEPTH < depth then None
         else Some \<lparr>nb_remaining = MAX_CBOR_NESTING_DEPTH - depth, nb_open_payloads = 0,
                    nb_refused = None\<rparr>)"

text \<open>The guard of an open payload is the number of levels charged for it.\<close>

definition enter_embedded :: "nesting_budget \<Rightarrow> bytes \<Rightarrow> nesting_budget \<times> nat option" where
  "enter_embedded b payload =
     (if MAX_EMBEDDED_DEPTH \<le> nb_open_payloads b then (b\<lparr>nb_refused := Some Payloads\<rparr>, None)
      else
        let remaining = nb_remaining b;
            depth = cbor_nesting_depth_capped payload remaining
        in if remaining < depth then (b\<lparr>nb_refused := Some Levels\<rparr>, None)
           else (b\<lparr>nb_remaining := remaining - depth,
                   nb_open_payloads := nb_open_payloads b + 1\<rparr>, Some depth))"

definition leave_embedded :: "nesting_budget \<Rightarrow> nat \<Rightarrow> nesting_budget" where
  "leave_embedded b charged =
     b\<lparr>nb_remaining := nb_remaining b + charged,
       nb_open_payloads := nb_open_payloads b - 1\<rparr>"

definition nesting_exhausted :: "nesting_budget \<Rightarrow> bool" where
  "nesting_exhausted b = (nb_refused b \<noteq> None)"

definition nesting_refusal :: "nesting_budget \<Rightarrow> string option" where
  "nesting_refusal b =
     map_option (\<lambda>bound. case bound of
         Payloads \<Rightarrow> embedded_payloads_message MAX_EMBEDDED_DEPTH
       | Levels \<Rightarrow> nesting_depth_message MAX_CBOR_NESTING_DEPTH) (nb_refused b)"

subsection \<open>The descent budget\<close>

record descent_budget =
  db_limit :: nat
  db_spent :: nat
  db_exhausted :: bool

definition descent_new :: "nat \<Rightarrow> descent_budget" where
  "descent_new limit = \<lparr>db_limit = limit, db_spent = 0, db_exhausted = False\<rparr>"

definition descent_charge :: "descent_budget \<Rightarrow> nat \<Rightarrow> descent_budget \<times> nat option" where
  "descent_charge b cost =
     (if db_exhausted b then (b, None)
      else
        let charged = usize_saturating_add (db_spent b) cost
        in if db_limit b < charged then (b\<lparr>db_exhausted := True\<rparr>, None)
           else (b\<lparr>db_spent := charged\<rparr>, Some cost))"

definition descent_drop :: "descent_budget \<Rightarrow> nat \<Rightarrow> descent_budget" where
  "descent_drop b cost = b\<lparr>db_spent := db_spent b - cost\<rparr>"

definition descent_refusal :: "descent_budget \<Rightarrow> string option" where
  "descent_refusal b = (if db_exhausted b then Some (descent_cost_message (db_limit b)) else None)"

subsection \<open>The work budget\<close>

record work_budget =
  wb_limit :: nat
  wb_left :: nat
  wb_exhausted :: bool
  wb_message :: "nat \<Rightarrow> string"

definition work_new :: "nat \<Rightarrow> (nat \<Rightarrow> string) \<Rightarrow> work_budget" where
  "work_new limit message =
     \<lparr>wb_limit = limit, wb_left = limit, wb_exhausted = False, wb_message = message\<rparr>"

definition work_spent :: "work_budget \<Rightarrow> nat" where
  "work_spent b = wb_limit b - wb_left b"

definition work_step :: "work_budget \<Rightarrow> work_budget \<times> bool" where
  "work_step b =
     (if wb_exhausted b then (b, False)
      else
        let left = wb_left b
        in if left = 0 then (b\<lparr>wb_exhausted := True\<rparr>, False)
           else (b\<lparr>wb_left := left - 1\<rparr>, True))"

definition work_refusal :: "work_budget \<Rightarrow> string option" where
  "work_refusal b = (if wb_exhausted b then Some (wb_message b (wb_limit b)) else None)"

subsection \<open>The contract of a budget with guards\<close>

text \<open>
  A walk opens steps and leaves them, in any order. What the budget holds is the sum of what
  its open guards were charged, never more than the limit; a walk that leaves every step it
  opened has given everything back.
\<close>

datatype 'c walk_op = Enter 'c | Leave nat

locale charge_budget =
  fixes charge :: "'b \<Rightarrow> 'c \<Rightarrow> 'b \<times> 'g option"
    and refund :: "'b \<Rightarrow> 'g \<Rightarrow> 'b"
    and held :: "'b \<Rightarrow> nat"
    and limit :: "'b \<Rightarrow> nat"
    and amount :: "'g \<Rightarrow> nat"
    and sound :: "'b \<Rightarrow> bool"
  assumes charge_taken:
      "sound b \<Longrightarrow> charge b c = (b', Some g) \<Longrightarrow>
         sound b' \<and> held b' = held b + amount g \<and> limit b' = limit b"
    and charge_refused:
      "sound b \<Longrightarrow> charge b c = (b', None) \<Longrightarrow> sound b' \<and> held b' = held b \<and> limit b' = limit b"
    and refunded:
      "sound b \<Longrightarrow> amount g \<le> held b \<Longrightarrow>
         sound (refund b g) \<and> held (refund b g) = held b - amount g \<and> limit (refund b g) = limit b"
    and within: "sound b \<Longrightarrow> held b \<le> limit b"
begin

text \<open>One operation of a walk, on the budget and the guards that are open.\<close>

fun walk_step :: "'b \<times> 'g list \<Rightarrow> 'c walk_op \<Rightarrow> 'b \<times> 'g list" where
  "walk_step (b, open) (Enter c) =
     (case charge b c of
        (b', Some g) \<Rightarrow> (b', g # open)
      | (b', None) \<Rightarrow> (b', open))"
| "walk_step (b, open) (Leave i) =
     (if i < length open then (refund b (open ! i), take i open @ drop (Suc i) open)
      else (b, open))"

definition balanced :: "nat \<Rightarrow> nat \<Rightarrow> 'b \<times> 'g list \<Rightarrow> bool" where
  "balanced base l s \<longleftrightarrow>
     sound (fst s) \<and> limit (fst s) = l \<and>
     held (fst s) = base + sum_list (map amount (snd s))"

lemma sum_list_remove_nth:
  "i < length xs \<Longrightarrow> sum_list (map amount xs) =
     amount (xs ! i) + sum_list (map amount (take i xs @ drop (Suc i) xs))"
  by (subst id_take_nth_drop [of i xs]) simp_all

lemma walk_step_balanced: "balanced base l s \<Longrightarrow> balanced base l (walk_step s op)"
proof (induction s op rule: walk_step.induct)
  case (1 b "open" c)
  show ?case
  proof (cases "charge b c")
    case (Pair b' r)
    with 1 charge_taken [of b c b'] charge_refused [of b c b'] show ?thesis
      by (cases r) (auto simp: balanced_def)
  qed
next
  case (2 b "open" i)
  show ?case
  proof (cases "i < length open")
    case True
    from sum_list_remove_nth [OF this] 2 have le: "sound b" "amount (open ! i) \<le> held b"
      by (simp_all add: balanced_def)
    from refunded [OF this] sum_list_remove_nth [OF True] 2 True show ?thesis
      by (simp add: balanced_def)
  qed (use 2 in simp)
qed

theorem walk_balanced: "balanced base l s \<Longrightarrow> balanced base l (foldl walk_step s ops)"
  by (induction ops arbitrary: s) (simp_all add: walk_step_balanced)

lemma walk_held:
  "sound b \<Longrightarrow> foldl walk_step (b, []) ops = (b', open) \<Longrightarrow>
     held b' = held b + sum_list (map amount open) \<and> held b' \<le> limit b"
  using walk_balanced [of "held b" "limit b" "(b, [])" ops] within [of b']
  by (simp add: balanced_def)

lemma walk_gives_back:
  "sound b \<Longrightarrow> foldl walk_step (b, []) ops = (b', []) \<Longrightarrow> held b' = held b"
  using walk_held by fastforce

end

subsection \<open>The budgets keep the contract\<close>

definition descent_sound :: "descent_budget \<Rightarrow> bool" where
  "descent_sound b \<longleftrightarrow> db_spent b \<le> db_limit b \<and> db_limit b < usize_max"

interpretation descent: charge_budget descent_charge descent_drop db_spent db_limit "\<lambda>g. g"
    descent_sound
  by unfold_locales
    (auto simp: descent_sound_def descent_charge_def descent_drop_def Let_def
      usize_saturating_add_def min_def split: if_splits)

text \<open>The nesting budget holds levels and open payloads, and each keeps the contract.\<close>

definition nesting_sound :: "nesting_budget \<Rightarrow> bool" where
  "nesting_sound b \<longleftrightarrow>
     nb_remaining b \<le> MAX_CBOR_NESTING_DEPTH \<and> nb_open_payloads b \<le> MAX_EMBEDDED_DEPTH"

definition levels_held :: "nesting_budget \<Rightarrow> nat" where
  "levels_held b = MAX_CBOR_NESTING_DEPTH - nb_remaining b"

interpretation payloads: charge_budget enter_embedded leave_embedded nb_open_payloads
    "\<lambda>b. MAX_EMBEDDED_DEPTH" "\<lambda>g. 1" "\<lambda>b. nb_open_payloads b \<le> MAX_EMBEDDED_DEPTH"
  by unfold_locales
    (auto simp: enter_embedded_def leave_embedded_def Let_def split: if_splits)

interpretation levels: charge_budget enter_embedded leave_embedded levels_held
    "\<lambda>b. MAX_CBOR_NESTING_DEPTH" "\<lambda>g. g" "\<lambda>b. nb_remaining b \<le> MAX_CBOR_NESTING_DEPTH"
  by unfold_locales
    (auto simp: enter_embedded_def leave_embedded_def levels_held_def Let_def split: if_splits)

subsection \<open>What the budgets promise\<close>

text \<open>The guards of an embedded payload hold as many levels as the payload nests.\<close>

lemma enter_embedded_charge:
  assumes "well_formed x" "length (encode x) \<le> usize_max" "nb_remaining b \<le> usize_max"
    and "nb_open_payloads b < MAX_EMBEDDED_DEPTH"
  shows "enter_embedded b (encode x) =
    (if item_depth x \<le> nb_remaining b
     then (b\<lparr>nb_remaining := nb_remaining b - item_depth x,
             nb_open_payloads := nb_open_payloads b + 1\<rparr>, Some (item_depth x))
     else (b\<lparr>nb_refused := Some Levels\<rparr>, None))"
  using assms by (auto simp: enter_embedded_def nesting_depth_encode Let_def min_def)

lemma descent_refused_stays:
  "descent_charge b cost = (b', None) \<Longrightarrow> descent_charge b' cost' = (b', None)"
  by (auto simp: descent_charge_def Let_def split: if_splits)

fun work_run :: "nat \<Rightarrow> work_budget \<Rightarrow> work_budget \<times> bool list" where
  "work_run 0 b = (b, [])"
| "work_run (Suc n) b =
     (let (b', r) = work_step b; (b'', rs) = work_run n b' in (b'', r # rs))"

lemma work_run_steps:
  "wb_left b \<le> wb_limit b \<Longrightarrow> \<not> wb_exhausted b \<Longrightarrow> work_run n b =
     (b\<lparr>wb_left := wb_left b - n, wb_exhausted := wb_left b < n\<rparr>,
      replicate (min n (wb_left b)) True @ replicate (n - wb_left b) False)"
proof (induction n arbitrary: b)
  case (Suc n)
  show ?case
  proof (cases "wb_left b")
    case 0
    have "wb_exhausted c \<Longrightarrow> work_run m c = (c, replicate m False)" for m c
      by (induction m) (simp_all add: work_step_def)
    with 0 Suc.prems show ?thesis
      by (simp add: work_step_def)
  next
    case (Suc k)
    then have "work_run n (b\<lparr>wb_left := k\<rparr>) =
       ((b\<lparr>wb_left := k\<rparr>)\<lparr>wb_left := k - n, wb_exhausted := k < n\<rparr>,
        replicate (min n k) True @ replicate (n - k) False)"
      using Suc.IH [of "b\<lparr>wb_left := k\<rparr>"] Suc.prems by simp
    with Suc Suc.prems show ?thesis
      by (simp add: work_step_def)
  qed
qed simp

end
