(* ===== verification/Cddl_Limits.thy ===== *)
theory Cddl_Limits
  imports Prelude
begin

text \<open>
  The bracket scan of \<^verbatim>\<open>src/src/cbor/limits.rs\<close> that refuses a CDDL schema nested too deeply
  or too often for the parser (\<open>cddl_nesting_overflow\<close>), and its specification: the brackets
  outside comments and literals, charged one after the other.
\<close>

definition MAX_CDDL_NESTING_DEPTH :: nat where "MAX_CDDL_NESTING_DEPTH = 9"
definition FREE_CDDL_NESTING_DEPTH :: nat where "FREE_CDDL_NESTING_DEPTH = 3"
definition MAX_CDDL_PARSE_WORK :: nat where "MAX_CDDL_PARSE_WORK = 10000"

datatype cddl_nesting_overflow_reason = Depth | Work

record cddl_overflow =
  ov_reason :: cddl_nesting_overflow_reason
  ov_offset :: nat

definition cddl_overflow_message :: "cddl_overflow \<Rightarrow> string" where
  "cddl_overflow_message ov =
     (case ov_reason ov of
        Depth \<Rightarrow> ''CDDL nesting is deeper than the supported limit of ''
          @ decimal MAX_CDDL_NESTING_DEPTH @ '' levels of [ { (''
      | Work \<Rightarrow> ''CDDL nests [ { ( too heavily to parse: nested brackets cost about three ''
          @ ''times as much per level, and this document's add up past the supported ''
          @ ''limit of '' @ decimal MAX_CDDL_NESTING_DEPTH @ '' levels' worth'')"

text \<open>Work is a \<open>u64\<close>; the power saturates at its maximum.\<close>

definition bracket_work :: "nat \<Rightarrow> nat" where
  "bracket_work depth =
     (if depth \<le> FREE_CDDL_NESTING_DEPTH then 0 else min u64_max (3 ^ (depth - 1)))"

definition u64_saturating_add :: "nat \<Rightarrow> nat \<Rightarrow> nat" where
  "u64_saturating_add a b = min u64_max (a + b)"

text \<open>The bytes the scan tells apart.\<close>

definition byte :: "char \<Rightarrow> u8" where
  "byte c = of_nat (of_char c)"

definition opens :: "u8 \<Rightarrow> bool" where
  "opens b \<longleftrightarrow> b = 0x5B \<or> b = 0x7B \<or> b = 0x28"

definition closes :: "u8 \<Rightarrow> bool" where
  "closes b \<longleftrightarrow> b = 0x5D \<or> b = 0x7D \<or> b = 0x29"

definition is_quote :: "u8 \<Rightarrow> bool" where
  "is_quote b \<longleftrightarrow> b = 0x22 \<or> b = 0x27"

text \<open>The inner loops: to the end of a comment, and past the end of a literal.\<close>

function skip_comment :: "bytes \<Rightarrow> nat \<Rightarrow> nat" where
  "skip_comment bs i = (if i < length bs \<and> bs ! i \<noteq> 0x0A then skip_comment bs (i + 1) else i)"
  by pat_completeness auto
termination by (relation "measure (\<lambda>(bs, i). length bs - i)") auto

function skip_literal :: "bytes \<Rightarrow> u8 \<Rightarrow> nat \<Rightarrow> nat" where
  "skip_literal bs quote i =
     (if i < length bs then
        if bs ! i = 0x5C then skip_literal bs quote (i + 2)
        else if bs ! i = quote then i + 1
        else skip_literal bs quote (i + 1)
      else i)"
  by pat_completeness auto
termination by (relation "measure (\<lambda>(bs, quote, i). length bs - i)") auto

declare skip_comment.simps [simp del] skip_literal.simps [simp del]

lemma skip_comment_le: "i \<le> skip_comment bs i"
  by (induction bs i rule: skip_comment.induct) (subst skip_comment.simps, auto)

lemma skip_comment_start: "i < length bs \<Longrightarrow> bs ! i \<noteq> 0x0A \<Longrightarrow> i < skip_comment bs i"
  using skip_comment_le [of "i + 1" bs] by (simp add: skip_comment.simps [of bs i])

lemma skip_literal_le: "i \<le> skip_literal bs q i"
  by (induction bs q i rule: skip_literal.induct) (subst skip_literal.simps, auto)

function cddl_loop :: "bytes \<Rightarrow> nat \<Rightarrow> nat \<Rightarrow> nat \<Rightarrow> nat \<Rightarrow> nat \<Rightarrow> cddl_overflow option" where
  "cddl_loop bs depth_limit work_limit depth work i =
     (if i < length bs then
        let b = bs ! i in
        if b = 0x3B then cddl_loop bs depth_limit work_limit depth work (skip_comment bs i)
        else if is_quote b then
          cddl_loop bs depth_limit work_limit depth work (skip_literal bs b (i + 1))
        else if opens b then
          let depth = depth + 1 in
          if depth_limit < depth then Some \<lparr>ov_reason = Depth, ov_offset = i\<rparr>
          else
            let work = u64_saturating_add work (bracket_work depth) in
            if work_limit < work then Some \<lparr>ov_reason = Work, ov_offset = i\<rparr>
            else cddl_loop bs depth_limit work_limit depth work (i + 1)
        else if closes b then cddl_loop bs depth_limit work_limit (depth - 1) work (i + 1)
        else cddl_loop bs depth_limit work_limit depth work (i + 1)
      else None)"
  by pat_completeness auto
termination
proof (relation "measure (\<lambda>(bs, dl, wl, d, w, i). length bs - i)")
  fix bs :: bytes and dl wl d w i x
  assume "i < length bs" "x = bs ! i" "x = 0x3B"
  with skip_comment_start [of i bs]
  show "((bs, dl, wl, d, w, skip_comment bs i), bs, dl, wl, d, w, i) \<in>
      measure (\<lambda>(bs, dl, wl, d, w, i). length bs - i)"
    by simp
next
  fix bs :: bytes and dl wl d w i x
  assume "i < length bs"
  with skip_literal_le [of "i + 1" bs x]
  show "((bs, dl, wl, d, w, skip_literal bs x (i + 1)), bs, dl, wl, d, w, i) \<in>
      measure (\<lambda>(bs, dl, wl, d, w, i). length bs - i)"
    by simp
qed auto

declare cddl_loop.simps [simp del]

definition cddl_nesting_overflow_at :: "bytes \<Rightarrow> nat \<Rightarrow> nat \<Rightarrow> cddl_overflow option" where
  "cddl_nesting_overflow_at src depth_limit work_limit = cddl_loop src depth_limit work_limit 0 0 0"

definition cddl_nesting_overflow :: "bytes \<Rightarrow> cddl_overflow option" where
  "cddl_nesting_overflow src =
     cddl_nesting_overflow_at src MAX_CDDL_NESTING_DEPTH MAX_CDDL_PARSE_WORK"

subsection \<open>The specification: brackets outside comments and literals\<close>

datatype lexing = Code | Comment | Literal u8 | Escaped u8

text \<open>The brackets of a text with their offsets, read one byte at a time; \<open>True\<close> opens.\<close>

fun brackets :: "lexing \<Rightarrow> nat \<Rightarrow> bytes \<Rightarrow> (nat \<times> bool) list" where
  "brackets m i [] = []"
| "brackets Code i (b # bs) =
     (if b = 0x3B then brackets Comment (Suc i) bs
      else if is_quote b then brackets (Literal b) (Suc i) bs
      else if opens b then (i, True) # brackets Code (Suc i) bs
      else if closes b then (i, False) # brackets Code (Suc i) bs
      else brackets Code (Suc i) bs)"
| "brackets Comment i (b # bs) =
     (if b = 0x0A then brackets Code (Suc i) bs else brackets Comment (Suc i) bs)"
| "brackets (Literal q) i (b # bs) =
     (if b = 0x5C then brackets (Escaped q) (Suc i) bs
      else if b = q then brackets Code (Suc i) bs
      else brackets (Literal q) (Suc i) bs)"
| "brackets (Escaped q) i (b # bs) = brackets (Literal q) (Suc i) bs"

fun first_overflow :: "nat \<Rightarrow> nat \<Rightarrow> nat \<Rightarrow> nat \<Rightarrow> (nat \<times> bool) list \<Rightarrow> cddl_overflow option" where
  "first_overflow dl wl d w [] = None"
| "first_overflow dl wl d w ((i, True) # rest) =
     (if dl < Suc d then Some \<lparr>ov_reason = Depth, ov_offset = i\<rparr>
      else if wl < u64_saturating_add w (bracket_work (Suc d))
      then Some \<lparr>ov_reason = Work, ov_offset = i\<rparr>
      else first_overflow dl wl (Suc d) (u64_saturating_add w (bracket_work (Suc d))) rest)"
| "first_overflow dl wl d w ((i, False) # rest) = first_overflow dl wl (d - 1) w rest"

lemma brackets_comment:
  "brackets Comment i (drop i bs) = brackets Code (skip_comment bs i) (drop (skip_comment bs i) bs)"
proof (induction bs i rule: skip_comment.induct)
  case (1 bs i)
  show ?case
  proof (cases "i < length bs")
    case True
    then have d: "drop i bs = bs ! i # drop (Suc i) bs"
      by (simp add: Cons_nth_drop_Suc)
    show ?thesis
    proof (cases "bs ! i = 0x0A")
      case True
      then have "brackets Code i (drop i bs) = brackets Code (Suc i) (drop (Suc i) bs)"
        by (simp add: d is_quote_def opens_def closes_def)
      with True show ?thesis
        by (simp add: d skip_comment.simps [of bs i])
    next
      case False
      with True 1 show ?thesis by (simp add: d skip_comment.simps [of bs i])
    qed
  qed (simp add: skip_comment.simps [of bs i])
qed

lemma brackets_literal:
  "brackets (Literal q) i (drop i bs) =
     brackets Code (skip_literal bs q i) (drop (skip_literal bs q i) bs)"
proof (induction bs q i rule: skip_literal.induct)
  case (1 bs q i)
  show ?case
  proof (cases "i < length bs")
    case True
    then have d: "drop i bs = bs ! i # drop (Suc i) bs"
      by (simp add: Cons_nth_drop_Suc)
    show ?thesis
    proof (cases "bs ! i = 0x5C")
      case True
      have "brackets (Escaped q) (Suc i) (drop (Suc i) bs) =
          brackets (Literal q) (Suc (Suc i)) (drop (Suc (Suc i)) bs)"
        by (cases "drop (Suc i) bs")
          (simp_all add: drop_Suc tl_drop [symmetric])
      with True \<open>i < length bs\<close> 1 show ?thesis
        by (simp add: d skip_literal.simps [of bs q i])
    next
      case False
      with True 1 show ?thesis by (simp add: d skip_literal.simps [of bs q i])
    qed
  qed (simp add: skip_literal.simps [of bs q i])
qed

lemma cddl_loop_brackets:
  "cddl_loop bs dl wl d w i = first_overflow dl wl d w (brackets Code i (drop i bs))"
proof (induction bs dl wl d w i rule: cddl_loop.induct)
  case (1 bs dl wl d w i)
  show ?case
  proof (cases "i < length bs")
    case True
    then have dr: "drop i bs = bs ! i # drop (Suc i) bs"
      by (simp add: Cons_nth_drop_Suc)
    let ?b = "bs ! i"
    consider (comment) "?b = 0x3B" | (quote) "?b \<noteq> 0x3B" "is_quote ?b"
      | (opens) "?b \<noteq> 0x3B" "\<not> is_quote ?b" "opens ?b"
      | (closes) "?b \<noteq> 0x3B" "\<not> is_quote ?b" "\<not> opens ?b" "closes ?b"
      | (other) "?b \<noteq> 0x3B" "\<not> is_quote ?b" "\<not> opens ?b" "\<not> closes ?b"
      by blast
    then show ?thesis
    proof cases
      case comment
      have "skip_comment bs i = skip_comment bs (Suc i)"
        using True comment by (simp add: skip_comment.simps [of bs i])
      with comment True "1.IH"(1) show ?thesis
        using brackets_comment [of "Suc i" bs] by (simp add: cddl_loop.simps [of bs dl wl d w i] dr)
    next
      case quote
      with True "1.IH"(2) show ?thesis
        using brackets_literal [of ?b "Suc i" bs]
        by (simp add: cddl_loop.simps [of bs dl wl d w i] dr Let_def)
    next
      case opens
      with True "1.IH"(3) show ?thesis
        by (simp add: cddl_loop.simps [of bs dl wl d w i] dr Let_def)
    next
      case closes
      with True "1.IH"(4) show ?thesis
        by (simp add: cddl_loop.simps [of bs dl wl d w i] dr Let_def)
    next
      case other
      with True "1.IH"(5) show ?thesis
        by (simp add: cddl_loop.simps [of bs dl wl d w i] dr Let_def)
    qed
  qed (simp add: cddl_loop.simps [of bs dl wl d w i])
qed

lemma cddl_overflow_brackets:
  "cddl_nesting_overflow_at src dl wl = first_overflow dl wl 0 0 (brackets Code 0 src)"
  by (simp add: cddl_nesting_overflow_at_def cddl_loop_brackets)

text \<open>The deepest level the brackets reach and the work they add up to.\<close>

fun bracket_depth :: "nat \<Rightarrow> (nat \<times> bool) list \<Rightarrow> nat" where
  "bracket_depth d [] = d"
| "bracket_depth d ((i, True) # rest) = max (Suc d) (bracket_depth (Suc d) rest)"
| "bracket_depth d ((i, False) # rest) = max d (bracket_depth (d - 1) rest)"

fun total_work :: "nat \<Rightarrow> (nat \<times> bool) list \<Rightarrow> nat" where
  "total_work d [] = 0"
| "total_work d ((i, True) # rest) = bracket_work (Suc d) + total_work (Suc d) rest"
| "total_work d ((i, False) # rest) = total_work (d - 1) rest"

lemma bracket_depth_ge: "d \<le> bracket_depth d rest"
  by (induction d rest rule: bracket_depth.induct) auto

lemma first_overflow_None:
  assumes "wl < u64_max" "d \<le> dl" "w \<le> wl"
  shows "first_overflow dl wl d w rest = None \<longleftrightarrow>
    bracket_depth d rest \<le> dl \<and> w + total_work d rest \<le> wl"
  using assms
proof (induction dl wl d w rest rule: first_overflow.induct)
  case (2 dl wl d w i rest)
  let ?w = "u64_saturating_add w (bracket_work (Suc d))"
  show ?case
  proof (cases "dl < Suc d \<or> wl < ?w")
    case True
    moreover have "wl < ?w \<longleftrightarrow> wl < w + bracket_work (Suc d)"
      using "2.prems"(1) by (auto simp: u64_saturating_add_def)
    ultimately show ?thesis
      by (auto simp: not_le)
  next
    case False
    then have "?w = w + bracket_work (Suc d)"
      using "2.prems"(1) by (auto simp: u64_saturating_add_def)
    with False "2.IH" "2.prems"(1) bracket_depth_ge [of "Suc d" rest] show ?thesis
      by (auto simp: add.assoc)
  qed
next
  case (3 dl wl d w i rest)
  then show ?case by auto
qed simp

lemma cddl_accepts_iff:
  assumes "work_limit < u64_max"
  shows "cddl_nesting_overflow_at src depth_limit work_limit = None \<longleftrightarrow>
    bracket_depth 0 (brackets Code 0 src) \<le> depth_limit \<and>
    total_work 0 (brackets Code 0 src) \<le> work_limit"
  using assms by (simp add: cddl_overflow_brackets first_overflow_None)

end
