(* ===== verification/Native_Script.thy ===== *)
theory Native_Script
  imports Prelude
begin

text \<open>
  Native scripts in the flat form of \<^verbatim>\<open>src/src/native_script.rs\<close>: the pre-order array
  (\<open>FlatNativeScript\<close>), its evaluation, the key hashes it names, its JSON text, and the
  reader that builds it (\<open>read_script\<close>).

  The specification is the script as a tree with the ledger's recursive evaluation. The
  reader works on the decoder of the minicbor crate, which is not part of the repository: its
  operations are the fields of the record \<open>minicbor\<close>, each taking the bytes and a position
  and answering a value and the position after it, or the message of its error.
\<close>

subsection \<open>The data\<close>

type_synonym key_hash = bytes
type_synonym i64 = "64 word"

datatype node =
    Pubkey key_hash
  | All
  | Any
  | NOfK i64
  | TimelockStart u64
  | TimelockExpiry u64

record validity_interval =
  invalid_before :: "u64 option"
  invalid_hereafter :: "u64 option"

text \<open>\<open>fl_end ! i\<close> is the index just past the subtree rooted at \<open>i\<close>.\<close>

record flat_script =
  fl_nodes :: "node list"
  fl_end :: "nat list"

subsection \<open>Evaluation\<close>

text \<open>
  The children of a node: from \<open>next\<close> on, each one's end is where the next one starts. The
  first argument bounds the number of steps; in a script it is never reached, because every
  end lies past its start (\<open>children_flatten\<close>).
\<close>

fun children_from :: "nat \<Rightarrow> nat list \<Rightarrow> nat \<Rightarrow> nat \<Rightarrow> nat list" where
  "children_from 0 ends next stop = []"
| "children_from (Suc k) ends next stop =
     (if stop \<le> next then [] else next # children_from k ends (ends ! next) stop)"

definition children :: "flat_script \<Rightarrow> nat \<Rightarrow> nat list" where
  "children fl i =
     (let stop = fl_end fl ! i in children_from (stop - i) (fl_end fl) (i + 1) stop)"

definition judge :: "flat_script \<Rightarrow> key_hash set \<Rightarrow> validity_interval \<Rightarrow> bool list \<Rightarrow> nat \<Rightarrow> bool" where
  "judge fl signers interval holds i =
     (case fl_nodes fl ! i of
        Pubkey key \<Rightarrow> key \<in> signers
      | All \<Rightarrow> list_all (\<lambda>c. holds ! c) (children fl i)
      | Any \<Rightarrow> list_ex (\<lambda>c. holds ! c) (children fl i)
      | NOfK n \<Rightarrow> sint n \<le> int (length (filter (\<lambda>c. holds ! c) (children fl i)))
      | TimelockStart s \<Rightarrow>
          (case invalid_before interval of Some start \<Rightarrow> s \<le> start | None \<Rightarrow> False)
      | TimelockExpiry s \<Rightarrow>
          (case invalid_hereafter interval of Some end \<Rightarrow> end \<le> s | None \<Rightarrow> False))"

definition evaluate :: "flat_script \<Rightarrow> key_hash set \<Rightarrow> validity_interval \<Rightarrow> bool" where
  "evaluate fl signers interval =
     (let n = length (fl_nodes fl);
          holds = foldl (\<lambda>holds i. holds[i := judge fl signers interval holds i])
            (replicate n False) (rev [0..<n])
      in case holds of [] \<Rightarrow> False | h # _ \<Rightarrow> h)"

definition key_hashes :: "flat_script \<Rightarrow> key_hash list" where
  "key_hashes fl =
     concat (map (\<lambda>node. case node of Pubkey key \<Rightarrow> [key] | _ \<Rightarrow> []) (fl_nodes fl))"

subsection \<open>The JSON text\<close>

definition hex_digit :: "nat \<Rightarrow> char" where
  "hex_digit n = char_of (if n < 10 then 48 + n else 87 + n)"

definition hex_encode :: "bytes \<Rightarrow> string" where
  "hex_encode bs = concat (map (\<lambda>b. [hex_digit (unat b div 16), hex_digit (unat b mod 16)]) bs)"

definition signed_decimal :: "int \<Rightarrow> string" where
  "signed_decimal n = (if n < 0 then CHR ''-'' # decimal (nat (- n)) else decimal (nat n))"

definition quote :: string where "quote = [CHR 0x22]"

definition quoted :: "string \<Rightarrow> string" where "quoted s = quote @ s @ quote"

text \<open>What the writer emits for a node; the open list of a composite follows it.\<close>

fun node_text :: "node \<Rightarrow> string" where
  "node_text (Pubkey key) =
     ''{'' @ quoted ''ScriptPubkey'' @ '':{'' @ quoted ''addr_keyhash'' @ '':'' @ quoted (hex_encode key) @ ''}}''"
| "node_text (TimelockStart slot) =
     ''{'' @ quoted ''TimelockStart'' @ '':{'' @ quoted ''slot'' @ '':'' @ quoted (decimal (unat slot)) @ ''}}''"
| "node_text (TimelockExpiry slot) =
     ''{'' @ quoted ''TimelockExpiry'' @ '':{'' @ quoted ''slot'' @ '':'' @ quoted (decimal (unat slot)) @ ''}}''"
| "node_text All = ''{'' @ quoted ''ScriptAll'' @ '':{'' @ quoted ''native_scripts'' @ '':[''"
| "node_text Any = ''{'' @ quoted ''ScriptAny'' @ '':{'' @ quoted ''native_scripts'' @ '':[''"
| "node_text (NOfK n) =
     ''{'' @ quoted ''ScriptNOfK'' @ '':{'' @ quoted ''n'' @ '':'' @ signed_decimal (sint n) @ '',''
       @ quoted ''native_scripts'' @ '':[''"

fun is_list_node :: "node \<Rightarrow> bool" where
  "is_list_node All = True"
| "is_list_node Any = True"
| "is_list_node (NOfK n) = True"
| "is_list_node _ = False"

definition close_text :: string where "close_text = '']}}''"

text \<open>The open sub-script lists, innermost first: where each ends and whether it has an item.\<close>

type_synonym open_lists = "(nat \<times> bool) list"

fun close_lists :: "nat \<Rightarrow> string \<Rightarrow> open_lists \<Rightarrow> string \<times> open_lists" where
  "close_lists i out [] = (out, [])"
| "close_lists i out ((e, h) # open) =
     (if e = i then close_lists i (out @ close_text) open else (out, (e, h) # open))"

fun separate :: "string \<Rightarrow> open_lists \<Rightarrow> string \<times> open_lists" where
  "separate out [] = (out, [])"
| "separate out ((e, has_item) # open) =
     (if has_item then out @ '','' else out, (e, True) # open)"

fun write_nodes :: "nat list \<Rightarrow> nat \<Rightarrow> node list \<Rightarrow> string \<times> open_lists \<Rightarrow> string \<times> open_lists" where
  "write_nodes ends i [] s = s"
| "write_nodes ends i (node # nodes) (out, open) =
     (let (out, open) = close_lists i out open;
          (out, open) = separate out open;
          out = out @ node_text node;
          open = (if is_list_node node then (ends ! i, False) # open else open)
      in write_nodes ends (Suc i) nodes (out, open))"

definition to_csl_json :: "flat_script \<Rightarrow> string" where
  "to_csl_json fl =
     (let (out, open) = write_nodes (fl_end fl) 0 (fl_nodes fl) ([], [])
      in out @ concat (replicate (length open) close_text))"

subsection \<open>The reader\<close>

datatype cbor_type = Type_Tag | Type_Break | Type_Other

record minicbor =
  mc_array :: "bytes \<Rightarrow> nat \<Rightarrow> string + u64 option \<times> nat"
  mc_u64 :: "bytes \<Rightarrow> nat \<Rightarrow> string + u64 \<times> nat"
  mc_i64 :: "bytes \<Rightarrow> nat \<Rightarrow> string + i64 \<times> nat"
  mc_bytes :: "bytes \<Rightarrow> nat \<Rightarrow> string + bytes \<times> nat"
  mc_tag :: "bytes \<Rightarrow> nat \<Rightarrow> string + u64 \<times> nat"
  mc_datatype :: "bytes \<Rightarrow> nat \<Rightarrow> string + cbor_type"
  mc_message :: "string \<Rightarrow> string"

definition bind_result :: "'e + 'a \<Rightarrow> ('a \<Rightarrow> 'e + 'b) \<Rightarrow> 'e + 'b" where
  "bind_result r f = (case r of Inl e \<Rightarrow> Inl e | Inr a \<Rightarrow> f a)"

lemma bind_result_simps [simp]:
  "bind_result (Inl e) f = Inl e"
  "bind_result (Inr a) f = f a"
  by (simp_all add: bind_result_def)

lemma bind_result_Inr [simp]:
  "bind_result r f = Inr y \<longleftrightarrow> (\<exists>x. r = Inr x \<and> f x = Inr y)"
  by (cases r) simp_all

lemma bind_result_cong [fundef_cong]:
  "r = r' \<Longrightarrow> (\<And>x. r' = Inr x \<Longrightarrow> f x = g x) \<Longrightarrow> bind_result r f = bind_result r' g"
  by (cases r') simp_all

text \<open>A script whose sub-script list is being read.\<close>

record open_list =
  ol_index :: nat
  ol_remaining :: "u64 option"
  ol_indefinite :: bool

record reading =
  rd_nodes :: "node list"
  rd_end :: "nat list"
  rd_open :: "open_list list"
  rd_pos :: nat

definition close_script :: "minicbor \<Rightarrow> bytes \<Rightarrow> bool \<Rightarrow> nat \<Rightarrow> string + nat" where
  "close_script d bs indefinite pos =
     (if indefinite then
        bind_result (mc_datatype d bs pos) (\<lambda>t.
          if t \<noteq> Type_Break then Inl (mc_message d ''expected the break closing a native script'')
          else Inr (pos + 1))
      else Inr pos)"

text \<open>The node at the position, after its array header and kind; and whether a list follows.\<close>

definition read_kind :: "minicbor \<Rightarrow> bytes \<Rightarrow> u64 \<Rightarrow> nat \<Rightarrow> string + (node \<times> bool) \<times> nat" where
  "read_kind d bs kind pos =
     (if kind = 0 then
        bind_result (mc_bytes d bs pos) (\<lambda>(key, pos).
          if length key = 28 then Inr ((Pubkey key, False), pos)
          else Inl (mc_message d ''key hash is not 28 bytes''))
      else if kind = 1 then Inr ((All, True), pos)
      else if kind = 2 then Inr ((Any, True), pos)
      else if kind = 3 then
        bind_result (mc_i64 d bs pos) (\<lambda>(n, pos). Inr ((NOfK n, True), pos))
      else if kind = 4 then
        bind_result (mc_u64 d bs pos) (\<lambda>(s, pos). Inr ((TimelockStart s, False), pos))
      else if kind = 5 then
        bind_result (mc_u64 d bs pos) (\<lambda>(s, pos). Inr ((TimelockExpiry s, False), pos))
      else Inl (mc_message d ''unknown native script kind''))"

text \<open>A sub-script list, optionally tagged 258: how many it declares.\<close>

definition read_list_header :: "minicbor \<Rightarrow> bytes \<Rightarrow> nat \<Rightarrow> string + u64 option \<times> nat" where
  "read_list_header d bs pos =
     bind_result (mc_datatype d bs pos) (\<lambda>t.
       bind_result
         (if t = Type_Tag then
            bind_result (mc_tag d bs pos) (\<lambda>(tag, pos).
              if tag \<noteq> 258 then Inl (mc_message d ''unexpected tag on a native script list'') else Inr pos)
          else Inr pos)
         (\<lambda>pos. mc_array d bs pos))"

text \<open>One turn of the outer loop up to the inner one.\<close>

definition u32_max :: nat where "u32_max = 4294967295"

definition read_node :: "minicbor \<Rightarrow> bytes \<Rightarrow> reading \<Rightarrow> string + reading" where
  "read_node d bs r =
     (let index = length (rd_nodes r) in
      if u32_max \<le> index then Inl (mc_message d ''native script too large'')
      else
        bind_result (mc_array d bs (rd_pos r)) (\<lambda>(size, pos).
        bind_result (mc_u64 d bs pos) (\<lambda>(kind, pos).
        let expected = (if kind = 3 then 3 else 2) in
        if size \<noteq> None \<and> size \<noteq> Some expected
        then Inl (mc_message d ''unexpected array size in native script'')
        else
          bind_result (read_kind d bs kind pos) (\<lambda>((node, list), pos).
          let r = r\<lparr>rd_nodes := rd_nodes r @ [node], rd_end := rd_end r @ [index + 1]\<rparr> in
          if list then
            bind_result (read_list_header d bs pos) (\<lambda>(remaining, pos).
            Inr (r\<lparr>rd_open := \<lparr>ol_index = index, ol_remaining = remaining,
                               ol_indefinite = (size = None)\<rparr> # rd_open r,
                  rd_pos := pos\<rparr>))
          else
            bind_result (close_script d bs (size = None) pos) (\<lambda>pos.
            Inr (r\<lparr>rd_pos := pos\<rparr>))))))"

text \<open>Whether the innermost list takes another sub-script.\<close>

definition list_more :: "minicbor \<Rightarrow> bytes \<Rightarrow> open_list \<Rightarrow> nat \<Rightarrow> string + (bool \<times> open_list) \<times> nat" where
  "list_more d bs innermost pos =
     (case ol_remaining innermost of
        None \<Rightarrow>
          bind_result (mc_datatype d bs pos) (\<lambda>t.
            if t = Type_Break then Inr ((False, innermost), pos + 1) else Inr ((True, innermost), pos))
      | Some n \<Rightarrow>
          if n = 0 then Inr ((False, innermost), pos)
          else Inr ((True, innermost\<lparr>ol_remaining := Some (n - 1)\<rparr>), pos))"

text \<open>The inner loop; \<open>True\<close> when the script is complete.\<close>

fun close_finished :: "minicbor \<Rightarrow> bytes \<Rightarrow> node list \<Rightarrow> nat list \<Rightarrow> open_list list \<Rightarrow> nat \<Rightarrow>
    string + bool \<times> reading" where
  "close_finished d bs nodes ends [] pos =
     Inr (True, \<lparr>rd_nodes = nodes, rd_end = ends, rd_open = [], rd_pos = pos\<rparr>)"
| "close_finished d bs nodes ends (innermost # open) pos =
     bind_result (list_more d bs innermost pos) (\<lambda>((more, innermost), pos).
       if more then
         Inr (False, \<lparr>rd_nodes = nodes, rd_end = ends, rd_open = innermost # open, rd_pos = pos\<rparr>)
       else
         bind_result (close_script d bs (ol_indefinite innermost) pos) (\<lambda>pos.
           close_finished d bs nodes (ends[ol_index innermost := length nodes]) open pos))"

definition finish :: "minicbor \<Rightarrow> bytes \<Rightarrow> reading \<Rightarrow> string + bool \<times> reading" where
  "finish d bs r = close_finished d bs (rd_nodes r) (rd_end r) (rd_open r) (rd_pos r)"

lemma read_node_nodes:
  "read_node d bs r = Inr r' \<Longrightarrow>
     length (rd_nodes r') = Suc (length (rd_nodes r)) \<and> length (rd_nodes r) < u32_max"
  by (auto simp: read_node_def Let_def split: if_splits prod.splits)

lemma close_finished_nodes:
  "close_finished d bs nodes ends open pos = Inr (done, r) \<Longrightarrow> rd_nodes r = nodes"
  by (induction d bs nodes ends "open" pos rule: close_finished.induct)
    (auto split: if_splits prod.splits)

function read_script :: "minicbor \<Rightarrow> bytes \<Rightarrow> reading \<Rightarrow> string + reading" where
  "read_script d bs r =
     bind_result (read_node d bs r) (\<lambda>r'.
     bind_result (finish d bs r') (\<lambda>(done, r'').
       if done then Inr r'' else read_script d bs r''))"
  by pat_completeness auto
termination
  by (relation "measure (\<lambda>(d, bs, r). u32_max - length (rd_nodes r))")
    (auto simp: finish_def dest!: read_node_nodes close_finished_nodes)

declare read_script.simps [simp del]

definition read_start :: "nat \<Rightarrow> reading" where
  "read_start pos = \<lparr>rd_nodes = [], rd_end = [], rd_open = [], rd_pos = pos\<rparr>"

definition from_cbor :: "minicbor \<Rightarrow> bytes \<Rightarrow> string + flat_script" where
  "from_cbor d bs =
     (case read_script d bs (read_start 0) of
        Inl e \<Rightarrow> Inl (''Invalid native script: '' @ e)
      | Inr r \<Rightarrow>
          if rd_pos r \<noteq> length bs
          then Inl (''Invalid native script: '' @ decimal (length bs - rd_pos r) @ '' trailing bytes'')
          else Inr \<lparr>fl_nodes = rd_nodes r, fl_end = rd_end r\<rparr>)"

definition native_script_end :: "minicbor \<Rightarrow> bytes \<Rightarrow> nat \<Rightarrow> nat option" where
  "native_script_end d bs at =
     (if length bs \<le> at then None
      else case read_script d bs (read_start at) of Inl e \<Rightarrow> None | Inr r \<Rightarrow> Some (rd_pos r))"

subsection \<open>The executor\<close>

text \<open>
  \<open>signer_bytes\<close> keeps the signers' key hashes of 28 bytes. \<open>execute\<close> is
  \<open>NativeScriptExecutor::execute\<close> of
  \<^verbatim>\<open>src/src/validators/phase_1/validation/native_script_executor.rs\<close>, given the bytes the
  serialization library writes for the script.
\<close>

definition signer_bytes :: "bytes list \<Rightarrow> key_hash set" where
  "signer_bytes signatures = set (filter (\<lambda>key. length key = 28) signatures)"

definition execute :: "minicbor \<Rightarrow> bytes \<Rightarrow> bytes list \<Rightarrow> validity_interval \<Rightarrow> string + bool" where
  "execute d script signatures interval =
     bind_result (from_cbor d script) (\<lambda>flat.
       Inr (evaluate flat (signer_bytes signatures) interval))"

end
