(* ===== verification/Script_Spec.thy ===== *)
theory Script_Spec
  imports Native_Script
begin

text \<open>
  The specification of the flat native scripts: a script as a tree, its pre-order array, the
  ledger's recursive evaluation and the recursive printer; and what the loops of
  \<^verbatim>\<open>src/src/native_script.rs\<close> compute on the array of a tree.
\<close>

datatype script = Script node "script list"

fun script_node :: "script \<Rightarrow> node" where
  "script_node (Script n kids) = n"

fun script_kids :: "script \<Rightarrow> script list" where
  "script_kids (Script n kids) = kids"

fun script_size :: "script \<Rightarrow> nat" where
  "script_size (Script n kids) = Suc (sum_list (map script_size kids))"

text \<open>The subscripts in pre-order, and the two arrays of the flat form.\<close>

fun subscripts :: "script \<Rightarrow> script list" where
  "subscripts (Script n kids) = Script n kids # concat (map subscripts kids)"

fun ends_from :: "nat \<Rightarrow> script \<Rightarrow> nat list"
  and ends_list :: "nat \<Rightarrow> script list \<Rightarrow> nat list" where
  "ends_from base (Script n kids) =
     (base + script_size (Script n kids)) # ends_list (Suc base) kids"
| "ends_list base [] = []"
| "ends_list base (k # kids) = ends_from base k @ ends_list (base + script_size k) kids"

definition flatten :: "script \<Rightarrow> flat_script" where
  "flatten s = \<lparr>fl_nodes = map script_node (subscripts s), fl_end = ends_from 0 s\<rparr>"

text \<open>A leaf has no sub-scripts.\<close>

fun proper :: "script \<Rightarrow> bool" where
  "proper (Script n kids) = ((is_list_node n \<or> kids = []) \<and> list_all proper kids)"

text \<open>The ledger's evaluation.\<close>

fun script_holds :: "key_hash set \<Rightarrow> validity_interval \<Rightarrow> script \<Rightarrow> bool" where
  "script_holds signers interval (Script node kids) =
     (case node of
        Pubkey key \<Rightarrow> key \<in> signers
      | All \<Rightarrow> list_all (script_holds signers interval) kids
      | Any \<Rightarrow> list_ex (script_holds signers interval) kids
      | NOfK n \<Rightarrow> sint n \<le> int (length (filter (script_holds signers interval) kids))
      | TimelockStart s \<Rightarrow>
          (case invalid_before interval of Some start \<Rightarrow> s \<le> start | None \<Rightarrow> False)
      | TimelockExpiry s \<Rightarrow>
          (case invalid_hereafter interval of Some end \<Rightarrow> end \<le> s | None \<Rightarrow> False))"

subsection \<open>Positions in the array\<close>

lemma length_subscripts [simp]: "length (subscripts s) = script_size s"
proof (induction s)
  case (Script n kids)
  then have "map (length \<circ> subscripts) kids = map script_size kids" by simp
  from arg_cong [OF this, of sum_list] show ?case by (simp add: length_concat)
qed

lemma script_size_pos [simp]: "0 < script_size s"
  by (cases s) simp

lemma length_concat_subscripts [simp]:
  "length (concat (map subscripts kids)) = sum_list (map script_size kids)"
  by (induction kids) simp_all

lemma length_ends [simp]:
  "length (ends_from base s) = script_size s"
  "length (ends_list base kids) = sum_list (map script_size kids)"
  by (induction base s and base kids rule: ends_from_ends_list.induct) simp_all

text \<open>From a position on, the pre-order goes on with the subscript that sits there.\<close>

lemma drop_subscripts:
  "j < script_size s \<Longrightarrow> \<exists>rest. drop j (subscripts s) = subscripts (subscripts s ! j) @ rest"
proof (induction s arbitrary: j)
  case (Script n kids)
  show ?case
  proof (cases j)
    case 0
    then show ?thesis by simp
  next
    case (Suc i)
    have "i < sum_list (map script_size ks) \<Longrightarrow> set ks \<subseteq> set kids \<Longrightarrow>
        \<exists>rest. drop i (concat (map subscripts ks)) =
          subscripts (concat (map subscripts ks) ! i) @ rest" for i ks
    proof (induction ks arbitrary: i)
      case (Cons k ks)
      show ?case
      proof (cases "i < script_size k")
        case True
        with Script.IH [of k i] Cons.prems show ?thesis
          by (auto simp: nth_append)
      next
        case False
        with Cons.IH [of "i - script_size k"] Cons.prems show ?thesis
          by (auto simp: nth_append)
      qed
    qed simp
    from this [of i kids] Suc Script.prems show ?thesis by simp
  qed
qed

lemma nth_ends:
  "j < script_size s \<Longrightarrow> ends_from base s ! j = base + j + script_size (subscripts s ! j)"
  "j < sum_list (map script_size kids) \<Longrightarrow>
     ends_list base kids ! j = base + j + script_size (concat (map subscripts kids) ! j)"
proof (induction base s and base kids arbitrary: j and j rule: ends_from_ends_list.induct)
  case (1 base n kids)
  then show ?case by (cases j) auto
next
  case (3 base k kids)
  then show ?case by (auto simp: nth_append)
qed simp

text \<open>Where the children of a node start.\<close>

fun starts :: "nat \<Rightarrow> script list \<Rightarrow> nat list" where
  "starts i [] = []"
| "starts i (k # kids) = i # starts (i + script_size k) kids"

lemma subscripts_nonempty: "subscripts s = s # concat (map subscripts (script_kids s))"
  by (cases s) simp

lemma nth_drop_eq: "drop i xs = ys @ rest \<Longrightarrow> 0 < length ys \<Longrightarrow> xs ! i = ys ! 0"
  by (metis append_Nil2 drop_eq_Nil hd_append2 hd_conv_nth hd_drop_conv_nth length_greater_0_conv
      not_le append_is_Nil_conv)

lemma starts_subscripts:
  "drop i xs = concat (map subscripts kids) @ rest \<Longrightarrow> map (\<lambda>c. xs ! c) (starts i kids) = kids"
proof (induction kids arbitrary: i)
  case (Cons k kids)
  have "xs ! i = k"
    using Cons.prems by (intro nth_drop_eq [of i xs "subscripts k", THEN trans])
      (simp_all add: subscripts_nonempty [of k])
  moreover have "drop (i + script_size k) xs = concat (map subscripts kids) @ rest"
    using arg_cong [OF Cons.prems, of "drop (script_size k)"] by (simp add: add.commute)
  ultimately show ?case using Cons.IH by simp
qed simp


lemma children_from_starts:
  "drop i xs = concat (map subscripts kids) @ rest \<Longrightarrow>
     (\<And>c. c < length xs \<Longrightarrow> ends ! c = c + script_size (xs ! c)) \<Longrightarrow>
     i + sum_list (map script_size kids) \<le> length xs \<Longrightarrow>
     sum_list (map script_size kids) \<le> fuel \<Longrightarrow>
     children_from fuel ends i (i + sum_list (map script_size kids)) = starts i kids"
proof (induction kids arbitrary: i fuel)
  case Nil
  then show ?case by (cases fuel) auto
next
  case (Cons k kids)
  have "map (\<lambda>c. xs ! c) (starts i (k # kids)) = k # kids"
    using Cons.prems(1) by (rule starts_subscripts)
  then have k: "xs ! i = k" by simp
  obtain f where f: "fuel = Suc f"
    using Cons.prems(4) script_size_pos [of k] by (cases fuel) (auto simp del: script_size_pos)
  have "drop (i + script_size k) xs = concat (map subscripts kids) @ rest"
    using arg_cong [OF Cons.prems(1), of "drop (script_size k)"] by (simp add: add.commute)
  then have "children_from f ends (i + script_size k)
      (i + script_size k + sum_list (map script_size kids)) = starts (i + script_size k) kids"
    using Cons.prems(2-4) f script_size_pos [of k]
    by (intro Cons.IH) (auto simp: add.assoc simp del: script_size_pos)
  moreover have "i < length xs"
    using Cons.prems(3) script_size_pos [of k] by (simp only: list.map sum_list.Cons)
  ultimately show ?case
    using Cons.prems(2) [of i] k f by (simp add: add.assoc not_le)
qed

lemma nth_flatten [simp]:
  "fl_nodes (flatten s) = map script_node (subscripts s)"
  "fl_end (flatten s) = ends_from 0 s"
  by (simp_all add: flatten_def)

lemma children_flatten:
  assumes "j < script_size s"
  shows "children (flatten s) j = starts (Suc j) (script_kids (subscripts s ! j))"
    and "map (\<lambda>c. subscripts s ! c) (children (flatten s) j) = script_kids (subscripts s ! j)"
    and "\<forall>c \<in> set (children (flatten s) j). j < c \<and> c < script_size s"
proof -
  let ?xs = "subscripts s" and ?t = "subscripts s ! j"
  obtain rest where d: "drop j ?xs = subscripts ?t @ rest"
    using drop_subscripts [OF assms] by blast
  then have d': "drop (Suc j) ?xs = concat (map subscripts (script_kids ?t)) @ rest"
    using subscripts_nonempty [of ?t] by (metis append_Cons drop_Suc list.sel(3) tl_drop)
  have size: "script_size ?t = Suc (sum_list (map script_size (script_kids ?t)))"
    by (cases ?t) simp
  have len: "j + script_size ?t \<le> length ?xs"
    using arg_cong [OF d, of length] assms by simp
  show 1: "children (flatten s) j = starts (Suc j) (script_kids ?t)"
    using children_from_starts [OF d', of "ends_from 0 s" "script_size ?t"] len size
      nth_ends(1) [of _ s 0] assms
    by (simp add: children_def Let_def)
  show "map (\<lambda>c. ?xs ! c) (children (flatten s) j) = script_kids ?t"
    unfolding 1 by (rule starts_subscripts [OF d'])
  have bound: "\<forall>c \<in> set (starts i ks). i \<le> c \<and> c < i + sum_list (map script_size ks)" for i ks
  proof (induction ks arbitrary: i)
    case (Cons k ks)
    show ?case using Cons [of "i + script_size k"] script_size_pos [of k] by auto
  qed simp
  show "\<forall>c \<in> set (children (flatten s) j). j < c \<and> c < script_size s"
    unfolding 1 using bound [of "Suc j" "script_kids ?t"] len size by fastforce
qed

subsection \<open>Evaluation\<close>

text \<open>Judging from the right: the verdicts past a point are those of the subscripts there.\<close>

definition judged :: "key_hash set \<Rightarrow> validity_interval \<Rightarrow> script \<Rightarrow> nat \<Rightarrow> bool list \<Rightarrow> bool" where
  "judged signers interval s i holds \<longleftrightarrow>
     length holds = script_size s \<and>
     (\<forall>j. i \<le> j \<and> j < script_size s \<longrightarrow> holds ! j = script_holds signers interval (subscripts s ! j))"

lemma judge_correct:
  assumes "judged signers interval s (Suc i) holds" "i < script_size s"
  shows "judge (flatten s) signers interval holds i = script_holds signers interval (subscripts s ! i)"
proof -
  let ?h = "script_holds signers interval" and ?cs = "children (flatten s) i"
  note kids = children_flatten(2) [OF assms(2)] and bounds = children_flatten(3) [OF assms(2)]
  have verdicts: "\<forall>c \<in> set ?cs. holds ! c = ?h (subscripts s ! c)"
    using bounds assms(1) by (auto simp: judged_def)
  have "map (\<lambda>c. holds ! c) ?cs = map ?h (map (\<lambda>c. subscripts s ! c) ?cs)"
    using verdicts by simp
  then have map: "map (\<lambda>c. holds ! c) ?cs = map ?h (script_kids (subscripts s ! i))"
    by (simp only: kids)
  have all: "list_all (\<lambda>c. holds ! c) ?cs = list_all ?h (script_kids (subscripts s ! i))"
    using arg_cong [OF map, of "list_all id"] by (simp add: list_all_length)
  have any: "list_ex (\<lambda>c. holds ! c) ?cs = list_ex ?h (script_kids (subscripts s ! i))"
    using arg_cong [OF map, of "list_ex id"] by (simp add: list_ex_iff)
  have count: "length (filter (\<lambda>c. holds ! c) ?cs) = length (filter ?h (script_kids (subscripts s ! i)))"
    using arg_cong [OF map, of "\<lambda>xs. length (filter id xs)"] by (simp add: filter_map)
  obtain n ks where "subscripts s ! i = Script n ks" by (cases "subscripts s ! i")
  with all any count assms(2) show ?thesis
    by (simp add: judge_def split: node.split)
qed

lemma judged_all:
  "i \<le> script_size s \<Longrightarrow> judged signers interval s i
     (foldl (\<lambda>holds i. holds[i := judge (flatten s) signers interval holds i])
       (replicate (script_size s) False) (rev [i..<script_size s]))"
proof (induction "script_size s - i" arbitrary: i)
  case 0
  then show ?case by (auto simp: judged_def)
next
  case (Suc n)
  then have i: "i < script_size s" "[i..<script_size s] = i # [Suc i..<script_size s]"
    by (simp_all add: upt_conv_Cons)
  let ?f = "\<lambda>holds i. holds[i := judge (flatten s) signers interval holds i]"
  let ?rest = "foldl ?f (replicate (script_size s) False) (rev [Suc i..<script_size s])"
  have "judged signers interval s (Suc i) ?rest"
    using Suc i by simp
  from judge_correct [OF this i(1)] this show ?case
    using i by (auto simp: judged_def nth_list_update le_Suc_eq Suc_le_eq)
qed

theorem evaluate_flatten: "evaluate (flatten s) signers interval = script_holds signers interval s"
proof -
  let ?holds = "foldl (\<lambda>holds i. holds[i := judge (flatten s) signers interval holds i])
    (replicate (script_size s) False) (rev [0..<script_size s])"
  have "judged signers interval s 0 ?holds"
    using judged_all [of 0 s] by simp
  then have "length ?holds = script_size s" "?holds ! 0 = script_holds signers interval (subscripts s ! 0)"
    by (simp_all add: judged_def)
  moreover from this(1) obtain h rest where "?holds = h # rest"
    by (cases ?holds) (use script_size_pos [of s] in auto)
  moreover have "subscripts s ! 0 = s"
    by (simp add: subscripts_nonempty [of s])
  ultimately show ?thesis
    by (simp add: evaluate_def)
qed


subsection \<open>The JSON text\<close>

fun commas :: "bool \<Rightarrow> string list \<Rightarrow> string" where
  "commas has_item [] = []"
| "commas has_item (x # xs) = (if has_item then '','' else []) @ x @ commas True xs"

fun script_json :: "script \<Rightarrow> string" where
  "script_json (Script n kids) =
     node_text n @ (if is_list_node n then commas False (map script_json kids) @ close_text else [])"

definition close_at :: "nat \<Rightarrow> string \<times> open_lists \<Rightarrow> string \<times> open_lists" where
  "close_at i s = close_lists i (fst s) (snd s)"

lemma close_at_idem: "close_at i (close_at i s) = close_at i s"
proof -
  have "close_lists i (fst (close_lists i out open)) (snd (close_lists i out open)) =
      close_lists i out open" for out "open"
    by (induction i out "open" rule: close_lists.induct) auto
  then show ?thesis by (simp add: close_at_def)
qed

lemma write_nodes_append:
  "write_nodes ends i (xs @ ys) s = write_nodes ends (i + length xs) ys (write_nodes ends i xs s)"
  by (induction ends i xs s rule: write_nodes.induct) (auto simp: Let_def split: prod.splits)

lemma write_nodes_close: "write_nodes ends i (n # ns) (close_at i s) = write_nodes ends i (n # ns) s"
proof -
  obtain out "open" where s: "s = (out, open)" by fastforce
  show ?thesis
  proof (cases "close_lists i out open")
    case (Pair out' open')
    moreover from close_at_idem [of i s] Pair have "close_lists i out' open' = (out', open')"
      by (simp add: close_at_def s)
    ultimately show ?thesis by (simp add: s close_at_def)
  qed
qed

lemma close_write:
  assumes "close_at i s = close_at i s'"
  shows "close_at (i + length ns) (write_nodes ends i ns s) =
    close_at (i + length ns) (write_nodes ends i ns s')"
proof (cases ns)
  case (Cons n ns')
  then have "write_nodes ends i ns s = write_nodes ends i ns s'"
    using write_nodes_close [of ends i n ns' s] write_nodes_close [of ends i n ns' s'] assms by simp
  then show ?thesis by simp
qed (use assms in simp)

text \<open>The arrays of a part of the script, where it sits in the whole.\<close>

definition ends_at :: "nat list \<Rightarrow> nat \<Rightarrow> nat list \<Rightarrow> bool" where
  "ends_at ends i part \<longleftrightarrow> (\<exists>rest. drop i ends = part @ rest)"

lemma ends_at_append: "ends_at ends i (xs @ ys) \<Longrightarrow> ends_at ends i xs \<and> ends_at ends (i + length xs) ys"
  unfolding ends_at_def
proof
  assume "\<exists>rest. drop i ends = (xs @ ys) @ rest"
  then obtain rest where "drop i ends = xs @ ys @ rest" by auto
  moreover from this have "drop (i + length xs) ends = ys @ rest"
    using drop_drop [of "length xs" i ends] by (simp add: add.commute)
  ultimately show "\<exists>rest. drop i ends = xs @ rest" "\<exists>rest. drop (i + length xs) ends = ys @ rest"
    by auto
qed

lemma ends_at_Cons: "ends_at ends i (x # ys) \<Longrightarrow> ends ! i = x \<and> ends_at ends (Suc i) ys"
  using ends_at_append [of ends i "[x]" ys] nth_drop_eq [of i ends "[x]"]
  by (auto simp: ends_at_def)

definition writes :: "nat list \<Rightarrow> script \<Rightarrow> bool" where
  "writes ends t \<longleftrightarrow> (\<forall>i s. ends_at ends i (ends_from i t) \<longrightarrow>
     close_at (i + script_size t) (write_nodes ends i (map script_node (subscripts t)) s) =
     close_at (i + script_size t)
       (case separate (fst (close_at i s)) (snd (close_at i s)) of
          (out, open) \<Rightarrow> (out @ script_json t, open)))"

lemma writes_kids:
  assumes "\<forall>k \<in> set kids. writes ends k" "ends_at ends i (ends_list i kids)"
    and "i + sum_list (map script_size kids) \<le> e"
  shows "close_at (i + sum_list (map script_size kids))
      (write_nodes ends i (concat (map (\<lambda>k. map script_node (subscripts k)) kids)) (out, (e, h) # open)) =
    close_at (i + sum_list (map script_size kids))
      (out @ commas h (map script_json kids), (e, h \<or> kids \<noteq> []) # open)"
  using assms
proof (induction kids arbitrary: i out h)
  case (Cons k kids)
  let ?sep = "if h then '','' else []" and ?next = "i + script_size k"
  let ?first = "write_nodes ends i (map script_node (subscripts k)) (out, (e, h) # open)"
  have e: "e \<noteq> i"
    using Cons.prems(3) script_size_pos [of k] by (simp del: script_size_pos)
  from Cons.prems(2) have at: "ends_at ends i (ends_from i k)" "ends_at ends ?next (ends_list ?next kids)"
    using ends_at_append by fastforce+
  have "close_at ?next ?first = close_at ?next (out @ ?sep @ script_json k, (e, True) # open)"
    using Cons.prems(1) at(1) e
    by (simp add: writes_def) (simp add: close_at_def)
  from close_write [OF this, of "concat (map (\<lambda>k. map script_node (subscripts k)) kids)" ends]
  have "close_at (?next + sum_list (map script_size kids))
      (write_nodes ends ?next (concat (map (\<lambda>k. map script_node (subscripts k)) kids)) ?first) =
    close_at (?next + sum_list (map script_size kids))
      (write_nodes ends ?next (concat (map (\<lambda>k. map script_node (subscripts k)) kids))
         (out @ ?sep @ script_json k, (e, True) # open))"
    by (simp add: length_concat comp_def)
  also have "\<dots> = close_at (?next + sum_list (map script_size kids))
      ((out @ ?sep @ script_json k) @ commas True (map script_json kids),
       (e, True \<or> kids \<noteq> []) # open)"
    using Cons.prems at by (intro Cons.IH) (simp_all add: add.assoc)
  finally show ?case
    by (simp add: write_nodes_append add.assoc)
qed simp

lemma writes_script: "proper t \<Longrightarrow> writes ends t"
proof (induction t)
  case (Script n kids)
  show ?case
    unfolding writes_def
  proof (intro allI impI)
    fix i s
    let ?t = "Script n kids"
    assume "ends_at ends i (ends_from i ?t)"
    then have e: "ends ! i = i + script_size ?t" and at: "ends_at ends (Suc i) (ends_list (Suc i) kids)"
      using ends_at_Cons by fastforce+
    obtain out "open" where sep: "separate (fst (close_at i s)) (snd (close_at i s)) = (out, open)"
      by fastforce
    have step: "write_nodes ends i (map script_node (subscripts ?t)) s =
        write_nodes ends (Suc i) (concat (map (\<lambda>k. map script_node (subscripts k)) kids))
          (out @ node_text n, if is_list_node n then (ends ! i, False) # open else open)"
      using sep by (cases s) (simp add: close_at_def map_concat comp_def split_def)
    show "close_at (i + script_size ?t) (write_nodes ends i (map script_node (subscripts ?t)) s) =
        close_at (i + script_size ?t)
          (case separate (fst (close_at i s)) (snd (close_at i s)) of
             (out, open) \<Rightarrow> (out @ script_json ?t, open))"
    proof (cases "is_list_node n")
      case True
      have "\<forall>k \<in> set kids. writes ends k"
        using Script by (simp add: list_all_iff)
      from writes_kids [OF this at, of "ends ! i" "out @ node_text n" False "open"] show ?thesis
        unfolding step using True sep e by (simp add: close_at_def)
    next
      case False
      then have "kids = []" using Script.prems by simp
      with False show ?thesis unfolding step using sep by simp
    qed
  qed
qed

lemma close_lists_done:
  "close_lists i out open = (full, []) \<Longrightarrow> out @ concat (replicate (length open) close_text) = full"
  by (induction i out "open" rule: close_lists.induct) (auto split: if_splits)

theorem to_csl_json_flatten: "proper s \<Longrightarrow> to_csl_json (flatten s) = script_json s"
proof -
  assume "proper s"
  let ?r = "write_nodes (ends_from 0 s) 0 (map script_node (subscripts s)) ([], [])"
  have "ends_at (ends_from 0 s) 0 (ends_from 0 s)"
    by (auto simp: ends_at_def intro: exI [of _ "[]"])
  with writes_script [OF \<open>proper s\<close>, of "ends_from 0 s"]
  have "close_at (script_size s) ?r = close_at (script_size s) (script_json s, [])"
    unfolding writes_def by (auto simp: close_at_def dest!: spec [of _ 0] spec [of _ "([], [])"])
  then have "close_lists (script_size s) (fst ?r) (snd ?r) = (script_json s, [])"
    by (simp add: close_at_def)
  from close_lists_done [OF this] show ?thesis
    by (simp add: to_csl_json_def split_def)
qed

subsection \<open>The reader builds pre-orders\<close>

text \<open>
  While a script is read, the arrays hold the composites still open, each with the
  sub-scripts already complete; a frame is the node of an open composite and those
  sub-scripts, innermost frame first.
\<close>

type_synonym frames = "(node \<times> script list) list"

fun layout :: "frames \<Rightarrow> node list \<times> nat list" where
  "layout [] = ([], [])"
| "layout ((n, kids) # fs) =
     (let (nodes, ends) = layout fs; base = length nodes
      in (nodes @ n # concat (map (\<lambda>k. map script_node (subscripts k)) kids),
          ends @ Suc base # ends_list (Suc base) kids))"

fun indices :: "frames \<Rightarrow> nat list" where
  "indices [] = []"
| "indices (f # fs) = length (fst (layout fs)) # indices fs"

definition frames_ok :: "frames \<Rightarrow> bool" where
  "frames_ok fs \<longleftrightarrow> (\<forall>(n, kids) \<in> set fs. is_list_node n \<and> list_all proper kids)"

lemma layout_lengths: "length (fst (layout fs)) = length (snd (layout fs))"
  by (induction fs rule: layout.induct) (auto simp: Let_def split_def length_concat comp_def)

lemma ends_list_snoc:
  "ends_list b (kids @ [t]) = ends_list b kids @ ends_from (b + sum_list (map script_size kids)) t"
  by (induction kids arbitrary: b) (simp_all add: add.assoc)

text \<open>A complete script over the open frames.\<close>

definition complete :: "frames \<Rightarrow> script \<Rightarrow> node list \<times> nat list" where
  "complete fs t =
     (fst (layout fs) @ map script_node (subscripts t),
      snd (layout fs) @ ends_from (length (fst (layout fs))) t)"

lemma complete_attach: "complete ((n, kids) # fs) t = layout ((n, kids @ [t]) # fs)"
  by (simp add: complete_def Let_def split_def ends_list_snoc length_concat comp_def)

lemma complete_close:
  assumes "layout ((n, kids) # fs) = (nodes, ends)"
  shows "complete fs (Script n kids) = (nodes, ends[length (fst (layout fs)) := length nodes])"
  using assms layout_lengths [of fs]
  by (auto simp: complete_def Let_def split_def length_concat comp_def list_update_append map_concat)

definition reading_ok :: "reading \<Rightarrow> bool" where
  "reading_ok r \<longleftrightarrow> (\<exists>fs. frames_ok fs \<and> layout fs = (rd_nodes r, rd_end r) \<and>
     map ol_index (rd_open r) = indices fs)"

definition whole :: "node list \<Rightarrow> nat list \<Rightarrow> bool" where
  "whole nodes ends \<longleftrightarrow>
     (\<exists>t. proper t \<and> \<lparr>fl_nodes = nodes, fl_end = ends\<rparr> = flatten t)"

text \<open>After a node: either an open composite, or a complete script to attach.\<close>

definition pending_ok :: "node list \<Rightarrow> nat list \<Rightarrow> open_list list \<Rightarrow> bool" where
  "pending_ok nodes ends open \<longleftrightarrow>
     (\<exists>fs. frames_ok fs \<and> map ol_index open = indices fs \<and>
        (fs \<noteq> [] \<and> layout fs = (nodes, ends) \<or>
         fs = [] \<and> whole nodes ends))"

lemma pending_complete:
  assumes "frames_ok fs" "map ol_index open = indices fs" "proper t" "complete fs t = (nodes, ends)"
  shows "pending_ok nodes ends open"
proof (cases fs)
  case Nil
  with assms show ?thesis
    by (auto simp: pending_ok_def whole_def complete_def flatten_def intro!: exI [of _ t] exI [of _ "[]"])
next
  case (Cons f fs')
  obtain n kids where f: "f = (n, kids)" by fastforce
  let ?fs = "(n, kids @ [t]) # fs'"
  have "layout ?fs = (nodes, ends)"
    using assms(4) Cons f by (simp only: complete_attach)
  moreover have "frames_ok ?fs" "map ol_index open = indices ?fs"
    using assms(1-3) Cons f by (simp_all add: frames_ok_def)
  ultimately have "frames_ok ?fs" "map ol_index open = indices ?fs" "layout ?fs = (nodes, ends)"
    by simp_all
  then show ?thesis unfolding pending_ok_def by blast
qed

lemma list_more_index:
  "list_more d bs o1 pos = Inr ((m, o2), pos') \<Longrightarrow> ol_index o2 = ol_index o1"
  by (auto simp: list_more_def split: option.splits if_splits)

lemma close_finished_ok:
  "close_finished d bs nodes ends open pos = Inr (fin, r) \<Longrightarrow> pending_ok nodes ends open \<Longrightarrow>
     (if fin then whole (rd_nodes r) (rd_end r) else reading_ok r)"
proof (induction d bs nodes ends "open" pos arbitrary: fin r rule: close_finished.induct)
  case (1 d bs nodes ends pos)
  then have "indices fs = [] \<Longrightarrow> fs = []" for fs
    by (cases fs) auto
  with 1 show ?case
    by (auto simp: pending_ok_def)
next
  case (2 d bs nodes ends innermost "open" pos)
  obtain fs where fs: "frames_ok fs" "map ol_index (innermost # open) = indices fs"
      "layout fs = (nodes, ends)" "fs \<noteq> []"
    using "2.prems"(2) by (auto simp: pending_ok_def)
  obtain more innermost' pos' where m: "list_more d bs innermost pos = Inr ((more, innermost'), pos')"
    using "2.prems"(1) by auto
  note index = list_more_index [OF m]
  show ?case
  proof (cases more)
    case True
    with "2.prems"(1) m have r: "\<not> fin" "r = \<lparr>rd_nodes = nodes, rd_end = ends,
        rd_open = innermost' # open, rd_pos = pos'\<rparr>"
      by simp_all
    have "reading_ok r"
      using fs index r(2) by (auto simp: reading_ok_def intro!: exI [of _ fs])
    with r(1) show ?thesis by simp
  next
    case False
    with "2.prems"(1) m obtain p where p: "close_script d bs (ol_indefinite innermost') pos' = Inr p"
        "close_finished d bs nodes (ends[ol_index innermost' := length nodes]) open p = Inr (fin, r)"
      by auto
    obtain n kids fs' where f: "fs = (n, kids) # fs'"
      using fs(4) by (cases fs) auto
    have i: "ol_index innermost' = length (fst (layout fs'))" "map ol_index open = indices fs'"
      using fs(2) f index by simp_all
    have "complete fs' (Script n kids) = (nodes, ends[ol_index innermost' := length nodes])"
      using complete_close fs(3) f i(1) by simp
    moreover have "proper (Script n kids)" "frames_ok fs'"
      using fs(1) f by (simp_all add: frames_ok_def)
    ultimately have "pending_ok nodes (ends[ol_index innermost' := length nodes]) open"
      using i(2) by (intro pending_complete)
    with "2.IH" [OF m refl refl _ p(1)] False p(2) show ?thesis by simp
  qed
qed

lemma read_kind_list:
  "read_kind d bs kind pos = Inr ((node, l), pos') \<Longrightarrow> l = is_list_node node"
  by (auto simp: read_kind_def split: if_splits)

lemma read_node_ok:
  assumes "read_node d bs r = Inr r'" "reading_ok r"
  shows "pending_ok (rd_nodes r') (rd_end r') (rd_open r')"
proof -
  obtain fs where fs: "frames_ok fs" "layout fs = (rd_nodes r, rd_end r)"
      "map ol_index (rd_open r) = indices fs"
    using assms(2) by (auto simp: reading_ok_def)
  let ?n = "length (rd_nodes r)"
  have index: "(u32_max \<le> ?n) = False"
    using read_node_nodes [OF assms(1)] by simp
  note step = assms(1) [unfolded read_node_def Let_def index if_False bind_result_Inr, simplified]
  obtain size p1 kind p2 node l p3 where kind: "mc_array d bs (rd_pos r) = Inr (size, p1)"
      "mc_u64 d bs p1 = Inr (kind, p2)" "read_kind d bs kind p2 = Inr ((node, l), p3)"
    and body: "(if l then bind_result (read_list_header d bs p3) (\<lambda>(remaining, pos).
          Inr (r\<lparr>rd_nodes := rd_nodes r @ [node], rd_end := rd_end r @ [Suc ?n],
            rd_open := \<lparr>ol_index = ?n, ol_remaining = remaining, ol_indefinite = (size = None)\<rparr> # rd_open r,
            rd_pos := pos\<rparr>))
        else bind_result (close_script d bs (size = None) p3) (\<lambda>pos.
          Inr (r\<lparr>rd_nodes := rd_nodes r @ [node], rd_end := rd_end r @ [Suc ?n], rd_pos := pos\<rparr>))) = Inr r'"
    using step by (auto split: if_split_asm)
  have r': "rd_nodes r' = rd_nodes r @ [node]"
      "rd_end r' = rd_end r @ [Suc (length (rd_nodes r))]"
      "is_list_node node \<and> (\<exists>x. ol_index x = length (rd_nodes r) \<and> rd_open r' = x # rd_open r) \<or>
       \<not> is_list_node node \<and> rd_open r' = rd_open r"
    using body read_kind_list [OF kind(3)] by (auto split: if_split_asm)
  show ?thesis
  proof (cases "is_list_node node")
    case True
    let ?fs = "(node, []) # fs"
    have "frames_ok ?fs" "map ol_index (rd_open r') = indices ?fs"
      "layout ?fs = (rd_nodes r', rd_end r')"
      using True fs r' by (auto simp: frames_ok_def)
    then show ?thesis unfolding pending_ok_def by blast
  next
    case False
    have "complete fs (Script node []) = (rd_nodes r', rd_end r')"
      using fs r' by (simp add: complete_def)
    with False fs r' show ?thesis
      by (intro pending_complete [of fs _ "Script node []"]) simp_all
  qed
qed

lemma read_script_whole:
  "read_script d bs r = Inr r' \<Longrightarrow> reading_ok r \<Longrightarrow> whole (rd_nodes r') (rd_end r')"
proof (induction d bs r rule: read_script.induct)
  case (1 d bs r)
  from "1.prems"(1) obtain r1 dn r2 where r1: "read_node d bs r = Inr r1"
      and r2: "finish d bs r1 = Inr (dn, r2)"
      and rest: "(if dn then Inr r2 else read_script d bs r2) = Inr r'"
    by (subst (asm) read_script.simps) auto
  have "if dn then whole (rd_nodes r2) (rd_end r2) else reading_ok r2"
    using close_finished_ok [OF r2 [unfolded finish_def]] read_node_ok [OF r1 "1.prems"(2)] by simp
  with rest "1.IH" [OF r1 r2 refl] show ?case
    by (cases dn) auto
qed

theorem from_cbor_flatten:
  assumes "from_cbor d bs = Inr fl"
  shows "\<exists>t. proper t \<and> fl = flatten t"
proof -
  obtain r where "read_script d bs (read_start 0) = Inr r" "fl = \<lparr>fl_nodes = rd_nodes r, fl_end = rd_end r\<rparr>"
    using assms by (auto simp: from_cbor_def split: sum.splits if_splits)
  moreover have "reading_ok (read_start 0)"
    by (auto simp: reading_ok_def read_start_def frames_ok_def intro!: exI [of _ "[]"])
  ultimately show ?thesis
    using read_script_whole by (auto simp: whole_def)
qed

end
