(* ===== verification/Cbor_Errors.thy ===== *)
theory Cbor_Errors
  imports Prelude
begin

text \<open>
  The structured decode errors of \<^verbatim>\<open>src/src/cbor/errors.rs\<close>: their kinds, the path of the
  failing item and the text of both.
\<close>

datatype error_kind =
    InvalidHex
  | InvalidSyntax
  | UnexpectedEof
  | UnexpectedBreak
  | TrailingData
  | InvalidUtf8
  | InvalidChunk
  | IntNotRepresentable
  | NonFiniteFloat
  | NestingTooDeep
  | Io

fun error_kind_str :: "error_kind \<Rightarrow> string" where
  "error_kind_str InvalidHex = ''invalid_hex''"
| "error_kind_str InvalidSyntax = ''invalid_syntax''"
| "error_kind_str UnexpectedEof = ''unexpected_eof''"
| "error_kind_str UnexpectedBreak = ''unexpected_break''"
| "error_kind_str TrailingData = ''trailing_data''"
| "error_kind_str InvalidUtf8 = ''invalid_utf8''"
| "error_kind_str InvalidChunk = ''invalid_chunk''"
| "error_kind_str IntNotRepresentable = ''int_not_representable''"
| "error_kind_str NonFiniteFloat = ''non_finite_float''"
| "error_kind_str NestingTooDeep = ''nesting_too_deep''"
| "error_kind_str Io = ''io_error''"

datatype side = Key | Value

datatype path_seg =
    ArrayIdx nat
  | MapEntry nat side
  | Chunk nat
  | TagInner

fun render_seg :: "path_seg \<Rightarrow> string" where
  "render_seg (ArrayIdx i) = ''['' @ decimal i @ '']''"
| "render_seg (MapEntry i Key) = ''.entries['' @ decimal i @ ''].key''"
| "render_seg (MapEntry i Value) = ''.entries['' @ decimal i @ ''].value''"
| "render_seg (Chunk i) = ''.chunks['' @ decimal i @ '']''"
| "render_seg TagInner = ''.tag''"

definition render_path :: "path_seg list \<Rightarrow> string" where
  "render_path segs = foldl (\<lambda>s seg. s @ render_seg seg) ''$'' segs"

text \<open>The fields of an error but for the tree decoded so far.\<close>

record decode_error =
  de_kind :: error_kind
  de_offset :: "nat option"
  de_byte_span :: "(nat \<times> nat) option"
  de_path :: string
  de_message :: string

definition decode_error_display :: "decode_error \<Rightarrow> string" where
  "decode_error_display e =
     error_kind_str (de_kind e) @ '' ('' @ de_path e @ ''): '' @ de_message e"

lemma error_kind_str_inj: "error_kind_str a = error_kind_str b \<longleftrightarrow> a = b"
  by (cases a; cases b) simp_all

lemma render_path_append: "render_path (segs @ [s]) = render_path segs @ render_seg s"
  by (simp add: render_path_def)

end
