(* ===== verification/Preflight.thy ===== *)
theory Preflight
  imports Budgets Limits_Embedded Cbor_Errors Native_Script "HOL-Library.Product_Lexorder"
begin

text \<open>
  The checks of \<^verbatim>\<open>src/src/csl_preflight.rs\<close> on bytes about to reach the serialization
  library: well-formedness, nesting outside native scripts, simple values in witness lists
  and empty addresses.

  Well-formedness is the verdict of the positional decoder (\<open>well_formed_error\<close>, an argument
  here), and the end of a native script is read with the minicbor decoder (an argument too).
\<close>

subsection \<open>Shapes\<close>

datatype csl_shape =
    Transaction | Block | VersionedBlock | WitnessSet | WitnessSets | WitnessList
  | TransactionBody | TransactionBodies | TransactionOutput | TransactionOutputs
  | TransactionUnspentOutput | Withdrawals | RewardAddresses | PoolParams | Certificate
  | Certificates | VotingProposal | VotingProposals | GovernanceAction | NativeScript
  | NativeScripts | ScriptRef | AuxiliaryData | Item

definition all_shapes :: "csl_shape list" where
  "all_shapes =
     [Transaction, Block, VersionedBlock, WitnessSet, WitnessSets, WitnessList,
      TransactionBody, TransactionBodies, TransactionOutput, TransactionOutputs,
      TransactionUnspentOutput, Withdrawals, RewardAddresses, PoolParams, Certificate,
      Certificates, VotingProposal, VotingProposals, GovernanceAction, NativeScript,
      NativeScripts, ScriptRef, AuxiliaryData, Item]"

text \<open>\<open>Iterator::position\<close>.\<close>

fun position :: "('a \<Rightarrow> bool) \<Rightarrow> 'a list \<Rightarrow> nat option" where
  "position P [] = None"
| "position P (x # xs) = (if P x then Some 0 else map_option Suc (position P xs))"

definition shape_index :: "csl_shape \<Rightarrow> nat" where
  "shape_index s = the (position (\<lambda>shape. shape = s) all_shapes)"

datatype decoder_input_kind = RawBytes | Cbor csl_shape

definition RAW_BYTE_TYPES :: "string list" where
  "RAW_BYTE_TYPES =
     [''Address'', ''AnchorDataHash'', ''AuxiliaryDataHash'', ''BaseAddress'',
      ''Bip32PrivateKey'', ''Bip32PublicKey'', ''BlockHash'', ''ByronAddress'', ''DataHash'',
      ''Ed25519KeyHash'', ''Ed25519Signature'', ''EnterpriseAddress'', ''GenesisDelegateHash'',
      ''GenesisHash'', ''KESSignature'', ''KESVKey'', ''LegacyDaedalusPrivateKey'',
      ''PlutusScript'', ''PointerAddress'', ''PoolMetadataHash'', ''PrivateKey'', ''PublicKey'',
      ''RewardAddress'', ''ScriptDataHash'', ''ScriptHash'', ''TransactionHash'', ''VRFKeyHash'',
      ''VRFVKey'']"

text \<open>The arms of the \<open>match\<close> on a type's name, in their order.\<close>

definition shape_names :: "(string list \<times> csl_shape) list" where
  "shape_names =
     [([''Transaction''], Transaction),
      ([''Block''], Block),
      ([''VersionedBlock''], VersionedBlock),
      ([''TransactionWitnessSet''], WitnessSet),
      ([''TransactionWitnessSets''], WitnessSets),
      ([''Vkeywitnesses'', ''BootstrapWitnesses''], WitnessList),
      ([''TransactionBody''], TransactionBody),
      ([''TransactionBodies''], TransactionBodies),
      ([''TransactionOutput''], TransactionOutput),
      ([''TransactionOutputs''], TransactionOutputs),
      ([''TransactionUnspentOutput''], TransactionUnspentOutput),
      ([''Withdrawals''], Withdrawals),
      ([''RewardAddresses''], RewardAddresses),
      ([''PoolParams''], PoolParams),
      ([''Certificate'', ''PoolRegistration''], Certificate),
      ([''Certificates''], Certificates),
      ([''VotingProposal''], VotingProposal),
      ([''VotingProposals''], VotingProposals),
      ([''GovernanceAction'', ''TreasuryWithdrawalsAction''], GovernanceAction),
      ([''NativeScript'', ''ScriptAll'', ''ScriptAny'', ''ScriptNOfK'', ''ScriptPubkey'',
        ''TimelockStart'', ''TimelockExpiry''], NativeScript),
      ([''NativeScripts''], NativeScripts),
      ([''ScriptRef''], ScriptRef),
      ([''AuxiliaryData''], AuxiliaryData)]"

definition decoder_input :: "string \<Rightarrow> decoder_input_kind" where
  "decoder_input type_name =
     (if type_name \<in> set RAW_BYTE_TYPES then RawBytes
      else Cbor (case find (\<lambda>(names, shape). type_name \<in> set names) shape_names of
                   Some (names, shape) \<Rightarrow> shape
                 | None \<Rightarrow> Item))"

subsection \<open>Errors\<close>

datatype preflight_error =
    Empty
  | Malformed string string string
  | Unsupported string string
  | SimpleValueInWitnessList nat
  | EmptyAddress nat

fun preflight_error_display :: "preflight_error \<Rightarrow> string" where
  "preflight_error_display Empty = ''Input is empty''"
| "preflight_error_display (Malformed kind path message) =
     ''Malformed CBOR: '' @ message @ '' (kind: '' @ kind @ '', path: '' @ path @ '')''"
| "preflight_error_display (Unsupported kind message) =
     ''Unsupported CBOR content: '' @ message @ '' (kind: '' @ kind @ '')''"
| "preflight_error_display (SimpleValueInWitnessList offset) =
     ''Malformed witness list: a simple value or float at byte offset '' @ decimal offset
     @ '' where a witness (an array) is expected''"
| "preflight_error_display (EmptyAddress offset) =
     ''Malformed address: an empty byte string at byte offset '' @ decimal offset
     @ '' where an address is expected''"

definition preflight_of_decode_error :: "decode_error \<Rightarrow> preflight_error" where
  "preflight_of_decode_error e =
     (let kind = error_kind_str (de_kind e)
      in if de_kind e \<in> {NonFiniteFloat, IntNotRepresentable, NestingTooDeep}
         then Unsupported kind (de_message e)
         else Malformed kind (de_path e) (de_message e))"

subsection \<open>Set tags and byte strings\<close>

text \<open>\<open>for _ in 0..2\<close>: at most two tags 258 are skipped.\<close>

fun skip_tags :: "nat \<Rightarrow> bytes \<Rightarrow> nat \<Rightarrow> nat option" where
  "skip_tags 0 bs at = Some at"
| "skip_tags (Suc n) bs at =
     do {
       header \<leftarrow> read_header bs at;
       if hd_major header = 6 \<and> hd_argument header = Some 258
       then skip_tags n bs (at + hd_len header)
       else Some at
     }"

definition skip_set_tags :: "bytes \<Rightarrow> nat \<Rightarrow> nat option" where
  "skip_set_tags bs at = skip_tags 2 bs at"

function chunk_lengths :: "bytes \<Rightarrow> nat \<Rightarrow> u64 \<Rightarrow> u64 option" where
  "chunk_lengths bs i acc =
     (if is_break bs i then Some acc
      else
        do {
          chunk \<leftarrow> read_header bs i;
          if hd_major chunk \<noteq> 2 then None
          else do {
            len \<leftarrow> hd_argument chunk;
            acc' \<leftarrow> u64_checked_add acc len;
            i1 \<leftarrow> usize_checked_add i (hd_len chunk);
            n \<leftarrow> usize_of_u64 len;
            i2 \<leftarrow> usize_checked_add i1 n;
            if i2 > length bs then None else chunk_lengths bs i2 acc'
          }
        })"
  by pat_completeness auto
termination
  by (relation "measure (\<lambda>(bs, i, acc). length bs - i)")
    (auto dest!: read_header_bound)

declare chunk_lengths.simps [simp del]

definition byte_string_len :: "bytes \<Rightarrow> nat \<Rightarrow> u64 option" where
  "byte_string_len bs at =
     do {
       header \<leftarrow> read_header bs at;
       if hd_major header \<noteq> 2 then None
       else (case hd_argument header of
               Some len \<Rightarrow> Some len
             | None \<Rightarrow> chunk_lengths bs (at + hd_len header) 0)
     }"

definition empty_byte_string_at :: "bytes \<Rightarrow> nat \<Rightarrow> nat option" where
  "empty_byte_string_at bs at =
     do { len \<leftarrow> byte_string_len bs at; if len = 0 then Some at else None }"

subsection \<open>Simple values in witness lists\<close>

definition witness_list_hazard_at :: "bytes \<Rightarrow> nat \<Rightarrow> nat option" where
  "witness_list_hazard_at bs at =
     do {
       list \<leftarrow> skip_set_tags bs at;
       items \<leftarrow> array_element_offsets bs list;
       find (\<lambda>item. case read_header bs item of Some h \<Rightarrow> hd_major h = 7 | None \<Rightarrow> False) items
     }"

fun witness_entries_hazard :: "bytes \<Rightarrow> (nat \<times> nat) list \<Rightarrow> nat option" where
  "witness_entries_hazard bs [] = None"
| "witness_entries_hazard bs ((key, value) # entries) =
     do {
       header \<leftarrow> read_header bs key;
       if hd_major header = 0 \<and> (hd_argument header = Some 0 \<or> hd_argument header = Some 2)
       then (case witness_list_hazard_at bs value of
               Some offset \<Rightarrow> Some offset
             | None \<Rightarrow> witness_entries_hazard bs entries)
       else witness_entries_hazard bs entries
     }"

definition witness_set_hazard_at :: "bytes \<Rightarrow> nat \<Rightarrow> nat option" where
  "witness_set_hazard_at bs at =
     do { entries \<leftarrow> map_entry_offsets bs at; witness_entries_hazard bs entries }"

definition witness_sets_hazard_at :: "bytes \<Rightarrow> nat \<Rightarrow> nat option" where
  "witness_sets_hazard_at bs at =
     do { sets \<leftarrow> array_element_offsets bs at; find_map (witness_set_hazard_at bs) sets }"

definition block_hazard_at :: "bytes \<Rightarrow> nat \<Rightarrow> nat option" where
  "block_hazard_at bs at =
     do {
       elements \<leftarrow> array_element_offsets bs at;
       witness_sets \<leftarrow> nth_opt elements 2;
       witness_sets_hazard_at bs witness_sets
     }"

definition transaction_hazard_at :: "bytes \<Rightarrow> nat \<Rightarrow> nat option" where
  "transaction_hazard_at bs at =
     do {
       elements \<leftarrow> array_element_offsets bs at;
       witness_set \<leftarrow> nth_opt elements 1;
       witness_set_hazard_at bs witness_set
     }"

definition witness_list_hazard :: "bytes \<Rightarrow> csl_shape \<Rightarrow> nat option" where
  "witness_list_hazard bs shape =
     (case shape of
        WitnessList \<Rightarrow> witness_list_hazard_at bs 0
      | WitnessSet \<Rightarrow> witness_set_hazard_at bs 0
      | WitnessSets \<Rightarrow> witness_sets_hazard_at bs 0
      | Transaction \<Rightarrow> transaction_hazard_at bs 0
      | Block \<Rightarrow> block_hazard_at bs 0
      | VersionedBlock \<Rightarrow>
          do {
            elements \<leftarrow> array_element_offsets bs 0;
            block \<leftarrow> nth_opt elements 1;
            block_hazard_at bs block
          }
      | _ \<Rightarrow> None)"

subsection \<open>Empty addresses\<close>

definition map_keys_address_hazard_at :: "bytes \<Rightarrow> nat \<Rightarrow> nat option" where
  "map_keys_address_hazard_at bs at =
     do {
       entries \<leftarrow> map_entry_offsets bs at;
       find_map (\<lambda>(key, _). empty_byte_string_at bs key) entries
     }"

definition governance_action_address_hazard_at :: "bytes \<Rightarrow> nat \<Rightarrow> nat option" where
  "governance_action_address_hazard_at bs at =
     do {
       elements \<leftarrow> array_element_offsets bs at;
       kind \<leftarrow> nth_opt elements 0;
       if \<not> is_uint bs kind 2 then None
       else do { withdrawals \<leftarrow> nth_opt elements 1; map_keys_address_hazard_at bs withdrawals }
     }"

definition proposal_address_hazard_at :: "bytes \<Rightarrow> nat \<Rightarrow> nat option" where
  "proposal_address_hazard_at bs at =
     do {
       elements \<leftarrow> array_element_offsets bs at;
       case nth_opt elements 1 \<bind> empty_byte_string_at bs of
         Some offset \<Rightarrow> Some offset
       | None \<Rightarrow> do { action \<leftarrow> nth_opt elements 2; governance_action_address_hazard_at bs action }
     }"

definition proposals_address_hazard_at :: "bytes \<Rightarrow> nat \<Rightarrow> nat option" where
  "proposals_address_hazard_at bs at =
     do {
       list \<leftarrow> skip_set_tags bs at;
       proposals \<leftarrow> array_element_offsets bs list;
       find_map (proposal_address_hazard_at bs) proposals
     }"

definition certificate_address_hazard_at :: "bytes \<Rightarrow> nat \<Rightarrow> nat option" where
  "certificate_address_hazard_at bs at =
     do {
       elements \<leftarrow> array_element_offsets bs at;
       kind \<leftarrow> nth_opt elements 0;
       if \<not> is_uint bs kind 3 then None
       else do { account \<leftarrow> nth_opt elements 6; empty_byte_string_at bs account }
     }"

definition certificates_address_hazard_at :: "bytes \<Rightarrow> nat \<Rightarrow> nat option" where
  "certificates_address_hazard_at bs at =
     do {
       list \<leftarrow> skip_set_tags bs at;
       certificates \<leftarrow> array_element_offsets bs list;
       find_map (certificate_address_hazard_at bs) certificates
     }"

definition output_address_hazard_at :: "bytes \<Rightarrow> nat \<Rightarrow> nat option" where
  "output_address_hazard_at bs at =
     do {
       header \<leftarrow> read_header bs at;
       if hd_major header = 4 then
         do {
           elements \<leftarrow> array_element_offsets bs at;
           address \<leftarrow> nth_opt elements 0;
           empty_byte_string_at bs address
         }
       else if hd_major header = 5 then
         do {
           entries \<leftarrow> map_entry_offsets bs at;
           find_map (\<lambda>(_, value). empty_byte_string_at bs value)
             (filter (\<lambda>(key, _). is_uint bs key 0) entries)
         }
       else None
     }"

definition outputs_address_hazard_at :: "bytes \<Rightarrow> nat \<Rightarrow> nat option" where
  "outputs_address_hazard_at bs at =
     do {
       outputs \<leftarrow> array_element_offsets bs at;
       find_map (output_address_hazard_at bs) outputs
     }"

definition body_route :: "bytes \<Rightarrow> u64 option \<Rightarrow> nat \<Rightarrow> nat option" where
  "body_route bs argument value =
     (if argument = Some 1 then outputs_address_hazard_at bs value
      else if argument = Some 16 then output_address_hazard_at bs value
      else if argument = Some 5 then map_keys_address_hazard_at bs value
      else if argument = Some 4 then certificates_address_hazard_at bs value
      else if argument = Some 20 then proposals_address_hazard_at bs value
      else None)"

fun body_entries_hazard :: "bytes \<Rightarrow> (nat \<times> nat) list \<Rightarrow> nat option" where
  "body_entries_hazard bs [] = None"
| "body_entries_hazard bs ((key, value) # entries) =
     do {
       header \<leftarrow> read_header bs key;
       if hd_major header \<noteq> 0 then body_entries_hazard bs entries
       else (case body_route bs (hd_argument header) value of
               Some offset \<Rightarrow> Some offset
             | None \<Rightarrow> body_entries_hazard bs entries)
     }"

definition body_address_hazard_at :: "bytes \<Rightarrow> nat \<Rightarrow> nat option" where
  "body_address_hazard_at bs at =
     do { entries \<leftarrow> map_entry_offsets bs at; body_entries_hazard bs entries }"

definition block_address_hazard_at :: "bytes \<Rightarrow> nat \<Rightarrow> nat option" where
  "block_address_hazard_at bs at =
     do {
       elements \<leftarrow> array_element_offsets bs at;
       bodies \<leftarrow> nth_opt elements 1;
       list \<leftarrow> array_element_offsets bs bodies;
       find_map (body_address_hazard_at bs) list
     }"

definition address_hazard :: "bytes \<Rightarrow> csl_shape \<Rightarrow> nat option" where
  "address_hazard bs shape =
     (case shape of
        Transaction \<Rightarrow>
          do {
            elements \<leftarrow> array_element_offsets bs 0;
            body \<leftarrow> nth_opt elements 0;
            body_address_hazard_at bs body
          }
      | Block \<Rightarrow> block_address_hazard_at bs 0
      | VersionedBlock \<Rightarrow>
          do {
            elements \<leftarrow> array_element_offsets bs 0;
            block \<leftarrow> nth_opt elements 1;
            block_address_hazard_at bs block
          }
      | TransactionBody \<Rightarrow> body_address_hazard_at bs 0
      | TransactionBodies \<Rightarrow>
          do { bodies \<leftarrow> array_element_offsets bs 0; find_map (body_address_hazard_at bs) bodies }
      | TransactionOutput \<Rightarrow> output_address_hazard_at bs 0
      | TransactionOutputs \<Rightarrow> outputs_address_hazard_at bs 0
      | TransactionUnspentOutput \<Rightarrow>
          do {
            elements \<leftarrow> array_element_offsets bs 0;
            output \<leftarrow> nth_opt elements 1;
            output_address_hazard_at bs output
          }
      | Withdrawals \<Rightarrow> map_keys_address_hazard_at bs 0
      | RewardAddresses \<Rightarrow>
          do { addresses \<leftarrow> array_element_offsets bs 0; find_map (empty_byte_string_at bs) addresses }
      | PoolParams \<Rightarrow>
          do {
            elements \<leftarrow> array_element_offsets bs 0;
            account \<leftarrow> nth_opt elements 5;
            empty_byte_string_at bs account
          }
      | Certificate \<Rightarrow> certificate_address_hazard_at bs 0
      | Certificates \<Rightarrow> certificates_address_hazard_at bs 0
      | VotingProposal \<Rightarrow> proposal_address_hazard_at bs 0
      | VotingProposals \<Rightarrow> proposals_address_hazard_at bs 0
      | GovernanceAction \<Rightarrow> governance_action_address_hazard_at bs 0
      | _ \<Rightarrow> None)"

definition shape_hazard :: "bytes \<Rightarrow> csl_shape \<Rightarrow> preflight_error option" where
  "shape_hazard bs shape =
     (case witness_list_hazard bs shape of
        Some offset \<Rightarrow> Some (SimpleValueInWitnessList offset)
      | None \<Rightarrow> map_option EmptyAddress (address_hazard bs shape))"

text \<open>Every shape's verdict over one document: a table indexed by shape.\<close>

definition shape_hazards_scan :: "bytes \<Rightarrow> bool list" where
  "shape_hazards_scan bs =
     foldl (\<lambda>hazardous shape. hazardous[shape_index shape := (shape_hazard bs shape \<noteq> None)])
       (replicate (length all_shapes) False) all_shapes"

definition shape_hazardous :: "bool list \<Rightarrow> csl_shape \<Rightarrow> bool" where
  "shape_hazardous hazards shape = hazards ! shape_index shape"

end
