(* ===== verification/Preflight_Checks.thy ===== *)
theory Preflight_Checks
  imports Preflight
begin

text \<open>
  The second half of \<^verbatim>\<open>src/src/csl_preflight.rs\<close>: where native scripts sit in a document,
  the nesting outside them, the verdict on a document, the ledger's transaction size and the
  cost models the serialization library cannot read.

  The functions that collect native scripts push onto \<open>sites\<close> and answer whether the framing
  could be followed; every caller drops that answer, so here they return the sites only.
\<close>

subsection \<open>Native script sites\<close>

record sites =
  st_scripts :: "(nat \<times> nat) list"
  st_script_refs :: "nat list"

definition no_sites :: sites where
  "no_sites = \<lparr>st_scripts = [], st_script_refs = []\<rparr>"

definition native_script_at :: "minicbor \<Rightarrow> bytes \<Rightarrow> nat \<Rightarrow> sites \<Rightarrow> sites" where
  "native_script_at d bs at sites =
     (case native_script_end d bs at of
        Some end \<Rightarrow> sites\<lparr>st_scripts := st_scripts sites @ [(at, end)]\<rparr>
      | None \<Rightarrow> sites)"

text \<open>\<open>for x in xs { let _ = step(x, sites); }\<close>, after a \<open>?\<close> on the list.\<close>

definition each_site :: "'a list option \<Rightarrow> ('a \<Rightarrow> sites \<Rightarrow> sites) \<Rightarrow> sites \<Rightarrow> sites" where
  "each_site xs step sites =
     (case xs of Some xs \<Rightarrow> foldl (\<lambda>sites x. step x sites) sites xs | None \<Rightarrow> sites)"

definition native_script_list_at :: "minicbor \<Rightarrow> bytes \<Rightarrow> nat \<Rightarrow> sites \<Rightarrow> sites" where
  "native_script_list_at d bs at sites =
     each_site (skip_set_tags bs at \<bind> array_element_offsets bs) (native_script_at d bs) sites"

definition witness_set_scripts_at :: "minicbor \<Rightarrow> bytes \<Rightarrow> nat \<Rightarrow> sites \<Rightarrow> sites" where
  "witness_set_scripts_at d bs at sites =
     each_site (map_entry_offsets bs at)
       (\<lambda>(key, value) sites.
          if is_uint bs key 1 then native_script_list_at d bs value sites else sites) sites"

definition auxiliary_data_scripts_at :: "minicbor \<Rightarrow> bytes \<Rightarrow> nat \<Rightarrow> sites \<Rightarrow> sites" where
  "auxiliary_data_scripts_at d bs at sites =
     (case read_header bs at of
        None \<Rightarrow> sites
      | Some header \<Rightarrow>
          if hd_major header = 4 then
            (case array_element_offsets bs at \<bind> (\<lambda>elements. nth_opt elements 1) of
               Some scripts \<Rightarrow> native_script_list_at d bs scripts sites
             | None \<Rightarrow> sites)
          else if hd_major header = 6 \<and> hd_argument header = Some 259 then
            each_site (map_entry_offsets bs (at + hd_len header))
              (\<lambda>(key, value) sites.
                 if is_uint bs key 1 then native_script_list_at d bs value sites else sites) sites
          else sites)"

definition script_ref_payload_at :: "bytes \<Rightarrow> nat \<Rightarrow> sites \<Rightarrow> sites" where
  "script_ref_payload_at bs at sites =
     (case read_header bs at of
        None \<Rightarrow> sites
      | Some tag \<Rightarrow>
          if hd_major tag \<noteq> 6 \<or> hd_argument tag \<noteq> Some 24 then sites
          else (case read_header bs (at + hd_len tag) of
                  None \<Rightarrow> sites
                | Some text \<Rightarrow>
                    if hd_major text \<noteq> 2 \<or> hd_argument text = None then sites
                    else sites\<lparr>st_script_refs :=
                           st_script_refs sites @ [at + hd_len tag + hd_len text]\<rparr>))"

definition script_ref_content_at :: "minicbor \<Rightarrow> bytes \<Rightarrow> nat \<Rightarrow> sites \<Rightarrow> sites" where
  "script_ref_content_at d bs at sites =
     (case array_element_offsets bs at of
        Some [kind, script] \<Rightarrow>
          if is_uint bs kind 0 then native_script_at d bs script sites else sites
      | _ \<Rightarrow> sites)"

definition output_scripts_at :: "bytes \<Rightarrow> nat \<Rightarrow> sites \<Rightarrow> sites" where
  "output_scripts_at bs at sites =
     (case read_header bs at of
        None \<Rightarrow> sites
      | Some header \<Rightarrow>
          if hd_major header \<noteq> 5 then sites
          else each_site (map_entry_offsets bs at)
                 (\<lambda>(key, value) sites.
                    if is_uint bs key 3 then script_ref_payload_at bs value sites else sites) sites)"

definition body_scripts_at :: "bytes \<Rightarrow> nat \<Rightarrow> sites \<Rightarrow> sites" where
  "body_scripts_at bs at sites =
     each_site (map_entry_offsets bs at)
       (\<lambda>(key, value) sites.
          if is_uint bs key 1 then
            each_site (array_element_offsets bs value) (output_scripts_at bs) sites
          else if is_uint bs key 16 then output_scripts_at bs value sites
          else sites) sites"

text \<open>\<open>elements.get(i)\<close>, and a step on the element when there is one.\<close>

definition at_element :: "nat list \<Rightarrow> nat \<Rightarrow> (nat \<Rightarrow> sites \<Rightarrow> sites) \<Rightarrow> sites \<Rightarrow> sites" where
  "at_element elements i step sites =
     (case nth_opt elements i of Some x \<Rightarrow> step x sites | None \<Rightarrow> sites)"

definition block_scripts_at :: "minicbor \<Rightarrow> bytes \<Rightarrow> nat \<Rightarrow> sites \<Rightarrow> sites" where
  "block_scripts_at d bs at sites =
     (case array_element_offsets bs at of
        None \<Rightarrow> sites
      | Some elements \<Rightarrow>
          let sites = at_element elements 1
                (\<lambda>bodies. each_site (array_element_offsets bs bodies) (body_scripts_at bs)) sites;
              sites = at_element elements 2
                (\<lambda>sets. each_site (array_element_offsets bs sets) (witness_set_scripts_at d bs)) sites
          in at_element elements 3
               (\<lambda>auxiliary. each_site (map_entry_offsets bs auxiliary)
                  (\<lambda>(_, data). auxiliary_data_scripts_at d bs data)) sites)"

definition transaction_scripts_at :: "minicbor \<Rightarrow> bytes \<Rightarrow> nat \<Rightarrow> sites \<Rightarrow> sites" where
  "transaction_scripts_at d bs at sites =
     (case array_element_offsets bs at of
        None \<Rightarrow> sites
      | Some elements \<Rightarrow>
          let sites = at_element elements 0 (body_scripts_at bs) sites;
              sites = at_element elements 1 (witness_set_scripts_at d bs) sites;
              auxiliary =
                (if length elements = 4 then nth_opt elements 3
                 else if length elements = 3 then nth_opt elements 2
                 else None)
          in case auxiliary of
               Some auxiliary \<Rightarrow> auxiliary_data_scripts_at d bs auxiliary sites
             | None \<Rightarrow> sites)"

definition second_element :: "bytes \<Rightarrow> nat \<Rightarrow> nat option" where
  "second_element bs at = array_element_offsets bs at \<bind> (\<lambda>elements. nth_opt elements 1)"

definition native_sites_at :: "minicbor \<Rightarrow> bytes \<Rightarrow> nat \<Rightarrow> csl_shape \<Rightarrow> sites \<Rightarrow> sites" where
  "native_sites_at d bs at shape sites =
     (case shape of
        NativeScript \<Rightarrow> native_script_at d bs at sites
      | NativeScripts \<Rightarrow> native_script_list_at d bs at sites
      | WitnessSet \<Rightarrow> witness_set_scripts_at d bs at sites
      | WitnessSets \<Rightarrow>
          each_site (array_element_offsets bs at) (witness_set_scripts_at d bs) sites
      | AuxiliaryData \<Rightarrow> auxiliary_data_scripts_at d bs at sites
      | ScriptRef \<Rightarrow>
          (case read_header bs at of
             None \<Rightarrow> sites
           | Some header \<Rightarrow>
               if hd_major header = 6 then script_ref_payload_at bs at sites
               else script_ref_content_at d bs at sites)
      | TransactionOutput \<Rightarrow> output_scripts_at bs at sites
      | TransactionOutputs \<Rightarrow>
          each_site (array_element_offsets bs at) (output_scripts_at bs) sites
      | TransactionUnspentOutput \<Rightarrow>
          (case second_element bs at of
             Some output \<Rightarrow> output_scripts_at bs output sites
           | None \<Rightarrow> sites)
      | TransactionBody \<Rightarrow> body_scripts_at bs at sites
      | TransactionBodies \<Rightarrow>
          each_site (array_element_offsets bs at) (body_scripts_at bs) sites
      | Transaction \<Rightarrow> transaction_scripts_at d bs at sites
      | Block \<Rightarrow> block_scripts_at d bs at sites
      | VersionedBlock \<Rightarrow>
          (case second_element bs at of
             Some block \<Rightarrow> block_scripts_at d bs block sites
           | None \<Rightarrow> sites)
      | _ \<Rightarrow> sites)"

text \<open>\<open>sort_unstable\<close> and \<open>dedup\<close>.\<close>

definition native_script_sites :: "minicbor \<Rightarrow> bytes \<Rightarrow> csl_shape \<Rightarrow> sites" where
  "native_script_sites d bs shape =
     (let sites = native_sites_at d bs 0 shape no_sites
      in \<lparr>st_scripts = remdups_adj (sort (st_scripts sites)),
          st_script_refs = remdups_adj (sort (st_script_refs sites))\<rparr>)"

subsection \<open>Nesting outside native scripts\<close>

definition nesting_outside_native_scripts :: "minicbor \<Rightarrow> bytes \<Rightarrow> csl_shape \<Rightarrow> nat \<Rightarrow> nat" where
  "nesting_outside_native_scripts d bs shape ceiling =
     (let sites = native_script_sites d bs shape;
          refs = st_script_refs sites
      in cbor_nesting_depth_through_embedded_skipping bs ceiling (st_scripts sites)
           (\<lambda>start payload.
              if start \<notin> set refs then []
              else st_scripts (script_ref_content_at d payload 0 no_sites)))"

datatype reader = Csl | Pallas | Typed

fun reader_bound :: "reader \<Rightarrow> nat" where
  "reader_bound Csl = MAX_CSL_NESTING_DEPTH"
| "reader_bound Pallas = MAX_PALLAS_NESTING_DEPTH"
| "reader_bound Typed = MAX_TYPED_DECODER_NESTING_DEPTH"

definition reader_refusal :: "reader \<Rightarrow> preflight_error" where
  "reader_refusal reader =
     Unsupported ''nesting_too_deep''
       (case reader of
          Csl \<Rightarrow> csl_nesting_message (reader_bound reader)
        | Pallas \<Rightarrow> pallas_nesting_message (reader_bound reader)
        | Typed \<Rightarrow> typed_decoder_nesting_message (reader_bound reader))"

definition total_nesting_refusal :: preflight_error where
  "total_nesting_refusal =
     Unsupported ''nesting_too_deep'' (nesting_depth_message MAX_CBOR_NESTING_DEPTH)"

definition nesting_verdict :: "minicbor \<Rightarrow> bytes \<Rightarrow> csl_shape \<Rightarrow> reader \<Rightarrow> preflight_error option" where
  "nesting_verdict d bs shape reader =
     (let whole = cbor_nesting_depth_through_embedded_capped bs MAX_CBOR_NESTING_DEPTH
      in if whole \<le> reader_bound reader then None
         else if MAX_CBOR_NESTING_DEPTH < whole then Some total_nesting_refusal
         else if reader_bound reader < nesting_outside_native_scripts d bs shape (reader_bound reader)
         then Some (reader_refusal reader)
         else None)"

subsection \<open>The checks\<close>

definition check_cbor_within ::
  "minicbor \<Rightarrow> (bytes \<Rightarrow> decode_error option) \<Rightarrow> bytes \<Rightarrow> csl_shape \<Rightarrow> reader \<Rightarrow>
     preflight_error + unit" where
  "check_cbor_within d well_formed_error bs shape reader =
     (if bs = [] then Inl Empty
      else case well_formed_error bs of
        Some error \<Rightarrow> Inl (preflight_of_decode_error error)
      | None \<Rightarrow>
          (case nesting_verdict d bs shape reader of
             Some refusal \<Rightarrow> Inl refusal
           | None \<Rightarrow>
               (case shape_hazard bs shape of Some error \<Rightarrow> Inl error | None \<Rightarrow> Inr ())))"

definition check_cbor ::
  "minicbor \<Rightarrow> (bytes \<Rightarrow> decode_error option) \<Rightarrow> bytes \<Rightarrow> csl_shape \<Rightarrow> preflight_error + unit" where
  "check_cbor d well_formed_error bs shape = check_cbor_within d well_formed_error bs shape Csl"

definition check_pallas_cbor ::
  "minicbor \<Rightarrow> (bytes \<Rightarrow> decode_error option) \<Rightarrow> bytes \<Rightarrow> csl_shape \<Rightarrow> preflight_error + unit" where
  "check_pallas_cbor d well_formed_error bs shape = check_cbor_within d well_formed_error bs shape Pallas"

text \<open>On hex text, whose decoder is that of the hex crate.\<close>

definition check_hex ::
  "(string \<Rightarrow> string + bytes) \<Rightarrow> (bytes \<Rightarrow> preflight_error + unit) \<Rightarrow> string \<Rightarrow> string + bytes" where
  "check_hex hex_decode check hex_text =
     (case hex_decode hex_text of
        Inl e \<Rightarrow> Inl (''Invalid hex: '' @ e)
      | Inr bs \<Rightarrow> (case check bs of Inl e \<Rightarrow> Inl (preflight_error_display e) | Inr _ \<Rightarrow> Inr bs))"

definition check_decoder_input ::
  "minicbor \<Rightarrow> (bytes \<Rightarrow> decode_error option) \<Rightarrow> bytes \<Rightarrow> decoder_input_kind \<Rightarrow>
     preflight_error + unit" where
  "check_decoder_input d well_formed_error bs input =
     (case input of RawBytes \<Rightarrow> Inr () | Cbor shape \<Rightarrow> check_cbor d well_formed_error bs shape)"

definition typed_decoder_nesting_refusal :: "minicbor \<Rightarrow> bytes \<Rightarrow> csl_shape \<Rightarrow> string option" where
  "typed_decoder_nesting_refusal d bs shape =
     map_option (\<lambda>e. case e of Unsupported kind message \<Rightarrow> message | _ \<Rightarrow> preflight_error_display e)
       (nesting_verdict d bs shape Typed)"

definition nesting_refusal_of ::
  "minicbor \<Rightarrow> (bytes \<Rightarrow> decode_error option) \<Rightarrow> bytes \<Rightarrow> csl_shape \<Rightarrow> reader \<Rightarrow> string option" where
  "nesting_refusal_of d well_formed_error bs shape reader =
     (if bs = [] \<or> well_formed_error bs \<noteq> None then None
      else map_option preflight_error_display (nesting_verdict d bs shape reader))"

text \<open>Address text; \<open>parse\<close> is the serialization library's parser.\<close>

definition address_from_hex ::
  "(string \<Rightarrow> string + bytes) \<Rightarrow> (string \<Rightarrow> string + 'address) \<Rightarrow> string \<Rightarrow> string + 'address" where
  "address_from_hex hex_decode parse hex_text =
     (case hex_decode hex_text of
        Inl e \<Rightarrow> Inl (''Invalid hex: '' @ e)
      | Inr bs \<Rightarrow>
          if bs = [] then Inl ''Address bytes are empty''
          else (case parse hex_text of
                  Inl e \<Rightarrow> Inl (''Invalid address: '' @ e)
                | Inr address \<Rightarrow> Inr address))"

definition address_from_bech32 ::
  "(string \<Rightarrow> string + string \<times> bytes) \<Rightarrow> (string \<Rightarrow> string + 'address) \<Rightarrow> string \<Rightarrow> string + 'address" where
  "address_from_bech32 bech32_decode parse text =
     (case bech32_decode text of
        Inl e \<Rightarrow> Inl (''Invalid bech32: '' @ e)
      | Inr (_, payload) \<Rightarrow>
          if payload = [] then Inl ''Address bytes are empty''
          else (case parse text of
                  Inl e \<Rightarrow> Inl (''Invalid address: '' @ e)
                | Inr address \<Rightarrow> Inr address))"

subsection \<open>The transaction's size\<close>

fun item_lengths :: "bytes \<Rightarrow> nat list \<Rightarrow> nat list option" where
  "item_lengths bs [] = Some []"
| "item_lengths bs (start # starts) =
     do {
       end \<leftarrow> skip_item bs start;
       lengths \<leftarrow> item_lengths bs starts;
       Some ((end - start) # lengths)
     }"

definition ledger_tx_size :: "bytes \<Rightarrow> nat option" where
  "ledger_tx_size bs =
     do {
       starts \<leftarrow> array_element_offsets bs 0;
       lengths \<leftarrow> item_lengths bs starts;
       components \<leftarrow>
         (case lengths of
            [body, witnesses, is_valid, auxiliary] \<Rightarrow> Some (body + witnesses + auxiliary)
          | [body, witnesses, auxiliary] \<Rightarrow> Some (body + witnesses + auxiliary)
          | _ \<Rightarrow> None);
       Some (1 + components)
     }"

subsection \<open>Cost models of unknown languages\<close>

definition CSL_COST_MODEL_LANGUAGES :: u64 where "CSL_COST_MODEL_LANGUAGES = 3"

definition unknown_language_number :: "bytes \<Rightarrow> nat \<Rightarrow> u64 option" where
  "unknown_language_number bs at =
     do {
       (_, cost_models) \<leftarrow> (map_entry_offsets bs at \<bind> find (\<lambda>(key, _). is_uint bs key 18));
       languages \<leftarrow> map_entry_offsets bs cost_models;
       find_map (\<lambda>(language, _).
         do {
           header \<leftarrow> read_header bs language;
           n \<leftarrow> hd_argument header;
           if hd_major header = 0 \<and> CSL_COST_MODEL_LANGUAGES \<le> n then Some n else None
         }) languages
     }"

definition unknown_language_in_update :: "bytes \<Rightarrow> nat \<Rightarrow> string option" where
  "unknown_language_in_update bs at =
     map_option (\<lambda>n. '' carries a cost model for language '' @ decimal (unat n))
       (unknown_language_number bs at)"

definition proposal_unknown_language :: "bytes \<Rightarrow> nat \<times> nat \<Rightarrow> string option" where
  "proposal_unknown_language bs p =
     do {
       proposal_elements \<leftarrow> array_element_offsets bs (snd p);
       action \<leftarrow> nth_opt proposal_elements 2;
       elements \<leftarrow> array_element_offsets bs action;
       kind \<leftarrow> nth_opt elements 0;
       if \<not> is_uint bs kind 0 then None
       else do {
         update \<leftarrow> nth_opt elements 2;
         language \<leftarrow> unknown_language_in_update bs update;
         Some (''the parameter change of proposal '' @ decimal (fst p) @ language)
       }
     }"

text \<open>One entry of the body: \<open>None\<close> where a \<open>?\<close> ends the search, \<open>Some\<close> of what was found.\<close>

definition entry_unknown_language :: "bytes \<Rightarrow> nat \<Rightarrow> nat \<Rightarrow> string option option" where
  "entry_unknown_language bs key value =
     (if is_uint bs key 20 then
        do {
          list \<leftarrow> skip_set_tags bs value;
          proposals \<leftarrow> array_element_offsets bs list;
          Some (find_map (proposal_unknown_language bs) (enumerate 0 proposals))
        }
      else if is_uint bs key 6 then
        do {
          elements \<leftarrow> array_element_offsets bs value;
          updates \<leftarrow> nth_opt elements 0;
          entries \<leftarrow> map_entry_offsets bs updates;
          Some (map_option (\<lambda>language. ''the protocol parameter update (body key 6)'' @ language)
            (find_map (\<lambda>(_, update). unknown_language_in_update bs update) entries))
        }
      else Some None)"

fun body_unknown_language :: "bytes \<Rightarrow> (nat \<times> nat) list \<Rightarrow> string option" where
  "body_unknown_language bs [] = None"
| "body_unknown_language bs ((key, value) # entries) =
     do {
       found \<leftarrow> entry_unknown_language bs key value;
       case found of Some text \<Rightarrow> Some text | None \<Rightarrow> body_unknown_language bs entries
     }"

definition unknown_cost_model_language :: "bytes \<Rightarrow> string option" where
  "unknown_cost_model_language bs =
     do {
       elements \<leftarrow> array_element_offsets bs 0;
       body \<leftarrow> nth_opt elements 0;
       entries \<leftarrow> map_entry_offsets bs body;
       body_unknown_language bs entries
     }"

definition parse_failure :: "bytes \<Rightarrow> string \<Rightarrow> string \<Rightarrow> string" where
  "parse_failure bs csl_error consequence =
     (case unknown_cost_model_language bs of
        Some found \<Rightarrow>
          found @ ''; the ledger accepts cost models of unknown languages, but the transaction ''
          @ ''reader (cardano-serialization-lib) knows only languages 0-2 (PlutusV1-V3) and ''
          @ ''refuses the transaction'' @ consequence
      | None \<Rightarrow> csl_error)"

definition transaction_parse_failure :: "bytes \<Rightarrow> string \<Rightarrow> string" where
  "transaction_parse_failure bs csl_error = parse_failure bs csl_error []"

definition validation_parse_failure :: "bytes \<Rightarrow> string \<Rightarrow> string" where
  "validation_parse_failure bs csl_error =
     parse_failure bs csl_error
       '', so it cannot be validated here (executeTxScripts still runs its scripts)''"

end
