(* ===== verification/Cbor_Located.thy ===== *)
theory Cbor_Located
  imports Cbor_Spec
begin

text \<open>
  Items with the place they sit at in a buffer, and what the readers of \<^verbatim>\<open>csl_preflight.rs\<close>
  answer there. A scan of bytes that follows offsets is read, through these lemmas, as a walk
  of the tree.
\<close>

unbundle bit_operations_syntax

type_synonym place = "nat \<times> item"

definition located :: "bytes \<Rightarrow> place \<Rightarrow> bool" where
  "located bs p \<longleftrightarrow> well_formed (snd p) \<and> occurs bs (fst p) (encode (snd p))"

lemma located_whole: "well_formed x \<Longrightarrow> located (encode x) (0, x)"
  by (simp add: located_def occurs_whole)

fun major_of :: "item \<Rightarrow> nat" where
  "major_of (Scalar m w n) = m"
| "major_of (Str m w payload) = m"
| "major_of (StrIndef m chunks) = m"
| "major_of (Arr w xs) = 4"
| "major_of (ArrIndef xs) = 4"
| "major_of (Assoc w xs) = 5"
| "major_of (AssocIndef xs) = 5"
| "major_of (Tagged w n x) = 6"

fun argument_of :: "item \<Rightarrow> nat option" where
  "argument_of (Scalar m w n) = Some n"
| "argument_of (Str m w payload) = Some (length payload)"
| "argument_of (Arr w xs) = Some (length xs)"
| "argument_of (Assoc w xs) = Some (length xs div 2)"
| "argument_of (Tagged w n x) = Some n"
| "argument_of _ = None"

fun header_len :: "item \<Rightarrow> nat" where
  "header_len (Scalar m w n) = Suc (width_bytes w)"
| "header_len (Str m w payload) = Suc (width_bytes w)"
| "header_len x = body_start x"

text \<open>The items of a container, each at its place; the entries of a map.\<close>

definition elements :: "place \<Rightarrow> place list" where
  "elements p =
     zip (item_starts (fst p + body_start (snd p)) (contents (snd p))) (contents (snd p))"

definition entries :: "place \<Rightarrow> (place \<times> place) list" where
  "entries p = pair_up (elements p)"

lemma major_of_less: "well_formed x \<Longrightarrow> major_of x < 8"
  by (cases x) auto

lemma header_located:
  assumes "length bs \<le> usize_max" "located bs (p, x)"
  shows "read_header bs p =
    Some (mk_header (of_nat (major_of x)) (map_option of_nat (argument_of x)) (header_len x))"
proof -
  have occ: "occurs bs p (encode x)" "well_formed x"
    using assms(2) by (simp_all add: located_def)
  note enc = read_header_enc [OF _ _ _ assms(1)]
  show ?thesis
  proof (cases x)
    case (Scalar m w n)
    with occ show ?thesis by (auto intro!: enc)
  next
    case (Str m w payload)
    with occ have "occurs bs p (enc_head m w (length payload))" "m < 8" "fits w (length payload)"
      by (auto simp: occurs_append)
    from enc [OF this] Str show ?thesis by simp
  next
    case (StrIndef m chunks)
    with occ have "nth_opt bs p = Some (initial_byte m 31)" "m < 8"
      by (auto simp: occurs_Cons)
    from read_header_indefinite [OF this] StrIndef show ?thesis by simp
  next
    case (Arr w xs)
    with occ have "occurs bs p (enc_head 4 w (length xs))" "fits w (length xs)"
      by (auto simp: occurs_append)
    from enc [OF this(1) _ this(2)] Arr show ?thesis by simp
  next
    case (ArrIndef xs)
    with occ have "nth_opt bs p = Some (initial_byte 4 31)"
      by (auto simp: occurs_Cons)
    from read_header_indefinite [OF this] ArrIndef show ?thesis by simp
  next
    case (Assoc w xs)
    with occ have "occurs bs p (enc_head 5 w (length xs div 2))" "fits w (length xs div 2)"
      by (auto simp: occurs_append)
    from enc [OF this(1) _ this(2)] Assoc show ?thesis by simp
  next
    case (AssocIndef xs)
    with occ have "nth_opt bs p = Some (initial_byte 5 31)"
      by (auto simp: occurs_Cons)
    from read_header_indefinite [OF this] AssocIndef show ?thesis by simp
  next
    case (Tagged w n y)
    with occ have "occurs bs p (enc_head 6 w n)" "fits w n"
      by (auto simp: occurs_append)
    from enc [OF this(1) _ this(2)] Tagged show ?thesis by simp
  qed
qed

lemma elements_located:
  assumes "located bs p" "e \<in> set (elements p)"
  shows "located bs e"
proof -
  obtain k where k: "k < length (contents (snd p))"
      "e = (item_starts (fst p + body_start (snd p)) (contents (snd p)) ! k, contents (snd p) ! k)"
    using assms(2) by (auto simp: elements_def set_zip)
  have "occurs bs (fst p + body_start (snd p)) (encodes (contents (snd p)))"
    using contents_occur [of bs "fst p" "snd p"] assms(1) k(1) by (auto simp: located_def)
  from item_starts_occur [OF this k(1)] k contents_well_formed [of "snd p"] assms(1)
  show ?thesis by (auto simp: located_def)
qed

lemma pair_up_map: "pair_up (map f xs) = map (map_prod f f) (pair_up xs)"
  by (induction xs rule: pair_up.induct) simp_all

lemma set_pair_up: "(k, v) \<in> set (pair_up xs) \<Longrightarrow> k \<in> set xs \<and> v \<in> set xs"
  by (induction xs rule: pair_up.induct) auto

lemma entries_located:
  "located bs p \<Longrightarrow> (k, v) \<in> set (entries p) \<Longrightarrow> located bs k \<and> located bs v"
  using elements_located [of bs p k] elements_located [of bs p v] set_pair_up [of k v "elements p"]
  by (simp add: entries_def)

lemma map_fst_elements: "map fst (elements p) = item_starts (fst p + body_start (snd p)) (contents (snd p))"
  by (simp add: elements_def)

lemma map_snd_elements: "map snd (elements p) = contents (snd p)"
  by (simp add: elements_def)

lemma major_eq:
  assumes "well_formed x" "m < 8"
  shows "((of_nat (major_of x) :: u8) = of_nat m) = (major_of x = m)"
proof -
  have small: "unat (of_nat k :: u8) = k" if "k < 8" for k
    using that by (simp add: unat_of_nat take_bit_eq_mod)
  show ?thesis
    using small [OF major_of_less [OF assms(1)]] small [OF assms(2)] by metis
qed

lemma offsets_located:
  assumes "length bs \<le> usize_max" "located bs p"
  shows "array_element_offsets bs (fst p) =
    (if is_arr (snd p) then Some (map fst (elements p)) else None)"
proof (cases "is_arr (snd p)")
  case True
  with assms array_element_offsets_encode [of bs "snd p" "fst p"] show ?thesis
    by (simp add: located_def map_fst_elements)
next
  case False
  then have "major_of (snd p) \<noteq> 4"
    using assms(2) by (cases "snd p") (auto simp: located_def)
  with False header_located [of bs "fst p" "snd p"] major_eq [of "snd p" 4] assms show ?thesis
    by (simp add: array_element_offsets_def mk_header_def located_def)
qed

lemma entry_offsets_located:
  assumes "length bs \<le> usize_max" "located bs p"
  shows "map_entry_offsets bs (fst p) =
    (if is_assoc (snd p) then Some (map (map_prod fst fst) (entries p)) else None)"
proof (cases "is_assoc (snd p)")
  case True
  with assms map_entry_offsets_encode [of bs "snd p" "fst p"] show ?thesis
    by (simp add: located_def entries_def flip: map_fst_elements pair_up_map)
next
  case False
  then have "major_of (snd p) \<noteq> 5"
    using assms(2) by (cases "snd p") (auto simp: located_def)
  with False header_located [of bs "fst p" "snd p"] major_eq [of "snd p" 5] assms show ?thesis
    by (simp add: map_entry_offsets_def mk_header_def located_def)
qed

text \<open>The unsigned integers and the tags of items.\<close>

definition uint_item :: "nat \<Rightarrow> item \<Rightarrow> bool" where
  "uint_item v x \<longleftrightarrow> major_of x = 0 \<and> argument_of x = Some v"

lemma argument_fits:
  assumes "well_formed x" "argument_of x = Some n"
  shows "n < 2 ^ 64"
proof -
  from assms obtain w where "fits w n"
    by (cases x) auto
  then show ?thesis by (rule fits_u64)
qed

lemma is_uint_located:
  assumes "length bs \<le> usize_max" "located bs p" "v < 2 ^ 64"
  shows "is_uint bs (fst p) (of_nat v) = uint_item v (snd p)"
proof -
  have wf: "well_formed (snd p)" using assms(2) by (simp add: located_def)
  have "map_option of_nat (argument_of (snd p)) = Some (of_nat v :: u64) \<longleftrightarrow>
      argument_of (snd p) = Some v"
    using argument_fits [OF wf] assms(3) by (auto simp: u64_of_nat_inj)
  moreover have "of_nat (major_of (snd p)) = (0 :: u8) \<longleftrightarrow> major_of (snd p) = 0"
    using major_eq [OF wf, of 0] by simp
  ultimately show ?thesis
    using header_located [of bs "fst p" "snd p"] assms
    by (simp add: is_uint_def uint_item_def mk_header_def)
qed

lemma skip_located:
  assumes "length bs \<le> usize_max" "located bs p"
  shows "skip_item bs (fst p) = Some (fst p + length (encode (snd p)))"
  using assms by (intro skip_item_encode) (auto simp: located_def)

end
