(* ===== verification/Preflight_Routes.thy ===== *)
theory Preflight_Routes
  imports Preflight_Checks Cbor_Located
begin

text \<open>
  What the hazard scans of \<^verbatim>\<open>csl_preflight.rs\<close> find, said on trees. \<open>address_sites\<close> lists,
  in document order, the items the serialization library reads as addresses when it reads a
  document as some shape; \<open>witness_sites\<close> lists the items of its witness lists. On the bytes
  of a well-formed item the scans answer the first hazardous one.
\<close>

unbundle bit_operations_syntax

subsection \<open>Byte strings and set tags on items\<close>

text \<open>The payload length of a byte string, chunks spliced.\<close>

fun payload_len :: "item \<Rightarrow> nat option" where
  "payload_len (Str m w payload) = (if m = 2 then Some (length payload) else None)"
| "payload_len (StrIndef m chunks) =
     (if m = 2 then Some (sum_list (map (\<lambda>c. length (snd c)) chunks)) else None)"
| "payload_len _ = None"

text \<open>Past up to two tags 258.\<close>

fun untag :: "nat \<Rightarrow> place \<Rightarrow> place" where
  "untag 0 p = p"
| "untag (Suc k) p =
     (case snd p of
        Tagged w n x \<Rightarrow> if n = 258 then untag k (fst p + Suc (width_bytes w), x) else p
      | _ \<Rightarrow> p)"

lemma chunk_lengths_encode:
  assumes "length bs \<le> usize_max"
    and "occurs bs i (concat (map (enc_chunk 2) chunks) @ [0xff])"
    and "\<forall>c \<in> set chunks. fits (fst c) (length (snd c))"
    and "unat acc + sum_list (map (\<lambda>c. length (snd c)) chunks) \<le> u64_max"
  shows "chunk_lengths bs i acc =
    Some (acc + of_nat (sum_list (map (\<lambda>c. length (snd c)) chunks)))"
  using assms(2-)
proof (induction chunks arbitrary: i acc)
  case Nil
  then show ?case by (simp add: chunk_lengths.simps [of bs i] is_break_def occurs_Cons)
next
  case (Cons c chunks)
  obtain w payload where c: "c = (w, payload)" by fastforce
  let ?n = "length payload" and ?next = "i + Suc (width_bytes w) + length payload"
  have occ: "occurs bs i (enc_head 2 w ?n)" "?next \<le> length bs" "fits w ?n"
      "occurs bs ?next (concat (map (enc_chunk 2) chunks) @ [0xff])"
    using Cons.prems c
    by (auto simp: enc_chunk_def [of 2 "(w, payload)"] occurs_append add.assoc dest: occurs_length)
  have nobreak: "\<not> is_break bs i"
    using not_break_enc_head [of bs i 2 w ?n] occ by simp
  have header: "read_header bs i = Some (mk_header 2 (Some (of_nat ?n)) (Suc (width_bytes w)))"
    using read_header_enc [OF occ(1) _ occ(3) assms(1)] by simp
  have n: "?n \<le> usize_max" "?next \<le> usize_max" using occ(2) assms(1) by simp_all
  have un: "unat (of_nat ?n :: u64) = ?n"
    using n(1) by (intro u64_unat_of_nat usize_max_less_u64)
  have le: "unat acc + ?n + sum_list (map (\<lambda>c. length (snd c)) chunks) \<le> u64_max"
    using Cons.prems(3) c by (simp add: add.assoc)
  then have add: "u64_checked_add acc (of_nat ?n) = Some (acc + of_nat ?n)"
    by (simp only: u64_checked_add_def un) simp
  have "unat (acc + of_nat ?n) = unat acc + ?n"
    using le un by (subst unat_add_lem [THEN iffD1]) (simp_all add: u64_max_def)
  with le occ(4) Cons.prems(2) have "chunk_lengths bs ?next (acc + of_nat ?n) =
      Some (acc + of_nat ?n + of_nat (sum_list (map (\<lambda>c. length (snd c)) chunks)))"
    by (intro Cons.IH) simp_all
  moreover have "usize_of_u64 (of_nat ?n) = Some ?n"
    using n(1) by (rule usize_of_u64_of_nat)
  moreover have "usize_checked_add i (Suc (width_bytes w)) = Some (i + Suc (width_bytes w))"
      "usize_checked_add (i + Suc (width_bytes w)) ?n = Some ?next"
    using n(2) by (simp_all add: usize_checked_add_def)
  ultimately show ?case
    using nobreak header add occ(2) c
    by (simp add: chunk_lengths.simps [of bs i] mk_header_def add.assoc
        del: usize_of_u64_Some usize_checked_add_Some)
qed

lemma sum_chunks_length:
  "sum_list (map (\<lambda>c. length (snd c)) chunks) \<le> length (concat (map (enc_chunk m) chunks))"
  by (induction chunks) (auto simp: enc_chunk_def)

lemma byte_string_len_located:
  assumes "length bs \<le> usize_max" "located bs p"
  shows "byte_string_len bs (fst p) = map_option of_nat (payload_len (snd p))"
proof -
  obtain i x where p: "p = (i, x)" by fastforce
  note header = header_located [OF assms(1), of i x]
  have x: "well_formed x" "occurs bs i (encode x)"
    using assms(2) by (simp_all add: p located_def)
  show ?thesis
  proof (cases "major_of x = 2")
    case False
    then have "payload_len x = None" by (cases x) auto
    with False header assms(2) major_eq [OF x(1), of 2] show ?thesis
      by (simp add: p byte_string_len_def mk_header_def)
  next
    case True
    show ?thesis
    proof (cases x)
      case (StrIndef m chunks)
      with True have m: "m = 2" by simp
      let ?n = "sum_list (map (\<lambda>c. length (snd c)) chunks)"
      have occ: "occurs bs (Suc i) (concat (map (enc_chunk 2) chunks) @ [0xff])"
        using x(2) StrIndef m by (simp add: occurs_Cons)
      have "?n \<le> length (concat (map (enc_chunk 2) chunks))"
        by (rule sum_chunks_length)
      moreover have "length (concat (map (enc_chunk 2) chunks)) \<le> length bs"
        using occurs_length [OF occ] by simp
      ultimately have n: "?n \<le> u64_max"
        using assms(1) by (simp add: usize_max_def u64_max_def)
      have "chunk_lengths bs (Suc i) 0 = Some (0 + of_nat ?n)"
        using occ x(1) StrIndef n by (intro chunk_lengths_encode assms(1)) simp_all
      with StrIndef m header assms(2) show ?thesis
        by (simp add: p byte_string_len_def mk_header_def)
    next
      case (Str m w payload)
      with True header assms(2) show ?thesis
        by (simp add: p byte_string_len_def mk_header_def)
    qed (use True x(1) in auto)
  qed
qed

lemma payload_len_bound:
  "located bs p \<Longrightarrow> payload_len (snd p) = Some n \<Longrightarrow> n \<le> length bs"
proof (cases "snd p")
  case (StrIndef m chunks)
  assume "located bs p" "payload_len (snd p) = Some n"
  with StrIndef sum_chunks_length [of chunks m] occurs_length [of bs "fst p" "encode (snd p)"]
  show ?thesis by (auto simp: located_def split: if_splits)
qed (auto simp: located_def dest: occurs_length split: if_splits)

text \<open>Where the first item with a property sits; the first empty byte string.\<close>

definition first_such :: "(item \<Rightarrow> bool) \<Rightarrow> place list \<Rightarrow> nat option" where
  "first_such P ps = map_option fst (find (\<lambda>p. P (snd p)) ps)"

definition is_empty_bytes :: "item \<Rightarrow> bool" where
  "is_empty_bytes x \<longleftrightarrow> payload_len x = Some 0"

abbreviation first_empty :: "place list \<Rightarrow> nat option" where
  "first_empty \<equiv> first_such is_empty_bytes"

lemma empty_located:
  assumes "length bs \<le> usize_max" "located bs p"
  shows "empty_byte_string_at bs (fst p) = first_empty [p]"
proof (cases "payload_len (snd p)")
  case (Some n)
  have "of_nat n = (0 :: u64) \<longleftrightarrow> n = 0"
    using payload_len_bound [OF assms(2) Some] assms(1) by (intro u64_of_nat_eq_0 usize_max_less_u64) simp
  with Some byte_string_len_located [OF assms] show ?thesis
    by (simp add: empty_byte_string_at_def first_such_def is_empty_bytes_def)
qed (use byte_string_len_located [OF assms] in \<open>simp add: empty_byte_string_at_def first_such_def is_empty_bytes_def\<close>)

lemma skip_tags_located:
  assumes "length bs \<le> usize_max" "located bs p"
  shows "skip_tags k bs (fst p) = Some (fst (untag k p)) \<and> located bs (untag k p)"
  using assms(2)
proof (induction k arbitrary: p)
  case (Suc k)
  have wf: "well_formed (snd p)" using Suc.prems by (simp add: located_def)
  have header: "read_header bs (fst p) = Some (mk_header (of_nat (major_of (snd p)))
      (map_option of_nat (argument_of (snd p))) (header_len (snd p)))"
    using header_located [OF assms(1), of "fst p" "snd p"] Suc.prems by simp
  show ?case
  proof (cases "major_of (snd p) = 6 \<and> argument_of (snd p) = Some 258")
    case True
    then obtain w x where x: "snd p = Tagged w 258 x"
      using wf by (cases "snd p") auto
    have "located bs (fst p + Suc (width_bytes w), x)"
      using Suc.prems x by (simp add: located_def occurs_append)
    from Suc.IH [OF this] header Suc.prems x show ?thesis
      by (simp add: mk_header_def)
  next
    case False
    have "(of_nat n :: u64) = of_nat 258 \<longleftrightarrow> n = 258" if "argument_of (snd p) = Some n" for n
      using argument_fits [OF wf that] by (intro u64_of_nat_inj) simp_all
    with False have "\<not> (of_nat (major_of (snd p)) = (6 :: u8) \<and>
        map_option of_nat (argument_of (snd p)) = Some (258 :: u64))"
      using major_eq [OF wf, of 6] by auto
    then have "skip_tags (Suc k) bs (fst p) = Some (fst p)"
      using header Suc.prems by (auto simp: mk_header_def)
    moreover have "untag (Suc k) p = p"
      using False by (cases "snd p") auto
    ultimately show ?thesis using Suc.prems by simp
  qed
qed simp


subsection \<open>Where addresses sit\<close>

definition element :: "nat \<Rightarrow> place \<Rightarrow> place list" where
  "element k p =
     (if is_arr (snd p) then (case nth_opt (elements p) k of Some e \<Rightarrow> [e] | None \<Rightarrow> []) else [])"

definition all_elements :: "place \<Rightarrow> place list" where
  "all_elements p = (if is_arr (snd p) then elements p else [])"

definition keys :: "place \<Rightarrow> place list" where
  "keys p = (if is_assoc (snd p) then map fst (entries p) else [])"

definition values_of :: "nat \<Rightarrow> place \<Rightarrow> place list" where
  "values_of v p =
     (if is_assoc (snd p) then map snd (filter (\<lambda>(k, _). uint_item v (snd k)) (entries p)) else [])"

definition kind_is :: "nat \<Rightarrow> place \<Rightarrow> bool" where
  "kind_is v p = (case element 0 p of [k] \<Rightarrow> uint_item v (snd k) | _ \<Rightarrow> False)"

definition governance_addresses :: "place \<Rightarrow> place list" where
  "governance_addresses p = (if kind_is 2 p then concat (map keys (element 1 p)) else [])"

definition proposal_addresses :: "place \<Rightarrow> place list" where
  "proposal_addresses p = element 1 p @ concat (map governance_addresses (element 2 p))"

definition certificate_addresses :: "place \<Rightarrow> place list" where
  "certificate_addresses p = (if kind_is 3 p then element 6 p else [])"

definition output_addresses :: "place \<Rightarrow> place list" where
  "output_addresses p = element 0 p @ values_of 0 p"

definition tagged_elements :: "place \<Rightarrow> place list" where
  "tagged_elements p = all_elements (untag 2 p)"

definition entry_addresses :: "place \<times> place \<Rightarrow> place list" where
  "entry_addresses e =
     (let key = snd (fst e); value = snd e in
      if uint_item 1 key then concat (map output_addresses (all_elements value))
      else if uint_item 16 key then output_addresses value
      else if uint_item 5 key then keys value
      else if uint_item 4 key then concat (map certificate_addresses (tagged_elements value))
      else if uint_item 20 key then concat (map proposal_addresses (tagged_elements value))
      else [])"

definition body_addresses :: "place \<Rightarrow> place list" where
  "body_addresses p = (if is_assoc (snd p) then concat (map entry_addresses (entries p)) else [])"

definition block_addresses :: "place \<Rightarrow> place list" where
  "block_addresses p =
     concat (map (\<lambda>bodies. concat (map body_addresses (all_elements bodies))) (element 1 p))"

definition address_sites :: "csl_shape \<Rightarrow> place \<Rightarrow> place list" where
  "address_sites shape p =
     (case shape of
        Transaction \<Rightarrow> concat (map body_addresses (element 0 p))
      | Block \<Rightarrow> block_addresses p
      | VersionedBlock \<Rightarrow> concat (map block_addresses (element 1 p))
      | TransactionBody \<Rightarrow> body_addresses p
      | TransactionBodies \<Rightarrow> concat (map body_addresses (all_elements p))
      | TransactionOutput \<Rightarrow> output_addresses p
      | TransactionOutputs \<Rightarrow> concat (map output_addresses (all_elements p))
      | TransactionUnspentOutput \<Rightarrow> concat (map output_addresses (element 1 p))
      | Withdrawals \<Rightarrow> keys p
      | RewardAddresses \<Rightarrow> all_elements p
      | PoolParams \<Rightarrow> element 5 p
      | Certificate \<Rightarrow> certificate_addresses p
      | Certificates \<Rightarrow> concat (map certificate_addresses (tagged_elements p))
      | VotingProposal \<Rightarrow> proposal_addresses p
      | VotingProposals \<Rightarrow> concat (map proposal_addresses (tagged_elements p))
      | GovernanceAction \<Rightarrow> governance_addresses p
      | _ \<Rightarrow> [])"

subsection \<open>The scan answers the first empty one\<close>

lemma first_such_Nil [simp]: "first_such P [] = None"
  by (simp add: first_such_def)

lemma find_append: "find P (xs @ ys) = (case find P xs of Some x \<Rightarrow> Some x | None \<Rightarrow> find P ys)"
  by (induction xs) auto

lemma first_such_append:
  "first_such P (xs @ ys) = (case first_such P xs of Some o' \<Rightarrow> Some o' | None \<Rightarrow> first_such P ys)"
  by (simp add: first_such_def find_append split: option.split)

lemma find_map_sites:
  "(\<And>x. x \<in> set xs \<Longrightarrow> f (g x) = first_such P (sites x)) \<Longrightarrow>
     find_map f (map g xs) = first_such P (concat (map sites xs))"
  by (induction xs) (auto simp: first_such_append split: option.split)

lemma singletons: "concat (map (\<lambda>x. [x]) xs) = xs"
  by (induction xs) auto

locale buffer =
  fixes bs :: bytes
  assumes addressable: "length bs \<le> usize_max"
begin

lemma elements_array:
  "located bs p \<Longrightarrow> array_element_offsets bs (fst p) =
     (if is_arr (snd p) then Some (map fst (all_elements p)) else None)"
  by (simp add: offsets_located [OF addressable] all_elements_def)

lemma nth_element:
  "located bs p \<Longrightarrow> (array_element_offsets bs (fst p) \<bind> (\<lambda>es. nth_opt es k \<bind> f)) =
     (case element k p of [e] \<Rightarrow> f (fst e) | _ \<Rightarrow> None)"
  by (simp add: offsets_located [OF addressable] element_def nth_opt_def)

lemma element_nth:
  "element k p = (if is_arr (snd p) \<and> k < length (elements p) then [elements p ! k] else [])"
  by (simp add: element_def nth_opt_def)

lemma element_cases: "element k p = [] \<or> (\<exists>e. element k p = [e])"
  by (simp add: element_nth)

lemma element_located:
  assumes "located bs p" "e \<in> set (element k p)"
  shows "located bs e"
proof -
  from assms(2) have "k < length (elements p)" "e = elements p ! k"
    by (simp_all add: element_nth split: if_splits)
  then show ?thesis
    using elements_located [OF assms(1), of e] by simp
qed

lemma all_elements_located: "located bs p \<Longrightarrow> e \<in> set (all_elements p) \<Longrightarrow> located bs e"
  using elements_located [of bs p] by (auto simp: all_elements_def split: if_splits)

lemma each_element:
  assumes "located bs p" "\<And>e. located bs e \<Longrightarrow> f (fst e) = first_such P (sites e)"
  shows "(array_element_offsets bs (fst p) \<bind> find_map f) =
    first_such P (concat (map sites (all_elements p)))"
proof (cases "is_arr (snd p)")
  case True
  have "find_map f (map fst (all_elements p)) = first_such P (concat (map sites (all_elements p)))"
    using assms all_elements_located by (intro find_map_sites) blast
  with True assms(1) show ?thesis by (simp add: elements_array)
next
  case False
  with assms(1) show ?thesis by (simp add: elements_array all_elements_def)
qed

lemma one_element:
  assumes "located bs p" "\<And>e. located bs e \<Longrightarrow> f (fst e) = first_such P (sites e)"
  shows "(array_element_offsets bs (fst p) \<bind> (\<lambda>es. nth_opt es k \<bind> f)) =
    first_such P (concat (map sites (element k p)))"
  using element_cases [of k p] element_located [OF assms(1), of _ k] assms
  by (auto simp: nth_element)

lemma each_tagged:
  assumes "located bs p" "\<And>e. located bs e \<Longrightarrow> f (fst e) = first_such P (sites e)"
  shows "(skip_set_tags bs (fst p) \<bind> (\<lambda>list. array_element_offsets bs list \<bind> find_map f)) =
    first_such P (concat (map sites (tagged_elements p)))"
proof -
  have "located bs (untag 2 p)" "skip_tags 2 bs (fst p) = Some (fst (untag 2 p))"
    using skip_tags_located [OF addressable assms(1), of 2] by simp_all
  moreover from each_element [OF this(1), where f = f and sites = sites] assms(2)
  have "(array_element_offsets bs (fst (untag 2 p)) \<bind> find_map f) =
      first_such P (concat (map sites (all_elements (untag 2 p))))"
    by blast
  ultimately show ?thesis
    by (simp add: skip_set_tags_def tagged_elements_def)
qed

lemma map_keys_sites:
  assumes "located bs p"
  shows "map_keys_address_hazard_at bs (fst p) = first_empty (keys p)"
proof (cases "is_assoc (snd p)")
  case True
  have "find_map (\<lambda>(key, _). empty_byte_string_at bs key) (map (map_prod fst fst) (entries p)) =
      first_empty (concat (map (\<lambda>e. [fst e]) (entries p)))"
    using entries_located [OF assms] empty_located [OF addressable]
    by (intro find_map_sites) (auto simp: split_def)
  moreover have "concat (map (\<lambda>e. [fst e]) es) = map fst es" for es :: "(place \<times> place) list"
    by (induction es) simp_all
  ultimately show ?thesis
    using True by (simp add: map_keys_address_hazard_at_def entry_offsets_located [OF addressable assms] keys_def)
qed (simp add: map_keys_address_hazard_at_def entry_offsets_located [OF addressable assms] keys_def)

lemma kind_element:
  assumes "located bs p" "v < 2 ^ 64"
  shows "(array_element_offsets bs (fst p) \<bind> (\<lambda>es. nth_opt es 0 \<bind>
      (\<lambda>kind. if \<not> is_uint bs kind (of_nat v) then None else nth_opt es k \<bind> f))) =
    (if kind_is v p then (case element k p of [e] \<Rightarrow> f (fst e) | _ \<Rightarrow> None) else None)"
proof (cases "is_arr (snd p) \<and> elements p \<noteq> []")
  case True
  then have "element 0 p = [elements p ! 0]"
    by (simp add: element_nth)
  moreover from this have "located bs (elements p ! 0)"
    using element_located [OF assms(1), of _ 0] by simp
  ultimately show ?thesis
    using True is_uint_located [OF addressable _ assms(2)]
    by (simp add: offsets_located [OF addressable assms(1)] kind_is_def element_nth nth_opt_def)
next
  case False
  then show ?thesis
    by (auto simp: offsets_located [OF addressable assms(1)] kind_is_def element_nth nth_opt_def)
qed

lemma governance_sites:
  assumes "located bs p"
  shows "governance_action_address_hazard_at bs (fst p) = first_empty (governance_addresses p)"
  using kind_element [OF assms, of 2 1 "map_keys_address_hazard_at bs"] element_cases [of 1 p]
    element_located [OF assms, of _ 1] map_keys_sites
  by (auto simp: governance_action_address_hazard_at_def governance_addresses_def)

lemma certificate_sites:
  assumes "located bs p"
  shows "certificate_address_hazard_at bs (fst p) = first_empty (certificate_addresses p)"
  using kind_element [OF assms, of 3 6 "empty_byte_string_at bs"] element_cases [of 6 p]
    element_located [OF assms, of _ 6] empty_located [OF addressable]
  by (auto simp: certificate_address_hazard_at_def certificate_addresses_def)

lemma proposal_sites:
  assumes "located bs p"
  shows "proposal_address_hazard_at bs (fst p) = first_empty (proposal_addresses p)"
proof (cases "is_arr (snd p)")
  case True
  have nth: "(nth_opt (map fst (elements p)) k \<bind> f) = first_empty (concat (map sites (element k p)))"
    if "\<And>e. located bs e \<Longrightarrow> f (fst e) = first_empty (sites e)" for k f sites
    using that element_located [OF assms, of "elements p ! k" k] True
    by (simp add: element_nth nth_opt_def)
  have 1: "(nth_opt (map fst (elements p)) 1 \<bind> empty_byte_string_at bs) = first_empty (element 1 p)"
    using nth [of "empty_byte_string_at bs" "\<lambda>e. [e]" 1] empty_located [OF addressable]
    by (simp add: singletons)
  have 2: "(nth_opt (map fst (elements p)) 2 \<bind> governance_action_address_hazard_at bs) =
      first_empty (concat (map governance_addresses (element 2 p)))"
    by (intro nth governance_sites)
  show ?thesis
    using True 1 2
    by (simp add: proposal_address_hazard_at_def offsets_located [OF addressable assms]
        proposal_addresses_def first_such_append split: option.split)
next
  case False
  then show ?thesis
    by (simp add: proposal_address_hazard_at_def offsets_located [OF addressable assms]
        proposal_addresses_def element_def)
qed

lemma output_sites:
  assumes "located bs p"
  shows "output_address_hazard_at bs (fst p) = first_empty (output_addresses p)"
proof -
  have wf: "well_formed (snd p)" using assms by (simp add: located_def)
  note header = header_located [OF addressable, of "fst p" "snd p"]
  have major: "(of_nat (major_of (snd p)) :: u8) = 4 \<longleftrightarrow> is_arr (snd p)"
      "(of_nat (major_of (snd p)) :: u8) = 5 \<longleftrightarrow> is_assoc (snd p)"
    using major_eq [OF wf, of 4] major_eq [OF wf, of 5] wf by (cases "snd p"; auto)+
  show ?thesis
  proof (cases "is_arr (snd p)")
    case True
    have "\<not> is_assoc (snd p)" using True by (cases "snd p") auto
    with True header major assms
      one_element [OF assms, where P = is_empty_bytes and f = "empty_byte_string_at bs" and sites = "\<lambda>e. [e]" and k = 0] empty_located [OF addressable]
    show ?thesis
      by (simp add: output_address_hazard_at_def mk_header_def output_addresses_def values_of_def
          singletons)
  next
    case arr: False
    show ?thesis
    proof (cases "is_assoc (snd p)")
      case True
      let ?es = "filter (\<lambda>(k, _). uint_item 0 (snd k)) (entries p)"
      have keys: "filter (\<lambda>(key, _). is_uint bs key 0) (map (map_prod fst fst) (entries p)) =
          map (map_prod fst fst) ?es"
      proof -
        have "is_uint bs (fst (fst e)) 0 = uint_item 0 (snd (fst e))" if "e \<in> set (entries p)" for e
          using entries_located [OF assms, of "fst e" "snd e"] is_uint_located [OF addressable, of "fst e" 0]
            that by simp
        then have "filter (\<lambda>e. is_uint bs (fst (fst e)) 0) (entries p) = ?es"
          by (intro filter_cong) (simp_all add: split_def)
        then show ?thesis
          by (simp add: filter_map comp_def split_def)
      qed
      have "find_map (\<lambda>(_, value). empty_byte_string_at bs value) (map (map_prod fst fst) ?es) =
          first_empty (concat (map (\<lambda>e. [snd e]) ?es))"
        using entries_located [OF assms] empty_located [OF addressable]
        by (intro find_map_sites) (auto simp: split_def)
      moreover have "concat (map (\<lambda>e. [snd e]) es) = map snd es" for es :: "(place \<times> place) list"
        by (induction es) simp_all
      ultimately show ?thesis
        using True arr header major assms keys
        by (simp add: output_address_hazard_at_def mk_header_def output_addresses_def values_of_def
            element_def entry_offsets_located [OF addressable assms])
    next
      case False
      with arr header major assms show ?thesis
        by (simp add: output_address_hazard_at_def mk_header_def output_addresses_def values_of_def
            element_def)
    qed
  qed
qed

lemma entry_sites:
  assumes "located bs k" "located bs v"
  shows "(read_header bs (fst k) \<bind> (\<lambda>h. if hd_major h \<noteq> 0 then None
      else body_route bs (hd_argument h) (fst v))) = first_empty (entry_addresses (k, v))"
    and "read_header bs (fst k) \<noteq> None"
proof -
  have wf: "well_formed (snd k)" using assms by (simp add: located_def)
  have header: "read_header bs (fst k) = Some (mk_header (of_nat (major_of (snd k)))
      (map_option of_nat (argument_of (snd k))) (header_len (snd k)))"
    using header_located [OF addressable, of "fst k" "snd k"] assms(1) by simp
  then show "read_header bs (fst k) \<noteq> None" by simp
  have uint: "(of_nat (major_of (snd k)) = (0 :: u8) \<and>
      map_option of_nat (argument_of (snd k)) = Some (of_nat n :: u64)) = uint_item n (snd k)"
    if "n < 2 ^ 64" for n
    using is_uint_located [OF addressable assms(1) that] header by (simp add: is_uint_def mk_header_def)
  note uints = uint [of 1, simplified] uint [of 16, simplified] uint [of 5, simplified]
    uint [of 4, simplified] uint [of 20, simplified]
  have outputs: "outputs_address_hazard_at bs (fst v) =
      first_empty (concat (map output_addresses (all_elements v)))"
    unfolding outputs_address_hazard_at_def by (intro each_element assms(2) output_sites)
  have certificates: "certificates_address_hazard_at bs (fst v) =
      first_empty (concat (map certificate_addresses (tagged_elements v)))"
    unfolding certificates_address_hazard_at_def by (intro each_tagged assms(2) certificate_sites)
  have proposals: "proposals_address_hazard_at bs (fst v) =
      first_empty (concat (map proposal_addresses (tagged_elements v)))"
    unfolding proposals_address_hazard_at_def by (intro each_tagged assms(2) proposal_sites)
  show "(read_header bs (fst k) \<bind> (\<lambda>h. if hd_major h \<noteq> 0 then None
      else body_route bs (hd_argument h) (fst v))) = first_empty (entry_addresses (k, v))"
  proof (cases "of_nat (major_of (snd k)) = (0 :: u8)")
    case True
    with uints show ?thesis
      by (simp add: header mk_header_def body_route_def entry_addresses_def outputs certificates
          proposals output_sites [OF assms(2)] map_keys_sites [OF assms(2)])
  next
    case False
    with uints show ?thesis
      by (simp add: header mk_header_def entry_addresses_def)
  qed
qed

lemma body_entries_sites:
  "\<forall>e \<in> set es. located bs (fst e) \<and> located bs (snd e) \<Longrightarrow>
     body_entries_hazard bs (map (map_prod fst fst) es) =
     first_empty (concat (map entry_addresses es))"
proof (induction es)
  case (Cons e es)
  obtain k v where e: "e = (k, v)" by (cases e)
  with Cons.prems have loc: "located bs k" "located bs v" by simp_all
  from entry_sites(2) [OF loc] obtain h where "read_header bs (fst k) = Some h" by blast
  with entry_sites(1) [OF loc] Cons e show ?case
    by (auto simp: first_such_append split: if_splits option.split)
qed simp

lemma body_sites:
  assumes "located bs p"
  shows "body_address_hazard_at bs (fst p) = first_empty (body_addresses p)"
  using body_entries_sites [of "entries p"] entries_located [OF assms, of "fst e" "snd e" for e]
  by (simp add: body_address_hazard_at_def entry_offsets_located [OF addressable assms]
      body_addresses_def)

lemma block_sites:
  assumes "located bs p"
  shows "block_address_hazard_at bs (fst p) = first_empty (block_addresses p)"
proof -
  let ?bodies = "\<lambda>at. array_element_offsets bs at \<bind> find_map (body_address_hazard_at bs)"
  have "(array_element_offsets bs (fst p) \<bind> (\<lambda>es. nth_opt es 1 \<bind> ?bodies)) =
      first_empty (concat (map (\<lambda>e. concat (map body_addresses (all_elements e))) (element 1 p)))"
    by (intro one_element [OF assms] each_element body_sites)
  then show ?thesis
    by (simp add: block_address_hazard_at_def block_addresses_def)
qed

lemma address_hazard_sites:
  assumes "located bs p" "fst p = 0"
  shows "address_hazard bs shape = first_empty (address_sites shape p)"
proof -
  note p = assms(1)
  have one: "(array_element_offsets bs 0 \<bind> (\<lambda>es. nth_opt es k \<bind> f)) =
      first_empty (concat (map sites (element k p)))"
    if "\<And>e. located bs e \<Longrightarrow> f (fst e) = first_empty (sites e)" for f sites k
    using one_element [OF p, where P = is_empty_bytes and f = f and sites = sites and k = k] that assms(2) by simp
  have each: "(array_element_offsets bs 0 \<bind> find_map f) =
      first_empty (concat (map sites (all_elements p)))"
    if "\<And>e. located bs e \<Longrightarrow> f (fst e) = first_empty (sites e)" for f sites
    using each_element [OF p, where P = is_empty_bytes and f = f and sites = sites] that assms(2) by simp
  have tagged: "(skip_set_tags bs 0 \<bind> (\<lambda>list. array_element_offsets bs list \<bind> find_map f)) =
      first_empty (concat (map sites (tagged_elements p)))"
    if "\<And>e. located bs e \<Longrightarrow> f (fst e) = first_empty (sites e)" for f sites
    using each_tagged [OF p, where P = is_empty_bytes and f = f and sites = sites] that assms(2) by simp
  have single: "(\<And>e. located bs e \<Longrightarrow> empty_byte_string_at bs (fst e) = first_empty [e])"
    by (rule empty_located [OF addressable])
  show ?thesis
  proof (cases shape)
    case Transaction
    then show ?thesis
      using one [of "body_address_hazard_at bs" body_addresses 0] body_sites
      by (simp add: address_hazard_def address_sites_def)
  next
    case Block
    then show ?thesis
      using block_sites [OF p] by (simp add: address_hazard_def address_sites_def assms(2))
  next
    case VersionedBlock
    then show ?thesis
      using one [of "block_address_hazard_at bs" block_addresses 1] block_sites
      by (simp add: address_hazard_def address_sites_def)
  next
    case TransactionBodies
    then show ?thesis
      using each [of "body_address_hazard_at bs" body_addresses] body_sites
      by (simp add: address_hazard_def address_sites_def)
  next
    case TransactionOutputs
    then show ?thesis
      using each [of "output_address_hazard_at bs" output_addresses] output_sites
      by (simp add: address_hazard_def address_sites_def outputs_address_hazard_at_def)
  next
    case TransactionUnspentOutput
    then show ?thesis
      using one [of "output_address_hazard_at bs" output_addresses 1] output_sites
      by (simp add: address_hazard_def address_sites_def)
  next
    case RewardAddresses
    then show ?thesis
      using each [of "empty_byte_string_at bs" "\<lambda>e. [e]"] single
      by (simp add: address_hazard_def address_sites_def singletons)
  next
    case PoolParams
    then show ?thesis
      using one [of "empty_byte_string_at bs" "\<lambda>e. [e]" 5] single
      by (simp add: address_hazard_def address_sites_def singletons)
  next
    case Certificates
    then show ?thesis
      using tagged [of "certificate_address_hazard_at bs" certificate_addresses] certificate_sites
      by (simp add: address_hazard_def address_sites_def certificates_address_hazard_at_def)
  next
    case VotingProposals
    then show ?thesis
      using tagged [of "proposal_address_hazard_at bs" proposal_addresses] proposal_sites
      by (simp add: address_hazard_def address_sites_def proposals_address_hazard_at_def)
  qed (use body_sites [OF p] output_sites [OF p] map_keys_sites [OF p] certificate_sites [OF p]
      proposal_sites [OF p] governance_sites [OF p]
      in \<open>simp_all add: address_hazard_def address_sites_def assms(2)\<close>)
qed

end

text \<open>Every buffer that fits the address space is its own first \<open>usize_max\<close> bytes.\<close>

interpretation addressed: buffer "take usize_max bs" for bs
  by unfold_locales simp

lemma address_hazard_encode:
  assumes "well_formed x" "length (encode x) \<le> usize_max"
  shows "address_hazard (encode x) shape = first_empty (address_sites shape (0, x))"
  using addressed.address_hazard_sites [of "encode x" "(0, x)" shape] located_whole [OF assms(1)]
    assms(2)
  by simp

subsection \<open>Simple values in witness lists\<close>

definition witness_values :: "place \<Rightarrow> place list" where
  "witness_values p =
     (if is_assoc (snd p)
      then concat (map (\<lambda>(k, v). if uint_item 0 (snd k) \<or> uint_item 2 (snd k)
                                 then tagged_elements v else []) (entries p))
      else [])"

definition witness_sites :: "csl_shape \<Rightarrow> place \<Rightarrow> place list" where
  "witness_sites shape p =
     (case shape of
        WitnessList \<Rightarrow> tagged_elements p
      | WitnessSet \<Rightarrow> witness_values p
      | WitnessSets \<Rightarrow> concat (map witness_values (all_elements p))
      | Transaction \<Rightarrow> concat (map witness_values (element 1 p))
      | Block \<Rightarrow> concat (map (\<lambda>sets. concat (map witness_values (all_elements sets))) (element 2 p))
      | VersionedBlock \<Rightarrow>
          concat (map (\<lambda>block. concat (map (\<lambda>sets. concat (map witness_values (all_elements sets)))
            (element 2 block))) (element 1 p))
      | _ \<Rightarrow> [])"


context buffer
begin

lemma witness_list_sites:
  assumes "located bs p"
  shows "witness_list_hazard_at bs (fst p) = first_such (\<lambda>x. major_of x = 7) (tagged_elements p)"
proof -
  have list: "located bs (untag 2 p)" "skip_tags 2 bs (fst p) = Some (fst (untag 2 p))"
    using skip_tags_located [OF addressable assms, of 2] by simp_all
  have major: "(case read_header bs (fst e) of Some h \<Rightarrow> hd_major h = 7 | None \<Rightarrow> False) =
      (major_of (snd e) = 7)" if "e \<in> set (all_elements (untag 2 p))" for e
  proof -
    have e: "located bs e" using all_elements_located [OF list(1) that] .
    then have "well_formed (snd e)" by (simp add: located_def)
    from major_eq [OF this, of 7] header_located [OF addressable, of "fst e" "snd e"] e
    show ?thesis by (simp add: mk_header_def)
  qed
  have find: "find (\<lambda>item. case read_header bs item of Some h \<Rightarrow> hd_major h = 7 | None \<Rightarrow> False)
      (map fst es) = first_such (\<lambda>x. major_of x = 7) es"
    if "\<forall>e \<in> set es. (case read_header bs (fst e) of Some h \<Rightarrow> hd_major h = 7 | None \<Rightarrow> False) =
        (major_of (snd e) = 7)" for es
    using that by (induction es) (auto simp: first_such_def)
  show ?thesis
  proof (cases "is_arr (snd (untag 2 p))")
    case True
    with find [of "all_elements (untag 2 p)"] major list show ?thesis
      by (simp add: witness_list_hazard_at_def skip_set_tags_def elements_array tagged_elements_def)
  next
    case False
    with list show ?thesis
      by (simp add: witness_list_hazard_at_def skip_set_tags_def elements_array tagged_elements_def
          all_elements_def)
  qed
qed

lemma witness_entries_sites:
  assumes "\<forall>e \<in> set es. located bs (fst e) \<and> located bs (snd e)"
  shows "witness_entries_hazard bs (map (map_prod fst fst) es) =
    first_such (\<lambda>x. major_of x = 7)
      (concat (map (\<lambda>(k, v). if uint_item 0 (snd k) \<or> uint_item 2 (snd k)
                            then tagged_elements v else []) es))"
  using assms
proof (induction es)
  case (Cons e es)
  obtain k v where e: "e = (k, v)" by (cases e)
  with Cons.prems have loc: "located bs k" "located bs v" by simp_all
  have header: "read_header bs (fst k) = Some (mk_header (of_nat (major_of (snd k)))
      (map_option of_nat (argument_of (snd k))) (header_len (snd k)))"
    using header_located [OF addressable, of "fst k" "snd k"] loc(1) by simp
  have uint: "(of_nat (major_of (snd k)) = (0 :: u8) \<and>
      map_option of_nat (argument_of (snd k)) = Some (of_nat n :: u64)) = uint_item n (snd k)"
    if "n < 2 ^ 64" for n
    using is_uint_located [OF addressable loc(1) that] header by (simp add: is_uint_def mk_header_def)
  have either: "(of_nat (major_of (snd k)) = (0 :: u8) \<and>
      (map_option of_nat (argument_of (snd k)) = Some (0 :: u64) \<or>
       map_option of_nat (argument_of (snd k)) = Some (2 :: u64))) =
      (uint_item 0 (snd k) \<or> uint_item 2 (snd k))"
    using uint [of 0] uint [of 2] by auto
  have "witness_entries_hazard bs (map (map_prod fst fst) es) =
    first_such (\<lambda>x. major_of x = 7)
      (concat (map (\<lambda>(k, v). if uint_item 0 (snd k) \<or> uint_item 2 (snd k)
                            then tagged_elements v else []) es))"
    using Cons by simp
  then show ?case
    unfolding e
    by (simp add: header mk_header_def either witness_list_sites [OF loc(2)] first_such_append
        split: option.split del: map_option_eq_Some)
qed simp

lemma witness_set_sites:
  assumes "located bs p"
  shows "witness_set_hazard_at bs (fst p) = first_such (\<lambda>x. major_of x = 7) (witness_values p)"
  using witness_entries_sites [of "entries p"] entries_located [OF assms, of "fst e" "snd e" for e]
  by (simp add: witness_set_hazard_at_def entry_offsets_located [OF addressable assms]
      witness_values_def)

lemma witness_sets_sites:
  assumes "located bs p"
  shows "witness_sets_hazard_at bs (fst p) =
    first_such (\<lambda>x. major_of x = 7) (concat (map witness_values (all_elements p)))"
  unfolding witness_sets_hazard_at_def by (intro each_element assms witness_set_sites)

lemma block_witness_sites:
  assumes "located bs p"
  shows "block_hazard_at bs (fst p) = first_such (\<lambda>x. major_of x = 7)
    (concat (map (\<lambda>sets. concat (map witness_values (all_elements sets))) (element 2 p)))"
  unfolding block_hazard_at_def by (intro one_element assms witness_sets_sites)

lemma witness_hazard_sites:
  assumes "located bs p" "fst p = 0"
  shows "witness_list_hazard bs shape = first_such (\<lambda>x. major_of x = 7) (witness_sites shape p)"
proof (cases shape)
  case Transaction
  then show ?thesis
    using one_element [OF assms(1), where f = "witness_set_hazard_at bs" and P = "\<lambda>x. major_of x = 7"
        and sites = witness_values and k = 1] witness_set_sites
    by (simp add: witness_list_hazard_def witness_sites_def transaction_hazard_at_def assms(2))
next
  case VersionedBlock
  then show ?thesis
    using one_element [OF assms(1), where f = "block_hazard_at bs" and P = "\<lambda>x. major_of x = 7"
        and sites = "\<lambda>p. concat (map (\<lambda>sets. concat (map witness_values (all_elements sets))) (element 2 p))" and k = 1]
      block_witness_sites
    by (simp add: witness_list_hazard_def witness_sites_def assms(2))
qed (use witness_list_sites [OF assms(1)] witness_set_sites [OF assms(1)]
    witness_sets_sites [OF assms(1)] block_witness_sites [OF assms(1)]
    in \<open>simp_all add: witness_list_hazard_def witness_sites_def first_such_def assms(2)\<close>)

end

lemma witness_hazard_encode:
  assumes "well_formed x" "length (encode x) \<le> usize_max"
  shows "witness_list_hazard (encode x) shape =
    first_such (\<lambda>x. major_of x = 7) (witness_sites shape (0, x))"
  using addressed.witness_hazard_sites [of "encode x" "(0, x)" shape] located_whole [OF assms(1)]
    assms(2)
  by simp

end
