(* ===== verification/Preflight_Facts.thy ===== *)
theory Preflight_Facts
  imports Preflight_Routes
begin

text \<open>
  What the preflight checks guarantee as a whole: the table of hazards by shape, the order and
  meaning of the refusals, and the ledger's transaction size on encoded transactions.
\<close>

subsection \<open>The table of hazards\<close>

lemma shape_in_all: "s \<in> set all_shapes"
  by (cases s) (simp_all add: all_shapes_def)

lemma shape_index_nth: "shape_index s < length all_shapes \<and> all_shapes ! shape_index s = s"
  by (cases s) (simp_all add: shape_index_def all_shapes_def)

lemma shape_table:
  "foldl (\<lambda>h s. h[shape_index s := f s]) (replicate (length all_shapes) False) all_shapes =
     map f all_shapes"
  by (simp add: all_shapes_def shape_index_def)

lemma shape_hazards_correct:
  "shape_hazardous (shape_hazards_scan bs) shape = (shape_hazard bs shape \<noteq> None)"
  using shape_index_nth [of shape]
  by (simp add: shape_hazardous_def shape_hazards_scan_def shape_table)

subsection \<open>The checks\<close>

lemma nesting_verdict_None:
  "nesting_verdict d bs shape reader = None \<longleftrightarrow>
     (let whole = cbor_nesting_depth_through_embedded_capped bs MAX_CBOR_NESTING_DEPTH
      in whole \<le> reader_bound reader \<or>
         whole \<le> MAX_CBOR_NESTING_DEPTH \<and>
         nesting_outside_native_scripts d bs shape (reader_bound reader) \<le> reader_bound reader)"
  by (auto simp: nesting_verdict_def Let_def)

lemma check_cbor_within_ok:
  "check_cbor_within d verdict bs shape reader = Inr () \<longleftrightarrow>
     bs \<noteq> [] \<and> verdict bs = None \<and> nesting_verdict d bs shape reader = None \<and>
     shape_hazard bs shape = None"
  by (auto simp: check_cbor_within_def split: option.split)

lemma shape_hazard_encode:
  assumes "well_formed x" "length (encode x) \<le> usize_max"
  shows "shape_hazard (encode x) shape = None \<longleftrightarrow>
    (\<forall>p \<in> set (witness_sites shape (0, x)). major_of (snd p) \<noteq> 7) \<and>
    (\<forall>p \<in> set (address_sites shape (0, x)). payload_len (snd p) \<noteq> Some 0)"
proof -
  have first: "first_such P ps = None \<longleftrightarrow> (\<forall>p \<in> set ps. \<not> P (snd p))" for P ps
    by (auto simp: first_such_def find_None_iff)
  have "shape_hazard (encode x) shape = None \<longleftrightarrow>
      witness_list_hazard (encode x) shape = None \<and> address_hazard (encode x) shape = None"
    by (simp add: shape_hazard_def split: option.split)
  then show ?thesis
    by (simp add: witness_hazard_encode [OF assms] address_hazard_encode [OF assms] first
        is_empty_bytes_def)
qed

text \<open>The bytes a check refuses are named by the first reason that applies.\<close>

lemma check_cbor_within_error:
  "check_cbor_within d verdict bs shape reader = Inl e \<longleftrightarrow>
     bs = [] \<and> e = Empty \<or>
     bs \<noteq> [] \<and> (\<exists>error. verdict bs = Some error \<and> e = preflight_of_decode_error error) \<or>
     bs \<noteq> [] \<and> verdict bs = None \<and> nesting_verdict d bs shape reader = Some e \<or>
     bs \<noteq> [] \<and> verdict bs = None \<and> nesting_verdict d bs shape reader = None \<and>
       shape_hazard bs shape = Some e"
  by (auto simp: check_cbor_within_def split: option.split)

subsection \<open>The transaction's size\<close>

lemma item_lengths_located:
  assumes "length bs \<le> usize_max" "\<forall>p \<in> set ps. located bs p"
  shows "item_lengths bs (map fst ps) = Some (map (\<lambda>p. length (encode (snd p))) ps)"
  using assms(2)
proof (induction ps)
  case (Cons p ps)
  then have "skip_item bs (fst p) = Some (fst p + length (encode (snd p)))"
    by (intro skip_located assms(1)) simp
  with Cons show ?case by simp
qed simp

lemma ledger_tx_size_encode:
  assumes "well_formed x" "length (encode x) \<le> usize_max"
  shows "ledger_tx_size (encode x) =
    (if is_arr x then
       (case map (\<lambda>y. length (encode y)) (contents x) of
          [body, witnesses, is_valid, auxiliary] \<Rightarrow> Some (1 + (body + witnesses + auxiliary))
        | [body, witnesses, auxiliary] \<Rightarrow> Some (1 + (body + witnesses + auxiliary))
        | _ \<Rightarrow> None)
     else None)"
proof (cases "is_arr x")
  case True
  have loc: "located (encode x) (0, x)" by (rule located_whole [OF assms(1)])
  have "item_lengths (encode x) (map fst (elements (0, x))) =
      Some (map (\<lambda>p. length (encode (snd p))) (elements (0, x)))"
    using elements_located [OF loc] by (intro item_lengths_located assms(2)) blast
  moreover have "map (\<lambda>p. length (encode (snd p))) (elements (0, x)) =
      map (\<lambda>y. length (encode y)) (contents x)"
    using arg_cong [OF map_snd_elements [of "(0, x)"], of "map (\<lambda>y. length (encode y))"]
    by (simp add: comp_def)
  ultimately show ?thesis
    using True offsets_located [OF assms(2) loc]
    by (simp add: ledger_tx_size_def split: list.split)
next
  case False
  with offsets_located [OF assms(2) located_whole [OF assms(1)]] show ?thesis
    by (simp add: ledger_tx_size_def)
qed

end
