(* ===== verification/Asset_Store.thy ===== *)
theory Asset_Store
  imports Prelude
begin

text \<open>
  The multi-assets and values of \<^verbatim>\<open>src/src/validators/value.rs\<close>.

  A quantity is an \<open>i128\<close>, kept as a \<open>128 word\<close> whose arithmetic wraps and whose sign is read
  by \<open>sint\<close>. A multi-asset is the vector of its assets in order. The contract of such a store
  (what a lookup answers after an addition) is a locale, kept by the vector; sums and
  differences are computed once from the contract.
\<close>

type_synonym i128 = "128 word"

record validator_asset =
  va_unit :: string
  va_quantity :: i128

type_synonym multi_asset = "validator_asset list"

subsection \<open>The vector\<close>

fun bump :: "multi_asset \<Rightarrow> string \<Rightarrow> i128 \<Rightarrow> multi_asset option" where
  "bump [] name q = None"
| "bump (a # assets) name q =
     (if va_unit a = name then Some (a\<lparr>va_quantity := va_quantity a + q\<rparr> # assets)
      else map_option ((#) a) (bump assets name q))"

definition add_asset :: "multi_asset \<Rightarrow> string \<Rightarrow> i128 \<Rightarrow> multi_asset" where
  "add_asset assets name q =
     (let assets =
        (case bump assets name q of
           Some assets \<Rightarrow> assets
         | None \<Rightarrow>
             if q \<noteq> 0 then assets @ [\<lparr>va_unit = name, va_quantity = q\<rparr>] else assets)
      in filter (\<lambda>a. va_quantity a \<noteq> 0) assets)"

definition set_asset :: "multi_asset \<Rightarrow> string \<Rightarrow> i128 \<Rightarrow> multi_asset" where
  "set_asset assets name q = add_asset (filter (\<lambda>a. va_unit a \<noteq> name) assets) name q"

definition multi_add :: "multi_asset \<Rightarrow> multi_asset \<Rightarrow> multi_asset" where
  "multi_add assets other =
     foldl (\<lambda>assets a. add_asset assets (va_unit a) (va_quantity a)) assets other"

definition multi_subtract :: "multi_asset \<Rightarrow> multi_asset \<Rightarrow> multi_asset" where
  "multi_subtract assets other =
     foldl (\<lambda>assets a. add_asset assets (va_unit a) (- va_quantity a)) assets other"

text \<open>\<open>PartialEq\<close>: as many assets, each of them in the other.\<close>

definition multi_eq :: "multi_asset \<Rightarrow> multi_asset \<Rightarrow> bool" where
  "multi_eq assets other =
     (length assets = length other \<and> list_all (\<lambda>a. a \<in> set other) assets)"

definition multi_is_positive :: "multi_asset \<Rightarrow> bool" where
  "multi_is_positive assets = list_all (\<lambda>a. 0 \<le> sint (va_quantity a)) assets"

subsection \<open>Values\<close>

record val =
  val_assets :: multi_asset
  val_coins :: i128

definition value_zero :: val where
  "value_zero = \<lparr>val_assets = [], val_coins = 0\<rparr>"

definition value_of_coins :: "i128 \<Rightarrow> val" where
  "value_of_coins coins = \<lparr>val_assets = [], val_coins = coins\<rparr>"

definition add_coins :: "val \<Rightarrow> i128 \<Rightarrow> val" where
  "add_coins v coins = v\<lparr>val_coins := val_coins v + coins\<rparr>"

definition value_add_asset :: "val \<Rightarrow> string \<Rightarrow> i128 \<Rightarrow> val" where
  "value_add_asset v name q = v\<lparr>val_assets := add_asset (val_assets v) name q\<rparr>"

definition value_set_asset :: "val \<Rightarrow> string \<Rightarrow> i128 \<Rightarrow> val" where
  "value_set_asset v name q = v\<lparr>val_assets := set_asset (val_assets v) name q\<rparr>"

definition value_add :: "val \<Rightarrow> val \<Rightarrow> val" where
  "value_add v other =
     \<lparr>val_assets = multi_add (val_assets v) (val_assets other),
      val_coins = val_coins v + val_coins other\<rparr>"

definition add_multiasset :: "val \<Rightarrow> multi_asset \<Rightarrow> val" where
  "add_multiasset v other = v\<lparr>val_assets := multi_add (val_assets v) other\<rparr>"

definition value_subtract :: "val \<Rightarrow> val \<Rightarrow> val" where
  "value_subtract v other =
     \<lparr>val_assets = multi_subtract (val_assets v) (val_assets other),
      val_coins = val_coins v - val_coins other\<rparr>"

definition subtract_multiasset :: "val \<Rightarrow> multi_asset \<Rightarrow> val" where
  "subtract_multiasset v other = v\<lparr>val_assets := multi_subtract (val_assets v) other\<rparr>"

definition value_eq :: "val \<Rightarrow> val \<Rightarrow> bool" where
  "value_eq v other =
     (multi_eq (val_assets v) (val_assets other) \<and> val_coins v = val_coins other)"

definition has_assets :: "val \<Rightarrow> bool" where
  "has_assets v = (val_assets v \<noteq> [])"

definition value_is_positive :: "val \<Rightarrow> bool" where
  "value_is_positive v = (0 \<le> sint (val_coins v) \<and> multi_is_positive (val_assets v))"

definition value_sum :: "val list \<Rightarrow> val" where
  "value_sum vs = foldl value_add value_zero vs"

subsection \<open>Parsing a quantity\<close>

text \<open>
  \<open>str::parse::<i128>()\<close> and the text of its error: an optional sign, then digits, each digit
  checked before the arithmetic that takes it in.
\<close>

definition i128_min :: int where "i128_min = - 170141183460469231731687303715884105728"
definition i128_max :: int where "i128_max = 170141183460469231731687303715884105727"

definition to_digit :: "char \<Rightarrow> int option" where
  "to_digit c =
     (let n = of_char c :: nat in if 48 \<le> n \<and> n \<le> 57 then Some (int n - 48) else None)"

fun parse_digits :: "bool \<Rightarrow> int \<Rightarrow> string \<Rightarrow> string + int" where
  "parse_digits negative acc [] = Inr acc"
| "parse_digits negative acc (c # cs) =
     (case to_digit c of
        None \<Rightarrow> Inl ''invalid digit found in string''
      | Some d \<Rightarrow>
          let overflow = (if negative then ''number too small to fit in target type''
                          else ''number too large to fit in target type'');
              acc' = (if negative then 10 * acc - d else 10 * acc + d)
          in if i128_min \<le> 10 * acc \<and> 10 * acc \<le> i128_max \<and> i128_min \<le> acc' \<and> acc' \<le> i128_max
             then parse_digits negative acc' cs
             else Inl overflow)"

fun parse_i128 :: "string \<Rightarrow> string + int" where
  "parse_i128 [] = Inl ''cannot parse integer from empty string''"
| "parse_i128 (c # cs) =
     (if c = CHR ''+'' \<and> cs \<noteq> [] then parse_digits False 0 cs
      else if c = CHR ''-'' \<and> cs \<noteq> [] then parse_digits True 0 cs
      else parse_digits False 0 (c # cs))"

text \<open>An asset as the caller gives it.\<close>

record asset =
  as_unit :: string
  as_quantity :: string

fun value_of_common_assets :: "val \<Rightarrow> asset list \<Rightarrow> string + val" where
  "value_of_common_assets v [] = Inr v"
| "value_of_common_assets v (a # assets) =
     (case parse_i128 (as_quantity a) of
        Inl e \<Rightarrow>
          Inl (''Invalid quantity '' @ [CHR 0x27] @ as_quantity a @ [CHR 0x27] @ '' for asset ''
               @ [CHR 0x27] @ as_unit a @ [CHR 0x27] @ '': '' @ e)
      | Inr q \<Rightarrow>
          value_of_common_assets
            (if as_unit a = ''lovelace'' \<or> as_unit a = []
             then add_coins v (of_int q)
             else value_add_asset v (as_unit a) (of_int q)) assets)"

definition new_from_common_assets :: "asset list \<Rightarrow> string + val" where
  "new_from_common_assets assets = value_of_common_assets value_zero assets"

subsection \<open>The contract of a store of quantities\<close>

locale asset_store =
  fixes add_one :: "'s \<Rightarrow> 'u \<Rightarrow> 'q :: ab_group_add \<Rightarrow> 's"
    and quantity :: "'s \<Rightarrow> 'u \<Rightarrow> 'q"
    and sound :: "'s \<Rightarrow> bool"
    and nothing :: "'s"
  assumes sound_nothing: "sound nothing"
    and quantity_nothing: "quantity nothing u = 0"
    and sound_add: "sound s \<Longrightarrow> sound (add_one s u q)"
    and quantity_add: "sound s \<Longrightarrow>
      quantity (add_one s u q) v = quantity s v + (if u = v then q else 0)"
begin

definition add_all :: "'s \<Rightarrow> ('u \<times> 'q) list \<Rightarrow> 's" where
  "add_all s us = foldl (\<lambda>s (u, q). add_one s u q) s us"

definition summed :: "('u \<times> 'q) list \<Rightarrow> 'u \<Rightarrow> 'q" where
  "summed us v = sum_list (map snd (filter (\<lambda>(u, q). u = v) us))"

lemma add_all_sound: "sound s \<Longrightarrow> sound (add_all s us)"
  unfolding add_all_def by (induction us arbitrary: s) (auto simp: sound_add)

lemma quantity_add_all:
  "sound s \<Longrightarrow> quantity (add_all s us) v = quantity s v + summed us v"
proof (induction us arbitrary: s)
  case (Cons p us)
  obtain u q where "p = (u, q)" by fastforce
  with Cons sound_add [OF Cons.prems, of u q] quantity_add [OF Cons.prems, of u q v] show ?case
    by (simp add: add_all_def summed_def add.assoc)
qed (simp add: add_all_def summed_def)

lemma add_all_negated:
  "sound s \<Longrightarrow> quantity (add_all (add_all s us) (map (\<lambda>(u, q). (u, - q)) us)) v = quantity s v"
proof -
  assume "sound s"
  have "summed (map (\<lambda>(u, q). (u, - q)) us) v = - summed us v"
    by (induction us) (auto simp: summed_def)
  then show ?thesis
    using \<open>sound s\<close> by (simp add: quantity_add_all add_all_sound)
qed

end

subsection \<open>The vector keeps the contract\<close>

definition quantity_of :: "multi_asset \<Rightarrow> string \<Rightarrow> i128" where
  "quantity_of assets name =
     (case find (\<lambda>a. va_unit a = name) assets of Some a \<Rightarrow> va_quantity a | None \<Rightarrow> 0)"

definition multi_sound :: "multi_asset \<Rightarrow> bool" where
  "multi_sound assets \<longleftrightarrow>
     distinct (map va_unit assets) \<and> (\<forall>a \<in> set assets. va_quantity a \<noteq> 0)"

lemma quantity_of_simps [simp]:
  "quantity_of [] name = 0"
  "quantity_of (a # assets) name =
     (if va_unit a = name then va_quantity a else quantity_of assets name)"
  by (simp_all add: quantity_of_def)

lemma quantity_of_notin: "name \<notin> va_unit ` set assets \<Longrightarrow> quantity_of assets name = 0"
  by (induction assets) auto

lemma quantity_of_append:
  "quantity_of (xs @ ys) name =
     (if name \<in> va_unit ` set xs then quantity_of xs name else quantity_of ys name)"
  by (induction xs) auto

lemma bump_None: "bump assets name q = None \<longleftrightarrow> name \<notin> va_unit ` set assets"
  by (induction assets) auto

lemma bump_Some:
  "bump assets name q = Some assets' \<Longrightarrow>
     map va_unit assets' = map va_unit assets \<and>
     (\<forall>v. quantity_of assets' v = quantity_of assets v + (if name = v then q else 0))"
  by (induction assets arbitrary: assets') (auto split: if_splits)

lemma quantity_filter:
  "distinct (map va_unit assets) \<Longrightarrow>
     quantity_of (filter (\<lambda>a. va_quantity a \<noteq> 0) assets) name = quantity_of assets name"
proof (induction assets)
  case (Cons a assets)
  then show ?case
    by (auto simp: quantity_of_notin image_iff)
qed simp

lemma add_asset_contract:
  assumes "multi_sound assets"
  shows "multi_sound (add_asset assets name q)"
    and "quantity_of (add_asset assets name q) v = quantity_of assets v + (if name = v then q else 0)"
proof -
  let ?pre = "case bump assets name q of Some assets \<Rightarrow> assets
    | None \<Rightarrow> if q \<noteq> 0 then assets @ [\<lparr>va_unit = name, va_quantity = q\<rparr>] else assets"
  have pre: "distinct (map va_unit ?pre) \<and>
      quantity_of ?pre v = quantity_of assets v + (if name = v then q else 0)"
  proof (cases "bump assets name q")
    case None
    then have "name \<notin> va_unit ` set assets" by (simp add: bump_None)
    with None assms show ?thesis
      by (auto simp: multi_sound_def quantity_of_append quantity_of_notin)
  next
    case (Some assets')
    from bump_Some [OF this] assms Some show ?thesis by (simp add: multi_sound_def)
  qed
  have "distinct (map va_unit (filter P xs))" if "distinct (map va_unit xs)" for P and xs :: multi_asset
    using that by (induction xs) auto
  with pre show "multi_sound (add_asset assets name q)"
    by (auto simp: multi_sound_def add_asset_def Let_def)
  show "quantity_of (add_asset assets name q) v = quantity_of assets v + (if name = v then q else 0)"
    using pre quantity_filter [of ?pre v] by (simp add: add_asset_def Let_def)
qed

interpretation multi: asset_store add_asset quantity_of multi_sound "[]"
  by unfold_locales (auto simp: add_asset_contract, simp add: multi_sound_def)

definition entries_of :: "multi_asset \<Rightarrow> (string \<times> i128) list" where
  "entries_of assets = map (\<lambda>a. (va_unit a, va_quantity a)) assets"

lemma multi_add_all: "multi_add assets other = multi.add_all assets (entries_of other)"
  by (simp add: multi_add_def multi.add_all_def entries_of_def foldl_map)

lemma multi_subtract_all:
  "multi_subtract assets other = multi.add_all assets (map (\<lambda>(u, q). (u, - q)) (entries_of other))"
  by (simp add: multi_subtract_def multi.add_all_def entries_of_def foldl_map)

lemma summed_entries: "multi_sound other \<Longrightarrow> multi.summed (entries_of other) v = quantity_of other v"
proof (induction other)
  case (Cons a other)
  have "multi_sound other" using Cons.prems by (simp add: multi_sound_def)
  moreover have "quantity_of other (va_unit a) = 0"
    using Cons.prems by (intro quantity_of_notin) (auto simp: multi_sound_def)
  ultimately show ?case
    using Cons.IH by (auto simp: multi.summed_def entries_of_def)
qed (simp add: multi.summed_def entries_of_def)

lemma summed_negated:
  "multi.summed (map (\<lambda>(u, q). (u, - q)) us) v = - multi.summed us v"
  by (induction us) (auto simp: multi.summed_def)

lemma multi_add_sound: "multi_sound a \<Longrightarrow> multi_sound (multi_add a b)"
  by (simp add: multi_add_all multi.add_all_sound)

lemma multi_subtract_sound: "multi_sound a \<Longrightarrow> multi_sound (multi_subtract a b)"
  by (simp add: multi_subtract_all multi.add_all_sound)

lemma quantity_multi_add:
  "multi_sound a \<Longrightarrow> multi_sound b \<Longrightarrow> quantity_of (multi_add a b) v = quantity_of a v + quantity_of b v"
  by (simp add: multi_add_all multi.quantity_add_all summed_entries)

lemma quantity_multi_subtract:
  "multi_sound a \<Longrightarrow> multi_sound b \<Longrightarrow>
     quantity_of (multi_subtract a b) v = quantity_of a v - quantity_of b v"
  by (simp add: multi_subtract_all multi.quantity_add_all summed_entries summed_negated)

lemma set_asset_contract:
  assumes "multi_sound assets"
  shows "multi_sound (set_asset assets name q)"
    and "quantity_of (set_asset assets name q) v = (if name = v then q else quantity_of assets v)"
proof -
  let ?rest = "filter (\<lambda>a. va_unit a \<noteq> name) assets"
  have "distinct (map va_unit ?rest)"
    using assms unfolding multi_sound_def by (induction assets) auto
  then have rest: "multi_sound ?rest"
    using assms by (simp add: multi_sound_def)
  have "quantity_of ?rest v = (if name = v then 0 else quantity_of assets v)"
    by (induction assets) auto
  with add_asset_contract [OF rest] show "multi_sound (set_asset assets name q)"
    "quantity_of (set_asset assets name q) v = (if name = v then q else quantity_of assets v)"
    by (simp_all add: set_asset_def)
qed

text \<open>Equality of multi-assets is equality of their quantities.\<close>

lemma quantity_of_in: "multi_sound assets \<Longrightarrow> a \<in> set assets \<Longrightarrow> quantity_of assets (va_unit a) = va_quantity a"
  by (induction assets) (auto simp: multi_sound_def image_iff)

lemma quantity_of_mem:
  "quantity_of assets name \<noteq> 0 \<Longrightarrow> \<lparr>va_unit = name, va_quantity = quantity_of assets name\<rparr> \<in> set assets"
  by (induction assets) (auto split: if_splits)

lemma multi_eq_quantities:
  assumes "multi_sound a" "multi_sound b"
  shows "multi_eq a b \<longleftrightarrow> (\<forall>v. quantity_of a v = quantity_of b v)"
proof
  assume eq: "multi_eq a b"
  have "distinct a" "distinct b"
    using assms by (simp_all add: multi_sound_def distinct_map)
  moreover have "set a \<subseteq> set b" "length a = length b"
    using eq by (auto simp: multi_eq_def list_all_iff)
  ultimately have sets: "set a = set b"
    by (metis card_subset_eq distinct_card List.finite_set)
  show "\<forall>v. quantity_of a v = quantity_of b v"
  proof
    fix v
    show "quantity_of a v = quantity_of b v"
    proof (cases "quantity_of a v = 0")
      case True
      show ?thesis
        using True quantity_of_mem [of b v] sets quantity_of_in [OF assms(1)] by fastforce
    next
      case False
      with quantity_of_mem [of a v] sets quantity_of_in [OF assms(2)] show ?thesis by fastforce
    qed
  qed
next
  assume q: "\<forall>v. quantity_of a v = quantity_of b v"
  have sub: "set x \<subseteq> set y" if "multi_sound x" "\<forall>v. quantity_of x v = quantity_of y v" for x y
  proof
    fix e assume e: "e \<in> set x"
    then have "quantity_of y (va_unit e) = va_quantity e" "va_quantity e \<noteq> 0"
      using quantity_of_in [OF that(1) e] that by (auto simp: multi_sound_def)
    then have "\<lparr>va_unit = va_unit e, va_quantity = va_quantity e\<rparr> \<in> set y"
      using quantity_of_mem [of y "va_unit e"] by simp
    then show "e \<in> set y" by (cases e) simp
  qed
  have "set a = set b"
    using sub [of a b] sub [of b a] assms q by (simp add: subset_antisym)
  moreover have "length a = card (set a)" "length b = card (set b)"
    using assms by (simp_all add: multi_sound_def distinct_map distinct_card)
  ultimately show "multi_eq a b"
    by (simp add: multi_eq_def list_all_iff)
qed

subsection \<open>Values in terms of their quantities\<close>

definition value_sound :: "val \<Rightarrow> bool" where
  "value_sound v = multi_sound (val_assets v)"

lemmas value_defs =
  value_add_def value_subtract_def add_coins_def value_add_asset_def add_multiasset_def
  subtract_multiasset_def value_zero_def value_of_coins_def value_sound_def value_set_asset_def

lemma multi_sound_Nil [simp]: "multi_sound []"
  by (simp add: multi_sound_def)

lemma value_sound_zero [simp]: "value_sound value_zero" "value_sound (value_of_coins c)"
  by (simp_all add: value_defs)

lemma value_sound_ops [intro]:
  "value_sound v \<Longrightarrow> value_sound (value_add v w)"
  "value_sound v \<Longrightarrow> value_sound (value_subtract v w)"
  "value_sound v \<Longrightarrow> value_sound (add_coins v c)"
  "value_sound v \<Longrightarrow> value_sound (value_add_asset v name q)"
  "value_sound v \<Longrightarrow> value_sound (add_multiasset v m)"
  by (simp_all add: value_defs multi_add_sound multi_subtract_sound add_asset_contract)

lemma value_of_common_assets_sound:
  "value_of_common_assets v assets = Inr w \<Longrightarrow> value_sound v \<Longrightarrow> value_sound w"
proof (induction assets arbitrary: v)
  case (Cons a assets)
  then show ?case
    by (auto split: sum.splits if_splits)
qed simp

lemma value_eq_quantities:
  assumes "value_sound v" "value_sound w"
  shows "value_eq v w \<longleftrightarrow> val_coins v = val_coins w \<and>
    (\<forall>u. quantity_of (val_assets v) u = quantity_of (val_assets w) u)"
  using multi_eq_quantities [of "val_assets v" "val_assets w"] assms
  by (auto simp: value_eq_def value_sound_def)

lemma value_eq_difference:
  assumes "value_sound v" "value_sound w"
  shows "value_eq v w \<longleftrightarrow> value_subtract v w = value_zero"
proof -
  let ?d = "value_subtract v w"
  have "val_assets ?d = [] \<longleftrightarrow> (\<forall>u. quantity_of (val_assets ?d) u = 0)"
  proof
    assume zero: "\<forall>u. quantity_of (val_assets ?d) u = 0"
    have sound: "multi_sound (val_assets ?d)"
      using assms by (simp add: value_defs multi_subtract_sound)
    show "val_assets ?d = []"
    proof (cases "val_assets ?d")
      case (Cons a as)
      have "va_quantity a = 0"
        using spec [OF zero, of "va_unit a"] Cons by simp
      with sound Cons show ?thesis by (simp add: multi_sound_def)
    qed
  qed simp
  moreover have "quantity_of (val_assets ?d) u =
      quantity_of (val_assets v) u - quantity_of (val_assets w) u" for u
    using assms by (simp add: value_defs quantity_multi_subtract)
  moreover have "val_coins ?d = val_coins v - val_coins w"
    by (simp add: value_defs)
  ultimately show ?thesis
    using assms by (cases ?d) (auto simp: value_eq_quantities value_zero_def)
qed

end
