(* ===== verification/Std_Text.thy ===== *)
theory Std_Text
  imports Native_Script
begin

text \<open>
  What the sources use of the standard library on text: reading a \<open>u64\<close> and checking that
  bytes are UTF-8. A string is its UTF-8 bytes, each a character.
\<close>

definition is_digit :: "char \<Rightarrow> bool" where
  "is_digit c = (let n = of_char c :: nat in 48 \<le> n \<and> n \<le> 57)"

text \<open>\<open>parse::<u64>\<close>: an optional plus, at least one digit, no overflow.\<close>

fun digits_value :: "nat \<Rightarrow> string \<Rightarrow> nat option" where
  "digits_value acc [] = Some acc"
| "digits_value acc (c # cs) =
     (if is_digit c \<and> 10 * acc + (of_char c - 48) < 2 ^ 64
      then digits_value (10 * acc + (of_char c - 48)) cs else None)"

definition parse_u64 :: "string \<Rightarrow> u64 option" where
  "parse_u64 s =
     (let ds = (case s of CHR ''+'' # rest \<Rightarrow> rest | _ \<Rightarrow> s)
      in if ds = [] then None else map_option of_nat (digits_value 0 ds))"

text \<open>\<open>str::parse::<u64>()\<close> with the text of its error, the same otherwise.\<close>

fun parse_u64_digits :: "nat \<Rightarrow> string \<Rightarrow> string + nat" where
  "parse_u64_digits acc [] = Inr acc"
| "parse_u64_digits acc (c # cs) =
     (if \<not> is_digit c then Inl ''invalid digit found in string''
      else if 10 * acc + (of_char c - 48) < 2 ^ 64
      then parse_u64_digits (10 * acc + (of_char c - 48)) cs
      else Inl ''number too large to fit in target type'')"

fun parse_u64_text :: "string \<Rightarrow> string + u64" where
  "parse_u64_text [] = Inl ''cannot parse integer from empty string''"
| "parse_u64_text (c # cs) =
     (case parse_u64_digits 0 (if c = CHR ''+'' \<and> cs \<noteq> [] then cs else c # cs) of
        Inl e \<Rightarrow> Inl e | Inr n \<Rightarrow> Inr (of_nat n))"

text \<open>\<open>String::from_utf8\<close> accepts the well-formed UTF-8 sequences.\<close>

definition continuation :: "u8 \<Rightarrow> bool" where "continuation b \<longleftrightarrow> 0x80 \<le> b \<and> b \<le> 0xBF"

fun valid_utf8 :: "bytes \<Rightarrow> bool" where
  "valid_utf8 [] = True"
| "valid_utf8 (b # bs) =
     (if b < 0x80 then valid_utf8 bs
      else if 0xC2 \<le> b \<and> b \<le> 0xDF then
        (case bs of c # rest \<Rightarrow> continuation c \<and> valid_utf8 rest | _ \<Rightarrow> False)
      else if 0xE0 \<le> b \<and> b \<le> 0xEF then
        (case bs of
           c # d # rest \<Rightarrow>
             continuation c \<and> (b = 0xE0 \<longrightarrow> 0xA0 \<le> c) \<and> (b = 0xED \<longrightarrow> c \<le> 0x9F) \<and>
             continuation d \<and> valid_utf8 rest
         | _ \<Rightarrow> False)
      else if 0xF0 \<le> b \<and> b \<le> 0xF4 then
        (case bs of
           c # d # e # rest \<Rightarrow>
             continuation c \<and> (b = 0xF0 \<longrightarrow> 0x90 \<le> c) \<and> (b = 0xF4 \<longrightarrow> c \<le> 0x8F) \<and>
             continuation d \<and> continuation e \<and> valid_utf8 rest
         | _ \<Rightarrow> False)
      else False)"

definition text_of :: "bytes \<Rightarrow> string" where
  "text_of bs = map (\<lambda>b. char_of (unat b)) bs"

end
