(* ===== verification/Ledger_Context.thy ===== *)
theory Ledger_Context
  imports Asset_Store Native_Script
begin

text \<open>
  What the caller of the validator supplies: UTxOs, protocol parameters and the ledger state
  around the transaction, with the lookups of \<open>ValidationInputContext\<close>
  (\<^verbatim>\<open>src/src/common.rs\<close>, \<^verbatim>\<open>src/src/validators/common.rs\<close>,
  \<^verbatim>\<open>src/src/validators/protocol_params.rs\<close>, \<^verbatim>\<open>src/src/validators/input_contexts.rs\<close>).
\<close>

type_synonym u32 = "32 word"

subsection \<open>UTxOs\<close>

record tx_input =
  ti_output_index :: u32
  ti_tx_hash :: string

record tx_output =
  to_address :: string
  to_amount :: "asset list"
  to_data_hash :: "string option"
  to_plutus_data :: "string option"
  to_script_ref :: "string option"
  to_script_hash :: "string option"

record utxo =
  ux_input :: tx_input
  ux_output :: tx_output

definition find_ada_asset :: "tx_output \<Rightarrow> asset option" where
  "find_ada_asset out =
     find (\<lambda>a. as_unit a = ''lovelace'' \<or> as_unit a = []) (to_amount out)"

definition has_non_ada_assets :: "tx_output \<Rightarrow> bool" where
  "has_non_ada_assets out =
     list_ex (\<lambda>a. as_unit a \<noteq> ''lovelace'' \<and> as_unit a \<noteq> []) (to_amount out)"

subsection \<open>Protocol parameters\<close>

record cost_models =
  cm_plutus_v1 :: "i64 list option"
  cm_plutus_v2 :: "i64 list option"
  cm_plutus_v3 :: "i64 list option"

record sub_coin =
  sc_numerator :: u64
  sc_denominator :: u64

record ex_unit_prices =
  ep_mem_price :: sub_coin
  ep_step_price :: sub_coin

record ex_units =
  eu_mem :: u64
  eu_steps :: u64

record protocol_parameters =
  pp_min_fee_coefficient_a :: u64
  pp_min_fee_constant_b :: u64
  pp_max_block_body_size :: u32
  pp_max_transaction_size :: u32
  pp_max_block_header_size :: u32
  pp_stake_key_deposit :: u64
  pp_stake_pool_deposit :: u64
  pp_max_epoch_for_pool_retirement :: u32
  pp_protocol_version :: "u32 \<times> u32"
  pp_min_pool_cost :: u64
  pp_ada_per_utxo_byte :: u64
  pp_cost_models :: cost_models
  pp_execution_prices :: ex_unit_prices
  pp_max_tx_execution_units :: ex_units
  pp_max_block_execution_units :: ex_units
  pp_max_value_size :: u32
  pp_collateral_percentage :: u32
  pp_max_collateral_inputs :: u32
  pp_governance_action_deposit :: u64
  pp_drep_deposit :: u64
  pp_reference_script_cost_per_byte :: sub_coin

subsection \<open>The validator's own types\<close>

datatype governance_action_type =
    ParameterChangeAction
  | HardForkInitiationAction
  | TreasuryWithdrawalsAction
  | NoConfidenceAction
  | UpdateCommitteeAction
  | NewConstitutionAction
  | InfoAction

datatype network_type = Mainnet | Preview | Preprod

record fee_decomposition =
  fd_tx_size_fee :: u64
  fd_reference_scripts_fee :: u64
  fd_execution_units_fee :: u64

datatype local_credential = KeyHash bytes | ScriptHash bytes

record governance_action_id =
  ga_tx_hash :: bytes
  ga_index :: u32

subsection \<open>The input context\<close>

record gov_action_context =
  gc_action_id :: governance_action_id
  gc_action_type :: governance_action_type
  gc_is_active :: bool
  gc_changed_parameters :: "string list option"

record drep_context =
  dc_bech32_drep :: string
  dc_is_registered :: bool
  dc_payed_deposit :: "u64 option"

record account_context =
  ac_bech32_address :: string
  ac_is_registered :: bool
  ac_payed_deposit :: "u64 option"
  ac_delegated_to_drep :: "string option"
  ac_delegated_to_pool :: "string option"
  ac_balance :: "u64 option"

record pool_context =
  pc_pool_id :: string
  pc_is_registered :: bool
  pc_retirement_epoch :: "u64 option"

record utxo_context =
  uc_utxo :: utxo
  uc_is_spent :: bool

record committee_context =
  cc_cold :: local_credential
  cc_hot :: "local_credential option"
  cc_is_resigned :: bool

record constitution_context =
  co_guardrail_script_hash :: "string option"

record input_context =
  ic_utxo_set :: "utxo_context list"
  ic_protocol_parameters :: protocol_parameters
  ic_slot :: u64
  ic_account_contexts :: "account_context list"
  ic_drep_contexts :: "drep_context list"
  ic_pool_contexts :: "pool_context list"
  ic_gov_action_contexts :: "gov_action_context list"
  ic_last_enacted_gov_action :: "gov_action_context list"
  ic_current_committee_members :: "committee_context list"
  ic_potential_committee_members :: "committee_context list"
  ic_treasury_value :: u64
  ic_network_type :: network_type
  ic_constitution :: "constitution_context option"

definition find_utxo :: "input_context \<Rightarrow> string \<Rightarrow> u32 \<Rightarrow> utxo_context option" where
  "find_utxo ic tx_hash tx_index =
     find (\<lambda>u. ti_tx_hash (ux_input (uc_utxo u)) = tx_hash \<and>
               ti_output_index (ux_input (uc_utxo u)) = tx_index) (ic_utxo_set ic)"

definition find_account_context :: "input_context \<Rightarrow> string \<Rightarrow> account_context option" where
  "find_account_context ic bech32 =
     find (\<lambda>a. ac_bech32_address a = bech32) (ic_account_contexts ic)"

definition find_drep_context :: "input_context \<Rightarrow> string \<Rightarrow> drep_context option" where
  "find_drep_context ic bech32 = find (\<lambda>d. dc_bech32_drep d = bech32) (ic_drep_contexts ic)"

definition find_pool_context :: "input_context \<Rightarrow> string \<Rightarrow> pool_context option" where
  "find_pool_context ic pool_id = find (\<lambda>p. pc_pool_id p = pool_id) (ic_pool_contexts ic)"

definition find_gov_action_context ::
  "input_context \<Rightarrow> governance_action_id \<Rightarrow> gov_action_context option" where
  "find_gov_action_context ic action_id =
     find (\<lambda>a. gc_action_id a = action_id) (ic_gov_action_contexts ic)"

definition find_last_enacted_gov_action ::
  "input_context \<Rightarrow> governance_action_type \<Rightarrow> gov_action_context option" where
  "find_last_enacted_gov_action ic action_type =
     find (\<lambda>a. gc_action_type a = action_type) (ic_last_enacted_gov_action ic)"

definition find_current_committee_member_by_cold_credential ::
  "input_context \<Rightarrow> local_credential \<Rightarrow> committee_context option" where
  "find_current_committee_member_by_cold_credential ic credential =
     find (\<lambda>m. cc_cold m = credential) (ic_current_committee_members ic)"

definition find_potential_committee_member_by_cold_credential ::
  "input_context \<Rightarrow> local_credential \<Rightarrow> committee_context option" where
  "find_potential_committee_member_by_cold_credential ic credential =
     find (\<lambda>m. cc_cold m = credential) (ic_potential_committee_members ic)"

definition find_current_committee_member_by_hot_credential ::
  "input_context \<Rightarrow> local_credential \<Rightarrow> committee_context option" where
  "find_current_committee_member_by_hot_credential ic credential =
     find (\<lambda>m. the (cc_hot m) = credential)
       (filter (\<lambda>m. cc_hot m \<noteq> None) (ic_current_committee_members ic))"

definition find_potential_committee_member_by_hot_credential ::
  "input_context \<Rightarrow> local_credential \<Rightarrow> committee_context option" where
  "find_potential_committee_member_by_hot_credential ic credential =
     find (\<lambda>m. the (cc_hot m) = credential)
       (filter (\<lambda>m. cc_hot m \<noteq> None) (ic_potential_committee_members ic))"

end
