(* ===== verification/Phase2_Error.thy ===== *)
theory Phase2_Error
  imports Ledger_Context Std_Text
begin

text \<open>
  The findings of phase 2 and their texts (\<^verbatim>\<open>src/src/validators/phase_2/errors.rs\<close>),
  and how an evaluator's error text becomes one of them
  (\<^verbatim>\<open>src/src/validators/phase_2/eval_redeemer.rs\<close>). Strings are ASCII.
\<close>

datatype (plugins only: code size) phase2_error =
    NoEnoughBudget ex_units ex_units
  | InvalidRedeemerIndex string u64
  | MachineError string
  | NativeScriptIsReferencedByRedeemer
  | CostModelNotFound string
  | ScriptDecodeError string
  | ResolvedInputNotFound string u64
  | ByronAddressNotAllowed
  | InlineDatumNotAllowedForPlutusV1
  | ReferenceInputsNotAllowedForPlutusV1
  | UnreadableOutput u64 string
  | UnreadableTransactionField string string
  | CertificateNotSupportedInPlutusV1V2 u64 string string
  | FieldNotSupportedInPlutusV1V2 string string
  | SlotTooFarInThePast u64
  | NoPaymentCredential
  | ExtraneousRedeemer string u64
  | BuildTxContextError string
  | RedeemerIndexOutOfBounds string u64 "u64 option"
  | MissingRequiredScript string
  | MissingRequiredDatum string
  | NonScriptWithdrawal
  | NonScriptCredential
  | UnsupportedCertificateType
  | NoGuardrailScriptForProcedure
  | MissingRequiredInlineDatumOrHash
  | ScriptLookupError string

datatype phase2_warning =
    BudgetIsBiggerThanExpected ex_units ex_units
  | ScriptContextNotExamined string string

subsection \<open>Texts\<close>

definition number :: "u64 \<Rightarrow> string" where
  "number n = decimal (unat n)"

definition ex_units_text :: "ex_units \<Rightarrow> string" where
  "ex_units_text u =
     ''ExUnits { mem: '' @ number (eu_mem u) @ '', steps: '' @ number (eu_steps u) @ '' }''"

fun phase2_error_text :: "phase2_error \<Rightarrow> string" where
  "phase2_error_text (NoEnoughBudget expected actual) =
     ''Not enough budget available. Expected: '' @ ex_units_text expected
     @ '', Actual: '' @ ex_units_text actual"
| "phase2_error_text (InvalidRedeemerIndex tag i) =
     ''Invalid redeemer index for tag '' @ [CHR 0x27] @ tag @ [CHR 0x27] @ '': '' @ number i"
| "phase2_error_text (MachineError e) = ''Plutus machine error: '' @ e"
| "phase2_error_text NativeScriptIsReferencedByRedeemer =
     ''Native script cannot be referenced by redeemer''"
| "phase2_error_text (CostModelNotFound language) =
     ''Cost model not found for language: '' @ language"
| "phase2_error_text (ScriptDecodeError e) = ''Failed to decode script: '' @ e"
| "phase2_error_text (ResolvedInputNotFound tx_hash i) =
     ''Input '' @ tx_hash @ ''#'' @ number i @ '' not found in the provided UTxO set''"
| "phase2_error_text ByronAddressNotAllowed =
     ''Byron (legacy) addresses cannot be used in Plutus script transactions''"
| "phase2_error_text InlineDatumNotAllowedForPlutusV1 =
     ''Inline datums are not supported in PlutusV1, use datum hash instead''"
| "phase2_error_text ReferenceInputsNotAllowedForPlutusV1 =
     ''The evaluator cannot build a PlutusV1 script context for a transaction with reference inputs or ''
     @ ''spending an output with a reference script (the Conway ledger accepts both for PlutusV1; it ''
     @ ''refuses only inline datums)''"
| "phase2_error_text (UnreadableOutput i reason) =
     ''Output '' @ number i @ '' cannot be translated into a script context: '' @ reason"
| "phase2_error_text (UnreadableTransactionField field reason) =
     ''The transaction'' @ [CHR 0x27] @ ''s '' @ field
     @ '' cannot be translated into a script context: '' @ reason"
| "phase2_error_text (CertificateNotSupportedInPlutusV1V2 i certificate_type language) =
     ''Certificate '' @ number i @ '' ('' @ certificate_type @ '') is a Conway certificate, which a ''
     @ language @ '' script context cannot represent (CertificateNotSupported)''"
| "phase2_error_text (FieldNotSupportedInPlutusV1V2 field language) =
     ''The transaction body sets '' @ field @ '', which a '' @ language
     @ '' script context cannot represent''"
| "phase2_error_text (SlotTooFarInThePast oldest) =
     ''Validity interval references a slot before the network'' @ [CHR 0x27]
     @ ''s zero slot (oldest allowed: '' @ number oldest @ '')''"
| "phase2_error_text NoPaymentCredential =
     ''Address lacks a payment credential (possibly a stake address used where payment address is ''
     @ ''required)''"
| "phase2_error_text (ExtraneousRedeemer tag i) =
     tag @ '' redeemer at index '' @ number i
     @ '' has no corresponding script element in the transaction''"
| "phase2_error_text (BuildTxContextError e) = ''Failed to build transaction context: '' @ e"
| "phase2_error_text (RedeemerIndexOutOfBounds tag i max_index) =
     (case max_index of
        Some m \<Rightarrow>
          tag @ '' redeemer index '' @ number i @ '' is out of bounds (only '' @ number (m + 1)
          @ '' elements available, max index: '' @ number m @ '')''
      | None \<Rightarrow>
          tag @ '' redeemer index '' @ number i @ '' is out of bounds (no elements available)'')"
| "phase2_error_text (MissingRequiredScript h) =
     ''Script '' @ h @ '' not found in witness set, inputs, or reference inputs''"
| "phase2_error_text (MissingRequiredDatum h) =
     ''Datum '' @ h @ '' not found in witness set or as inline datum in the input''"
| "phase2_error_text NonScriptWithdrawal =
     ''Withdrawal uses a key-based credential, but redeemer expects a script''"
| "phase2_error_text NonScriptCredential =
     ''Expected script credential but found key credential''"
| "phase2_error_text UnsupportedCertificateType =
     ''Certificate type does not support redeemers (StakeRegistration, PoolRetirement, PoolRegistration)''"
| "phase2_error_text NoGuardrailScriptForProcedure =
     ''Governance proposal does not define a guardrail script''"
| "phase2_error_text MissingRequiredInlineDatumOrHash =
     ''Missing required datum: PlutusV1 requires a datum hash (inline datums not supported), PlutusV2 ''
     @ ''accepts either inline datum or datum hash''"
| "phase2_error_text (ScriptLookupError e) = ''Script lookup failed: '' @ e"

fun phase2_warning_text :: "phase2_warning \<Rightarrow> string" where
  "phase2_warning_text (BudgetIsBiggerThanExpected expected actual) =
     ''Budget is bigger than expected. Expected: '' @ ex_units_text expected
     @ '', Actual: '' @ ex_units_text actual"
| "phase2_warning_text (ScriptContextNotExamined input reason) =
     ''The redeemer was not evaluated (implementation limit, not a finding): UTxO '' @ input
     @ '' cannot enter a script context: '' @ reason"

subsection \<open>Reading a text\<close>

definition contains :: "string \<Rightarrow> string \<Rightarrow> bool" where
  "contains s sub = list_ex (\<lambda>n. take (length sub) (drop n s) = sub) [0 ..< Suc (length s)]"

definition is_whitespace :: "char \<Rightarrow> bool" where
  "is_whitespace c = (let n = of_char c :: nat in n = 32 \<or> (9 \<le> n \<and> n \<le> 13))"

definition is_hex_digit :: "char \<Rightarrow> bool" where
  "is_hex_digit c =
     (let n = of_char c :: nat
      in (48 \<le> n \<and> n \<le> 57) \<or> (65 \<le> n \<and> n \<le> 70) \<or> (97 \<le> n \<and> n \<le> 102))"

text \<open>\<open>str::split\<close> at the characters a predicate holds of; the pieces may be empty.\<close>

fun split_at :: "(char \<Rightarrow> bool) \<Rightarrow> string \<Rightarrow> string list" where
  "split_at p [] = [[]]"
| "split_at p (c # cs) =
     (if p c then [] # split_at p cs
      else case split_at p cs of [] \<Rightarrow> [[c]] | piece # pieces \<Rightarrow> (c # piece) # pieces)"

definition split_whitespace :: "string \<Rightarrow> string list" where
  "split_whitespace s = filter (\<lambda>w. w \<noteq> []) (split_at is_whitespace s)"

text \<open>\<open>str::lines\<close>, up to the empty last piece, which holds no text to find.\<close>

definition lines :: "string \<Rightarrow> string list" where
  "lines s = split_at (\<lambda>c. c = CHR 0x0A) s"

definition trim_matches :: "(char \<Rightarrow> bool) \<Rightarrow> string \<Rightarrow> string" where
  "trim_matches p s = rev (dropWhile p (rev (dropWhile p s)))"

fun find_text :: "string \<Rightarrow> string \<Rightarrow> string option" where
  "find_text sub [] = (if sub = [] then Some [] else None)"
| "find_text sub (c # cs) =
     (if take (length sub) (c # cs) = sub then Some (c # cs) else find_text sub cs)"

subsection \<open>From an evaluator's text to an error\<close>

text \<open>The last word of the first line that holds a word.\<close>

definition last_word_of_line :: "string \<Rightarrow> string \<Rightarrow> string" where
  "last_word_of_line word s =
     (case find (\<lambda>line. contains line word) (lines s) of
        None \<Rightarrow> ''unknown''
      | Some line \<Rightarrow> (case split_whitespace line of [] \<Rightarrow> ''unknown'' | ws \<Rightarrow> last ws))"

definition parse_script_lookup_error :: "string \<Rightarrow> string \<Rightarrow> u64 \<Rightarrow> phase2_error" where
  "parse_script_lookup_error e tag index =
     (if contains e ''missing script for redeemer'' then RedeemerIndexOutOfBounds tag index None
      else if contains e ''missing required script''
      then MissingRequiredScript (last_word_of_line ''Script'' e)
      else if contains e ''missing required datum''
      then MissingRequiredDatum (last_word_of_line ''Datum'' e)
      else if contains e ''non-script withdrawal'' then NonScriptWithdrawal
      else if contains e ''non-script'' \<and> (contains e ''stake credential'' \<or> contains e ''credential'')
      then NonScriptCredential
      else if contains e ''unsupported certificate type'' then UnsupportedCertificateType
      else if contains e ''guardrail'' then NoGuardrailScriptForProcedure
      else if contains e ''inline datum'' \<or> contains e ''datum hash''
      then MissingRequiredInlineDatumOrHash
      else ScriptLookupError e)"

definition extract_tx_input_from_error :: "string \<Rightarrow> string \<times> u64" where
  "extract_tx_input_from_error e =
     (case find (\<lambda>s. length s = 64) (split_at (\<lambda>c. \<not> is_hex_digit c) e) of
        Some h \<Rightarrow> h | None \<Rightarrow> ''unknown'',
      case find_text ''index'' e of
        None \<Rightarrow> 0
      | Some rest \<Rightarrow>
          (case List.map_filter (\<lambda>w. parse_u64 (trim_matches (\<lambda>c. \<not> is_digit c) w))
                  (split_whitespace rest) of
             [] \<Rightarrow> 0 | n # _ \<Rightarrow> n))"

definition parse_build_context_error :: "string \<Rightarrow> string \<Rightarrow> u64 \<Rightarrow> phase2_error" where
  "parse_build_context_error e tag index =
     (if contains e ''resolved'' \<and> contains e ''not found''
      then (case extract_tx_input_from_error e of (h, i) \<Rightarrow> ResolvedInputNotFound h i)
      else if contains e ''byron address'' \<or> contains e ''Byron'' then ByronAddressNotAllowed
      else if contains e ''inline datum not allowed'' then InlineDatumNotAllowedForPlutusV1
      else if contains e ''reference not allowed'' \<or> contains e ''input reference''
      then ReferenceInputsNotAllowedForPlutusV1
      else if contains e ''too far in the past'' \<or> contains e ''SlotTooFar''
      then SlotTooFarInThePast
        (case List.map_filter parse_u64 (split_whitespace e) of [] \<Rightarrow> 0 | n # _ \<Rightarrow> n)
      else if contains e ''payment credential'' then NoPaymentCredential
      else if contains e ''extraneous redeemer'' then ExtraneousRedeemer tag index
      else BuildTxContextError e)"

end
