(* ===== verification/Csl_Transaction.thy ===== *)
theory Csl_Transaction
  imports Ledger_Context Preflight_Checks
begin

text \<open>
  The transaction as the serialization library hands it to the validators.

  The library is not part of the repository. A value of one of its types is the record of what
  the accessors the validators call answer for it: an \<open>Option\<close> or a \<open>Result\<close> whose error is
  dropped is an \<open>option\<close>, a collection is the list of its items by index, a map the list of
  its keys with what \<open>get\<close> answers for each, a hash its bytes. The library's functions the
  validators call are the fields of the record \<open>csl\<close>.
\<close>

subsection \<open>Credentials and addresses\<close>

datatype cred_kind = KeyKind | ScriptKind

record credential =
  cr_kind :: cred_kind
  cr_keyhash :: "bytes option"
  cr_scripthash :: "bytes option"

record reward_address =
  ra_network_id :: u8
  ra_bech32 :: "string option"
  ra_payment_cred :: credential
  ra_bytes :: bytes

record address =
  ad_is_reward :: bool
  ad_payment_cred :: "credential option"
  ad_network_id :: "u8 option"
  ad_bech32 :: "string option"
  ad_reward :: "reward_address option"

subsection \<open>Values and outputs\<close>

type_synonym csl_assets = "(bytes \<times> u64 option) list"
type_synonym csl_multiasset = "(bytes \<times> csl_assets option) list"

record csl_value =
  cv_coin :: u64
  cv_multiasset :: "csl_multiasset option"
  cv_bytes :: bytes

record csl_output =
  ou_address :: address
  ou_amount :: csl_value
  ou_data_hash :: "bytes option"

record csl_input =
  ci_transaction_id :: bytes
  ci_index :: u32

text \<open>
  A mint: its policies, the asset lists \<open>get\<close> answers for a policy, each the names with their
  amounts, and what the library's split into minted and burnt parts answers.
\<close>

type_synonym mint_assets = "(bytes \<times> int option) list"

record mint =
  mi_keys :: "bytes list"
  mi_get :: "bytes \<Rightarrow> mint_assets option list option"
  mi_positive :: "csl_multiasset option"
  mi_negative :: "csl_multiasset option"

subsection \<open>Certificates, proposals and votes\<close>

text \<open>A DRep is its kind and what \<open>to_bech32(true)\<close> answers for it, a pool its key hash.\<close>

datatype drep_kind = KeyHashDRep | ScriptHashDRep | AlwaysAbstain | AlwaysNoConfidence

record drep =
  dr_kind :: drep_kind
  dr_bech32 :: "string option"

text \<open>A pool registration carries its operator, its cost and its owners.\<close>

datatype certificate =
    StakeRegistration credential "u64 option"
  | StakeDeregistration credential "u64 option"
  | StakeDelegation credential bytes
  | PoolRegistration bytes u64 "bytes list"
  | PoolRetirement bytes u32
  | GenesisKeyDelegation
  | MoveInstantaneousRewardsCert
  | CommitteeHotAuth credential credential
  | CommitteeColdResign credential
  | DRepDeregistration credential u64
  | DRepRegistration credential u64
  | DRepUpdate credential
  | StakeAndVoteDelegation credential bytes drep
  | StakeRegistrationAndDelegation credential bytes u64
  | StakeVoteRegistrationAndDelegation credential bytes drep u64
  | VoteDelegation credential drep
  | VoteRegistrationAndDelegation credential drep u64

text \<open>
  An action with the id of the one it follows; a parameter change and a treasury withdrawal with
  their policy hash, a withdrawal with its accounts and amounts, a committee update with the
  members it adds and removes.
\<close>

datatype governance_action =
    ParameterChange "governance_action_id option" "bytes option"
  | HardForkInitiation "governance_action_id option"
  | TreasuryWithdrawals "(reward_address \<times> u64 option) list" "bytes option"
  | NoConfidence "governance_action_id option"
  | UpdateCommittee "governance_action_id option" "credential list" "credential list"
  | NewConstitution "governance_action_id option"
  | Info

record voting_proposal =
  vp_deposit :: u64
  vp_reward_account :: reward_address
  vp_action :: governance_action

datatype voter_kind =
    ConstitutionalCommitteeHotKeyHash
  | ConstitutionalCommitteeHotScriptHash
  | DRepKeyHash
  | DRepScriptHash
  | StakingPoolKeyHash

record voter =
  vo_kind :: voter_kind
  vo_committee_hot :: "credential option"
  vo_drep :: "credential option"
  vo_pool :: "bytes option"

datatype network_id_kind = MainnetId | TestnetId

subsection \<open>The body\<close>

record tx_body =
  tb_inputs :: "csl_input list"
  tb_outputs :: "csl_output list"
  tb_fee :: u64
  tb_ttl :: "u64 option"
  tb_validity_start :: "u64 option"
  tb_certs :: "certificate list option"
  tb_withdrawals :: "(reward_address \<times> u64 option) list option"
  tb_mint :: "mint option"
  tb_collateral :: "csl_input list option"
  tb_collateral_return :: "csl_output option"
  tb_total_collateral :: "u64 option"
  tb_reference_inputs :: "csl_input list option"
  tb_voting_procedures :: "(voter \<times> governance_action_id list) list option"
  tb_voting_proposals :: "voting_proposal list option"
  tb_donation :: "u64 option"
  tb_current_treasury_value :: "u64 option"
  tb_network_id :: "network_id_kind option"
  tb_auxiliary_data_hash :: "bytes option"
  tb_required_signers :: "bytes list option"
  tb_script_data_hash :: "bytes option"

text \<open>The redeemers of a witness set: how many, and the sum of their budgets.\<close>

record redeemers =
  rd_len :: nat
  rd_total_ex_units :: "string + ex_units"

subsection \<open>The library's functions\<close>

datatype language = PlutusV1 | PlutusV2 | PlutusV3

datatype csl_script = NativeScript bytes | PlutusScript language bytes | NoScript

record csl =
  cs_mainnet_id :: u8
  cs_preview_id :: u8
  cs_preprod_id :: u8
  cs_reward_bech32 :: "u8 \<Rightarrow> credential \<Rightarrow> string option"
  cs_drep_bech32 :: "credential \<Rightarrow> string option"
  cs_hex_decode :: "string \<Rightarrow> string + bytes"
  cs_bech32_decode :: "string \<Rightarrow> string + string \<times> bytes"
  cs_address_of_hex :: "string \<Rightarrow> string + address"
  cs_address_of_bech32 :: "string \<Rightarrow> string + address"
  cs_byron_of_base58 :: "string \<Rightarrow> string + address"
  cs_min_ada_for_output :: "csl_output \<Rightarrow> u64 \<Rightarrow> u64 option"
  cs_min_ref_script_fee :: "nat \<Rightarrow> sub_coin \<Rightarrow> string + u64"
  cs_ex_units_ceil_cost :: "ex_units \<Rightarrow> ex_unit_prices \<Rightarrow> string + u64"
  cs_min_fee_for_size :: "nat \<Rightarrow> u64 \<Rightarrow> u64 \<Rightarrow> string + u64"
  cs_empty_total_ex_units :: "string + ex_units"
  cs_script_ref_of_bytes :: "bytes \<Rightarrow> string + csl_script"
  cs_blake2b_224 :: "bytes \<Rightarrow> bytes"
  cs_script_hash_of_bytes :: "bytes \<Rightarrow> bytes option"
  cs_encode_tag_24 :: "bytes \<Rightarrow> bytes"
  cs_minicbor :: minicbor

subsection \<open>Conversions\<close>

text \<open>
  An amount reaches \<open>i128\<close> through the library's decimal text, \<open>to_str().parse()\<close>, a text
  that does not parse counting as zero; on a \<open>u64\<close> that is the number itself.
\<close>

definition parse_or_zero :: "string \<Rightarrow> i128" where
  "parse_or_zero s = (case parse_i128 s of Inr n \<Rightarrow> of_int n | Inl _ \<Rightarrow> 0)"

definition big_num :: "u64 \<Rightarrow> i128" where
  "big_num n = parse_or_zero (decimal (unat n))"

definition new_from_csl_assets :: "bool \<Rightarrow> bytes \<Rightarrow> csl_assets \<Rightarrow> multi_asset \<Rightarrow> multi_asset" where
  "new_from_csl_assets absolute policy assets multi =
     foldl (\<lambda>multi (name, amount).
         let quantity = (case amount of Some q \<Rightarrow> big_num q | None \<Rightarrow> 0);
             u = hex_encode policy @ hex_encode name
         in add_asset multi u
              (if absolute then (if sint quantity < 0 then - quantity else quantity) else quantity))
       multi assets"

definition new_from_csl_multiasset :: "bool \<Rightarrow> csl_multiasset \<Rightarrow> multi_asset" where
  "new_from_csl_multiasset absolute multiasset =
     foldl (\<lambda>multi (policy, assets).
         case assets of Some assets \<Rightarrow> new_from_csl_assets absolute policy assets multi | None \<Rightarrow> multi)
       [] multiasset"

definition new_from_csl_value :: "csl_value \<Rightarrow> val" where
  "new_from_csl_value v =
     \<lparr>val_assets = (case cv_multiasset v of
        Some multiasset \<Rightarrow> new_from_csl_multiasset False multiasset | None \<Rightarrow> []),
      val_coins = big_num (cv_coin v)\<rparr>"

text \<open>\<^verbatim>\<open>src/src/validators/helpers.rs\<close>.\<close>

definition string_to_csl_address :: "csl \<Rightarrow> string \<Rightarrow> string + address" where
  "string_to_csl_address cs text =
     (case address_from_bech32 (cs_bech32_decode cs) (cs_address_of_bech32 cs) text of
        Inr a \<Rightarrow> Inr a
      | Inl _ \<Rightarrow>
          (case address_from_hex (cs_hex_decode cs) (cs_address_of_hex cs) text of
             Inr a \<Rightarrow> Inr a
           | Inl _ \<Rightarrow>
               (case cs_byron_of_base58 cs text of
                  Inr a \<Rightarrow> Inr a
                | Inl e \<Rightarrow> Inl (''Error converting address '' @ text @ '': '' @ e))))"

definition csl_tx_input_to_string :: "csl_input \<Rightarrow> string" where
  "csl_tx_input_to_string i = hex_encode (ci_transaction_id i) @ ''#'' @ decimal (unat (ci_index i))"

definition expected_network_id :: "csl \<Rightarrow> network_type \<Rightarrow> u8" where
  "expected_network_id cs network =
     (case network of
        Mainnet \<Rightarrow> cs_mainnet_id cs
      | Preview \<Rightarrow> cs_preview_id cs
      | Preprod \<Rightarrow> cs_preprod_id cs)"

definition credential_to_bech32_reward_address :: "csl \<Rightarrow> credential \<Rightarrow> network_type \<Rightarrow> string" where
  "credential_to_bech32_reward_address cs c network =
     (case cs_reward_bech32 cs (expected_network_id cs network) c of Some s \<Rightarrow> s | None \<Rightarrow> [])"

definition csl_credential_to_local_credential :: "credential \<Rightarrow> local_credential" where
  "csl_credential_to_local_credential c =
     (case cr_kind c of
        KeyKind \<Rightarrow> KeyHash (case cr_keyhash c of Some h \<Rightarrow> h | None \<Rightarrow> [])
      | ScriptKind \<Rightarrow> ScriptHash (case cr_scripthash c of Some h \<Rightarrow> h | None \<Rightarrow> []))"

definition find_input :: "input_context \<Rightarrow> csl_input \<Rightarrow> utxo_context option" where
  "find_input ic i = find_utxo ic (hex_encode (ci_transaction_id i)) (ci_index i)"

end
