(* ===== verification/Phase2_Guard.thy ===== *)
theory Phase2_Guard
  imports Phase2_Error Csl_Transaction
begin

text \<open>
  The transaction as the evaluator's decoder reads it, and the content no script context can be
  built from (\<^verbatim>\<open>src/src/validators/phase_2/context_guard.rs\<close>). The records hold what
  the checks read of the decoder's types; the reader of address bytes is an argument.
\<close>

datatype pallas_address = ByronAddress | ShelleyAddress | StakeAddress

record rational =
  ra_numerator :: u64
  ra_denominator :: u64

text \<open>An output in array form with its value's tokens, or in map form with its datum.\<close>

datatype legacy_value = LegacyCoin u64 | LegacyMultiasset u64 "(bytes \<times> (bytes \<times> u64) list) list"

datatype pallas_datum = NoDatum | DatumHash bytes | InlineData bytes

datatype pallas_output =
    LegacyOutput bytes legacy_value
  | PostAlonzoOutput bytes pallas_datum

datatype pallas_certificate =
    PStakeRegistration | PStakeDeregistration | PStakeDelegation | PPoolRegistration | PPoolRetirement
  | PReg | PUnReg | PVoteDeleg | PStakeVoteDeleg | PStakeRegDeleg | PVoteRegDeleg | PStakeVoteRegDeleg
  | PAuthCommitteeHot | PResignCommitteeCold | PRegDRepCert | PUnRegDRepCert | PUpdateDRepCert

record prices =
  pr_mem_price :: rational
  pr_step_price :: rational

record pool_voting_thresholds =
  pt_motion_no_confidence :: rational
  pt_committee_normal :: rational
  pt_committee_no_confidence :: rational
  pt_hard_fork_initiation :: rational
  pt_security_voting_threshold :: rational

record drep_voting_thresholds =
  dt_motion_no_confidence :: rational
  dt_committee_normal :: rational
  dt_committee_no_confidence :: rational
  dt_update_constitution :: rational
  dt_hard_fork_initiation :: rational
  dt_pp_network_group :: rational
  dt_pp_economic_group :: rational
  dt_pp_technical_group :: rational
  dt_pp_governance_group :: rational
  dt_treasury_withdrawal :: rational

record parameter_update =
  pu_pool_pledge_influence :: "rational option"
  pu_expansion_rate :: "rational option"
  pu_treasury_growth_rate :: "rational option"
  pu_minfee_refscript_cost_per_byte :: "rational option"
  pu_execution_costs :: "prices option"
  pu_pool_voting_thresholds :: "pool_voting_thresholds option"
  pu_drep_voting_thresholds :: "drep_voting_thresholds option"
  pu_cost_models :: "cost_models option"

datatype gov_action =
    GovParameterChange parameter_update
  | GovHardForkInitiation
  | GovTreasuryWithdrawals "(bytes \<times> u64) list"
  | GovNoConfidence
  | GovUpdateCommittee rational
  | GovNewConstitution
  | GovInformation

record pallas_proposal =
  pq_reward_account :: bytes
  pq_gov_action :: gov_action

record pallas_input =
  pi_transaction_id :: bytes
  pi_index :: u64

datatype pallas_tag = TagSpend | TagMint | TagCert | TagReward | TagVote | TagPropose

text \<open>\<open>PlutusData\<close>; lists and maps of definite and indefinite length are alike.\<close>

datatype plutus_data =
    ConstrData u64 "u64 option" "plutus_data list"
  | MapData "(plutus_data \<times> plutus_data) list"
  | ArrayData "plutus_data list"
  | IntData int
  | BigUIntData bytes
  | BigNIntData bytes
  | BytesData bytes

record pallas_redeemer =
  px_tag :: pallas_tag
  px_index :: u32
  px_data :: plutus_data
  px_ex_units :: ex_units

record pallas_tx =
  pb_inputs :: "pallas_input list"
  pb_reference_inputs :: "pallas_input list option"
  pb_collateral :: "pallas_input list option"
  pb_outputs :: "pallas_output list"
  pb_withdrawals :: "(bytes \<times> u64) list option"
  pb_certificates :: "pallas_certificate list option"
  pb_voters :: "bytes list option"
  pb_proposals :: "pallas_proposal list option"
  pb_donation :: "u64 option"
  pb_treasury_value :: "u64 option"
  pb_redeemers :: "pallas_redeemer list option"
  pb_raw :: bytes

type_synonym read_address = "bytes \<Rightarrow> string + pallas_address"

subsection \<open>Refusals for every language\<close>

text \<open>\<open>enumerate().find_map\<close>.\<close>

definition first_refused :: "(nat \<Rightarrow> 'a \<Rightarrow> 'e option) \<Rightarrow> 'a list \<Rightarrow> 'e option" where
  "first_refused f xs = find_map (\<lambda>(i, x). f i x) (enumerate 0 xs)"

definition or_else :: "'e option \<Rightarrow> 'e option \<Rightarrow> 'e option" where
  "or_else a b = (case a of Some e \<Rightarrow> Some e | None \<Rightarrow> b)"

definition at_index :: "string \<Rightarrow> nat \<Rightarrow> string" where
  "at_index field i = field @ ''['' @ decimal i @ '']''"

definition reward_account_refusal :: "read_address \<Rightarrow> bytes \<Rightarrow> string \<Rightarrow> phase2_error option" where
  "reward_account_refusal read account field =
     (case read account of
        Inr StakeAddress \<Rightarrow> None
      | Inr ShelleyAddress \<Rightarrow>
          Some (UnreadableTransactionField field ''it is a payment address, not a stake address'')
      | Inr ByronAddress \<Rightarrow>
          Some (UnreadableTransactionField field ''it is a Byron address, not a stake address'')
      | Inl e \<Rightarrow>
          Some (UnreadableTransactionField field (''it cannot be read as a stake address: '' @ e)))"

definition rational_refusal :: "rational \<Rightarrow> string \<Rightarrow> phase2_error option" where
  "rational_refusal v field =
     (if ra_denominator v = 0
      then Some (UnreadableTransactionField field
        (''the rational number '' @ number (ra_numerator v) @ ''/'' @ number (ra_denominator v)
         @ '' has denominator 0''))
      else None)"

definition withdrawal_refusal :: "read_address \<Rightarrow> pallas_tx \<Rightarrow> phase2_error option" where
  "withdrawal_refusal read tx =
     (case pb_withdrawals tx of
        None \<Rightarrow> None
      | Some withdrawals \<Rightarrow>
          first_refused
            (\<lambda>i (account, _). reward_account_refusal read account (at_index ''withdrawals'' i))
            withdrawals)"

text \<open>The tokens of a policy, then the policies, in order.\<close>

definition legacy_value_fault :: "legacy_value \<Rightarrow> string option" where
  "legacy_value_fault v =
     (case v of
        LegacyCoin coin \<Rightarrow> None
      | LegacyMultiasset coin assets \<Rightarrow>
          find_map (\<lambda>(policy, tokens).
              if tokens = [] then Some (''policy '' @ hex_encode policy @ '' holds no tokens'')
              else find_map (\<lambda>(name, quantity).
                     if quantity = 0
                     then Some (''token '' @ hex_encode policy @ ''.'' @ hex_encode name
                       @ '' has quantity 0'')
                     else None) tokens)
            assets)"

definition output_refusal :: "read_address \<Rightarrow> nat \<Rightarrow> pallas_output \<Rightarrow> phase2_error option" where
  "output_refusal read i out =
     (let address = (case out of LegacyOutput a v \<Rightarrow> a | PostAlonzoOutput a d \<Rightarrow> a)
      in case read address of
           Inl e \<Rightarrow>
             Some (UnreadableOutput (of_nat i) (''its address cannot be read: '' @ e))
         | Inr ByronAddress \<Rightarrow> Some ByronAddressNotAllowed
         | Inr _ \<Rightarrow>
             (case out of
                LegacyOutput a v \<Rightarrow> map_option (UnreadableOutput (of_nat i)) (legacy_value_fault v)
              | PostAlonzoOutput a d \<Rightarrow> None))"

definition named_rationals :: "parameter_update \<Rightarrow> (string \<times> rational) list" where
  "named_rationals u =
     (case pu_pool_pledge_influence u of Some r \<Rightarrow> [(''pool_pledge_influence'', r)] | None \<Rightarrow> [])
     @ (case pu_expansion_rate u of Some r \<Rightarrow> [(''expansion_rate'', r)] | None \<Rightarrow> [])
     @ (case pu_treasury_growth_rate u of Some r \<Rightarrow> [(''treasury_growth_rate'', r)] | None \<Rightarrow> [])
     @ (case pu_minfee_refscript_cost_per_byte u of
          Some r \<Rightarrow> [(''minfee_refscript_cost_per_byte'', r)] | None \<Rightarrow> [])
     @ (case pu_execution_costs u of
          Some p \<Rightarrow>
            [(''execution_costs.mem_price'', pr_mem_price p),
             (''execution_costs.step_price'', pr_step_price p)]
        | None \<Rightarrow> [])
     @ (case pu_pool_voting_thresholds u of
          Some t \<Rightarrow>
            [(''pool_voting_thresholds.motion_no_confidence'', pt_motion_no_confidence t),
             (''pool_voting_thresholds.committee_normal'', pt_committee_normal t),
             (''pool_voting_thresholds.committee_no_confidence'', pt_committee_no_confidence t),
             (''pool_voting_thresholds.hard_fork_initiation'', pt_hard_fork_initiation t),
             (''pool_voting_thresholds.security_voting_threshold'', pt_security_voting_threshold t)]
        | None \<Rightarrow> [])
     @ (case pu_drep_voting_thresholds u of
          Some t \<Rightarrow>
            [(''drep_voting_thresholds.motion_no_confidence'', dt_motion_no_confidence t),
             (''drep_voting_thresholds.committee_normal'', dt_committee_normal t),
             (''drep_voting_thresholds.committee_no_confidence'', dt_committee_no_confidence t),
             (''drep_voting_thresholds.update_constitution'', dt_update_constitution t),
             (''drep_voting_thresholds.hard_fork_initiation'', dt_hard_fork_initiation t),
             (''drep_voting_thresholds.pp_network_group'', dt_pp_network_group t),
             (''drep_voting_thresholds.pp_economic_group'', dt_pp_economic_group t),
             (''drep_voting_thresholds.pp_technical_group'', dt_pp_technical_group t),
             (''drep_voting_thresholds.pp_governance_group'', dt_pp_governance_group t),
             (''drep_voting_thresholds.treasury_withdrawal'', dt_treasury_withdrawal t)]
        | None \<Rightarrow> [])"

definition parameter_update_refusal :: "parameter_update \<Rightarrow> string \<Rightarrow> phase2_error option" where
  "parameter_update_refusal u field =
     find_map (\<lambda>(name, v).
         rational_refusal v (field @ ''.gov_action.parameter_update.'' @ name))
       (named_rationals u)"

definition governance_action_refusal ::
  "read_address \<Rightarrow> gov_action \<Rightarrow> string \<Rightarrow> phase2_error option" where
  "governance_action_refusal read action field =
     (case action of
        GovTreasuryWithdrawals withdrawals \<Rightarrow>
          first_refused
            (\<lambda>i (account, _). reward_account_refusal read account
               (at_index (field @ ''.gov_action.withdrawals'') i))
            withdrawals
      | GovUpdateCommittee quorum \<Rightarrow> rational_refusal quorum (field @ ''.gov_action.quorum'')
      | GovParameterChange u \<Rightarrow> parameter_update_refusal u field
      | _ \<Rightarrow> None)"

definition proposal_refusal :: "read_address \<Rightarrow> nat \<Rightarrow> pallas_proposal \<Rightarrow> phase2_error option" where
  "proposal_refusal read i p =
     (let field = at_index ''proposal_procedures'' i
      in or_else (reward_account_refusal read (pq_reward_account p) (field @ ''.reward_account''))
           (governance_action_refusal read (pq_gov_action p) field))"

definition transaction_refusal :: "read_address \<Rightarrow> pallas_tx \<Rightarrow> phase2_error option" where
  "transaction_refusal read tx =
     or_else (withdrawal_refusal read tx)
       (or_else (first_refused (output_refusal read) (pb_outputs tx))
         (case pb_proposals tx of
            Some proposals \<Rightarrow> first_refused (proposal_refusal read) proposals
          | None \<Rightarrow> None))"

subsection \<open>Refusals of a language\<close>

fun language_to_string :: "language \<Rightarrow> string" where
  "language_to_string PlutusV1 = ''PlutusV1''"
| "language_to_string PlutusV2 = ''PlutusV2''"
| "language_to_string PlutusV3 = ''PlutusV3''"

fun conway_certificate_name :: "pallas_certificate \<Rightarrow> string option" where
  "conway_certificate_name PVoteDeleg = Some ''VoteDeleg''"
| "conway_certificate_name PStakeVoteDeleg = Some ''StakeVoteDeleg''"
| "conway_certificate_name PStakeRegDeleg = Some ''StakeRegDeleg''"
| "conway_certificate_name PVoteRegDeleg = Some ''VoteRegDeleg''"
| "conway_certificate_name PStakeVoteRegDeleg = Some ''StakeVoteRegDeleg''"
| "conway_certificate_name PAuthCommitteeHot = Some ''AuthCommitteeHot''"
| "conway_certificate_name PResignCommitteeCold = Some ''ResignCommitteeCold''"
| "conway_certificate_name PRegDRepCert = Some ''RegDRepCert''"
| "conway_certificate_name PUnRegDRepCert = Some ''UnRegDRepCert''"
| "conway_certificate_name PUpdateDRepCert = Some ''UpdateDRepCert''"
| "conway_certificate_name _ = None"

fun has_inline_datum :: "pallas_output \<Rightarrow> bool" where
  "has_inline_datum (PostAlonzoOutput a (InlineData d)) = True"
| "has_inline_datum out = False"

definition unsupported_field :: "pallas_tx \<Rightarrow> string option" where
  "unsupported_field tx =
     (if (case pb_voters tx of Some votes \<Rightarrow> votes \<noteq> [] | None \<Rightarrow> False) then Some ''voting_procedures''
      else if pb_proposals tx \<noteq> None then Some ''proposal_procedures''
      else if pb_donation tx \<noteq> None then Some ''treasury_donation''
      else if pb_treasury_value tx \<noteq> None then Some ''current_treasury_value''
      else None)"

definition script_context_refusal :: "pallas_tx \<Rightarrow> language \<Rightarrow> phase2_error option" where
  "script_context_refusal tx language =
     (if language = PlutusV1 \<and> list_ex has_inline_datum (pb_outputs tx)
      then Some InlineDatumNotAllowedForPlutusV1
      else if language = PlutusV1 \<or> language = PlutusV2 then
        or_else
          (case pb_certificates tx of
             Some certificates \<Rightarrow>
               first_refused (\<lambda>i c.
                   map_option (\<lambda>name. CertificateNotSupportedInPlutusV1V2 (of_nat i) name
                       (language_to_string language))
                     (conway_certificate_name c))
                 certificates
           | None \<Rightarrow> None)
          (map_option (\<lambda>field. FieldNotSupportedInPlutusV1V2 field (language_to_string language))
             (unsupported_field tx))
      else None)"

end
