(* ===== verification/Phase2_Context.thy ===== *)
theory Phase2_Context
  imports Phase2_Guard
begin

text \<open>
  The script context as the Data a script is applied to
  (\<^verbatim>\<open>src/src/validators/phase_2/context_data.rs\<close>): the cost models of parameter changes are taken
  out of the context, the evaluator translates the rest, and each proposal gets them back where
  the ledger writes them. The translation of the evaluator and the decoder of the body's bytes
  are arguments.
\<close>

subsection \<open>Cost models as Data\<close>

definition COST_MODELS_KEY :: nat where "COST_MODELS_KEY = 18"
definition PROPOSAL_PROCEDURES_KEY :: u64 where "PROPOSAL_PROCEDURES_KEY = 20"
definition TX_INFO_REDEEMERS :: nat where "TX_INFO_REDEEMERS = 9"
definition TX_INFO_PROPOSAL_PROCEDURES :: nat where "TX_INFO_PROPOSAL_PROCEDURES = 13"
definition PROPOSING :: u64 where "PROPOSING = 5"
definition PARAMETER_CHANGE :: u64 where "PARAMETER_CHANGE = 0"

text \<open>Per language key its parameters, keys ascending; a repeated key keeps its last value.\<close>

type_synonym languages = "(u64 \<times> i64 list) list"

fun put_language :: "u64 \<Rightarrow> i64 list \<Rightarrow> languages \<Rightarrow> languages" where
  "put_language k v [] = [(k, v)]"
| "put_language k v ((j, w) # ls) =
     (if k < j then (k, v) # (j, w) # ls
      else if k = j then (k, v) # ls
      else (j, w) # put_language k v ls)"

definition languages_of :: "(u64 \<times> i64 list) list \<Rightarrow> languages" where
  "languages_of entries = foldl (\<lambda>ls (k, v). put_language k v ls) [] entries"

definition known_languages :: "cost_models \<Rightarrow> languages" where
  "known_languages models =
     languages_of (List.map_filter (\<lambda>(language, parameters). map_option (Pair (of_nat language)) parameters)
       (enumerate 0 [cm_plutus_v1 models, cm_plutus_v2 models, cm_plutus_v3 models]))"

definition cost_models_data :: "languages \<Rightarrow> plutus_data" where
  "cost_models_data ls =
     MapData (map (\<lambda>(language, parameters).
         (IntData (uint language), ArrayData (map (\<lambda>p. IntData (sint p)) parameters))) ls)"

subsection \<open>The cost models of the proposals\<close>

text \<open>The readers of the \<open>minicbor\<close> decoder the code calls; \<open>None\<close> where it fails.\<close>

record body_decoder =
  bd_map :: "bytes \<Rightarrow> (u64 \<times> bytes) list option"
  bd_set_of_arrays :: "bytes \<Rightarrow> bytes list list option"
  bd_array :: "bytes \<Rightarrow> bytes list option"
  bd_u64 :: "bytes \<Rightarrow> u64 option"
  bd_cost_models :: "bytes \<Rightarrow> (u64 \<times> i64 list) list option"

definition last_entry :: "u64 \<Rightarrow> (u64 \<times> bytes) list \<Rightarrow> bytes option" where
  "last_entry key entries = map_option snd (find (\<lambda>(k, _). k = key) (rev entries))"

definition raw_languages :: "body_decoder \<Rightarrow> bytes list \<Rightarrow> languages option" where
  "raw_languages bd proposal =
     Option.bind (nth_opt proposal 2) (\<lambda>raw_action.
     Option.bind (bd_array bd raw_action) (\<lambda>action.
     Option.bind (nth_opt action 0) (\<lambda>raw_kind.
     Option.bind (bd_u64 bd raw_kind) (\<lambda>kind.
       if kind \<noteq> PARAMETER_CHANGE then None
       else
         Option.bind (nth_opt action 2) (\<lambda>raw_update.
         Option.bind (bd_map bd raw_update) (\<lambda>update.
         Option.bind (last_entry (of_nat COST_MODELS_KEY) update) (\<lambda>raw_models.
         map_option languages_of (bd_cost_models bd raw_models))))))))"

definition raw_proposal_cost_models :: "body_decoder \<Rightarrow> bytes \<Rightarrow> languages option list option" where
  "raw_proposal_cost_models bd body =
     Option.bind (bd_map bd body) (\<lambda>entries.
     Option.bind (last_entry PROPOSAL_PROCEDURES_KEY entries) (\<lambda>raw_proposals.
     map_option (map (raw_languages bd)) (bd_set_of_arrays bd raw_proposals)))"

definition proposal_cost_models :: "body_decoder \<Rightarrow> pallas_tx \<Rightarrow> plutus_data option list" where
  "proposal_cost_models bd tx =
     (case pb_proposals tx of
        None \<Rightarrow> []
      | Some proposals \<Rightarrow>
          (let raw = raw_proposal_cost_models bd (pb_raw tx)
           in map (\<lambda>(index, proposal).
                case pq_gov_action proposal of
                  GovParameterChange update \<Rightarrow>
                    map_option (\<lambda>decoded.
                        cost_models_data
                          (case Option.bind raw (\<lambda>raw. Option.bind (nth_opt raw index) id) of
                             Some languages \<Rightarrow> languages | None \<Rightarrow> known_languages decoded))
                      (pu_cost_models update)
                | _ \<Rightarrow> None)
              (enumerate 0 proposals)))"

subsection \<open>Putting them back\<close>

definition constructor_index :: "u64 \<Rightarrow> u64 option \<Rightarrow> u64 option" where
  "constructor_index tag any_constructor =
     (if 121 \<le> tag \<and> tag \<le> 127 then Some (tag - 121)
      else if 1280 \<le> tag \<and> tag \<le> 1400 then Some (tag - 1280 + 7)
      else if tag = 102 then any_constructor
      else None)"

text \<open>The fields of a constructor with a given index; the new fields take their place.\<close>

fun constr_fields :: "plutus_data \<Rightarrow> u64 \<Rightarrow> plutus_data list option" where
  "constr_fields (ConstrData tag any fs) index =
     (if constructor_index tag any = Some index then Some fs else None)"
| "constr_fields d index = None"

fun with_fields :: "plutus_data \<Rightarrow> plutus_data list \<Rightarrow> plutus_data" where
  "with_fields (ConstrData tag any fs) new = ConstrData tag any new"
| "with_fields d new = d"

fun list_items :: "plutus_data \<Rightarrow> plutus_data list option" where
  "list_items (ArrayData items) = Some items"
| "list_items d = None"

fun map_entries :: "plutus_data \<Rightarrow> (plutus_data \<times> plutus_data) list option" where
  "map_entries (MapData entries) = Some entries"
| "map_entries d = None"

fun data_integer :: "plutus_data \<Rightarrow> int option" where
  "data_integer (IntData i) = Some i"
| "data_integer d = None"

definition key_above :: "plutus_data \<Rightarrow> bool" where
  "key_above key = (case data_integer key of Some k \<Rightarrow> int COST_MODELS_KEY < k | None \<Rightarrow> False)"

definition insert_models ::
  "plutus_data \<Rightarrow> (plutus_data \<times> plutus_data) list \<Rightarrow> (plutus_data \<times> plutus_data) list" where
  "insert_models models params =
     takeWhile (\<lambda>(key, _). \<not> key_above key) params
     @ (IntData (int COST_MODELS_KEY), models)
     # dropWhile (\<lambda>(key, _). \<not> key_above key) params"

definition restore_in_proposal :: "plutus_data \<Rightarrow> plutus_data \<Rightarrow> plutus_data option" where
  "restore_in_proposal models proposal =
     (case constr_fields proposal 0 of
        Some [deposit, account, action] \<Rightarrow>
          (case constr_fields action PARAMETER_CHANGE of
             Some [prev, params, guardrail] \<Rightarrow>
               map_option (\<lambda>entries.
                   with_fields proposal [deposit, account,
                     with_fields action [prev, MapData (insert_models models entries), guardrail]])
                 (map_entries params)
           | _ \<Rightarrow> None)
      | _ \<Rightarrow> None)"

definition usize_of_int :: "int \<Rightarrow> nat option" where
  "usize_of_int i = (if 0 \<le> i \<and> i \<le> int usize_max then Some (nat i) else None)"

definition restore_in_proposing ::
  "plutus_data option list \<Rightarrow> plutus_data \<Rightarrow> plutus_data option" where
  "restore_in_proposing cost_models purpose =
     (case constr_fields purpose PROPOSING of
        Some [index, proposal] \<Rightarrow>
          Option.bind (Option.bind (data_integer index) usize_of_int) (\<lambda>i.
          Option.bind (nth_opt cost_models i) (\<lambda>entry.
            case entry of
              Some models \<Rightarrow>
                map_option (\<lambda>p. with_fields purpose [index, p]) (restore_in_proposal models proposal)
            | None \<Rightarrow> Some purpose))
      | _ \<Rightarrow> Some purpose)"

fun traverse :: "('a \<Rightarrow> 'b option) \<Rightarrow> 'a list \<Rightarrow> 'b list option" where
  "traverse f [] = Some []"
| "traverse f (x # xs) = Option.bind (f x) (\<lambda>y. map_option (Cons y) (traverse f xs))"

text \<open>\<open>zip\<close> stops at the shorter list; the items past it stay.\<close>

fun restore_proposals ::
  "plutus_data list \<Rightarrow> plutus_data option list \<Rightarrow> plutus_data list option" where
  "restore_proposals (p # ps) (m # ms) =
     Option.bind (case m of Some models \<Rightarrow> restore_in_proposal models p | None \<Rightarrow> Some p) (\<lambda>p.
       map_option (Cons p) (restore_proposals ps ms))"
| "restore_proposals ps ms = Some ps"

definition restore_tx_info ::
  "plutus_data option list \<Rightarrow> plutus_data \<Rightarrow> plutus_data option" where
  "restore_tx_info cost_models tx_info =
     Option.bind (constr_fields tx_info 0) (\<lambda>fs.
     Option.bind (Option.bind (nth_opt fs TX_INFO_PROPOSAL_PROCEDURES) list_items) (\<lambda>proposals.
     Option.bind (restore_proposals proposals cost_models) (\<lambda>proposals.
     Option.bind (Option.bind (nth_opt fs TX_INFO_REDEEMERS) map_entries) (\<lambda>redeemers.
     map_option (\<lambda>redeemers.
         with_fields tx_info
           (fs[TX_INFO_PROPOSAL_PROCEDURES := ArrayData proposals,
                   TX_INFO_REDEEMERS := MapData redeemers]))
       (traverse (\<lambda>(purpose, value).
           map_option (\<lambda>p. (p, value)) (restore_in_proposing cost_models purpose)) redeemers)))))"

definition restore_cost_models ::
  "plutus_data option list \<Rightarrow> plutus_data \<Rightarrow> plutus_data option" where
  "restore_cost_models cost_models d =
     (case constr_fields d 0 of
        Some [tx_info, redeemer, script_info] \<Rightarrow>
          Option.bind (restore_tx_info cost_models tx_info) (\<lambda>tx_info.
            map_option (\<lambda>script_info. with_fields d [tx_info, redeemer, script_info])
              (restore_in_proposing cost_models script_info))
      | _ \<Rightarrow> None)"

subsection \<open>The context\<close>

text \<open>
  A V1 or V2 context is opaque; of a V3 context the code reads the proposals, the purposes of
  the redeemers and the script's own purpose. \<open>'i\<close> is what else the evaluator put there.
\<close>

datatype script_info = ProposingInfo nat pallas_proposal | OtherInfo bytes

datatype 'i script_context =
    LegacyContext 'i
  | ContextV3 "pallas_proposal list" "(script_info \<times> bytes) list" script_info 'i

definition without_cost_models :: "pallas_proposal \<Rightarrow> pallas_proposal" where
  "without_cost_models p =
     (case pq_gov_action p of
        GovParameterChange update \<Rightarrow>
          p\<lparr>pq_gov_action := GovParameterChange (update\<lparr>pu_cost_models := None\<rparr>)\<rparr>
      | _ \<Rightarrow> p)"

fun info_without_cost_models :: "script_info \<Rightarrow> script_info" where
  "info_without_cost_models (ProposingInfo i p) = ProposingInfo i (without_cost_models p)"
| "info_without_cost_models (OtherInfo bs) = OtherInfo bs"

definition script_context_data ::
  "body_decoder \<Rightarrow> ('i script_context \<Rightarrow> plutus_data) \<Rightarrow> pallas_tx \<Rightarrow> 'i script_context \<Rightarrow>
     string + plutus_data" where
  "script_context_data bd translate tx context =
     (let cost_models = proposal_cost_models bd tx in
      if list_all (\<lambda>m. m = None) cost_models then Inr (translate context)
      else case context of
             LegacyContext i \<Rightarrow> Inr (translate context)
           | ContextV3 proposals redeemers purpose i \<Rightarrow>
               (case restore_cost_models cost_models
                       (translate (ContextV3 (map without_cost_models proposals)
                          (map (\<lambda>(info, v). (info_without_cost_models info, v)) redeemers)
                          (info_without_cost_models purpose) i)) of
                  None \<Rightarrow> Inl ''the script context has an unexpected shape''
                | Some d \<Rightarrow> Inr d))"

end
