(* ===== verification/Phase2_Eval.thy ===== *)
theory Phase2_Eval
  imports Phase2_Context
begin

text \<open>
  One redeemer evaluated (\<^verbatim>\<open>src/src/validators/phase_2/eval_redeemer.rs\<close>). The Plutus evaluator
  is a record of the functions the code calls; content it would panic on is refused first.
\<close>

type_synonym u16 = "16 word"

record slot_config =
  sl_zero_time :: u64
  sl_zero_slot :: u64
  sl_slot_length :: u32

fun slot_config_network :: "network_type \<Rightarrow> slot_config" where
  "slot_config_network Mainnet =
     \<lparr>sl_zero_time = 1596059091000, sl_zero_slot = 4492800, sl_slot_length = 1000\<rparr>"
| "slot_config_network Preview =
     \<lparr>sl_zero_time = 1666656000000, sl_zero_slot = 0, sl_slot_length = 1000\<rparr>"
| "slot_config_network Preprod =
     \<lparr>sl_zero_time = 1654041600000 + 1728000000, sl_zero_slot = 86400, sl_slot_length = 1000\<rparr>"

text \<open>A UTxO in the evaluator's form: address, value, datum, script reference.\<close>

datatype pallas_value = CoinValue u64 | MultiassetValue u64 "(bytes \<times> (bytes \<times> u64) list) list"

datatype datum_option = DatumByHash bytes | DatumInline plutus_data

record resolved_input =
  rs_input :: pallas_input
  rs_address :: bytes
  rs_value :: pallas_value
  rs_datum :: "datum_option option"
  rs_script_ref :: "bytes option"

text \<open>A run of the machine: what it cost, what it logged, how it ended.\<close>

record machine_result =
  mr_mem :: i64
  mr_cpu :: i64
  mr_logs :: "string list"
  mr_error :: "string option"

record ex_budget =
  eb_mem :: i64
  eb_cpu :: i64

record ('info, 'i, 'p) evaluator =
  ev_read_address :: read_address
  ev_body_decoder :: body_decoder
  ev_find_script ::
    "pallas_tx \<Rightarrow> resolved_input list \<Rightarrow> pallas_redeemer \<Rightarrow>
       string + (language \<times> bytes) \<times> plutus_data option"
  ev_tx_info :: "language \<Rightarrow> pallas_tx \<Rightarrow> resolved_input list \<Rightarrow> slot_config \<Rightarrow> string + 'info"
  ev_script_context ::
    "'info \<Rightarrow> pallas_redeemer \<Rightarrow> plutus_data option \<Rightarrow> 'i script_context option"
  ev_context_json :: "'i script_context \<Rightarrow> string option"
  ev_to_plutus_data :: "'i script_context \<Rightarrow> plutus_data"
  ev_data_bytes :: "plutus_data \<Rightarrow> bytes"
  ev_program :: "bytes \<Rightarrow> string + 'p"
  ev_apply :: "'p \<Rightarrow> plutus_data \<Rightarrow> 'p"
  ev_eval_as :: "'p \<Rightarrow> language \<Rightarrow> u16 \<Rightarrow> i64 list \<Rightarrow> ex_budget \<Rightarrow> machine_result"
  ev_eval_version :: "'p \<Rightarrow> language \<Rightarrow> u16 \<Rightarrow> machine_result"

datatype validator_tag = Mint | Spend | Cert | Propose | Vote | Reward

record eval_redeemer_result =
  er_tag :: validator_tag
  er_index :: u64
  er_provided_ex_units :: ex_units
  er_calculated_ex_units :: ex_units
  er_logs :: "string list"
  er_success :: bool
  er_error :: "string option"
  er_script_context_bytes :: "string option"
  er_script_context :: "string option"
  er_script_bytes :: "string option"
  er_plutus_version :: "string option"
  er_redeemer_bytes :: "string option"
  er_datum_bytes :: "string option"

fun redeemer_tag_to_string :: "pallas_tag \<Rightarrow> string" where
  "redeemer_tag_to_string TagMint = ''Mint''"
| "redeemer_tag_to_string TagSpend = ''Spend''"
| "redeemer_tag_to_string TagCert = ''Cert''"
| "redeemer_tag_to_string TagReward = ''Reward''"
| "redeemer_tag_to_string TagVote = ''Vote''"
| "redeemer_tag_to_string TagPropose = ''Propose''"

fun map_tag_to_redeemer_tag :: "pallas_tag \<Rightarrow> validator_tag" where
  "map_tag_to_redeemer_tag TagMint = Mint"
| "map_tag_to_redeemer_tag TagSpend = Spend"
| "map_tag_to_redeemer_tag TagCert = Cert"
| "map_tag_to_redeemer_tag TagPropose = Propose"
| "map_tag_to_redeemer_tag TagVote = Vote"
| "map_tag_to_redeemer_tag TagReward = Reward"

fun language_to_version_string :: "language \<Rightarrow> string" where
  "language_to_version_string PlutusV1 = ''V1''"
| "language_to_version_string PlutusV2 = ''V2''"
| "language_to_version_string PlutusV3 = ''V3''"

fun model_of :: "cost_models \<Rightarrow> language \<Rightarrow> i64 list option" where
  "model_of models PlutusV1 = cm_plutus_v1 models"
| "model_of models PlutusV2 = cm_plutus_v2 models"
| "model_of models PlutusV3 = cm_plutus_v3 models"

definition script_ran :: "phase2_error option \<Rightarrow> bool" where
  "script_ran e = (case e of None \<Rightarrow> True | Some (MachineError m) \<Rightarrow> True | _ \<Rightarrow> False)"

type_synonym evaluated = "eval_redeemer_result \<times> phase2_error option"

definition failed_result :: "pallas_redeemer \<Rightarrow> phase2_error \<Rightarrow> evaluated" where
  "failed_result r e =
     (\<lparr>er_tag = map_tag_to_redeemer_tag (px_tag r), er_index = ucast (px_index r),
       er_provided_ex_units = px_ex_units r, er_calculated_ex_units = \<lparr>eu_mem = 0, eu_steps = 0\<rparr>,
       er_logs = [], er_success = False, er_error = Some (phase2_error_text e),
       er_script_context_bytes = None, er_script_context = None, er_script_bytes = None,
       er_plutus_version = None, er_redeemer_bytes = None, er_datum_bytes = None\<rparr>,
      Some e)"

definition refused_redeemer_result ::
  "('info, 'i, 'p) evaluator \<Rightarrow> pallas_redeemer \<Rightarrow> phase2_error \<Rightarrow> language \<times> bytes \<Rightarrow>
     plutus_data option \<Rightarrow> evaluated" where
  "refused_redeemer_result ev r e script d =
     (case failed_result r e of (result, e) \<Rightarrow>
       (result\<lparr>er_script_bytes := Some (hex_encode (snd script)),
               er_plutus_version := Some (language_to_version_string (fst script)),
               er_redeemer_bytes := Some (hex_encode (ev_data_bytes ev (px_data r))),
               er_datum_bytes := map_option (\<lambda>d. hex_encode (ev_data_bytes ev d)) d\<rparr>, e))"

definition is_v3 :: "'i script_context \<Rightarrow> bool" where
  "is_v3 context = (case context of ContextV3 ps rs p i \<Rightarrow> True | LegacyContext i \<Rightarrow> False)"

text \<open>A V3 script takes its context alone; the others take datum, redeemer and context.\<close>

definition applied ::
  "('info, 'i, 'p) evaluator \<Rightarrow> 'p \<Rightarrow> bool \<Rightarrow> plutus_data option \<Rightarrow> plutus_data \<Rightarrow> plutus_data \<Rightarrow> 'p" where
  "applied ev program v3 d redeemer_data context_data =
     (if v3 then ev_apply ev program context_data
      else
        ev_apply ev
          (ev_apply ev (case d of Some d \<Rightarrow> ev_apply ev program d | None \<Rightarrow> program) redeemer_data)
          context_data)"

definition do_eval_redeemer ::
  "('info, 'i, 'p) evaluator \<Rightarrow> pallas_tx \<Rightarrow> i64 list option \<Rightarrow> ex_budget \<Rightarrow> u16 \<Rightarrow> language \<Rightarrow>
     plutus_data option \<Rightarrow> pallas_redeemer \<Rightarrow> 'info \<Rightarrow> string \<Rightarrow> 'p \<Rightarrow> phase2_error + evaluated" where
  "do_eval_redeemer ev tx costs budget protocol_major lang d r info script_hex program =
     (case ev_script_context ev info r d of
        None \<Rightarrow> Inl (ExtraneousRedeemer (redeemer_tag_to_string (px_tag r)) (ucast (px_index r)))
      | Some context \<Rightarrow>
          (case script_context_data (ev_body_decoder ev) (ev_to_plutus_data ev) tx context of
             Inl e \<Rightarrow> Inl (BuildTxContextError e)
           | Inr context_data \<Rightarrow>
               (let p = applied ev program (is_v3 context) d (px_data r) context_data;
                    run = (case costs of
                             Some costs \<Rightarrow> ev_eval_as ev p lang protocol_major costs budget
                           | None \<Rightarrow> ev_eval_version ev p lang protocol_major);
                    e = map_option MachineError (mr_error run)
                in Inr
                  (\<lparr>er_tag = map_tag_to_redeemer_tag (px_tag r), er_index = ucast (px_index r),
                    er_provided_ex_units = px_ex_units r,
                    er_calculated_ex_units = \<lparr>eu_mem = mr_mem run, eu_steps = mr_cpu run\<rparr>,
                    er_logs = mr_logs run, er_success = (e = None),
                    er_error = map_option phase2_error_text e,
                    er_script_context_bytes = Some (hex_encode (ev_data_bytes ev context_data)),
                    er_script_context = ev_context_json ev context,
                    er_script_bytes = Some script_hex,
                    er_plutus_version = Some (language_to_version_string lang),
                    er_redeemer_bytes = Some (hex_encode (ev_data_bytes ev (px_data r))),
                    er_datum_bytes = map_option (\<lambda>d. hex_encode (ev_data_bytes ev d)) d\<rparr>,
                   e))))"

text \<open>The arguments of a run, checked in order: cost model, context information, program.\<close>

definition run_script ::
  "('info, 'i, 'p) evaluator \<Rightarrow> pallas_tx \<Rightarrow> resolved_input list \<Rightarrow> slot_config \<Rightarrow>
     cost_models option \<Rightarrow> ex_budget \<Rightarrow> u16 \<Rightarrow> pallas_redeemer \<Rightarrow> language \<times> bytes \<Rightarrow>
     plutus_data option \<Rightarrow> phase2_error + evaluated" where
  "run_script ev tx utxos slots models budget protocol_major r script d =
     (case script of (lang, bs) \<Rightarrow>
       (case map_option (\<lambda>ms. model_of ms lang) models of
          Some None \<Rightarrow> Inl (CostModelNotFound (language_to_string lang))
        | model \<Rightarrow>
            (case ev_tx_info ev lang tx utxos slots of
               Inl e \<Rightarrow>
                 Inl (parse_build_context_error e (redeemer_tag_to_string (px_tag r))
                   (ucast (px_index r)))
             | Inr info \<Rightarrow>
                 (case ev_program ev bs of
                    Inl e \<Rightarrow> Inl (ScriptDecodeError e)
                  | Inr program \<Rightarrow>
                      do_eval_redeemer ev tx (Option.bind model id) budget protocol_major lang d r
                        info (hex_encode bs) program))))"

definition eval_redeemer ::
  "('info, 'i, 'p) evaluator \<Rightarrow> pallas_tx \<Rightarrow> resolved_input list \<Rightarrow> slot_config \<Rightarrow>
     pallas_redeemer \<Rightarrow> cost_models option \<Rightarrow> ex_budget \<Rightarrow> u16 \<Rightarrow> evaluated" where
  "eval_redeemer ev tx utxos slots r models budget protocol_major =
     (case withdrawal_refusal (ev_read_address ev) tx of
        Some e \<Rightarrow> failed_result r e
      | None \<Rightarrow>
          (let found = ev_find_script ev tx utxos r;
               refusal = or_else (transaction_refusal (ev_read_address ev) tx)
                 (case found of
                    Inr (script, d) \<Rightarrow> script_context_refusal tx (fst script)
                  | Inl e \<Rightarrow> None)
           in case refusal of
                Some e \<Rightarrow>
                  (case found of
                     Inr (script, d) \<Rightarrow> refused_redeemer_result ev r e script d
                   | Inl e' \<Rightarrow> failed_result r e)
              | None \<Rightarrow>
                  (case found of
                     Inr (script, d) \<Rightarrow>
                       (case run_script ev tx utxos slots models budget protocol_major r script d of
                          Inl e \<Rightarrow> failed_result r e
                        | Inr result \<Rightarrow> result)
                   | Inl e \<Rightarrow>
                       failed_result r
                         (parse_script_lookup_error e (redeemer_tag_to_string (px_tag r))
                           (ucast (px_index r))))))"

end
