(* ===== verification/Script_Refs.thy ===== *)
theory Script_Refs
  imports Csl_Transaction
begin

text \<open>
  The script references of the input context (\<^verbatim>\<open>src/src/validators/helpers.rs\<close>): how
  one is read, what is known of one nested too deep for the serialization library, and the size
  the ledger charges for it. The decoder's verdict on well-formedness is the argument
  \<open>well_formed_error\<close>.
\<close>

record unexamined_script_ref =
  us_script_hash :: bytes
  us_size :: u64
  us_reason :: string

definition check_cbor_hex ::
  "csl \<Rightarrow> (bytes \<Rightarrow> decode_error option) \<Rightarrow> string \<Rightarrow> csl_shape \<Rightarrow> string + bytes" where
  "check_cbor_hex cs well_formed_error text shape =
     check_hex (cs_hex_decode cs)
       (\<lambda>bs. check_cbor (cs_minicbor cs) well_formed_error bs shape) text"

definition normalize_script_ref ::
  "csl \<Rightarrow> (bytes \<Rightarrow> decode_error option) \<Rightarrow> string \<Rightarrow> string + csl_script" where
  "normalize_script_ref cs well_formed_error text =
     (if take 2 text = ''82'' then
        (case check_cbor_hex cs well_formed_error text ScriptRef of
           Inl e \<Rightarrow> Inl (''Failed to decode script ref hex: '' @ e)
         | Inr bs \<Rightarrow>
             (case cs_script_ref_of_bytes cs (cs_encode_tag_24 cs bs) of
                Inl _ \<Rightarrow> Inl ''Failed to decode script ref hex''
              | Inr script \<Rightarrow> Inr script))
      else
        (case check_cbor_hex cs well_formed_error text ScriptRef of
           Inl e \<Rightarrow> Inl (''Failed to parse script ref: '' @ e @ '' - with ref: '' @ text)
         | Inr bs \<Rightarrow>
             (case cs_script_ref_of_bytes cs bs of
                Inl e \<Rightarrow> Inl (''Failed to parse script ref: '' @ e @ '' - with ref: '' @ text)
              | Inr script \<Rightarrow> Inr script)))"

text \<open>The payload under tag 24, when it is the whole reference; a bare reference is itself.\<close>

definition script_ref_inner :: "minicbor \<Rightarrow> bytes \<Rightarrow> bytes option" where
  "script_ref_inner d bs =
     (if take 2 bs = [0xd8, 0x18] then
        (case mc_tag d bs 0 of
           Inl _ \<Rightarrow> None
         | Inr (_, pos) \<Rightarrow>
             (case mc_bytes d bs pos of
                Inl _ \<Rightarrow> None
              | Inr (payload, pos) \<Rightarrow> if pos \<noteq> length bs then None else Some payload))
      else Some bs)"

definition unexamined_script_ref_of ::
  "csl \<Rightarrow> (bytes \<Rightarrow> decode_error option) \<Rightarrow> string \<Rightarrow> unexamined_script_ref option" where
  "unexamined_script_ref_of cs well_formed_error text =
     (case cs_hex_decode cs text of
        Inl _ \<Rightarrow> None
      | Inr bs \<Rightarrow>
          (case nesting_refusal_of (cs_minicbor cs) well_formed_error bs ScriptRef Csl of
             None \<Rightarrow> None
           | Some reason \<Rightarrow>
               (case script_ref_inner (cs_minicbor cs) bs of
                  None \<Rightarrow> None
                | Some inner \<Rightarrow>
                    if length inner < 3 \<or> inner ! 0 \<noteq> 0x82 \<or> inner ! 1 \<noteq> 0x00 then None
                    else
                      let script = drop 2 inner in
                      if well_formed_error script \<noteq> None then None
                      else
                        (case cs_script_hash_of_bytes cs (cs_blake2b_224 cs (0x00 # script)) of
                           None \<Rightarrow> None
                         | Some hash \<Rightarrow>
                             Some \<lparr>us_script_hash = hash, us_size = of_nat (length script),
                                   us_reason = reason\<rparr>))))"

definition reference_script_size ::
  "csl \<Rightarrow> (bytes \<Rightarrow> decode_error option) \<Rightarrow> string \<Rightarrow> string + u64" where
  "reference_script_size cs well_formed_error text =
     (case unexamined_script_ref_of cs well_formed_error text of
        Some unexamined \<Rightarrow> Inr (us_size unexamined)
      | None \<Rightarrow>
          (case normalize_script_ref cs well_formed_error text of
             Inl e \<Rightarrow> Inl e
           | Inr script \<Rightarrow>
               (case script of
                  NativeScript bs \<Rightarrow> Inr (of_nat (length bs))
                | PlutusScript version bs \<Rightarrow> Inr (of_nat (length bs))
                | NoScript \<Rightarrow> Inr 0)))"

end
