(* ===== verification/Validation_Result.thy ===== *)
theory Validation_Result
  imports Csl_Transaction
begin

text \<open>
  What a validation answers (\<^verbatim>\<open>src/src/validators/validation_result.rs\<close>) and the phase 1
  errors and warnings the modelled validators report
  (\<^verbatim>\<open>src/src/validators/phase_1/errors.rs\<close>).

  A reported error is the pair of the error and its location, the two arguments of
  \<open>ValidationPhase1Error::new\<close>; the message and the hint stored beside them are texts computed
  from the error alone. A hash set of the code is a set. The results of phase 2 are left
  abstract: they are type parameters of the result.
\<close>

datatype err_voter =
    ErrCommitteeHotScriptHash string
  | ErrCommitteeHotKeyHash string
  | ErrDRepScriptHash string
  | ErrDRepKeyHash string
  | ErrStakingPoolKeyHash string

record script_data_decomposition =
  sd_encoding_format :: string
  sd_redeemers_cbor :: "string option"
  sd_redeemers_count :: u32
  sd_datums_cbor :: "string option"
  sd_datums_count :: "u32 option"
  sd_cost_models_cbor :: "string option"
  sd_plutus_versions_used :: "string list"
  sd_hash_input_description :: string

text \<open>The errors the validators build; a voter stored as JSON is the voter itself.\<close>

datatype (plugins only: code size) phase1_error =
    BadInputsUTxO tx_input
  | OutsideValidityIntervalUTxO u64 u64 u64
  | MaxTxSizeUTxO u64 u64
  | InputSetEmptyUTxO
  | FeeTooSmallUTxO u64 u64 fee_decomposition
  | ValueNotConservedUTxO val val val
  | WrongNetwork "string set"
  | WrongNetworkWithdrawal "string set"
  | WrongNetworkInTxBody u8 u8
  | OutputTooSmallUTxO i128 i128
  | CollateralReturnTooSmall i128 i128
  | OutputsValueTooBig u32 u32
  | InsufficientCollateral i128 i128
  | ExUnitsTooBigUTxO u64 u64 u64 u64
  | CalculatedCollateralContainsNonAdaAssets
  | CollateralInputContainsNonAdaAssets string
  | CollateralIsLockedByScript string
  | TooManyCollateralInputs u32 u32
  | NoCollateralInputs
  | IncorrectTotalCollateralField i128 i128
  | InvalidSignature string
  | ExtraneousSignature string
  | NativeScriptIsUnsuccessful string
  | MissingVKeyWitnesses string
  | MissingScriptWitnesses string
  | MissingRedeemer string u32
  | ExtraneousScriptWitnesses string
  | StakeAlreadyRegistered string
  | StakeNotRegistered string
  | StakeNonZeroAccountBalance string u64
  | RewardAccountNotExisting string
  | WrongRequestedWithdrawalAmount i128 i128 string
  | StakePoolNotRegistered string
  | WrongRetirementEpoch u64 u64 u64 u64
  | StakePoolCostTooLow u64 u64
  | InvalidCommitteeVote err_voter string
  | DRepIncorrectDeposit i128 i128
  | DRepDeregistrationWrongRefund i128 i128
  | DelegateeDRepNotRegistered string u32
  | StakeRegistrationWrongDeposit i128 i128
  | StakeDeregistrationWrongRefund i128 i128
  | PoolRegistrationWrongDeposit i128 i128
  | CommitteeHasPreviouslyResigned local_credential
  | TreasuryValueMismatch u64 u64
  | RefScriptsSizeTooBig u64 u64
  | WithdrawalNotAllowedBecauseNotDelegatedToDRep string
  | CommitteeIsUnknown local_credential
  | GovActionsDoNotExist "governance_action_id list"
  | ProposalProcedureNetworkIdMismatch string u8
  | TreasuryWithdrawalsNetworkIdMismatch string u8
  | VotingProposalIncorrectDeposit i128 i128 u32
  | DisallowedVoters "(err_voter \<times> governance_action_id) list"
  | ConflictingCommitteeUpdate local_credential
  | VotingOnExpiredGovAction governance_action_id
  | InvalidConstitutionPolicyHash "string option" "string option"
  | VoterDoNotExist err_voter
  | ZeroTreasuryWithdrawals governance_action_id
  | ProposalReturnAccountDoesNotExist string
  | TreasuryWithdrawalReturnAccountsDoNotExist string
  | AuxiliaryDataHashMismatch string "string option"
  | AuxiliaryDataHashMissing
  | AuxiliaryDataHashPresentButNotExpected
  | GenesisKeyDelegationCertificateIsNotSupported
  | MoveInstantaneousRewardsCertificateIsNotSupported
  | MissingDatum string
  | ExtraneousDatumWitnesses string
  | ScriptDataHashMismatch "string option" "string option" "script_data_decomposition option"
  | ReferenceInputOverlapsWithInput tx_input

datatype (plugins only: code size) phase1_warning =
    FeeIsBiggerThanMinFee u64 u64 fee_decomposition
  | InputsAreNotSorted
  | WithdrawalsAreNotSorted
  | CollateralIsUnnecessary
  | TotalCollateralIsNotDeclared
  | CollateralInputUsesRewardAddress string
  | CannotCheckStakeDeregistrationRefund
  | CannotCheckDRepDeregistrationRefund
  | PoolAlreadyRegistered string
  | DRepAlreadyRegistered string
  | DRepNotRegistered u32
  | DelegationToRetiringPool string u32
  | DuplicateRegistrationInTx string string u32
  | DuplicateCommitteeColdResignationInTx local_credential u32
  | DuplicateCommitteeHotRegistrationInTx local_credential u32
  | NativeScriptNotExamined string string

type_synonym located_error = "phase1_error \<times> string"
type_synonym located_warning = "phase1_warning \<times> string"

record ('e, 'w, 'r) validation_result =
  vr_errors :: "located_error list"
  vr_warnings :: "located_warning list"
  vr_phase2_errors :: "'e list"
  vr_phase2_warnings :: "'w list"
  vr_eval_redeemer_results :: "'r list"

definition new_empty :: "('e, 'w, 'r) validation_result" where
  "new_empty =
     \<lparr>vr_errors = [], vr_warnings = [], vr_phase2_errors = [], vr_phase2_warnings = [],
      vr_eval_redeemer_results = []\<rparr>"

definition new_phase_1 ::
  "located_error list \<Rightarrow> located_warning list \<Rightarrow> ('e, 'w, 'r) validation_result" where
  "new_phase_1 errors warnings =
     \<lparr>vr_errors = errors, vr_warnings = warnings, vr_phase2_errors = [], vr_phase2_warnings = [],
      vr_eval_redeemer_results = []\<rparr>"

definition new_phase_2 ::
  "'e list \<Rightarrow> 'w list \<Rightarrow> 'r list \<Rightarrow> ('e, 'w, 'r) validation_result" where
  "new_phase_2 errors warnings results =
     \<lparr>vr_errors = [], vr_warnings = [], vr_phase2_errors = errors, vr_phase2_warnings = warnings,
      vr_eval_redeemer_results = results\<rparr>"

definition append_result ::
  "('e, 'w, 'r) validation_result \<Rightarrow> ('e, 'w, 'r) validation_result \<Rightarrow>
     ('e, 'w, 'r) validation_result" where
  "append_result r other =
     \<lparr>vr_errors = vr_errors r @ vr_errors other,
      vr_warnings = vr_warnings r @ vr_warnings other,
      vr_phase2_errors = vr_phase2_errors r @ vr_phase2_errors other,
      vr_phase2_warnings = vr_phase2_warnings r @ vr_phase2_warnings other,
      vr_eval_redeemer_results = vr_eval_redeemer_results r @ vr_eval_redeemer_results other\<rparr>"

text \<open>A check that reports at most one error, and one run over an indexed list.\<close>

definition report :: "bool \<Rightarrow> 'a \<Rightarrow> 'a list" where
  "report b e = (if b then [e] else [])"

lemma in_report [simp]: "x \<in> set (report b e) \<longleftrightarrow> b \<and> x = e"
  by (auto simp: report_def)

lemma report_Nil [simp]: "report b e = [] \<longleftrightarrow> \<not> b"
  by (simp add: report_def)

definition indexed :: "string \<Rightarrow> nat \<Rightarrow> string" where
  "indexed at i = at @ decimal i"

lemma phase_1_lists [simp]:
  "vr_errors (new_phase_1 errors warnings) = errors"
  "vr_warnings (new_phase_1 errors warnings) = warnings"
  by (simp_all add: new_phase_1_def)

text \<open>Results are combined by concatenation, in the order of the validators.\<close>

lemma append_new_empty: "append_result new_empty r = r" "append_result r new_empty = r"
  by (cases r; simp add: append_result_def new_empty_def)+

lemma append_assoc:
  "append_result (append_result a b) c = append_result a (append_result b c)"
  by (simp add: append_result_def)

end
