(* ===== verification/Governance.thy ===== *)
theory Governance
  imports Validation_Result
begin

text \<open>
  The governance validator (\<^verbatim>\<open>src/src/validators/phase_1/validation/governance.rs\<close>):
  the votes of a transaction, voter by voter and action by action, then its proposals.
\<close>

subsection \<open>Voters\<close>

definition hex_or_empty :: "bytes option \<Rightarrow> string" where
  "hex_or_empty h = (case h of Some bs \<Rightarrow> hex_encode bs | None \<Rightarrow> [])"

definition keyhash_of :: "credential option \<Rightarrow> bytes option" where
  "keyhash_of c = (case c of Some c \<Rightarrow> cr_keyhash c | None \<Rightarrow> None)"

definition scripthash_of :: "credential option \<Rightarrow> bytes option" where
  "scripthash_of c = (case c of Some c \<Rightarrow> cr_scripthash c | None \<Rightarrow> None)"

definition err_voter_from_csl :: "voter \<Rightarrow> err_voter" where
  "err_voter_from_csl v =
     (case vo_kind v of
        ConstitutionalCommitteeHotKeyHash \<Rightarrow>
          ErrCommitteeHotKeyHash (hex_or_empty (keyhash_of (vo_committee_hot v)))
      | ConstitutionalCommitteeHotScriptHash \<Rightarrow>
          ErrCommitteeHotScriptHash (hex_or_empty (scripthash_of (vo_committee_hot v)))
      | DRepKeyHash \<Rightarrow> ErrDRepKeyHash (hex_or_empty (keyhash_of (vo_drep v)))
      | DRepScriptHash \<Rightarrow> ErrDRepScriptHash (hex_or_empty (scripthash_of (vo_drep v)))
      | StakingPoolKeyHash \<Rightarrow> ErrStakingPoolKeyHash (hex_or_empty (vo_pool v)))"

text \<open>A hot credential: whether it is a script's, and its hash.\<close>

definition hot_credential :: "credential \<Rightarrow> (bool \<times> bytes) option" where
  "hot_credential c =
     (case cr_kind c of
        KeyKind \<Rightarrow> map_option (Pair False) (cr_keyhash c)
      | ScriptKind \<Rightarrow> map_option (Pair True) (cr_scripthash c))"

definition collect_in_tx_committee_hot_auths :: "tx_body \<Rightarrow> (bool \<times> bytes) set" where
  "collect_in_tx_committee_hot_auths body =
     (case tb_certs body of
        None \<Rightarrow> {}
      | Some certs \<Rightarrow>
          set (List.map_filter
            (\<lambda>cert. case cert of CommitteeHotAuth cold hot \<Rightarrow> hot_credential hot | _ \<Rightarrow> None) certs))"

definition check_voter_existence ::
  "csl \<Rightarrow> voter \<Rightarrow> nat \<Rightarrow> input_context \<Rightarrow> (bool \<times> bytes) set \<Rightarrow> located_error list" where
  "check_voter_existence cs v index ic in_tx_hot_auths =
     (let at = indexed ''transaction.body.voting_procedures.'' index;
          missing_voter = (VoterDoNotExist (err_voter_from_csl v), at);
          drep_check =
            (case vo_drep v of
               None \<Rightarrow> []
             | Some c \<Rightarrow>
                 let bech = (case cs_drep_bech32 cs c of Some s \<Rightarrow> s | None \<Rightarrow> []);
                     registered =
                       (case find_drep_context ic bech of Some d \<Rightarrow> dc_is_registered d | None \<Rightarrow> False)
                 in report (\<not> registered) missing_voter);
          committee_check =
            (case vo_committee_hot v of
               None \<Rightarrow> []
             | Some hot \<Rightarrow>
                 let local_cred = csl_credential_to_local_credential hot;
                     in_tx_authed =
                       (case hot_credential hot of Some h \<Rightarrow> h \<in> in_tx_hot_auths | None \<Rightarrow> False);
                     current = find_current_committee_member_by_hot_credential ic local_cred;
                     potential = find_potential_committee_member_by_hot_credential ic local_cred
                 in if \<not> in_tx_authed \<and> current = None \<and> potential = None then [missing_voter]
                    else
                      (case current of
                         Some m \<Rightarrow>
                           report (cc_is_resigned m)
                             (InvalidCommitteeVote (err_voter_from_csl v)
                                ''Committee member has previously resigned'', at)
                       | None \<Rightarrow>
                           (case potential of
                              Some m \<Rightarrow>
                                report (cc_is_resigned m)
                                  (InvalidCommitteeVote (err_voter_from_csl v)
                                     ''Potential committee member has resigned'', at)
                            | None \<Rightarrow> [])))
      in case vo_kind v of
           DRepKeyHash \<Rightarrow> drep_check
         | DRepScriptHash \<Rightarrow> drep_check
         | StakingPoolKeyHash \<Rightarrow>
             (case vo_pool v of
                None \<Rightarrow> []
              | Some pool \<Rightarrow>
                  report
                    (\<not> (case find_pool_context ic (hex_encode pool) of
                          Some p \<Rightarrow> pc_is_registered p | None \<Rightarrow> False))
                    missing_voter)
         | ConstitutionalCommitteeHotKeyHash \<Rightarrow> committee_check
         | ConstitutionalCommitteeHotScriptHash \<Rightarrow> committee_check)"

subsection \<open>The voter and action matrix\<close>

definition SECURITY_GROUP_PARAMETERS :: "(nat \<times> string list) list" where
  "SECURITY_GROUP_PARAMETERS =
     [(0, [''txfeeperbyte'', ''minfeea'', ''minfeecoefficienta'']),
      (1, [''txfeefixed'', ''minfeeb'', ''minfeeconstantb'']),
      (2, [''maxblockbodysize'', ''maxblocksize'', ''maxbbsize'']),
      (3, [''maxtxsize'', ''maxtransactionsize'']),
      (4, [''maxblockheadersize'', ''maxbhsize'']),
      (17, [''utxocostperbyte'', ''coinsperutxobyte'', ''coinsperutxosize'', ''adaperutxobyte'']),
      (21, [''maxblockexecutionunits'', ''maxblockexunits'', ''maxblockexmem'', ''maxblockexsteps'']),
      (22, [''maxvaluesize'', ''maxvalsize'']),
      (30, [''govactiondeposit'', ''governanceactiondeposit'']),
      (33, [''minfeerefscriptcostperbyte'', ''minfeerefscriptcoinsperbyte'',
            ''minfeerefscriptcoinsperbytes'', ''refscriptcoinsperbyte'', ''referencescriptcostperbyte''])]"

text \<open>\<open>is_ascii_alphanumeric\<close> and \<open>to_ascii_lowercase\<close>.\<close>

definition is_ascii_alphanumeric :: "char \<Rightarrow> bool" where
  "is_ascii_alphanumeric c =
     (let n = of_char c :: nat
      in (48 \<le> n \<and> n \<le> 57) \<or> (65 \<le> n \<and> n \<le> 90) \<or> (97 \<le> n \<and> n \<le> 122))"

definition to_ascii_lowercase :: "char \<Rightarrow> char" where
  "to_ascii_lowercase c =
     (let n = of_char c :: nat in if 65 \<le> n \<and> n \<le> 90 then char_of (n + 32) else c)"

definition normalise_parameter_name :: "string \<Rightarrow> string" where
  "normalise_parameter_name name = map to_ascii_lowercase (filter is_ascii_alphanumeric name)"

definition changes_security_group :: "string list option \<Rightarrow> bool" where
  "changes_security_group changed =
     (case changed of
        None \<Rightarrow> False
      | Some names \<Rightarrow>
          list_ex (\<lambda>name.
              let name = normalise_parameter_name name
              in list_ex (\<lambda>(key, spellings). name = decimal key \<or> name \<in> set spellings)
                   SECURITY_GROUP_PARAMETERS)
            names)"

definition disallowed_voter_for_action ::
  "voter \<Rightarrow> gov_action_context \<Rightarrow> governance_action_id \<Rightarrow> (err_voter \<times> governance_action_id) option" where
  "disallowed_voter_for_action v action action_id =
     (let committee =
            (case gc_action_type action of
               NoConfidenceAction \<Rightarrow> True | UpdateCommitteeAction \<Rightarrow> True | _ \<Rightarrow> False);
          is_disallowed =
            (case vo_kind v of
               StakingPoolKeyHash \<Rightarrow>
                 (case gc_action_type action of
                    ParameterChangeAction \<Rightarrow> \<not> changes_security_group (gc_changed_parameters action)
                  | NewConstitutionAction \<Rightarrow> True
                  | TreasuryWithdrawalsAction \<Rightarrow> True
                  | _ \<Rightarrow> False)
             | ConstitutionalCommitteeHotKeyHash \<Rightarrow> committee
             | ConstitutionalCommitteeHotScriptHash \<Rightarrow> committee
             | DRepKeyHash \<Rightarrow> False
             | DRepScriptHash \<Rightarrow> False)
      in if is_disallowed then Some (err_voter_from_csl v, action_id) else None)"

definition check_gov_action_ref ::
  "governance_action_id \<Rightarrow> voter \<Rightarrow> string \<Rightarrow> input_context \<Rightarrow> located_error list" where
  "check_gov_action_ref action_id v at ic =
     (case find_gov_action_context ic action_id of
        None \<Rightarrow> [(GovActionsDoNotExist [action_id], at)]
      | Some action \<Rightarrow>
          report (\<not> gc_is_active action) (VotingOnExpiredGovAction action_id, at)
          @ (case disallowed_voter_for_action v action action_id of
               Some pair \<Rightarrow> [(DisallowedVoters [pair], at)]
             | None \<Rightarrow> []))"

definition validate_votes :: "csl \<Rightarrow> tx_body \<Rightarrow> input_context \<Rightarrow> located_error list" where
  "validate_votes cs body ic =
     (case tb_voting_procedures body of
        None \<Rightarrow> []
      | Some procedures \<Rightarrow>
          let in_tx_hot_auths = collect_in_tx_committee_hot_auths body
          in concat (map (\<lambda>(i, v, action_ids).
                 check_voter_existence cs v i ic in_tx_hot_auths
                 @ concat (map (\<lambda>(j, action_id).
                       check_gov_action_ref action_id v
                         (indexed (indexed ''transaction.body.voting_procedures.'' i @ ''.'') j) ic)
                     (enumerate 0 action_ids)))
               (enumerate 0 procedures)))"

subsection \<open>Proposals\<close>

definition account_registered :: "input_context \<Rightarrow> string \<Rightarrow> bool" where
  "account_registered ic bech =
     (case find_account_context ic bech of Some a \<Rightarrow> ac_is_registered a | None \<Rightarrow> False)"

definition reward_text :: "reward_address \<Rightarrow> string" where
  "reward_text r = (case ra_bech32 r of Some s \<Rightarrow> s | None \<Rightarrow> [])"

text \<open>The sum of the withdrawals is a \<open>u128\<close> whose addition saturates.\<close>

definition u128_saturating_add :: "nat \<Rightarrow> nat \<Rightarrow> nat" where
  "u128_saturating_add a b = min (2 ^ 128 - 1) (a + b)"

definition treasury_total :: "(reward_address \<times> u64 option) list \<Rightarrow> nat" where
  "treasury_total withdrawals =
     foldl (\<lambda>acc (_, coin).
         case coin of Some c \<Rightarrow> u128_saturating_add acc (unat c) | None \<Rightarrow> acc) 0 withdrawals"

lemma treasury_total_zero: "treasury_total ws = 0 \<longleftrightarrow> (\<forall>w \<in> set ws. snd w \<in> {None, Some 0})"
proof -
  have "foldl (\<lambda>acc (_, coin). case coin of Some c \<Rightarrow> u128_saturating_add acc (unat c) | None \<Rightarrow> acc) n ws = 0
      \<longleftrightarrow> n = 0 \<and> (\<forall>w \<in> set ws. snd w \<in> {None, Some 0})" for n
    by (induction ws arbitrary: n)
      (auto simp: u128_saturating_add_def min_def unat_eq_0 split: option.splits if_splits)
  then show ?thesis by (simp add: treasury_total_def)
qed

definition check_treasury_withdrawals ::
  "(reward_address \<times> u64 option) list \<Rightarrow> u32 \<Rightarrow> string \<Rightarrow> input_context \<Rightarrow> located_error list" where
  "check_treasury_withdrawals withdrawals proposal_index at ic =
     report (treasury_total withdrawals = 0)
       (ZeroTreasuryWithdrawals \<lparr>ga_tx_hash = replicate 32 0, ga_index = proposal_index\<rparr>, at)
     @ concat (map (\<lambda>(account, _).
           report (\<not> account_registered ic (reward_text account))
             (TreasuryWithdrawalReturnAccountsDoNotExist (reward_text account), at))
         withdrawals)"

definition check_committee_update_conflict ::
  "credential list \<Rightarrow> credential list \<Rightarrow> string \<Rightarrow> located_error list" where
  "check_committee_update_conflict add remove at =
     (let add_set = set (map csl_credential_to_local_credential add)
      in concat (map (\<lambda>c.
             let local_cred = csl_credential_to_local_credential c
             in report (local_cred \<in> add_set) (ConflictingCommitteeUpdate local_cred, at))
           remove))"

definition extract_prev_gov_action_id :: "governance_action \<Rightarrow> governance_action_id option" where
  "extract_prev_gov_action_id action =
     (case action of
        ParameterChange prev policy_hash \<Rightarrow> prev
      | HardForkInitiation prev \<Rightarrow> prev
      | NoConfidence prev \<Rightarrow> prev
      | UpdateCommittee prev add remove \<Rightarrow> prev
      | NewConstitution prev \<Rightarrow> prev
      | _ \<Rightarrow> None)"

text \<open>The policy hash an action supplies, when its kind is subject to the guardrails script.\<close>

definition supplied_policy :: "governance_action \<Rightarrow> string option option" where
  "supplied_policy action =
     (case action of
        ParameterChange prev policy_hash \<Rightarrow> Some (map_option hex_encode policy_hash)
      | TreasuryWithdrawals withdrawals policy_hash \<Rightarrow> Some (map_option hex_encode policy_hash)
      | _ \<Rightarrow> None)"

definition check_policy_hash ::
  "governance_action \<Rightarrow> string \<Rightarrow> input_context \<Rightarrow> located_error list" where
  "check_policy_hash action at ic =
     (case ic_constitution ic of
        None \<Rightarrow> []
      | Some constitution \<Rightarrow>
          (case supplied_policy action of
             None \<Rightarrow> []
           | Some supplied \<Rightarrow>
               let expected = co_guardrail_script_hash constitution;
                   norm = map_option (map to_ascii_lowercase)
               in report (norm supplied \<noteq> norm expected)
                    (InvalidConstitutionPolicyHash supplied expected, at)))"

definition validate_proposal :: "input_context \<Rightarrow> nat \<Rightarrow> voting_proposal \<Rightarrow> located_error list" where
  "validate_proposal ic i p =
     (let at = indexed ''transaction.body.voting_proposals.'' i;
          bech = reward_text (vp_reward_account p);
          action = vp_action p
      in report (\<not> account_registered ic bech) (ProposalReturnAccountDoesNotExist bech, at)
         @ check_policy_hash action at ic
         @ (case action of
              TreasuryWithdrawals withdrawals policy_hash \<Rightarrow>
                check_treasury_withdrawals withdrawals (of_nat i) at ic
            | UpdateCommittee prev add remove \<Rightarrow> check_committee_update_conflict add remove at
            | _ \<Rightarrow> [])
         @ (case extract_prev_gov_action_id action of
              Some prev \<Rightarrow>
                report (find_gov_action_context ic prev = None) (GovActionsDoNotExist [prev], at)
            | None \<Rightarrow> []))"

definition validate_proposals :: "tx_body \<Rightarrow> input_context \<Rightarrow> located_error list" where
  "validate_proposals body ic =
     (case tb_voting_proposals body of
        None \<Rightarrow> []
      | Some proposals \<Rightarrow> concat (map (\<lambda>(i, p). validate_proposal ic i p) (enumerate 0 proposals)))"

definition governance_validate :: "csl \<Rightarrow> tx_body \<Rightarrow> input_context \<Rightarrow> ('e, 'w, 'r) validation_result" where
  "governance_validate cs body ic =
     new_phase_1 (validate_votes cs body ic @ validate_proposals body ic) []"

end
