(* ===== verification/Phase2_Mapper.thy ===== *)
theory Phase2_Mapper
  imports Std_Text Phase2_Eval Script_Refs Governance "HOL-Library.AList"
begin

text \<open>
  The UTxOs of the input context in the evaluator's form
  (\<^verbatim>\<open>src/src/validators/phase_2/data_mapper.rs\<close>). The serialisations and decoders of the two
  libraries are a record of functions, with the order a hash map iterates in.
\<close>

record mapper_library =
  ml_address_bytes :: "address \<Rightarrow> bytes"
  ml_script_ref_bytes :: "csl_script \<Rightarrow> bytes"
  ml_decode_script_ref :: "bytes \<Rightarrow> string + bytes"
  ml_decode_data :: "bytes \<Rightarrow> string + plutus_data"
  ml_data_of_json :: "string \<Rightarrow> bytes option"
  ml_order_policies :: "(string \<times> (string \<times> string) list) list \<Rightarrow> (string \<times> (string \<times> string) list) list"

subsection \<open>Quantities\<close>

definition parse_quantity :: "string \<Rightarrow> string + u64" where
  "parse_quantity q =
     (case parse_u64_text q of
        Inl e \<Rightarrow> Inl (''Invalid quantity '' @ [CHR 0x27] @ q @ [CHR 0x27] @ '': '' @ e)
      | Inr n \<Rightarrow> Inr n)"

subsection \<open>Values\<close>

definition POLICY_ID_HEX_LEN :: nat where "POLICY_ID_HEX_LEN = 56"

type_synonym asset_mapping = "(string \<times> (string \<times> string) list) list"

definition push_asset :: "asset_mapping \<Rightarrow> string \<Rightarrow> string \<times> string \<Rightarrow> asset_mapping" where
  "push_asset mapping policy entry =
     AList.update policy
       ((case map_of mapping policy of Some entries \<Rightarrow> entries | None \<Rightarrow> []) @ [entry]) mapping"

fun split_assets :: "asset list \<Rightarrow> u64 \<Rightarrow> asset_mapping \<Rightarrow> string + u64 \<times> asset_mapping" where
  "split_assets [] coins mapping = Inr (coins, mapping)"
| "split_assets (a # rest) coins mapping =
     (if as_unit a = ''lovelace'' \<or> as_unit a = [] then
        (case parse_quantity (as_quantity a) of
           Inl e \<Rightarrow> Inl e
         | Inr n \<Rightarrow> split_assets rest n mapping)
      else if length (as_unit a) < POLICY_ID_HEX_LEN then
        Inl (''Invalid asset unit '' @ [CHR 0x27] @ as_unit a @ [CHR 0x27]
          @ '': expected a 56-character policy id followed by the asset name'')
      else
        split_assets rest coins
          (push_asset mapping (take POLICY_ID_HEX_LEN (as_unit a))
            (drop POLICY_ID_HEX_LEN (as_unit a), as_quantity a)))"

fun mapped_assets :: "csl \<Rightarrow> (string \<times> string) list \<Rightarrow> string + (bytes \<times> u64) list" where
  "mapped_assets cs [] = Inr []"
| "mapped_assets cs ((name, quantity) # rest) =
     (case cs_hex_decode cs name of
        Inl e \<Rightarrow> Inl (''Invalid asset name found: '' @ e)
      | Inr name_bytes \<Rightarrow>
          (case parse_quantity quantity of
             Inl e \<Rightarrow> Inl e
           | Inr n \<Rightarrow>
               if n = 0 then Inl (''Non-positive asset quantity: '' @ number n)
               else (case mapped_assets cs rest of
                       Inl e \<Rightarrow> Inl e | Inr others \<Rightarrow> Inr ((name_bytes, n) # others))))"

fun mapped_policies :: "csl \<Rightarrow> asset_mapping \<Rightarrow> string + (bytes \<times> (bytes \<times> u64) list) list" where
  "mapped_policies cs [] = Inr []"
| "mapped_policies cs ((policy, entries) # rest) =
     (case cs_hex_decode cs policy of
        Inl e \<Rightarrow> Inl (''Invalid policy id found: '' @ e)
      | Inr policy_bytes \<Rightarrow>
          if length policy_bytes \<noteq> 28 then Inl ''Invalid length policy id found''
          else
            (case mapped_assets cs entries of
               Inl e \<Rightarrow> Inl e
             | Inr tokens \<Rightarrow>
                 (case mapped_policies cs rest of
                    Inl e \<Rightarrow> Inl e | Inr others \<Rightarrow> Inr ((policy_bytes, tokens) # others))))"

definition to_pallas_multi_asset_value ::
  "csl \<Rightarrow> mapper_library \<Rightarrow> asset list \<Rightarrow> string + pallas_value" where
  "to_pallas_multi_asset_value cs ml assets =
     (case split_assets assets 0 [] of
        Inl e \<Rightarrow> Inl e
      | Inr (coins, mapping) \<Rightarrow>
          (case mapped_policies cs (ml_order_policies ml mapping) of
             Inl e \<Rightarrow> Inl e | Inr tokens \<Rightarrow> Inr (MultiassetValue coins tokens)))"

definition to_pallas_value :: "csl \<Rightarrow> mapper_library \<Rightarrow> asset list \<Rightarrow> string + pallas_value" where
  "to_pallas_value cs ml assets =
     (case assets of
        [a] \<Rightarrow>
          (if as_unit a = ''lovelace'' then
             (case parse_quantity (as_quantity a) of Inl e \<Rightarrow> Inl e | Inr n \<Rightarrow> Inr (CoinValue n))
           else Inl ''Invalid value'')
      | _ \<Rightarrow> to_pallas_multi_asset_value cs ml assets)"

subsection \<open>Datums and scripts\<close>

definition try_decode_from_json :: "mapper_library \<Rightarrow> string \<Rightarrow> plutus_data option" where
  "try_decode_from_json ml json =
     (case ml_data_of_json ml json of
        None \<Rightarrow> None
      | Some bs \<Rightarrow> (case ml_decode_data ml bs of Inl e \<Rightarrow> None | Inr d \<Rightarrow> Some d))"

definition hash_bytes ::
  "csl \<Rightarrow> string \<Rightarrow> string \<Rightarrow> string \<Rightarrow> string + bytes" where
  "hash_bytes cs text bad_hex bad_length =
     (case cs_hex_decode cs text of
        Inl e \<Rightarrow> Inl (bad_hex @ e)
      | Inr bs \<Rightarrow> if length bs = 32 then Inr bs else Inl bad_length)"

definition to_pallas_datum ::
  "csl \<Rightarrow> (bytes \<Rightarrow> decode_error option) \<Rightarrow> mapper_library \<Rightarrow> tx_output \<Rightarrow>
     string + datum_option option" where
  "to_pallas_datum cs wfe ml out =
     (case to_plutus_data out of
        Some inline \<Rightarrow>
          (case try_decode_from_json ml inline of
             Some d \<Rightarrow> Inr (Some (DatumInline d))
           | None \<Rightarrow>
               (case check_hex (cs_hex_decode cs)
                       (\<lambda>bs. check_pallas_cbor (cs_minicbor cs) wfe bs Item) inline of
                  Inl e \<Rightarrow> Inl (''Invalid plutus data found: '' @ e)
                | Inr bs \<Rightarrow>
                    (case ml_decode_data ml bs of
                       Inl e \<Rightarrow> Inl ''Invalid plutus data found''
                     | Inr d \<Rightarrow> Inr (Some (DatumInline d)))))
      | None \<Rightarrow>
          (case to_data_hash out of
             None \<Rightarrow> Inr None
           | Some hash \<Rightarrow>
               (case hash_bytes cs hash ''Invalid datum hash found: ''
                       ''Invalid byte length of datum hash found'' of
                  Inl e \<Rightarrow> Inl e | Inr bs \<Rightarrow> Inr (Some (DatumByHash bs)))))"

definition normalize_script_ref_raw ::
  "csl \<Rightarrow> (bytes \<Rightarrow> decode_error option) \<Rightarrow> mapper_library \<Rightarrow> string \<Rightarrow> string + bytes" where
  "normalize_script_ref_raw cs wfe ml text =
     (case normalize_script_ref cs wfe text of
        Inl e \<Rightarrow> Inl e | Inr script \<Rightarrow> Inr (ml_script_ref_bytes ml script))"

definition to_pallas_script_ref ::
  "csl \<Rightarrow> (bytes \<Rightarrow> decode_error option) \<Rightarrow> mapper_library \<Rightarrow> string option \<Rightarrow>
     string + bytes option" where
  "to_pallas_script_ref cs wfe ml script_ref =
     (case script_ref of
        None \<Rightarrow> Inr None
      | Some text \<Rightarrow>
          (case normalize_script_ref_raw cs wfe ml text of
             Inl e \<Rightarrow> Inl (''Invalid script ref found: '' @ e)
           | Inr normalized \<Rightarrow>
               (case ml_decode_script_ref ml normalized of
                  Inl e \<Rightarrow> Inl (''Invalid script found: '' @ e)
                | Inr script \<Rightarrow> Inr (Some script))))"

definition to_pallas_utxo ::
  "csl \<Rightarrow> (bytes \<Rightarrow> decode_error option) \<Rightarrow> mapper_library \<Rightarrow> utxo_context \<Rightarrow>
     string + resolved_input" where
  "to_pallas_utxo cs wfe ml u =
     (let input = ux_input (uc_utxo u); out = ux_output (uc_utxo u) in
      case hash_bytes cs (ti_tx_hash input) ''Invalid tx hash found: ''
             ''Invalid tx hash length found'' of
        Inl e \<Rightarrow> Inl e
      | Inr tx_hash \<Rightarrow>
          (case address_from_bech32 (cs_bech32_decode cs) (cs_address_of_bech32 cs) (to_address out) of
             Inl e \<Rightarrow> Inl (''Invalid address found: '' @ e)
           | Inr a \<Rightarrow>
               (case to_pallas_value cs ml (to_amount out) of
                  Inl e \<Rightarrow> Inl e
                | Inr v \<Rightarrow>
                    (case to_pallas_datum cs wfe ml out of
                       Inl e \<Rightarrow> Inl e
                     | Inr d \<Rightarrow>
                         (case to_pallas_script_ref cs wfe ml (to_script_ref out) of
                            Inl e \<Rightarrow> Inl e
                          | Inr s \<Rightarrow>
                              Inr \<lparr>rs_input = \<lparr>pi_transaction_id = tx_hash,
                                     pi_index = ucast (ti_output_index input)\<rparr>,
                                   rs_address = ml_address_bytes ml a, rs_value = v, rs_datum = d,
                                   rs_script_ref = s\<rparr>)))))"

fun to_pallas_utxos ::
  "csl \<Rightarrow> (bytes \<Rightarrow> decode_error option) \<Rightarrow> mapper_library \<Rightarrow> utxo_context list \<Rightarrow>
     string + resolved_input list" where
  "to_pallas_utxos cs wfe ml [] = Inr []"
| "to_pallas_utxos cs wfe ml (u # us) =
     (case to_pallas_utxo cs wfe ml u of
        Inl e \<Rightarrow> Inl e
      | Inr r \<Rightarrow>
          (case to_pallas_utxos cs wfe ml us of Inl e \<Rightarrow> Inl e | Inr rs \<Rightarrow> Inr (r # rs)))"

end
