(* ===== verification/Phase2_Validation.thy ===== *)
theory Phase2_Validation
  imports Phase2_Mapper
begin

text \<open>
  Phase 2 of the validation (\<^verbatim>\<open>src/src/validators/phase_2/validation.rs\<close>): the UTxOs of the
  transaction are looked up, every redeemer is evaluated, its cost is compared with its budget.
  A finding is an error or a warning with its locations.
\<close>

type_synonym phase2_error_at = "phase2_error \<times> string list"
type_synonym phase2_warning_at = "phase2_warning \<times> string list"

record phase2_result =
  p2_errors :: "phase2_error_at list"
  p2_warnings :: "phase2_warning_at list"
  p2_results :: "eval_redeemer_result list"

definition input_to_request_format :: "pallas_input \<Rightarrow> string" where
  "input_to_request_format i = hex_encode (pi_transaction_id i) @ ''#'' @ number (pi_index i)"

definition collect_tx_inputs :: "pallas_tx \<Rightarrow> string list" where
  "collect_tx_inputs tx =
     map input_to_request_format (pb_inputs tx)
     @ (case pb_reference_inputs tx of Some is \<Rightarrow> map input_to_request_format is | None \<Rightarrow> [])
     @ (case pb_collateral tx of Some is \<Rightarrow> map input_to_request_format is | None \<Rightarrow> [])"

definition utxo_key :: "utxo_context \<Rightarrow> string" where
  "utxo_key u =
     (let input = ux_input (uc_utxo u)
      in map to_ascii_lowercase (ti_tx_hash input) @ ''#''
         @ decimal (unat (ti_output_index input)))"

fun join_with :: "string \<Rightarrow> string list \<Rightarrow> string" where
  "join_with sep [] = []"
| "join_with sep [s] = s"
| "join_with sep (s # ss) = s @ sep @ join_with sep ss"

definition missed_utxos :: "string list \<Rightarrow> resolved_input list \<Rightarrow> string list" where
  "missed_utxos requests utxos =
     (let keys = set (map (\<lambda>u. input_to_request_format (rs_input u)) utxos)
      in filter (\<lambda>r. r \<notin> keys) requests)"

definition check_missed_utxos :: "string list \<Rightarrow> resolved_input list \<Rightarrow> string + unit" where
  "check_missed_utxos requests utxos =
     (let missed = missed_utxos requests utxos in
      if missed \<noteq> []
      then Inl (''Can'' @ [CHR 0x27] @ ''t get these UTXOs from API, check the network type: ''
        @ join_with '', '' missed)
      else Inr ())"

definition context_nesting_refusal ::
  "csl \<Rightarrow> (bytes \<Rightarrow> decode_error option) \<Rightarrow> mapper_library \<Rightarrow> tx_output \<Rightarrow> string option" where
  "context_nesting_refusal cs wfe ml out =
     or_else
       (Option.bind (to_script_ref out) (\<lambda>text.
          map_option us_reason (unexamined_script_ref_of cs wfe text)))
       (Option.bind (to_plutus_data out) (\<lambda>text.
          if try_decode_from_json ml text = None then
            (case cs_hex_decode cs text of
               Inl e \<Rightarrow> None
             | Inr bs \<Rightarrow> nesting_refusal_of (cs_minicbor cs) wfe bs Item Pallas)
          else None))"

definition redeemer_place :: "nat \<Rightarrow> string" where
  "redeemer_place i = indexed ''transaction.witness_set.redeemers.'' i"

definition tx_redeemers :: "pallas_tx \<Rightarrow> pallas_redeemer list" where
  "tx_redeemers tx = (case pb_redeemers tx of Some rs \<Rightarrow> rs | None \<Rightarrow> [])"

definition not_examined :: "pallas_tx \<Rightarrow> (string \<times> string) list \<Rightarrow> phase2_result" where
  "not_examined tx unexamined =
     \<lparr>p2_errors = [],
      p2_warnings =
        concat (map (\<lambda>(i, r).
            map (\<lambda>(input, reason). (ScriptContextNotExamined input reason, [redeemer_place i]))
              unexamined)
          (enumerate 0 (tx_redeemers tx))),
      p2_results = []\<rparr>"

definition protocol_major_version :: "u32 \<Rightarrow> u16" where
  "protocol_major_version major = (if unat major < 2 ^ 16 then ucast major else - 1)"

fun tag_to_tx_location :: "validator_tag \<Rightarrow> u64 \<Rightarrow> string" where
  "tag_to_tx_location Mint i = ''transaction.body.mint.'' @ number i"
| "tag_to_tx_location Spend i = ''transaction.body.inputs.'' @ number i"
| "tag_to_tx_location Cert i = ''transaction.body.certs.'' @ number i"
| "tag_to_tx_location Propose i = ''transaction.body.voting_proposals.'' @ number i"
| "tag_to_tx_location Vote i = ''transaction.body.voting_procedures.'' @ number i"
| "tag_to_tx_location Reward i = ''transaction.body.withdrawals.'' @ number i"

definition redeemer_to_tx_locations :: "eval_redeemer_result \<Rightarrow> nat \<Rightarrow> string list" where
  "redeemer_to_tx_locations r i = [tag_to_tx_location (er_tag r) (er_index r), redeemer_place i]"

definition over_budget :: "ex_units \<Rightarrow> ex_units \<Rightarrow> bool" where
  "over_budget cost budget \<longleftrightarrow> eu_mem budget < eu_mem cost \<or> eu_steps budget < eu_steps cost"

text \<open>What the evaluation of one redeemer adds; a script that never ran has no cost to compare.\<close>

definition judge_redeemer :: "phase2_result \<Rightarrow> nat \<times> evaluated \<Rightarrow> phase2_result" where
  "judge_redeemer acc entry =
     (let (i, result, e) = entry;
          places = redeemer_to_tx_locations result i;
          cost = er_calculated_ex_units result;
          budget = er_provided_ex_units result;
          acc = acc\<lparr>p2_errors := p2_errors acc @ (case e of Some e \<Rightarrow> [(e, places)] | None \<Rightarrow> []),
                    p2_results := p2_results acc @ [result]\<rparr>
      in if \<not> script_ran e then acc
         else if over_budget cost budget
         then acc\<lparr>p2_errors := p2_errors acc @ [(NoEnoughBudget cost budget, places)]\<rparr>
         else if over_budget budget cost
         then acc\<lparr>p2_warnings := p2_warnings acc @ [(BudgetIsBiggerThanExpected cost budget, places)]\<rparr>
         else acc)"

definition remaining_budget :: ex_budget where
  "remaining_budget = \<lparr>eb_mem = 9223372036854775807, eb_cpu = 9223372036854775807\<rparr>"

definition eval_all_redeemers ::
  "('info, 'i, 'p) evaluator \<Rightarrow> pallas_tx \<Rightarrow> resolved_input list \<Rightarrow> cost_models option \<Rightarrow>
     slot_config \<Rightarrow> u16 \<Rightarrow> phase2_result" where
  "eval_all_redeemers ev tx utxos models slots protocol_major =
     foldl (\<lambda>acc (i, r).
         judge_redeemer acc
           (i, eval_redeemer ev tx utxos slots r models remaining_budget protocol_major))
       \<lparr>p2_errors = [], p2_warnings = [], p2_results = []\<rparr>
       (enumerate 0 (tx_redeemers tx))"

definition unexamined_utxos ::
  "csl \<Rightarrow> (bytes \<Rightarrow> decode_error option) \<Rightarrow> mapper_library \<Rightarrow> utxo_context list \<Rightarrow>
     (string \<times> string) list" where
  "unexamined_utxos cs wfe ml referenced =
     List.map_filter (\<lambda>u.
         map_option (Pair (utxo_key u)) (context_nesting_refusal cs wfe ml (ux_output (uc_utxo u))))
       referenced"

text \<open>\<open>decode\<close> reads a Conway transaction; another era is \<open>Inr None\<close>.\<close>

definition phase_2_validation ::
  "csl \<Rightarrow> (bytes \<Rightarrow> decode_error option) \<Rightarrow> mapper_library \<Rightarrow> ('info, 'i, 'p) evaluator \<Rightarrow>
     (bytes \<Rightarrow> string + pallas_tx option) \<Rightarrow> string \<Rightarrow> input_context \<Rightarrow> string + phase2_result" where
  "phase_2_validation cs wfe ml ev decode tx_hex ic =
     (case check_hex (cs_hex_decode cs)
             (\<lambda>bs. check_pallas_cbor (cs_minicbor cs) wfe bs Transaction) tx_hex of
        Inl e \<Rightarrow> Inl e
      | Inr tx_bytes \<Rightarrow>
          (case decode tx_bytes of
             Inl e \<Rightarrow> Inl e
           | Inr None \<Rightarrow> Inl ''Invalid transaction type''
           | Inr (Some tx) \<Rightarrow>
               (let requests = collect_tx_inputs tx;
                    referenced = filter (\<lambda>u. utxo_key u \<in> set requests) (ic_utxo_set ic);
                    unexamined = unexamined_utxos cs wfe ml referenced
                in if unexamined \<noteq> [] then Inr (not_examined tx unexamined)
                   else
                     (case to_pallas_utxos cs wfe ml referenced of
                        Inl e \<Rightarrow> Inl e
                      | Inr utxos \<Rightarrow>
                          (case check_missed_utxos requests utxos of
                             Inl e \<Rightarrow> Inl e
                           | Inr _ \<Rightarrow>
                               Inr (eval_all_redeemers ev tx utxos
                                 (Some (pp_cost_models (ic_protocol_parameters ic)))
                                 (slot_config_network (ic_network_type ic))
                                 (protocol_major_version
                                   (fst (pp_protocol_version (ic_protocol_parameters ic))))))))))"

end
