(* ===== verification/Phase2_Facts.thy ===== *)
theory Phase2_Facts
  imports Phase2_Validation
begin

text \<open>
  What phase 2 reports, redeemer by redeemer; the content that reaches the evaluator; the cost
  models of a parameter change go back where they were.
\<close>

subsection \<open>Reports\<close>

definition evaluations ::
  "('info, 'i, 'p) evaluator \<Rightarrow> pallas_tx \<Rightarrow> resolved_input list \<Rightarrow> cost_models option \<Rightarrow>
     slot_config \<Rightarrow> u16 \<Rightarrow> evaluated list" where
  "evaluations ev tx utxos models slots protocol_major =
     map (\<lambda>r. eval_redeemer ev tx utxos slots r models remaining_budget protocol_major) (tx_redeemers tx)"

definition errors_at :: "nat \<times> evaluated \<Rightarrow> phase2_error_at list" where
  "errors_at x = p2_errors (judge_redeemer \<lparr>p2_errors = [], p2_warnings = [], p2_results = []\<rparr> x)"

definition warnings_at :: "nat \<times> evaluated \<Rightarrow> phase2_warning_at list" where
  "warnings_at x = p2_warnings (judge_redeemer \<lparr>p2_errors = [], p2_warnings = [], p2_results = []\<rparr> x)"

lemma judge_redeemer_appends:
  "judge_redeemer acc x =
     \<lparr>p2_errors = p2_errors acc @ errors_at x, p2_warnings = p2_warnings acc @ warnings_at x,
      p2_results = p2_results acc @ [fst (snd x)]\<rparr>"
  by (cases x, cases acc) (simp add: judge_redeemer_def errors_at_def warnings_at_def Let_def)

lemma redeemers_judged:
  "foldl (\<lambda>acc (i, r). judge_redeemer acc (i, f r)) acc xs =
     \<lparr>p2_errors = p2_errors acc @ concat (map (\<lambda>(i, r). errors_at (i, f r)) xs),
      p2_warnings = p2_warnings acc @ concat (map (\<lambda>(i, r). warnings_at (i, f r)) xs),
      p2_results = p2_results acc @ map (\<lambda>(i, r). fst (f r)) xs\<rparr>"
  by (induction xs arbitrary: acc) (auto simp: judge_redeemer_appends)

lemma snd_enumerate: "map (\<lambda>(i, r). f r) (enumerate n xs) = map f xs"
  by (induction xs arbitrary: n) simp_all

lemma eval_all_parts:
  "p2_results (eval_all_redeemers ev tx utxos models slots pm) =
     map fst (evaluations ev tx utxos models slots pm)"
  "p2_errors (eval_all_redeemers ev tx utxos models slots pm) =
     concat (map errors_at (enumerate 0 (evaluations ev tx utxos models slots pm)))"
  "p2_warnings (eval_all_redeemers ev tx utxos models slots pm) =
     concat (map warnings_at (enumerate 0 (evaluations ev tx utxos models slots pm)))"
proof -
  have *: "enumerate n (map f xs) = map (\<lambda>(i, x). (i, f x)) (enumerate n xs)"
    for n and f :: "pallas_redeemer \<Rightarrow> evaluated" and xs
    by (induction xs arbitrary: n) simp_all
  show "p2_results (eval_all_redeemers ev tx utxos models slots pm) =
      map fst (evaluations ev tx utxos models slots pm)"
    by (simp add: eval_all_redeemers_def redeemers_judged evaluations_def snd_enumerate)
  show "p2_errors (eval_all_redeemers ev tx utxos models slots pm) =
      concat (map errors_at (enumerate 0 (evaluations ev tx utxos models slots pm)))"
    "p2_warnings (eval_all_redeemers ev tx utxos models slots pm) =
      concat (map warnings_at (enumerate 0 (evaluations ev tx utxos models slots pm)))"
    unfolding eval_all_redeemers_def redeemers_judged by (simp_all add: evaluations_def * comp_def case_prod_unfold)
qed

text \<open>The answer for one redeemer: it names the redeemer, and it succeeded unless it has an error.\<close>

definition answers :: "pallas_redeemer \<Rightarrow> evaluated \<Rightarrow> bool" where
  "answers r x \<longleftrightarrow>
     er_tag (fst x) = map_tag_to_redeemer_tag (px_tag r) \<and> er_index (fst x) = ucast (px_index r) \<and>
     er_provided_ex_units (fst x) = px_ex_units r \<and> (er_success (fst x) \<longleftrightarrow> snd x = None) \<and>
     er_error (fst x) = map_option phase2_error_text (snd x) \<and>
     (\<not> script_ran (snd x) \<longrightarrow> er_calculated_ex_units (fst x) = \<lparr>eu_mem = 0, eu_steps = 0\<rparr>)"

lemma answers_failed [simp]: "answers r (failed_result r e)"
  by (simp add: answers_def failed_result_def)

lemma answers_refused [simp]: "answers r (refused_redeemer_result ev r e script d)"
  by (simp add: answers_def refused_redeemer_result_def failed_result_def)

lemma answers_do_eval:
  "do_eval_redeemer ev tx costs budget pm lang d r info script_hex program = Inr x \<Longrightarrow> answers r x"
  by (auto simp: do_eval_redeemer_def answers_def script_ran_def Let_def split: option.splits sum.splits)

lemma answers_run_script:
  "run_script ev tx utxos slots models budget pm r script d = Inr x \<Longrightarrow> answers r x"
  by (auto simp: run_script_def dest: answers_do_eval split: option.splits sum.splits prod.splits)

lemma answers_eval_redeemer: "answers r (eval_redeemer ev tx utxos slots r models budget pm)"
proof (cases "withdrawal_refusal (ev_read_address ev) tx")
  case None
  show ?thesis
  proof (cases "ev_find_script ev tx utxos r")
    case (Inl e)
    with None show ?thesis by (simp add: eval_redeemer_def Let_def split: option.split)
  next
    case (Inr found)
    obtain script d where "found = (script, d)" by (cases found)
    with None Inr show ?thesis
      by (auto simp: eval_redeemer_def Let_def split: option.split sum.split dest: answers_run_script)
  qed
qed (simp add: eval_redeemer_def)

text \<open>A redeemer leaves no error exactly when it ran to success within its budget.\<close>

lemma errors_at_Nil:
  assumes "answers r x"
  shows "errors_at (i, x) = [] \<longleftrightarrow>
    er_success (fst x) \<and> \<not> over_budget (er_calculated_ex_units (fst x)) (er_provided_ex_units (fst x))"
  using assms
  by (cases x; cases "snd x") (auto simp: errors_at_def judge_redeemer_def Let_def answers_def script_ran_def)

lemma warnings_at_member:
  "w \<in> set (warnings_at (i, x)) \<longleftrightarrow>
     w = (BudgetIsBiggerThanExpected (er_calculated_ex_units (fst x)) (er_provided_ex_units (fst x)),
          redeemer_to_tx_locations (fst x) i) \<and>
     script_ran (snd x) \<and>
     \<not> over_budget (er_calculated_ex_units (fst x)) (er_provided_ex_units (fst x)) \<and>
     over_budget (er_provided_ex_units (fst x)) (er_calculated_ex_units (fst x))"
  by (cases x) (auto simp: warnings_at_def judge_redeemer_def Let_def)

lemma set_enumerate_iff: "(i, x) \<in> set (enumerate 0 xs) \<longleftrightarrow> i < length xs \<and> x = xs ! i"
  by (auto simp: in_set_enumerate_eq)

lemma ball_enumerate: "(\<forall>(i, x) \<in> set (enumerate n xs). P x) \<longleftrightarrow> (\<forall>x \<in> set xs. P x)"
  by (induction xs arbitrary: n) auto

lemma evaluations_answer:
  assumes "(i, x) \<in> set (enumerate 0 (evaluations ev tx utxos models slots pm))"
  shows "i < length (tx_redeemers tx)" "answers (tx_redeemers tx ! i) x"
  using assms by (auto simp: set_enumerate_iff evaluations_def answers_eval_redeemer)

lemma eval_all_errors_Nil:
  "p2_errors (eval_all_redeemers ev tx utxos models slots pm) = [] \<longleftrightarrow>
     (\<forall>res \<in> set (p2_results (eval_all_redeemers ev tx utxos models slots pm)).
        er_success res \<and> \<not> over_budget (er_calculated_ex_units res) (er_provided_ex_units res))"
proof -
  let ?es = "evaluations ev tx utxos models slots pm"
  have "p2_errors (eval_all_redeemers ev tx utxos models slots pm) = [] \<longleftrightarrow>
      (\<forall>(i, x) \<in> set (enumerate 0 ?es). errors_at (i, x) = [])"
    by (auto simp: eval_all_parts)
  also have "\<dots> \<longleftrightarrow> (\<forall>(i, x) \<in> set (enumerate 0 ?es). er_success (fst x) \<and>
      \<not> over_budget (er_calculated_ex_units (fst x)) (er_provided_ex_units (fst x)))"
    by (rule ball_cong [OF refl], simp only: split_paired_all prod.case)
      (rule errors_at_Nil [OF evaluations_answer(2)])
  also have "\<dots> \<longleftrightarrow> (\<forall>x \<in> set ?es. er_success (fst x) \<and>
      \<not> over_budget (er_calculated_ex_units (fst x)) (er_provided_ex_units (fst x)))"
    by (rule ball_enumerate)
  finally show ?thesis by (simp add: eval_all_parts)
qed

lemma eval_all_results:
  assumes "i < length (tx_redeemers tx)"
  shows "length (p2_results (eval_all_redeemers ev tx utxos models slots pm)) = length (tx_redeemers tx)"
    "answers (tx_redeemers tx ! i) (evaluations ev tx utxos models slots pm ! i)"
    "p2_results (eval_all_redeemers ev tx utxos models slots pm) ! i =
       fst (evaluations ev tx utxos models slots pm ! i)"
  using assms by (simp_all add: eval_all_parts evaluations_def answers_eval_redeemer)

subsection \<open>The content that reaches the evaluator\<close>

definition stake_accounts :: "read_address \<Rightarrow> (bytes \<times> u64) list \<Rightarrow> bool" where
  "stake_accounts read entries \<longleftrightarrow> (\<forall>(account, _) \<in> set entries. read account = Inr StakeAddress)"

definition stake_withdrawals :: "read_address \<Rightarrow> pallas_tx \<Rightarrow> bool" where
  "stake_withdrawals read tx \<longleftrightarrow> (\<forall>ws. pb_withdrawals tx = Some ws \<longrightarrow> stake_accounts read ws)"

fun readable_value :: "pallas_output \<Rightarrow> bool" where
  "readable_value (LegacyOutput a (LegacyMultiasset coin assets)) =
     (\<forall>(policy, tokens) \<in> set assets. tokens \<noteq> [] \<and> (\<forall>(name, quantity) \<in> set tokens. quantity \<noteq> 0))"
| "readable_value out = True"

fun output_address :: "pallas_output \<Rightarrow> bytes" where
  "output_address (LegacyOutput a v) = a"
| "output_address (PostAlonzoOutput a d) = a"

definition readable_output :: "read_address \<Rightarrow> pallas_output \<Rightarrow> bool" where
  "readable_output read out \<longleftrightarrow>
     read (output_address out) \<in> {Inr ShelleyAddress, Inr StakeAddress} \<and> readable_value out"

fun readable_action :: "read_address \<Rightarrow> gov_action \<Rightarrow> bool" where
  "readable_action read (GovTreasuryWithdrawals ws) = stake_accounts read ws"
| "readable_action read (GovUpdateCommittee quorum) = (ra_denominator quorum \<noteq> 0)"
| "readable_action read (GovParameterChange u) =
     (\<forall>(name, v) \<in> set (named_rationals u). ra_denominator v \<noteq> 0)"
| "readable_action read action = True"

definition translatable :: "read_address \<Rightarrow> pallas_tx \<Rightarrow> bool" where
  "translatable read tx \<longleftrightarrow>
     stake_withdrawals read tx \<and>
     (\<forall>out \<in> set (pb_outputs tx). readable_output read out) \<and>
     (\<forall>ps. pb_proposals tx = Some ps \<longrightarrow>
        (\<forall>p \<in> set ps. read (pq_reward_account p) = Inr StakeAddress \<and>
           readable_action read (pq_gov_action p)))"

text \<open>What a context of an old language can hold.\<close>

definition representable :: "pallas_tx \<Rightarrow> language \<Rightarrow> bool" where
  "representable tx language \<longleftrightarrow>
     (language = PlutusV1 \<longrightarrow> (\<forall>out \<in> set (pb_outputs tx). \<not> has_inline_datum out)) \<and>
     (language \<noteq> PlutusV3 \<longrightarrow>
        (\<forall>cs. pb_certificates tx = Some cs \<longrightarrow> (\<forall>c \<in> set cs. conway_certificate_name c = None)) \<and>
        pb_voters tx \<in> {None, Some []} \<and> pb_proposals tx = None \<and> pb_donation tx = None \<and>
        pb_treasury_value tx = None)"

lemma or_else_simps [simp]: "or_else None b = b" "or_else (Some e) b = Some e"
  by (simp_all add: or_else_def)

lemma or_else_None [simp]: "or_else a b = None \<longleftrightarrow> a = None \<and> b = None"
  by (simp add: or_else_def split: option.split)

lemma first_refused_None: "first_refused f xs = None \<longleftrightarrow> (\<forall>i < length xs. f i (xs ! i) = None)"
  by (auto simp: first_refused_def find_map_None Ball_def split_paired_All set_enumerate_iff)

lemma all_nth: "(\<forall>i < length xs. P (xs ! i)) \<longleftrightarrow> (\<forall>x \<in> set xs. P x)"
  by (auto simp: all_set_conv_all_nth)

lemma reward_account_accepted:
  "reward_account_refusal read account field = None \<longleftrightarrow> read account = Inr StakeAddress"
  by (auto simp: reward_account_refusal_def split: sum.splits pallas_address.splits)

lemma rational_accepted: "rational_refusal v field = None \<longleftrightarrow> ra_denominator v \<noteq> 0"
  by (simp add: rational_refusal_def)

lemma accounts_accepted:
  "first_refused (\<lambda>i (account, _). reward_account_refusal read account (field i)) ws = None \<longleftrightarrow>
     stake_accounts read ws"
proof -
  have "first_refused (\<lambda>i (account, _). reward_account_refusal read account (field i)) ws = None \<longleftrightarrow>
      (\<forall>i < length ws. read (fst (ws ! i)) = Inr StakeAddress)"
    by (simp add: first_refused_None reward_account_accepted case_prod_unfold)
  then show ?thesis by (auto simp: stake_accounts_def all_set_conv_all_nth case_prod_unfold)
qed

lemma withdrawals_accepted: "withdrawal_refusal read tx = None \<longleftrightarrow> stake_withdrawals read tx"
  by (simp add: withdrawal_refusal_def stake_withdrawals_def accounts_accepted split: option.split)

lemma output_accepted: "output_refusal read i out = None \<longleftrightarrow> readable_output read out"
proof -
  have amount: "legacy_value_fault v = None \<longleftrightarrow> readable_value (LegacyOutput a v)" for a v
    by (cases v) (auto simp: legacy_value_fault_def find_map_None case_prod_unfold split: if_splits)
  show ?thesis
    by (cases out)
      (auto simp: output_refusal_def readable_output_def amount split: sum.splits pallas_address.splits)
qed

lemma action_accepted: "governance_action_refusal read action field = None \<longleftrightarrow> readable_action read action"
  by (cases action)
    (auto simp: governance_action_refusal_def accounts_accepted rational_accepted
      parameter_update_refusal_def find_map_None)

lemma transaction_accepted: "transaction_refusal read tx = None \<longleftrightarrow> translatable read tx"
proof -
  have "first_refused (output_refusal read) outs = None \<longleftrightarrow> (\<forall>out \<in> set outs. readable_output read out)"
    for outs
    by (auto simp: first_refused_None output_accepted all_set_conv_all_nth)
  moreover have "first_refused (proposal_refusal read) ps = None \<longleftrightarrow>
      (\<forall>p \<in> set ps. read (pq_reward_account p) = Inr StakeAddress \<and> readable_action read (pq_gov_action p))"
    for ps
    by (auto simp: first_refused_None proposal_refusal_def Let_def reward_account_accepted
        action_accepted all_set_conv_all_nth)
  ultimately show ?thesis
    by (auto simp: transaction_refusal_def translatable_def withdrawals_accepted split: option.split)
qed

lemma context_accepted: "script_context_refusal tx language = None \<longleftrightarrow> representable tx language"
proof -
  have "first_refused (\<lambda>i c. map_option (f i) (conway_certificate_name c)) cs = None \<longleftrightarrow>
      (\<forall>c \<in> set cs. conway_certificate_name c = None)"
    for cs and f :: "nat \<Rightarrow> string \<Rightarrow> phase2_error"
    by (auto simp: first_refused_None all_set_conv_all_nth)
  then show ?thesis
    by (cases language; cases "pb_voters tx")
      (auto simp: script_context_refusal_def representable_def unsupported_field_def list_ex_iff
        split: option.split)
qed

text \<open>
  The lookup of a script sees only transactions whose withdrawal keys are stake addresses, and
  the context builder only content it can translate: elsewhere they may be anything.
\<close>

lemma evaluator_guarded:
  assumes find: "stake_withdrawals (ev_read_address ev) tx \<Longrightarrow> f tx utxos r = ev_find_script ev tx utxos r"
    and info: "\<And>language. \<lbrakk>translatable (ev_read_address ev) tx; representable tx language\<rbrakk> \<Longrightarrow>
      g language tx utxos slots = ev_tx_info ev language tx utxos slots"
  shows "eval_redeemer (ev\<lparr>ev_find_script := f, ev_tx_info := g\<rparr>) tx utxos slots r models budget pm =
    eval_redeemer ev tx utxos slots r models budget pm"
proof (cases "withdrawal_refusal (ev_read_address ev) tx")
  case (Some e)
  then show ?thesis by (simp add: eval_redeemer_def)
next
  case None
  then have found: "f tx utxos r = ev_find_script ev tx utxos r"
    by (simp add: find withdrawals_accepted)
  have run: "run_script (ev\<lparr>ev_find_script := f, ev_tx_info := g\<rparr>) tx utxos slots models budget pm r
        script d = run_script ev tx utxos slots models budget pm r script d"
    if "transaction_refusal (ev_read_address ev) tx = None"
      "script_context_refusal tx (fst script) = None" for script d
    using that
    by (cases script; cases models)
      (simp_all add: run_script_def transaction_accepted context_accepted info do_eval_redeemer_def
        applied_def split: option.split sum.split)
  show ?thesis
  proof (cases "ev_find_script ev tx utxos r")
    case (Inl e)
    with None found show ?thesis
      by (simp add: eval_redeemer_def Let_def split: option.split)
  next
    case (Inr x)
    obtain script d where x: "x = (script, d)" by (cases x)
    show ?thesis
    proof (cases "or_else (transaction_refusal (ev_read_address ev) tx)
        (script_context_refusal tx (fst script))")
      case (Some e)
      with None Inr x found show ?thesis
        by (simp add: eval_redeemer_def Let_def refused_redeemer_result_def)
    next
      case refusal: None
      then have "run_script (ev\<lparr>ev_find_script := f, ev_tx_info := g\<rparr>) tx utxos slots models budget pm
          r script d = run_script ev tx utxos slots models budget pm r script d"
        using run by simp
      with None Inr x found refusal show ?thesis
        by (simp add: eval_redeemer_def Let_def)
    qed
  qed
qed

subsection \<open>Cost models of parameter changes\<close>

text \<open>
  The languages read from the body, and the context that
  gets them back. A context \<open>without\<close> the models of its proposals is the one \<open>with\<close> them, entry 18
  of each parameter map taken out.
\<close>

subsection \<open>Languages\<close>

definition ascending_languages :: "languages \<Rightarrow> bool" where
  "ascending_languages ls \<longleftrightarrow> sorted_wrt (<) (map fst ls)"

lemma put_language_keys: "set (map fst (put_language k v ls)) = insert k (set (map fst ls))"
  by (induction k v ls rule: put_language.induct) auto

lemma put_language_ascending: "ascending_languages ls \<Longrightarrow> ascending_languages (put_language k v ls)"
proof (induction k v ls rule: put_language.induct)
  case (2 k v j w ls)
  have "\<forall>i \<in> set (map fst (put_language k v ls)). j < i" if "\<not> k < j" "k \<noteq> j"
    using that 2 put_language_keys [of k v ls] by (auto simp: ascending_languages_def)
  with 2 show ?case by (auto simp: ascending_languages_def)
qed (simp add: ascending_languages_def)

lemma put_language_lookup:
  "ascending_languages ls \<Longrightarrow> map_of (put_language k v ls) = (map_of ls)(k \<mapsto> v)"
  by (induction k v ls rule: put_language.induct) (auto simp: ascending_languages_def fun_eq_iff)

lemma languages_of_from:
  assumes "ascending_languages ls"
  shows "ascending_languages (foldl (\<lambda>ls (k, v). put_language k v ls) ls entries) \<and>
    map_of (foldl (\<lambda>ls (k, v). put_language k v ls) ls entries) = map_of ls ++ map_of (rev entries)"
  using assms
proof (induction entries arbitrary: ls)
  case (Cons e entries)
  obtain k v where e: "e = (k, v)" by (cases e)
  from Cons.prems have "ascending_languages (put_language k v ls)" by (rule put_language_ascending)
  moreover have "map_of (put_language k v ls) = map_of ls ++ [k \<mapsto> v]"
    by (simp add: put_language_lookup [OF Cons.prems])
  ultimately show ?case
    using Cons.IH [of "put_language k v ls"] by (simp add: e map_add_assoc del: map_add_upd)
qed simp

lemma languages_of_map:
  "ascending_languages (languages_of entries)" "map_of (languages_of entries) = map_of (rev entries)"
  using languages_of_from [of "[]" entries] by (simp_all add: ascending_languages_def languages_of_def)

subsection \<open>Entry 18\<close>

definition integer_keys :: "(plutus_data \<times> plutus_data) list \<Rightarrow> int list \<Rightarrow> bool" where
  "integer_keys entries ks \<longleftrightarrow> map fst entries = map IntData ks \<and> sorted_wrt (<) ks"

definition without_entry :: "(plutus_data \<times> plutus_data) list \<Rightarrow> (plutus_data \<times> plutus_data) list" where
  "without_entry = filter (\<lambda>(key, _). key \<noteq> IntData (int COST_MODELS_KEY))"

lemma key_above_IntData [simp]: "key_above (IntData k) \<longleftrightarrow> 18 < k"
  by (simp add: key_above_def COST_MODELS_KEY_def)

lemma insert_models_above:
  assumes "\<forall>(key, v) \<in> set entries. key_above key"
  shows "insert_models m entries = (IntData 18, m) # entries"
  using assms by (cases entries) (auto simp: insert_models_def COST_MODELS_KEY_def)

lemma insert_models_restores:
  assumes "integer_keys entries ks" "(IntData 18, m) \<in> set entries"
  shows "insert_models m (without_entry entries) = entries"
  using assms
proof (induction entries arbitrary: ks)
  case (Cons e entries)
  obtain key v where e: "e = (key, v)" by (cases e)
  from Cons.prems(1) e obtain k ks' where ks: "ks = k # ks'" "key = IntData k"
    by (cases ks) (auto simp: integer_keys_def)
  with Cons.prems e have rest: "integer_keys entries ks'" and above: "\<forall>j \<in> set ks'. k < j"
    by (auto simp: integer_keys_def)
  have keys: "\<exists>j \<in> set ks'. fst x = IntData j" if "x \<in> set entries" for x
  proof -
    from that have "fst x \<in> set (map fst entries)" by auto
    also have "\<dots> = IntData ` set ks'" using rest by (simp add: integer_keys_def)
    finally show ?thesis by auto
  qed
  show ?case
  proof (cases "k = 18")
    case True
    with keys above have no: "\<forall>(key, v) \<in> set entries. key_above key \<and> key \<noteq> IntData 18"
      by fastforce
    then have "without_entry entries = entries"
      by (auto simp: without_entry_def COST_MODELS_KEY_def intro!: filter_True)
    moreover from no Cons.prems(2) e ks True have "v = m" by auto
    ultimately show ?thesis
      using insert_models_above [of entries m] no e ks True
      by (auto simp: without_entry_def COST_MODELS_KEY_def)
  next
    case False
    with Cons.prems(2) e ks have m: "(IntData 18, m) \<in> set entries" by auto
    with keys above have "k < 18" by fastforce
    with Cons.IH [OF rest m] e ks show ?thesis
      by (simp add: without_entry_def insert_models_def COST_MODELS_KEY_def)
  qed
qed simp

subsection \<open>Contexts with and without\<close>

inductive proposal_without :: "plutus_data \<Rightarrow> plutus_data \<Rightarrow> plutus_data \<Rightarrow> bool" for m where
  "\<lbrakk>constructor_index t a = Some 0; constructor_index t' a' = Some PARAMETER_CHANGE;
    integer_keys entries ks; (IntData 18, m) \<in> set entries\<rbrakk> \<Longrightarrow>
   proposal_without m
     (ConstrData t a [deposit, account, ConstrData t' a' [prev, MapData entries, guardrail]])
     (ConstrData t a [deposit, account, ConstrData t' a' [prev, MapData (without_entry entries), guardrail]])"

definition entry_without :: "plutus_data option \<Rightarrow> plutus_data \<Rightarrow> plutus_data \<Rightarrow> bool" where
  "entry_without entry p p' = (case entry of Some m \<Rightarrow> proposal_without m p p' | None \<Rightarrow> p = p')"

inductive purpose_without :: "plutus_data option list \<Rightarrow> plutus_data \<Rightarrow> plutus_data \<Rightarrow> bool" for models where
  other: "(\<And>i p. constr_fields q PROPOSING \<noteq> Some [i, p]) \<Longrightarrow> purpose_without models q q"
| proposing: "\<lbrakk>constructor_index t a = Some PROPOSING; i < length models; i \<le> usize_max;
    entry_without (models ! i) p p'\<rbrakk> \<Longrightarrow>
    purpose_without models (ConstrData t a [IntData (int i), p]) (ConstrData t a [IntData (int i), p'])"

inductive context_without :: "plutus_data option list \<Rightarrow> plutus_data \<Rightarrow> plutus_data \<Rightarrow> bool" for models where
  "\<lbrakk>constructor_index t a = Some 0; constructor_index t' a' = Some 0;
    length fs = length fs';
    TX_INFO_PROPOSAL_PROCEDURES < length fs;
    \<And>i. \<lbrakk>i \<noteq> TX_INFO_PROPOSAL_PROCEDURES; i \<noteq> TX_INFO_REDEEMERS; i < length fs\<rbrakk> \<Longrightarrow> fs ! i = fs' ! i;
    fs ! TX_INFO_PROPOSAL_PROCEDURES = ArrayData ps; fs' ! TX_INFO_PROPOSAL_PROCEDURES = ArrayData ps';
    fs ! TX_INFO_REDEEMERS = MapData rs; fs' ! TX_INFO_REDEEMERS = MapData rs';
    length ps = length models; length ps' = length models;
    \<And>i. i < length models \<Longrightarrow> entry_without (models ! i) (ps ! i) (ps' ! i);
    list_all2 (\<lambda>(q, v) (q', v'). purpose_without models q q' \<and> v = v') rs rs';
    purpose_without models info info'\<rbrakk> \<Longrightarrow>
   context_without models
     (ConstrData t a [ConstrData t' a' fs, redeemer, info])
     (ConstrData t a [ConstrData t' a' fs', redeemer, info'])"

lemma proposal_restored: "proposal_without m p p' \<Longrightarrow> restore_in_proposal m p' = Some p"
  by (induction rule: proposal_without.induct)
    (simp add: restore_in_proposal_def insert_models_restores)

lemma entry_restored:
  "entry_without entry p p' \<Longrightarrow>
     (case entry of Some m \<Rightarrow> restore_in_proposal m p' | None \<Rightarrow> Some p') = Some p"
  by (auto simp: entry_without_def proposal_restored split: option.splits)

lemma purpose_restored:
  assumes "purpose_without models q q'"
  shows "restore_in_proposing models q' = Some q"
  using assms
proof (cases rule: purpose_without.cases)
  case other
  then show ?thesis
    by (auto simp: restore_in_proposing_def split: option.split list.split)
next
  case (proposing t a i p p')
  with entry_restored [OF proposing(6)] show ?thesis
    by (auto simp: restore_in_proposing_def usize_of_int_def nth_opt_def split: option.splits)
qed

lemma proposals_restored:
  assumes "length ps = length models" "length ps' = length models"
    "\<And>i. i < length models \<Longrightarrow> entry_without (models ! i) (ps ! i) (ps' ! i)"
  shows "restore_proposals ps' models = Some ps"
  using assms
proof (induction models arbitrary: ps ps')
  case (Cons m models)
  obtain p qs where ps: "ps = p # qs" using Cons.prems(1) by (cases ps) auto
  obtain p' qs' where ps': "ps' = p' # qs'" using Cons.prems(2) by (cases ps') auto
  have "restore_proposals qs' models = Some qs"
  proof (rule Cons.IH)
    show "entry_without (models ! i) (qs ! i) (qs' ! i)" if "i < length models" for i
      using Cons.prems(3) [of "Suc i"] that by (simp add: ps ps')
  qed (use Cons.prems in \<open>simp_all add: ps ps'\<close>)
  moreover have "entry_without m p p'" using Cons.prems(3) [of 0] by (simp add: ps ps')
  ultimately show ?case by (simp add: ps ps' entry_restored)
qed simp

lemma traverse_restored:
  "list_all2 (\<lambda>x x'. f x' = Some x) xs xs' \<Longrightarrow> traverse f xs' = Some xs"
  by (induction rule: list_all2_induct) simp_all

lemma context_restored:
  assumes "context_without models d d'"
  shows "restore_cost_models models d' = Some d"
  using assms
proof (cases rule: context_without.cases)
  case (1 t a t' a' fs fs' ps ps' rs rs' info info' redeemer)
  have "list_all2 (\<lambda>x x'. (\<lambda>(purpose, value). map_option (\<lambda>p. (p, value))
      (restore_in_proposing models purpose)) x' = Some x) rs rs'"
    using 1(15) by (rule list_all2_mono) (auto simp: purpose_restored)
  then have redeemers: "traverse (\<lambda>(purpose, value). map_option (\<lambda>p. (p, value))
      (restore_in_proposing models purpose)) rs' = Some rs"
    by (rule traverse_restored)
  have "fs'[TX_INFO_PROPOSAL_PROCEDURES := ArrayData ps, TX_INFO_REDEEMERS := MapData rs] = fs"
    using 1(5-11) by (intro nth_equalityI) (auto simp: nth_list_update TX_INFO_REDEEMERS_def
        TX_INFO_PROPOSAL_PROCEDURES_def)
  moreover have "TX_INFO_REDEEMERS < length fs'"
    using 1(5,6) by (simp add: TX_INFO_REDEEMERS_def TX_INFO_PROPOSAL_PROCEDURES_def)
  ultimately have "restore_tx_info models (ConstrData t' a' fs') = Some (ConstrData t' a' fs)"
    using 1(4-14) proposals_restored [OF 1(12-14)] redeemers
    by (simp add: restore_tx_info_def nth_opt_def)
  with 1 purpose_restored show ?thesis by (simp add: restore_cost_models_def)
qed

end
