(* ===== verification/Fees_Outputs.thy ===== *)
theory Fees_Outputs
  imports Validation_Result Script_Refs
begin

text \<open>
  The fee, output and auxiliary-data validators of
  \<^verbatim>\<open>src/src/validators/phase_1/validation/\<close> (\<^verbatim>\<open>fee.rs\<close>, \<^verbatim>\<open>output.rs\<close>,
  \<^verbatim>\<open>auxiliary_data.rs\<close>).

  The UTxOs charged for reference scripts are a hash set in the code, whose iteration order is
  not fixed: the order is the argument \<open>order\<close>, any rearrangement of the set's elements.
\<close>

subsection \<open>The UTxOs that count\<close>

definition insert_once :: "'a \<Rightarrow> 'a list \<Rightarrow> 'a list" where
  "insert_once x xs = (if x \<in> set xs then xs else xs @ [x])"

definition insert_found :: "input_context \<Rightarrow> utxo_context list \<Rightarrow> csl_input \<Rightarrow> utxo_context list" where
  "insert_found ic utxos i =
     (case find_input ic i of Some u \<Rightarrow> insert_once u utxos | None \<Rightarrow> utxos)"

definition collect_utxos :: "tx_body \<Rightarrow> input_context \<Rightarrow> utxo_context list" where
  "collect_utxos body ic =
     foldl (insert_found ic)
       (foldl (insert_found ic) [] (tb_inputs body))
       (case tb_reference_inputs body of Some inputs \<Rightarrow> inputs | None \<Rightarrow> [])"

subsection \<open>Fees\<close>

text \<open>The total is a \<open>usize\<close>, into which each size is cut and whose addition wraps.\<close>

definition usize_wrap :: "nat \<Rightarrow> nat" where
  "usize_wrap n = n mod (usize_max + 1)"

fun reference_sizes ::
  "csl \<Rightarrow> (bytes \<Rightarrow> decode_error option) \<Rightarrow> nat \<Rightarrow> utxo_context list \<Rightarrow> string + nat" where
  "reference_sizes cs well_formed_error acc [] = Inr acc"
| "reference_sizes cs well_formed_error acc (u # utxos) =
     (case to_script_ref (ux_output (uc_utxo u)) of
        None \<Rightarrow> reference_sizes cs well_formed_error acc utxos
      | Some script_ref \<Rightarrow>
          (case reference_script_size cs well_formed_error script_ref of
             Inl e \<Rightarrow> Inl (''Failed to parse reference script: '' @ e)
           | Inr n \<Rightarrow>
               reference_sizes cs well_formed_error
                 (usize_wrap (acc + usize_wrap (unat n))) utxos))"

record fee_validator =
  fv_decomposition :: fee_decomposition
  fv_actual_fee :: u64
  fv_expected_fee :: u64

definition fee_new ::
  "csl \<Rightarrow> (bytes \<Rightarrow> decode_error option) \<Rightarrow> (utxo_context list \<Rightarrow> utxo_context list) \<Rightarrow> nat \<Rightarrow>
     tx_body \<Rightarrow> redeemers option \<Rightarrow> input_context \<Rightarrow> string + fee_validator" where
  "fee_new cs well_formed_error order tx_size body rs ic =
     (let pp = ic_protocol_parameters ic in
      bind_result (reference_sizes cs well_formed_error 0 (order (collect_utxos body ic))) (\<lambda>ref_size.
      bind_result
        (case cs_min_ref_script_fee cs ref_size (pp_reference_script_cost_per_byte pp) of
           Inl e \<Rightarrow> Inl (''Failed to calculate min ref script fee: '' @ e) | Inr fee \<Rightarrow> Inr fee)
        (\<lambda>ref_script_fee.
      bind_result
        (case (case rs of Some r \<Rightarrow> rd_total_ex_units r | None \<Rightarrow> cs_empty_total_ex_units cs) of
           Inl e \<Rightarrow> Inl (''Failed to calculate total execution units: '' @ e) | Inr units \<Rightarrow> Inr units)
        (\<lambda>units.
      bind_result
        (case cs_ex_units_ceil_cost cs units (pp_execution_prices pp) of
           Inl e \<Rightarrow> Inl (''Failed to calculate execution units fee: '' @ e) | Inr fee \<Rightarrow> Inr fee)
        (\<lambda>execution_fee.
      bind_result
        (case cs_min_fee_for_size cs tx_size (pp_min_fee_coefficient_a pp) (pp_min_fee_constant_b pp) of
           Inl e \<Rightarrow> Inl (''Failed to calculate min fee for size: '' @ e) | Inr fee \<Rightarrow> Inr fee)
        (\<lambda>size_fee.
      Inr \<lparr>fv_decomposition =
             \<lparr>fd_tx_size_fee = size_fee, fd_reference_scripts_fee = ref_script_fee,
              fd_execution_units_fee = execution_fee\<rparr>,
           fv_actual_fee = tb_fee body,
           fv_expected_fee = size_fee + ref_script_fee + execution_fee\<rparr>))))))"

definition fee_validate :: "fee_validator \<Rightarrow> ('e, 'w, 'r) validation_result" where
  "fee_validate v =
     new_phase_1
       (report (fv_actual_fee v < fv_expected_fee v)
          (FeeTooSmallUTxO (fv_actual_fee v) (fv_expected_fee v) (fv_decomposition v),
           ''transaction.body.fee''))
       (report (fv_expected_fee v + fv_expected_fee v div 10 < fv_actual_fee v)
          (FeeIsBiggerThanMinFee (fv_actual_fee v) (fv_expected_fee v) (fv_decomposition v),
           ''transaction.body.fee''))"

subsection \<open>Outputs\<close>

record output_validator =
  ov_oversized :: "(nat \<times> u32) list"
  ov_below_min_ada :: "(nat \<times> i128 \<times> i128) list"
  ov_max_value_size :: u32

definition output_size :: "csl_output \<Rightarrow> u32" where
  "output_size out = of_nat (length (cv_bytes (ou_amount out)))"

definition output_step ::
  "csl \<Rightarrow> input_context \<Rightarrow> output_validator \<Rightarrow> nat \<times> csl_output \<Rightarrow> output_validator" where
  "output_step cs ic v entry =
     (let (i, out) = entry;
          length_of = output_size out;
          v = (if ov_max_value_size v < length_of
               then v\<lparr>ov_oversized := ov_oversized v @ [(i, length_of)]\<rparr> else v)
      in case cs_min_ada_for_output cs out (pp_ada_per_utxo_byte (ic_protocol_parameters ic)) of
           None \<Rightarrow> v
         | Some least \<Rightarrow>
             let least = big_num least; actual = big_num (cv_coin (ou_amount out))
             in if sint actual < sint least
                then v\<lparr>ov_below_min_ada := ov_below_min_ada v @ [(i, actual, least)]\<rparr> else v)"

definition output_new :: "csl \<Rightarrow> tx_body \<Rightarrow> input_context \<Rightarrow> output_validator" where
  "output_new cs body ic =
     foldl (output_step cs ic)
       \<lparr>ov_oversized = [], ov_below_min_ada = [],
        ov_max_value_size = pp_max_value_size (ic_protocol_parameters ic)\<rparr>
       (enumerate 0 (tb_outputs body))"

definition output_validate :: "output_validator \<Rightarrow> ('e, 'w, 'r) validation_result" where
  "output_validate v =
     new_phase_1
       (concat (map (\<lambda>(i, actual).
            report (ov_oversized v \<noteq> [])
              (OutputsValueTooBig actual (ov_max_value_size v), indexed ''transaction.body.outputs.'' i))
          (ov_oversized v))
        @ map (\<lambda>(i, actual, least).
              (OutputTooSmallUTxO actual least, indexed ''transaction.body.outputs.'' i))
            (ov_below_min_ada v))
       []"

subsection \<open>Auxiliary data\<close>

text \<open>The auxiliary data enters through its hash: what \<open>hash_auxiliary_data\<close> answers for it.\<close>

record auxiliary_data_validator =
  av_auxiliary_data :: "bytes option"
  av_expected_hash :: "bytes option"
  av_actual_hash :: "bytes option"

definition auxiliary_new ::
  "(bytes \<Rightarrow> bytes) \<Rightarrow> tx_body \<Rightarrow> bytes option \<Rightarrow> auxiliary_data_validator" where
  "auxiliary_new hash_auxiliary_data body auxiliary_data =
     \<lparr>av_auxiliary_data = auxiliary_data,
      av_expected_hash = map_option hash_auxiliary_data auxiliary_data,
      av_actual_hash = tb_auxiliary_data_hash body\<rparr>"

definition auxiliary_validate :: "auxiliary_data_validator \<Rightarrow> ('e, 'w, 'r) validation_result" where
  "auxiliary_validate v =
     new_phase_1
       (case av_auxiliary_data v of
          None \<Rightarrow> []
        | Some _ \<Rightarrow>
            (case av_expected_hash v of
               Some expected \<Rightarrow>
                 (case av_actual_hash v of
                    Some actual \<Rightarrow>
                      report (actual \<noteq> expected)
                        (AuxiliaryDataHashMismatch (hex_encode expected)
                           (map_option hex_encode (av_actual_hash v)),
                         ''transaction.body.auxiliary_data_hash'')
                  | None \<Rightarrow>
                      [(AuxiliaryDataHashMissing, ''transaction.body.auxiliary_data_hash'')])
             | None \<Rightarrow>
                 (case av_actual_hash v of
                    Some _ \<Rightarrow>
                      [(AuxiliaryDataHashPresentButNotExpected,
                        ''transaction.body.auxiliary_data_hash'')]
                  | None \<Rightarrow> [])))
       []"

end
