(* ===== verification/Tx_Limits.thy ===== *)
theory Tx_Limits
  imports Fees_Outputs
begin

text \<open>
  The transaction limits (\<^verbatim>\<open>src/src/validators/phase_1/validation/transaction_limits.rs\<close>)
  and the network ids (\<^verbatim>\<open>src/src/validators/phase_1/validation/network.rs\<close>).

  The order of transaction ids and of reward addresses is that of the serialization library's
  types: \<open>id_less\<close> compares the bytes of two ids, \<open>reward_less\<close> two reward addresses.
\<close>

definition MAX_REFERENCE_SCRIPTS_SIZE :: u64 where
  "MAX_REFERENCE_SCRIPTS_SIZE = 200 * 1024"

record limits_validator =
  lv_actual_tx_size :: u64
  lv_max_tx_size :: u64
  lv_actual_execution_units :: "u64 \<times> u64"
  lv_max_execution_units :: "u64 \<times> u64"
  lv_actual_ref_scripts_size :: u64
  lv_max_ref_scripts_size :: u64
  lv_current_slot :: u64
  lv_validity_interval :: "u64 option \<times> u64 option"
  lv_inputs_sorted :: bool
  lv_withdrawals_sorted :: bool
  lv_inputs_count :: nat
  lv_ref_inputs :: "tx_input list"
  lv_collateral_inputs :: "tx_input list"
  lv_inputs :: "tx_input list"

subsection \<open>Reading the transaction\<close>

fun total_reference_scripts_size ::
  "csl \<Rightarrow> (bytes \<Rightarrow> decode_error option) \<Rightarrow> u64 \<Rightarrow> utxo_context list \<Rightarrow> string + u64" where
  "total_reference_scripts_size cs well_formed_error acc [] = Inr acc"
| "total_reference_scripts_size cs well_formed_error acc (u # utxos) =
     (case to_script_ref (ux_output (uc_utxo u)) of
        None \<Rightarrow> total_reference_scripts_size cs well_formed_error acc utxos
      | Some script_ref \<Rightarrow>
          (case reference_script_size cs well_formed_error script_ref of
             Inl e \<Rightarrow> Inl e
           | Inr n \<Rightarrow> total_reference_scripts_size cs well_formed_error (acc + n) utxos))"

fun inputs_ascend :: "(bytes \<Rightarrow> bytes \<Rightarrow> bool) \<Rightarrow> csl_input list \<Rightarrow> bool" where
  "inputs_ascend id_less (before # next_input # rest) =
     (if id_less (ci_transaction_id next_input) (ci_transaction_id before) then False
      else if ci_transaction_id before = ci_transaction_id next_input \<and> ci_index next_input < ci_index before
      then False
      else inputs_ascend id_less (next_input # rest))"
| "inputs_ascend id_less inputs = True"

definition check_inputs_sorted :: "(bytes \<Rightarrow> bytes \<Rightarrow> bool) \<Rightarrow> tx_body \<Rightarrow> bool" where
  "check_inputs_sorted id_less body = inputs_ascend id_less (tb_inputs body)"

text \<open>A \<open>BTreeSet\<close>: its elements in ascending order, each once.\<close>

fun btree_insert :: "('a \<Rightarrow> 'a \<Rightarrow> bool) \<Rightarrow> 'a \<Rightarrow> 'a list \<Rightarrow> 'a list" where
  "btree_insert lt x [] = [x]"
| "btree_insert lt x (y # ys) =
     (if lt x y then x # y # ys
      else if lt y x then y # btree_insert lt x ys
      else y # ys)"

definition btree_of :: "('a \<Rightarrow> 'a \<Rightarrow> bool) \<Rightarrow> 'a list \<Rightarrow> 'a list" where
  "btree_of lt xs = foldl (\<lambda>tree x. btree_insert lt x tree) [] xs"

definition check_withdrawals_sorted ::
  "(reward_address \<Rightarrow> reward_address \<Rightarrow> bool) \<Rightarrow> tx_body \<Rightarrow> bool" where
  "check_withdrawals_sorted reward_less body =
     (case tb_withdrawals body of
        None \<Rightarrow> True
      | Some withdrawals \<Rightarrow>
          let keys = map fst withdrawals
          in if length keys \<le> 1 then True else keys = btree_of reward_less keys)"

definition input_of :: "csl_input \<Rightarrow> tx_input" where
  "input_of i =
     \<lparr>ti_output_index = ci_index i, ti_tx_hash = hex_encode (ci_transaction_id i)\<rparr>"

definition inputs_of :: "csl_input list option \<Rightarrow> tx_input list" where
  "inputs_of inputs = map input_of (case inputs of Some inputs \<Rightarrow> inputs | None \<Rightarrow> [])"

definition limits_new ::
  "csl \<Rightarrow> (bytes \<Rightarrow> decode_error option) \<Rightarrow> (utxo_context list \<Rightarrow> utxo_context list) \<Rightarrow>
     (bytes \<Rightarrow> bytes \<Rightarrow> bool) \<Rightarrow> (reward_address \<Rightarrow> reward_address \<Rightarrow> bool) \<Rightarrow> nat \<Rightarrow> tx_body \<Rightarrow>
     redeemers option \<Rightarrow> input_context \<Rightarrow> string + limits_validator" where
  "limits_new cs well_formed_error order id_less reward_less tx_size body rs ic =
     (let pp = ic_protocol_parameters ic;
          units =
            (case (case rs of Some r \<Rightarrow> rd_total_ex_units r | None \<Rightarrow> cs_empty_total_ex_units cs) of
               Inl _ \<Rightarrow> \<lparr>eu_mem = 0, eu_steps = 0\<rparr> | Inr units \<Rightarrow> units)
      in case total_reference_scripts_size cs well_formed_error 0 (order (collect_utxos body ic)) of
           Inl e \<Rightarrow> Inl e
         | Inr ref_size \<Rightarrow>
             Inr \<lparr>lv_actual_tx_size = of_nat tx_size,
                  lv_max_tx_size = ucast (pp_max_transaction_size pp),
                  lv_actual_execution_units = (eu_mem units, eu_steps units),
                  lv_max_execution_units =
                    (eu_mem (pp_max_tx_execution_units pp), eu_steps (pp_max_tx_execution_units pp)),
                  lv_actual_ref_scripts_size = ref_size,
                  lv_max_ref_scripts_size = MAX_REFERENCE_SCRIPTS_SIZE,
                  lv_current_slot = ic_slot ic,
                  lv_validity_interval = (tb_validity_start body, tb_ttl body),
                  lv_inputs_sorted = check_inputs_sorted id_less body,
                  lv_withdrawals_sorted = check_withdrawals_sorted reward_less body,
                  lv_inputs_count = length (tb_inputs body),
                  lv_ref_inputs = inputs_of (tb_reference_inputs body),
                  lv_collateral_inputs = inputs_of (tb_collateral body),
                  lv_inputs = map input_of (tb_inputs body)\<rparr>)"

subsection \<open>Validation\<close>

definition outside_validity :: "limits_validator \<Rightarrow> bool" where
  "outside_validity v =
     (let slot = lv_current_slot v in
      case lv_validity_interval v of
        (Some start, Some until_slot) \<Rightarrow> slot < start \<or> until_slot \<le> slot
      | (Some start, None) \<Rightarrow> slot < start
      | (None, Some until_slot) \<Rightarrow> until_slot \<le> slot
      | (None, None) \<Rightarrow> False)"

definition interval_bounds :: "limits_validator \<Rightarrow> u64 \<times> u64" where
  "interval_bounds v =
     (case lv_validity_interval v of
        (Some start, Some until_slot) \<Rightarrow> (start, until_slot)
      | (Some start, None) \<Rightarrow> (start, 0xFFFFFFFFFFFFFFFF)
      | (None, Some until_slot) \<Rightarrow> (0, until_slot)
      | (None, None) \<Rightarrow> (0, 0xFFFFFFFFFFFFFFFF))"

text \<open>An input is bad when its UTxO is unknown or spent.\<close>

definition bad_input :: "input_context \<Rightarrow> tx_input \<Rightarrow> bool" where
  "bad_input ic i =
     (case find_utxo ic (ti_tx_hash i) (ti_output_index i) of
        Some u \<Rightarrow> uc_is_spent u | None \<Rightarrow> True)"

definition bad_inputs :: "input_context \<Rightarrow> string \<Rightarrow> tx_input list \<Rightarrow> located_error list" where
  "bad_inputs ic at inputs =
     concat (map (\<lambda>(i, input). report (bad_input ic input) (BadInputsUTxO input, indexed at i))
       (enumerate 0 inputs))"

definition limits_validate ::
  "input_context \<Rightarrow> limits_validator \<Rightarrow> ('e, 'w, 'r) validation_result" where
  "limits_validate ic v =
     new_phase_1
       (report (lv_inputs_count v = 0) (InputSetEmptyUTxO, ''transaction.body.inputs'')
        @ report (lv_max_tx_size v < lv_actual_tx_size v)
            (MaxTxSizeUTxO (lv_actual_tx_size v) (lv_max_tx_size v), ''transaction'')
        @ report (fst (lv_max_execution_units v) < fst (lv_actual_execution_units v) \<or>
             snd (lv_max_execution_units v) < snd (lv_actual_execution_units v))
            (ExUnitsTooBigUTxO (fst (lv_actual_execution_units v)) (snd (lv_actual_execution_units v))
               (fst (lv_max_execution_units v)) (snd (lv_max_execution_units v)),
             ''transaction.witness_set.redeemers'')
        @ report (lv_max_ref_scripts_size v < lv_actual_ref_scripts_size v)
            (RefScriptsSizeTooBig (lv_actual_ref_scripts_size v) (lv_max_ref_scripts_size v),
             ''transaction.body.inputs'')
        @ report (outside_validity v)
            (OutsideValidityIntervalUTxO (lv_current_slot v) (fst (interval_bounds v))
               (snd (interval_bounds v)), ''transaction.body'')
        @ bad_inputs ic ''transaction.body.reference_inputs.'' (lv_ref_inputs v)
        @ bad_inputs ic ''transaction.body.collateral.'' (lv_collateral_inputs v)
        @ bad_inputs ic ''transaction.body.inputs.'' (lv_inputs v)
        @ concat (map (\<lambda>(i, input).
              report (input \<in> set (lv_inputs v))
                (ReferenceInputOverlapsWithInput input,
                 indexed ''transaction.body.reference_inputs.'' i))
            (enumerate 0 (lv_ref_inputs v))))
       (report (\<not> lv_inputs_sorted v) (InputsAreNotSorted, ''transaction.body.inputs'')
        @ report (\<not> lv_withdrawals_sorted v)
            (WithdrawalsAreNotSorted, ''transaction.body.withdrawals''))"

subsection \<open>Network ids\<close>

record network_validator =
  nv_expected :: u8
  nv_wrong_outputs :: "string set"
  nv_wrong_withdrawals :: "string set"
  nv_wrong_body :: "u8 option"
  nv_wrong_proposals :: "(u32 \<times> string) list"
  nv_wrong_treasury :: "(u32 \<times> string) list"

fun wrong_addresses :: "u8 \<Rightarrow> (u8 option \<times> string option) list \<Rightarrow> string set" where
  "wrong_addresses expected [] = {}"
| "wrong_addresses expected ((network, bech32) # rest) =
     (case network of
        Some n \<Rightarrow>
          if n \<noteq> expected then
            (case bech32 of
               Some s \<Rightarrow> insert s (wrong_addresses expected rest)
             | None \<Rightarrow> wrong_addresses expected rest)
          else wrong_addresses expected rest
      | None \<Rightarrow> wrong_addresses expected rest)"

definition wrong_output_addresses :: "tx_body \<Rightarrow> u8 \<Rightarrow> string set" where
  "wrong_output_addresses body expected =
     wrong_addresses expected
       (map (\<lambda>out. (ad_network_id (ou_address out), ad_bech32 (ou_address out))) (tb_outputs body))"

definition wrong_withdrawal_addresses :: "tx_body \<Rightarrow> u8 \<Rightarrow> string set" where
  "wrong_withdrawal_addresses body expected =
     (case tb_withdrawals body of
        Some withdrawals \<Rightarrow>
          wrong_addresses expected
            (map (\<lambda>(key, _). (Some (ra_network_id key), ra_bech32 key)) withdrawals)
      | None \<Rightarrow> {})"

definition wrong_body_network_id :: "csl \<Rightarrow> tx_body \<Rightarrow> u8 \<Rightarrow> u8 option" where
  "wrong_body_network_id cs body expected =
     (case tb_network_id body of
        None \<Rightarrow> None
      | Some declared \<Rightarrow>
          let n = (case declared of MainnetId \<Rightarrow> cs_mainnet_id cs | TestnetId \<Rightarrow> 0)
          in if n \<noteq> expected then Some n else None)"

definition mismatched :: "u8 \<Rightarrow> nat \<Rightarrow> reward_address \<Rightarrow> (u32 \<times> string) list" where
  "mismatched expected i reward =
     (if ra_network_id reward \<noteq> expected
      then [(of_nat i, case ra_bech32 reward of Some s \<Rightarrow> s | None \<Rightarrow> [])] else [])"

definition wrong_proposal_return_accounts :: "tx_body \<Rightarrow> u8 \<Rightarrow> (u32 \<times> string) list" where
  "wrong_proposal_return_accounts body expected =
     (case tb_voting_proposals body of
        Some proposals \<Rightarrow>
          concat (map (\<lambda>(i, p). mismatched expected i (vp_reward_account p)) (enumerate 0 proposals))
      | None \<Rightarrow> [])"

definition wrong_treasury_withdrawal_accounts :: "tx_body \<Rightarrow> u8 \<Rightarrow> (u32 \<times> string) list" where
  "wrong_treasury_withdrawal_accounts body expected =
     (case tb_voting_proposals body of
        Some proposals \<Rightarrow>
          concat (map (\<lambda>(i, p).
              case vp_action p of
                TreasuryWithdrawals withdrawals policy_hash \<Rightarrow>
                  concat (map (\<lambda>(account, _). mismatched expected i account) withdrawals)
              | _ \<Rightarrow> [])
            (enumerate 0 proposals))
      | None \<Rightarrow> [])"

definition network_new :: "csl \<Rightarrow> tx_body \<Rightarrow> input_context \<Rightarrow> network_validator" where
  "network_new cs body ic =
     (let expected = expected_network_id cs (ic_network_type ic) in
      \<lparr>nv_expected = expected,
       nv_wrong_outputs = wrong_output_addresses body expected,
       nv_wrong_withdrawals = wrong_withdrawal_addresses body expected,
       nv_wrong_body = wrong_body_network_id cs body expected,
       nv_wrong_proposals = wrong_proposal_return_accounts body expected,
       nv_wrong_treasury = wrong_treasury_withdrawal_accounts body expected\<rparr>)"

definition network_validate :: "network_validator \<Rightarrow> ('e, 'w, 'r) validation_result" where
  "network_validate v =
     new_phase_1
       (report (nv_wrong_outputs v \<noteq> {})
          (WrongNetwork (nv_wrong_outputs v), ''transaction.body.outputs'')
        @ report (nv_wrong_withdrawals v \<noteq> {})
            (WrongNetworkWithdrawal (nv_wrong_withdrawals v), ''transaction.body.withdrawals'')
        @ (case nv_wrong_body v of
             Some actual \<Rightarrow>
               [(WrongNetworkInTxBody actual (nv_expected v), ''transaction.body.network_id'')]
           | None \<Rightarrow> [])
        @ map (\<lambda>(i, account).
              (ProposalProcedureNetworkIdMismatch account (nv_expected v),
               indexed ''transaction.body.voting_proposals.'' (unat i)))
            (nv_wrong_proposals v)
        @ map (\<lambda>(i, account).
              (TreasuryWithdrawalsNetworkIdMismatch account (nv_expected v),
               indexed ''transaction.body.voting_proposals.'' (unat i)))
            (nv_wrong_treasury v))
       []"

end
