(* ===== verification/Witness.thy ===== *)
theory Witness
  imports Tx_Limits "HOL-Library.AList"
begin

text \<open>
  The witness validator (\<^verbatim>\<open>src/src/validators/phase_1/validation/witness.rs\<close>): what
  the transaction and its context provide, what the transaction requires, and the comparison.

  Its one structure is modelled in three parts: \<open>provided\<close>, \<open>required\<close>, and the
  validator that holds both. A hash map is an association list whose keys are distinct, a hash
  set that is only asked for members is a set; the order a hash map or set is walked in is an
  argument. Scripts, datums and keys are their bytes, and what the serialization library computes
  from them (hashes, signature checks, encodings) are fields of \<open>witness_library\<close>.
\<close>

subsection \<open>Data\<close>

datatype redeemer_tag = SpendTag | MintTag | CertTag | RewardTag | VoteTag | VotingProposalTag

datatype script_type = IsNativeScript | IsPlutusScript | IsUnknownScript

datatype witness_source =
    InWitnessSet u32
  | InReferenceInput csl_input u32
  | InInput csl_input u32

fun get_location :: "witness_source \<Rightarrow> string \<Rightarrow> string" where
  "get_location (InWitnessSet i) entity =
     indexed (''transaction.witness_set.'' @ entity @ ''.'') (unat i)"
| "get_location (InReferenceInput input i) entity = indexed ''transaction.reference_inputs.'' (unat i)"
| "get_location (InInput input i) entity = indexed ''transaction.inputs.'' (unat i)"

record required_vkey =
  rk_key_hash :: bytes
  rk_location :: string
  rk_entity_index :: u32

record required_script =
  rq_script_hash :: bytes
  rq_location :: string
  rq_entity_index :: u32

record required_redeemer =
  re_tag :: redeemer_tag
  re_index :: u32
  re_location :: string
  re_entity_index :: u32

record required_datum =
  rm_datum_hash :: bytes
  rm_location :: string
  rm_entity_index :: u32

text \<open>A witness set: a verification key with its signature, scripts, datums, redeemers.\<close>

record vkey_witness =
  vw_public_key :: bytes
  vw_signature :: bytes

record redeemer =
  rr_tag :: redeemer_tag
  rr_index :: u64
  rr_content :: bytes

record witness_set =
  ws_vkeys :: "vkey_witness list option"
  ws_native_scripts :: "bytes list option"
  ws_plutus_scripts :: "(language \<times> bytes) list option"
  ws_plutus_data :: "bytes list option"
  ws_redeemers :: "redeemer list option"

text \<open>A cost of a cost model is its sign and its magnitude.\<close>

type_synonym cost_model = "(bool \<times> u64) list"
type_synonym sources = "(bytes \<times> witness_source) list"

record witness_library =
  wl_key_hash :: "bytes \<Rightarrow> bytes"
  wl_verify :: "bytes \<Rightarrow> bytes \<Rightarrow> bytes \<Rightarrow> bool"
  wl_native_hash :: "bytes \<Rightarrow> bytes"
  wl_plutus_hash :: "language \<Rightarrow> bytes \<Rightarrow> bytes"
  wl_hash_plutus_data :: "bytes \<Rightarrow> bytes"
  wl_data_hash_of_bytes :: "bytes \<Rightarrow> bytes option"
  wl_redeemers_bytes :: "redeemer list \<Rightarrow> bytes"
  wl_datums_bytes :: "bytes list \<Rightarrow> bytes"
  wl_cost_models_bytes :: "(language \<times> cost_model) list \<Rightarrow> bytes"
  wl_hash_script_data ::
    "redeemer list \<Rightarrow> (language \<times> cost_model) list \<Rightarrow> bytes list option \<Rightarrow> bytes"
  wl_tag_text :: "redeemer_tag \<Rightarrow> string"
  wl_input_less :: "csl_input \<Rightarrow> csl_input \<Rightarrow> bool"
  wl_reward_less :: "reward_address \<Rightarrow> reward_address \<Rightarrow> bool"
  wl_order_indices :: "(bytes \<times> u32) list \<Rightarrow> (bytes \<times> u32) list"
  wl_order_sources :: "sources \<Rightarrow> sources"
  wl_order_languages :: "language list \<Rightarrow> language list"

record provided =
  pv_vkey_witnesses :: "(bytes \<times> u32) list"
  pv_invalid_signatures :: "(bytes \<times> u32) list"
  pv_valid_signatures :: "(bytes \<times> u32) list"
  pv_native_script_sources :: sources
  pv_native_scripts :: "(bytes \<times> bytes) list"
  pv_unexamined_native_scripts :: "(bytes \<times> string) list"
  pv_plutus_script_sources :: sources
  pv_plutus_script_versions :: "(bytes \<times> language) list"
  pv_datum_sources :: sources
  pv_redeemers :: "(redeemer_tag \<times> u32) set"

record required =
  rd_vkeys :: "required_vkey list"
  rd_native_scripts :: "required_script list"
  rd_plutus_scripts :: "required_script list"
  rd_redeemers :: "required_redeemer list"
  rd_datums :: "required_datum list"
  rd_unknown_scripts :: "required_script list"

record witness_validator =
  wv_provided :: provided
  wv_required :: required
  wv_signature_candidates :: "bytes set"
  wv_output_datums_hashes :: "bytes set"
  wv_invalid_native_scripts :: sources
  wv_used_plutus_versions :: "language list"
  wv_expected_script_data_hash :: "string option"
  wv_provided_script_data_hash :: "string option"
  wv_decomposition :: "script_data_decomposition option"

definition nothing_provided :: provided where
  "nothing_provided =
     \<lparr>pv_vkey_witnesses = [], pv_invalid_signatures = [], pv_valid_signatures = [],
      pv_native_script_sources = [], pv_native_scripts = [], pv_unexamined_native_scripts = [],
      pv_plutus_script_sources = [], pv_plutus_script_versions = [], pv_datum_sources = [],
      pv_redeemers = {}\<rparr>"

definition nothing_required :: required where
  "nothing_required =
     \<lparr>rd_vkeys = [], rd_native_scripts = [], rd_plutus_scripts = [], rd_redeemers = [], rd_datums = [],
      rd_unknown_scripts = []\<rparr>"

subsection \<open>What is provided\<close>

definition provide_vkey ::
  "witness_library \<Rightarrow> bytes \<Rightarrow> provided \<Rightarrow> nat \<times> vkey_witness \<Rightarrow> provided" where
  "provide_vkey wl tx_hash p entry =
     (let (i, w) = entry;
          key_hash = wl_key_hash wl (vw_public_key w);
          p = p\<lparr>pv_vkey_witnesses := AList.update key_hash (of_nat i) (pv_vkey_witnesses p)\<rparr>
      in if \<not> wl_verify wl (vw_public_key w) tx_hash (vw_signature w)
         then p\<lparr>pv_invalid_signatures := AList.update key_hash (of_nat i) (pv_invalid_signatures p)\<rparr>
         else p\<lparr>pv_valid_signatures := AList.update key_hash (of_nat i) (pv_valid_signatures p)\<rparr>)"

definition provide_native_script ::
  "witness_library \<Rightarrow> witness_source \<Rightarrow> bytes \<Rightarrow> provided \<Rightarrow> provided" where
  "provide_native_script wl source script p =
     (let h = wl_native_hash wl script
      in p\<lparr>pv_native_scripts := AList.update h script (pv_native_scripts p),
           pv_native_script_sources := AList.update h source (pv_native_script_sources p)\<rparr>)"

definition provide_plutus_script ::
  "witness_library \<Rightarrow> witness_source \<Rightarrow> language \<Rightarrow> bytes \<Rightarrow> provided \<Rightarrow> provided" where
  "provide_plutus_script wl source version script p =
     (let h = wl_plutus_hash wl version script
      in p\<lparr>pv_plutus_script_sources := AList.update h source (pv_plutus_script_sources p),
           pv_plutus_script_versions := AList.update h version (pv_plutus_script_versions p)\<rparr>)"

definition provide_datum :: "witness_library \<Rightarrow> provided \<Rightarrow> nat \<times> bytes \<Rightarrow> provided" where
  "provide_datum wl p entry =
     p\<lparr>pv_datum_sources := AList.update (wl_hash_plutus_data wl (snd entry))
         (InWitnessSet (of_nat (fst entry))) (pv_datum_sources p)\<rparr>"

text \<open>The index of a redeemer, read back from its decimal text as \<open>u32\<close>.\<close>

definition provide_redeemer :: "provided \<Rightarrow> redeemer \<Rightarrow> provided" where
  "provide_redeemer p r =
     (if unat (rr_index r) \<le> u32_max
      then p\<lparr>pv_redeemers := insert (rr_tag r, ucast (rr_index r)) (pv_redeemers p)\<rparr> else p)"

definition scripts_of_utxo ::
  "csl \<Rightarrow> witness_library \<Rightarrow> (bytes \<Rightarrow> decode_error option) \<Rightarrow> witness_source \<Rightarrow> utxo_context \<Rightarrow>
     provided \<Rightarrow> string + provided" where
  "scripts_of_utxo cs wl well_formed_error source u p =
     (case to_script_ref (ux_output (uc_utxo u)) of
        None \<Rightarrow> Inr p
      | Some script_ref \<Rightarrow>
          (case unexamined_script_ref_of cs well_formed_error script_ref of
             Some unexamined \<Rightarrow>
               Inr (p\<lparr>pv_native_script_sources :=
                        AList.update (us_script_hash unexamined) source (pv_native_script_sources p),
                      pv_unexamined_native_scripts :=
                        AList.update (us_script_hash unexamined) (us_reason unexamined)
                          (pv_unexamined_native_scripts p)\<rparr>)
           | None \<Rightarrow>
               (case normalize_script_ref cs well_formed_error script_ref of
                  Inl e \<Rightarrow> Inl e
                | Inr script \<Rightarrow>
                    Inr (case script of
                           NativeScript bs \<Rightarrow> provide_native_script wl source bs p
                         | PlutusScript version bs \<Rightarrow> provide_plutus_script wl source version bs p
                         | NoScript \<Rightarrow> p))))"

fun collect_scripts_from_inputs ::
  "csl \<Rightarrow> witness_library \<Rightarrow> (bytes \<Rightarrow> decode_error option) \<Rightarrow> input_context \<Rightarrow> bool \<Rightarrow>
     (nat \<times> csl_input) list \<Rightarrow> provided \<Rightarrow> string + provided" where
  "collect_scripts_from_inputs cs wl wfe ic is_reference [] p = Inr p"
| "collect_scripts_from_inputs cs wl wfe ic is_reference ((i, input) # inputs) p =
     (case find_input ic input of
        None \<Rightarrow> collect_scripts_from_inputs cs wl wfe ic is_reference inputs p
      | Some u \<Rightarrow>
          (let source = (if is_reference then InReferenceInput input (of_nat i)
                         else InInput input (of_nat i))
           in case scripts_of_utxo cs wl wfe source u p of
                Inl e \<Rightarrow> Inl e
              | Inr p \<Rightarrow> collect_scripts_from_inputs cs wl wfe ic is_reference inputs p))"

definition over :: "('s \<Rightarrow> nat \<times> 'a \<Rightarrow> 's) \<Rightarrow> 'a list option \<Rightarrow> 's \<Rightarrow> 's" where
  "over f xs s = (case xs of Some xs \<Rightarrow> foldl f s (enumerate 0 xs) | None \<Rightarrow> s)"

definition provided_in_witness_set ::
  "witness_library \<Rightarrow> witness_set \<Rightarrow> bytes \<Rightarrow> provided" where
  "provided_in_witness_set wl ws tx_hash =
     (let p = over (provide_vkey wl tx_hash) (ws_vkeys ws) nothing_provided;
          p = over (\<lambda>p (i, s). provide_native_script wl (InWitnessSet (of_nat i)) s p)
                (ws_native_scripts ws) p;
          p = over (\<lambda>p (i, version, s). provide_plutus_script wl (InWitnessSet (of_nat i)) version s p)
                (ws_plutus_scripts ws) p;
          p = over (provide_datum wl) (ws_plutus_data ws) p
      in over (\<lambda>p (i, r). provide_redeemer p r) (ws_redeemers ws) p)"

definition collect_provided_witnesses ::
  "csl \<Rightarrow> witness_library \<Rightarrow> (bytes \<Rightarrow> decode_error option) \<Rightarrow> input_context \<Rightarrow> tx_body \<Rightarrow>
     witness_set \<Rightarrow> bytes \<Rightarrow> string + provided" where
  "collect_provided_witnesses cs wl wfe ic body ws tx_hash =
     (case collect_scripts_from_inputs cs wl wfe ic False (enumerate 0 (tb_inputs body))
             (provided_in_witness_set wl ws tx_hash) of
        Inl e \<Rightarrow> Inl e
      | Inr p \<Rightarrow>
          collect_scripts_from_inputs cs wl wfe ic True
            (enumerate 0 (case tb_reference_inputs body of Some inputs \<Rightarrow> inputs | None \<Rightarrow> [])) p)"

end
