(* ===== verification/Witness_Required.thy ===== *)
theory Witness_Required
  imports Witness
begin

text \<open>
  What a transaction requires of its witnesses, and the comparison with what is provided
  (\<^verbatim>\<open>src/src/validators/phase_1/validation/witness.rs\<close>).
\<close>

subsection \<open>Requirements\<close>

definition require_vkey :: "bytes \<Rightarrow> string \<Rightarrow> u32 \<Rightarrow> required \<Rightarrow> required" where
  "require_vkey key_hash at i r =
     r\<lparr>rd_vkeys := rd_vkeys r @ [\<lparr>rk_key_hash = key_hash, rk_location = at, rk_entity_index = i\<rparr>]\<rparr>"

definition determine_script_type :: "provided \<Rightarrow> bytes \<Rightarrow> script_type" where
  "determine_script_type p script_hash =
     (if map_of (pv_native_script_sources p) script_hash \<noteq> None then IsNativeScript
      else if map_of (pv_plutus_script_sources p) script_hash \<noteq> None then IsPlutusScript
      else IsUnknownScript)"

definition add_script_witness_requirement ::
  "provided \<Rightarrow> bytes \<Rightarrow> string \<Rightarrow> u32 \<Rightarrow> u32 \<Rightarrow> redeemer_tag option \<Rightarrow> bytes option \<Rightarrow> required \<Rightarrow> required" where
  "add_script_witness_requirement p script_hash at entity_index redeemer_index tag datum_hash r =
     (let script = \<lparr>rq_script_hash = script_hash, rq_location = at, rq_entity_index = entity_index\<rparr> in
      case determine_script_type p script_hash of
        IsPlutusScript \<Rightarrow>
          (let r = r\<lparr>rd_plutus_scripts := rd_plutus_scripts r @ [script]\<rparr>;
               r = (case tag of
                      Some t \<Rightarrow>
                        r\<lparr>rd_redeemers := rd_redeemers r @
                            [\<lparr>re_tag = t, re_index = redeemer_index, re_location = at,
                              re_entity_index = entity_index\<rparr>]\<rparr>
                    | None \<Rightarrow> r)
           in case datum_hash of
                Some h \<Rightarrow>
                  r\<lparr>rd_datums := rd_datums r @
                      [\<lparr>rm_datum_hash = h, rm_location = at, rm_entity_index = entity_index\<rparr>]\<rparr>
              | None \<Rightarrow> r)
      | IsNativeScript \<Rightarrow> r\<lparr>rd_native_scripts := rd_native_scripts r @ [script]\<rparr>
      | IsUnknownScript \<Rightarrow> r\<lparr>rd_unknown_scripts := rd_unknown_scripts r @ [script]\<rparr>)"

text \<open>Cardano sorts inputs and withdrawals before it matches them with redeemer indices.\<close>

definition build_sorted_index_map :: "('a \<Rightarrow> 'a \<Rightarrow> bool) \<Rightarrow> 'a list \<Rightarrow> ('a \<times> u32) list" where
  "build_sorted_index_map lt xs = map (\<lambda>(i, x). (x, of_nat i)) (enumerate 0 (btree_of lt xs))"

definition sorted_index :: "('a \<Rightarrow> 'a \<Rightarrow> bool) \<Rightarrow> 'a list \<Rightarrow> nat \<Rightarrow> 'a \<Rightarrow> u32" where
  "sorted_index lt xs i x =
     (case map_of (build_sorted_index_map lt xs) x of Some j \<Rightarrow> j | None \<Rightarrow> of_nat i)"

text \<open>The credential that guards the UTxO of an input, when its address has one.\<close>

definition payment_cred_of :: "csl \<Rightarrow> input_context \<Rightarrow> csl_input \<Rightarrow> (utxo_context \<times> credential) option" where
  "payment_cred_of cs ic input =
     (case find_input ic input of
        None \<Rightarrow> None
      | Some u \<Rightarrow>
          (case string_to_csl_address cs (to_address (ux_output (uc_utxo u))) of
             Inl _ \<Rightarrow> None
           | Inr a \<Rightarrow> map_option (Pair u) (ad_payment_cred a)))"

text \<open>The datum a script input requires: none next to an inline datum.\<close>

definition required_datum_hash :: "csl \<Rightarrow> witness_library \<Rightarrow> utxo_context \<Rightarrow> bytes option" where
  "required_datum_hash cs wl u =
     (let out = ux_output (uc_utxo u) in
      if to_plutus_data out \<noteq> None then None
      else case to_data_hash out of
             None \<Rightarrow> None
           | Some text \<Rightarrow>
               (case cs_hex_decode cs text of Inl _ \<Rightarrow> None | Inr bs \<Rightarrow> wl_data_hash_of_bytes wl bs))"

definition collect_input_witness ::
  "csl \<Rightarrow> witness_library \<Rightarrow> input_context \<Rightarrow> csl_input list \<Rightarrow> provided \<Rightarrow> required \<Rightarrow>
     nat \<times> csl_input \<Rightarrow> required" where
  "collect_input_witness cs wl ic inputs p r entry =
     (let (i, input) = entry; at = indexed ''transaction.body.inputs.'' i in
      case payment_cred_of cs ic input of
        None \<Rightarrow> r
      | Some (u, c) \<Rightarrow>
          (case cr_kind c of
             KeyKind \<Rightarrow>
               (case cr_keyhash c of Some k \<Rightarrow> require_vkey k at (of_nat i) r | None \<Rightarrow> r)
           | ScriptKind \<Rightarrow>
               (case cr_scripthash c of
                  Some h \<Rightarrow>
                    add_script_witness_requirement p h at (of_nat i)
                      (sorted_index (wl_input_less wl) inputs i input) (Some SpendTag)
                      (required_datum_hash cs wl u) r
                | None \<Rightarrow> r)))"

definition collect_collateral_witness ::
  "csl \<Rightarrow> input_context \<Rightarrow> required \<Rightarrow> nat \<times> csl_input \<Rightarrow> required" where
  "collect_collateral_witness cs ic r entry =
     (let (i, input) = entry in
      case payment_cred_of cs ic input of
        None \<Rightarrow> r
      | Some (u, c) \<Rightarrow>
          if cr_kind c = KeyKind then
            (case cr_keyhash c of
               Some k \<Rightarrow> require_vkey k (indexed ''transaction.body.collateral.'' i) (of_nat i) r
             | None \<Rightarrow> r)
          else r)"

text \<open>A credential asks for its key, or for its script with a redeemer of the given tag.\<close>

definition require_credential ::
  "provided \<Rightarrow> credential \<Rightarrow> string \<Rightarrow> u32 \<Rightarrow> u32 \<Rightarrow> redeemer_tag \<Rightarrow> required \<Rightarrow> required" where
  "require_credential p c at i redeemer_index tag r =
     (case cr_kind c of
        KeyKind \<Rightarrow> (case cr_keyhash c of Some k \<Rightarrow> require_vkey k at i r | None \<Rightarrow> r)
      | ScriptKind \<Rightarrow>
          (case cr_scripthash c of
             Some h \<Rightarrow> add_script_witness_requirement p h at i redeemer_index (Some tag) None r
           | None \<Rightarrow> r))"

definition collect_withdrawal_witness ::
  "witness_library \<Rightarrow> reward_address list \<Rightarrow> provided \<Rightarrow> required \<Rightarrow> nat \<times> reward_address \<Rightarrow> required" where
  "collect_withdrawal_witness wl keys p r entry =
     (let (i, key) = entry
      in require_credential p (ra_payment_cred key) (indexed ''transaction.body.withdrawals.'' i)
           (of_nat i) (sorted_index (wl_reward_less wl) keys i key) RewardTag r)"

definition add_certificate_credential_witness ::
  "provided \<Rightarrow> credential \<Rightarrow> string \<Rightarrow> u32 \<Rightarrow> required \<Rightarrow> required" where
  "add_certificate_credential_witness p c at i r = require_credential p c at i i CertTag r"

definition collect_certificate_witness ::
  "provided \<Rightarrow> required \<Rightarrow> nat \<times> certificate \<Rightarrow> required" where
  "collect_certificate_witness p r entry =
     (let (n, cert) = entry; i = of_nat n; at = indexed ''transaction.body.certs.'' n;
          credential = (\<lambda>c. add_certificate_credential_witness p c at i r)
      in case cert of
           StakeRegistration c coin \<Rightarrow> credential c
         | StakeDeregistration c coin \<Rightarrow> credential c
         | StakeDelegation c pool \<Rightarrow> credential c
         | PoolRegistration operator cost owners \<Rightarrow>
             foldl (\<lambda>r owner. require_vkey owner at i r) (require_vkey operator at i r) owners
         | PoolRetirement pool epoch \<Rightarrow> require_vkey pool at i r
         | DRepRegistration c coin \<Rightarrow> credential c
         | DRepDeregistration c coin \<Rightarrow> credential c
         | DRepUpdate c \<Rightarrow> credential c
         | CommitteeHotAuth cold hot \<Rightarrow> credential cold
         | CommitteeColdResign cold \<Rightarrow> credential cold
         | StakeAndVoteDelegation c pool drep \<Rightarrow> credential c
         | StakeRegistrationAndDelegation c pool coin \<Rightarrow> credential c
         | StakeVoteRegistrationAndDelegation c pool drep coin \<Rightarrow> credential c
         | VoteDelegation c drep \<Rightarrow> credential c
         | VoteRegistrationAndDelegation c drep coin \<Rightarrow> credential c
         | GenesisKeyDelegation \<Rightarrow> r
         | MoveInstantaneousRewardsCert \<Rightarrow> r)"

definition collect_voting_proposal_witness ::
  "provided \<Rightarrow> required \<Rightarrow> nat \<times> voting_proposal \<Rightarrow> required" where
  "collect_voting_proposal_witness p r entry =
     (let (i, proposal) = entry;
          policy = (\<lambda>h. case h of
             Some script_hash \<Rightarrow>
               add_script_witness_requirement p script_hash
                 (indexed ''transaction.body.voting_proposals.'' i) (of_nat i) (of_nat i)
                 (Some VotingProposalTag) None r
           | None \<Rightarrow> r)
      in case vp_action proposal of
           ParameterChange prev policy_hash \<Rightarrow> policy policy_hash
         | TreasuryWithdrawals withdrawals policy_hash \<Rightarrow> policy policy_hash
         | _ \<Rightarrow> r)"

text \<open>
  A committee or DRep credential the voter does not have is an \<open>unwrap\<close> in the code; the
  library answers one for every voter of those kinds.
\<close>

definition collect_vote_witness ::
  "provided \<Rightarrow> required \<Rightarrow> nat \<times> voter \<Rightarrow> required" where
  "collect_vote_witness p r entry =
     (let (i, v) = entry;
          at = indexed ''transaction.body.voting_procedures.'' i;
          key = (\<lambda>k. case k of Some k \<Rightarrow> require_vkey k at (of_nat i) r | None \<Rightarrow> r);
          script = (\<lambda>h. case h of
             Some h \<Rightarrow> add_script_witness_requirement p h at (of_nat i) (of_nat i) (Some VoteTag) None r
           | None \<Rightarrow> r)
      in case vo_kind v of
           ConstitutionalCommitteeHotKeyHash \<Rightarrow> key (Option.bind (vo_committee_hot v) cr_keyhash)
         | ConstitutionalCommitteeHotScriptHash \<Rightarrow>
             script (Option.bind (vo_committee_hot v) cr_scripthash)
         | DRepKeyHash \<Rightarrow> key (Option.bind (vo_drep v) cr_keyhash)
         | DRepScriptHash \<Rightarrow> script (Option.bind (vo_drep v) cr_scripthash)
         | StakingPoolKeyHash \<Rightarrow> key (vo_pool v))"

definition collect_mint_witness :: "provided \<Rightarrow> required \<Rightarrow> nat \<times> bytes \<Rightarrow> required" where
  "collect_mint_witness p r entry =
     (let (i, policy) = entry
      in add_script_witness_requirement p policy (indexed ''transaction.body.mint.'' i)
           (of_nat i) (of_nat i) (Some MintTag) None r)"

definition collect_required_signer_witness :: "required \<Rightarrow> nat \<times> bytes \<Rightarrow> required" where
  "collect_required_signer_witness r entry =
     require_vkey (snd entry) (indexed ''transaction.body.required_signers.'' (fst entry))
       (of_nat (fst entry)) r"

definition collect_required_witnesses ::
  "csl \<Rightarrow> witness_library \<Rightarrow> input_context \<Rightarrow> tx_body \<Rightarrow> provided \<Rightarrow> required" where
  "collect_required_witnesses cs wl ic body p =
     (let r = over (collect_input_witness cs wl ic (tb_inputs body) p) (Some (tb_inputs body))
                nothing_required;
          r = over (collect_collateral_witness cs ic) (tb_collateral body) r;
          keys = map_option (map fst) (tb_withdrawals body);
          r = over (collect_withdrawal_witness wl (case keys of Some ks \<Rightarrow> ks | None \<Rightarrow> []) p) keys r;
          r = over (collect_certificate_witness p) (tb_certs body) r;
          r = over (collect_voting_proposal_witness p) (tb_voting_proposals body) r;
          r = over (collect_vote_witness p) (map_option (map fst) (tb_voting_procedures body)) r;
          r = over (collect_mint_witness p) (map_option mi_keys (tb_mint body)) r
      in over collect_required_signer_witness (tb_required_signers body) r)"

end
