(* ===== verification/Witness_Validate.thy ===== *)
theory Witness_Validate
  imports Witness_Required
begin

text \<open>
  The rest of the witness validator: native scripts are run, the script data hash is computed,
  and what is required is compared with what is provided
  (\<^verbatim>\<open>src/src/validators/phase_1/validation/witness.rs\<close>,
  \<^verbatim>\<open>src/src/validators/phase_1/converter.rs\<close>).
\<close>

subsection \<open>Native scripts\<close>

definition interval_of_body :: "tx_body \<Rightarrow> validity_interval" where
  "interval_of_body body =
     \<lparr>invalid_before = tb_validity_start body, invalid_hereafter = tb_ttl body\<rparr>"

text \<open>A script that cannot be read names no key; \<open>Ed25519KeyHash::from_bytes\<close> takes 28 bytes.\<close>

definition get_native_script_key_hashes :: "csl \<Rightarrow> bytes \<Rightarrow> bytes set" where
  "get_native_script_key_hashes cs script =
     (case from_cbor (cs_minicbor cs) script of
        Inl _ \<Rightarrow> {}
      | Inr flat \<Rightarrow> set (filter (\<lambda>key. length key = 28) (key_hashes flat)))"

definition collect_native_scripts_signature_candidates ::
  "csl \<Rightarrow> provided \<Rightarrow> required_script list \<Rightarrow> bytes set" where
  "collect_native_scripts_signature_candidates cs p scripts =
     (\<Union>required \<in> set scripts.
        case map_of (pv_native_scripts p) (rq_script_hash required) of
          Some script \<Rightarrow> get_native_script_key_hashes cs script | None \<Rightarrow> {})"

definition collect_output_datums_hashes :: "tx_body \<Rightarrow> bytes set" where
  "collect_output_datums_hashes body = set (List.map_filter ou_data_hash (tb_outputs body))"

text \<open>The \<open>unwrap\<close> of the source is total: a provided script has one.\<close>

fun collect_invalid_native_scripts ::
  "csl \<Rightarrow> provided \<Rightarrow> validity_interval \<Rightarrow> required_script list \<Rightarrow> sources \<Rightarrow> string + sources" where
  "collect_invalid_native_scripts cs p interval [] bad = Inr bad"
| "collect_invalid_native_scripts cs p interval (required # rest) bad =
     (case map_of (pv_native_scripts p) (rq_script_hash required) of
        None \<Rightarrow> collect_invalid_native_scripts cs p interval rest bad
      | Some script \<Rightarrow>
          (case execute (cs_minicbor cs) script (map fst (pv_vkey_witnesses p)) interval of
             Inl e \<Rightarrow> Inl (''Failed to execute native script: '' @ e)
           | Inr holds \<Rightarrow>
               collect_invalid_native_scripts cs p interval rest
                 (if holds then bad
                  else case map_of (pv_native_script_sources p) (rq_script_hash required) of
                         Some source \<Rightarrow> AList.update (rq_script_hash required) source bad
                       | None \<Rightarrow> bad)))"

subsection \<open>The script data hash\<close>

definition pp_cost_model_to_csl :: "i64 list \<Rightarrow> cost_model" where
  "pp_cost_model_to_csl costs =
     map (\<lambda>cost. if sint cost < 0 then (True, of_int \<bar>sint cost\<bar>) else (False, of_int \<bar>sint cost\<bar>)) costs"

definition collect_used_plutus_versions :: "provided \<Rightarrow> required_script list \<Rightarrow> language list" where
  "collect_used_plutus_versions p scripts =
     foldl (\<lambda>used required.
         case map_of (pv_plutus_script_versions p) (rq_script_hash required) of
           Some version \<Rightarrow> insert_once version used | None \<Rightarrow> used) [] scripts"

fun language_text :: "language \<Rightarrow> string" where
  "language_text PlutusV1 = ''PlutusV1''"
| "language_text PlutusV2 = ''PlutusV2''"
| "language_text PlutusV3 = ''PlutusV3''"

fun cost_model_of :: "cost_models \<Rightarrow> language \<Rightarrow> string + cost_model" where
  "cost_model_of models PlutusV1 =
     (case cm_plutus_v1 models of
        None \<Rightarrow> Inl ''Plutus V1 cost model not found'' | Some m \<Rightarrow> Inr (pp_cost_model_to_csl m))"
| "cost_model_of models PlutusV2 =
     (case cm_plutus_v2 models of
        None \<Rightarrow> Inl ''Plutus V2 cost model not found'' | Some m \<Rightarrow> Inr (pp_cost_model_to_csl m))"
| "cost_model_of models PlutusV3 =
     (case cm_plutus_v3 models of
        None \<Rightarrow> Inl ''Plutus V3 cost model not found'' | Some m \<Rightarrow> Inr (pp_cost_model_to_csl m))"

fun used_cost_models ::
  "cost_models \<Rightarrow> (language \<times> cost_model) list \<Rightarrow> language list \<Rightarrow> string + (language \<times> cost_model) list" where
  "used_cost_models models acc [] = Inr acc"
| "used_cost_models models acc (version # versions) =
     (case cost_model_of models version of
        Inl e \<Rightarrow> Inl e
      | Inr m \<Rightarrow> used_cost_models models (AList.update version m acc) versions)"

definition hash_input_description :: "bool \<Rightarrow> bool \<Rightarrow> string" where
  "hash_input_description datums_only has_datums =
     (if datums_only
      then ''0xA0 (empty map) || datums (serialized per CDDL) || 0xA0 (empty map)''
      else ''redeemers (serialized per CDDL)''
        @ (if has_datums then '' || datums (serialized per CDDL)'' else [])
        @ '' || cost_models (serialized per CDDL)'')"

definition calculate_actual_script_data_hash ::
  "witness_library \<Rightarrow> input_context \<Rightarrow> witness_set \<Rightarrow> language list \<Rightarrow>
     string + string option \<times> script_data_decomposition option" where
  "calculate_actual_script_data_hash wl ic ws versions =
     (let datums = ws_plutus_data ws;
          redeemers = (case ws_redeemers ws of Some rs \<Rightarrow> rs | None \<Rightarrow> []);
          used = wl_order_languages wl versions
      in case used_cost_models (pp_cost_models (ic_protocol_parameters ic)) [] used of
           Inl e \<Rightarrow> Inl e
         | Inr models \<Rightarrow>
             if datums \<noteq> None \<or> 0 < length redeemers \<or> 0 < length models then
               (let datums_only = (length redeemers = 0 \<and> datums \<noteq> None)
                in Inr (Some (hex_encode (wl_hash_script_data wl redeemers models datums)),
                  Some
                    \<lparr>sd_encoding_format = (if datums_only then ''datums_only'' else ''standard''),
                     sd_redeemers_cbor =
                       (if 0 < length redeemers then Some (hex_encode (wl_redeemers_bytes wl redeemers))
                        else None),
                     sd_redeemers_count = of_nat (length redeemers),
                     sd_datums_cbor =
                       map_option (\<lambda>ds. ''d90102'' @ hex_encode (wl_datums_bytes wl ds)) datums,
                     sd_datums_count = map_option (\<lambda>ds. of_nat (length ds)) datums,
                     sd_cost_models_cbor =
                       (if 0 < length models then Some (hex_encode (wl_cost_models_bytes wl models))
                        else None),
                     sd_plutus_versions_used = map language_text used,
                     sd_hash_input_description =
                       hash_input_description datums_only (datums \<noteq> None)\<rparr>))
             else Inr (None, None))"

subsection \<open>The validator\<close>

definition witness_new ::
  "csl \<Rightarrow> witness_library \<Rightarrow> (bytes \<Rightarrow> decode_error option) \<Rightarrow> tx_body \<Rightarrow> witness_set \<Rightarrow> bytes \<Rightarrow>
     input_context \<Rightarrow> string + witness_validator" where
  "witness_new cs wl wfe body ws tx_hash ic =
     (case collect_provided_witnesses cs wl wfe ic body ws tx_hash of
        Inl e \<Rightarrow> Inl (''Failed to collect provided witnesses: '' @ e)
      | Inr p \<Rightarrow>
          (let r = collect_required_witnesses cs wl ic body p;
               candidates = collect_native_scripts_signature_candidates cs p (rd_native_scripts r)
           in case collect_invalid_native_scripts cs p (interval_of_body body) (rd_native_scripts r) [] of
                Inl e \<Rightarrow> Inl (''Failed to collect invalid native scripts: '' @ e)
              | Inr bad \<Rightarrow>
                  (let versions = collect_used_plutus_versions p (rd_plutus_scripts r)
                   in case calculate_actual_script_data_hash wl ic ws versions of
                        Inl e \<Rightarrow> Inl (''Failed to collect script data hash: '' @ e)
                      | Inr (expected, decomposition) \<Rightarrow>
                          Inr \<lparr>wv_provided = p, wv_required = r, wv_signature_candidates = candidates,
                               wv_output_datums_hashes = collect_output_datums_hashes body,
                               wv_invalid_native_scripts = bad, wv_used_plutus_versions = versions,
                               wv_expected_script_data_hash = expected,
                               wv_provided_script_data_hash =
                                 map_option hex_encode (tb_script_data_hash body),
                               wv_decomposition = decomposition\<rparr>)))"

text \<open>A finding of this validator may name two places.\<close>

type_synonym error_at = "phase1_error \<times> string list"
type_synonym warning_at = "phase1_warning \<times> string list"

definition missing_vkey_errors :: "witness_validator \<Rightarrow> error_at list" where
  "missing_vkey_errors v =
     concat (map (\<lambda>required.
         report (map_of (pv_vkey_witnesses (wv_provided v)) (rk_key_hash required) = None)
           (MissingVKeyWitnesses (hex_encode (rk_key_hash required)), [rk_location required]))
       (rd_vkeys (wv_required v)))"

definition invalid_signature_errors :: "witness_library \<Rightarrow> witness_validator \<Rightarrow> error_at list" where
  "invalid_signature_errors wl v =
     (let required_at =
            map_of (rev (map (\<lambda>r. (rk_key_hash r, rk_location r)) (rd_vkeys (wv_required v))))
      in map (\<lambda>(key_hash, index).
             (InvalidSignature (hex_encode key_hash),
              indexed ''transaction.witness_set.vkeys.'' (unat index)
              # (case required_at key_hash of Some at \<Rightarrow> [at] | None \<Rightarrow> [])))
           (wl_order_indices wl (pv_invalid_signatures (wv_provided v))))"

definition native_script_errors :: "witness_validator \<Rightarrow> error_at list" where
  "native_script_errors v =
     concat (map (\<lambda>required.
         report (map_of (pv_native_script_sources (wv_provided v)) (rq_script_hash required) = None)
           (MissingScriptWitnesses (hex_encode (rq_script_hash required)), [rq_location required])
         @ (case map_of (wv_invalid_native_scripts v) (rq_script_hash required) of
              Some source \<Rightarrow>
                [(NativeScriptIsUnsuccessful (hex_encode (rq_script_hash required)),
                  [rq_location required, get_location source ''native_scripts''])]
            | None \<Rightarrow> []))
       (rd_native_scripts (wv_required v)))"

definition plutus_script_errors :: "witness_validator \<Rightarrow> error_at list" where
  "plutus_script_errors v =
     concat (map (\<lambda>required.
         report (map_of (pv_plutus_script_sources (wv_provided v)) (rq_script_hash required) = None)
           (MissingScriptWitnesses (hex_encode (rq_script_hash required)), [rq_location required]))
       (rd_plutus_scripts (wv_required v)))"

definition redeemer_errors :: "witness_library \<Rightarrow> witness_validator \<Rightarrow> error_at list" where
  "redeemer_errors wl v =
     concat (map (\<lambda>required.
         report ((re_tag required, re_index required) \<notin> pv_redeemers (wv_provided v))
           (MissingRedeemer (wl_tag_text wl (re_tag required)) (re_index required),
            [re_location required]))
       (rd_redeemers (wv_required v)))"

definition datum_errors :: "witness_validator \<Rightarrow> error_at list" where
  "datum_errors v =
     concat (map (\<lambda>required.
         report (map_of (pv_datum_sources (wv_provided v)) (rm_datum_hash required) = None)
           (MissingDatum (hex_encode (rm_datum_hash required)), [rm_location required]))
       (rd_datums (wv_required v)))"

definition unknown_script_errors :: "witness_validator \<Rightarrow> error_at list" where
  "unknown_script_errors v =
     map (\<lambda>required.
         (MissingScriptWitnesses (hex_encode (rq_script_hash required)), [rq_location required]))
       (rd_unknown_scripts (wv_required v))"

fun in_witness_set :: "witness_source \<Rightarrow> bool" where
  "in_witness_set (InWitnessSet i) = True"
| "in_witness_set source = False"

text \<open>The entries of the witness set no requirement names.\<close>

definition extraneous ::
  "witness_library \<Rightarrow> sources \<Rightarrow> bytes set \<Rightarrow> (string \<Rightarrow> phase1_error) \<Rightarrow> string \<Rightarrow> error_at list" where
  "extraneous wl held needed err entity =
     concat (map (\<lambda>(h, source).
         report (h \<notin> needed \<and> in_witness_set source) (err (hex_encode h), [get_location source entity]))
       (wl_order_sources wl held))"

definition extraneous_errors :: "witness_library \<Rightarrow> witness_validator \<Rightarrow> error_at list" where
  "extraneous_errors wl v =
     (let p = wv_provided v; r = wv_required v
      in extraneous wl (pv_native_script_sources p) (rq_script_hash ` set (rd_native_scripts r))
           ExtraneousScriptWitnesses ''native_scripts''
         @ extraneous wl (pv_plutus_script_sources p) (rq_script_hash ` set (rd_plutus_scripts r))
             ExtraneousScriptWitnesses ''plutus_scripts''
         @ extraneous wl (pv_datum_sources p)
             (rm_datum_hash ` set (rd_datums r) \<union> wv_output_datums_hashes v)
             ExtraneousDatumWitnesses ''plutus_data'')"

definition extraneous_signature_errors :: "witness_library \<Rightarrow> witness_validator \<Rightarrow> error_at list" where
  "extraneous_signature_errors wl v =
     (let needed = rk_key_hash ` set (rd_vkeys (wv_required v)) \<union> wv_signature_candidates v
      in concat (map (\<lambda>(key_hash, index).
             report (key_hash \<notin> needed)
               (ExtraneousSignature (hex_encode key_hash),
                [indexed ''transaction.witness_set.vkeys.'' (unat index)]))
           (wl_order_indices wl (pv_vkey_witnesses (wv_provided v)))))"

definition script_data_hash_errors :: "witness_validator \<Rightarrow> error_at list" where
  "script_data_hash_errors v =
     report (wv_provided_script_data_hash v \<noteq> wv_expected_script_data_hash v)
       (ScriptDataHashMismatch (wv_expected_script_data_hash v) (wv_provided_script_data_hash v)
          (wv_decomposition v), [''transaction.body.script_data_hash''])"

definition not_examined_warnings :: "witness_validator \<Rightarrow> warning_at list" where
  "not_examined_warnings v =
     concat (map (\<lambda>required.
         case map_of (pv_unexamined_native_scripts (wv_provided v)) (rq_script_hash required) of
           Some reason \<Rightarrow>
             [(NativeScriptNotExamined (hex_encode (rq_script_hash required)) reason,
               [rq_location required])]
         | None \<Rightarrow> [])
       (rd_native_scripts (wv_required v)))"

definition witness_validate ::
  "witness_library \<Rightarrow> witness_validator \<Rightarrow> error_at list \<times> warning_at list" where
  "witness_validate wl v =
     (missing_vkey_errors v @ invalid_signature_errors wl v @ native_script_errors v
      @ plutus_script_errors v @ redeemer_errors wl v @ datum_errors v @ unknown_script_errors v
      @ extraneous_errors wl v @ extraneous_signature_errors wl v @ script_data_hash_errors v,
      not_examined_warnings v)"

end
