(* ===== verification/Balance.thy ===== *)
theory Balance
  imports Validation_Result
begin

text \<open>
  The balance validator (\<^verbatim>\<open>src/src/validators/phase_1/validation/balance.rs\<close>): what a
  transaction consumes and produces, deposits, refunds, withdrawals, mints and burns included,
  and the errors its validation reports.
\<close>

subsection \<open>What is consumed and produced\<close>

datatype deposit_type =
    VotingProposalDeposit i128 u32
  | StakeRegistrationDeposit i128 u32
  | DrepRegistrationDeposit i128 u32
  | PoolRegistrationDeposit i128 u32

datatype refund_type =
    StakeDeregistrationRefund i128 u32 string
  | DrepDeregistrationRefund i128 u32 string

record withdrawal =
  wd_amount :: u64
  wd_index :: u32
  wd_reward_address :: string

record inputs_decomposition =
  id_total_inputs :: val
  id_refunds :: "refund_type list"
  id_withdrawals :: "withdrawal list"
  id_mints :: multi_asset

record outputs_decomposition =
  od_total_output :: val
  od_deposits :: "deposit_type list"
  od_burn :: multi_asset
  od_fees :: i128
  od_donation :: i128

fun refund_amount :: "refund_type \<Rightarrow> i128" where
  "refund_amount (StakeDeregistrationRefund amount index reward) = amount"
| "refund_amount (DrepDeregistrationRefund amount index drep) = amount"

fun deposit_amount :: "deposit_type \<Rightarrow> i128" where
  "deposit_amount (VotingProposalDeposit amount index) = amount"
| "deposit_amount (StakeRegistrationDeposit amount index) = amount"
| "deposit_amount (DrepRegistrationDeposit amount index) = amount"
| "deposit_amount (PoolRegistrationDeposit amount index) = amount"

text \<open>\<open>get_total_sum\<close> of either side.\<close>

definition inputs_total_sum :: "inputs_decomposition \<Rightarrow> val" where
  "inputs_total_sum d =
     (let acc = foldl (\<lambda>acc r. add_coins acc (refund_amount r)) (id_total_inputs d) (id_refunds d);
          acc = add_multiasset acc (id_mints d)
      in foldl (\<lambda>acc w. add_coins acc (ucast (wd_amount w))) acc (id_withdrawals d))"

definition outputs_total_sum :: "outputs_decomposition \<Rightarrow> val" where
  "outputs_total_sum d =
     (let acc = add_multiasset (od_total_output d) (od_burn d);
          acc = add_coins acc (od_fees d);
          acc = foldl (\<lambda>acc p. add_coins acc (deposit_amount p)) acc (od_deposits d)
      in add_coins acc (od_donation d))"

subsection \<open>Reading the transaction\<close>

fun total_inputs_from :: "input_context \<Rightarrow> val \<Rightarrow> csl_input list \<Rightarrow> string + val" where
  "total_inputs_from ic acc [] = Inr acc"
| "total_inputs_from ic acc (i # inputs) =
     (case find_input ic i of
        Some u \<Rightarrow>
          (case new_from_common_assets (to_amount (ux_output (uc_utxo u))) of
             Inl e \<Rightarrow> Inl e
           | Inr v \<Rightarrow> total_inputs_from ic (value_add acc v) inputs)
      | None \<Rightarrow> total_inputs_from ic acc inputs)"

definition calculate_total_inputs :: "tx_body \<Rightarrow> input_context \<Rightarrow> string + val" where
  "calculate_total_inputs body ic = total_inputs_from ic (value_of_coins 0) (tb_inputs body)"

definition stake_deregistration_refund ::
  "csl \<Rightarrow> input_context \<Rightarrow> u32 \<Rightarrow> credential \<Rightarrow> u64 option \<Rightarrow> refund_type list" where
  "stake_deregistration_refund cs ic i c coin =
     (let payedout = credential_to_bech32_reward_address cs c (ic_network_type ic);
          account = find_account_context ic payedout
      in case coin of
           Some refund \<Rightarrow> [StakeDeregistrationRefund (big_num refund) i payedout]
         | None \<Rightarrow>
             (case account of
                Some a \<Rightarrow>
                  (case ac_payed_deposit a of
                     Some payed \<Rightarrow> [StakeDeregistrationRefund (ucast payed) i payedout]
                   | None \<Rightarrow> [])
              | None \<Rightarrow>
                  [StakeDeregistrationRefund
                     (ucast (pp_stake_key_deposit (ic_protocol_parameters ic))) i payedout]))"

text \<open>The refunds and the deposits of one certificate.\<close>

definition certificate_flows ::
  "csl \<Rightarrow> input_context \<Rightarrow> nat \<Rightarrow> certificate \<Rightarrow> refund_type list \<times> deposit_type list" where
  "certificate_flows cs ic i cert =
     (let index = of_nat i; pp = ic_protocol_parameters ic in
      case cert of
        StakeRegistration c coin \<Rightarrow>
          (case coin of
             Some deposit \<Rightarrow> ([], [StakeRegistrationDeposit (big_num deposit) index])
           | None \<Rightarrow> ([], [StakeRegistrationDeposit (ucast (pp_stake_key_deposit pp)) index]))
      | StakeDeregistration c coin \<Rightarrow> (stake_deregistration_refund cs ic index c coin, [])
      | PoolRegistration operator cost owners \<Rightarrow>
          (let registered =
             (case find_pool_context ic (hex_encode operator) of
                Some p \<Rightarrow> pc_is_registered p | None \<Rightarrow> False)
           in ([], if \<not> registered
                   then [PoolRegistrationDeposit (ucast (pp_stake_pool_deposit pp)) index] else []))
      | DRepDeregistration c coin \<Rightarrow>
          (let drep = (case cs_drep_bech32 cs c of Some s \<Rightarrow> s | None \<Rightarrow> [])
           in ([DrepDeregistrationRefund (big_num coin) index drep], []))
      | DRepRegistration c coin \<Rightarrow> ([], [DrepRegistrationDeposit (big_num coin) index])
      | StakeRegistrationAndDelegation c pool coin \<Rightarrow>
          ([], [StakeRegistrationDeposit (big_num coin) index])
      | StakeVoteRegistrationAndDelegation c pool drep coin \<Rightarrow>
          ([], [StakeRegistrationDeposit (big_num coin) index])
      | VoteRegistrationAndDelegation c drep coin \<Rightarrow>
          ([], [StakeRegistrationDeposit (big_num coin) index])
      | _ \<Rightarrow> ([], []))"

definition calculate_deposits_and_refunds ::
  "csl \<Rightarrow> tx_body \<Rightarrow> input_context \<Rightarrow> refund_type list \<times> deposit_type list" where
  "calculate_deposits_and_refunds cs body ic =
     (case tb_certs body of
        None \<Rightarrow> ([], [])
      | Some certs \<Rightarrow>
          foldl (\<lambda>(refunds, deposits) (i, cert).
              let (rs, ds) = certificate_flows cs ic i cert in (refunds @ rs, deposits @ ds))
            ([], []) (enumerate 0 certs))"

definition calculate_voting_proposals_deposits :: "tx_body \<Rightarrow> deposit_type list" where
  "calculate_voting_proposals_deposits body =
     (case tb_voting_proposals body of
        None \<Rightarrow> []
      | Some proposals \<Rightarrow>
          map (\<lambda>(i, p). VotingProposalDeposit (big_num (vp_deposit p)) (of_nat i)) (enumerate 0 proposals))"

definition get_withdrawals :: "tx_body \<Rightarrow> withdrawal list" where
  "get_withdrawals body =
     (case tb_withdrawals body of
        None \<Rightarrow> []
      | Some withdrawals \<Rightarrow>
          concat (map (\<lambda>(i, key, amount).
              case amount of
                None \<Rightarrow> []
              | Some amount \<Rightarrow>
                  [\<lparr>wd_amount = amount, wd_index = of_nat i,
                    wd_reward_address = (case ra_bech32 key of Some s \<Rightarrow> s | None \<Rightarrow> [])\<rparr>])
            (enumerate 0 withdrawals)))"

subsection \<open>Mints and burns\<close>

definition mint_asset :: "bool \<Rightarrow> bytes \<Rightarrow> multi_asset \<Rightarrow> bytes \<times> int option \<Rightarrow> multi_asset" where
  "mint_asset positive policy side na =
     (case snd na of
        None \<Rightarrow> side
      | Some amount \<Rightarrow>
          (case parse_i128 (signed_decimal amount) of
             Inl _ \<Rightarrow> side
           | Inr quantity \<Rightarrow>
               if (0 < quantity) = positive \<and> quantity \<noteq> 0
               then add_asset side (hex_encode policy @ hex_encode (fst na)) (of_int \<bar>quantity\<bar>)
               else side))"

definition mint_entry :: "bool \<Rightarrow> bytes \<Rightarrow> multi_asset \<Rightarrow> mint_assets option \<Rightarrow> multi_asset" where
  "mint_entry positive policy side assets =
     (case assets of None \<Rightarrow> side | Some assets \<Rightarrow> foldl (mint_asset positive policy) side assets)"

fun mint_policies :: "mint \<Rightarrow> bool \<Rightarrow> string set \<Rightarrow> multi_asset \<Rightarrow> bytes list \<Rightarrow> multi_asset" where
  "mint_policies m positive seen side [] = side"
| "mint_policies m positive seen side (policy # policies) =
     (if hex_encode policy \<in> seen then mint_policies m positive seen side policies
      else mint_policies m positive (insert (hex_encode policy) seen)
             (case mi_get m policy of
                None \<Rightarrow> side
              | Some entries \<Rightarrow> foldl (mint_entry positive policy) side entries)
             policies)"

definition mint_side :: "mint \<Rightarrow> bool \<Rightarrow> multi_asset" where
  "mint_side m positive = mint_policies m positive {} [] (mi_keys m)"

definition calculate_mints :: "tx_body \<Rightarrow> multi_asset" where
  "calculate_mints body =
     (case tb_mint body of
        None \<Rightarrow> []
      | Some m \<Rightarrow>
          (case mi_positive m of
             Some minted \<Rightarrow> new_from_csl_multiasset True minted
           | None \<Rightarrow> mint_side m True))"

definition calculate_burn :: "tx_body \<Rightarrow> multi_asset" where
  "calculate_burn body =
     (case tb_mint body of
        None \<Rightarrow> []
      | Some m \<Rightarrow>
          (case mi_negative m of
             Some burnt \<Rightarrow> new_from_csl_multiasset True burnt
           | None \<Rightarrow> mint_side m False))"

definition calculate_total_output :: "tx_body \<Rightarrow> val" where
  "calculate_total_output body =
     foldl value_add (value_of_coins 0)
       (map (\<lambda>out. new_from_csl_value (ou_amount out)) (tb_outputs body))"

definition get_donation :: "tx_body \<Rightarrow> i128" where
  "get_donation body = (case tb_donation body of Some d \<Rightarrow> big_num d | None \<Rightarrow> 0)"

subsection \<open>The validator\<close>

record balance_validator =
  bv_inputs :: inputs_decomposition
  bv_outputs :: outputs_decomposition
  bv_total_full_input :: val
  bv_total_full_output :: val
  bv_treasury_value :: "u64 option"

definition balance_new :: "csl \<Rightarrow> tx_body \<Rightarrow> input_context \<Rightarrow> string + balance_validator" where
  "balance_new cs body ic =
     (case calculate_total_inputs body ic of
        Inl e \<Rightarrow> Inl (''Invalid UTxO in the validation context: '' @ e)
      | Inr total_inputs \<Rightarrow>
          (let (refunds, cert_deposits) = calculate_deposits_and_refunds cs body ic;
               inputs =
                 \<lparr>id_total_inputs = total_inputs, id_refunds = refunds,
                  id_withdrawals = get_withdrawals body, id_mints = calculate_mints body\<rparr>;
               outputs =
                 \<lparr>od_total_output = calculate_total_output body,
                  od_deposits = calculate_voting_proposals_deposits body @ cert_deposits,
                  od_burn = calculate_burn body, od_fees = big_num (tb_fee body),
                  od_donation = get_donation body\<rparr>
           in Inr \<lparr>bv_inputs = inputs, bv_outputs = outputs,
                  bv_total_full_input = inputs_total_sum inputs,
                  bv_total_full_output = outputs_total_sum outputs,
                  bv_treasury_value = tb_current_treasury_value body\<rparr>))"

definition is_key_hash_reward_address :: "csl \<Rightarrow> string \<Rightarrow> bool" where
  "is_key_hash_reward_address cs text =
     (case address_from_bech32 (cs_bech32_decode cs) (cs_address_of_bech32 cs) text of
        Inl _ \<Rightarrow> False
      | Inr a \<Rightarrow>
          (case ad_reward a of
             None \<Rightarrow> False
           | Some r \<Rightarrow> cr_kind (ra_payment_cred r) = KeyKind))"

definition withdrawal_errors :: "csl \<Rightarrow> input_context \<Rightarrow> withdrawal \<Rightarrow> located_error list" where
  "withdrawal_errors cs ic w =
     (let reward = wd_reward_address w;
          at = indexed ''transaction.body.withdrawals.'' (unat (wd_index w))
      in case find_account_context ic reward of
           None \<Rightarrow> [(RewardAccountNotExisting reward, at)]
         | Some account \<Rightarrow>
             if ac_is_registered account then
               (case ac_balance account of
                  Some balance \<Rightarrow>
                    report (wd_amount w \<noteq> balance)
                      (WrongRequestedWithdrawalAmount (ucast balance) (ucast (wd_amount w)) reward, at)
                | None \<Rightarrow> [])
               @ report (ac_delegated_to_drep account = None \<and> is_key_hash_reward_address cs reward)
                   (WithdrawalNotAllowedBecauseNotDelegatedToDRep reward, at)
             else [(RewardAccountNotExisting reward, at)])"

fun deposit_errors :: "protocol_parameters \<Rightarrow> deposit_type \<Rightarrow> located_error list" where
  "deposit_errors pp (StakeRegistrationDeposit amount index) =
     report (amount \<noteq> ucast (pp_stake_key_deposit pp))
       (StakeRegistrationWrongDeposit amount (ucast (pp_stake_key_deposit pp)),
        indexed ''transaction.body.certs.'' (unat index))"
| "deposit_errors pp (DrepRegistrationDeposit amount index) =
     report (amount \<noteq> ucast (pp_drep_deposit pp))
       (DRepIncorrectDeposit amount (ucast (pp_drep_deposit pp)),
        indexed ''transaction.body.certs.'' (unat index))"
| "deposit_errors pp (PoolRegistrationDeposit amount index) =
     report (amount \<noteq> ucast (pp_stake_pool_deposit pp))
       (PoolRegistrationWrongDeposit amount (ucast (pp_stake_pool_deposit pp)),
        indexed ''transaction.body.certs.'' (unat index))"
| "deposit_errors pp (VotingProposalDeposit amount index) =
     report (amount \<noteq> ucast (pp_governance_action_deposit pp))
       (VotingProposalIncorrectDeposit amount (ucast (pp_governance_action_deposit pp)) index,
        indexed ''transaction.body.voting_proposals.'' (unat index))"

text \<open>A refund is compared with the deposit on record; without one it cannot be checked.\<close>

fun refund_recorded :: "input_context \<Rightarrow> refund_type \<Rightarrow> u64 option" where
  "refund_recorded ic (StakeDeregistrationRefund amount index reward) =
     (case find_account_context ic reward of Some a \<Rightarrow> ac_payed_deposit a | None \<Rightarrow> None)"
| "refund_recorded ic (DrepDeregistrationRefund amount index drep) =
     (case find_drep_context ic drep of Some d \<Rightarrow> dc_payed_deposit d | None \<Rightarrow> None)"

fun refund_wrong :: "refund_type \<Rightarrow> u64 \<Rightarrow> located_error list" where
  "refund_wrong (StakeDeregistrationRefund amount index reward) payed =
     report (amount \<noteq> ucast payed)
       (StakeDeregistrationWrongRefund amount (ucast payed),
        indexed ''transaction.body.certs.'' (unat index))"
| "refund_wrong (DrepDeregistrationRefund amount index drep) payed =
     report (amount \<noteq> ucast payed)
       (DRepDeregistrationWrongRefund amount (ucast payed),
        indexed ''transaction.body.certs.'' (unat index))"

fun refund_unchecked :: "refund_type \<Rightarrow> located_warning" where
  "refund_unchecked (StakeDeregistrationRefund amount index reward) =
     (CannotCheckStakeDeregistrationRefund, indexed ''transaction.body.certs.'' (unat index))"
| "refund_unchecked (DrepDeregistrationRefund amount index drep) =
     (CannotCheckDRepDeregistrationRefund, indexed ''transaction.body.certs.'' (unat index))"

definition refund_errors :: "input_context \<Rightarrow> refund_type \<Rightarrow> located_error list" where
  "refund_errors ic r =
     (case refund_recorded ic r of Some payed \<Rightarrow> refund_wrong r payed | None \<Rightarrow> [])"

definition refund_warnings :: "input_context \<Rightarrow> refund_type \<Rightarrow> located_warning list" where
  "refund_warnings ic r = report (refund_recorded ic r = None) (refund_unchecked r)"

definition balance_validate ::
  "csl \<Rightarrow> input_context \<Rightarrow> balance_validator \<Rightarrow> ('e, 'w, 'r) validation_result" where
  "balance_validate cs ic bv =
     (let full_in = bv_total_full_input bv; full_out = bv_total_full_output bv in
      new_phase_1
        (report (\<not> value_eq full_in full_out)
           (ValueNotConservedUTxO full_in full_out (value_subtract full_in full_out), ''transaction.body'')
         @ (case bv_treasury_value bv of
              Some treasury \<Rightarrow>
                report (ic_treasury_value ic \<noteq> treasury)
                  (TreasuryValueMismatch (ic_treasury_value ic) treasury,
                   ''transaction.body.current_treasury_value'')
            | None \<Rightarrow> [])
         @ concat (map (withdrawal_errors cs ic) (id_withdrawals (bv_inputs bv)))
         @ concat (map (deposit_errors (ic_protocol_parameters ic)) (od_deposits (bv_outputs bv)))
         @ concat (map (refund_errors ic) (id_refunds (bv_inputs bv))))
        (concat (map (refund_warnings ic) (id_refunds (bv_inputs bv)))))"

end
