(* ===== verification/Balance_Facts.thy ===== *)
theory Balance_Facts
  imports Balance
begin

text \<open>
  What the balance validator guarantees: amounts read back from their decimal text, values
  summed quantity by quantity, mints and burns that add up to the net mint, and the
  conservation equation its first check decides.
\<close>

subsection \<open>Quantities read from decimal text\<close>

lemma parse_digits_append:
  "parse_digits negative acc (xs @ ys) =
     (case parse_digits negative acc xs of Inl e \<Rightarrow> Inl e | Inr a \<Rightarrow> parse_digits negative a ys)"
  by (induction negative acc xs rule: parse_digits.induct) (auto split: option.split simp: Let_def)

lemma to_digit_digit: "d < 10 \<Longrightarrow> to_digit (digit d) = Some (int d)"
  by (simp add: to_digit_def digit_def Let_def)

lemma parse_digits_decimal:
  "int n \<le> i128_max \<Longrightarrow> parse_digits False 0 (decimal n) = Inr (int n)"
  "int n \<le> - i128_min \<Longrightarrow> parse_digits True 0 (decimal n) = Inr (- int n)"
proof (induction n rule: less_induct)
  case (less n)
  {
    case 1
    show ?case
    proof (cases "n < 10")
      case True
      with 1 show ?thesis
        by (simp add: decimal.simps [of n] to_digit_digit i128_min_def i128_max_def)
    next
      case False
      have "10 * int (n div 10) + int (n mod 10) = int n"
        by presburger
      moreover have "parse_digits False 0 (decimal (n div 10)) = Inr (int (n div 10))"
        using False 1 by (intro less.IH) (auto simp: i128_max_def zdiv_int)
      ultimately show ?thesis
        using False 1
        by (simp add: decimal.simps [of n] parse_digits_append to_digit_digit i128_min_def i128_max_def Let_def)
    qed
  next
    case 2
    show ?case
    proof (cases "n < 10")
      case True
      with 2 show ?thesis
        by (simp add: decimal.simps [of n] to_digit_digit i128_min_def i128_max_def)
    next
      case False
      have "10 * int (n div 10) + int (n mod 10) = int n"
        by presburger
      moreover have "parse_digits True 0 (decimal (n div 10)) = Inr (- int (n div 10))"
        using False 2 by (intro less.IH) (auto simp: i128_min_def zdiv_int)
      ultimately show ?thesis
        using False 2
        by (simp add: decimal.simps [of n] parse_digits_append to_digit_digit i128_min_def i128_max_def Let_def)
    qed
  }
qed

lemma decimal_first:
  "\<exists>d cs. decimal n = digit d # cs \<and> d < 10"
proof (induction n rule: less_induct)
  case (less n)
  show ?case
  proof (cases "n < 10")
    case False
    then obtain d cs where "decimal (n div 10) = digit d # cs" "d < 10"
      using less [of "n div 10"] by auto
    with False show ?thesis by (auto simp: decimal.simps [of n])
  qed (auto simp: decimal.simps [of n])
qed

lemma digit_not_sign: "d < 10 \<Longrightarrow> digit d \<noteq> CHR ''+'' \<and> digit d \<noteq> CHR ''-''"
proof -
  assume "d < 10"
  then have "of_char (digit d) = (48 + d :: nat)"
    by (simp add: digit_def)
  then show ?thesis by auto
qed

lemma parse_decimal: "int n \<le> i128_max \<Longrightarrow> parse_i128 (decimal n) = Inr (int n)"
  using decimal_first [of n] digit_not_sign parse_digits_decimal(1) [of n] by auto

lemma parse_signed_decimal:
  assumes "i128_min \<le> n" "n \<le> i128_max"
  shows "parse_i128 (signed_decimal n) = Inr n"
proof (cases "n < 0")
  case True
  with assms parse_digits_decimal(2) [of "nat (- n)"] decimal_first [of "nat (- n)"]
  show ?thesis by (auto simp: signed_decimal_def)
next
  case False
  with assms parse_decimal [of "nat n"] show ?thesis by (simp add: signed_decimal_def)
qed

lemma big_num_ucast [simp]: "big_num n = ucast n"
proof -
  have "uint n < 2 ^ LENGTH(64)" by (rule unsigned_less)
  then have "int (unat n) \<le> i128_max"
    by (simp add: i128_max_def)
  then have "big_num n = of_int (int (unat n))"
    by (simp add: big_num_def parse_or_zero_def parse_decimal)
  also have "\<dots> = ucast n"
    by simp
  finally show ?thesis .
qed

subsection \<open>Sums of values\<close>

text \<open>The quantity of a unit in a value, and the same for the sums the validator builds.\<close>

definition held :: "val \<Rightarrow> string \<Rightarrow> i128" where
  "held v u = quantity_of (val_assets v) u"

lemma held_zero [simp]: "held value_zero u = 0" "held (value_of_coins c) u = 0"
  by (simp_all add: held_def value_defs)

lemma held_ops [simp]:
  "value_sound v \<Longrightarrow> value_sound w \<Longrightarrow> held (value_add v w) u = held v u + held w u"
  "value_sound v \<Longrightarrow> multi_sound m \<Longrightarrow> held (add_multiasset v m) u = held v u + quantity_of m u"
  "held (add_coins v c) u = held v u"
  by (simp_all add: held_def value_defs quantity_multi_add)

lemma coins_ops [simp]:
  "val_coins (value_add v w) = val_coins v + val_coins w"
  "val_coins (add_multiasset v m) = val_coins v"
  "val_coins (add_coins v c) = val_coins v + c"
  "val_coins value_zero = 0" "val_coins (value_of_coins c) = c"
  by (simp_all add: value_defs)

lemma sound_ops [simp]:
  "value_sound v \<Longrightarrow> value_sound (value_add v w)"
  "value_sound v \<Longrightarrow> value_sound (add_multiasset v m)"
  "value_sound v \<Longrightarrow> value_sound (add_coins v c)"
  by (auto intro: value_sound_ops)

lemma foldl_add_coins:
  "val_coins (foldl (\<lambda>v x. add_coins v (f x)) v xs) = val_coins v + sum_list (map f xs)"
  "held (foldl (\<lambda>v x. add_coins v (f x)) v xs) u = held v u"
  "value_sound v \<Longrightarrow> value_sound (foldl (\<lambda>v x. add_coins v (f x)) v xs)"
  by (induction xs arbitrary: v) (simp_all add: add.assoc)

lemma foldl_value_add:
  assumes "value_sound v" "\<forall>w \<in> set ws. value_sound w"
  shows "value_sound (foldl value_add v ws)"
    and "val_coins (foldl value_add v ws) = val_coins v + sum_list (map val_coins ws)"
    and "held (foldl value_add v ws) u = held v u + sum_list (map (\<lambda>w. held w u) ws)"
  using assms by (induction ws arbitrary: v) (simp_all add: add.assoc)

lemma inputs_total_coins:
  "val_coins (inputs_total_sum d) = val_coins (id_total_inputs d)
     + sum_list (map refund_amount (id_refunds d))
     + sum_list (map (\<lambda>w. ucast (wd_amount w)) (id_withdrawals d))"
  by (simp add: inputs_total_sum_def Let_def foldl_add_coins)

lemma outputs_total_coins:
  "val_coins (outputs_total_sum d) = val_coins (od_total_output d) + od_fees d
     + sum_list (map deposit_amount (od_deposits d)) + od_donation d"
  by (simp add: outputs_total_sum_def Let_def foldl_add_coins)

lemma inputs_total_held:
  assumes "value_sound (id_total_inputs d)" "multi_sound (id_mints d)"
  shows "value_sound (inputs_total_sum d)"
    and "held (inputs_total_sum d) u = held (id_total_inputs d) u + quantity_of (id_mints d) u"
  using assms by (simp_all add: inputs_total_sum_def Let_def foldl_add_coins)

lemma outputs_total_held:
  assumes "value_sound (od_total_output d)" "multi_sound (od_burn d)"
  shows "value_sound (outputs_total_sum d)"
    and "held (outputs_total_sum d) u = held (od_total_output d) u + quantity_of (od_burn d) u"
  using assms by (simp_all add: outputs_total_sum_def Let_def foldl_add_coins)

subsection \<open>The parts of the transaction\<close>

lemma value_of_common_assets_ok:
  "new_from_common_assets assets = Inr v \<Longrightarrow> value_sound v"
  using value_of_common_assets_sound [of value_zero assets v] by (simp add: new_from_common_assets_def)

lemma new_from_csl_assets_sound:
  "multi_sound multi \<Longrightarrow> multi_sound (new_from_csl_assets ab policy assets multi)"
  unfolding new_from_csl_assets_def
  by (induction assets arbitrary: multi) (auto simp: Let_def add_asset_contract)

lemma new_from_csl_multiasset_sound: "multi_sound (new_from_csl_multiasset ab multiasset)"
proof -
  have "multi_sound (foldl (\<lambda>multi (policy, assets).
      case assets of Some assets \<Rightarrow> new_from_csl_assets ab policy assets multi | None \<Rightarrow> multi)
      multi multiasset)" if "multi_sound multi" for multi
    using that
    by (induction multiasset arbitrary: multi)
      (auto simp: new_from_csl_assets_sound split: option.split)
  then show ?thesis
    by (simp add: new_from_csl_multiasset_def)
qed

lemma new_from_csl_value_sound: "value_sound (new_from_csl_value v)"
  by (simp add: new_from_csl_value_def value_sound_def new_from_csl_multiasset_sound
      split: option.split)

lemma mint_asset_sound: "multi_sound side \<Longrightarrow> multi_sound (mint_asset p policy side na)"
  by (simp add: mint_asset_def add_asset_contract split: option.split sum.split)

lemma mint_entry_sound: "multi_sound side \<Longrightarrow> multi_sound (mint_entry p policy side assets)"
proof -
  have "multi_sound side \<Longrightarrow> multi_sound (foldl (mint_asset p policy) side nas)" for nas
    by (induction nas arbitrary: side) (simp_all add: mint_asset_sound)
  then show "multi_sound side \<Longrightarrow> multi_sound (mint_entry p policy side assets)"
    by (simp add: mint_entry_def split: option.split)
qed

lemma mint_entries_sound:
  "multi_sound side \<Longrightarrow> multi_sound (foldl (mint_entry p policy) side entries)"
  by (induction entries arbitrary: side) (simp_all add: mint_entry_sound)

lemma mint_side_sound: "multi_sound (mint_side m p)"
proof -
  have "multi_sound side \<Longrightarrow> multi_sound (mint_policies m p seen side policies)" for seen side policies
    by (induction m p seen side policies rule: mint_policies.induct)
      (simp_all add: mint_entries_sound split: option.split)
  then show ?thesis by (simp add: mint_side_def)
qed

lemma mints_sound: "multi_sound (calculate_mints body)" "multi_sound (calculate_burn body)"
  by (simp_all add: calculate_mints_def calculate_burn_def mint_side_sound
      new_from_csl_multiasset_sound split: option.split)

text \<open>The value an input brings in: that of the UTxO it spends, nothing when it is unknown.\<close>

definition input_value :: "input_context \<Rightarrow> csl_input \<Rightarrow> val" where
  "input_value ic i =
     (case find_input ic i of
        Some u \<Rightarrow>
          (case new_from_common_assets (to_amount (ux_output (uc_utxo u))) of
             Inr v \<Rightarrow> v | Inl _ \<Rightarrow> value_zero)
      | None \<Rightarrow> value_zero)"

lemma input_value_sound: "value_sound (input_value ic i)"
  by (auto simp: input_value_def value_of_common_assets_ok split: option.split sum.split)

lemma total_inputs_from_sums:
  assumes "total_inputs_from ic acc inputs = Inr v" "value_sound acc"
  shows "value_sound v \<and>
    val_coins v = val_coins acc + sum_list (map (\<lambda>i. val_coins (input_value ic i)) inputs) \<and>
    held v u = held acc u + sum_list (map (\<lambda>i. held (input_value ic i) u) inputs)"
  using assms
proof (induction ic acc inputs rule: total_inputs_from.induct)
  case (2 ic acc i inputs)
  show ?case
  proof (cases "find_input ic i")
    case None
    with 2 show ?thesis by (simp add: input_value_def)
  next
    case (Some ut)
    with "2.prems" obtain w where
      w: "new_from_common_assets (to_amount (ux_output (uc_utxo ut))) = Inr w"
      by (auto split: sum.splits)
    with Some have iv: "input_value ic i = w" by (simp add: input_value_def)
    have "value_sound w" by (rule value_of_common_assets_ok [OF w])
    with "2.IH"(2) [OF Some w] "2.prems" Some w show ?thesis
      by (simp add: iv add.assoc)
  qed
qed simp

lemma total_output_sums:
  "value_sound (calculate_total_output body)"
  "val_coins (calculate_total_output body) =
     sum_list (map (\<lambda>out. ucast (cv_coin (ou_amount out))) (tb_outputs body))"
  "held (calculate_total_output body) u =
     sum_list (map (\<lambda>out. held (new_from_csl_value (ou_amount out)) u) (tb_outputs body))"
proof -
  have sound: "\<forall>w \<in> set (map (\<lambda>out. new_from_csl_value (ou_amount out)) (tb_outputs body)). value_sound w"
    by (auto simp: new_from_csl_value_sound)
  have coins: "val_coins (new_from_csl_value v) = ucast (cv_coin v)" for v
    by (simp add: new_from_csl_value_def)
  show "value_sound (calculate_total_output body)"
    "val_coins (calculate_total_output body) =
       sum_list (map (\<lambda>out. ucast (cv_coin (ou_amount out))) (tb_outputs body))"
    "held (calculate_total_output body) u =
       sum_list (map (\<lambda>out. held (new_from_csl_value (ou_amount out)) u) (tb_outputs body))"
    using foldl_value_add [OF _ sound, of "value_of_coins 0"]
    by (simp_all add: calculate_total_output_def coins comp_def)
qed

subsection \<open>The conservation equation\<close>

lemma balance_new_parts:
  assumes "balance_new cs body ic = Inr bv"
  obtains refunds deposits where
    "calculate_deposits_and_refunds cs body ic = (refunds, deposits)"
    "calculate_total_inputs body ic = Inr (id_total_inputs (bv_inputs bv))"
    "id_refunds (bv_inputs bv) = refunds"
    "id_withdrawals (bv_inputs bv) = get_withdrawals body"
    "id_mints (bv_inputs bv) = calculate_mints body"
    "od_total_output (bv_outputs bv) = calculate_total_output body"
    "od_deposits (bv_outputs bv) = calculate_voting_proposals_deposits body @ deposits"
    "od_burn (bv_outputs bv) = calculate_burn body"
    "od_fees (bv_outputs bv) = ucast (tb_fee body)"
    "od_donation (bv_outputs bv) = get_donation body"
    "bv_total_full_input bv = inputs_total_sum (bv_inputs bv)"
    "bv_total_full_output bv = outputs_total_sum (bv_outputs bv)"
    "bv_treasury_value bv = tb_current_treasury_value body"
  using assms by (auto simp: balance_new_def Let_def split: sum.splits prod.splits)

lemma total_inputs_sums:
  assumes "calculate_total_inputs body ic = Inr v"
  shows "value_sound v"
    and "val_coins v = sum_list (map (\<lambda>i. val_coins (input_value ic i)) (tb_inputs body))"
    and "held v u = sum_list (map (\<lambda>i. held (input_value ic i) u) (tb_inputs body))"
  using total_inputs_from_sums [of ic "value_of_coins 0" "tb_inputs body" v u] assms
  by (simp_all add: calculate_total_inputs_def)

lemma balance_totals:
  assumes new: "balance_new cs body ic = Inr bv"
  defines "flows \<equiv> calculate_deposits_and_refunds cs body ic"
  shows "value_sound (bv_total_full_input bv)" "value_sound (bv_total_full_output bv)"
    and "val_coins (bv_total_full_input bv) =
      sum_list (map (\<lambda>i. val_coins (input_value ic i)) (tb_inputs body))
      + sum_list (map refund_amount (fst flows))
      + sum_list (map (\<lambda>w. ucast (wd_amount w)) (get_withdrawals body))"
    and "val_coins (bv_total_full_output bv) =
      sum_list (map (\<lambda>out. ucast (cv_coin (ou_amount out))) (tb_outputs body)) + ucast (tb_fee body)
      + sum_list (map deposit_amount (calculate_voting_proposals_deposits body @ snd flows))
      + get_donation body"
    and "held (bv_total_full_input bv) u =
      sum_list (map (\<lambda>i. held (input_value ic i) u) (tb_inputs body))
      + quantity_of (calculate_mints body) u"
    and "held (bv_total_full_output bv) u =
      sum_list (map (\<lambda>out. held (new_from_csl_value (ou_amount out)) u) (tb_outputs body))
      + quantity_of (calculate_burn body) u"
proof -
  obtain refunds deposits where parts:
    "flows = (refunds, deposits)"
    "calculate_total_inputs body ic = Inr (id_total_inputs (bv_inputs bv))"
    "id_refunds (bv_inputs bv) = refunds"
    "id_withdrawals (bv_inputs bv) = get_withdrawals body"
    "id_mints (bv_inputs bv) = calculate_mints body"
    "od_total_output (bv_outputs bv) = calculate_total_output body"
    "od_deposits (bv_outputs bv) = calculate_voting_proposals_deposits body @ deposits"
    "od_burn (bv_outputs bv) = calculate_burn body"
    "od_fees (bv_outputs bv) = ucast (tb_fee body)"
    "od_donation (bv_outputs bv) = get_donation body"
    "bv_total_full_input bv = inputs_total_sum (bv_inputs bv)"
    "bv_total_full_output bv = outputs_total_sum (bv_outputs bv)"
    using balance_new_parts [OF new] unfolding flows_def by metis
  note sums = total_inputs_sums [OF parts(2)] total_output_sums mints_sound
  show "value_sound (bv_total_full_input bv)" "value_sound (bv_total_full_output bv)"
    by (simp_all add: parts sums inputs_total_held outputs_total_held)
  show "val_coins (bv_total_full_input bv) =
      sum_list (map (\<lambda>i. val_coins (input_value ic i)) (tb_inputs body))
      + sum_list (map refund_amount (fst flows))
      + sum_list (map (\<lambda>w. ucast (wd_amount w)) (get_withdrawals body))"
    by (simp add: parts sums inputs_total_coins)
  show "val_coins (bv_total_full_output bv) =
      sum_list (map (\<lambda>out. ucast (cv_coin (ou_amount out))) (tb_outputs body)) + ucast (tb_fee body)
      + sum_list (map deposit_amount (calculate_voting_proposals_deposits body @ snd flows))
      + get_donation body"
    by (simp add: parts sums outputs_total_coins)
  show "held (bv_total_full_input bv) u =
      sum_list (map (\<lambda>i. held (input_value ic i) u) (tb_inputs body))
      + quantity_of (calculate_mints body) u"
    by (simp add: parts sums inputs_total_held)
  show "held (bv_total_full_output bv) u =
      sum_list (map (\<lambda>out. held (new_from_csl_value (ou_amount out)) u) (tb_outputs body))
      + quantity_of (calculate_burn body) u"
    by (simp add: parts sums outputs_total_held)
qed

lemma other_balance_errors:
  "(ValueNotConservedUTxO i out d, at) \<notin> set (withdrawal_errors cs ic w)"
  "(ValueNotConservedUTxO i out d, at) \<notin> set (deposit_errors pp p)"
  "(ValueNotConservedUTxO i out d, at) \<notin> set (refund_errors ic r)"
  subgoal by (auto simp: withdrawal_errors_def Let_def split: option.splits if_splits)
  subgoal by (cases p) simp_all
  subgoal by (cases r) (simp_all add: refund_errors_def split: option.split)
  done

lemma value_error_iff:
  "(\<exists>i out d at. (ValueNotConservedUTxO i out d, at) \<in> set (vr_errors (balance_validate cs ic bv)))
     \<longleftrightarrow> \<not> value_eq (bv_total_full_input bv) (bv_total_full_output bv)"
proof -
  have "(ValueNotConservedUTxO i out d, at) \<notin> set (case bv_treasury_value bv of
      Some treasury \<Rightarrow> report (ic_treasury_value ic \<noteq> treasury)
        (TreasuryValueMismatch (ic_treasury_value ic) treasury, ''transaction.body.current_treasury_value'')
    | None \<Rightarrow> [])" for i out d at
    by (simp split: option.split)
  then show ?thesis
    by (simp add: balance_validate_def Let_def other_balance_errors)
qed

text \<open>The mint: what is minted less what is burnt is the net amount of the entries read.\<close>

definition net_amount :: "bytes \<Rightarrow> string \<Rightarrow> bytes \<times> int option \<Rightarrow> int" where
  "net_amount policy u na =
     (case snd na of
        Some amount \<Rightarrow> if hex_encode policy @ hex_encode (fst na) = u then amount else 0
      | None \<Rightarrow> 0)"

definition net_entry :: "bytes \<Rightarrow> string \<Rightarrow> mint_assets option \<Rightarrow> int" where
  "net_entry policy u entry =
     (case entry of Some assets \<Rightarrow> sum_list (map (net_amount policy u) assets) | None \<Rightarrow> 0)"

definition net_policy :: "mint \<Rightarrow> string \<Rightarrow> bytes \<Rightarrow> int" where
  "net_policy m u policy =
     (case mi_get m policy of Some entries \<Rightarrow> sum_list (map (net_entry policy u) entries) | None \<Rightarrow> 0)"

definition in_range :: "mint_assets option \<Rightarrow> bool" where
  "in_range entry \<longleftrightarrow>
     (\<forall>assets na amount. entry = Some assets \<longrightarrow> na \<in> set assets \<longrightarrow> snd na = Some amount \<longrightarrow>
        i128_min \<le> amount \<and> amount \<le> i128_max)"

fun fresh_policies :: "string set \<Rightarrow> bytes list \<Rightarrow> bytes list" where
  "fresh_policies seen [] = []"
| "fresh_policies seen (policy # policies) =
     (if hex_encode policy \<in> seen then fresh_policies seen policies
      else policy # fresh_policies (insert (hex_encode policy) seen) policies)"

definition sides_net :: "string \<Rightarrow> multi_asset \<Rightarrow> multi_asset \<Rightarrow> i128" where
  "sides_net u pos neg = quantity_of pos u - quantity_of neg u"

lemma mint_asset_net:
  assumes "multi_sound pos" "multi_sound neg"
    and "\<And>amount. snd na = Some amount \<Longrightarrow> i128_min \<le> amount \<and> amount \<le> i128_max"
  shows "sides_net u (mint_asset True policy pos na) (mint_asset False policy neg na) =
    sides_net u pos neg + of_int (net_amount policy u na)"
proof (cases "snd na")
  case (Some amount)
  with assms(3) have parsed: "parse_i128 (signed_decimal amount) = Inr amount"
    by (simp add: parse_signed_decimal)
  consider "0 < amount" | "amount = 0" | "amount < 0" by linarith
  then show ?thesis
    using Some parsed assms(1,2)
    by cases (simp_all add: mint_asset_def net_amount_def sides_net_def add_asset_contract)
qed (simp add: mint_asset_def net_amount_def)

lemma mint_entry_net:
  assumes "multi_sound pos" "multi_sound neg" "in_range entry"
  shows "sides_net u (mint_entry True policy pos entry) (mint_entry False policy neg entry) =
    sides_net u pos neg + of_int (net_entry policy u entry)"
proof (cases entry)
  case (Some assets)
  have folded: "sides_net u (foldl (mint_asset True policy) pos assets) (foldl (mint_asset False policy) neg assets)
      = sides_net u pos neg + of_int (sum_list (map (net_amount policy u) assets))"
    if "\<forall>na \<in> set assets. \<forall>amount. snd na = Some amount \<longrightarrow> i128_min \<le> amount \<and> amount \<le> i128_max"
    for assets
    using assms(1,2) that
    by (induction assets arbitrary: pos neg)
      (simp_all add: mint_asset_net mint_asset_sound add.assoc)
  have "\<forall>na \<in> set assets. \<forall>amount. snd na = Some amount \<longrightarrow> i128_min \<le> amount \<and> amount \<le> i128_max"
    using Some assms(3) unfolding in_range_def by blast
  from folded [OF this] Some show ?thesis
    by (simp add: mint_entry_def net_entry_def)
qed (simp add: mint_entry_def net_entry_def)

lemma mint_entries_net:
  assumes "multi_sound pos" "multi_sound neg" "\<forall>entry \<in> set entries. in_range entry"
  shows "sides_net u (foldl (mint_entry True policy) pos entries) (foldl (mint_entry False policy) neg entries)
    = sides_net u pos neg + of_int (sum_list (map (net_entry policy u) entries))"
  using assms
  by (induction entries arbitrary: pos neg)
    (simp_all add: mint_entry_net mint_entry_sound add.assoc)

lemma mint_policies_net:
  assumes "multi_sound pos" "multi_sound neg"
    and "\<forall>policy entries. mi_get m policy = Some entries \<longrightarrow> (\<forall>entry \<in> set entries. in_range entry)"
  shows "sides_net u (mint_policies m True seen pos policies) (mint_policies m False seen neg policies) =
    sides_net u pos neg + of_int (sum_list (map (net_policy m u) (fresh_policies seen policies)))"
  using assms(1,2)
proof (induction policies arbitrary: seen pos neg)
  case (Cons policy policies)
  show ?case
  proof (cases "mi_get m policy")
    case None
    with Cons show ?thesis by (simp add: net_policy_def)
  next
    case (Some entries)
    with Cons assms(3) show ?thesis
      by (simp add: net_policy_def mint_entries_sound mint_entries_net add.assoc)
  qed
qed simp

lemma mint_sides_net:
  assumes "\<forall>policy entries. mi_get m policy = Some entries \<longrightarrow> (\<forall>entry \<in> set entries. in_range entry)"
  shows "quantity_of (mint_side m True) u - quantity_of (mint_side m False) u =
    of_int (sum_list (map (net_policy m u) (fresh_policies {} (mi_keys m))))"
  using mint_policies_net [OF _ _ assms, of "[]" "[]" u "{}" "mi_keys m"]
  by (simp add: mint_side_def sides_net_def)

end
