(* ===== verification/Collateral.thy ===== *)
theory Collateral
  imports Balance_Facts "HOL-Library.Signed_Division"
begin

text \<open>
  The collateral validator (\<^verbatim>\<open>src/src/validators/phase_1/validation/collateral.rs\<close>).
\<close>

datatype invalid_input_type = PaymentCredentialIsScript | AddressIsReward | HasNonAdaAssets

type_synonym invalid_input = "csl_input \<times> u32 \<times> invalid_input_type"

record collateral_validator =
  cl_invalid_inputs :: "invalid_input list"
  cl_total_input :: "val option"
  cl_collateral_return :: "val option"
  cl_total_collateral :: "i128 option"
  cl_actual_collateral :: "val option"
  cl_estimated_minimal :: i128
  cl_actual_number_of_inputs :: u32
  cl_max_number_of_inputs :: u32
  cl_need_collateral :: bool
  cl_min_ada_for_return :: "i128 option"

subsection \<open>What the transaction puts up\<close>

fun collateral_from :: "input_context \<Rightarrow> val \<Rightarrow> csl_input list \<Rightarrow> string + val" where
  "collateral_from ic acc [] = Inr acc"
| "collateral_from ic acc (i # inputs) =
     (case find_input ic i of
        Some u \<Rightarrow>
          (case new_from_common_assets (to_amount (ux_output (uc_utxo u))) of
             Inl e \<Rightarrow> Inl e
           | Inr v \<Rightarrow> collateral_from ic (value_add acc v) inputs)
      | None \<Rightarrow> collateral_from ic acc inputs)"

definition collateral_total_input :: "tx_body \<Rightarrow> input_context \<Rightarrow> string + val option" where
  "collateral_total_input body ic =
     (case tb_collateral body of
        None \<Rightarrow> Inr None
      | Some inputs \<Rightarrow>
          (case collateral_from ic (value_of_coins 0) inputs of
             Inl e \<Rightarrow> Inl e
           | Inr v \<Rightarrow> Inr (Some v)))"

definition collateral_total_output :: "tx_body \<Rightarrow> val option" where
  "collateral_total_output body =
     map_option (\<lambda>out. new_from_csl_value (ou_amount out)) (tb_collateral_return body)"

definition get_total_collateral :: "tx_body \<Rightarrow> i128 option" where
  "get_total_collateral body = map_option big_num (tb_total_collateral body)"

definition at_least_zero :: "i128 \<Rightarrow> i128" where
  "at_least_zero x = (if sint x < 0 then 0 else x)"

definition estimated_minimal_collateral :: "tx_body \<Rightarrow> input_context \<Rightarrow> bool \<Rightarrow> i128" where
  "estimated_minimal_collateral body ic need =
     (if \<not> need then 0
      else
        let fee = big_num (tb_fee body);
            percentage = ucast (pp_collateral_percentage (ic_protocol_parameters ic)) :: i128;
            scaled = at_least_zero fee * at_least_zero percentage
        in of_int (sint (scaled + 99) sdiv 100))"

definition is_need_collateral :: "redeemers option \<Rightarrow> bool" where
  "is_need_collateral rs = (0 < (case rs of None \<Rightarrow> 0 | Some r \<Rightarrow> rd_len r))"

definition collateral_inputs :: "tx_body \<Rightarrow> csl_input list" where
  "collateral_inputs body = (case tb_collateral body of Some inputs \<Rightarrow> inputs | None \<Rightarrow> [])"

text \<open>The inputs of a kind, each with its index: the \<open>filter_map\<close> the three searches share.\<close>

definition inputs_where ::
  "tx_body \<Rightarrow> input_context \<Rightarrow> (utxo_context \<Rightarrow> bool) \<Rightarrow> invalid_input_type \<Rightarrow> invalid_input list" where
  "inputs_where body ic bad kind =
     concat (map (\<lambda>(index, i).
         case find_input ic i of
           Some u \<Rightarrow> if bad u then [(i, of_nat index, kind)] else []
         | None \<Rightarrow> [])
       (enumerate 0 (collateral_inputs body)))"

definition pays_to_script :: "csl \<Rightarrow> utxo_context \<Rightarrow> bool" where
  "pays_to_script cs u =
     (case string_to_csl_address cs (to_address (ux_output (uc_utxo u))) of
        Inl _ \<Rightarrow> False
      | Inr a \<Rightarrow>
          \<not> ad_is_reward a \<and>
          (case ad_payment_cred a of Some c \<Rightarrow> cr_kind c = ScriptKind | None \<Rightarrow> False))"

definition pays_to_reward :: "csl \<Rightarrow> utxo_context \<Rightarrow> bool" where
  "pays_to_reward cs u =
     (case string_to_csl_address cs (to_address (ux_output (uc_utxo u))) of
        Inl _ \<Rightarrow> False
      | Inr a \<Rightarrow> ad_is_reward a)"

definition find_script_payment_inputs :: "csl \<Rightarrow> tx_body \<Rightarrow> input_context \<Rightarrow> invalid_input list" where
  "find_script_payment_inputs cs body ic =
     inputs_where body ic (pays_to_script cs) PaymentCredentialIsScript"

definition find_reward_address_inputs :: "csl \<Rightarrow> tx_body \<Rightarrow> input_context \<Rightarrow> invalid_input list" where
  "find_reward_address_inputs cs body ic = inputs_where body ic (pays_to_reward cs) AddressIsReward"

definition find_non_ada_inputs :: "tx_body \<Rightarrow> input_context \<Rightarrow> invalid_input list" where
  "find_non_ada_inputs body ic =
     inputs_where body ic (\<lambda>u. has_non_ada_assets (ux_output (uc_utxo u))) HasNonAdaAssets"

definition min_ada_for_collateral_return :: "csl \<Rightarrow> tx_body \<Rightarrow> input_context \<Rightarrow> i128 option" where
  "min_ada_for_collateral_return cs body ic =
     (case tb_collateral_return body of
        Some out \<Rightarrow>
          map_option big_num
            (cs_min_ada_for_output cs out (pp_ada_per_utxo_byte (ic_protocol_parameters ic)))
      | None \<Rightarrow> None)"

definition collateral_new ::
  "csl \<Rightarrow> tx_body \<Rightarrow> redeemers option \<Rightarrow> input_context \<Rightarrow> string + collateral_validator" where
  "collateral_new cs body rs ic =
     (case collateral_total_input body ic of
        Inl e \<Rightarrow> Inl (''Invalid UTxO in the validation context: '' @ e)
      | Inr total_input \<Rightarrow>
          (let return = collateral_total_output body;
               need = is_need_collateral rs;
               actual =
                 (case return of
                    Some r \<Rightarrow> map_option (\<lambda>t. value_subtract t r) total_input
                  | None \<Rightarrow> total_input)
           in Inr
             \<lparr>cl_invalid_inputs =
                find_script_payment_inputs cs body ic @ find_reward_address_inputs cs body ic
                @ find_non_ada_inputs body ic,
              cl_total_input = total_input, cl_collateral_return = return,
              cl_total_collateral = get_total_collateral body, cl_actual_collateral = actual,
              cl_estimated_minimal = estimated_minimal_collateral body ic need,
              cl_actual_number_of_inputs =
                (case tb_collateral body of Some inputs \<Rightarrow> of_nat (length inputs) | None \<Rightarrow> 0),
              cl_max_number_of_inputs = pp_max_collateral_inputs (ic_protocol_parameters ic),
              cl_need_collateral = need,
              cl_min_ada_for_return = min_ada_for_collateral_return cs body ic\<rparr>))"

subsection \<open>Validation\<close>

definition amount_errors :: "collateral_validator \<Rightarrow> located_error list" where
  "amount_errors v =
     (case cl_total_collateral v of
        Some declared \<Rightarrow>
          report (sint declared < sint (cl_estimated_minimal v))
            (InsufficientCollateral declared (cl_estimated_minimal v),
             ''transaction.body.total_collateral'')
          @ (case cl_actual_collateral v of
               Some actual \<Rightarrow>
                 report (val_coins actual \<noteq> declared)
                   (IncorrectTotalCollateralField declared (val_coins actual),
                    ''transaction.body.total_collateral'')
             | None \<Rightarrow> [])
      | None \<Rightarrow>
          (case cl_actual_collateral v of
             Some actual \<Rightarrow>
               report (sint (val_coins actual) < sint (cl_estimated_minimal v))
                 (InsufficientCollateral (val_coins actual) (cl_estimated_minimal v),
                  ''transaction.body.collateral'')
           | None \<Rightarrow> []))"

definition asset_errors :: "collateral_validator \<Rightarrow> located_error list" where
  "asset_errors v =
     (if cl_collateral_return v \<noteq> None then
        report (case cl_actual_collateral v of Some actual \<Rightarrow> has_assets actual | None \<Rightarrow> False)
          (CalculatedCollateralContainsNonAdaAssets, ''transaction.body.collateral'')
      else
        concat (map (\<lambda>(i, index, kind).
            report (kind = HasNonAdaAssets)
              (CollateralInputContainsNonAdaAssets (csl_tx_input_to_string i),
               indexed ''transaction.body.collateral.'' (unat index)))
          (cl_invalid_inputs v)))"

definition return_errors :: "collateral_validator \<Rightarrow> located_error list" where
  "return_errors v =
     (case cl_min_ada_for_return v of
        Some least \<Rightarrow>
          (case cl_collateral_return v of
             Some r \<Rightarrow>
               report (sint (val_coins r) < sint least)
                 (CollateralReturnTooSmall (val_coins r) least, ''transaction.body.collateral_return'')
           | None \<Rightarrow> [])
      | None \<Rightarrow> [])"

definition locked_errors :: "collateral_validator \<Rightarrow> located_error list" where
  "locked_errors v =
     concat (map (\<lambda>(i, index, kind).
         report (kind = PaymentCredentialIsScript)
           (CollateralIsLockedByScript (csl_tx_input_to_string i),
            indexed ''transaction.body.collateral.'' (unat index)))
       (cl_invalid_inputs v))"

definition reward_warnings :: "collateral_validator \<Rightarrow> located_warning list" where
  "reward_warnings v =
     concat (map (\<lambda>(i, index, kind).
         report (kind = AddressIsReward)
           (CollateralInputUsesRewardAddress (csl_tx_input_to_string i),
            indexed ''transaction.body.collateral.'' (unat index)))
       (cl_invalid_inputs v))"

definition collateral_validate :: "collateral_validator \<Rightarrow> ('e, 'w, 'r) validation_result" where
  "collateral_validate v =
     new_phase_1
       (report (cl_max_number_of_inputs v < cl_actual_number_of_inputs v)
          (TooManyCollateralInputs (cl_actual_number_of_inputs v) (cl_max_number_of_inputs v),
           ''transaction.body.collateral'')
        @ report (cl_need_collateral v \<and> cl_actual_collateral v = None)
            (NoCollateralInputs, ''transaction.body.collateral'')
        @ amount_errors v @ asset_errors v @ return_errors v @ locked_errors v)
       (report (\<not> cl_need_collateral v \<and>
            (0 < cl_actual_number_of_inputs v \<or> cl_total_collateral v \<noteq> None))
          (CollateralIsUnnecessary, ''transaction.body.collateral'')
        @ report (cl_total_collateral v = None \<and> cl_collateral_return v \<noteq> None)
            (TotalCollateralIsNotDeclared, ''transaction.body.total_collateral'')
        @ reward_warnings v)"

subsection \<open>The least collateral\<close>

lemma sint_of_int_range:
  assumes "- (2 ^ 127) \<le> z" "z < 2 ^ 127"
  shows "sint (of_int z :: i128) = z"
  using signed_take_bit_int_eq_self [of 127 z] assms by (simp add: signed_of_int)

lemma sint_ucast_small:
  fixes x :: "'a::len word"
  assumes "LENGTH('a) < 128"
  shows "sint (ucast x :: i128) = uint x"
proof -
  have "uint x < 2 ^ LENGTH('a)" by (rule unsigned_less)
  also have "(2 :: int) ^ LENGTH('a) \<le> 2 ^ 127"
    using assms by (intro power_increasing) simp_all
  finally have "sint (of_int (uint x) :: i128) = uint x"
    by (intro sint_of_int_range) (simp_all add: order_trans [of _ 0 "uint x"])
  then show ?thesis by simp
qed

lemma sdiv_nonneg: "0 \<le> n \<Longrightarrow> n sdiv 100 = n div 100" for n :: int
  by (cases "n = 0") (simp_all add: signed_divide_int_def sgn_if)

lemma hundredth_range:
  fixes n :: int
  assumes "0 \<le> n"
  shows "0 \<le> (n + 99) div 100" "(n + 99) div 100 \<le> n + 99"
proof -
  have "n + 99 = 100 * ((n + 99) div 100) + (n + 99) mod 100" by simp
  moreover have "0 \<le> (n + 99) mod 100" "(n + 99) mod 100 < 100" by simp_all
  ultimately show "0 \<le> (n + 99) div 100" "(n + 99) div 100 \<le> n + 99"
    using assms by linarith+
qed

text \<open>The estimate is the ceiling of the percentage of the fee, computed without overflow.\<close>

lemma estimated_minimal_ceiling:
  "sint (estimated_minimal_collateral body ic True) =
     (uint (tb_fee body) * uint (pp_collateral_percentage (ic_protocol_parameters ic)) + 99) div 100"
proof -
  let ?fee = "tb_fee body" and ?pct = "pp_collateral_percentage (ic_protocol_parameters ic)"
  have fee: "0 \<le> uint ?fee" "uint ?fee < 2 ^ 64"
    using unsigned_less [of ?fee, where ?'a = int] by simp_all
  have pct: "0 \<le> uint ?pct" "uint ?pct < 2 ^ 32"
    using unsigned_less [of ?pct, where ?'a = int] by simp_all
  have z: "0 \<le> uint ?fee * uint ?pct" "uint ?fee * uint ?pct < 2 ^ 64 * 2 ^ 32"
    using mult_strict_mono' [OF fee(2) pct(2) fee(1) pct(1)] by simp_all
  have "at_least_zero (big_num ?fee) = of_int (uint ?fee)"
    "at_least_zero (ucast ?pct :: i128) = of_int (uint ?pct)"
    using fee pct by (simp_all add: at_least_zero_def sint_ucast_small del: of_int_uint)
      (simp_all add: not_less)
  then have "at_least_zero (big_num ?fee) * at_least_zero (ucast ?pct :: i128) + 99 =
      of_int (uint ?fee * uint ?pct + 99)"
    by (simp del: of_int_uint)
  moreover have "sint (of_int (uint ?fee * uint ?pct + 99) :: i128) = uint ?fee * uint ?pct + 99"
    using z by (intro sint_of_int_range) simp_all
  moreover have "(uint ?fee * uint ?pct + 99) sdiv 100 = (uint ?fee * uint ?pct + 99) div 100"
    using z by (intro sdiv_nonneg) simp
  moreover have "sint (of_int ((uint ?fee * uint ?pct + 99) div 100) :: i128) =
      (uint ?fee * uint ?pct + 99) div 100"
    using hundredth_range [OF z(1)] z(2) by (intro sint_of_int_range) simp_all
  ultimately show ?thesis
    unfolding estimated_minimal_collateral_def Let_def by simp
qed

text \<open>So it is the least amount the ledger's rule admits.\<close>

lemma ceiling_rule: "(n + 99) div 100 \<le> c \<longleftrightarrow> n \<le> 100 * c" for n c :: int
proof -
  have "n + 99 = 100 * ((n + 99) div 100) + (n + 99) mod 100" by simp
  moreover have "0 \<le> (n + 99) mod 100" "(n + 99) mod 100 < 100" by simp_all
  ultimately show ?thesis by linarith
qed

end
