(* ===== verification/Limits_Facts.thy ===== *)
theory Limits_Facts
  imports Tx_Limits Collateral
begin

text \<open>
  What the fee, output, limits and network validators report, in terms of the transaction: the
  total of reference scripts is a sum over a set of UTxOs, the sortedness checks decide
  order, each error stands for one condition.
\<close>

subsection \<open>Each UTxO counts once\<close>

lemma set_insert_once [simp]: "set (insert_once x xs) = insert x (set xs)"
  by (auto simp: insert_once_def)

lemma distinct_insert_once [simp]: "distinct xs \<Longrightarrow> distinct (insert_once x xs)"
  by (simp add: insert_once_def)

lemma foldl_insert_found:
  "set (foldl (insert_found ic) us inputs) = set us \<union> {u. \<exists>i \<in> set inputs. find_input ic i = Some u}"
  "distinct us \<Longrightarrow> distinct (foldl (insert_found ic) us inputs)"
  by (induction inputs arbitrary: us) (auto simp: insert_found_def split: option.splits)

definition referenced :: "tx_body \<Rightarrow> input_context \<Rightarrow> utxo_context set" where
  "referenced body ic =
     {u. \<exists>i \<in> set (tb_inputs body) \<union>
           set (case tb_reference_inputs body of Some inputs \<Rightarrow> inputs | None \<Rightarrow> []).
         find_input ic i = Some u}"

lemma collect_utxos_set:
  "set (collect_utxos body ic) = referenced body ic" "distinct (collect_utxos body ic)"
  by (auto simp: collect_utxos_def referenced_def foldl_insert_found)

text \<open>The size a UTxO adds: that of its reference script.\<close>

definition script_size :: "csl \<Rightarrow> (bytes \<Rightarrow> decode_error option) \<Rightarrow> utxo_context \<Rightarrow> string + u64" where
  "script_size cs well_formed_error u =
     (case to_script_ref (ux_output (uc_utxo u)) of
        None \<Rightarrow> Inr 0
      | Some script_ref \<Rightarrow> reference_script_size cs well_formed_error script_ref)"

definition size_or_zero :: "csl \<Rightarrow> (bytes \<Rightarrow> decode_error option) \<Rightarrow> utxo_context \<Rightarrow> u64" where
  "size_or_zero cs well_formed_error u =
     (case script_size cs well_formed_error u of Inr n \<Rightarrow> n | Inl _ \<Rightarrow> 0)"

lemmas script_size_defs = size_or_zero_def script_size_def

lemma total_size_from:
  "total_reference_scripts_size cs wfe acc us = Inr n \<longleftrightarrow>
     (\<forall>u \<in> set us. \<exists>k. script_size cs wfe u = Inr k) \<and>
     n = acc + sum_list (map (size_or_zero cs wfe) us)"
  by (induction cs wfe acc us rule: total_reference_scripts_size.induct)
    (auto simp: script_size_defs add.assoc split: option.splits sum.splits)

lemma usize_wrap_add: "usize_wrap (usize_wrap a + b) = usize_wrap (a + b)"
  "usize_wrap (a + usize_wrap b) = usize_wrap (a + b)"
  by (simp_all add: usize_wrap_def mod_simps)

lemma usize_wrap_wrap [simp]: "usize_wrap (usize_wrap a) = usize_wrap a"
  by (simp add: usize_wrap_def)

lemma reference_sizes_from:
  "reference_sizes cs wfe (usize_wrap acc) us = Inr n \<longleftrightarrow>
     (\<forall>u \<in> set us. \<exists>k. script_size cs wfe u = Inr k) \<and>
     n = usize_wrap (acc + sum_list (map (\<lambda>u. unat (size_or_zero cs wfe u)) us))"
proof (induction us arbitrary: acc)
  case (Cons u us)
  show ?case
  proof (cases "to_script_ref (ux_output (uc_utxo u))")
    case None
    then show ?thesis using Cons.IH [of acc] by (simp add: script_size_defs)
  next
    case (Some r)
    show ?thesis
    proof (cases "reference_script_size cs wfe r")
      case (Inl e)
      with Some show ?thesis by (simp add: script_size_defs)
    next
      case (Inr k)
      have "usize_wrap (usize_wrap acc + usize_wrap (unat k)) = usize_wrap (acc + unat k)"
        by (simp add: usize_wrap_add)
      with Some Inr Cons.IH [of "acc + unat k"] show ?thesis
        by (simp add: script_size_defs add.assoc)
    qed
  qed
qed auto

lemma sum_list_distinct: "distinct xs \<Longrightarrow> sum_list (map f xs) = sum f (set xs)"
  by (simp add: sum_list_distinct_conv_sum_set)

lemma scripts_total:
  assumes order: "mset (order (collect_utxos body ic)) = mset (collect_utxos body ic)"
  shows "total_reference_scripts_size cs wfe 0 (order (collect_utxos body ic)) = Inr n \<longleftrightarrow>
      (\<forall>u \<in> referenced body ic. \<exists>k. script_size cs wfe u = Inr k) \<and>
      n = (\<Sum>u \<in> referenced body ic. size_or_zero cs wfe u)"
    and "reference_sizes cs wfe 0 (order (collect_utxos body ic)) = Inr m \<longleftrightarrow>
      (\<forall>u \<in> referenced body ic. \<exists>k. script_size cs wfe u = Inr k) \<and>
      m = usize_wrap (\<Sum>u \<in> referenced body ic. unat (size_or_zero cs wfe u))"
proof -
  have same: "set (order (collect_utxos body ic)) = referenced body ic"
    "distinct (order (collect_utxos body ic))"
    using mset_eq_setD [OF order] mset_eq_imp_distinct_iff [OF order] collect_utxos_set [of body ic]
    by simp_all
  then show "total_reference_scripts_size cs wfe 0 (order (collect_utxos body ic)) = Inr n \<longleftrightarrow>
      (\<forall>u \<in> referenced body ic. \<exists>k. script_size cs wfe u = Inr k) \<and>
      n = (\<Sum>u \<in> referenced body ic. size_or_zero cs wfe u)"
    by (simp add: total_size_from sum_list_distinct)
  show "reference_sizes cs wfe 0 (order (collect_utxos body ic)) = Inr m \<longleftrightarrow>
      (\<forall>u \<in> referenced body ic. \<exists>k. script_size cs wfe u = Inr k) \<and>
      m = usize_wrap (\<Sum>u \<in> referenced body ic. unat (size_or_zero cs wfe u))"
    using reference_sizes_from [of cs wfe 0] same by (simp add: usize_wrap_def sum_list_distinct)
qed

subsection \<open>Outputs\<close>

definition least_ada :: "csl \<Rightarrow> input_context \<Rightarrow> csl_output \<Rightarrow> u64" where
  "least_ada cs ic out =
     (case cs_min_ada_for_output cs out (pp_ada_per_utxo_byte (ic_protocol_parameters ic)) of
        Some least \<Rightarrow> least | None \<Rightarrow> 0)"

lemma ucast_order: "sint (ucast a :: i128) < sint (ucast b :: i128) \<longleftrightarrow> a < b" for a b :: u64
  by (simp add: sint_ucast_small word_less_def)

lemma output_step_lists:
  "ov_oversized (output_step cs ic v (i, out)) = ov_oversized v @
     (if ov_max_value_size v < output_size out then [(i, output_size out)] else [])"
  "ov_below_min_ada (output_step cs ic v (i, out)) = ov_below_min_ada v @
     (if cv_coin (ou_amount out) < least_ada cs ic out
      then [(i, big_num (cv_coin (ou_amount out)), big_num (least_ada cs ic out))] else [])"
  "ov_max_value_size (output_step cs ic v (i, out)) = ov_max_value_size v"
  by (simp_all add: output_step_def least_ada_def Let_def ucast_order split: option.split)

lemma output_steps_lists:
  "ov_max_value_size (foldl (output_step cs ic) v entries) = ov_max_value_size v"
  "set (ov_oversized (foldl (output_step cs ic) v entries)) = set (ov_oversized v) \<union>
     {(i, n). \<exists>out. (i, out) \<in> set entries \<and> n = output_size out \<and> ov_max_value_size v < n}"
  "set (ov_below_min_ada (foldl (output_step cs ic) v entries)) = set (ov_below_min_ada v) \<union>
     {(i, a, b). \<exists>out. (i, out) \<in> set entries \<and> cv_coin (ou_amount out) < least_ada cs ic out \<and>
        a = big_num (cv_coin (ou_amount out)) \<and> b = big_num (least_ada cs ic out)}"
  by (induction entries arbitrary: v)
    (auto simp: output_step_lists simp del: big_num_ucast split: if_splits)

lemma in_enumerate: "(i, x) \<in> set (enumerate 0 xs) \<longleftrightarrow> i < length xs \<and> x = xs ! i"
  by (auto simp: in_set_enumerate_eq)

lemma output_new_lists:
  "set (ov_oversized (output_new cs body ic)) =
     {(i, n). i < length (tb_outputs body) \<and> n = output_size (tb_outputs body ! i) \<and>
        pp_max_value_size (ic_protocol_parameters ic) < n}"
  "set (ov_below_min_ada (output_new cs body ic)) =
     {(i, a, b). i < length (tb_outputs body) \<and>
        cv_coin (ou_amount (tb_outputs body ! i)) < least_ada cs ic (tb_outputs body ! i) \<and>
        a = big_num (cv_coin (ou_amount (tb_outputs body ! i))) \<and>
        b = big_num (least_ada cs ic (tb_outputs body ! i))}"
  "ov_max_value_size (output_new cs body ic) = pp_max_value_size (ic_protocol_parameters ic)"
  by (auto simp: output_new_def output_steps_lists in_enumerate)

lemma output_errors:
  "(OutputsValueTooBig n limit, at) \<in> set (vr_errors (output_validate (output_new cs body ic))) \<longleftrightarrow>
     limit = pp_max_value_size (ic_protocol_parameters ic) \<and>
     (\<exists>i < length (tb_outputs body). at = indexed ''transaction.body.outputs.'' i \<and>
        n = output_size (tb_outputs body ! i) \<and> limit < n)"
  "(OutputTooSmallUTxO a b, at) \<in> set (vr_errors (output_validate (output_new cs body ic))) \<longleftrightarrow>
     (\<exists>i < length (tb_outputs body). at = indexed ''transaction.body.outputs.'' i \<and>
        a = ucast (cv_coin (ou_amount (tb_outputs body ! i))) \<and>
        b = ucast (least_ada cs ic (tb_outputs body ! i)) \<and>
        cv_coin (ou_amount (tb_outputs body ! i)) < least_ada cs ic (tb_outputs body ! i))"
proof -
  have nonempty: "ov_oversized (output_new cs body ic) \<noteq> []" if "x \<in> set (ov_oversized (output_new cs body ic))" for x
    using that by auto
  have oversized: "(i, k) \<in> set (ov_oversized (output_new cs body ic)) \<longleftrightarrow>
      i < length (tb_outputs body) \<and> k = output_size (tb_outputs body ! i) \<and>
      pp_max_value_size (ic_protocol_parameters ic) < k" for i k
    by (simp add: output_new_lists)
  show "(OutputsValueTooBig n limit, at) \<in> set (vr_errors (output_validate (output_new cs body ic))) \<longleftrightarrow>
     limit = pp_max_value_size (ic_protocol_parameters ic) \<and>
     (\<exists>i < length (tb_outputs body). at = indexed ''transaction.body.outputs.'' i \<and>
        n = output_size (tb_outputs body ! i) \<and> limit < n)"
    using oversized nonempty by (auto simp: output_validate_def output_new_lists(3))
  show "(OutputTooSmallUTxO a b, at) \<in> set (vr_errors (output_validate (output_new cs body ic))) \<longleftrightarrow>
     (\<exists>i < length (tb_outputs body). at = indexed ''transaction.body.outputs.'' i \<and>
        a = ucast (cv_coin (ou_amount (tb_outputs body ! i))) \<and>
        b = ucast (least_ada cs ic (tb_outputs body ! i)) \<and>
        cv_coin (ou_amount (tb_outputs body ! i)) < least_ada cs ic (tb_outputs body ! i))"
    by (auto simp: output_validate_def output_new_lists(2) image_iff)
qed

subsection \<open>Order\<close>

text \<open>Inputs are ordered by transaction id, then by index.\<close>

definition input_le :: "(bytes \<Rightarrow> bytes \<Rightarrow> bool) \<Rightarrow> csl_input \<Rightarrow> csl_input \<Rightarrow> bool" where
  "input_le lt a b \<longleftrightarrow>
     lt (ci_transaction_id a) (ci_transaction_id b) \<or>
     (ci_transaction_id a = ci_transaction_id b \<and> ci_index a \<le> ci_index b)"

definition strict_order :: "('a \<Rightarrow> 'a \<Rightarrow> bool) \<Rightarrow> bool" where
  "strict_order lt \<longleftrightarrow> (\<forall>a. \<not> lt a a) \<and> (\<forall>a b c. lt a b \<longrightarrow> lt b c \<longrightarrow> lt a c) \<and>
     (\<forall>a b. lt a b \<or> a = b \<or> lt b a)"

lemma strict_orderD:
  assumes "strict_order lt"
  shows "\<not> lt a a" "lt a b \<Longrightarrow> lt b c \<Longrightarrow> lt a c" "lt a b \<or> a = b \<or> lt b a" "lt a b \<Longrightarrow> \<not> lt b a"
  using assms unfolding strict_order_def by blast+

lemma input_le_trans:
  assumes "strict_order lt"
  shows "transp (input_le lt)"
  unfolding transp_def input_le_def using strict_orderD(2) [OF assms] by fastforce

lemma inputs_ascend_step:
  assumes "strict_order lt"
  shows "inputs_ascend lt (a # b # rest) \<longleftrightarrow> input_le lt a b \<and> inputs_ascend lt (b # rest)"
  using strict_orderD(3,4) [OF assms, of "ci_transaction_id a" "ci_transaction_id b"]
    strict_orderD(1) [OF assms, of "ci_transaction_id b"]
  by (auto simp: input_le_def not_less)

lemma inputs_ascend_sorted:
  assumes "strict_order lt"
  shows "inputs_ascend lt inputs \<longleftrightarrow> sorted_wrt (input_le lt) inputs"
proof (induction inputs)
  case (Cons a inputs)
  then show ?case
    by (cases inputs)
      (simp_all only: inputs_ascend_step [OF assms] sorted_wrt2 [OF input_le_trans [OF assms]],
        simp_all)
qed simp

lemma btree_insert_last:
  assumes "strict_order lt"
  shows "\<forall>y \<in> set ys. lt y x \<Longrightarrow> btree_insert lt x ys = ys @ [x]"
  by (induction ys) (auto dest: strict_orderD(4) [OF assms])

lemma btree_insert_sorted:
  assumes "strict_order lt"
  shows "sorted_wrt lt ys \<Longrightarrow> sorted_wrt lt (btree_insert lt x ys) \<and>
    set (btree_insert lt x ys) = insert x (set ys)"
proof (induction ys)
  case (Cons y ys)
  then show ?case
    using strict_orderD(2,3) [OF assms, of x y] by (auto intro: strict_orderD(2) [OF assms])
qed simp

lemma btree_of_sorted:
  assumes "strict_order lt"
  shows "sorted_wrt lt (btree_of lt xs)"
proof (induction xs rule: rev_induct)
  case (snoc x xs)
  then show ?case using btree_insert_sorted [OF assms] by (simp add: btree_of_def)
qed (simp add: btree_of_def)

lemma btree_of_ascending:
  assumes "strict_order lt"
  shows "sorted_wrt lt xs \<Longrightarrow> btree_of lt xs = xs"
proof (induction xs rule: rev_induct)
  case (snoc x xs)
  then show ?case
    using btree_insert_last [OF assms, of xs x] by (simp add: btree_of_def sorted_wrt_append)
qed (simp add: btree_of_def)

lemma withdrawals_sorted_iff:
  assumes "strict_order lt"
  shows "check_withdrawals_sorted lt body \<longleftrightarrow>
    (case tb_withdrawals body of None \<Rightarrow> True | Some ws \<Rightarrow> sorted_wrt lt (map fst ws))"
proof -
  have "keys = btree_of lt keys \<longleftrightarrow> sorted_wrt lt keys" for keys
    using btree_of_sorted [OF assms, of keys] btree_of_ascending [OF assms, of keys] by metis
  moreover have "sorted_wrt lt keys" if "length keys \<le> 1" for keys
    using that by (cases keys) auto
  ultimately show ?thesis
    by (auto simp: check_withdrawals_sorted_def Let_def split: option.split)
qed

subsection \<open>What the limits report\<close>

definition known_unspent :: "input_context \<Rightarrow> csl_input \<Rightarrow> bool" where
  "known_unspent ic i = (case find_input ic i of Some u \<Rightarrow> \<not> uc_is_spent u | None \<Rightarrow> False)"

lemma bad_input_of: "bad_input ic (input_of i) \<longleftrightarrow> \<not> known_unspent ic i"
  by (simp add: bad_input_def input_of_def known_unspent_def find_input_def split: option.split)

lemma in_reports:
  "y \<in> set (concat (map (\<lambda>(i, x). report (P x) (f i x)) (enumerate 0 xs))) \<longleftrightarrow>
     (\<exists>i < length xs. P (xs ! i) \<and> y = f i (xs ! i))"
  by (force simp: in_enumerate)

lemma in_bad_inputs:
  "(e, at) \<in> set (bad_inputs ic loc (map input_of inputs)) \<longleftrightarrow>
     (\<exists>i < length inputs. e = BadInputsUTxO (input_of (inputs ! i)) \<and> at = indexed loc i \<and>
        \<not> known_unspent ic (inputs ! i))"
  unfolding bad_inputs_def in_reports by (auto simp: bad_input_of)

lemma hex_digit_inject: "n < 16 \<Longrightarrow> m < 16 \<Longrightarrow> hex_digit n = hex_digit m \<longleftrightarrow> n = m"
proof
  assume small: "n < 16" "m < 16" and "hex_digit n = hex_digit m"
  then have "of_char (hex_digit n) = (of_char (hex_digit m) :: nat)" by simp
  with small show "n = m"
    by (auto simp: hex_digit_def split: if_splits)
qed simp

lemma hex_encode_inject [simp]: "hex_encode a = hex_encode b \<longleftrightarrow> a = b"
proof (induction a arbitrary: b)
  case (Cons x a)
  show ?case
  proof (cases b)
    case (Cons y b')
    have small: "unat x div 16 < 16" "unat y div 16 < 16"
      using unsigned_less [of x, where ?'a = nat] unsigned_less [of y, where ?'a = nat] by simp_all
    have "hex_digit (unat x div 16) = hex_digit (unat y div 16) \<and>
        hex_digit (unat x mod 16) = hex_digit (unat y mod 16) \<longleftrightarrow> unat x = unat y"
      using small by (simp add: hex_digit_inject) (metis div_mult_mod_eq)
    with Cons Cons.IH [of b'] show ?thesis
      by (simp add: hex_encode_def word_unat_eq_iff [of x y]) blast
  qed (simp add: hex_encode_def)
qed (auto simp: hex_encode_def)

lemma input_of_inject [simp]:
  "input_of a = input_of b \<longleftrightarrow> ci_transaction_id a = ci_transaction_id b \<and> ci_index a = ci_index b"
  by (auto simp: input_of_def)

lemma limits_new_parts:
  assumes "limits_new cs wfe order id_less reward_less tx_size body rs ic = Inr v"
  shows "lv_current_slot v = ic_slot ic" "lv_validity_interval v = (tb_validity_start body, tb_ttl body)"
    "lv_inputs_sorted v = check_inputs_sorted id_less body"
    "lv_withdrawals_sorted v = check_withdrawals_sorted reward_less body"
    "lv_inputs_count v = length (tb_inputs body)" "lv_inputs v = map input_of (tb_inputs body)"
    "lv_ref_inputs v = inputs_of (tb_reference_inputs body)"
    "lv_collateral_inputs v = inputs_of (tb_collateral body)"
    "lv_actual_tx_size v = of_nat tx_size"
    "lv_max_tx_size v = ucast (pp_max_transaction_size (ic_protocol_parameters ic))"
    "lv_max_ref_scripts_size v = MAX_REFERENCE_SCRIPTS_SIZE"
    "total_reference_scripts_size cs wfe 0 (order (collect_utxos body ic)) = Inr (lv_actual_ref_scripts_size v)"
  using assms by (auto simp: limits_new_def Let_def split: sum.splits)

definition within_validity :: "tx_body \<Rightarrow> u64 \<Rightarrow> bool" where
  "within_validity body slot \<longleftrightarrow>
     (\<forall>start. tb_validity_start body = Some start \<longrightarrow> start \<le> slot) \<and>
     (\<forall>ttl. tb_ttl body = Some ttl \<longrightarrow> slot < ttl)"

lemma outside_validity_iff:
  assumes "limits_new cs wfe order id_less reward_less tx_size body rs ic = Inr v"
  shows "outside_validity v \<longleftrightarrow> \<not> within_validity body (ic_slot ic)"
  by (cases "tb_validity_start body"; cases "tb_ttl body")
    (auto simp: outside_validity_def within_validity_def limits_new_parts [OF assms] Let_def)

lemma limits_errors:
  "(e, at) \<in> set (vr_errors (limits_validate ic v)) \<longleftrightarrow>
     (lv_inputs_count v = 0 \<and> (e, at) = (InputSetEmptyUTxO, ''transaction.body.inputs'')) \<or>
     (lv_max_tx_size v < lv_actual_tx_size v \<and>
        (e, at) = (MaxTxSizeUTxO (lv_actual_tx_size v) (lv_max_tx_size v), ''transaction'')) \<or>
     ((fst (lv_max_execution_units v) < fst (lv_actual_execution_units v) \<or>
        snd (lv_max_execution_units v) < snd (lv_actual_execution_units v)) \<and>
        (e, at) = (ExUnitsTooBigUTxO (fst (lv_actual_execution_units v)) (snd (lv_actual_execution_units v))
               (fst (lv_max_execution_units v)) (snd (lv_max_execution_units v)),
             ''transaction.witness_set.redeemers'')) \<or>
     (lv_max_ref_scripts_size v < lv_actual_ref_scripts_size v \<and>
        (e, at) = (RefScriptsSizeTooBig (lv_actual_ref_scripts_size v) (lv_max_ref_scripts_size v),
             ''transaction.body.inputs'')) \<or>
     (outside_validity v \<and>
        (e, at) = (OutsideValidityIntervalUTxO (lv_current_slot v) (fst (interval_bounds v))
               (snd (interval_bounds v)), ''transaction.body'')) \<or>
     (e, at) \<in> set (bad_inputs ic ''transaction.body.reference_inputs.'' (lv_ref_inputs v)) \<or>
     (e, at) \<in> set (bad_inputs ic ''transaction.body.collateral.'' (lv_collateral_inputs v)) \<or>
     (e, at) \<in> set (bad_inputs ic ''transaction.body.inputs.'' (lv_inputs v)) \<or>
     (\<exists>i < length (lv_ref_inputs v). lv_ref_inputs v ! i \<in> set (lv_inputs v) \<and>
        (e, at) = (ReferenceInputOverlapsWithInput (lv_ref_inputs v ! i),
             indexed ''transaction.body.reference_inputs.'' i))"
  unfolding limits_validate_def phase_1_lists set_append Un_iff in_report in_reports
  by (simp only: prod.inject)

lemma bad_inputs_only: "(e, at) \<in> set (bad_inputs ic loc inputs) \<Longrightarrow> \<exists>i. e = BadInputsUTxO i"
  unfolding bad_inputs_def in_reports by auto

text \<open>The errors about a transaction's inputs, its validity and its overlaps, one by one.\<close>

lemma some_bad_input:
  "(\<exists>at. (BadInputsUTxO t, at) \<in> set (bad_inputs ic loc (map input_of inputs))) \<longleftrightarrow>
     (\<exists>i \<in> set inputs. t = input_of i \<and> \<not> known_unspent ic i)"
  unfolding in_bad_inputs Bex_def in_set_conv_nth [of _ inputs] by blast

lemma bad_input_errors:
  assumes "limits_new cs wfe order id_less reward_less tx_size body rs ic = Inr v"
  shows "(\<exists>at. (BadInputsUTxO t, at) \<in> set (vr_errors (limits_validate ic v))) \<longleftrightarrow>
    (\<exists>i \<in> set (tb_inputs body) \<union> set (case tb_reference_inputs body of Some is \<Rightarrow> is | None \<Rightarrow> [])
         \<union> set (case tb_collateral body of Some is \<Rightarrow> is | None \<Rightarrow> []).
       t = input_of i \<and> \<not> known_unspent ic i)"
  unfolding limits_errors limits_new_parts [OF assms] inputs_of_def ex_disj_distrib some_bad_input
  by auto

lemma validity_errors:
  assumes "limits_new cs wfe order id_less reward_less tx_size body rs ic = Inr v"
  shows "(\<exists>slot start until_slot at. (OutsideValidityIntervalUTxO slot start until_slot, at) \<in>
      set (vr_errors (limits_validate ic v))) \<longleftrightarrow> \<not> within_validity body (ic_slot ic)"
  unfolding limits_errors outside_validity_iff [OF assms] by (auto dest: bad_inputs_only)

lemma overlap_errors:
  assumes "limits_new cs wfe order id_less reward_less tx_size body rs ic = Inr v"
  shows "(\<exists>at. (ReferenceInputOverlapsWithInput t, at) \<in> set (vr_errors (limits_validate ic v))) \<longleftrightarrow>
    t \<in> input_of ` set (case tb_reference_inputs body of Some is \<Rightarrow> is | None \<Rightarrow> []) \<and>
    t \<in> input_of ` set (tb_inputs body)"
proof -
  have "(\<exists>at. (ReferenceInputOverlapsWithInput t, at) \<in> set (vr_errors (limits_validate ic v))) \<longleftrightarrow>
      t \<in> set (lv_ref_inputs v) \<and> t \<in> set (lv_inputs v)"
    unfolding limits_errors in_set_conv_nth [of t "lv_ref_inputs v"] by (auto dest: bad_inputs_only)
  then show ?thesis
    by (simp add: limits_new_parts [OF assms] inputs_of_def)
qed

subsection \<open>Networks\<close>

lemma wrong_addresses_set:
  "wrong_addresses expected xs = {s. \<exists>n. (Some n, Some s) \<in> set xs \<and> n \<noteq> expected}"
  by (induction expected xs rule: wrong_addresses.induct) (auto split: option.splits)

lemma wrong_addresses_Nil:
  "wrong_addresses expected xs = {} \<longleftrightarrow>
     (\<forall>x \<in> set xs. \<forall>n s. fst x = Some n \<longrightarrow> snd x = Some s \<longrightarrow> n = expected)"
  unfolding wrong_addresses_set by fastforce

definition reward_on :: "u8 \<Rightarrow> reward_address \<Rightarrow> bool" where
  "reward_on expected reward \<longleftrightarrow> ra_network_id reward = expected"

fun action_accounts :: "governance_action \<Rightarrow> reward_address list" where
  "action_accounts (TreasuryWithdrawals withdrawals policy_hash) = map fst withdrawals"
| "action_accounts action = []"

text \<open>Every address, account and declared id of a transaction, on one network.\<close>

definition on_network :: "csl \<Rightarrow> u8 \<Rightarrow> tx_body \<Rightarrow> bool" where
  "on_network cs expected body \<longleftrightarrow>
     (\<forall>out \<in> set (tb_outputs body). \<forall>n s. ad_network_id (ou_address out) = Some n \<longrightarrow>
        ad_bech32 (ou_address out) = Some s \<longrightarrow> n = expected) \<and>
     (\<forall>ws w. tb_withdrawals body = Some ws \<longrightarrow> w \<in> set ws \<longrightarrow> ra_bech32 (fst w) \<noteq> None \<longrightarrow>
        reward_on expected (fst w)) \<and>
     (\<forall>k. tb_network_id body = Some k \<longrightarrow> (case k of MainnetId \<Rightarrow> cs_mainnet_id cs | TestnetId \<Rightarrow> 0) = expected) \<and>
     (\<forall>ps p. tb_voting_proposals body = Some ps \<longrightarrow> p \<in> set ps \<longrightarrow>
        reward_on expected (vp_reward_account p) \<and> list_all (reward_on expected) (action_accounts (vp_action p)))"

lemma mismatched_Nil: "mismatched expected i reward = [] \<longleftrightarrow> reward_on expected reward"
  by (simp add: mismatched_def reward_on_def)

lemma all_enumerate: "(\<forall>x \<in> set (enumerate 0 xs). P (snd x)) \<longleftrightarrow> (\<forall>x \<in> set xs. P x)"
  by (metis (no_types, lifting) in_set_conv_nth in_enumerate prod.collapse snd_conv)

lemma network_errors_Nil:
  "vr_errors (network_validate (network_new cs body ic)) = [] \<longleftrightarrow>
     on_network cs (expected_network_id cs (ic_network_type ic)) body"
proof -
  let ?e = "expected_network_id cs (ic_network_type ic)"
  have outputs: "wrong_output_addresses body ?e = {} \<longleftrightarrow>
      (\<forall>out \<in> set (tb_outputs body). \<forall>n s. ad_network_id (ou_address out) = Some n \<longrightarrow>
        ad_bech32 (ou_address out) = Some s \<longrightarrow> n = ?e)"
    by (simp add: wrong_output_addresses_def wrong_addresses_Nil)
  have withdrawals: "wrong_withdrawal_addresses body ?e = {} \<longleftrightarrow>
      (\<forall>ws w. tb_withdrawals body = Some ws \<longrightarrow> w \<in> set ws \<longrightarrow> ra_bech32 (fst w) \<noteq> None \<longrightarrow>
        reward_on ?e (fst w))"
    by (cases "tb_withdrawals body")
      (auto simp: wrong_withdrawal_addresses_def wrong_addresses_Nil reward_on_def image_iff)
  have declared: "wrong_body_network_id cs body ?e = None \<longleftrightarrow>
      (\<forall>k. tb_network_id body = Some k \<longrightarrow>
         (case k of MainnetId \<Rightarrow> cs_mainnet_id cs | TestnetId \<Rightarrow> 0) = ?e)"
    by (auto simp: wrong_body_network_id_def Let_def split: option.split)
  have proposals: "wrong_proposal_return_accounts body ?e = [] \<longleftrightarrow>
      (\<forall>ps p. tb_voting_proposals body = Some ps \<longrightarrow> p \<in> set ps \<longrightarrow> reward_on ?e (vp_reward_account p))"
    using all_enumerate [of _ "\<lambda>p. reward_on ?e (vp_reward_account p)"]
    by (auto simp: wrong_proposal_return_accounts_def case_prod_unfold mismatched_Nil split: option.split)
  have treasury: "wrong_treasury_withdrawal_accounts body ?e = [] \<longleftrightarrow>
      (\<forall>ps p. tb_voting_proposals body = Some ps \<longrightarrow> p \<in> set ps \<longrightarrow>
        list_all (reward_on ?e) (action_accounts (vp_action p)))"
  proof -
    have "(case vp_action p of TreasuryWithdrawals withdrawals policy_hash \<Rightarrow>
          concat (map (\<lambda>(account, _). mismatched ?e i account) withdrawals)
        | _ \<Rightarrow> []) = [] \<longleftrightarrow> list_all (reward_on ?e) (action_accounts (vp_action p))" for i p
      by (cases "vp_action p") (auto simp: mismatched_Nil list_all_iff case_prod_unfold)
    then show ?thesis
      using all_enumerate [of _ "\<lambda>p. list_all (reward_on ?e) (action_accounts (vp_action p))"]
      by (auto simp: wrong_treasury_withdrawal_accounts_def case_prod_unfold split: option.split)
  qed
  have "vr_errors (network_validate (network_new cs body ic)) = [] \<longleftrightarrow>
      wrong_output_addresses body ?e = {} \<and> wrong_withdrawal_addresses body ?e = {} \<and>
      wrong_body_network_id cs body ?e = None \<and> wrong_proposal_return_accounts body ?e = [] \<and>
      wrong_treasury_withdrawal_accounts body ?e = []"
    by (auto simp: network_validate_def network_new_def Let_def split: option.split)
  then show ?thesis
    unfolding outputs withdrawals declared proposals treasury on_network_def by blast
qed

end
