(* ===== verification/Witness_Facts.thy ===== *)
theory Witness_Facts
  imports Witness_Validate Limits_Facts Script_Spec
begin

text \<open>
  The requirements of a transaction as a set of demands read off its body, and what the
  validator's reports say in terms of it.
\<close>

subsection \<open>Demands\<close>

datatype demand = NeedsKey bytes | NeedsScript bytes redeemer_tag u32 "bytes option"

definition listed_in :: "'a list option \<Rightarrow> (nat \<times> 'a) set" where
  "listed_in xs = set (enumerate 0 (case xs of Some xs \<Rightarrow> xs | None \<Rightarrow> []))"

definition key_demands :: "bytes option \<Rightarrow> demand set" where
  "key_demands k = NeedsKey ` set_option k"

definition script_demands :: "bytes option \<Rightarrow> redeemer_tag \<Rightarrow> u32 \<Rightarrow> bytes option \<Rightarrow> demand set" where
  "script_demands h tag j datum = (\<lambda>h. NeedsScript h tag j datum) ` set_option h"

definition credential_demands :: "credential \<Rightarrow> redeemer_tag \<Rightarrow> u32 \<Rightarrow> bytes option \<Rightarrow> demand set" where
  "credential_demands c tag j datum =
     (case cr_kind c of
        KeyKind \<Rightarrow> key_demands (cr_keyhash c)
      | ScriptKind \<Rightarrow> script_demands (cr_scripthash c) tag j datum)"

definition input_demands ::
  "csl \<Rightarrow> witness_library \<Rightarrow> input_context \<Rightarrow> csl_input list \<Rightarrow> nat \<times> csl_input \<Rightarrow> demand set" where
  "input_demands cs wl ic inputs entry =
     (case payment_cred_of cs ic (snd entry) of
        None \<Rightarrow> {}
      | Some (u, c) \<Rightarrow>
          credential_demands c SpendTag (sorted_index (wl_input_less wl) inputs (fst entry) (snd entry))
            (required_datum_hash cs wl u))"

definition collateral_demands :: "csl \<Rightarrow> input_context \<Rightarrow> nat \<times> csl_input \<Rightarrow> demand set" where
  "collateral_demands cs ic entry =
     (case payment_cred_of cs ic (snd entry) of
        None \<Rightarrow> {}
      | Some (u, c) \<Rightarrow> if cr_kind c = KeyKind then key_demands (cr_keyhash c) else {})"

definition withdrawal_demands ::
  "witness_library \<Rightarrow> reward_address list \<Rightarrow> nat \<times> reward_address \<Rightarrow> demand set" where
  "withdrawal_demands wl keys entry =
     credential_demands (ra_payment_cred (snd entry)) RewardTag
       (sorted_index (wl_reward_less wl) keys (fst entry) (snd entry)) None"

text \<open>The credential or the keys whose authority a certificate needs.\<close>

fun certificate_credential :: "certificate \<Rightarrow> credential option" where
  "certificate_credential (StakeRegistration c coin) = Some c"
| "certificate_credential (StakeDeregistration c coin) = Some c"
| "certificate_credential (StakeDelegation c pool) = Some c"
| "certificate_credential (DRepRegistration c coin) = Some c"
| "certificate_credential (DRepDeregistration c coin) = Some c"
| "certificate_credential (DRepUpdate c) = Some c"
| "certificate_credential (CommitteeHotAuth cold hot) = Some cold"
| "certificate_credential (CommitteeColdResign cold) = Some cold"
| "certificate_credential (StakeAndVoteDelegation c pool drep) = Some c"
| "certificate_credential (StakeRegistrationAndDelegation c pool coin) = Some c"
| "certificate_credential (StakeVoteRegistrationAndDelegation c pool drep coin) = Some c"
| "certificate_credential (VoteDelegation c drep) = Some c"
| "certificate_credential (VoteRegistrationAndDelegation c drep coin) = Some c"
| "certificate_credential cert = None"

fun certificate_keys :: "certificate \<Rightarrow> bytes set" where
  "certificate_keys (PoolRegistration operator cost owners) = insert operator (set owners)"
| "certificate_keys (PoolRetirement pool epoch) = {pool}"
| "certificate_keys cert = {}"

definition certificate_demands :: "nat \<times> certificate \<Rightarrow> demand set" where
  "certificate_demands entry =
     NeedsKey ` certificate_keys (snd entry) \<union>
     (case certificate_credential (snd entry) of
        Some c \<Rightarrow> credential_demands c CertTag (of_nat (fst entry)) None | None \<Rightarrow> {})"

fun action_policy :: "governance_action \<Rightarrow> bytes option" where
  "action_policy (ParameterChange prev policy_hash) = policy_hash"
| "action_policy (TreasuryWithdrawals withdrawals policy_hash) = policy_hash"
| "action_policy action = None"

definition proposal_demands :: "nat \<times> voting_proposal \<Rightarrow> demand set" where
  "proposal_demands entry =
     script_demands (action_policy (vp_action (snd entry))) VotingProposalTag (of_nat (fst entry)) None"

definition vote_demands :: "nat \<times> voter \<Rightarrow> demand set" where
  "vote_demands entry =
     (let v = snd entry; script = (\<lambda>h. script_demands h VoteTag (of_nat (fst entry)) None) in
      case vo_kind v of
        ConstitutionalCommitteeHotKeyHash \<Rightarrow> key_demands (Option.bind (vo_committee_hot v) cr_keyhash)
      | ConstitutionalCommitteeHotScriptHash \<Rightarrow> script (Option.bind (vo_committee_hot v) cr_scripthash)
      | DRepKeyHash \<Rightarrow> key_demands (Option.bind (vo_drep v) cr_keyhash)
      | DRepScriptHash \<Rightarrow> script (Option.bind (vo_drep v) cr_scripthash)
      | StakingPoolKeyHash \<Rightarrow> key_demands (vo_pool v))"

definition mint_demands :: "nat \<times> bytes \<Rightarrow> demand set" where
  "mint_demands entry = {NeedsScript (snd entry) MintTag (of_nat (fst entry)) None}"

definition withdrawal_keys :: "tx_body \<Rightarrow> reward_address list" where
  "withdrawal_keys body = (case tb_withdrawals body of Some ws \<Rightarrow> map fst ws | None \<Rightarrow> [])"

definition demands :: "csl \<Rightarrow> witness_library \<Rightarrow> input_context \<Rightarrow> tx_body \<Rightarrow> demand set" where
  "demands cs wl ic body =
     \<Union> (input_demands cs wl ic (tb_inputs body) ` listed_in (Some (tb_inputs body))) \<union>
     \<Union> (collateral_demands cs ic ` listed_in (tb_collateral body)) \<union>
     \<Union> (withdrawal_demands wl (withdrawal_keys body) ` listed_in (Some (withdrawal_keys body))) \<union>
     \<Union> (certificate_demands ` listed_in (tb_certs body)) \<union>
     \<Union> (proposal_demands ` listed_in (tb_voting_proposals body)) \<union>
     \<Union> (vote_demands ` listed_in (map_option (map fst) (tb_voting_procedures body))) \<union>
     \<Union> (mint_demands ` listed_in (map_option mi_keys (tb_mint body))) \<union>
     NeedsKey ` snd ` listed_in (tb_required_signers body)"

subsection \<open>The lists hold the demands\<close>

definition keys_of :: "required \<Rightarrow> bytes set" where
  "keys_of r = rk_key_hash ` set (rd_vkeys r)"

definition redeemers_of :: "required \<Rightarrow> (redeemer_tag \<times> u32) set" where
  "redeemers_of r = (\<lambda>q. (re_tag q, re_index q)) ` set (rd_redeemers r)"

definition datums_of :: "required \<Rightarrow> bytes set" where
  "datums_of r = rm_datum_hash ` set (rd_datums r)"

definition scripts_of :: "required \<Rightarrow> script_type \<Rightarrow> bytes set" where
  "scripts_of r kind =
     rq_script_hash ` set (case kind of
        IsNativeScript \<Rightarrow> rd_native_scripts r
      | IsPlutusScript \<Rightarrow> rd_plutus_scripts r
      | IsUnknownScript \<Rightarrow> rd_unknown_scripts r)"

lemmas of_defs = keys_of_def redeemers_of_def datums_of_def scripts_of_def

definition keys_in :: "demand set \<Rightarrow> bytes set" where
  "keys_in D = {k. NeedsKey k \<in> D}"

definition scripts_in :: "demand set \<Rightarrow> bytes set" where
  "scripts_in D = {h. \<exists>t j d. NeedsScript h t j d \<in> D}"

definition scripts_kind :: "provided \<Rightarrow> script_type \<Rightarrow> demand set \<Rightarrow> bytes set" where
  "scripts_kind p kind D = {h \<in> scripts_in D. determine_script_type p h = kind}"

definition redeemers_in :: "provided \<Rightarrow> demand set \<Rightarrow> (redeemer_tag \<times> u32) set" where
  "redeemers_in p D =
     {(t, j). \<exists>h d. NeedsScript h t j d \<in> D \<and> determine_script_type p h = IsPlutusScript}"

definition datums_in :: "provided \<Rightarrow> demand set \<Rightarrow> bytes set" where
  "datums_in p D =
     {d. \<exists>h t j. NeedsScript h t j (Some d) \<in> D \<and> determine_script_type p h = IsPlutusScript}"

lemmas in_defs = keys_in_def scripts_in_def scripts_kind_def redeemers_in_def datums_in_def

lemma in_empty [simp]:
  "keys_in {} = {}" "scripts_kind p kind {} = {}" "redeemers_in p {} = {}" "datums_in p {} = {}"
  by (simp_all add: in_defs)

lemma in_Un [simp]:
  "keys_in (D \<union> E) = keys_in D \<union> keys_in E"
  "scripts_kind p kind (D \<union> E) = scripts_kind p kind D \<union> scripts_kind p kind E"
  "redeemers_in p (D \<union> E) = redeemers_in p D \<union> redeemers_in p E"
  "datums_in p (D \<union> E) = datums_in p D \<union> datums_in p E"
  unfolding in_defs by blast+

definition gathers :: "provided \<Rightarrow> required \<Rightarrow> demand set \<Rightarrow> required \<Rightarrow> bool" where
  "gathers p r D r' \<longleftrightarrow>
     keys_of r' = keys_of r \<union> keys_in D \<and>
     (\<forall>kind. scripts_of r' kind = scripts_of r kind \<union> scripts_kind p kind D) \<and>
     redeemers_of r' = redeemers_of r \<union> redeemers_in p D \<and>
     datums_of r' = datums_of r \<union> datums_in p D"

lemma gathers_nothing [simp]: "gathers p r {} r"
  by (simp add: gathers_def)

lemma gathers_trans: "gathers p r D r' \<Longrightarrow> gathers p r' E r'' \<Longrightarrow> gathers p r (D \<union> E) r''"
  by (simp add: gathers_def Un_assoc)

lemma gathers_vkey [simp]: "gathers p r {NeedsKey k} (require_vkey k at i r)"
  by (auto simp: gathers_def require_vkey_def of_defs in_defs split: script_type.split)

lemma gathers_script [simp]:
  "gathers p r {NeedsScript h t j d} (add_script_witness_requirement p h at i j (Some t) d r)"
  by (cases "determine_script_type p h"; cases d)
    (auto simp: gathers_def add_script_witness_requirement_def of_defs in_defs Let_def split: script_type.split)


lemma gathers_foldl:
  "(\<And>r x. x \<in> set xs \<Longrightarrow> gathers p r (dem x) (f r x)) \<Longrightarrow> gathers p r (\<Union> (dem ` set xs)) (foldl f r xs)"
proof (induction xs arbitrary: r)
  case (Cons x xs)
  have "gathers p r (dem x) (f r x)" by (rule Cons.prems) simp
  moreover have "gathers p (f r x) (\<Union> (dem ` set xs)) (foldl f (f r x) xs)"
    by (rule Cons.IH) (simp add: Cons.prems)
  ultimately show ?case by (auto dest: gathers_trans)
qed simp

lemma gathers_over:
  "(\<And>r x. gathers p r (dem x) (f r x)) \<Longrightarrow> gathers p r (\<Union> (dem ` listed_in xs)) (over f xs r)"
  using gathers_foldl [of _ p dem f r] by (simp add: over_def listed_in_def split: option.split)

lemma gathers_step:
  assumes "gathers p r D r'" and "\<And>r x. gathers p r (dem x) (f r x)"
  shows "gathers p r (D \<union> \<Union> (dem ` listed_in xs)) (over f xs r')"
  by (rule gathers_trans [OF assms(1) gathers_over]) (rule assms(2))

lemma demands_of_option [simp]:
  "key_demands None = {}" "key_demands (Some k) = {NeedsKey k}"
  "script_demands None tag j datum = {}" "script_demands (Some h) tag j datum = {NeedsScript h tag j datum}"
  by (simp_all add: key_demands_def script_demands_def)

lemma gathers_key_option:
  "gathers p r (key_demands k) (case k of Some k \<Rightarrow> require_vkey k at i r | None \<Rightarrow> r)"
  by (cases k) simp_all

lemma gathers_script_option:
  "gathers p r (script_demands h t j d)
     (case h of Some h \<Rightarrow> add_script_witness_requirement p h at i j (Some t) d r | None \<Rightarrow> r)"
  by (cases h) simp_all

lemma gathers_credential:
  "gathers p r (credential_demands c t j None) (require_credential p c at i j t r)"
  by (cases "cr_kind c")
    (simp_all add: credential_demands_def require_credential_def gathers_key_option gathers_script_option)

lemma gathers_input:
  "gathers p r (input_demands cs wl ic inputs entry) (collect_input_witness cs wl ic inputs p r entry)"
  by (cases entry)
    (auto simp: input_demands_def collect_input_witness_def credential_demands_def Let_def split: option.split cred_kind.split)

lemma gathers_collateral:
  "gathers p r (collateral_demands cs ic entry) (collect_collateral_witness cs ic r entry)"
  by (cases entry)
    (auto simp: collateral_demands_def collect_collateral_witness_def split: option.split)

lemma gathers_certificate:
  "gathers p r (certificate_demands entry) (collect_certificate_witness p r entry)"
proof -
  obtain n cert where entry: "entry = (n, cert)" by (cases entry)
  have pool: "gathers p r (NeedsKey ` insert k (set ks))
      (foldl (\<lambda>r owner. require_vkey owner at i r) (require_vkey k at i r) ks)" for k ks at i r
  proof -
    have "gathers p (require_vkey k at i r) (\<Union> ((\<lambda>k. {NeedsKey k}) ` set ks))
        (foldl (\<lambda>r owner. require_vkey owner at i r) (require_vkey k at i r) ks)"
      by (rule gathers_foldl) simp
    from gathers_trans [OF gathers_vkey this] show ?thesis
      by (simp add: UNION_singleton_eq_range)
  qed
  have retirement: "NeedsKey ` {k} = {NeedsKey k}" for k
    by simp
  show ?thesis
    unfolding entry certificate_demands_def collect_certificate_witness_def Let_def prod.case fst_conv snd_conv
    by (cases cert) (simp_all add: pool retirement gathers_credential add_certificate_credential_witness_def del: image_insert)
qed

lemma gathers_withdrawal:
  "gathers p r (withdrawal_demands wl keys entry) (collect_withdrawal_witness wl keys p r entry)"
  by (cases entry) (simp add: withdrawal_demands_def collect_withdrawal_witness_def gathers_credential Let_def)

lemma gathers_proposal:
  "gathers p r (proposal_demands entry) (collect_voting_proposal_witness p r entry)"
  by (cases entry; cases "vp_action (snd entry)")
    (simp_all add: proposal_demands_def collect_voting_proposal_witness_def gathers_script_option Let_def)

lemma gathers_vote: "gathers p r (vote_demands entry) (collect_vote_witness p r entry)"
  by (cases entry; cases "vo_kind (snd entry)")
    (simp_all add: vote_demands_def collect_vote_witness_def gathers_script_option gathers_key_option Let_def)

lemma gathers_mint: "gathers p r (mint_demands entry) (collect_mint_witness p r entry)"
  by (cases entry) (simp add: mint_demands_def collect_mint_witness_def Let_def)

lemma gathers_signer: "gathers p r {NeedsKey (snd entry)} (collect_required_signer_witness r entry)"
  by (simp add: collect_required_signer_witness_def)

text \<open>The six lists hold exactly the demands of the body.\<close>

lemma gathers_required:
  "gathers p nothing_required (demands cs wl ic body) (collect_required_witnesses cs wl ic body p)"
proof -
  have keys: "(case map_option (map fst) (tb_withdrawals body) of Some ks \<Rightarrow> ks | None \<Rightarrow> []) =
      withdrawal_keys body"
    "over f (map_option (map fst) (tb_withdrawals body)) r = over f (Some (withdrawal_keys body)) r"
    for f :: "required \<Rightarrow> nat \<times> reward_address \<Rightarrow> required" and r
    by (cases "tb_withdrawals body"; simp add: withdrawal_keys_def over_def)+
  have signers: "NeedsKey ` snd ` listed_in (tb_required_signers body) =
      \<Union> ((\<lambda>entry. {NeedsKey (snd entry)}) ` listed_in (tb_required_signers body))"
    by auto
  show ?thesis
    unfolding demands_def collect_required_witnesses_def Let_def keys signers
    by (intro gathers_step gathers_over gathers_input gathers_collateral gathers_withdrawal
        gathers_certificate gathers_proposal gathers_vote gathers_mint gathers_signer)
qed

end
