(* ===== verification/Witness_Reports.thy ===== *)
theory Witness_Reports
  imports Witness_Facts
begin

text \<open>What the witness validator reports, in terms of what is demanded and what is provided.\<close>

subsection \<open>What is provided\<close>

lemma dom_update [simp]: "fst ` set (AList.update k v xs) = insert k (fst ` set xs)"
  by (induction xs) auto

text \<open>Every provided script has a source, and every Plutus script a version.\<close>

definition sources_known :: "provided \<Rightarrow> bool" where
  "sources_known p \<longleftrightarrow>
     fst ` set (pv_native_scripts p) \<subseteq> fst ` set (pv_native_script_sources p) \<and>
     fst ` set (pv_plutus_script_versions p) = fst ` set (pv_plutus_script_sources p)"

text \<open>Scripts of UTxOs leave what the witness set provided of keys, datums and redeemers.\<close>

definition same_but_scripts :: "provided \<Rightarrow> provided \<Rightarrow> bool" where
  "same_but_scripts p p' \<longleftrightarrow>
     pv_vkey_witnesses p' = pv_vkey_witnesses p \<and> pv_invalid_signatures p' = pv_invalid_signatures p \<and>
     pv_valid_signatures p' = pv_valid_signatures p \<and> pv_datum_sources p' = pv_datum_sources p \<and>
     pv_redeemers p' = pv_redeemers p"

lemma same_trans: "same_but_scripts p p' \<Longrightarrow> same_but_scripts p' p'' \<Longrightarrow> same_but_scripts p p''"
  by (simp add: same_but_scripts_def)

lemma provide_script_facts:
  "sources_known p \<Longrightarrow> sources_known (provide_native_script wl source bs p)"
  "sources_known p \<Longrightarrow> sources_known (provide_plutus_script wl source version bs p)"
  "same_but_scripts p (provide_native_script wl source bs p)"
  "same_but_scripts p (provide_plutus_script wl source version bs p)"
  by (auto simp: sources_known_def same_but_scripts_def provide_native_script_def
      provide_plutus_script_def Let_def)

lemma scripts_of_utxo_facts:
  assumes "scripts_of_utxo cs wl wfe source u p = Inr p'"
  shows "sources_known p \<Longrightarrow> sources_known p'" "same_but_scripts p p'"
  using assms
  by (auto simp: scripts_of_utxo_def provide_script_facts split: option.splits sum.splits csl_script.splits)
    (auto simp: sources_known_def same_but_scripts_def)

lemma collect_scripts_facts:
  "collect_scripts_from_inputs cs wl wfe ic is_ref entries p = Inr p' \<Longrightarrow>
     (sources_known p \<longrightarrow> sources_known p') \<and> same_but_scripts p p'"
proof (induction entries arbitrary: p)
  case Nil
  then show ?case by (simp add: same_but_scripts_def)
next
  case (Cons entry entries)
  obtain i input where entry: "entry = (i, input)" by (cases entry)
  show ?case
  proof (cases "find_input ic input")
    case None
    with Cons entry show ?thesis by simp
  next
    case (Some u)
    then obtain p1 where "scripts_of_utxo cs wl wfe
        (if is_ref then InReferenceInput input (of_nat i) else InInput input (of_nat i)) u p = Inr p1"
      "collect_scripts_from_inputs cs wl wfe ic is_ref entries p1 = Inr p'"
      using Cons.prems entry by (auto simp: Let_def split: sum.splits)
    then show ?thesis
      using scripts_of_utxo_facts Cons.IH same_trans by blast
  qed
qed

lemma over_keeps:
  assumes "\<And>s x. P s \<Longrightarrow> P (f s x)" "P s"
  shows "P (over f xs s)"
proof -
  have "P (foldl f s ys)" for ys
    using assms(2) by (induction ys arbitrary: s) (simp_all add: assms(1))
  then show ?thesis by (simp add: over_def assms(2) split: option.split)
qed

definition signing_keys :: "witness_library \<Rightarrow> witness_set \<Rightarrow> bytes set" where
  "signing_keys wl ws = (\<lambda>w. wl_key_hash wl (vw_public_key w)) ` set (case ws_vkeys ws of Some ks \<Rightarrow> ks | None \<Rightarrow> [])"

lemma provide_vkey_keys [simp]:
  "pv_vkey_witnesses (provide_vkey wl tx_hash p e) =
     AList.update (wl_key_hash wl (vw_public_key (snd e))) (of_nat (fst e)) (pv_vkey_witnesses p)"
  by (cases e) (simp add: provide_vkey_def Let_def)

lemma provide_vkey_sources [simp]: "sources_known (provide_vkey wl tx_hash p e) = sources_known p"
  by (cases e) (simp add: provide_vkey_def sources_known_def Let_def)

lemma provide_vkeys:
  "fst ` set (pv_vkey_witnesses (over (provide_vkey wl tx_hash) (ws_vkeys ws) nothing_provided)) = signing_keys wl ws"
  "sources_known (over (provide_vkey wl tx_hash) (ws_vkeys ws) nothing_provided)"
proof -
  have "fst ` set (pv_vkey_witnesses (foldl (provide_vkey wl tx_hash) p entries)) =
      fst ` set (pv_vkey_witnesses p) \<union> (\<lambda>e. wl_key_hash wl (vw_public_key (snd e))) ` set entries" for p entries
    by (induction entries arbitrary: p) auto
  moreover have "(\<lambda>e. wl_key_hash wl (vw_public_key (snd e))) ` set (enumerate 0 xs) =
      (\<lambda>w. wl_key_hash wl (vw_public_key w)) ` set xs" for xs :: "vkey_witness list"
    by (metis image_image list.set_map map_snd_enumerate)
  ultimately show "fst ` set (pv_vkey_witnesses (over (provide_vkey wl tx_hash) (ws_vkeys ws) nothing_provided))
      = signing_keys wl ws"
    by (simp add: over_def signing_keys_def nothing_provided_def split: option.split)
  show "sources_known (over (provide_vkey wl tx_hash) (ws_vkeys ws) nothing_provided)"
    by (rule over_keeps) (simp_all, simp add: sources_known_def nothing_provided_def)
qed

lemma provided_in_witness_set_facts:
  "fst ` set (pv_vkey_witnesses (provided_in_witness_set wl ws tx_hash)) = signing_keys wl ws"
  "sources_known (provided_in_witness_set wl ws tx_hash)"
proof -
  let ?P = "\<lambda>p. fst ` set (pv_vkey_witnesses p) = signing_keys wl ws \<and> sources_known p"
  have start: "?P (over (provide_vkey wl tx_hash) (ws_vkeys ws) nothing_provided)"
    by (simp add: provide_vkeys)
  have steps: "?P p \<Longrightarrow> ?P (case e of (i, s) \<Rightarrow> provide_native_script wl (InWitnessSet (of_nat i)) s p)"
    "?P p \<Longrightarrow> ?P (case e' of (i, version, s) \<Rightarrow>
        provide_plutus_script wl (InWitnessSet (of_nat i)) version s p)"
    "?P p \<Longrightarrow> ?P (provide_datum wl p e'')"
    "?P p \<Longrightarrow> ?P (case r of (i, r) \<Rightarrow> provide_redeemer p r)" for p e e' e'' r
    using provide_script_facts
    by (auto simp: provide_datum_def provide_redeemer_def sources_known_def provide_native_script_def
        provide_plutus_script_def Let_def split: prod.split)
  have "?P (provided_in_witness_set wl ws tx_hash)"
    unfolding provided_in_witness_set_def Let_def
    by (rule over_keeps [where P = ?P, OF steps(4)], assumption,
        rule over_keeps [where P = ?P, OF steps(3)], assumption,
        rule over_keeps [where P = ?P, OF steps(2)], assumption,
        rule over_keeps [where P = ?P, OF steps(1)], assumption, rule start)
  then show "fst ` set (pv_vkey_witnesses (provided_in_witness_set wl ws tx_hash)) = signing_keys wl ws"
    "sources_known (provided_in_witness_set wl ws tx_hash)" by simp_all
qed

lemma collect_provided_facts:
  assumes "collect_provided_witnesses cs wl wfe ic body ws tx_hash = Inr p"
  shows "fst ` set (pv_vkey_witnesses p) = signing_keys wl ws" "sources_known p"
    "same_but_scripts (provided_in_witness_set wl ws tx_hash) p"
proof -
  obtain p1 where "collect_scripts_from_inputs cs wl wfe ic False (enumerate 0 (tb_inputs body))
        (provided_in_witness_set wl ws tx_hash) = Inr p1"
    "collect_scripts_from_inputs cs wl wfe ic True
        (enumerate 0 (case tb_reference_inputs body of Some inputs \<Rightarrow> inputs | None \<Rightarrow> [])) p1 = Inr p"
    using assms by (auto simp: collect_provided_witnesses_def split: sum.splits)
  note steps = this [THEN collect_scripts_facts]
  show "sources_known p" using steps provided_in_witness_set_facts(2) by blast
  show same: "same_but_scripts (provided_in_witness_set wl ws tx_hash) p"
    using steps same_trans by blast
  then show "fst ` set (pv_vkey_witnesses p) = signing_keys wl ws"
    using provided_in_witness_set_facts(1) by (simp add: same_but_scripts_def)
qed

subsection \<open>The validator's parts\<close>

lemma witness_new_parts:
  assumes "witness_new cs wl wfe body ws tx_hash ic = Inr v"
  shows "collect_provided_witnesses cs wl wfe ic body ws tx_hash = Inr (wv_provided v)"
    "wv_required v = collect_required_witnesses cs wl ic body (wv_provided v)"
    "wv_signature_candidates v =
       collect_native_scripts_signature_candidates cs (wv_provided v) (rd_native_scripts (wv_required v))"
    "wv_output_datums_hashes v = collect_output_datums_hashes body"
    "collect_invalid_native_scripts cs (wv_provided v) (interval_of_body body)
       (rd_native_scripts (wv_required v)) [] = Inr (wv_invalid_native_scripts v)"
  using assms by (auto simp: witness_new_def Let_def split: sum.splits prod.splits)

lemma required_parts:
  assumes "witness_new cs wl wfe body ws tx_hash ic = Inr v"
  defines "D \<equiv> demands cs wl ic body"
  shows "keys_of (wv_required v) = keys_in D"
    "scripts_of (wv_required v) kind = scripts_kind (wv_provided v) kind D"
    "redeemers_of (wv_required v) = redeemers_in (wv_provided v) D"
    "datums_of (wv_required v) = datums_in (wv_provided v) D"
  using gathers_required [of "wv_provided v" cs wl ic body]
  unfolding witness_new_parts(2) [OF assms(1)] gathers_def D_def
  by (simp_all add: of_defs nothing_required_def split: script_type.split)

lemma map_of_None: "map_of xs k = None \<longleftrightarrow> k \<notin> fst ` set xs"
  by (rule map_of_eq_None_iff)

subsection \<open>Reports\<close>

lemmas report_defs =
  missing_vkey_errors_def invalid_signature_errors_def native_script_errors_def plutus_script_errors_def
  redeemer_errors_def datum_errors_def unknown_script_errors_def extraneous_errors_def extraneous_def
  extraneous_signature_errors_def script_data_hash_errors_def

lemma in_native_errors:
  "(e, at) \<in> set (native_script_errors v) \<Longrightarrow>
     (\<exists>h. e = MissingScriptWitnesses h) \<or> (\<exists>h. e = NativeScriptIsUnsuccessful h)"
  by (auto simp: native_script_errors_def split: option.splits)

lemma missing_keys:
  "(\<exists>at. (MissingVKeyWitnesses k, at) \<in> set (fst (witness_validate wl v))) \<longleftrightarrow>
     (\<exists>q \<in> set (rd_vkeys (wv_required v)). k = hex_encode (rk_key_hash q) \<and>
        rk_key_hash q \<notin> fst ` set (pv_vkey_witnesses (wv_provided v)))"
proof -
  have "(MissingVKeyWitnesses k, at) \<in> set (fst (witness_validate wl v)) \<longleftrightarrow>
      (MissingVKeyWitnesses k, at) \<in> set (missing_vkey_errors v)" for at
    unfolding witness_validate_def fst_conv set_append Un_iff
    by (auto simp: report_defs Let_def split: option.splits)
  then show ?thesis
    by (auto simp: missing_vkey_errors_def map_of_None)
qed

lemma missing_redeemers:
  "(\<exists>at. (MissingRedeemer tag j, at) \<in> set (fst (witness_validate wl v))) \<longleftrightarrow>
     (\<exists>q \<in> set (rd_redeemers (wv_required v)). tag = wl_tag_text wl (re_tag q) \<and> j = re_index q \<and>
        (re_tag q, re_index q) \<notin> pv_redeemers (wv_provided v))"
proof -
  have "(MissingRedeemer tag j, at) \<in> set (fst (witness_validate wl v)) \<longleftrightarrow>
      (MissingRedeemer tag j, at) \<in> set (redeemer_errors wl v)" for at
    unfolding witness_validate_def fst_conv set_append Un_iff
    by (auto simp: report_defs Let_def split: option.splits)
  then show ?thesis
    by (auto simp: redeemer_errors_def)
qed

lemma missing_datums:
  "(\<exists>at. (MissingDatum d, at) \<in> set (fst (witness_validate wl v))) \<longleftrightarrow>
     (\<exists>q \<in> set (rd_datums (wv_required v)). d = hex_encode (rm_datum_hash q) \<and>
        rm_datum_hash q \<notin> fst ` set (pv_datum_sources (wv_provided v)))"
proof -
  have "(MissingDatum d, at) \<in> set (fst (witness_validate wl v)) \<longleftrightarrow>
      (MissingDatum d, at) \<in> set (datum_errors v)" for at
    unfolding witness_validate_def fst_conv set_append Un_iff
    by (auto simp: report_defs Let_def split: option.splits)
  then show ?thesis
    by (auto simp: datum_errors_def map_of_None)
qed

lemma extraneous_signatures:
  assumes "\<And>xs. set (wl_order_indices wl xs) = set xs"
  shows "(\<exists>at. (ExtraneousSignature k, at) \<in> set (fst (witness_validate wl v))) \<longleftrightarrow>
    (\<exists>key \<in> fst ` set (pv_vkey_witnesses (wv_provided v)). k = hex_encode key \<and>
       key \<notin> keys_of (wv_required v) \<union> wv_signature_candidates v)"
proof -
  have "(ExtraneousSignature k, at) \<notin> set (missing_vkey_errors v)"
    "(ExtraneousSignature k, at) \<notin> set (invalid_signature_errors wl v)"
    "(ExtraneousSignature k, at) \<notin> set (native_script_errors v)"
    "(ExtraneousSignature k, at) \<notin> set (plutus_script_errors v)"
    "(ExtraneousSignature k, at) \<notin> set (redeemer_errors wl v)"
    "(ExtraneousSignature k, at) \<notin> set (datum_errors v)"
    "(ExtraneousSignature k, at) \<notin> set (unknown_script_errors v)"
    "(ExtraneousSignature k, at) \<notin> set (extraneous_errors wl v)"
    "(ExtraneousSignature k, at) \<notin> set (script_data_hash_errors v)" for at
    by (auto simp: missing_vkey_errors_def invalid_signature_errors_def native_script_errors_def
        plutus_script_errors_def redeemer_errors_def datum_errors_def unknown_script_errors_def
        extraneous_errors_def extraneous_def script_data_hash_errors_def Let_def split: option.splits)
  then have "(ExtraneousSignature k, at) \<in> set (fst (witness_validate wl v)) \<longleftrightarrow>
      (ExtraneousSignature k, at) \<in> set (extraneous_signature_errors wl v)" for at
    unfolding witness_validate_def fst_conv set_append Un_iff by blast
  then show ?thesis
    by (force simp: extraneous_signature_errors_def assms keys_of_def)
qed

lemma missing_scripts:
  "(\<exists>at. (MissingScriptWitnesses h, at) \<in> set (fst (witness_validate wl v))) \<longleftrightarrow>
     (\<exists>s \<in> scripts_of (wv_required v) IsUnknownScript. h = hex_encode s) \<or>
     (\<exists>s \<in> scripts_of (wv_required v) IsNativeScript. h = hex_encode s \<and>
        s \<notin> fst ` set (pv_native_script_sources (wv_provided v))) \<or>
     (\<exists>s \<in> scripts_of (wv_required v) IsPlutusScript. h = hex_encode s \<and>
        s \<notin> fst ` set (pv_plutus_script_sources (wv_provided v)))"
proof -
  have "(MissingScriptWitnesses h, at) \<in> set (fst (witness_validate wl v)) \<longleftrightarrow>
      (MissingScriptWitnesses h, at) \<in> set (native_script_errors v) \<or>
      (MissingScriptWitnesses h, at) \<in> set (plutus_script_errors v) \<or>
      (MissingScriptWitnesses h, at) \<in> set (unknown_script_errors v)" for at
    unfolding witness_validate_def fst_conv set_append Un_iff
    by (auto simp: missing_vkey_errors_def invalid_signature_errors_def redeemer_errors_def datum_errors_def
        extraneous_errors_def extraneous_def extraneous_signature_errors_def script_data_hash_errors_def Let_def)
  then show ?thesis
    by (auto simp: native_script_errors_def plutus_script_errors_def unknown_script_errors_def scripts_of_def
        map_of_None split: option.splits) (blast+)?
qed

subsection \<open>Native scripts\<close>

text \<open>The scripts among \<open>hs\<close> that were run and did not hold.\<close>

definition failed_script :: "csl \<Rightarrow> provided \<Rightarrow> validity_interval \<Rightarrow> bytes \<Rightarrow> bool" where
  "failed_script cs p interval h \<longleftrightarrow>
     (\<exists>script. map_of (pv_native_scripts p) h = Some script \<and>
        execute (cs_minicbor cs) script (map fst (pv_vkey_witnesses p)) interval = Inr False)"

lemma failed_has_source:
  assumes "sources_known p" "map_of (pv_native_scripts p) h = Some script"
  obtains source where "map_of (pv_native_script_sources p) h = Some source"
proof -
  have "h \<in> fst ` set (pv_native_scripts p)"
    using map_of_SomeD [OF assms(2)] by force
  then have "map_of (pv_native_script_sources p) h \<noteq> None"
    using assms(1) by (auto simp: sources_known_def map_of_None)
  with that show thesis by blast
qed

lemma invalid_native_scripts:
  assumes "sources_known p" "collect_invalid_native_scripts cs p interval qs bad = Inr bad'"
  shows "fst ` set bad' = fst ` set bad \<union> {h \<in> rq_script_hash ` set qs. failed_script cs p interval h}"
  using assms(2)
proof (induction qs arbitrary: bad)
  case (Cons q qs)
  let ?h = "rq_script_hash q"
  show ?case
  proof (cases "map_of (pv_native_scripts p) ?h")
    case None
    with Cons.prems Cons.IH [of bad] show ?thesis by (auto simp: failed_script_def)
  next
    case (Some script)
    then obtain source where source: "map_of (pv_native_script_sources p) ?h = Some source"
      using failed_has_source assms(1) by blast
    with Some Cons.prems obtain holds where
      run: "execute (cs_minicbor cs) script (map fst (pv_vkey_witnesses p)) interval = Inr holds"
      by (auto split: sum.splits)
    with Some source Cons.prems have
      rest: "collect_invalid_native_scripts cs p interval qs
        (if holds then bad else AList.update ?h source bad) = Inr bad'"
      by (cases holds) simp_all
    have "failed_script cs p interval ?h \<longleftrightarrow> \<not> holds"
      using Some run by (simp add: failed_script_def)
    with Cons.IH [OF rest] show ?thesis by (auto split: if_splits)
  qed
qed simp

lemma unsuccessful_scripts:
  assumes "witness_new cs wl wfe body ws tx_hash ic = Inr v"
  shows "(\<exists>at. (NativeScriptIsUnsuccessful h, at) \<in> set (fst (witness_validate wl v))) \<longleftrightarrow>
    (\<exists>s \<in> scripts_of (wv_required v) IsNativeScript. h = hex_encode s \<and>
       failed_script cs (wv_provided v) (interval_of_body body) s)"
proof -
  have "sources_known (wv_provided v)"
    using collect_provided_facts(2) witness_new_parts(1) [OF assms] by blast
  from invalid_native_scripts [OF this witness_new_parts(5) [OF assms]]
  have bad: "fst ` set (wv_invalid_native_scripts v) =
      {s \<in> scripts_of (wv_required v) IsNativeScript.
        failed_script cs (wv_provided v) (interval_of_body body) s}"
    by (simp add: scripts_of_def)
  have "(NativeScriptIsUnsuccessful h, at) \<in> set (fst (witness_validate wl v)) \<longleftrightarrow>
      (NativeScriptIsUnsuccessful h, at) \<in> set (native_script_errors v)" for at
    unfolding witness_validate_def fst_conv set_append Un_iff
    by (auto simp: report_defs Let_def split: option.splits)
  moreover have "(\<exists>at. (NativeScriptIsUnsuccessful h, at) \<in> set (native_script_errors v)) \<longleftrightarrow>
      (\<exists>q \<in> set (rd_native_scripts (wv_required v)). h = hex_encode (rq_script_hash q) \<and>
        rq_script_hash q \<in> fst ` set (wv_invalid_native_scripts v))"
  proof -
    have "(NativeScriptIsUnsuccessful h, at) \<in> set (native_script_errors v) \<longleftrightarrow>
        (\<exists>q \<in> set (rd_native_scripts (wv_required v)). \<exists>source.
          map_of (wv_invalid_native_scripts v) (rq_script_hash q) = Some source \<and>
          h = hex_encode (rq_script_hash q) \<and>
          at = [rq_location q, get_location source ''native_scripts''])" for at
      by (auto simp: native_script_errors_def split: option.splits) metis+
    then have "(\<exists>at. (NativeScriptIsUnsuccessful h, at) \<in> set (native_script_errors v)) \<longleftrightarrow>
        (\<exists>q \<in> set (rd_native_scripts (wv_required v)). h = hex_encode (rq_script_hash q) \<and>
          map_of (wv_invalid_native_scripts v) (rq_script_hash q) \<noteq> None)"
      by blast
    then show ?thesis by (simp add: map_of_None)
  qed
  ultimately show ?thesis
    unfolding bad by (auto simp: scripts_of_def)
qed

subsection \<open>Sorted positions\<close>

text \<open>The place of an element in sorted order is how many distinct elements come before it.\<close>

lemma sorted_place:
  assumes "strict_order lt" "sorted_wrt lt ys" "j < length ys"
  shows "card {y \<in> set ys. lt y (ys ! j)} = j"
proof -
  have "{y \<in> set ys. lt y (ys ! j)} = (!) ys ` {..< j}"
  proof (intro equalityI subsetI)
    fix y assume "y \<in> {y \<in> set ys. lt y (ys ! j)}"
    then obtain i where i: "i < length ys" "y = ys ! i" "lt (ys ! i) (ys ! j)"
      by (auto simp: in_set_conv_nth)
    have "i < j"
    proof (rule ccontr)
      assume "\<not> i < j"
      then have "i = j \<or> lt (ys ! j) (ys ! i)"
        using sorted_wrt_nth_less [OF assms(2), of j i] i(1) by fastforce
      with i(3) strict_orderD(1,4) [OF assms(1)] show False by metis
    qed
    with i(2) show "y \<in> (!) ys ` {..< j}" by blast
  next
    fix y assume "y \<in> (!) ys ` {..< j}"
    then show "y \<in> {y \<in> set ys. lt y (ys ! j)}"
      using sorted_wrt_nth_less [OF assms(2)] assms(3) by fastforce
  qed
  moreover have "inj_on ((!) ys) {..< j}"
  proof (rule inj_onI)
    fix a b assume "a \<in> {..< j}" "b \<in> {..< j}" "ys ! a = ys ! b"
    moreover from this have "\<not> a < b" "\<not> b < a"
      using sorted_wrt_nth_less [OF assms(2)] strict_orderD(1) [OF assms(1)] assms(3)
      by (metis lessThan_iff order.strict_trans)+
    ultimately show "a = b" by simp
  qed
  ultimately show ?thesis by (simp add: card_image)
qed

lemma map_of_enumerate:
  assumes "distinct ys" "j < length ys"
  shows "map_of (map (\<lambda>(i, x). (x, f i)) (enumerate 0 ys)) (ys ! j) = Some (f j)"
proof (rule map_of_is_SomeI)
  show "distinct (map fst (map (\<lambda>(i, x). (x, f i)) (enumerate 0 ys)))"
    using assms(1) by (simp add: comp_def case_prod_unfold map_snd_enumerate)
  show "(ys ! j, f j) \<in> set (map (\<lambda>(i, x). (x, f i)) (enumerate 0 ys))"
    using assms(2) by (force simp: in_set_enumerate_eq)
qed

lemma sorted_distinct: "strict_order lt \<Longrightarrow> sorted_wrt lt ys \<Longrightarrow> distinct ys"
  using strict_orderD(1) by (induction ys) fastforce+

lemma btree_of_set: "strict_order lt \<Longrightarrow> set (btree_of lt xs) = set xs"
proof -
  assume lt: "strict_order lt"
  have "sorted_wrt lt ys \<Longrightarrow> set (foldl (\<lambda>tree x. btree_insert lt x tree) ys xs) = set ys \<union> set xs" for ys
    by (induction xs arbitrary: ys) (simp_all add: btree_insert_sorted [OF lt])
  from this [of "[]"] show ?thesis by (simp add: btree_of_def)
qed

lemma sorted_index_place:
  assumes "strict_order lt" "x \<in> set xs"
  shows "sorted_index lt xs i x = of_nat (card {y \<in> set xs. lt y x})"
proof -
  let ?ys = "btree_of lt xs"
  have ys: "sorted_wrt lt ?ys" "set ?ys = set xs" "distinct ?ys"
    using btree_of_sorted [OF assms(1)] btree_of_set [OF assms(1)] sorted_distinct [OF assms(1)] by blast+
  then obtain j where j: "j < length ?ys" "x = ?ys ! j"
    using assms(2) by (metis in_set_conv_nth)
  have "card {y \<in> set xs. lt y x} = j"
    using sorted_place [OF assms(1) ys(1) j(1)] by (simp add: ys(2) j(2))
  then show ?thesis
    using map_of_enumerate [OF ys(3) j(1), of "of_nat :: nat \<Rightarrow> u32"]
    by (simp add: sorted_index_def build_sorted_index_map_def j(2))
qed

end
