(* ===== verification/Collateral_Facts.thy ===== *)
theory Collateral_Facts
  imports Collateral
begin

text \<open>
  What the collateral validator reports, in terms of the transaction: the least amount is the
  ledger's rule, and each kind of error stands for one condition.
\<close>

text \<open>What counts as put up: the declared total, else the balance of the collateral inputs.\<close>

definition offered_collateral :: "collateral_validator \<Rightarrow> int option" where
  "offered_collateral v =
     (case cl_total_collateral v of
        Some declared \<Rightarrow> Some (sint declared)
      | None \<Rightarrow> map_option (\<lambda>actual. sint (val_coins actual)) (cl_actual_collateral v))"

lemma collateral_new_parts:
  assumes "collateral_new cs body rs ic = Inr v"
  shows "cl_estimated_minimal v = estimated_minimal_collateral body ic (is_need_collateral rs)"
    "cl_total_collateral v = get_total_collateral body"
    "cl_collateral_return v = collateral_total_output body"
    "cl_need_collateral v = is_need_collateral rs"
    "cl_invalid_inputs v = find_script_payment_inputs cs body ic @ find_reward_address_inputs cs body ic
       @ find_non_ada_inputs body ic"
    "collateral_total_input body ic = Inr (cl_total_input v)"
    "cl_actual_collateral v =
       (case collateral_total_output body of
          Some r \<Rightarrow> map_option (\<lambda>t. value_subtract t r) (cl_total_input v)
        | None \<Rightarrow> cl_total_input v)"
  using assms by (cases "collateral_total_output body"; auto simp: collateral_new_def Let_def split: sum.splits)+

lemma insufficient_elsewhere:
  "(InsufficientCollateral c r, at) \<notin> set (asset_errors v)"
  "(InsufficientCollateral c r, at) \<notin> set (return_errors v)"
  "(InsufficientCollateral c r, at) \<notin> set (locked_errors v)"
  by (auto simp: asset_errors_def return_errors_def locked_errors_def split: option.splits if_splits)

lemma insufficient_iff:
  "(\<exists>c r at. (InsufficientCollateral c r, at) \<in>
        set (vr_errors (collateral_validate v :: ('e, 'w, 'r) validation_result))) \<longleftrightarrow>
     (\<exists>c. offered_collateral v = Some c \<and> c < sint (cl_estimated_minimal v))"
proof -
  have "(InsufficientCollateral c r, at) \<in>
        set (vr_errors (collateral_validate v :: ('e, 'w, 'r) validation_result)) \<longleftrightarrow>
      (InsufficientCollateral c r, at) \<in> set (amount_errors v)" for c r at
    by (auto simp: collateral_validate_def insufficient_elsewhere)
  moreover have "(\<exists>c r at. (InsufficientCollateral c r, at) \<in> set (amount_errors v)) \<longleftrightarrow>
      (\<exists>c. offered_collateral v = Some c \<and> c < sint (cl_estimated_minimal v))"
    by (cases "cl_total_collateral v"; cases "cl_actual_collateral v")
      (auto simp: amount_errors_def offered_collateral_def)
  ultimately show ?thesis by simp
qed

lemma insufficient_rule:
  assumes "collateral_new cs body rs ic = Inr v" "is_need_collateral rs"
  shows "(\<exists>c r at. (InsufficientCollateral c r, at) \<in>
        set (vr_errors (collateral_validate v :: ('e, 'w, 'r) validation_result))) \<longleftrightarrow>
    (\<exists>c. offered_collateral v = Some c \<and>
       100 * c < uint (tb_fee body) * uint (pp_collateral_percentage (ic_protocol_parameters ic)))"
proof -
  obtain n where
    n: "uint (tb_fee body) * uint (pp_collateral_percentage (ic_protocol_parameters ic)) = n"
    by blast
  have "sint (cl_estimated_minimal v) = (n + 99) div 100"
    unfolding collateral_new_parts(1) [OF assms(1)] eqTrueI [OF assms(2)] n [symmetric]
    by (rule estimated_minimal_ceiling)
  moreover have "c < (n + 99) div 100 \<longleftrightarrow> 100 * c < n" for c
    using ceiling_rule [of n c] by (simp only: linorder_not_le [symmetric])
  ultimately show ?thesis
    unfolding insufficient_iff n by (simp only:)
qed

text \<open>The collateral inputs of a kind, by index.\<close>

lemma in_inputs_where:
  "(i, index, kind) \<in> set (inputs_where body ic bad kind') \<longleftrightarrow>
     kind = kind' \<and> (\<exists>k u. k < length (collateral_inputs body) \<and> i = collateral_inputs body ! k \<and>
       index = of_nat k \<and> find_input ic i = Some u \<and> bad u)"
proof -
  have entry: "x \<in> set (case find_input ic i' of Some u \<Rightarrow> if bad u then [(i', of_nat k, kind')] else []
      | None \<Rightarrow> []) \<longleftrightarrow> x = (i', of_nat k, kind') \<and> (\<exists>u. find_input ic i' = Some u \<and> bad u)"
    for x :: invalid_input and i' k
    by (cases "find_input ic i'") auto
  have "(i, index, kind) \<in> set (inputs_where body ic bad kind') \<longleftrightarrow>
      (\<exists>p \<in> set (enumerate 0 (collateral_inputs body)).
         (i, index, kind) = (snd p, of_nat (fst p), kind') \<and>
         (\<exists>u. find_input ic (snd p) = Some u \<and> bad u))"
    unfolding inputs_where_def set_concat set_map by (simp add: case_prod_unfold entry) metis
  then show ?thesis
    by (auto simp: in_set_enumerate_eq Bex_def)
qed

lemma locked_iff:
  assumes "collateral_new cs body rs ic = Inr v"
  shows "(\<exists>l at. (CollateralIsLockedByScript l, at) \<in>
        set (vr_errors (collateral_validate v :: ('e, 'w, 'r) validation_result))) \<longleftrightarrow>
    (\<exists>i \<in> set (collateral_inputs body). \<exists>u. find_input ic i = Some u \<and> pays_to_script cs u)"
proof -
  have "(CollateralIsLockedByScript l, at) \<in>
        set (vr_errors (collateral_validate v :: ('e, 'w, 'r) validation_result)) \<longleftrightarrow>
      (CollateralIsLockedByScript l, at) \<in> set (locked_errors v)" for l at
    by (auto simp: collateral_validate_def amount_errors_def asset_errors_def return_errors_def
        split: option.splits if_splits)
  moreover have "(\<exists>l at. (CollateralIsLockedByScript l, at) \<in> set (locked_errors v)) \<longleftrightarrow>
      (\<exists>i index. (i, index, PaymentCredentialIsScript) \<in> set (cl_invalid_inputs v))"
    by (force simp: locked_errors_def)
  moreover have "(\<exists>i index. (i, index, PaymentCredentialIsScript) \<in> set (cl_invalid_inputs v)) \<longleftrightarrow>
      (\<exists>i \<in> set (collateral_inputs body). \<exists>u. find_input ic i = Some u \<and> pays_to_script cs u)"
    unfolding collateral_new_parts(5) [OF assms] find_script_payment_inputs_def
      find_reward_address_inputs_def find_non_ada_inputs_def set_append Un_iff in_inputs_where
    by (simp add: Bex_def in_set_conv_nth) blast
  ultimately show ?thesis by simp
qed

end
