(* ===== verification/Registration.thy ===== *)
theory Registration
  imports Validation_Result
begin

text \<open>
  The registration validator
  (\<^verbatim>\<open>src/src/validators/phase_1/validation/registration.rs\<close>): certificates are read
  into what they name, then walked in order, each validated against the state left by those
  before it. A hash set of the code is a set, a hash map a partial function.
\<close>

subsection \<open>Certificates and state\<close>

datatype registrable_entity =
    AccountEntity string
  | PoolEntity string
  | DRepEntity string

datatype drep_target =
    CredentialTarget string
  | AlwaysAbstainTarget
  | AlwaysNoConfidenceTarget

definition csl_drep_to_drep_target :: "drep \<Rightarrow> drep_target" where
  "csl_drep_to_drep_target d =
     (case dr_kind d of
        AlwaysAbstain \<Rightarrow> AlwaysAbstainTarget
      | AlwaysNoConfidence \<Rightarrow> AlwaysNoConfidenceTarget
      | _ \<Rightarrow> CredentialTarget (case dr_bech32 d of Some s \<Rightarrow> s | None \<Rightarrow> []))"

datatype certificate_type =
    StakeRegistrationCert string
  | StakeDeregistrationCert string
  | StakeDelegationCert string string
  | PoolRegistrationCert string u64
  | PoolRetirementCert string u64
  | DRepRegistrationCert string
  | DRepDeregistrationCert string
  | DRepUpdateCert string
  | CommitteeHotAuthCert local_credential local_credential
  | CommitteeColdResignCert local_credential
  | StakeRegistrationAndDelegationCert string string
  | StakeAndVoteDelegationCert string string drep_target
  | StakeVoteRegistrationAndDelegationCert string string drep_target
  | VoteDelegationCert string drep_target
  | VoteRegistrationAndDelegationCert string drep_target
  | GenesisKeyDelegationCert
  | MoveInstantaneousRewardsType

record certificate_info =
  ci_cert_index :: u32
  ci_cert_type :: certificate_type

record registration_state =
  rs_initial :: "registrable_entity set"
  rs_registrations :: "registrable_entity \<rightharpoonup> u32"
  rs_deregistrations :: "registrable_entity set"
  rs_pool_retirements :: "string \<rightharpoonup> u64"
  rs_resignations :: "local_credential set"
  rs_hot_auths :: "local_credential set"

record registration_validator =
  rv_certificates :: "certificate_info list"
  rv_state :: registration_state
  rv_withdrawals :: "string \<rightharpoonup> u64"

subsection \<open>Reading the transaction\<close>

definition add_withdrawal :: "(string \<rightharpoonup> u64) \<Rightarrow> reward_address \<times> u64 option \<Rightarrow> (string \<rightharpoonup> u64)" where
  "add_withdrawal m w =
     (case snd w of
        None \<Rightarrow> m
      | Some amount \<Rightarrow>
          let reward = (case ra_bech32 (fst w) of Some s \<Rightarrow> s | None \<Rightarrow> []);
              before = (case m reward of Some n \<Rightarrow> n | None \<Rightarrow> 0)
          in m(reward \<mapsto> before + amount))"

definition collect_withdrawals :: "tx_body \<Rightarrow> (string \<rightharpoonup> u64)" where
  "collect_withdrawals body =
     (case tb_withdrawals body of
        None \<Rightarrow> Map.empty | Some withdrawals \<Rightarrow> foldl add_withdrawal Map.empty withdrawals)"

definition load_initial_state :: "input_context \<Rightarrow> registrable_entity set" where
  "load_initial_state ic =
     set (map (\<lambda>a. AccountEntity (ac_bech32_address a)) (filter ac_is_registered (ic_account_contexts ic)))
     \<union> set (map (\<lambda>p. PoolEntity (pc_pool_id p)) (filter pc_is_registered (ic_pool_contexts ic)))
     \<union> set (map (\<lambda>d. DRepEntity (dc_bech32_drep d)) (filter dc_is_registered (ic_drep_contexts ic)))"

definition drep_id_of :: "csl \<Rightarrow> credential \<Rightarrow> string" where
  "drep_id_of cs c = (case cs_drep_bech32 cs c of Some s \<Rightarrow> s | None \<Rightarrow> [])"

definition process_certificate :: "csl \<Rightarrow> input_context \<Rightarrow> certificate \<Rightarrow> certificate_type" where
  "process_certificate cs ic cert =
     (let reward = (\<lambda>c. credential_to_bech32_reward_address cs c (ic_network_type ic)) in
      case cert of
        StakeRegistration c coin \<Rightarrow> StakeRegistrationCert (reward c)
      | StakeDeregistration c coin \<Rightarrow> StakeDeregistrationCert (reward c)
      | StakeDelegation c pool \<Rightarrow> StakeDelegationCert (reward c) (hex_encode pool)
      | PoolRegistration operator cost owners \<Rightarrow> PoolRegistrationCert (hex_encode operator) cost
      | PoolRetirement pool epoch \<Rightarrow> PoolRetirementCert (hex_encode pool) (ucast epoch)
      | DRepRegistration c coin \<Rightarrow> DRepRegistrationCert (drep_id_of cs c)
      | DRepDeregistration c coin \<Rightarrow> DRepDeregistrationCert (drep_id_of cs c)
      | CommitteeHotAuth cold hot \<Rightarrow>
          CommitteeHotAuthCert (csl_credential_to_local_credential cold)
            (csl_credential_to_local_credential hot)
      | CommitteeColdResign cold \<Rightarrow> CommitteeColdResignCert (csl_credential_to_local_credential cold)
      | StakeRegistrationAndDelegation c pool coin \<Rightarrow>
          StakeRegistrationAndDelegationCert (reward c) (hex_encode pool)
      | DRepUpdate c \<Rightarrow> DRepUpdateCert (drep_id_of cs c)
      | StakeAndVoteDelegation c pool drep \<Rightarrow>
          StakeAndVoteDelegationCert (reward c) (hex_encode pool) (csl_drep_to_drep_target drep)
      | StakeVoteRegistrationAndDelegation c pool drep coin \<Rightarrow>
          StakeVoteRegistrationAndDelegationCert (reward c) (hex_encode pool)
            (csl_drep_to_drep_target drep)
      | VoteDelegation c drep \<Rightarrow> VoteDelegationCert (reward c) (csl_drep_to_drep_target drep)
      | VoteRegistrationAndDelegation c drep coin \<Rightarrow>
          VoteRegistrationAndDelegationCert (reward c) (csl_drep_to_drep_target drep)
      | GenesisKeyDelegation \<Rightarrow> GenesisKeyDelegationCert
      | MoveInstantaneousRewardsCert \<Rightarrow> MoveInstantaneousRewardsType)"

definition certificate_infos :: "csl \<Rightarrow> tx_body \<Rightarrow> input_context \<Rightarrow> certificate_info list" where
  "certificate_infos cs body ic =
     (case tb_certs body of
        None \<Rightarrow> []
      | Some certs \<Rightarrow>
          map (\<lambda>(i, cert).
              \<lparr>ci_cert_index = of_nat i, ci_cert_type = process_certificate cs ic cert\<rparr>)
            (enumerate 0 certs))"

subsection \<open>State changes\<close>

definition register_entity ::
  "registrable_entity \<Rightarrow> u32 \<Rightarrow> registration_state \<Rightarrow> registration_state" where
  "register_entity e index s =
     (case rs_registrations s e of
        Some _ \<Rightarrow> s
      | None \<Rightarrow> s\<lparr>rs_registrations := (rs_registrations s)(e \<mapsto> index)\<rparr>)"

definition take_back :: "registrable_entity \<Rightarrow> registration_state \<Rightarrow> registration_state" where
  "take_back e s = s\<lparr>rs_deregistrations := rs_deregistrations s - {e}\<rparr>"

definition deregister_entity :: "registrable_entity \<Rightarrow> registration_state \<Rightarrow> registration_state" where
  "deregister_entity e s =
     s\<lparr>rs_deregistrations := insert e (rs_deregistrations s),
       rs_registrations := (rs_registrations s)(e := None)\<rparr>"

fun update_state :: "registration_state \<Rightarrow> certificate_type \<Rightarrow> u32 \<Rightarrow> registration_state" where
  "update_state s (StakeRegistrationCert a) i =
     take_back (AccountEntity a) (register_entity (AccountEntity a) i s)"
| "update_state s (StakeRegistrationAndDelegationCert a pool) i =
     take_back (AccountEntity a) (register_entity (AccountEntity a) i s)"
| "update_state s (StakeVoteRegistrationAndDelegationCert a pool drep) i =
     take_back (AccountEntity a) (register_entity (AccountEntity a) i s)"
| "update_state s (VoteRegistrationAndDelegationCert a drep) i =
     take_back (AccountEntity a) (register_entity (AccountEntity a) i s)"
| "update_state s (StakeDeregistrationCert a) i = deregister_entity (AccountEntity a) s"
| "update_state s (PoolRegistrationCert pool cost) i =
     (let s = register_entity (PoolEntity pool) i s
      in s\<lparr>rs_pool_retirements := (rs_pool_retirements s)(pool := None)\<rparr>)"
| "update_state s (PoolRetirementCert pool epoch) i =
     s\<lparr>rs_pool_retirements := (rs_pool_retirements s)(pool \<mapsto> epoch)\<rparr>"
| "update_state s (DRepRegistrationCert drep) i =
     take_back (DRepEntity drep) (register_entity (DRepEntity drep) i s)"
| "update_state s (DRepDeregistrationCert drep) i = deregister_entity (DRepEntity drep) s"
| "update_state s (CommitteeColdResignCert cold) i =
     s\<lparr>rs_resignations := insert cold (rs_resignations s)\<rparr>"
| "update_state s (CommitteeHotAuthCert cold hot) i =
     s\<lparr>rs_hot_auths := insert cold (rs_hot_auths s)\<rparr>"
| "update_state s _ i = s"

definition start_state :: "registrable_entity set \<Rightarrow> registration_state" where
  "start_state initial =
     \<lparr>rs_initial = initial, rs_registrations = Map.empty, rs_deregistrations = {},
      rs_pool_retirements = Map.empty, rs_resignations = {}, rs_hot_auths = {}\<rparr>"

definition registration_new :: "csl \<Rightarrow> tx_body \<Rightarrow> input_context \<Rightarrow> registration_validator" where
  "registration_new cs body ic =
     (let infos = certificate_infos cs body ic
      in \<lparr>rv_certificates = infos,
          rv_state =
            foldl (\<lambda>s info. update_state s (ci_cert_type info) (ci_cert_index info))
              (start_state (load_initial_state ic)) infos,
          rv_withdrawals = collect_withdrawals body\<rparr>)"

subsection \<open>Validation\<close>

text \<open>What a check reports: its errors and its warnings.\<close>

type_synonym findings = "located_error list \<times> located_warning list"

definition cert_at :: "u32 \<Rightarrow> string" where
  "cert_at i = indexed ''transaction.body.certs.'' (unat i)"

definition known :: "registration_state \<Rightarrow> registrable_entity \<Rightarrow> bool" where
  "known s e = (e \<in> rs_initial s \<or> rs_registrations s e \<noteq> None)"

definition missing :: "registration_state \<Rightarrow> registrable_entity \<Rightarrow> bool" where
  "missing s e = (\<not> known s e \<or> e \<in> rs_deregistrations s)"

definition duplicate_warnings ::
  "registration_state \<Rightarrow> registrable_entity \<Rightarrow> string \<Rightarrow> string \<Rightarrow> u32 \<Rightarrow> located_warning list" where
  "duplicate_warnings s e entity_type entity_id i =
     (case rs_registrations s e of
        Some first \<Rightarrow> report (first < i) (DuplicateRegistrationInTx entity_type entity_id i, cert_at i)
      | None \<Rightarrow> [])"

definition register_account_checks :: "registration_state \<Rightarrow> string \<Rightarrow> u32 \<Rightarrow> findings" where
  "register_account_checks s a i =
     (report (known s (AccountEntity a) \<and> AccountEntity a \<notin> rs_deregistrations s)
        (StakeAlreadyRegistered a, cert_at i),
      duplicate_warnings s (AccountEntity a) ''stake key'' a i)"

definition account_checks :: "registration_state \<Rightarrow> string \<Rightarrow> u32 \<Rightarrow> findings" where
  "account_checks s a i =
     (report (missing s (AccountEntity a)) (StakeNotRegistered a, cert_at i), [])"

definition pool_checks :: "registration_state \<Rightarrow> string \<Rightarrow> u32 \<Rightarrow> findings" where
  "pool_checks s pool i =
     (if \<not> known s (PoolEntity pool) then ([(StakePoolNotRegistered pool, cert_at i)], [])
      else ([], report (rs_pool_retirements s pool \<noteq> None) (DelegationToRetiringPool pool i, cert_at i)))"

definition drep_checks :: "registration_state \<Rightarrow> drep_target \<Rightarrow> u32 \<Rightarrow> findings" where
  "drep_checks s drep i =
     (case drep of
        CredentialTarget d \<Rightarrow>
          (report (missing s (DRepEntity d)) (DelegateeDRepNotRegistered d i, cert_at i), [])
      | _ \<Rightarrow> ([], []))"

definition both :: "findings \<Rightarrow> findings \<Rightarrow> findings" where
  "both f g = (fst f @ fst g, snd f @ snd g)"

definition saturating_sub :: "u64 \<Rightarrow> u64 \<Rightarrow> u64" where
  "saturating_sub a b = (if b \<le> a then a - b else 0)"

definition deregister_account_checks ::
  "input_context \<Rightarrow> (string \<rightharpoonup> u64) \<Rightarrow> registration_state \<Rightarrow> string \<Rightarrow> u32 \<Rightarrow> findings" where
  "deregister_account_checks ic withdrawn s a i =
     (if missing s (AccountEntity a) then ([(StakeNotRegistered a, cert_at i)], [])
      else
        (case find_account_context ic a of
           None \<Rightarrow> ([], [])
         | Some account \<Rightarrow>
             (case ac_balance account of
                None \<Rightarrow> ([], [])
              | Some balance \<Rightarrow>
                  let remaining =
                    saturating_sub balance (case withdrawn a of Some n \<Rightarrow> n | None \<Rightarrow> 0)
                  in (report (0 < remaining) (StakeNonZeroAccountBalance a remaining, cert_at i), []))))"

definition register_pool_checks ::
  "input_context \<Rightarrow> registration_state \<Rightarrow> string \<Rightarrow> u64 \<Rightarrow> u32 \<Rightarrow> findings" where
  "register_pool_checks ic s pool cost i =
     (let least = pp_min_pool_cost (ic_protocol_parameters ic) in
      (report (cost < least) (StakePoolCostTooLow cost least, cert_at i),
       duplicate_warnings s (PoolEntity pool) ''pool'' pool i
       @ report (known s (PoolEntity pool) \<and> rs_pool_retirements s pool = None)
           (PoolAlreadyRegistered pool, cert_at i)))"

definition retire_pool_checks ::
  "input_context \<Rightarrow> u64 \<Rightarrow> registration_state \<Rightarrow> string \<Rightarrow> u64 \<Rightarrow> u32 \<Rightarrow> findings" where
  "retire_pool_checks ic current_epoch s pool epoch i =
     (let least = current_epoch + 1;
          greatest =
            current_epoch + ucast (pp_max_epoch_for_pool_retirement (ic_protocol_parameters ic))
      in (report (\<not> known s (PoolEntity pool)) (StakePoolNotRegistered pool, cert_at i)
          @ report (epoch < least \<or> greatest < epoch)
              (WrongRetirementEpoch epoch current_epoch least greatest, cert_at i), []))"

definition register_drep_checks :: "registration_state \<Rightarrow> string \<Rightarrow> u32 \<Rightarrow> findings" where
  "register_drep_checks s drep i =
     ([], duplicate_warnings s (DRepEntity drep) ''DRep'' drep i
        @ report (known s (DRepEntity drep) \<and> DRepEntity drep \<notin> rs_deregistrations s)
            (DRepAlreadyRegistered drep, cert_at i))"

definition present_drep_checks :: "registration_state \<Rightarrow> string \<Rightarrow> u32 \<Rightarrow> findings" where
  "present_drep_checks s drep i =
     ([], report (missing s (DRepEntity drep)) (DRepNotRegistered i, cert_at i))"

text \<open>The member a cold credential names in the context, the current one before the potential.\<close>

definition resigned_errors ::
  "input_context \<Rightarrow> local_credential \<Rightarrow> local_credential \<Rightarrow> u32 \<Rightarrow> located_error list" where
  "resigned_errors ic cold reported i =
     (case find_current_committee_member_by_cold_credential ic cold of
        Some m \<Rightarrow> report (cc_is_resigned m) (CommitteeHasPreviouslyResigned reported, cert_at i)
      | None \<Rightarrow>
          (case find_potential_committee_member_by_cold_credential ic cold of
             Some m \<Rightarrow> report (cc_is_resigned m) (CommitteeHasPreviouslyResigned reported, cert_at i)
           | None \<Rightarrow> []))"

definition unknown_member_errors :: "input_context \<Rightarrow> local_credential \<Rightarrow> u32 \<Rightarrow> located_error list" where
  "unknown_member_errors ic cold i =
     report (find_potential_committee_member_by_cold_credential ic cold = None \<and>
         find_current_committee_member_by_cold_credential ic cold = None)
       (CommitteeIsUnknown cold, cert_at i)"

definition hot_auth_checks ::
  "input_context \<Rightarrow> registration_state \<Rightarrow> local_credential \<Rightarrow> local_credential \<Rightarrow> u32 \<Rightarrow> findings" where
  "hot_auth_checks ic s cold hot i =
     (report (cold \<in> rs_resignations s) (CommitteeHasPreviouslyResigned hot, cert_at i)
        @ resigned_errors ic cold hot i @ unknown_member_errors ic cold i,
      report (cold \<in> rs_hot_auths s) (DuplicateCommitteeHotRegistrationInTx hot i, cert_at i))"

definition cold_resign_checks ::
  "input_context \<Rightarrow> registration_state \<Rightarrow> local_credential \<Rightarrow> u32 \<Rightarrow> findings" where
  "cold_resign_checks ic s cold i =
     (resigned_errors ic cold cold i @ unknown_member_errors ic cold i,
      report (cold \<in> rs_resignations s) (DuplicateCommitteeColdResignationInTx cold i, cert_at i))"

fun validate_certificate ::
  "input_context \<Rightarrow> (string \<rightharpoonup> u64) \<Rightarrow> u64 \<Rightarrow> registration_state \<Rightarrow> certificate_type \<Rightarrow> u32 \<Rightarrow> findings" where
  "validate_certificate ic withdrawn epoch s (StakeRegistrationCert a) i =
     register_account_checks s a i"
| "validate_certificate ic withdrawn epoch s (StakeDeregistrationCert a) i =
     deregister_account_checks ic withdrawn s a i"
| "validate_certificate ic withdrawn epoch s (StakeDelegationCert a pool) i =
     both (account_checks s a i) (pool_checks s pool i)"
| "validate_certificate ic withdrawn epoch s (PoolRegistrationCert pool cost) i =
     register_pool_checks ic s pool cost i"
| "validate_certificate ic withdrawn epoch s (PoolRetirementCert pool retirement) i =
     retire_pool_checks ic epoch s pool retirement i"
| "validate_certificate ic withdrawn epoch s (DRepRegistrationCert drep) i =
     register_drep_checks s drep i"
| "validate_certificate ic withdrawn epoch s (DRepDeregistrationCert drep) i =
     present_drep_checks s drep i"
| "validate_certificate ic withdrawn epoch s (DRepUpdateCert drep) i = present_drep_checks s drep i"
| "validate_certificate ic withdrawn epoch s (CommitteeHotAuthCert cold hot) i =
     hot_auth_checks ic s cold hot i"
| "validate_certificate ic withdrawn epoch s (CommitteeColdResignCert cold) i =
     cold_resign_checks ic s cold i"
| "validate_certificate ic withdrawn epoch s (StakeRegistrationAndDelegationCert a pool) i =
     both (register_account_checks s a i) (pool_checks s pool i)"
| "validate_certificate ic withdrawn epoch s (StakeAndVoteDelegationCert a pool drep) i =
     both (both (account_checks s a i) (pool_checks s pool i)) (drep_checks s drep i)"
| "validate_certificate ic withdrawn epoch s (StakeVoteRegistrationAndDelegationCert a pool drep) i =
     both (both (register_account_checks s a i) (pool_checks s pool i)) (drep_checks s drep i)"
| "validate_certificate ic withdrawn epoch s (VoteDelegationCert a drep) i =
     both (account_checks s a i) (drep_checks s drep i)"
| "validate_certificate ic withdrawn epoch s (VoteRegistrationAndDelegationCert a drep) i =
     both (register_account_checks s a i) (drep_checks s drep i)"
| "validate_certificate ic withdrawn epoch s GenesisKeyDelegationCert i =
     ([(GenesisKeyDelegationCertificateIsNotSupported, cert_at i)], [])"
| "validate_certificate ic withdrawn epoch s MoveInstantaneousRewardsType i =
     ([(MoveInstantaneousRewardsCertificateIsNotSupported, cert_at i)], [])"

text \<open>The walk: a certificate is validated, then its change is folded into the state.\<close>

fun walk_certificates ::
  "input_context \<Rightarrow> (string \<rightharpoonup> u64) \<Rightarrow> u64 \<Rightarrow> registration_state \<Rightarrow> certificate_info list \<Rightarrow> findings" where
  "walk_certificates ic withdrawn epoch s [] = ([], [])"
| "walk_certificates ic withdrawn epoch s (info # infos) =
     both (validate_certificate ic withdrawn epoch s (ci_cert_type info) (ci_cert_index info))
       (walk_certificates ic withdrawn epoch
         (update_state s (ci_cert_type info) (ci_cert_index info)) infos)"

definition slots_per_epoch :: u64 where
  "slots_per_epoch = 432000"

definition registration_validate ::
  "input_context \<Rightarrow> registration_validator \<Rightarrow> ('e, 'w, 'r) validation_result" where
  "registration_validate ic v =
     (let found = walk_certificates ic (rv_withdrawals v) (ic_slot ic div slots_per_epoch)
            (start_state (rs_initial (rv_state v))) (rv_certificates v)
      in new_phase_1 (fst found) (snd found))"

end
