(* ===== verification/Registration_Facts.thy ===== *)
theory Registration_Facts
  imports Registration
begin

text \<open>
  The bookkeeping of the registration validator against the ledger's state: the entities that
  are registered, changed by each certificate in turn. The detailed state keeps what the
  transaction started with, what it registered and what it deregistered; its abstraction is the
  set of entities registered at that point.
\<close>

definition registered :: "registration_state \<Rightarrow> registrable_entity set" where
  "registered s = {e. known s e \<and> e \<notin> rs_deregistrations s}"

fun ledger_step :: "certificate_type \<Rightarrow> registrable_entity set \<Rightarrow> registrable_entity set" where
  "ledger_step (StakeRegistrationCert a) L = insert (AccountEntity a) L"
| "ledger_step (StakeRegistrationAndDelegationCert a pool) L = insert (AccountEntity a) L"
| "ledger_step (StakeVoteRegistrationAndDelegationCert a pool drep) L = insert (AccountEntity a) L"
| "ledger_step (VoteRegistrationAndDelegationCert a drep) L = insert (AccountEntity a) L"
| "ledger_step (StakeDeregistrationCert a) L = L - {AccountEntity a}"
| "ledger_step (PoolRegistrationCert pool cost) L = insert (PoolEntity pool) L"
| "ledger_step (DRepRegistrationCert drep) L = insert (DRepEntity drep) L"
| "ledger_step (DRepDeregistrationCert drep) L = L - {DRepEntity drep}"
| "ledger_step c L = L"

text \<open>
  What the validator keeps: nothing is both registered and deregistered by the transaction, and
  pools are never deregistered, they retire.
\<close>

definition state_ok :: "registration_state \<Rightarrow> bool" where
  "state_ok s \<longleftrightarrow> dom (rs_registrations s) \<inter> rs_deregistrations s = {} \<and>
     (\<forall>pool. PoolEntity pool \<notin> rs_deregistrations s)"

lemma register_entity_simps [simp]:
  "rs_initial (register_entity e i s) = rs_initial s"
  "rs_deregistrations (register_entity e i s) = rs_deregistrations s"
  "dom (rs_registrations (register_entity e i s)) = insert e (dom (rs_registrations s))"
  "rs_pool_retirements (register_entity e i s) = rs_pool_retirements s"
  by (auto simp: register_entity_def split: option.split)

lemma known_dom: "known s e \<longleftrightarrow> e \<in> rs_initial s \<union> dom (rs_registrations s)"
  by (auto simp: known_def)

lemma state_ok_start: "state_ok (start_state initial)"
  by (simp add: state_ok_def start_state_def)

lemma registered_start [simp]: "registered (start_state initial) = initial"
  by (simp add: registered_def known_def start_state_def)

lemma state_ok_update: "state_ok s \<Longrightarrow> state_ok (update_state s c i)"
  by (cases c) (auto simp: state_ok_def take_back_def deregister_entity_def Let_def)

lemma registered_update:
  "state_ok s \<Longrightarrow> registered (update_state s c i) = ledger_step c (registered s)"
  by (cases c)
    (auto simp: registered_def known_dom state_ok_def take_back_def deregister_entity_def Let_def)

definition states_after :: "registration_state \<Rightarrow> certificate_info list \<Rightarrow> registration_state" where
  "states_after s infos = foldl (\<lambda>s info. update_state s (ci_cert_type info) (ci_cert_index info)) s infos"

lemma states_after_ok:
  "state_ok s \<Longrightarrow> state_ok (states_after s infos)"
  by (induction infos arbitrary: s) (simp_all add: states_after_def state_ok_update)

lemma states_after_registered:
  "state_ok s \<Longrightarrow> registered (states_after s infos) =
     foldl (\<lambda>L c. ledger_step c L) (registered s) (map ci_cert_type infos)"
  by (induction infos arbitrary: s) (simp_all add: states_after_def state_ok_update registered_update)

subsection \<open>What a certificate names\<close>

fun new_account :: "certificate_type \<Rightarrow> string option" where
  "new_account (StakeRegistrationCert a) = Some a"
| "new_account (StakeRegistrationAndDelegationCert a pool) = Some a"
| "new_account (StakeVoteRegistrationAndDelegationCert a pool drep) = Some a"
| "new_account (VoteRegistrationAndDelegationCert a drep) = Some a"
| "new_account c = None"

fun used_account :: "certificate_type \<Rightarrow> string option" where
  "used_account (StakeDeregistrationCert a) = Some a"
| "used_account (StakeDelegationCert a pool) = Some a"
| "used_account (StakeAndVoteDelegationCert a pool drep) = Some a"
| "used_account (VoteDelegationCert a drep) = Some a"
| "used_account c = None"

fun used_pool :: "certificate_type \<Rightarrow> string option" where
  "used_pool (StakeDelegationCert a pool) = Some pool"
| "used_pool (PoolRetirementCert pool epoch) = Some pool"
| "used_pool (StakeRegistrationAndDelegationCert a pool) = Some pool"
| "used_pool (StakeAndVoteDelegationCert a pool drep) = Some pool"
| "used_pool (StakeVoteRegistrationAndDelegationCert a pool drep) = Some pool"
| "used_pool c = None"

fun target_drep :: "drep_target \<Rightarrow> string option" where
  "target_drep (CredentialTarget d) = Some d"
| "target_drep drep = None"

fun used_drep :: "certificate_type \<Rightarrow> string option" where
  "used_drep (StakeAndVoteDelegationCert a pool drep) = target_drep drep"
| "used_drep (StakeVoteRegistrationAndDelegationCert a pool drep) = target_drep drep"
| "used_drep (VoteDelegationCert a drep) = target_drep drep"
| "used_drep (VoteRegistrationAndDelegationCert a drep) = target_drep drep"
| "used_drep c = None"

lemmas check_defs =
  both_def register_account_checks_def account_checks_def pool_checks_def drep_checks_def
  deregister_account_checks_def register_pool_checks_def retire_pool_checks_def
  register_drep_checks_def present_drep_checks_def hot_auth_checks_def cold_resign_checks_def
  resigned_errors_def unknown_member_errors_def Let_def

lemma missing_registered: "missing s e \<longleftrightarrow> e \<notin> registered s"
  by (auto simp: missing_def registered_def)

lemma known_pool: "state_ok s \<Longrightarrow> known s (PoolEntity pool) \<longleftrightarrow> PoolEntity pool \<in> registered s"
  by (simp add: registered_def state_ok_def)

lemma already_registered_iff:
  "(StakeAlreadyRegistered a, at) \<in> set (fst (validate_certificate ic w epoch s c i)) \<longleftrightarrow>
     at = cert_at i \<and> new_account c = Some a \<and> AccountEntity a \<in> registered s"
  by (cases c) (auto simp: check_defs registered_def split: option.splits drep_target.splits if_splits)

lemma not_registered_iff:
  "(StakeNotRegistered a, at) \<in> set (fst (validate_certificate ic w epoch s c i)) \<longleftrightarrow>
     at = cert_at i \<and> used_account c = Some a \<and> AccountEntity a \<notin> registered s"
  by (cases c) (auto simp: check_defs missing_registered split: option.splits drep_target.splits if_splits)

lemma pool_not_registered_iff:
  "state_ok s \<Longrightarrow> (StakePoolNotRegistered pool, at) \<in> set (fst (validate_certificate ic w epoch s c i)) \<longleftrightarrow>
     at = cert_at i \<and> used_pool c = Some pool \<and> PoolEntity pool \<notin> registered s"
  by (cases c) (auto simp: check_defs known_pool split: option.splits drep_target.splits if_splits)

lemma drep_not_registered_iff:
  "(DelegateeDRepNotRegistered d j, at) \<in> set (fst (validate_certificate ic w epoch s c i)) \<longleftrightarrow>
     at = cert_at i \<and> j = i \<and> used_drep c = Some d \<and> DRepEntity d \<notin> registered s"
  by (cases c) (auto simp: check_defs missing_registered split: option.splits drep_target.splits if_splits)

subsection \<open>The walk\<close>

lemma walk_errors:
  "e \<in> set (fst (walk_certificates ic w epoch s infos)) \<longleftrightarrow>
     (\<exists>k < length infos. e \<in> set (fst (validate_certificate ic w epoch
        (states_after s (take k infos)) (ci_cert_type (infos ! k)) (ci_cert_index (infos ! k)))))"
proof (induction infos arbitrary: s)
  case (Cons info infos)
  let ?P = "\<lambda>k. e \<in> set (fst (validate_certificate ic w epoch (states_after s (take k (info # infos)))
      (ci_cert_type ((info # infos) ! k)) (ci_cert_index ((info # infos) ! k))))"
  have "(\<exists>k < length (info # infos). ?P k) \<longleftrightarrow> ?P 0 \<or> (\<exists>k < length infos. ?P (Suc k))"
    by (simp only: length_Cons Ex_less_Suc2)
  then show ?case
    by (simp add: both_def Cons.IH states_after_def)
qed simp

definition certificate_types :: "csl \<Rightarrow> tx_body \<Rightarrow> input_context \<Rightarrow> certificate_type list" where
  "certificate_types cs body ic =
     map (process_certificate cs ic) (case tb_certs body of Some certs \<Rightarrow> certs | None \<Rightarrow> [])"

lemma certificate_infos_types:
  "map ci_cert_type (certificate_infos cs body ic) = certificate_types cs body ic"
  "length (certificate_infos cs body ic) = length (certificate_types cs body ic)"
  "k < length (certificate_types cs body ic) \<Longrightarrow>
     ci_cert_type (certificate_infos cs body ic ! k) = certificate_types cs body ic ! k \<and>
     ci_cert_index (certificate_infos cs body ic ! k) = of_nat k"
  by (auto simp: certificate_infos_def certificate_types_def case_prod_unfold nth_enumerate_eq
      intro!: nth_equalityI split: option.splits)

text \<open>The entities registered when the certificate at \<open>k\<close> is reached.\<close>

definition ledger_before :: "csl \<Rightarrow> tx_body \<Rightarrow> input_context \<Rightarrow> nat \<Rightarrow> registrable_entity set" where
  "ledger_before cs body ic k =
     foldl (\<lambda>L c. ledger_step c L) (load_initial_state ic) (take k (certificate_types cs body ic))"

lemma initial_kept [simp]: "rs_initial (states_after s infos) = rs_initial s"
proof -
  have "rs_initial (update_state s c i) = rs_initial s" for s c i
    by (cases c) (simp_all add: take_back_def deregister_entity_def Let_def)
  then show ?thesis
    by (induction infos arbitrary: s) (simp_all add: states_after_def)
qed

lemma walk_state:
  "state_ok (states_after (start_state (load_initial_state ic)) (take k (certificate_infos cs body ic)))"
  "registered (states_after (start_state (load_initial_state ic)) (take k (certificate_infos cs body ic)))
     = ledger_before cs body ic k"
  by (simp_all add: states_after_ok states_after_registered state_ok_start ledger_before_def
      take_map [symmetric] certificate_infos_types(1))

lemma registration_errors:
  "e \<in> set (vr_errors (registration_validate ic (registration_new cs body ic) ::
        ('e, 'w, 'r) validation_result)) \<longleftrightarrow>
     (\<exists>k < length (certificate_types cs body ic).
        e \<in> set (fst (validate_certificate ic (collect_withdrawals body) (ic_slot ic div slots_per_epoch)
          (states_after (start_state (load_initial_state ic)) (take k (certificate_infos cs body ic)))
          (certificate_types cs body ic ! k) (of_nat k))))"
proof -
  have "rs_initial (rv_state (registration_new cs body ic)) = load_initial_state ic"
    by (simp add: registration_new_def Let_def states_after_def [symmetric]) (simp add: start_state_def)
  then have "vr_errors (registration_validate ic (registration_new cs body ic) ::
        ('e, 'w, 'r) validation_result) =
      fst (walk_certificates ic (collect_withdrawals body) (ic_slot ic div slots_per_epoch)
        (start_state (load_initial_state ic)) (certificate_infos cs body ic))"
    by (simp add: registration_validate_def Let_def) (simp add: registration_new_def Let_def)
  then show ?thesis
    by (simp add: walk_errors certificate_infos_types(2)) (use certificate_infos_types(3) in auto)
qed

end
