(* ===== verification/Validator.thy ===== *)
theory Validator
  imports Phase2_Facts Witness_Reports Balance_Facts Collateral_Facts Registration_Facts
begin

text \<open>
  The whole validation of a transaction (\<open>validate_transaction\<close> in
  \<^verbatim>\<open>src/src/validators/validator.rs\<close>): the gate on the bytes, the parse, the ten validators of
  phase 1 in their order, then phase 2. The first validator that cannot be built ends the
  validation with its text; everything that is reported comes in order.

  A finding has a list of locations here: most validators give one, the witness validator and
  phase 2 may give two.
\<close>

record overall_result =
  ol_errors :: "error_at list"
  ol_warnings :: "warning_at list"
  ol_phase2_errors :: "phase2_error_at list"
  ol_phase2_warnings :: "phase2_warning_at list"
  ol_eval_redeemer_results :: "eval_redeemer_result list"

type_synonym phase1_result = "(unit, unit, unit) validation_result"

definition no_findings :: overall_result where
  "no_findings =
     \<lparr>ol_errors = [], ol_warnings = [], ol_phase2_errors = [], ol_phase2_warnings = [],
      ol_eval_redeemer_results = []\<rparr>"

definition append_overall :: "overall_result \<Rightarrow> overall_result \<Rightarrow> overall_result" where
  "append_overall a b =
     \<lparr>ol_errors = ol_errors a @ ol_errors b, ol_warnings = ol_warnings a @ ol_warnings b,
      ol_phase2_errors = ol_phase2_errors a @ ol_phase2_errors b,
      ol_phase2_warnings = ol_phase2_warnings a @ ol_phase2_warnings b,
      ol_eval_redeemer_results = ol_eval_redeemer_results a @ ol_eval_redeemer_results b\<rparr>"

definition phase_1_findings :: "error_at list \<times> warning_at list \<Rightarrow> overall_result" where
  "phase_1_findings found =
     \<lparr>ol_errors = fst found, ol_warnings = snd found, ol_phase2_errors = [],
      ol_phase2_warnings = [], ol_eval_redeemer_results = []\<rparr>"

text \<open>\<open>ValidationPhase1Error::new\<close> puts its one location in the list.\<close>

definition located :: "phase1_result \<Rightarrow> overall_result" where
  "located r =
     phase_1_findings (map (\<lambda>(e, at). (e, [at])) (vr_errors r), map (\<lambda>(w, at). (w, [at])) (vr_warnings r))"

definition phase_2_findings :: "phase2_result \<Rightarrow> overall_result" where
  "phase_2_findings r =
     \<lparr>ol_errors = [], ol_warnings = [], ol_phase2_errors = p2_errors r,
      ol_phase2_warnings = p2_warnings r, ol_eval_redeemer_results = p2_results r\<rparr>"

text \<open>
  A parsed transaction: the body, the witness set (with what the fee, the collateral and the
  limits read of its redeemers), the hash, the bytes of the auxiliary data.
\<close>

record csl_transaction =
  ct_body :: tx_body
  ct_witness_set :: witness_set
  ct_redeemers :: "redeemers option"
  ct_hash :: bytes
  ct_auxiliary_data :: "bytes option"

text \<open>The code outside the repository the validation calls, and the orders hash sets iterate in.\<close>

record ('info, 'i, 'p) libraries =
  lb_csl :: csl
  lb_well_formed_error :: "bytes \<Rightarrow> decode_error option"
  lb_parse_csl :: "bytes \<Rightarrow> string + csl_transaction"
  lb_parse_pallas :: "bytes \<Rightarrow> string + pallas_tx option"
  lb_witnesses :: witness_library
  lb_mapper :: mapper_library
  lb_evaluator :: "('info, 'i, 'p) evaluator"
  lb_order :: "utxo_context list \<Rightarrow> utxo_context list"
  lb_id_less :: "bytes \<Rightarrow> bytes \<Rightarrow> bool"
  lb_reward_less :: "reward_address \<Rightarrow> reward_address \<Rightarrow> bool"
  lb_hash_auxiliary_data :: "bytes \<Rightarrow> bytes"

definition phase_1_validation ::
  "('info, 'i, 'p) libraries \<Rightarrow> nat \<Rightarrow> csl_transaction \<Rightarrow> input_context \<Rightarrow> string + overall_result" where
  "phase_1_validation lb tx_size tx ic =
     (let cs = lb_csl lb; wfe = lb_well_formed_error lb; body = ct_body tx; rs = ct_redeemers tx in
      bind_result (balance_new cs body ic) (\<lambda>balance.
      let result = append_overall no_findings (located (balance_validate cs ic balance)) in
      bind_result (fee_new cs wfe (lb_order lb) tx_size body rs ic) (\<lambda>fee.
      let result = append_overall result (located (fee_validate fee)) in
      bind_result (witness_new cs (lb_witnesses lb) wfe body (ct_witness_set tx) (ct_hash tx) ic) (\<lambda>witness.
      let result = append_overall result (phase_1_findings (witness_validate (lb_witnesses lb) witness)) in
      bind_result (collateral_new cs body rs ic) (\<lambda>collateral.
      let result = append_overall result (located (collateral_validate collateral));
          result = append_overall result
            (located (auxiliary_validate
              (auxiliary_new (lb_hash_auxiliary_data lb) body (ct_auxiliary_data tx))));
          result = append_overall result
            (located (registration_validate ic (registration_new cs body ic)));
          result = append_overall result (located (output_validate (output_new cs body ic)))
      in
      bind_result (limits_new cs wfe (lb_order lb) (lb_id_less lb) (lb_reward_less lb) tx_size body rs ic)
        (\<lambda>limits.
      let result = append_overall result (located (limits_validate ic limits));
          result = append_overall result (located (network_validate (network_new cs body ic)))
      in Inr (append_overall result (located (governance_validate cs body ic)))))))))"

definition validate_transaction ::
  "('info, 'i, 'p) libraries \<Rightarrow> string \<Rightarrow> input_context \<Rightarrow> string + overall_result" where
  "validate_transaction lb tx_hex ic =
     (case check_cbor_hex (lb_csl lb) (lb_well_formed_error lb) tx_hex Transaction of
        Inl e \<Rightarrow> Inl (''Failed to parse transaction: '' @ e)
      | Inr tx_bytes \<Rightarrow>
          (let tx_size = (case ledger_tx_size tx_bytes of Some n \<Rightarrow> n | None \<Rightarrow> length tx_bytes) in
           case lb_parse_csl lb tx_bytes of
             Inl e \<Rightarrow>
               Inl (''Failed to parse transaction: '' @ validation_parse_failure tx_bytes e)
           | Inr tx \<Rightarrow>
               bind_result (phase_1_validation lb tx_size tx ic) (\<lambda>result.
               bind_result
                 (phase_2_validation (lb_csl lb) (lb_well_formed_error lb) (lb_mapper lb)
                   (lb_evaluator lb) (lb_parse_pallas lb) tx_hex ic)
                 (\<lambda>phase_2. Inr (append_overall result (phase_2_findings phase_2))))))"

end
