(* ===== verification/Validator_Facts.thy ===== *)
theory Validator_Facts
  imports Validator
begin

text \<open>
  What an answer of the whole validation means: without errors the transaction follows the
  ledger's rules, and nothing outside the repository reads bytes the gate has not passed.
\<close>

subsection \<open>The parts of an answer\<close>

lemma append_overall_errors [simp]:
  "ol_errors (append_overall a b) = ol_errors a @ ol_errors b"
  "ol_phase2_errors (append_overall a b) = ol_phase2_errors a @ ol_phase2_errors b"
  "ol_phase2_warnings (append_overall a b) = ol_phase2_warnings a @ ol_phase2_warnings b"
  "ol_eval_redeemer_results (append_overall a b) = ol_eval_redeemer_results a @ ol_eval_redeemer_results b"
  by (simp_all add: append_overall_def)

lemma findings_errors [simp]:
  "ol_errors no_findings = []" "ol_errors (phase_1_findings f) = fst f"
  "ol_errors (located r) = map (\<lambda>(e, at). (e, [at])) (vr_errors r)" "ol_errors (phase_2_findings r2) = []"
  "ol_phase2_errors no_findings = []" "ol_phase2_errors (phase_1_findings f) = []"
  "ol_phase2_errors (located r) = []" "ol_phase2_errors (phase_2_findings r2) = p2_errors r2"
  "ol_phase2_warnings no_findings = []" "ol_phase2_warnings (phase_1_findings f) = []"
  "ol_phase2_warnings (located r) = []" "ol_phase2_warnings (phase_2_findings r2) = p2_warnings r2"
  "ol_eval_redeemer_results no_findings = []" "ol_eval_redeemer_results (phase_1_findings f) = []"
  "ol_eval_redeemer_results (located r) = []" "ol_eval_redeemer_results (phase_2_findings r2) = p2_results r2"
  by (simp_all add: no_findings_def phase_1_findings_def located_def phase_2_findings_def)

text \<open>The validators of phase 1 that were built, and what each reports.\<close>

record built =
  bu_balance :: balance_validator
  bu_fee :: fee_validator
  bu_witness :: witness_validator
  bu_collateral :: collateral_validator
  bu_limits :: limits_validator

definition builds ::
  "('info, 'i, 'p) libraries \<Rightarrow> nat \<Rightarrow> csl_transaction \<Rightarrow> input_context \<Rightarrow> built \<Rightarrow> bool" where
  "builds lb tx_size tx ic b \<longleftrightarrow>
     balance_new (lb_csl lb) (ct_body tx) ic = Inr (bu_balance b) \<and>
     fee_new (lb_csl lb) (lb_well_formed_error lb) (lb_order lb) tx_size (ct_body tx) (ct_redeemers tx) ic
       = Inr (bu_fee b) \<and>
     witness_new (lb_csl lb) (lb_witnesses lb) (lb_well_formed_error lb) (ct_body tx) (ct_witness_set tx)
       (ct_hash tx) ic = Inr (bu_witness b) \<and>
     collateral_new (lb_csl lb) (ct_body tx) (ct_redeemers tx) ic = Inr (bu_collateral b) \<and>
     limits_new (lb_csl lb) (lb_well_formed_error lb) (lb_order lb) (lb_id_less lb) (lb_reward_less lb)
       tx_size (ct_body tx) (ct_redeemers tx) ic = Inr (bu_limits b)"

definition one_place :: "phase1_result \<Rightarrow> error_at list" where
  "one_place r = map (\<lambda>(e, at). (e, [at])) (vr_errors r)"

lemma phase_1_errors:
  assumes "phase_1_validation lb tx_size tx ic = Inr r"
  obtains b where "builds lb tx_size tx ic b"
    "ol_errors r =
       one_place (balance_validate (lb_csl lb) ic (bu_balance b)) @ one_place (fee_validate (bu_fee b))
       @ fst (witness_validate (lb_witnesses lb) (bu_witness b))
       @ one_place (collateral_validate (bu_collateral b))
       @ one_place (auxiliary_validate
           (auxiliary_new (lb_hash_auxiliary_data lb) (ct_body tx) (ct_auxiliary_data tx)))
       @ one_place (registration_validate ic (registration_new (lb_csl lb) (ct_body tx) ic))
       @ one_place (output_validate (output_new (lb_csl lb) (ct_body tx) ic))
       @ one_place (limits_validate ic (bu_limits b))
       @ one_place (network_validate (network_new (lb_csl lb) (ct_body tx) ic))
       @ one_place (governance_validate (lb_csl lb) (ct_body tx) ic)"
proof -
  from assms obtain bv fv wv cv lv where parts:
    "balance_new (lb_csl lb) (ct_body tx) ic = Inr bv"
    "fee_new (lb_csl lb) (lb_well_formed_error lb) (lb_order lb) tx_size (ct_body tx) (ct_redeemers tx) ic = Inr fv"
    "witness_new (lb_csl lb) (lb_witnesses lb) (lb_well_formed_error lb) (ct_body tx) (ct_witness_set tx)
       (ct_hash tx) ic = Inr wv"
    "collateral_new (lb_csl lb) (ct_body tx) (ct_redeemers tx) ic = Inr cv"
    "limits_new (lb_csl lb) (lb_well_formed_error lb) (lb_order lb) (lb_id_less lb) (lb_reward_less lb)
       tx_size (ct_body tx) (ct_redeemers tx) ic = Inr lv"
    by (auto simp: phase_1_validation_def Let_def)
  let ?b = "\<lparr>bu_balance = bv, bu_fee = fv, bu_witness = wv, bu_collateral = cv, bu_limits = lv\<rparr>"
  have "builds lb tx_size tx ic ?b" by (simp add: builds_def parts)
  with that [of ?b] assms parts show thesis
    by (auto simp: phase_1_validation_def Let_def one_place_def)
qed

lemma one_place_error: "(\<exists>ats. (e, ats) \<in> set (one_place r)) \<longleftrightarrow> (\<exists>at. (e, at) \<in> set (vr_errors r))"
  by (force simp: one_place_def)

lemma validate_transaction_parts:
  assumes "validate_transaction lb tx_hex ic = Inr r"
  obtains tx_bytes tx_size tx r1 r2 where
    "check_cbor_hex (lb_csl lb) (lb_well_formed_error lb) tx_hex Transaction = Inr tx_bytes"
    "lb_parse_csl lb tx_bytes = Inr tx"
    "phase_1_validation lb tx_size tx ic = Inr r1"
    "phase_2_validation (lb_csl lb) (lb_well_formed_error lb) (lb_mapper lb) (lb_evaluator lb)
       (lb_parse_pallas lb) tx_hex ic = Inr r2"
    "r = append_overall r1 (phase_2_findings r2)"
  using assms by (auto simp: validate_transaction_def Let_def split: sum.splits)

subsection \<open>Signatures\<close>

definition vkeys_of :: "witness_set \<Rightarrow> vkey_witness list" where
  "vkeys_of ws = (case ws_vkeys ws of Some ks \<Rightarrow> ks | None \<Rightarrow> [])"

lemma provide_vkey_invalid:
  "fst ` set (pv_invalid_signatures (provide_vkey wl tx_hash p e)) =
     fst ` set (pv_invalid_signatures p) \<union>
     (if wl_verify wl (vw_public_key (snd e)) tx_hash (vw_signature (snd e)) then {}
      else {wl_key_hash wl (vw_public_key (snd e))})"
  by (cases e) (simp add: provide_vkey_def Let_def)

lemma provide_vkeys_invalid:
  "fst ` set (pv_invalid_signatures (over (provide_vkey wl tx_hash) (ws_vkeys ws) nothing_provided)) =
     {wl_key_hash wl (vw_public_key w) | w. w \<in> set (vkeys_of ws) \<and>
        \<not> wl_verify wl (vw_public_key w) tx_hash (vw_signature w)}"
proof -
  have "fst ` set (pv_invalid_signatures (foldl (provide_vkey wl tx_hash) p (enumerate n xs))) =
      fst ` set (pv_invalid_signatures p) \<union> {wl_key_hash wl (vw_public_key w) | w. w \<in> set xs \<and>
        \<not> wl_verify wl (vw_public_key w) tx_hash (vw_signature w)}" for p n and xs :: "vkey_witness list"
  proof (induction xs arbitrary: p n)
    case (Cons x xs)
    from Cons.IH [of "provide_vkey wl tx_hash p (n, x)" "Suc n"] show ?case
      by (auto simp: provide_vkey_invalid)
  qed simp
  then show ?thesis
    by (simp add: over_def vkeys_of_def nothing_provided_def split: option.split)
qed

lemma provided_invalid_signatures:
  assumes "collect_provided_witnesses cs wl wfe ic body ws tx_hash = Inr p"
  shows "fst ` set (pv_invalid_signatures p) =
     {wl_key_hash wl (vw_public_key w) | w. w \<in> set (vkeys_of ws) \<and>
        \<not> wl_verify wl (vw_public_key w) tx_hash (vw_signature w)}"
proof -
  let ?start = "over (provide_vkey wl tx_hash) (ws_vkeys ws) nothing_provided"
  let ?P = "\<lambda>p. pv_invalid_signatures p = pv_invalid_signatures ?start"
  have steps: "?P p \<Longrightarrow> ?P (case e of (i, s) \<Rightarrow> provide_native_script wl (InWitnessSet (of_nat i)) s p)"
    "?P p \<Longrightarrow> ?P (case e' of (i, version, s) \<Rightarrow>
        provide_plutus_script wl (InWitnessSet (of_nat i)) version s p)"
    "?P p \<Longrightarrow> ?P (provide_datum wl p e'')"
    "?P p \<Longrightarrow> ?P (case r of (i, r) \<Rightarrow> provide_redeemer p r)" for p e e' e'' r
    by (simp_all add: provide_datum_def provide_redeemer_def provide_native_script_def
        provide_plutus_script_def Let_def split: prod.split)
  have "?P (provided_in_witness_set wl ws tx_hash)"
    unfolding provided_in_witness_set_def Let_def
    by (rule over_keeps [where P = ?P, OF steps(4)], assumption,
        rule over_keeps [where P = ?P, OF steps(3)], assumption,
        rule over_keeps [where P = ?P, OF steps(2)], assumption,
        rule over_keeps [where P = ?P, OF steps(1)], assumption, rule refl)
  with collect_provided_facts(3) [OF assms] provide_vkeys_invalid [of wl tx_hash ws] show ?thesis
    by (simp add: same_but_scripts_def)
qed

lemma invalid_signatures:
  assumes "\<And>xs. set (wl_order_indices wl xs) = set xs"
  shows "(\<exists>at. (InvalidSignature k, at) \<in> set (fst (witness_validate wl v))) \<longleftrightarrow>
    k \<in> hex_encode ` fst ` set (pv_invalid_signatures (wv_provided v))"
proof -
  have "(InvalidSignature k, at) \<notin> set (missing_vkey_errors v)"
    "(InvalidSignature k, at) \<notin> set (native_script_errors v)"
    "(InvalidSignature k, at) \<notin> set (plutus_script_errors v)"
    "(InvalidSignature k, at) \<notin> set (redeemer_errors wl v)"
    "(InvalidSignature k, at) \<notin> set (datum_errors v)"
    "(InvalidSignature k, at) \<notin> set (unknown_script_errors v)"
    "(InvalidSignature k, at) \<notin> set (extraneous_errors wl v)"
    "(InvalidSignature k, at) \<notin> set (extraneous_signature_errors wl v)"
    "(InvalidSignature k, at) \<notin> set (script_data_hash_errors v)" for at
    by (auto simp: missing_vkey_errors_def native_script_errors_def plutus_script_errors_def
        redeemer_errors_def datum_errors_def unknown_script_errors_def extraneous_errors_def
        extraneous_def extraneous_signature_errors_def script_data_hash_errors_def Let_def
        split: option.splits)
  then have "(InvalidSignature k, at) \<in> set (fst (witness_validate wl v)) \<longleftrightarrow>
      (InvalidSignature k, at) \<in> set (invalid_signature_errors wl v)" for at
    unfolding witness_validate_def fst_conv set_append Un_iff by blast
  moreover have "(\<exists>at. (InvalidSignature k, at) \<in> set (invalid_signature_errors wl v)) \<longleftrightarrow>
      k \<in> hex_encode ` fst ` set (pv_invalid_signatures (wv_provided v))"
    by (force simp: invalid_signature_errors_def assms Let_def)
  ultimately show ?thesis by simp
qed

subsection \<open>The parts of phase 2\<close>

lemma phase_2_parts:
  assumes "phase_2_validation cs wfe ml ev decode tx_hex ic = Inr r"
  obtains tx_bytes tx us where
    "check_hex (cs_hex_decode cs) (\<lambda>bs. check_pallas_cbor (cs_minicbor cs) wfe bs Transaction) tx_hex = Inr tx_bytes"
    "decode tx_bytes = Inr (Some tx)"
    "us = filter (\<lambda>u. utxo_key u \<in> set (collect_tx_inputs tx)) (ic_utxo_set ic)"
    "(unexamined_utxos cs wfe ml us \<noteq> [] \<and> r = not_examined tx (unexamined_utxos cs wfe ml us)) \<or>
     (\<exists>utxos. to_pallas_utxos cs wfe ml us = Inr utxos \<and>
        missed_utxos (collect_tx_inputs tx) utxos = [] \<and>
        r = eval_all_redeemers ev tx utxos (Some (pp_cost_models (ic_protocol_parameters ic)))
              (slot_config_network (ic_network_type ic))
              (protocol_major_version (fst (pp_protocol_version (ic_protocol_parameters ic)))))"
  using assms
  by (auto simp: phase_2_validation_def check_missed_utxos_def Let_def split: sum.splits option.splits if_splits)

lemma to_pallas_utxos_members:
  "to_pallas_utxos cs wfe ml us = Inr rs \<Longrightarrow> x \<in> set rs \<Longrightarrow> \<exists>u \<in> set us. to_pallas_utxo cs wfe ml u = Inr x"
  by (induction us arbitrary: rs) (auto split: sum.splits)

lemma to_pallas_utxo_input:
  "to_pallas_utxo cs wfe ml u = Inr x \<Longrightarrow>
     cs_hex_decode cs (ti_tx_hash (ux_input (uc_utxo u))) = Inr (pi_transaction_id (rs_input x)) \<and>
     pi_index (rs_input x) = ucast (ti_output_index (ux_input (uc_utxo u)))"
  by (auto simp: to_pallas_utxo_def hash_bytes_def Let_def split: sum.splits if_splits)

lemma hex_digits_plain: "CHR ''#'' \<notin> set (hex_encode bs)"
proof -
  have plain: "CHR ''#'' \<noteq> hex_digit n" if "n < 16" for n
  proof -
    from that have "n \<in> set [0..<16]" by simp
    moreover have "list_all (\<lambda>n. CHR ''#'' \<noteq> hex_digit n) [0..<16]" by code_simp
    ultimately show ?thesis by (auto simp: list_all_iff)
  qed
  have "CHR ''#'' \<noteq> hex_digit (unat b div 16)" "CHR ''#'' \<noteq> hex_digit (unat b mod 16)" for b :: "8 word"
    using unsigned_less [of b, where ?'a = nat] by (simp_all add: plain less_mult_imp_div_less)
  then show ?thesis by (auto simp: hex_encode_def)
qed

lemma first_separator:
  "xs @ c # ys = xs' @ c # ys' \<Longrightarrow> c \<notin> set xs \<Longrightarrow> c \<notin> set xs' \<Longrightarrow> xs = xs' \<and> ys = ys'"
  by (induction xs arbitrary: xs') (auto simp: Cons_eq_append_conv)

lemma number_inject: "number n = number m \<longleftrightarrow> n = m"
proof
  assume *: "number n = number m"
  have "int (unat x) \<le> i128_max" for x :: u64
    using unsigned_less [of x, where ?'a = int] by (simp add: i128_max_def)
  then have "Inr (int (unat n)) = (Inr (int (unat m)) :: string + int)"
    using parse_decimal [of "unat n"] parse_decimal [of "unat m"] * by (simp add: number_def)
  then show "n = m" by (simp add: word_uint_eq_iff)
qed simp

lemma request_format_inject: "input_to_request_format i = input_to_request_format j \<longleftrightarrow> i = j"
proof
  assume "input_to_request_format i = input_to_request_format j"
  then have "hex_encode (pi_transaction_id i) = hex_encode (pi_transaction_id j) \<and>
      number (pi_index i) = number (pi_index j)"
    using first_separator [OF _ hex_digits_plain hex_digits_plain]
    by (auto simp: input_to_request_format_def)
  then show "i = j" by (simp add: number_inject)
qed simp

text \<open>Every input of the transaction names a UTxO of the context.\<close>

definition named_in_context :: "csl \<Rightarrow> input_context \<Rightarrow> pallas_input \<Rightarrow> bool" where
  "named_in_context cs ic i \<longleftrightarrow>
     (\<exists>u \<in> set (ic_utxo_set ic).
        cs_hex_decode cs (ti_tx_hash (ux_input (uc_utxo u))) = Inr (pi_transaction_id i) \<and>
        ucast (ti_output_index (ux_input (uc_utxo u))) = pi_index i)"

definition all_inputs :: "pallas_tx \<Rightarrow> pallas_input set" where
  "all_inputs tx =
     set (pb_inputs tx) \<union> set (case pb_reference_inputs tx of Some is \<Rightarrow> is | None \<Rightarrow> [])
     \<union> set (case pb_collateral tx of Some is \<Rightarrow> is | None \<Rightarrow> [])"

lemma requests_of_inputs: "set (collect_tx_inputs tx) = input_to_request_format ` all_inputs tx"
  by (auto simp: collect_tx_inputs_def all_inputs_def split: option.splits)

lemma no_missed_named:
  assumes utxos: "to_pallas_utxos cs wfe ml us = Inr utxos" "set us \<subseteq> set (ic_utxo_set ic)"
    and missed: "missed_utxos (collect_tx_inputs tx) utxos = []" and i: "i \<in> all_inputs tx"
  shows "named_in_context cs ic i"
proof -
  from missed i have "input_to_request_format i \<in> set (map (\<lambda>u. input_to_request_format (rs_input u)) utxos)"
    by (auto simp: missed_utxos_def Let_def filter_empty_conv requests_of_inputs)
  then obtain x where x: "x \<in> set utxos" "rs_input x = i" by (auto simp: request_format_inject)
  with to_pallas_utxos_members [OF utxos(1)] obtain u where
    "u \<in> set us" "to_pallas_utxo cs wfe ml u = Inr x" by blast
  with to_pallas_utxo_input utxos(2) x(2) show ?thesis by (fastforce simp: named_in_context_def)
qed

subsection \<open>An answer without errors\<close>

text \<open>The two sides of the balance, each in its terms, for lovelace and for every token.\<close>

definition value_conserved :: "csl \<Rightarrow> tx_body \<Rightarrow> input_context \<Rightarrow> bool" where
  "value_conserved cs body ic \<longleftrightarrow>
     sum_list (map (\<lambda>i. val_coins (input_value ic i)) (tb_inputs body))
       + sum_list (map refund_amount (fst (calculate_deposits_and_refunds cs body ic)))
       + sum_list (map (\<lambda>w. ucast (wd_amount w)) (get_withdrawals body))
     = sum_list (map (\<lambda>out. ucast (cv_coin (ou_amount out))) (tb_outputs body)) + ucast (tb_fee body)
       + sum_list (map deposit_amount (calculate_voting_proposals_deposits body
           @ snd (calculate_deposits_and_refunds cs body ic)))
       + get_donation body \<and>
     (\<forall>u. sum_list (map (\<lambda>i. held (input_value ic i) u) (tb_inputs body))
         + quantity_of (calculate_mints body) u
       = sum_list (map (\<lambda>out. held (new_from_csl_value (ou_amount out)) u) (tb_outputs body))
         + quantity_of (calculate_burn body) u)"

lemma value_reported:
  assumes "balance_new cs body ic = Inr bv"
  shows "(\<exists>i out d at. (ValueNotConservedUTxO i out d, at) \<in>
      set (vr_errors (balance_validate cs ic bv :: phase1_result))) \<longleftrightarrow> \<not> value_conserved cs body ic"
  unfolding value_error_iff value_eq_quantities [OF balance_totals(1,2) [OF assms]] held_def [symmetric]
    balance_totals(3-6) [OF assms] value_conserved_def ..

text \<open>
  Every demanded key has signed and every signature verifies; every demanded script is there, a
  native one holds (or is too deep to be examined); every Plutus script has its redeemer and datum.
\<close>

definition witnessed ::
  "csl \<Rightarrow> witness_library \<Rightarrow> input_context \<Rightarrow> tx_body \<Rightarrow> witness_set \<Rightarrow> bytes \<Rightarrow> provided \<Rightarrow> bool" where
  "witnessed cs wl ic body ws tx_hash p \<longleftrightarrow>
     (let D = demands cs wl ic body in
      keys_in D \<subseteq> signing_keys wl ws \<and>
      (\<forall>w \<in> set (vkeys_of ws). wl_verify wl (vw_public_key w) tx_hash (vw_signature w)) \<and>
      scripts_kind p IsUnknownScript D = {} \<and>
      (\<forall>h \<in> scripts_kind p IsNativeScript D. \<not> failed_script cs p (interval_of_body body) h) \<and>
      redeemers_in p D \<subseteq> pv_redeemers p \<and> datums_in p D \<subseteq> fst ` set (pv_datum_sources p))"

lemma witness_silent:
  assumes new: "witness_new cs wl wfe body ws tx_hash ic = Inr v"
    and order: "\<And>xs. set (wl_order_indices wl xs) = set xs"
    and silent: "fst (witness_validate wl v) = []"
  shows "witnessed cs wl ic body ws tx_hash (wv_provided v)"
proof -
  let ?D = "demands cs wl ic body" and ?p = "wv_provided v"
  note p = witness_new_parts(1) [OF new] and parts = required_parts [OF new]
  have none: "\<nexists>at. (e, at) \<in> set (fst (witness_validate wl v))" for e by (simp add: silent)
  have keys: "keys_in ?D \<subseteq> signing_keys wl ws"
  proof
    fix k assume "k \<in> keys_in ?D"
    then have "k \<in> rk_key_hash ` set (rd_vkeys (wv_required v))"
      using parts(1) by (simp add: keys_of_def)
    then obtain q where "q \<in> set (rd_vkeys (wv_required v))" "rk_key_hash q = k" by blast
    with none missing_keys [of "hex_encode k" wl v] show "k \<in> signing_keys wl ws"
      using collect_provided_facts(1) [OF p] by auto
  qed
  have "fst ` set (pv_invalid_signatures ?p) = {}"
  proof (rule equals0I)
    fix k assume "k \<in> fst ` set (pv_invalid_signatures ?p)"
    then have "hex_encode k \<in> hex_encode ` fst ` set (pv_invalid_signatures ?p)" by (rule imageI)
    with none [of "InvalidSignature (hex_encode k)"] show False
      by (simp only: invalid_signatures [OF order] simp_thms)
  qed
  then have "{wl_key_hash wl (vw_public_key w) | w. w \<in> set (vkeys_of ws) \<and>
      \<not> wl_verify wl (vw_public_key w) tx_hash (vw_signature w)} = {}"
    using provided_invalid_signatures [OF p] by simp
  then have verified: "\<forall>w \<in> set (vkeys_of ws). wl_verify wl (vw_public_key w) tx_hash (vw_signature w)"
    by blast
  have unknown: "scripts_kind ?p IsUnknownScript ?D = {}"
  proof (rule equals0I)
    fix h assume "h \<in> scripts_kind ?p IsUnknownScript ?D"
    then have "\<exists>s \<in> scripts_of (wv_required v) IsUnknownScript. hex_encode h = hex_encode s"
      by (auto simp: parts(2))
    with none [of "MissingScriptWitnesses (hex_encode h)"] show False
      by (simp only: missing_scripts simp_thms)
  qed
  have native: "\<forall>h \<in> scripts_kind ?p IsNativeScript ?D. \<not> failed_script cs ?p (interval_of_body body) h"
  proof (intro ballI notI)
    fix h assume h: "h \<in> scripts_kind ?p IsNativeScript ?D" "failed_script cs ?p (interval_of_body body) h"
    then have "\<exists>s \<in> scripts_of (wv_required v) IsNativeScript. hex_encode h = hex_encode s \<and>
        failed_script cs ?p (interval_of_body body) s"
      by (auto simp: parts(2))
    with none [of "NativeScriptIsUnsuccessful (hex_encode h)"] show False
      by (simp only: unsuccessful_scripts [OF new] simp_thms)
  qed
  have redeemers: "redeemers_in ?p ?D \<subseteq> pv_redeemers ?p"
  proof
    fix x assume "x \<in> redeemers_in ?p ?D"
    then have "x \<in> (\<lambda>q. (re_tag q, re_index q)) ` set (rd_redeemers (wv_required v))"
      using parts(3) by (simp add: redeemers_of_def)
    then obtain q where "q \<in> set (rd_redeemers (wv_required v))" "(re_tag q, re_index q) = x" by blast
    with none missing_redeemers [of "wl_tag_text wl (re_tag q)" "re_index q" wl v]
    show "x \<in> pv_redeemers ?p" by auto
  qed
  have "datums_in ?p ?D \<subseteq> fst ` set (pv_datum_sources ?p)"
  proof
    fix d assume "d \<in> datums_in ?p ?D"
    then have "d \<in> rm_datum_hash ` set (rd_datums (wv_required v))"
      using parts(4) by (simp add: datums_of_def)
    then obtain q where "q \<in> set (rd_datums (wv_required v))" "rm_datum_hash q = d" by blast
    with none missing_datums [of "hex_encode d" wl v] show "d \<in> fst ` set (pv_datum_sources ?p)" by auto
  qed
  with keys verified unknown native redeemers show ?thesis by (simp add: witnessed_def Let_def)
qed

lemma limits_silent:
  assumes "limits_new cs wfe order id_less reward_less tx_size body rs ic = Inr v"
    "vr_errors (limits_validate ic v :: phase1_result) = []"
  shows "within_validity body (ic_slot ic)"
    "\<forall>i \<in> set (tb_inputs body) \<union> set (case tb_reference_inputs body of Some is \<Rightarrow> is | None \<Rightarrow> [])
       \<union> set (case tb_collateral body of Some is \<Rightarrow> is | None \<Rightarrow> []). known_unspent ic i"
    "input_of ` set (case tb_reference_inputs body of Some is \<Rightarrow> is | None \<Rightarrow> [])
       \<inter> input_of ` set (tb_inputs body) = {}"
proof -
  have none: "\<nexists>at. (e, at) \<in> set (vr_errors (limits_validate ic v :: phase1_result))" for e
    by (simp add: assms(2))
  show "within_validity body (ic_slot ic)"
    using none validity_errors [OF assms(1)] by blast
  show "\<forall>i \<in> set (tb_inputs body) \<union> set (case tb_reference_inputs body of Some is \<Rightarrow> is | None \<Rightarrow> [])
      \<union> set (case tb_collateral body of Some is \<Rightarrow> is | None \<Rightarrow> []). known_unspent ic i"
    using none bad_input_errors [OF assms(1)] by blast
  show "input_of ` set (case tb_reference_inputs body of Some is \<Rightarrow> is | None \<Rightarrow> [])
      \<inter> input_of ` set (tb_inputs body) = {}"
    using none overlap_errors [OF assms(1)] by blast
qed

definition phase_1_rules ::
  "('info, 'i, 'p) libraries \<Rightarrow> csl_transaction \<Rightarrow> input_context \<Rightarrow> provided \<Rightarrow> bool" where
  "phase_1_rules lb tx ic p \<longleftrightarrow>
     (let cs = lb_csl lb; body = ct_body tx; refs = (case tb_reference_inputs body of Some is \<Rightarrow> is | None \<Rightarrow> []) in
      value_conserved cs body ic \<and>
      within_validity body (ic_slot ic) \<and>
      (\<forall>i \<in> set (tb_inputs body) \<union> set refs \<union> set (case tb_collateral body of Some is \<Rightarrow> is | None \<Rightarrow> []).
         known_unspent ic i) \<and>
      input_of ` set refs \<inter> input_of ` set (tb_inputs body) = {} \<and>
      on_network cs (expected_network_id cs (ic_network_type ic)) body \<and>
      witnessed cs (lb_witnesses lb) ic body (ct_witness_set tx) (ct_hash tx) p)"

lemma phase_1_silent:
  assumes answer: "phase_1_validation lb tx_size tx ic = Inr r" and silent: "ol_errors r = []"
    and order: "\<And>xs. set (wl_order_indices (lb_witnesses lb) xs) = set xs"
  obtains p where
    "collect_provided_witnesses (lb_csl lb) (lb_witnesses lb) (lb_well_formed_error lb) ic (ct_body tx)
       (ct_witness_set tx) (ct_hash tx) = Inr p"
    "phase_1_rules lb tx ic p"
proof -
  from phase_1_errors [OF answer] obtain b where b: "builds lb tx_size tx ic b"
    and silents: "vr_errors (balance_validate (lb_csl lb) ic (bu_balance b) :: phase1_result) = []"
      "fst (witness_validate (lb_witnesses lb) (bu_witness b)) = []"
      "vr_errors (limits_validate ic (bu_limits b) :: phase1_result) = []"
      "vr_errors (network_validate (network_new (lb_csl lb) (ct_body tx) ic) :: phase1_result) = []"
    using silent by (auto simp: one_place_def)
  note built = b [unfolded builds_def]
  have "witnessed (lb_csl lb) (lb_witnesses lb) ic (ct_body tx) (ct_witness_set tx) (ct_hash tx)
      (wv_provided (bu_witness b))"
    using built order silents(2) by (blast intro: witness_silent)
  moreover have "value_conserved (lb_csl lb) (ct_body tx) ic"
    using value_reported [of "lb_csl lb" "ct_body tx" ic "bu_balance b"] built silents(1) by auto
  moreover have "on_network (lb_csl lb) (expected_network_id (lb_csl lb) (ic_network_type ic)) (ct_body tx)"
    using network_errors_Nil silents(4) by blast
  moreover have "limits_new (lb_csl lb) (lb_well_formed_error lb) (lb_order lb) (lb_id_less lb)
      (lb_reward_less lb) tx_size (ct_body tx) (ct_redeemers tx) ic = Inr (bu_limits b)"
    using built by blast
  note limits_silent [OF this silents(3)]
  ultimately have "phase_1_rules lb tx ic (wv_provided (bu_witness b))"
    unfolding phase_1_rules_def Let_def by (intro conjI)
  with that witness_new_parts(1) built show thesis by blast
qed

text \<open>The redeemers that were evaluated succeeded within their budgets; all were, or none.\<close>

lemma phase_2_silent:
  assumes "phase_2_validation cs wfe ml ev decode tx_hex ic = Inr r" "p2_errors r = []"
  shows "\<forall>res \<in> set (p2_results r). er_success res \<and>
      \<not> over_budget (er_calculated_ex_units res) (er_provided_ex_units res)"
  using phase_2_parts [OF assms(1)] assms(2) eval_all_errors_Nil
  by (metis empty_iff list.set(1) not_examined_def phase2_result.select_convs(3))

lemma validation_silent:
  assumes "validate_transaction lb tx_hex ic = Inr r" "ol_errors r = []" "ol_phase2_errors r = []"
    "\<And>xs. set (wl_order_indices (lb_witnesses lb) xs) = set xs"
  shows "\<exists>tx_bytes tx p.
      check_cbor_hex (lb_csl lb) (lb_well_formed_error lb) tx_hex Transaction = Inr tx_bytes \<and>
      lb_parse_csl lb tx_bytes = Inr tx \<and>
      collect_provided_witnesses (lb_csl lb) (lb_witnesses lb) (lb_well_formed_error lb) ic (ct_body tx)
        (ct_witness_set tx) (ct_hash tx) = Inr p \<and>
      phase_1_rules lb tx ic p \<and>
      (\<forall>res \<in> set (ol_eval_redeemer_results r). er_success res \<and>
         \<not> over_budget (er_calculated_ex_units res) (er_provided_ex_units res))"
proof -
  from validate_transaction_parts [OF assms(1)] obtain tx_bytes tx_size tx r1 r2 where parts:
    "check_cbor_hex (lb_csl lb) (lb_well_formed_error lb) tx_hex Transaction = Inr tx_bytes"
    "lb_parse_csl lb tx_bytes = Inr tx" "phase_1_validation lb tx_size tx ic = Inr r1"
    "phase_2_validation (lb_csl lb) (lb_well_formed_error lb) (lb_mapper lb) (lb_evaluator lb)
       (lb_parse_pallas lb) tx_hex ic = Inr r2"
    "r = append_overall r1 (phase_2_findings r2)" .
  with assms(2,3) have silent: "ol_errors r1 = []" "p2_errors r2 = []" by simp_all
  have "ol_eval_redeemer_results r1 = []"
    using parts(3) by (auto simp: phase_1_validation_def Let_def)
  with phase_2_silent [OF parts(4) silent(2)] parts(5) have
    "\<forall>res \<in> set (ol_eval_redeemer_results r). er_success res \<and>
       \<not> over_budget (er_calculated_ex_units res) (er_provided_ex_units res)" by simp
  with phase_1_silent [OF parts(3) silent(1) assms(4)] parts(1,2) show ?thesis by metis
qed

subsection \<open>The gate\<close>

text \<open>What the two parsers would do on bytes the gate refuses does not matter.\<close>

lemma validation_guarded:
  assumes "\<And>bs. check_cbor (cs_minicbor (lb_csl lb)) (lb_well_formed_error lb) bs Transaction = Inr () \<Longrightarrow>
      csl_parser bs = lb_parse_csl lb bs"
    "\<And>bs. check_pallas_cbor (cs_minicbor (lb_csl lb)) (lb_well_formed_error lb) bs Transaction = Inr () \<Longrightarrow>
      pallas_parser bs = lb_parse_pallas lb bs"
  shows "validate_transaction (lb\<lparr>lb_parse_csl := csl_parser, lb_parse_pallas := pallas_parser\<rparr>) tx_hex ic =
    validate_transaction lb tx_hex ic"
proof -
  have phase_1: "phase_1_validation (lb\<lparr>lb_parse_csl := csl_parser, lb_parse_pallas := pallas_parser\<rparr>) n tx ic
      = phase_1_validation lb n tx ic" for n tx
    by (simp add: phase_1_validation_def)
  have passed: "check bs = Inr ()" if "check_hex decode check tx_hex = Inr bs"
    for decode bs and check :: "bytes \<Rightarrow> preflight_error + unit"
    using that by (auto simp: check_hex_def split: sum.splits)
  have phase_2: "phase_2_validation (lb_csl lb) (lb_well_formed_error lb) ml ev pallas_parser tx_hex ic =
      phase_2_validation (lb_csl lb) (lb_well_formed_error lb) ml ev (lb_parse_pallas lb) tx_hex ic" for ml ev
    using assms(2) passed by (auto simp: phase_2_validation_def split: sum.split)
  show ?thesis
  proof (cases "check_cbor_hex (lb_csl lb) (lb_well_formed_error lb) tx_hex Transaction")
    case (Inl e)
    then show ?thesis by (simp add: validate_transaction_def)
  next
    case (Inr bs)
    with passed have "csl_parser bs = lb_parse_csl lb bs"
      unfolding check_cbor_hex_def by (intro assms(1)) blast
    with Inr show ?thesis
      by (cases "lb_parse_csl lb bs") (simp_all add: validate_transaction_def phase_1 phase_2 Let_def)
  qed
qed

subsection \<open>Inputs\<close>

text \<open>An answer in which phase 2 was not cut short by a limit names only inputs of the context.\<close>

lemma answered_inputs_known:
  assumes "validate_transaction lb tx_hex ic = Inr r"
  shows "\<exists>tx_bytes tx. lb_parse_pallas lb tx_bytes = Inr (Some tx) \<and>
    (unexamined_utxos (lb_csl lb) (lb_well_formed_error lb) (lb_mapper lb)
       (filter (\<lambda>u. utxo_key u \<in> set (collect_tx_inputs tx)) (ic_utxo_set ic)) = [] \<longrightarrow>
     (\<forall>i \<in> all_inputs tx. named_in_context (lb_csl lb) ic i) \<and>
     length (ol_eval_redeemer_results r) = length (tx_redeemers tx))"
proof -
  from validate_transaction_parts [OF assms] obtain tx_size tx' r1 r2 where parts:
    "phase_1_validation lb tx_size tx' ic = Inr r1"
    "phase_2_validation (lb_csl lb) (lb_well_formed_error lb) (lb_mapper lb) (lb_evaluator lb)
       (lb_parse_pallas lb) tx_hex ic = Inr r2"
    "r = append_overall r1 (phase_2_findings r2)" .
  have none: "ol_eval_redeemer_results r1 = []"
    using parts(1) by (auto simp: phase_1_validation_def Let_def)
  from phase_2_parts [OF parts(2)] obtain tx_bytes tx us where tx: "lb_parse_pallas lb tx_bytes = Inr (Some tx)"
    "us = filter (\<lambda>u. utxo_key u \<in> set (collect_tx_inputs tx)) (ic_utxo_set ic)"
    "(unexamined_utxos (lb_csl lb) (lb_well_formed_error lb) (lb_mapper lb) us \<noteq> [] \<and>
        r2 = not_examined tx (unexamined_utxos (lb_csl lb) (lb_well_formed_error lb) (lb_mapper lb) us)) \<or>
     (\<exists>utxos. to_pallas_utxos (lb_csl lb) (lb_well_formed_error lb) (lb_mapper lb) us = Inr utxos \<and>
        missed_utxos (collect_tx_inputs tx) utxos = [] \<and>
        r2 = eval_all_redeemers (lb_evaluator lb) tx utxos
          (Some (pp_cost_models (ic_protocol_parameters ic))) (slot_config_network (ic_network_type ic))
          (protocol_major_version (fst (pp_protocol_version (ic_protocol_parameters ic)))))" by metis
  have "(\<forall>i \<in> all_inputs tx. named_in_context (lb_csl lb) ic i) \<and>
      length (ol_eval_redeemer_results r) = length (tx_redeemers tx)"
    if "unexamined_utxos (lb_csl lb) (lb_well_formed_error lb) (lb_mapper lb) us = []"
  proof -
    from tx(3) that obtain utxos where
      utxos: "to_pallas_utxos (lb_csl lb) (lb_well_formed_error lb) (lb_mapper lb) us = Inr utxos"
        "missed_utxos (collect_tx_inputs tx) utxos = []"
      and r2: "r2 = eval_all_redeemers (lb_evaluator lb) tx utxos
          (Some (pp_cost_models (ic_protocol_parameters ic))) (slot_config_network (ic_network_type ic))
          (protocol_major_version (fst (pp_protocol_version (ic_protocol_parameters ic))))" by blast
    have "set us \<subseteq> set (ic_utxo_set ic)" using tx(2) by auto
    with no_missed_named utxos have "\<forall>i \<in> all_inputs tx. named_in_context (lb_csl lb) ic i" by blast
    moreover have "length (ol_eval_redeemer_results r) = length (tx_redeemers tx)"
      by (simp add: parts(3) none r2 eval_all_parts evaluations_def)
    ultimately show ?thesis by blast
  qed
  with tx(1,2) show ?thesis by blast
qed

end
