(* ===== verification/Necessary_Data.thy ===== *)
theory Necessary_Data
  imports Script_Refs
begin

text \<open>
  The data a caller must fetch before a transaction can be validated
  (\<^verbatim>\<open>get_necessary_data_list\<close> of \<^verbatim>\<open>src/src/validators/validator.rs\<close>). The
  hash sets of the code, and the vectors they end up in, are sets.
\<close>

record necessary_data =
  nd_utxos :: "tx_input set"
  nd_accounts :: "string set"
  nd_pools :: "string set"
  nd_d_reps :: "string set"
  nd_gov_actions :: "governance_action_id set"
  nd_last_enacted_gov_action :: "governance_action_type set"
  nd_committee_members_cold :: "local_credential set"
  nd_committee_members_hot :: "local_credential set"

definition nothing_needed :: necessary_data where
  "nothing_needed =
     \<lparr>nd_utxos = {}, nd_accounts = {}, nd_pools = {}, nd_d_reps = {}, nd_gov_actions = {},
      nd_last_enacted_gov_action = {}, nd_committee_members_cold = {}, nd_committee_members_hot = {}\<rparr>"

definition need_utxo :: "csl_input \<Rightarrow> necessary_data \<Rightarrow> necessary_data" where
  "need_utxo i nd =
     nd\<lparr>nd_utxos := insert \<lparr>ti_output_index = ci_index i, ti_tx_hash = hex_encode (ci_transaction_id i)\<rparr>
          (nd_utxos nd)\<rparr>"

definition need_account :: "string \<Rightarrow> necessary_data \<Rightarrow> necessary_data" where
  "need_account s nd = nd\<lparr>nd_accounts := insert s (nd_accounts nd)\<rparr>"

definition need_pool :: "bytes \<Rightarrow> necessary_data \<Rightarrow> necessary_data" where
  "need_pool pool nd = nd\<lparr>nd_pools := insert (hex_encode pool) (nd_pools nd)\<rparr>"

definition need_d_rep :: "string option \<Rightarrow> necessary_data \<Rightarrow> necessary_data" where
  "need_d_rep bech nd =
     nd\<lparr>nd_d_reps := insert (case bech of Some s \<Rightarrow> s | None \<Rightarrow> []) (nd_d_reps nd)\<rparr>"

definition need_gov_action :: "governance_action_id \<Rightarrow> necessary_data \<Rightarrow> necessary_data" where
  "need_gov_action g nd = nd\<lparr>nd_gov_actions := insert g (nd_gov_actions nd)\<rparr>"

definition need_last_enacted :: "governance_action_type \<Rightarrow> necessary_data \<Rightarrow> necessary_data" where
  "need_last_enacted k nd =
     nd\<lparr>nd_last_enacted_gov_action := insert k (nd_last_enacted_gov_action nd)\<rparr>"

definition need_cold :: "credential \<Rightarrow> necessary_data \<Rightarrow> necessary_data" where
  "need_cold c nd =
     nd\<lparr>nd_committee_members_cold :=
          insert (csl_credential_to_local_credential c) (nd_committee_members_cold nd)\<rparr>"

definition need_hot :: "credential \<Rightarrow> necessary_data \<Rightarrow> necessary_data" where
  "need_hot c nd =
     nd\<lparr>nd_committee_members_hot :=
          insert (csl_credential_to_local_credential c) (nd_committee_members_hot nd)\<rparr>"

definition need_reward_address :: "reward_address \<Rightarrow> necessary_data \<Rightarrow> necessary_data" where
  "need_reward_address r nd = need_account (case ra_bech32 r of Some s \<Rightarrow> s | None \<Rightarrow> []) nd"

definition credential_to_reward_address :: "csl \<Rightarrow> credential \<Rightarrow> network_type \<Rightarrow> string" where
  "credential_to_reward_address cs c network =
     (let network_id =
            (case network of
               Mainnet \<Rightarrow> cs_mainnet_id cs
             | Preview \<Rightarrow> cs_preview_id cs
             | Preprod \<Rightarrow> cs_preprod_id cs)
      in case cs_reward_bech32 cs network_id c of Some s \<Rightarrow> s | None \<Rightarrow> [])"

subsection \<open>What each part of a transaction needs\<close>

definition collect_certificate ::
  "csl \<Rightarrow> network_type \<Rightarrow> necessary_data \<Rightarrow> certificate \<Rightarrow> necessary_data" where
  "collect_certificate cs network nd cert =
     (let account = (\<lambda>c. need_account (credential_to_reward_address cs c network)) in
      case cert of
        StakeRegistration c coin \<Rightarrow> account c nd
      | StakeDeregistration c coin \<Rightarrow> account c nd
      | StakeDelegation c pool \<Rightarrow> need_pool pool (account c nd)
      | PoolRegistration operator cost owners \<Rightarrow> need_pool operator nd
      | PoolRetirement pool epoch \<Rightarrow> need_pool pool nd
      | DRepRegistration c coin \<Rightarrow> need_d_rep (cs_drep_bech32 cs c) nd
      | DRepDeregistration c coin \<Rightarrow> need_d_rep (cs_drep_bech32 cs c) nd
      | DRepUpdate c \<Rightarrow> need_d_rep (cs_drep_bech32 cs c) nd
      | CommitteeHotAuth cold hot \<Rightarrow> need_cold cold nd
      | CommitteeColdResign cold \<Rightarrow> need_cold cold nd
      | StakeRegistrationAndDelegation c pool coin \<Rightarrow> need_pool pool (account c nd)
      | StakeAndVoteDelegation c pool drep \<Rightarrow>
          need_d_rep (dr_bech32 drep) (need_pool pool (account c nd))
      | StakeVoteRegistrationAndDelegation c pool drep coin \<Rightarrow>
          need_d_rep (dr_bech32 drep) (need_pool pool (account c nd))
      | VoteDelegation c drep \<Rightarrow> need_d_rep (dr_bech32 drep) (account c nd)
      | VoteRegistrationAndDelegation c drep coin \<Rightarrow> need_d_rep (dr_bech32 drep) (account c nd)
      | GenesisKeyDelegation \<Rightarrow> nd
      | MoveInstantaneousRewardsCert \<Rightarrow> nd)"

definition need_previous :: "governance_action_id option \<Rightarrow> necessary_data \<Rightarrow> necessary_data" where
  "need_previous prev nd = (case prev of Some g \<Rightarrow> need_gov_action g nd | None \<Rightarrow> nd)"

definition collect_proposal :: "necessary_data \<Rightarrow> voting_proposal \<Rightarrow> necessary_data" where
  "collect_proposal nd p =
     (let nd = need_reward_address (vp_reward_account p) nd in
      case vp_action p of
        ParameterChange prev policy \<Rightarrow> need_previous prev (need_last_enacted ParameterChangeAction nd)
      | HardForkInitiation prev \<Rightarrow> need_previous prev (need_last_enacted HardForkInitiationAction nd)
      | TreasuryWithdrawals withdrawals policy \<Rightarrow>
          foldl (\<lambda>nd w. need_reward_address (fst w) nd)
            (need_last_enacted TreasuryWithdrawalsAction nd) withdrawals
      | NoConfidence prev \<Rightarrow> need_previous prev (need_last_enacted NoConfidenceAction nd)
      | UpdateCommittee prev add remove \<Rightarrow>
          need_previous prev (need_last_enacted UpdateCommitteeAction nd)
      | NewConstitution prev \<Rightarrow> need_previous prev (need_last_enacted NewConstitutionAction nd)
      | Info \<Rightarrow> need_last_enacted InfoAction nd)"

definition collect_voter ::
  "csl \<Rightarrow> necessary_data \<Rightarrow> voter \<times> governance_action_id list \<Rightarrow> necessary_data" where
  "collect_voter cs nd entry =
     (let (v, action_ids) = entry;
          d_rep = (\<lambda>nd. case vo_drep v of
             Some c \<Rightarrow> need_d_rep (cs_drep_bech32 cs c) nd | None \<Rightarrow> nd);
          committee = (\<lambda>nd. case vo_committee_hot v of Some c \<Rightarrow> need_hot c nd | None \<Rightarrow> nd);
          nd =
            (case vo_kind v of
               ConstitutionalCommitteeHotKeyHash \<Rightarrow> committee nd
             | ConstitutionalCommitteeHotScriptHash \<Rightarrow> committee nd
             | DRepKeyHash \<Rightarrow> d_rep nd
             | DRepScriptHash \<Rightarrow> d_rep nd
             | StakingPoolKeyHash \<Rightarrow>
                 (case vo_pool v of Some pool \<Rightarrow> need_pool pool nd | None \<Rightarrow> nd))
      in foldl (\<lambda>nd g. need_gov_action g nd) nd action_ids)"

definition each :: "('s \<Rightarrow> 'a \<Rightarrow> 's) \<Rightarrow> 'a list option \<Rightarrow> 's \<Rightarrow> 's" where
  "each f xs s = (case xs of Some xs \<Rightarrow> foldl f s xs | None \<Rightarrow> s)"

definition necessary_data_of_body :: "csl \<Rightarrow> network_type \<Rightarrow> tx_body \<Rightarrow> necessary_data" where
  "necessary_data_of_body cs network body =
     (let nd = foldl (\<lambda>nd i. need_utxo i nd) nothing_needed (tb_inputs body);
          nd = each (\<lambda>nd i. need_utxo i nd) (tb_collateral body) nd;
          nd = each (\<lambda>nd i. need_utxo i nd) (tb_reference_inputs body) nd;
          nd = each (\<lambda>nd w. need_reward_address (fst w) nd) (tb_withdrawals body) nd;
          nd = each (collect_certificate cs network) (tb_certs body) nd;
          nd = each collect_proposal (tb_voting_proposals body) nd
      in each (collect_voter cs) (tb_voting_procedures body) nd)"

text \<open>The whole function: the serialization library reads the body, \<open>transaction_of_bytes\<close>.\<close>

definition get_necessary_data_list ::
  "csl \<Rightarrow> (bytes \<Rightarrow> decode_error option) \<Rightarrow> (bytes \<Rightarrow> string + tx_body) \<Rightarrow> string \<Rightarrow>
     network_type \<Rightarrow> string + necessary_data" where
  "get_necessary_data_list cs well_formed_error transaction_of_bytes tx_hex network =
     (case check_cbor_hex cs well_formed_error tx_hex Transaction of
        Inl e \<Rightarrow> Inl (''Failed to parse transaction: '' @ e)
      | Inr bs \<Rightarrow>
          (case transaction_of_bytes bs of
             Inl e \<Rightarrow> Inl (''Failed to parse transaction: '' @ transaction_parse_failure bs e)
           | Inr body \<Rightarrow> Inr (necessary_data_of_body cs network body)))"

end
