(* ===== verification/Necessary_Facts.thy ===== *)
theory Necessary_Facts
  imports Necessary_Data Balance Collateral Tx_Limits Registration_Facts Governance
begin

text \<open>
  The list of necessary data is enough: two contexts that answer the listed lookups alike
  validate the transaction alike.
\<close>

subsection \<open>What was collected stays\<close>

definition nd_le :: "necessary_data \<Rightarrow> necessary_data \<Rightarrow> bool" where
  "nd_le a b \<longleftrightarrow> nd_utxos a \<subseteq> nd_utxos b \<and> nd_accounts a \<subseteq> nd_accounts b \<and> nd_pools a \<subseteq> nd_pools b \<and>
     nd_d_reps a \<subseteq> nd_d_reps b \<and> nd_gov_actions a \<subseteq> nd_gov_actions b \<and>
     nd_committee_members_cold a \<subseteq> nd_committee_members_cold b \<and>
     nd_committee_members_hot a \<subseteq> nd_committee_members_hot b"

lemmas need_defs =
  need_utxo_def need_account_def need_pool_def need_d_rep_def need_gov_action_def
  need_last_enacted_def need_cold_def need_hot_def need_reward_address_def need_previous_def

lemma nd_le_refl [simp]: "nd_le nd nd"
  by (simp add: nd_le_def)

lemma nd_le_trans: "nd_le a b \<Longrightarrow> nd_le b c \<Longrightarrow> nd_le a c"
  unfolding nd_le_def by blast

lemma need_le [simp]:
  "nd_le nd (need_utxo i nd)" "nd_le nd (need_account s nd)" "nd_le nd (need_pool pool nd)"
  "nd_le nd (need_d_rep b nd)" "nd_le nd (need_gov_action g nd)" "nd_le nd (need_last_enacted k nd)"
  "nd_le nd (need_cold c nd)" "nd_le nd (need_hot c nd)" "nd_le nd (need_reward_address r nd)"
  "nd_le nd (need_previous prev nd)"
  by (auto simp: nd_le_def need_defs split: option.split)

lemma need_chain [intro!]:
  assumes "nd_le a nd"
  shows "nd_le a (need_utxo i nd)" "nd_le a (need_account s nd)" "nd_le a (need_pool pool nd)"
    "nd_le a (need_d_rep b nd)" "nd_le a (need_gov_action g nd)" "nd_le a (need_last_enacted k nd)"
    "nd_le a (need_cold c nd)" "nd_le a (need_hot c nd)" "nd_le a (need_reward_address r nd)"
    "nd_le a (need_previous prev nd)"
  by (simp_all add: nd_le_trans [OF assms])

lemma foldl_le: "(\<And>nd x. nd_le nd (f nd x)) \<Longrightarrow> nd_le nd (foldl f nd xs)"
proof (induction xs arbitrary: nd)
  case (Cons x xs)
  from nd_le_trans [OF Cons.prems Cons.IH [OF Cons.prems]] show ?case by simp
qed simp

lemma foldl_covers:
  assumes le: "\<And>nd x. nd_le nd (f nd x)" and "x \<in> set xs"
  shows "\<exists>nd'. nd_le (f nd' x) (foldl f nd xs)"
  using assms(2)
proof (induction xs arbitrary: nd)
  case (Cons y xs)
  then show ?case
    using foldl_le [of f "f nd y" xs, OF le] by (cases "x = y") auto
qed simp

lemma each_le: "(\<And>nd x. nd_le nd (f nd x)) \<Longrightarrow> nd_le nd (each f xs nd)"
  by (simp add: each_def foldl_le split: option.split)

lemma each_covers:
  assumes "\<And>nd x. nd_le nd (f nd x)" "xs = Some l" "x \<in> set l"
  shows "\<exists>nd'. nd_le (f nd' x) (each f xs nd)"
  using foldl_covers [of f x l nd, OF assms(1,3)] assms(2) by (simp add: each_def)

lemma collect_certificate_le [simp]: "nd_le nd (collect_certificate cs network nd c)"
  by (cases c) (auto simp: collect_certificate_def Let_def)

lemma needs_le [intro!]:
  "nd_le a nd \<Longrightarrow> nd_le a (foldl (\<lambda>nd w. need_reward_address (fst w) nd) nd ws)"
  "nd_le a nd \<Longrightarrow> nd_le a (foldl (\<lambda>nd g. need_gov_action g nd) nd gs)"
  by (rule nd_le_trans, assumption, rule foldl_le, simp)+

lemma collect_proposal_le [simp]: "nd_le nd (collect_proposal nd p)"
  by (cases "vp_action p") (auto simp: collect_proposal_def Let_def)

lemma collect_voter_le [simp]: "nd_le nd (collect_voter cs nd entry)"
  by (cases entry; cases "vo_kind (fst entry)")
    (auto simp: collect_voter_def Let_def split: option.split)

subsection \<open>Contexts that answer alike\<close>

definition agree_on :: "necessary_data \<Rightarrow> input_context \<Rightarrow> input_context \<Rightarrow> bool" where
  "agree_on nd ic ic' \<longleftrightarrow>
     ic_protocol_parameters ic = ic_protocol_parameters ic' \<and> ic_slot ic = ic_slot ic' \<and>
     ic_network_type ic = ic_network_type ic' \<and> ic_treasury_value ic = ic_treasury_value ic' \<and>
     ic_constitution ic = ic_constitution ic' \<and>
     (\<forall>t \<in> nd_utxos nd. find_utxo ic (ti_tx_hash t) (ti_output_index t) =
        find_utxo ic' (ti_tx_hash t) (ti_output_index t)) \<and>
     (\<forall>a \<in> nd_accounts nd. find_account_context ic a = find_account_context ic' a) \<and>
     (\<forall>p \<in> nd_pools nd. find_pool_context ic p = find_pool_context ic' p) \<and>
     (\<forall>d \<in> nd_d_reps nd. find_drep_context ic d = find_drep_context ic' d) \<and>
     (\<forall>g \<in> nd_gov_actions nd. find_gov_action_context ic g = find_gov_action_context ic' g) \<and>
     (\<forall>c \<in> nd_committee_members_cold nd.
        find_current_committee_member_by_cold_credential ic c =
          find_current_committee_member_by_cold_credential ic' c \<and>
        find_potential_committee_member_by_cold_credential ic c =
          find_potential_committee_member_by_cold_credential ic' c) \<and>
     (\<forall>c \<in> nd_committee_members_hot nd.
        find_current_committee_member_by_hot_credential ic c =
          find_current_committee_member_by_hot_credential ic' c \<and>
        find_potential_committee_member_by_hot_credential ic c =
          find_potential_committee_member_by_hot_credential ic' c)"

lemma agree_mono: "nd_le nd nd' \<Longrightarrow> agree_on nd' ic ic' \<Longrightarrow> agree_on nd ic ic'"
  unfolding agree_on_def nd_le_def by blast

lemma agree_constants:
  assumes "agree_on nd ic ic'"
  shows "ic_protocol_parameters ic = ic_protocol_parameters ic'" "ic_slot ic = ic_slot ic'"
    "ic_network_type ic = ic_network_type ic'" "ic_treasury_value ic = ic_treasury_value ic'"
    "ic_constitution ic = ic_constitution ic'"
  using assms unfolding agree_on_def by blast+

lemma agree_need:
  "agree_on (need_utxo i nd) ic ic' \<Longrightarrow> find_input ic i = find_input ic' i"
  "agree_on (need_account a nd) ic ic' \<Longrightarrow> find_account_context ic a = find_account_context ic' a"
  "agree_on (need_pool pool nd) ic ic' \<Longrightarrow>
     find_pool_context ic (hex_encode pool) = find_pool_context ic' (hex_encode pool)"
  "agree_on (need_d_rep b nd) ic ic' \<Longrightarrow>
     find_drep_context ic (case b of Some s \<Rightarrow> s | None \<Rightarrow> []) =
     find_drep_context ic' (case b of Some s \<Rightarrow> s | None \<Rightarrow> [])"
  "agree_on (need_gov_action g nd) ic ic' \<Longrightarrow> find_gov_action_context ic g = find_gov_action_context ic' g"
  by (simp_all add: agree_on_def need_defs find_input_def)

lemma agree_committee:
  "agree_on (need_cold c nd) ic ic' \<Longrightarrow>
     find_current_committee_member_by_cold_credential ic (csl_credential_to_local_credential c) =
     find_current_committee_member_by_cold_credential ic' (csl_credential_to_local_credential c) \<and>
     find_potential_committee_member_by_cold_credential ic (csl_credential_to_local_credential c) =
     find_potential_committee_member_by_cold_credential ic' (csl_credential_to_local_credential c)"
  "agree_on (need_hot c nd) ic ic' \<Longrightarrow>
     find_current_committee_member_by_hot_credential ic (csl_credential_to_local_credential c) =
     find_current_committee_member_by_hot_credential ic' (csl_credential_to_local_credential c) \<and>
     find_potential_committee_member_by_hot_credential ic (csl_credential_to_local_credential c) =
     find_potential_committee_member_by_hot_credential ic' (csl_credential_to_local_credential c)"
  by (simp_all add: agree_on_def need_defs)

text \<open>Every part of the body was collected at some point.\<close>

lemma each_up:
  "nd_le a nd \<Longrightarrow> (\<And>nd x. nd_le nd (f nd x)) \<Longrightarrow> nd_le a (each f xs nd)"
  using nd_le_trans each_le by metis

lemma body_parts:
  fixes cs network body
  defines "nd \<equiv> necessary_data_of_body cs network body"
  shows "i \<in> set (tb_inputs body) \<Longrightarrow> \<exists>nd'. nd_le (need_utxo i nd') nd"
    "tb_collateral body = Some is \<Longrightarrow> i \<in> set is \<Longrightarrow> \<exists>nd'. nd_le (need_utxo i nd') nd"
    "tb_reference_inputs body = Some is \<Longrightarrow> i \<in> set is \<Longrightarrow> \<exists>nd'. nd_le (need_utxo i nd') nd"
    "tb_withdrawals body = Some ws \<Longrightarrow> w \<in> set ws \<Longrightarrow> \<exists>nd'. nd_le (need_reward_address (fst w) nd') nd"
    "tb_certs body = Some certs \<Longrightarrow> c \<in> set certs \<Longrightarrow> \<exists>nd'. nd_le (collect_certificate cs network nd' c) nd"
    "tb_voting_proposals body = Some ps \<Longrightarrow> p \<in> set ps \<Longrightarrow> \<exists>nd'. nd_le (collect_proposal nd' p) nd"
    "tb_voting_procedures body = Some vs \<Longrightarrow> v \<in> set vs \<Longrightarrow> \<exists>nd'. nd_le (collect_voter cs nd' v) nd"
proof -
  let ?n1 = "foldl (\<lambda>nd i. need_utxo i nd) nothing_needed (tb_inputs body)"
  let ?n2 = "each (\<lambda>nd i. need_utxo i nd) (tb_collateral body) ?n1"
  let ?n3 = "each (\<lambda>nd i. need_utxo i nd) (tb_reference_inputs body) ?n2"
  let ?n4 = "each (\<lambda>nd w. need_reward_address (fst w) nd) (tb_withdrawals body) ?n3"
  let ?n5 = "each (collect_certificate cs network) (tb_certs body) ?n4"
  let ?n6 = "each collect_proposal (tb_voting_proposals body) ?n5"
  have nd: "nd = each (collect_voter cs) (tb_voting_procedures body) ?n6"
    by (simp add: nd_def necessary_data_of_body_def Let_def)
  have up6: "nd_le a nd" if "nd_le a ?n6" for a
    unfolding nd using that by (rule each_up) simp
  have up5: "nd_le a nd" if "nd_le a ?n5" for a
    by (rule up6, rule each_up [OF that]) simp
  have up4: "nd_le a nd" if "nd_le a ?n4" for a
    by (rule up5, rule each_up [OF that]) simp
  have up3: "nd_le a nd" if "nd_le a ?n3" for a
    by (rule up4, rule each_up [OF that]) simp
  have up2: "nd_le a nd" if "nd_le a ?n2" for a
    by (rule up3, rule each_up [OF that]) simp
  have up1: "nd_le a nd" if "nd_le a ?n1" for a
    by (rule up2, rule each_up [OF that]) simp
  show "i \<in> set (tb_inputs body) \<Longrightarrow> \<exists>nd'. nd_le (need_utxo i nd') nd"
    using foldl_covers [of "\<lambda>nd i. need_utxo i nd" i] up1 by fastforce
  show "tb_collateral body = Some is \<Longrightarrow> i \<in> set is \<Longrightarrow> \<exists>nd'. nd_le (need_utxo i nd') nd"
    using each_covers [of "\<lambda>nd i. need_utxo i nd" "tb_collateral body" "is" i ?n1] up2 by fastforce
  show "tb_reference_inputs body = Some is \<Longrightarrow> i \<in> set is \<Longrightarrow> \<exists>nd'. nd_le (need_utxo i nd') nd"
    using each_covers [of "\<lambda>nd i. need_utxo i nd" "tb_reference_inputs body" "is" i ?n2] up3 by fastforce
  show "tb_withdrawals body = Some ws \<Longrightarrow> w \<in> set ws \<Longrightarrow> \<exists>nd'. nd_le (need_reward_address (fst w) nd') nd"
    using each_covers [of "\<lambda>nd w. need_reward_address (fst w) nd" "tb_withdrawals body" ws w ?n3] up4
    by fastforce
  show "tb_certs body = Some certs \<Longrightarrow> c \<in> set certs \<Longrightarrow>
      \<exists>nd'. nd_le (collect_certificate cs network nd' c) nd"
    using each_covers [of "collect_certificate cs network" "tb_certs body" certs c ?n4] up5 by fastforce
  show "tb_voting_proposals body = Some ps \<Longrightarrow> p \<in> set ps \<Longrightarrow> \<exists>nd'. nd_le (collect_proposal nd' p) nd"
    using each_covers [of collect_proposal "tb_voting_proposals body" ps p ?n5] up6 by fastforce
  show "tb_voting_procedures body = Some vs \<Longrightarrow> v \<in> set vs \<Longrightarrow> \<exists>nd'. nd_le (collect_voter cs nd' v) nd"
    unfolding nd by (rule each_covers) simp_all
qed

subsection \<open>Lookups of the parts\<close>

lemma same_reward_address:
  "credential_to_reward_address cs c network = credential_to_bech32_reward_address cs c network"
  by (simp add: credential_to_reward_address_def credential_to_bech32_reward_address_def
      expected_network_id_def)

fun looked_up_accounts :: "certificate_type \<Rightarrow> string set" where
  "looked_up_accounts ct = set_option (new_account ct) \<union> set_option (used_account ct)"

fun looked_up_pools :: "certificate_type \<Rightarrow> string set" where
  "looked_up_pools (PoolRegistrationCert pool cost) = {pool}"
| "looked_up_pools ct = set_option (used_pool ct)"

fun looked_up_dreps :: "certificate_type \<Rightarrow> string set" where
  "looked_up_dreps (DRepRegistrationCert d) = {d}"
| "looked_up_dreps (DRepDeregistrationCert d) = {d}"
| "looked_up_dreps (DRepUpdateCert d) = {d}"
| "looked_up_dreps ct = set_option (used_drep ct)"

fun looked_up_cold :: "certificate_type \<Rightarrow> local_credential set" where
  "looked_up_cold (CommitteeHotAuthCert cold hot) = {cold}"
| "looked_up_cold (CommitteeColdResignCert cold) = {cold}"
| "looked_up_cold ct = {}"

lemma target_text:
  "d \<in> set_option (target_drep (csl_drep_to_drep_target drep)) \<Longrightarrow>
     d = (case dr_bech32 drep of Some s \<Rightarrow> s | None \<Rightarrow> [])"
  by (cases "dr_kind drep") (simp_all add: csl_drep_to_drep_target_def)

lemma agree_lookup:
  assumes "agree_on nd ic ic'"
  shows "a \<in> nd_accounts nd \<Longrightarrow> find_account_context ic a = find_account_context ic' a"
    "p \<in> nd_pools nd \<Longrightarrow> find_pool_context ic p = find_pool_context ic' p"
    "d \<in> nd_d_reps nd \<Longrightarrow> find_drep_context ic d = find_drep_context ic' d"
    "g \<in> nd_gov_actions nd \<Longrightarrow> find_gov_action_context ic g = find_gov_action_context ic' g"
    "k \<in> nd_committee_members_cold nd \<Longrightarrow>
       find_current_committee_member_by_cold_credential ic k =
         find_current_committee_member_by_cold_credential ic' k"
    "k \<in> nd_committee_members_cold nd \<Longrightarrow>
       find_potential_committee_member_by_cold_credential ic k =
         find_potential_committee_member_by_cold_credential ic' k"
    "h \<in> nd_committee_members_hot nd \<Longrightarrow>
       find_current_committee_member_by_hot_credential ic h =
         find_current_committee_member_by_hot_credential ic' h"
    "h \<in> nd_committee_members_hot nd \<Longrightarrow>
       find_potential_committee_member_by_hot_credential ic h =
         find_potential_committee_member_by_hot_credential ic' h"
  using assms unfolding agree_on_def by blast+

lemma certificate_lookups:
  fixes cs ic c nd
  defines "ct \<equiv> process_certificate cs ic c"
    and "nd' \<equiv> collect_certificate cs (ic_network_type ic) nd c"
  shows "looked_up_accounts ct \<subseteq> nd_accounts nd'" "looked_up_pools ct \<subseteq> nd_pools nd'"
    "looked_up_dreps ct \<subseteq> nd_d_reps nd'" "looked_up_cold ct \<subseteq> nd_committee_members_cold nd'"
  unfolding ct_def nd'_def
  by (cases c; auto simp: collect_certificate_def process_certificate_def same_reward_address
      need_defs drep_id_of_def Let_def dest!: target_text)+

lemma process_certificate_cong:
  "ic_network_type ic = ic_network_type ic' \<Longrightarrow> process_certificate cs ic c = process_certificate cs ic' c"
  by (simp add: process_certificate_def)

definition listed :: "csl \<Rightarrow> tx_body \<Rightarrow> input_context \<Rightarrow> necessary_data" where
  "listed cs body ic = necessary_data_of_body cs (ic_network_type ic) body"

lemma listed_certificates:
  assumes "tb_certs body = Some certs" "c \<in> set certs"
  shows "looked_up_accounts (process_certificate cs ic c) \<subseteq> nd_accounts (listed cs body ic)"
    "looked_up_pools (process_certificate cs ic c) \<subseteq> nd_pools (listed cs body ic)"
    "looked_up_dreps (process_certificate cs ic c) \<subseteq> nd_d_reps (listed cs body ic)"
    "looked_up_cold (process_certificate cs ic c) \<subseteq> nd_committee_members_cold (listed cs body ic)"
proof -
  obtain nd' where "nd_le (collect_certificate cs (ic_network_type ic) nd' c) (listed cs body ic)"
    using body_parts(5) [OF assms, of cs "ic_network_type ic"] unfolding listed_def by blast
  with certificate_lookups [where cs = cs and ic = ic and c = c and nd = nd'] show
    "looked_up_accounts (process_certificate cs ic c) \<subseteq> nd_accounts (listed cs body ic)"
    "looked_up_pools (process_certificate cs ic c) \<subseteq> nd_pools (listed cs body ic)"
    "looked_up_dreps (process_certificate cs ic c) \<subseteq> nd_d_reps (listed cs body ic)"
    "looked_up_cold (process_certificate cs ic c) \<subseteq> nd_committee_members_cold (listed cs body ic)"
    unfolding nd_le_def by blast+
qed

lemma listed_withdrawals:
  assumes "tb_withdrawals body = Some ws" "w \<in> set ws"
  shows "reward_text (fst w) \<in> nd_accounts (listed cs body ic)"
proof -
  obtain nd' where "nd_le (need_reward_address (fst w) nd') (listed cs body ic)"
    using body_parts(4) [OF assms, of cs "ic_network_type ic"] unfolding listed_def by blast
  then show ?thesis by (simp add: nd_le_def need_defs reward_text_def)
qed

lemma need_fields:
  "nd_accounts (need_reward_address r nd) = insert (reward_text r) (nd_accounts nd)"
  "nd_accounts (need_last_enacted k nd) = nd_accounts nd"
  "nd_accounts (need_previous prev nd) = nd_accounts nd"
  "nd_gov_actions (need_reward_address r nd) = nd_gov_actions nd"
  "nd_gov_actions (need_last_enacted k nd) = nd_gov_actions nd"
  "nd_gov_actions (need_previous prev nd) = nd_gov_actions nd \<union> set_option prev"
  "nd_d_reps (need_d_rep b nd) = insert (case b of Some s \<Rightarrow> s | None \<Rightarrow> []) (nd_d_reps nd)"
  "nd_pools (need_pool pool nd) = insert (hex_encode pool) (nd_pools nd)"
  "nd_committee_members_hot (need_hot c nd) =
     insert (csl_credential_to_local_credential c) (nd_committee_members_hot nd)"
  by (auto simp: need_defs reward_text_def split: option.split)

lemma needs_accounts:
  "nd_accounts (foldl (\<lambda>nd w. need_reward_address (fst w) nd) nd ws) =
     nd_accounts nd \<union> (\<lambda>w. reward_text (fst w)) ` set ws"
  "nd_gov_actions (foldl (\<lambda>nd w. need_reward_address (fst w) nd) nd ws) = nd_gov_actions nd"
  by (induction ws arbitrary: nd) (auto simp: need_fields)

lemma needs_gov_actions:
  "nd_gov_actions (foldl (\<lambda>nd g. need_gov_action g nd) nd gs) = nd_gov_actions nd \<union> set gs"
  "nd_d_reps (foldl (\<lambda>nd g. need_gov_action g nd) nd gs) = nd_d_reps nd"
  "nd_pools (foldl (\<lambda>nd g. need_gov_action g nd) nd gs) = nd_pools nd"
  "nd_committee_members_hot (foldl (\<lambda>nd g. need_gov_action g nd) nd gs) = nd_committee_members_hot nd"
  by (induction gs arbitrary: nd) (auto simp: need_defs)

fun paid_accounts :: "governance_action \<Rightarrow> string set" where
  "paid_accounts (TreasuryWithdrawals ws policy) = (\<lambda>w. reward_text (fst w)) ` set ws"
| "paid_accounts action = {}"

lemma collected_proposal:
  "reward_text (vp_reward_account p) \<in> nd_accounts (collect_proposal nd p)"
  "paid_accounts (vp_action p) \<subseteq> nd_accounts (collect_proposal nd p)"
  "set_option (extract_prev_gov_action_id (vp_action p)) \<subseteq> nd_gov_actions (collect_proposal nd p)"
  subgoal by (cases "vp_action p") (simp_all add: collect_proposal_def needs_accounts need_fields Let_def)
  subgoal by (cases "vp_action p") (auto simp: collect_proposal_def needs_accounts need_fields Let_def)
  subgoal
    by (cases "vp_action p") (simp_all add: collect_proposal_def needs_accounts need_fields
        extract_prev_gov_action_id_def Let_def)
  done

lemma listed_proposals:
  assumes "tb_voting_proposals body = Some ps" "p \<in> set ps"
  shows "reward_text (vp_reward_account p) \<in> nd_accounts (listed cs body ic)"
    "paid_accounts (vp_action p) \<subseteq> nd_accounts (listed cs body ic)"
    "set_option (extract_prev_gov_action_id (vp_action p)) \<subseteq> nd_gov_actions (listed cs body ic)"
proof -
  obtain nd' where le: "nd_le (collect_proposal nd' p) (listed cs body ic)"
    using body_parts(6) [OF assms, of cs "ic_network_type ic"] unfolding listed_def by blast
  with collected_proposal [of p nd'] show "reward_text (vp_reward_account p) \<in> nd_accounts (listed cs body ic)"
    "paid_accounts (vp_action p) \<subseteq> nd_accounts (listed cs body ic)"
    "set_option (extract_prev_gov_action_id (vp_action p)) \<subseteq> nd_gov_actions (listed cs body ic)"
    unfolding nd_le_def by blast+
qed

lemma listed_voters:
  assumes "tb_voting_procedures body = Some vs" "(v, gs) \<in> set vs"
  shows "set gs \<subseteq> nd_gov_actions (listed cs body ic)"
    "vo_kind v \<in> {DRepKeyHash, DRepScriptHash} \<Longrightarrow> vo_drep v = Some c \<Longrightarrow>
       (case cs_drep_bech32 cs c of Some s \<Rightarrow> s | None \<Rightarrow> []) \<in> nd_d_reps (listed cs body ic)"
    "vo_kind v = StakingPoolKeyHash \<Longrightarrow> vo_pool v = Some pool \<Longrightarrow>
       hex_encode pool \<in> nd_pools (listed cs body ic)"
    "vo_kind v \<in> {ConstitutionalCommitteeHotKeyHash, ConstitutionalCommitteeHotScriptHash} \<Longrightarrow>
       vo_committee_hot v = Some c \<Longrightarrow>
       csl_credential_to_local_credential c \<in> nd_committee_members_hot (listed cs body ic)"
proof -
  obtain nd' where le: "nd_le (collect_voter cs nd' (v, gs)) (listed cs body ic)"
    using body_parts(7) [OF assms, of cs "ic_network_type ic"] unfolding listed_def by blast
  have "set gs \<subseteq> nd_gov_actions (collect_voter cs nd' (v, gs))"
    by (simp add: collect_voter_def needs_gov_actions Let_def)
  with le show "set gs \<subseteq> nd_gov_actions (listed cs body ic)"
    unfolding nd_le_def by blast
  show "(case cs_drep_bech32 cs c of Some s \<Rightarrow> s | None \<Rightarrow> []) \<in> nd_d_reps (listed cs body ic)"
    if "vo_kind v \<in> {DRepKeyHash, DRepScriptHash}" "vo_drep v = Some c"
  proof -
    have "(case cs_drep_bech32 cs c of Some s \<Rightarrow> s | None \<Rightarrow> []) \<in>
        nd_d_reps (collect_voter cs nd' (v, gs))"
      using that by (auto simp: collect_voter_def needs_gov_actions need_fields Let_def)
    with le show ?thesis unfolding nd_le_def by blast
  qed
  show "hex_encode pool \<in> nd_pools (listed cs body ic)"
    if "vo_kind v = StakingPoolKeyHash" "vo_pool v = Some pool"
  proof -
    have "hex_encode pool \<in> nd_pools (collect_voter cs nd' (v, gs))"
      using that by (simp add: collect_voter_def needs_gov_actions need_fields Let_def)
    with le show ?thesis unfolding nd_le_def by blast
  qed
  show "csl_credential_to_local_credential c \<in> nd_committee_members_hot (listed cs body ic)"
    if "vo_kind v \<in> {ConstitutionalCommitteeHotKeyHash, ConstitutionalCommitteeHotScriptHash}"
      "vo_committee_hot v = Some c"
  proof -
    have "csl_credential_to_local_credential c \<in> nd_committee_members_hot (collect_voter cs nd' (v, gs))"
      using that by (auto simp: collect_voter_def needs_gov_actions need_fields Let_def)
    with le show ?thesis unfolding nd_le_def by blast
  qed
qed

lemma listed_inputs:
  assumes "agree_on (listed cs body ic) ic ic'"
    and "i \<in> set (tb_inputs body) \<or> (\<exists>is. tb_collateral body = Some is \<and> i \<in> set is) \<or>
      (\<exists>is. tb_reference_inputs body = Some is \<and> i \<in> set is)"
  shows "find_input ic i = find_input ic' i"
proof -
  obtain nd' where "nd_le (need_utxo i nd') (listed cs body ic)"
    using assms(2) body_parts(1,2,3) unfolding listed_def by metis
  then show ?thesis
    using assms(1) by (auto simp: agree_on_def nd_le_def need_defs find_input_def)
qed

end
