(* ===== verification/Necessary_Suffices.thy ===== *)
theory Necessary_Suffices
  imports Necessary_Facts Limits_Facts
begin

text \<open>
  Validator by validator: on contexts that agree on the listed data the result is the same. The
  registration validator loads every registered entity of its context, so its part also needs
  contexts that list an account, a pool or a DRep at most once.
\<close>

subsection \<open>Balance\<close>

lemma total_inputs_cong:
  "(\<And>i. i \<in> set inputs \<Longrightarrow> find_input ic i = find_input ic' i) \<Longrightarrow>
     total_inputs_from ic acc inputs = total_inputs_from ic' acc inputs"
  by (induction ic acc inputs rule: total_inputs_from.induct)
    (auto split: option.split sum.split)

lemma flows_cong:
  assumes agree: "agree_on (listed cs body ic) ic ic'"
    and "tb_certs body = Some certs" "c \<in> set certs"
  shows "certificate_flows cs ic i c = certificate_flows cs ic' i c"
proof -
  note parts = listed_certificates [OF assms(2,3), of cs ic]
  have "find_account_context ic (credential_to_bech32_reward_address cs k (ic_network_type ic)) =
      find_account_context ic' (credential_to_bech32_reward_address cs k (ic_network_type ic))"
    if "c = StakeDeregistration k coin" for k coin
    using parts(1) agree_lookup(1) [OF agree] that by (simp add: process_certificate_def)
  moreover have "find_pool_context ic (hex_encode pool) = find_pool_context ic' (hex_encode pool)"
    if "c = PoolRegistration pool cost owners" for pool cost owners
    using parts(2) agree_lookup(2) [OF agree] that by (simp add: process_certificate_def)
  ultimately show ?thesis
    using agree_constants(1,3) [OF agree]
    by (cases c) (simp_all add: certificate_flows_def stake_deregistration_refund_def Let_def
        split: option.split)
qed

lemma deposits_and_refunds_cong:
  assumes agree: "agree_on (listed cs body ic) ic ic'"
  shows "calculate_deposits_and_refunds cs body ic = calculate_deposits_and_refunds cs body ic'"
proof (cases "tb_certs body")
  case (Some certs)
  have "certificate_flows cs ic i c = certificate_flows cs ic' i c"
    if "(i, c) \<in> set (enumerate 0 certs)" for i c
  proof (rule flows_cong [OF agree Some])
    show "c \<in> set certs" using that by (auto simp: in_set_enumerate_eq)
  qed
  then show ?thesis
    unfolding calculate_deposits_and_refunds_def Some option.case
    by (intro foldl_cong) auto
qed (simp add: calculate_deposits_and_refunds_def)

lemma flows_concat:
  "foldl (\<lambda>(refunds, deposits) (i, cert).
       let (rs, ds) = certificate_flows cs ic i cert in (refunds @ rs, deposits @ ds)) acc entries =
   (fst acc @ concat (map (\<lambda>(i, c). fst (certificate_flows cs ic i c)) entries),
    snd acc @ concat (map (\<lambda>(i, c). snd (certificate_flows cs ic i c)) entries))"
  by (induction entries arbitrary: acc) (auto simp: case_prod_unfold Let_def)

fun refund_key :: "refund_type \<Rightarrow> string" where
  "refund_key (StakeDeregistrationRefund amount i reward) = reward"
| "refund_key (DrepDeregistrationRefund amount i drep) = drep"

lemma flow_refunds:
  assumes "r \<in> set (fst (certificate_flows cs ic i c))"
  shows "(\<exists>amount. r = StakeDeregistrationRefund amount (of_nat i) (refund_key r)) \<and>
      refund_key r \<in> looked_up_accounts (process_certificate cs ic c) \<or>
    (\<exists>amount. r = DrepDeregistrationRefund amount (of_nat i) (refund_key r)) \<and>
      refund_key r \<in> looked_up_dreps (process_certificate cs ic c)"
  using assms
  by (cases c) (auto simp: certificate_flows_def stake_deregistration_refund_def process_certificate_def
      drep_id_of_def Let_def split: option.splits if_splits)

lemma refunds_cong:
  assumes agree: "agree_on (listed cs body ic) ic ic'"
    and "r \<in> set (fst (calculate_deposits_and_refunds cs body ic))"
  shows "refund_recorded ic r = refund_recorded ic' r"
proof (cases "tb_certs body")
  case None
  with assms(2) show ?thesis by (simp add: calculate_deposits_and_refunds_def)
next
  case (Some certs)
  obtain i c where "(i, c) \<in> set (enumerate 0 certs)" "r \<in> set (fst (certificate_flows cs ic i c))"
    using assms(2) unfolding calculate_deposits_and_refunds_def Some option.case flows_concat by auto
  moreover from this have "c \<in> set certs" by (auto simp: in_set_enumerate_eq)
  note parts = listed_certificates [OF Some this, of cs ic]
  ultimately show ?thesis
    using flow_refunds [of r cs ic i c] parts(1,3) agree_lookup(1,3) [OF agree]
    by (cases r) (auto 0 3)
qed

lemma balance_new_cong:
  assumes agree: "agree_on (listed cs body ic) ic ic'"
  shows "balance_new cs body ic = balance_new cs body ic'"
proof -
  have "calculate_total_inputs body ic = calculate_total_inputs body ic'"
    unfolding calculate_total_inputs_def
    by (rule total_inputs_cong) (use listed_inputs [OF agree] in blast)
  then show ?thesis
    unfolding balance_new_def deposits_and_refunds_cong [OF agree] by simp
qed

lemma withdrawals_listed:
  assumes "w \<in> set (get_withdrawals body)"
  shows "wd_reward_address w \<in> nd_accounts (listed cs body ic)"
proof -
  obtain ws where ws: "tb_withdrawals body = Some ws"
    using assms by (cases "tb_withdrawals body") (simp_all add: get_withdrawals_def)
  then obtain i key amount where "(i, key, amount) \<in> set (enumerate 0 ws)"
    "wd_reward_address w = reward_text key"
    using assms by (auto simp: get_withdrawals_def reward_text_def split: option.splits)
  moreover from this have "(key, amount) \<in> set ws"
    by (auto simp: in_set_enumerate_eq) (metis nth_mem)
  ultimately show ?thesis
    using listed_withdrawals [OF ws, of "(key, amount)" cs ic] by simp
qed

lemma balance_validate_cong:
  assumes agree: "agree_on (listed cs body ic) ic ic'" and new: "balance_new cs body ic = Inr bv"
  shows "balance_validate cs ic bv = balance_validate cs ic' bv"
proof -
  obtain refunds deposits where
    parts: "calculate_deposits_and_refunds cs body ic = (refunds, deposits)"
      "id_refunds (bv_inputs bv) = refunds" "id_withdrawals (bv_inputs bv) = get_withdrawals body"
    using new by (auto simp: balance_new_def Let_def split: sum.splits prod.splits)
  have "withdrawal_errors cs ic w = withdrawal_errors cs ic' w"
    if "w \<in> set (get_withdrawals body)" for w
    using agree_lookup(1) [OF agree withdrawals_listed [OF that]] by (simp add: withdrawal_errors_def)
  then have w: "map (withdrawal_errors cs ic) (get_withdrawals body) =
      map (withdrawal_errors cs ic') (get_withdrawals body)"
    by simp
  have "refund_errors ic r = refund_errors ic' r \<and> refund_warnings ic r = refund_warnings ic' r"
    if "r \<in> set refunds" for r
    using refunds_cong [OF agree, of r] parts(1) that by (simp add: refund_errors_def refund_warnings_def)
  then have r: "map (refund_errors ic) refunds = map (refund_errors ic') refunds"
    "map (refund_warnings ic) refunds = map (refund_warnings ic') refunds"
    by simp_all
  show ?thesis
    unfolding balance_validate_def Let_def parts(2,3) w r agree_constants(1,4) [OF agree]
    by (rule refl)
qed

subsection \<open>Fees, outputs, collateral, limits, network\<close>

lemma found_alike:
  assumes "agree_on (listed cs body ic) ic ic'"
  shows "i \<in> set (tb_inputs body) \<Longrightarrow> find_input ic i = find_input ic' i"
    "i \<in> set (case tb_reference_inputs body of Some inputs \<Rightarrow> inputs | None \<Rightarrow> []) \<Longrightarrow>
       find_input ic i = find_input ic' i"
    "i \<in> set (case tb_collateral body of Some inputs \<Rightarrow> inputs | None \<Rightarrow> []) \<Longrightarrow>
       find_input ic i = find_input ic' i"
  subgoal by (rule listed_inputs [OF assms]) simp
  subgoal by (rule listed_inputs [OF assms]) (cases "tb_reference_inputs body"; simp)
  subgoal by (rule listed_inputs [OF assms]) (cases "tb_collateral body"; simp)
  done

lemma collect_utxos_cong:
  assumes agree: "agree_on (listed cs body ic) ic ic'"
  shows "collect_utxos body ic = collect_utxos body ic'"
proof -
  have "foldl (insert_found ic) us inputs = foldl (insert_found ic') us inputs"
    if "\<And>i. i \<in> set inputs \<Longrightarrow> find_input ic i = find_input ic' i" for us inputs
    using that by (intro foldl_cong) (simp_all add: insert_found_def)
  then show ?thesis
    unfolding collect_utxos_def using found_alike(1,2) [OF agree] by metis
qed

lemma fee_new_cong:
  assumes agree: "agree_on (listed cs body ic) ic ic'"
  shows "fee_new cs well_formed_error order tx_size body rs ic =
    fee_new cs well_formed_error order tx_size body rs ic'"
  unfolding fee_new_def collect_utxos_cong [OF agree] agree_constants [OF agree] ..

lemma output_new_cong:
  assumes agree: "agree_on (listed cs body ic) ic ic'"
  shows "output_new cs body ic = output_new cs body ic'"
proof -
  have "output_step cs ic = output_step cs ic'"
    unfolding output_step_def agree_constants [OF agree] ..
  then show ?thesis
    unfolding output_new_def agree_constants [OF agree] by simp
qed

lemma collateral_from_cong:
  "(\<And>i. i \<in> set inputs \<Longrightarrow> find_input ic i = find_input ic' i) \<Longrightarrow>
     collateral_from ic acc inputs = collateral_from ic' acc inputs"
  by (induction ic acc inputs rule: collateral_from.induct) (auto split: option.split sum.split)

lemma collateral_new_cong:
  assumes agree: "agree_on (listed cs body ic) ic ic'"
  shows "collateral_new cs body rs ic = collateral_new cs body rs ic'"
proof -
  have found: "find_input ic i = find_input ic' i" if "i \<in> set (collateral_inputs body)" for i
    using that found_alike(3) [OF agree, of i] by (simp add: collateral_inputs_def)
  have "collateral_total_input body ic = collateral_total_input body ic'"
    using collateral_from_cong [of "collateral_inputs body" ic ic'] found
    by (cases "tb_collateral body") (simp_all add: collateral_total_input_def collateral_inputs_def)
  note total_input = this
  have where_cong: "inputs_where body ic bad kind = inputs_where body ic' bad kind" for bad kind
    unfolding inputs_where_def
    by (intro arg_cong [of _ _ concat] map_cong) (auto simp: in_set_enumerate_eq found)
  show ?thesis
    unfolding collateral_new_def find_script_payment_inputs_def find_reward_address_inputs_def
      find_non_ada_inputs_def estimated_minimal_collateral_def min_ada_for_collateral_return_def
      agree_constants [OF agree] total_input where_cong
    by (rule refl)
qed

lemma limits_new_cong:
  assumes agree: "agree_on (listed cs body ic) ic ic'"
  shows "limits_new cs well_formed_error order id_less reward_less tx_size body rs ic =
    limits_new cs well_formed_error order id_less reward_less tx_size body rs ic'"
  unfolding limits_new_def collect_utxos_cong [OF agree] agree_constants [OF agree] ..

lemma bad_inputs_cong:
  assumes "\<And>i. i \<in> set inputs \<Longrightarrow> find_input ic i = find_input ic' i"
  shows "bad_inputs ic at (map input_of inputs) = bad_inputs ic' at (map input_of inputs)"
proof -
  have "bad_input ic (input_of i) = bad_input ic' (input_of i)" if "i \<in> set inputs" for i
    using assms [OF that] by (simp add: bad_input_of known_unspent_def)
  then show ?thesis
    unfolding bad_inputs_def
    by (intro arg_cong [of _ _ concat] map_cong) (auto simp: in_set_enumerate_eq)
qed

lemma limits_validate_cong:
  assumes agree: "agree_on (listed cs body ic) ic ic'"
    and new: "limits_new cs well_formed_error order id_less reward_less tx_size body rs ic = Inr v"
  shows "limits_validate ic v = limits_validate ic' v"
proof -
  have "bad_inputs ic at (lv_inputs v) = bad_inputs ic' at (lv_inputs v)"
    "bad_inputs ic at (lv_ref_inputs v) = bad_inputs ic' at (lv_ref_inputs v)"
    "bad_inputs ic at (lv_collateral_inputs v) = bad_inputs ic' at (lv_collateral_inputs v)" for at
    unfolding limits_new_parts [OF new] inputs_of_def
    by (rule bad_inputs_cong, rule found_alike [OF agree], assumption)+
  then show ?thesis
    unfolding limits_validate_def by simp
qed

lemma network_new_cong:
  assumes agree: "agree_on (listed cs body ic) ic ic'"
  shows "network_new cs body ic = network_new cs body ic'"
  unfolding network_new_def agree_constants [OF agree] ..

subsection \<open>Registration\<close>

definition listed_once :: "input_context \<Rightarrow> bool" where
  "listed_once ic \<longleftrightarrow>
     distinct (map ac_bech32_address (ic_account_contexts ic)) \<and>
     distinct (map pc_pool_id (ic_pool_contexts ic)) \<and>
     distinct (map dc_bech32_drep (ic_drep_contexts ic))"

lemma find_unique:
  "distinct (map key xs) \<Longrightarrow> (\<exists>x \<in> set xs. P x \<and> key x = k) \<longleftrightarrow>
     (case find (\<lambda>x. key x = k) xs of Some x \<Rightarrow> P x | None \<Rightarrow> False)"
proof (induction xs)
  case (Cons a xs)
  show ?case
  proof (cases "key a = k")
    case True
    with Cons.prems have "\<forall>x \<in> set xs. key x \<noteq> k" by (auto simp: image_iff)
    with True show ?thesis by auto
  next
    case False
    with Cons show ?thesis by simp
  qed
qed simp

lemma initial_lookup:
  assumes "listed_once ic"
  shows "AccountEntity a \<in> load_initial_state ic \<longleftrightarrow>
      (case find_account_context ic a of Some x \<Rightarrow> ac_is_registered x | None \<Rightarrow> False)"
    "PoolEntity p \<in> load_initial_state ic \<longleftrightarrow>
      (case find_pool_context ic p of Some x \<Rightarrow> pc_is_registered x | None \<Rightarrow> False)"
    "DRepEntity d \<in> load_initial_state ic \<longleftrightarrow>
      (case find_drep_context ic d of Some x \<Rightarrow> dc_is_registered x | None \<Rightarrow> False)"
  using find_unique [of ac_bech32_address "ic_account_contexts ic" ac_is_registered a]
    find_unique [of pc_pool_id "ic_pool_contexts ic" pc_is_registered p]
    find_unique [of dc_bech32_drep "ic_drep_contexts ic" dc_is_registered d] assms
  by (auto simp: load_initial_state_def listed_once_def find_account_context_def
      find_pool_context_def find_drep_context_def)

lemma certificate_types_listed:
  assumes agree: "agree_on (listed cs body ic) ic ic'"
    and ct: "ct \<in> set (certificate_types cs body ic)"
  shows "a \<in> looked_up_accounts ct \<Longrightarrow> find_account_context ic a = find_account_context ic' a"
    "p \<in> looked_up_pools ct \<Longrightarrow> find_pool_context ic p = find_pool_context ic' p"
    "d \<in> looked_up_dreps ct \<Longrightarrow> find_drep_context ic d = find_drep_context ic' d"
    "k \<in> looked_up_cold ct \<Longrightarrow> find_current_committee_member_by_cold_credential ic k =
       find_current_committee_member_by_cold_credential ic' k"
    "k \<in> looked_up_cold ct \<Longrightarrow> find_potential_committee_member_by_cold_credential ic k =
       find_potential_committee_member_by_cold_credential ic' k"
proof -
  obtain certs c where "tb_certs body = Some certs" "c \<in> set certs" "ct = process_certificate cs ic c"
    using ct by (cases "tb_certs body") (auto simp: certificate_types_def)
  then have sub: "looked_up_accounts ct \<subseteq> nd_accounts (listed cs body ic)"
    "looked_up_pools ct \<subseteq> nd_pools (listed cs body ic)"
    "looked_up_dreps ct \<subseteq> nd_d_reps (listed cs body ic)"
    "looked_up_cold ct \<subseteq> nd_committee_members_cold (listed cs body ic)"
    using listed_certificates [of body certs c cs ic] by simp_all
  show "a \<in> looked_up_accounts ct \<Longrightarrow> find_account_context ic a = find_account_context ic' a"
    "p \<in> looked_up_pools ct \<Longrightarrow> find_pool_context ic p = find_pool_context ic' p"
    "d \<in> looked_up_dreps ct \<Longrightarrow> find_drep_context ic d = find_drep_context ic' d"
    "k \<in> looked_up_cold ct \<Longrightarrow> find_current_committee_member_by_cold_credential ic k =
       find_current_committee_member_by_cold_credential ic' k"
    "k \<in> looked_up_cold ct \<Longrightarrow> find_potential_committee_member_by_cold_credential ic k =
       find_potential_committee_member_by_cold_credential ic' k"
    by (rule agree_lookup [OF agree], erule sub [THEN subsetD])+
qed

text \<open>The entities a certificate's validation asks the state about.\<close>

definition asked :: "certificate_type \<Rightarrow> registrable_entity set" where
  "asked ct = AccountEntity ` looked_up_accounts ct \<union> PoolEntity ` looked_up_pools ct \<union>
     DRepEntity ` looked_up_dreps ct"

lemma validate_certificate_cong:
  assumes "ic_protocol_parameters ic = ic_protocol_parameters ic'"
    "\<And>a. a \<in> looked_up_accounts ct \<Longrightarrow> find_account_context ic a = find_account_context ic' a"
    "\<And>k. k \<in> looked_up_cold ct \<Longrightarrow> find_current_committee_member_by_cold_credential ic k =
       find_current_committee_member_by_cold_credential ic' k"
    "\<And>k. k \<in> looked_up_cold ct \<Longrightarrow> find_potential_committee_member_by_cold_credential ic k =
       find_potential_committee_member_by_cold_credential ic' k"
    "\<And>e. e \<in> asked ct \<Longrightarrow> e \<in> rs_initial s \<longleftrightarrow> e \<in> I"
  shows "validate_certificate ic w epoch s ct i = validate_certificate ic' w epoch (s\<lparr>rs_initial := I\<rparr>) ct i"
proof -
  have duplicates: "duplicate_warnings (s\<lparr>rs_initial := I\<rparr>) e kind name i = duplicate_warnings s e kind name i"
    for e kind name
    by (simp add: duplicate_warnings_def)
  have missing_known: "missing (s\<lparr>rs_initial := I\<rparr>) e = missing s e"
    "known (s\<lparr>rs_initial := I\<rparr>) e = known s e" if "e \<in> asked ct" for e
    using assms(5) [OF that] by (simp_all add: missing_def known_def)
  show ?thesis
    using assms(1-4) missing_known
    by (cases ct) (auto simp: check_defs asked_def duplicates split: drep_target.split option.splits)
qed


lemma update_state_initial:
  "update_state (s\<lparr>rs_initial := I\<rparr>) ct i = (update_state s ct i)\<lparr>rs_initial := I\<rparr>"
  by (cases ct) (auto simp: register_entity_def take_back_def deregister_entity_def Let_def
      split: option.split)

lemma update_keeps_initial: "rs_initial (update_state s ct i) = rs_initial s"
  by (cases ct) (auto simp: register_entity_def take_back_def deregister_entity_def Let_def
      split: option.split)

text \<open>What the walk asks of the context, for every certificate of the list.\<close>

definition alike_on :: "certificate_type set \<Rightarrow> input_context \<Rightarrow> input_context \<Rightarrow> bool" where
  "alike_on cts ic ic' \<longleftrightarrow>
     ic_protocol_parameters ic = ic_protocol_parameters ic' \<and>
     (\<forall>ct \<in> cts. \<forall>a \<in> looked_up_accounts ct. find_account_context ic a = find_account_context ic' a) \<and>
     (\<forall>ct \<in> cts. \<forall>k \<in> looked_up_cold ct.
        find_current_committee_member_by_cold_credential ic k =
          find_current_committee_member_by_cold_credential ic' k \<and>
        find_potential_committee_member_by_cold_credential ic k =
          find_potential_committee_member_by_cold_credential ic' k)"

lemma walk_cong:
  assumes "alike_on (set (map ci_cert_type infos)) ic ic'"
    and "\<And>ct e. ct \<in> set (map ci_cert_type infos) \<Longrightarrow> e \<in> asked ct \<Longrightarrow> e \<in> rs_initial s \<longleftrightarrow> e \<in> I"
  shows "walk_certificates ic w epoch s infos = walk_certificates ic' w epoch (s\<lparr>rs_initial := I\<rparr>) infos"
  using assms
proof (induction infos arbitrary: s)
  case (Cons info infos)
  let ?ct = "ci_cert_type info"
  have alike: "alike_on {?ct} ic ic'" "alike_on (set (map ci_cert_type infos)) ic ic'"
    using Cons.prems(1) unfolding alike_on_def by auto
  have asks: "e \<in> rs_initial s \<longleftrightarrow> e \<in> I" if "e \<in> asked ?ct" for e
    using Cons.prems(2) [of ?ct e] that by simp
  have later: "e \<in> rs_initial (update_state s ?ct (ci_cert_index info)) \<longleftrightarrow> e \<in> I"
    if "ct \<in> set (map ci_cert_type infos)" "e \<in> asked ct" for ct e
    unfolding update_keeps_initial using Cons.prems(2) [of ct e] that by simp
  have "validate_certificate ic w epoch s ?ct (ci_cert_index info) =
      validate_certificate ic' w epoch (s\<lparr>rs_initial := I\<rparr>) ?ct (ci_cert_index info)"
    by (rule validate_certificate_cong)
      (use alike(1) asks in \<open>unfold alike_on_def, blast+\<close>)
  then show ?case
    using Cons.IH [OF alike(2) later] by (simp add: update_state_initial)
qed simp

lemma registration_new_initial: "rs_initial (rv_state (registration_new cs body ic)) = load_initial_state ic"
  by (simp add: registration_new_def Let_def states_after_def [symmetric]) (simp add: start_state_def)

lemma registration_validate_cong:
  assumes agree: "agree_on (listed cs body ic) ic ic'" and once: "listed_once ic" "listed_once ic'"
  shows "registration_validate ic (registration_new cs body ic) =
    registration_validate ic' (registration_new cs body ic')"
proof -
  let ?infos = "certificate_infos cs body ic"
  have infos: "certificate_infos cs body ic' = ?infos"
    by (cases "tb_certs body")
      (simp_all add: certificate_infos_def process_certificate_cong [OF agree_constants(3) [OF agree]])
  have types: "set (map ci_cert_type ?infos) = set (certificate_types cs body ic)"
    by (simp add: certificate_infos_types)
  note lookups = certificate_types_listed [OF agree]
  have alike: "alike_on (set (map ci_cert_type ?infos)) ic ic'"
    unfolding types alike_on_def using agree_constants(1) [OF agree] lookups by blast
  have asks: "e \<in> load_initial_state ic \<longleftrightarrow> e \<in> load_initial_state ic'"
    if "ct \<in> set (map ci_cert_type ?infos)" "e \<in> asked ct" for ct e
    using lookups(1-3) [of ct] that unfolding types asked_def
    by (auto simp: initial_lookup [OF once(1)] initial_lookup [OF once(2)])
  have "walk_certificates ic w epoch (start_state (load_initial_state ic)) ?infos =
      walk_certificates ic' w epoch (start_state (load_initial_state ic')) ?infos" for w epoch
    using walk_cong [OF alike, of "start_state (load_initial_state ic)" "load_initial_state ic'" w epoch] asks
    by (simp add: start_state_def)
  then show ?thesis
    using agree_constants(2) [OF agree]
    by (simp add: registration_validate_def registration_new_initial Let_def)
      (simp add: registration_new_def infos Let_def)
qed

subsection \<open>Governance\<close>

lemma voter_existence_cong:
  assumes agree: "agree_on (listed cs body ic) ic ic'"
    and "tb_voting_procedures body = Some vs" "(v, gs) \<in> set vs"
  shows "check_voter_existence cs v i ic hot = check_voter_existence cs v i ic' hot"
proof -
  note parts = listed_voters [OF assms(2,3), where cs = cs and ic = ic]
  show ?thesis
    using parts(2-4) agree_lookup(2,3,7,8) [OF agree]
    by (cases "vo_kind v") (simp_all add: check_voter_existence_def Let_def split: option.split)
qed

lemma gov_action_ref_cong:
  "find_gov_action_context ic g = find_gov_action_context ic' g \<Longrightarrow>
     check_gov_action_ref g v at ic = check_gov_action_ref g v at ic'"
  by (simp add: check_gov_action_ref_def)

lemma concat_map_cong: "(\<And>x. x \<in> set xs \<Longrightarrow> f x = g x) \<Longrightarrow> concat (map f xs) = concat (map g xs)"
  by (induction xs) simp_all

lemma enumerate_member: "(i, x) \<in> set (enumerate n xs) \<Longrightarrow> x \<in> set xs"
  by (auto simp: in_set_enumerate_eq)

lemma votes_cong:
  assumes agree: "agree_on (listed cs body ic) ic ic'"
  shows "validate_votes cs body ic = validate_votes cs body ic'"
proof (cases "tb_voting_procedures body")
  case (Some vs)
  have "check_gov_action_ref g v at ic = check_gov_action_ref g v at ic'"
    if "(v, gs) \<in> set vs" "g \<in> set gs" for v gs g at
    using listed_voters(1) [OF Some that(1), of cs ic] that(2) agree_lookup(4) [OF agree]
    by (intro gov_action_ref_cong) blast
  then show ?thesis
    unfolding validate_votes_def Some option.case Let_def
    by (intro concat_map_cong)
      (auto dest!: enumerate_member intro!: concat_map_cong
        simp: voter_existence_cong [OF agree Some])
qed (simp add: validate_votes_def)

lemma proposal_cong:
  assumes agree: "agree_on (listed cs body ic) ic ic'"
    and "tb_voting_proposals body = Some ps" "p \<in> set ps"
  shows "validate_proposal ic i p = validate_proposal ic' i p"
proof -
  note parts = listed_proposals [OF assms(2,3), of cs ic]
  have registered: "account_registered ic a = account_registered ic' a"
    if "a \<in> nd_accounts (listed cs body ic)" for a
    using agree_lookup(1) [OF agree that] by (simp add: account_registered_def)
  have treasury: "check_treasury_withdrawals ws j at ic = check_treasury_withdrawals ws j at ic'"
    if "vp_action p = TreasuryWithdrawals ws policy" for ws policy j at
  proof -
    have "account_registered ic (reward_text (fst w)) = account_registered ic' (reward_text (fst w))"
      if "w \<in> set ws" for w
      by (rule registered) (use parts(2) \<open>vp_action p = _\<close> that in auto)
    then show ?thesis
      unfolding check_treasury_withdrawals_def by (auto intro!: concat_map_cong)
  qed
  have "find_gov_action_context ic g = find_gov_action_context ic' g"
    if "extract_prev_gov_action_id (vp_action p) = Some g" for g
    using parts(3) that agree_lookup(4) [OF agree] by simp
  moreover have "check_policy_hash action at ic = check_policy_hash action at ic'" for action at
    using agree_constants(5) [OF agree] by (simp add: check_policy_hash_def)
  ultimately show ?thesis
    using registered [OF parts(1)] treasury
    by (simp add: validate_proposal_def Let_def split: governance_action.split option.split)
qed

lemma proposals_cong:
  assumes agree: "agree_on (listed cs body ic) ic ic'"
  shows "validate_proposals body ic = validate_proposals body ic'"
proof (cases "tb_voting_proposals body")
  case (Some ps)
  show ?thesis
    unfolding validate_proposals_def Some option.case
    by (intro concat_map_cong) (auto dest!: enumerate_member simp: proposal_cong [OF agree Some])
qed (simp add: validate_proposals_def)

lemma governance_validate_cong:
  assumes "agree_on (listed cs body ic) ic ic'"
  shows "governance_validate cs body ic = governance_validate cs body ic'"
  unfolding governance_validate_def votes_cong [OF assms] proposals_cong [OF assms] ..

end
