(* ===== verification/Sample_Transaction.thy ===== *)
theory Sample_Transaction
  imports Necessary_Suffices Collateral_Facts
begin

text \<open>
  A small transaction, the context around it and an instance of the serialization library's
  functions, at which the properties of the phase-1 validators are instantiated: one input of five
  lovelace, one output of three, a fee of two, a stake registration whose deposit is zero, a
  withdrawal and a collateral input.
\<close>

definition failing_decoder :: minicbor where
  "failing_decoder =
     \<lparr>mc_array = \<lambda>bs i. Inl [], mc_u64 = \<lambda>bs i. Inl [], mc_i64 = \<lambda>bs i. Inl [], mc_bytes = \<lambda>bs i. Inl [],
      mc_tag = \<lambda>bs i. Inl [], mc_datatype = \<lambda>bs i. Inl [], mc_message = \<lambda>s. s\<rparr>"

definition sample_key :: credential where
  "sample_key = \<lparr>cr_kind = KeyKind, cr_keyhash = Some [1], cr_scripthash = None\<rparr>"

definition sample_reward :: reward_address where
  "sample_reward =
     \<lparr>ra_network_id = 0, ra_bech32 = Some ''stake1'', ra_payment_cred = sample_key, ra_bytes = [0xE0, 1]\<rparr>"

definition sample_address :: address where
  "sample_address =
     \<lparr>ad_is_reward = False, ad_payment_cred = Some sample_key, ad_network_id = Some 0,
      ad_bech32 = Some ''addr1'', ad_reward = None\<rparr>"

definition sample_csl :: csl where
  "sample_csl =
     \<lparr>cs_mainnet_id = 1, cs_preview_id = 0, cs_preprod_id = 0,
      cs_reward_bech32 = \<lambda>n c. Some ''stake1'', cs_drep_bech32 = \<lambda>c. Some ''drep1'',
      cs_hex_decode = \<lambda>s. Inl [], cs_bech32_decode = \<lambda>s. Inl [],
      cs_address_of_hex = \<lambda>s. Inl [], cs_address_of_bech32 = \<lambda>s. Inl [],
      cs_byron_of_base58 = \<lambda>s. Inr sample_address,
      cs_min_ada_for_output = \<lambda>out price. Some 1,
      cs_min_ref_script_fee = \<lambda>n price. Inr 0, cs_ex_units_ceil_cost = \<lambda>u p. Inr 0,
      cs_min_fee_for_size = \<lambda>n a b. Inr 1, cs_empty_total_ex_units = Inr \<lparr>eu_mem = 0, eu_steps = 0\<rparr>,
      cs_script_ref_of_bytes = \<lambda>bs. Inl [], cs_blake2b_224 = \<lambda>bs. [],
      cs_script_hash_of_bytes = \<lambda>bs. None, cs_encode_tag_24 = \<lambda>bs. bs, cs_minicbor = failing_decoder\<rparr>"

definition sample_input :: csl_input where
  "sample_input = \<lparr>ci_transaction_id = [7], ci_index = 0\<rparr>"

definition sample_output :: csl_output where
  "sample_output =
     \<lparr>ou_address = sample_address,
      ou_amount = \<lparr>cv_coin = 3, cv_multiasset = None, cv_bytes = [3]\<rparr>, ou_data_hash = None\<rparr>"

definition sample_body :: tx_body where
  "sample_body =
     \<lparr>tb_inputs = [sample_input], tb_outputs = [sample_output], tb_fee = 2, tb_ttl = Some 9,
      tb_validity_start = Some 1, tb_certs = Some [StakeRegistration sample_key (Some 0)],
      tb_withdrawals = Some [(sample_reward, Some 0)], tb_mint = None, tb_collateral = Some [sample_input],
      tb_collateral_return = None, tb_total_collateral = None, tb_reference_inputs = None,
      tb_voting_procedures = None, tb_voting_proposals = None, tb_donation = None,
      tb_current_treasury_value = None, tb_network_id = None, tb_auxiliary_data_hash = None,
      tb_required_signers = None, tb_script_data_hash = None\<rparr>"

definition sample_redeemers :: redeemers where
  "sample_redeemers = \<lparr>rd_len = 1, rd_total_ex_units = Inr \<lparr>eu_mem = 0, eu_steps = 0\<rparr>\<rparr>"

definition no_price :: sub_coin where
  "no_price = \<lparr>sc_numerator = 0, sc_denominator = 1\<rparr>"

definition no_units :: ex_units where
  "no_units = \<lparr>eu_mem = 0, eu_steps = 0\<rparr>"

definition sample_parameters :: protocol_parameters where
  "sample_parameters =
     \<lparr>pp_min_fee_coefficient_a = 1, pp_min_fee_constant_b = 1, pp_max_block_body_size = 90000,
      pp_max_transaction_size = 16384, pp_max_block_header_size = 1100, pp_stake_key_deposit = 0,
      pp_stake_pool_deposit = 0, pp_max_epoch_for_pool_retirement = 18, pp_protocol_version = (9, 0),
      pp_min_pool_cost = 0, pp_ada_per_utxo_byte = 1,
      pp_cost_models = \<lparr>cm_plutus_v1 = None, cm_plutus_v2 = None, cm_plutus_v3 = None\<rparr>,
      pp_execution_prices = \<lparr>ep_mem_price = no_price, ep_step_price = no_price\<rparr>,
      pp_max_tx_execution_units = no_units, pp_max_block_execution_units = no_units,
      pp_max_value_size = 5000, pp_collateral_percentage = 150, pp_max_collateral_inputs = 3,
      pp_governance_action_deposit = 0, pp_drep_deposit = 0,
      pp_reference_script_cost_per_byte = no_price\<rparr>"

definition sample_utxo :: utxo_context where
  "sample_utxo =
     \<lparr>uc_utxo = \<lparr>ux_input = \<lparr>ti_output_index = 0, ti_tx_hash = ''07''\<rparr>,
        ux_output = \<lparr>to_address = ''addr1'',
          to_amount = [\<lparr>as_unit = ''lovelace'', as_quantity = ''5''\<rparr>], to_data_hash = None,
          to_plutus_data = None, to_script_ref = None, to_script_hash = None\<rparr>\<rparr>,
      uc_is_spent = False\<rparr>"

definition sample_account :: account_context where
  "sample_account =
     \<lparr>ac_bech32_address = ''stake1'', ac_is_registered = True, ac_payed_deposit = Some 0,
      ac_delegated_to_drep = None, ac_delegated_to_pool = None, ac_balance = Some 0\<rparr>"

definition sample_context :: input_context where
  "sample_context =
     \<lparr>ic_utxo_set = [sample_utxo], ic_protocol_parameters = sample_parameters, ic_slot = 5,
      ic_account_contexts = [sample_account], ic_drep_contexts = [], ic_pool_contexts = [],
      ic_gov_action_contexts = [], ic_last_enacted_gov_action = [], ic_current_committee_members = [],
      ic_potential_committee_members = [], ic_treasury_value = 0, ic_network_type = Preview,
      ic_constitution = None\<rparr>"

lemmas sample_defs =
  failing_decoder_def sample_key_def sample_reward_def sample_address_def sample_csl_def sample_input_def
  sample_output_def sample_body_def sample_redeemers_def no_price_def no_units_def sample_parameters_def
  sample_utxo_def sample_account_def sample_context_def

lemma sample_found: "find_input sample_context sample_input = Some sample_utxo"
proof -
  have "hex_encode [7] = ''07''" by code_simp
  then show ?thesis by (simp add: sample_defs find_input_def find_utxo_def)
qed

lemma sample_value:
  "new_from_common_assets (to_amount (ux_output (uc_utxo sample_utxo))) = Inr (value_of_coins 5)"
proof -
  have "parse_i128 ''5'' = Inr 5"
    by code_simp
  then show ?thesis
    by (simp add: sample_defs new_from_common_assets_def value_defs)
qed

lemma sample_balance: "\<exists>bv. balance_new sample_csl sample_body sample_context = Inr bv"
proof -
  have "tb_inputs sample_body = [sample_input]" by (simp add: sample_body_def)
  then have "calculate_total_inputs sample_body sample_context =
      Inr (value_add (value_of_coins 0) (value_of_coins 5))"
    by (simp add: calculate_total_inputs_def sample_found sample_value)
  then show ?thesis
    unfolding balance_new_def by (simp add: case_prod_unfold Let_def)
qed

lemma sample_collateral:
  "\<exists>v. collateral_new sample_csl sample_body (Some sample_redeemers) sample_context = Inr v"
proof -
  have "tb_collateral sample_body = Some [sample_input]" by (simp add: sample_body_def)
  then have "collateral_total_input sample_body sample_context =
      Inr (Some (value_add (value_of_coins 0) (value_of_coins 5)))"
    by (simp add: collateral_total_input_def sample_found sample_value)
  then show ?thesis
    unfolding collateral_new_def by (simp add: Let_def)
qed

lemma sample_limits:
  "\<exists>v. limits_new sample_csl (\<lambda>bs. None) id id_less (\<lambda>a b. False) 100 sample_body
     (Some sample_redeemers) sample_context = Inr v"
proof -
  have "tb_inputs sample_body = [sample_input]" "tb_reference_inputs sample_body = None"
    by (simp_all add: sample_body_def)
  then have "collect_utxos sample_body sample_context = [sample_utxo]"
    by (simp add: collect_utxos_def insert_found_def sample_found insert_once_def)
  moreover have "to_script_ref (ux_output (uc_utxo sample_utxo)) = None"
    by (simp add: sample_utxo_def)
  ultimately have "total_reference_scripts_size sample_csl (\<lambda>bs. None) 0
      (id (collect_utxos sample_body sample_context)) = Inr 0"
    by simp
  then show ?thesis
    unfolding limits_new_def by (simp add: Let_def)
qed


lemma sample_parts:
  "tb_inputs sample_body = [sample_input]" "tb_outputs sample_body = [sample_output]"
  "tb_fee sample_body = 2" "cv_coin (ou_amount sample_output) = 3"
  by (simp_all add: sample_body_def sample_output_def)

lemma sample_sums:
  "val_coins (input_value sample_context sample_input) = 5"
  "held (input_value sample_context sample_input) u = 0"
  "calculate_deposits_and_refunds sample_csl sample_body sample_context = ([], [StakeRegistrationDeposit 0 0])"
  "get_withdrawals sample_body = [\<lparr>wd_amount = 0, wd_index = 0, wd_reward_address = ''stake1''\<rparr>]"
  "calculate_voting_proposals_deposits sample_body = []"
  "get_donation sample_body = 0" "calculate_mints sample_body = []" "calculate_burn sample_body = []"
  "held (new_from_csl_value (ou_amount sample_output)) u = 0"
  by (simp_all add: input_value_def sample_found sample_value)
    (simp_all add: sample_defs calculate_deposits_and_refunds_def certificate_flows_def get_withdrawals_def
      calculate_voting_proposals_deposits_def get_donation_def calculate_mints_def calculate_burn_def
      new_from_csl_value_def held_def)

text \<open>A mint that lists its one policy twice.\<close>

definition sample_mint :: mint where
  "sample_mint =
     \<lparr>mi_keys = [[10], [10]], mi_get = \<lambda>policy. Some [Some [([11], Some 4)], Some [([11], Some (- 3))]],
      mi_positive = None, mi_negative = None\<rparr>"

text \<open>The order of byte strings.\<close>

definition byte_less :: "bytes \<Rightarrow> bytes \<Rightarrow> bool" where
  "byte_less xs ys \<longleftrightarrow> (xs, ys) \<in> lexord {(a, b). a < b}"

lemma byte_less_order: "strict_order byte_less"
proof -
  let ?r = "{(a :: 8 word, b). a < b}"
  have "(xs, ys) \<in> lexord ?r \<or> xs = ys \<or> (ys, xs) \<in> lexord ?r" for xs ys
    by (rule lexord_linear) auto
  moreover have "(xs, xs) \<notin> lexord ?r" for xs
    by (rule lexord_irreflexive) simp
  moreover have "trans ?r"
    by (auto intro: transI)
  then have "(xs, zs) \<in> lexord ?r" if "(xs, ys) \<in> lexord ?r" "(ys, zs) \<in> lexord ?r" for xs ys zs
    using that by (blast intro: lexord_trans)
  ultimately show ?thesis
    unfolding strict_order_def byte_less_def by blast
qed

text \<open>A context with more than the transaction needs.\<close>

definition larger_context :: input_context where
  "larger_context =
     sample_context\<lparr>ic_account_contexts := [sample_account, sample_account\<lparr>ac_bech32_address := ''stake9''\<rparr>]\<rparr>"

lemma larger_agrees:
  "agree_on (necessary_data_of_body sample_csl (ic_network_type sample_context) sample_body)
     sample_context larger_context"
  by (simp add: necessary_data_of_body_def each_def need_defs nothing_needed_def collect_certificate_def
      credential_to_reward_address_def agree_on_def larger_context_def sample_defs find_utxo_def
      find_account_context_def Let_def)

end
