(* ===== verification/Sample_Validation.thy ===== *)
theory Sample_Validation
  imports Validator_Facts Sample_Transaction Preflight_Facts
begin

text \<open>
  A whole validation at concrete values: a transaction that spends one UTxO of five lovelace into
  an output of three with a fee of two, signed by the key that owns the UTxO; and an evaluator
  whose machine always succeeds at no cost.
\<close>

definition sample_id :: bytes where "sample_id = replicate 32 7"

definition plain_csl :: csl where
  "plain_csl =
     sample_csl\<lparr>cs_hex_decode := \<lambda>s. if s = ''80'' then Inr [0x80] else Inr sample_id,
       cs_bech32_decode := \<lambda>s. Inr ([], [1]), cs_address_of_bech32 := \<lambda>s. Inr sample_address\<rparr>"

definition plain_input :: csl_input where
  "plain_input = \<lparr>ci_transaction_id = sample_id, ci_index = 0\<rparr>"

definition plain_body :: tx_body where
  "plain_body =
     sample_body\<lparr>tb_inputs := [plain_input], tb_certs := None, tb_withdrawals := None, tb_collateral := None\<rparr>"

definition plain_context :: input_context where
  "plain_context =
     sample_context\<lparr>ic_utxo_set :=
       [sample_utxo\<lparr>uc_utxo := (uc_utxo sample_utxo)
          \<lparr>ux_input := \<lparr>ti_output_index = 0, ti_tx_hash = hex_encode sample_id\<rparr>\<rparr>\<rparr>]\<rparr>"

definition plain_witnesses :: witness_library where
  "plain_witnesses =
     \<lparr>wl_key_hash = id, wl_verify = \<lambda>key message signature. signature = message, wl_native_hash = id,
      wl_plutus_hash = \<lambda>version bs. bs, wl_hash_plutus_data = id, wl_data_hash_of_bytes = Some,
      wl_redeemers_bytes = \<lambda>rs. [], wl_datums_bytes = concat, wl_cost_models_bytes = \<lambda>ms. [],
      wl_hash_script_data = \<lambda>rs ms ds. [], wl_tag_text = \<lambda>t. ''Spend'', wl_input_less = \<lambda>a b. False,
      wl_reward_less = \<lambda>a b. False, wl_order_indices = id, wl_order_sources = id, wl_order_languages = id\<rparr>"

definition plain_witness_set :: witness_set where
  "plain_witness_set =
     \<lparr>ws_vkeys = Some [\<lparr>vw_public_key = [1], vw_signature = [9]\<rparr>], ws_native_scripts = None,
      ws_plutus_scripts = None, ws_plutus_data = None, ws_redeemers = None\<rparr>"

definition plain_transaction :: csl_transaction where
  "plain_transaction =
     \<lparr>ct_body = plain_body, ct_witness_set = plain_witness_set, ct_redeemers = None, ct_hash = [9],
      ct_auxiliary_data = None\<rparr>"

definition plain_pallas :: pallas_tx where
  "plain_pallas =
     \<lparr>pb_inputs = [\<lparr>pi_transaction_id = sample_id, pi_index = 0\<rparr>], pb_reference_inputs = None,
      pb_collateral = None, pb_outputs = [], pb_withdrawals = None, pb_certificates = None,
      pb_voters = None, pb_proposals = None, pb_donation = None, pb_treasury_value = None,
      pb_redeemers = None, pb_raw = []\<rparr>"

definition plain_mapper :: mapper_library where
  "plain_mapper =
     \<lparr>ml_address_bytes = \<lambda>a. [1], ml_script_ref_bytes = \<lambda>s. [], ml_decode_script_ref = Inr,
      ml_decode_data = \<lambda>bs. Inl [], ml_data_of_json = \<lambda>s. None, ml_order_policies = id\<rparr>"

definition no_decoder :: body_decoder where
  "no_decoder =
     \<lparr>bd_map = \<lambda>bs. None, bd_set_of_arrays = \<lambda>bs. None, bd_array = \<lambda>bs. None, bd_u64 = \<lambda>bs. None,
      bd_cost_models = \<lambda>bs. None\<rparr>"

definition plain_evaluator :: "(unit, unit, unit) evaluator" where
  "plain_evaluator =
     \<lparr>ev_read_address = \<lambda>bs. if bs = [0xE0] then Inr StakeAddress else Inr ShelleyAddress,
      ev_body_decoder = no_decoder,
      ev_find_script = \<lambda>tx us r. Inr ((PlutusV2, [1]), None),
      ev_tx_info = \<lambda>l tx us s. Inr (), ev_script_context = \<lambda>i r d. Some (LegacyContext ()),
      ev_context_json = \<lambda>c. None, ev_to_plutus_data = \<lambda>c. IntData 0, ev_data_bytes = \<lambda>d. [0],
      ev_program = \<lambda>bs. Inr (), ev_apply = \<lambda>p d. (),
      ev_eval_as = \<lambda>p l v ms b. \<lparr>mr_mem = 7, mr_cpu = 9, mr_logs = [], mr_error = None\<rparr>,
      ev_eval_version = \<lambda>p l v. \<lparr>mr_mem = 7, mr_cpu = 9, mr_logs = [], mr_error = None\<rparr>\<rparr>"

definition plain_libraries :: "(unit, unit, unit) libraries" where
  "plain_libraries =
     \<lparr>lb_csl = plain_csl, lb_well_formed_error = \<lambda>bs. None,
      lb_parse_csl = \<lambda>bs. Inr plain_transaction, lb_parse_pallas = \<lambda>bs. Inr (Some plain_pallas),
      lb_witnesses = plain_witnesses, lb_mapper = plain_mapper, lb_evaluator = plain_evaluator,
      lb_order = id, lb_id_less = \<lambda>a b. False, lb_reward_less = \<lambda>a b. False,
      lb_hash_auxiliary_data = id\<rparr>"

lemmas plain_defs =
  plain_csl_def plain_input_def plain_body_def plain_context_def plain_witnesses_def plain_witness_set_def
  plain_transaction_def plain_pallas_def plain_mapper_def no_decoder_def plain_evaluator_def
  plain_libraries_def

subsection \<open>The gate\<close>

unbundle bit_operations_syntax

text \<open>The bytes of the sample are an empty array.\<close>

lemma empty_array_scan:
  assumes "0 < ic"
  shows "scan_loop [0x80] dc ic c [] scan_start = scan_start\<lparr>sc_pos := 1, sc_items := 1\<rparr>"
proof -
  have byte: "(0x80 :: u8) \<noteq> 0xff" "(0x80 :: u8) AND 31 = 0" "drop_bit 5 (0x80 :: u8) = 4" by code_simp+
  have "scan_step [0x80] dc ic c [] scan_start = Inr (scan_start\<lparr>sc_pos := 1, sc_items := 1\<rparr>)"
    using assms by (simp add: scan_step_def scan_start_def byte is_chunk_def under_tag_24_def advance_skip_def
      scan_body_def scan_header_def scan_content_def Let_def)
  moreover have "scan_step [0x80] dc ic c [] (scan_start\<lparr>sc_pos := 1, sc_items := 1\<rparr>) =
      Inl (scan_start\<lparr>sc_pos := 1, sc_items := 1\<rparr>)"
    by (simp add: scan_step_def scan_start_def Let_def nth_opt_def)
  ultimately show ?thesis by (simp add: scan_loop.simps [of "[0x80]"])
qed

lemma empty_array_nesting: "cbor_nesting_depth_through_embedded_capped [0x80] MAX_CBOR_NESTING_DEPTH = 0"
proof -
  have bound: "MAX_CBOR_NESTING_DEPTH < usize_max" by (simp add: MAX_CBOR_NESTING_DEPTH_def usize_max_def)
  have "0 < usize_max" by (simp add: usize_max_def)
  then have "scan_cbor_shape [0x80] usize_max usize_max c [] = (\<lparr>shape_depth = 0, shape_items = 1\<rparr>, [])" for c
    by (simp add: scan_cbor_shape_def empty_array_scan) (simp add: scan_start_def)
  then show ?thesis
    unfolding cbor_nesting_depth_through_embedded_capped_def embedded_depth_reading [OF bound]
    by (subst reading_unfold) (simp add: whole_scan_def)
qed

lemma plain_gate: "check_cbor_within d (\<lambda>bs. None) [0x80] Transaction reader = Inr ()"
proof -
  have "shape_hazard [0x80] Transaction = None" by code_simp
  then show ?thesis by (simp add: check_cbor_within_ok nesting_verdict_def empty_array_nesting)
qed

lemma plain_gates:
  "check_cbor_hex plain_csl (\<lambda>bs. None) ''80'' Transaction = Inr [0x80]"
  "check_hex (cs_hex_decode plain_csl)
     (\<lambda>bs. check_pallas_cbor (cs_minicbor plain_csl) (\<lambda>bs. None) bs Transaction) ''80'' = Inr [0x80]"
proof -
  have "cs_hex_decode plain_csl ''80'' = Inr [0x80]" by (simp add: plain_csl_def)
  then show "check_cbor_hex plain_csl (\<lambda>bs. None) ''80'' Transaction = Inr [0x80]"
    "check_hex (cs_hex_decode plain_csl)
       (\<lambda>bs. check_pallas_cbor (cs_minicbor plain_csl) (\<lambda>bs. None) bs Transaction) ''80'' = Inr [0x80]"
    by (simp_all add: check_cbor_hex_def check_hex_def check_cbor_def check_pallas_cbor_def plain_gate)
qed

subsection \<open>The validators\<close>

definition quiet :: "string + phase1_result \<Rightarrow> bool" where
  "quiet r = (case r of Inr v \<Rightarrow> vr_errors v = [] | Inl e \<Rightarrow> False)"

lemma plain_found: "find_input plain_context plain_input = Some (hd (ic_utxo_set plain_context))"
  by (simp add: plain_defs sample_defs find_input_def find_utxo_def)

lemma plain_value:
  "new_from_common_assets (to_amount (ux_output (uc_utxo (hd (ic_utxo_set plain_context))))) =
     Inr (value_of_coins 5)"
  using sample_value by (simp add: plain_context_def)

lemma plain_fields:
  "tb_inputs plain_body = [plain_input]" "tb_reference_inputs plain_body = None"
  "tb_collateral plain_body = None" "tb_certs plain_body = None" "tb_withdrawals plain_body = None"
  "tb_voting_proposals plain_body = None" "tb_voting_procedures plain_body = None"
  "to_script_ref (ux_output (uc_utxo (hd (ic_utxo_set plain_context)))) = None"
  by (simp_all add: plain_body_def sample_body_def plain_context_def sample_utxo_def)

lemma plain_small:
  "quiet (Inr (auxiliary_validate (auxiliary_new id plain_body None)))"
  "quiet (Inr (registration_validate plain_context (registration_new plain_csl plain_body plain_context)))"
  "quiet (Inr (governance_validate plain_csl plain_body plain_context))"
  "quiet (Inr (network_validate (network_new plain_csl plain_body plain_context)))"
  subgoal by (simp add: quiet_def auxiliary_validate_def auxiliary_new_def)
  subgoal by (simp add: quiet_def registration_validate_def registration_new_def certificate_infos_def plain_fields Let_def)
  subgoal by (simp add: quiet_def governance_validate_def validate_votes_def validate_proposals_def plain_fields)
  subgoal by (simp add: quiet_def network_errors_Nil on_network_def plain_fields) (simp add: plain_body_def sample_defs plain_context_def plain_csl_def expected_network_id_def)
  done

lemma plain_collateral:
  "quiet (bind_result (collateral_new plain_csl plain_body None plain_context)
     (\<lambda>v. Inr (collateral_validate v)))"
  by (simp add: quiet_def collateral_new_def collateral_total_input_def plain_fields is_need_collateral_def collateral_validate_def Let_def amount_errors_def asset_errors_def return_errors_def)
    (simp add: plain_body_def sample_defs plain_context_def plain_csl_def find_script_payment_inputs_def find_reward_address_inputs_def find_non_ada_inputs_def collateral_total_output_def get_total_collateral_def inputs_where_def collateral_inputs_def min_ada_for_collateral_return_def locked_errors_def)

lemma plain_fee: "quiet (bind_result (fee_new plain_csl (\<lambda>bs. None) id 1 plain_body None plain_context)
     (\<lambda>v. Inr (fee_validate v)))"
proof -
  have "collect_utxos plain_body plain_context = [hd (ic_utxo_set plain_context)]"
    by (simp add: collect_utxos_def insert_found_def plain_found insert_once_def plain_fields)
  then show ?thesis
    by (simp add: quiet_def fee_new_def plain_fields fee_validate_def Let_def)
      (simp add: plain_body_def sample_defs plain_context_def plain_csl_def)
qed

lemma plain_limits:  "quiet (bind_result (limits_new plain_csl (\<lambda>bs. None) id (\<lambda>a b. False) (\<lambda>a b. False) 1 plain_body None
     plain_context) (\<lambda>v. Inr (limits_validate plain_context v)))"
  by code_simp

lemma plain_balance:
  "quiet (bind_result (balance_new plain_csl plain_body plain_context)
     (\<lambda>v. Inr (balance_validate plain_csl plain_context v)))"
  by code_simp

lemma plain_output:
  "quiet (Inr (output_validate (output_new plain_csl plain_body plain_context)))"
  by (simp add: quiet_def output_validate_def output_new_def plain_body_def sample_defs plain_context_def plain_csl_def output_step_def output_size_def Let_def)

lemma plain_witness:
   "case witness_new plain_csl plain_witnesses (\<lambda>bs. None) plain_body plain_witness_set [9] plain_context of
      Inr v \<Rightarrow> fst (witness_validate plain_witnesses v) = [] | Inl e \<Rightarrow> False"
  by code_simp

lemmas plain_quiet = plain_small plain_collateral plain_fee plain_limits plain_balance plain_output plain_witness

lemma plain_quantity: "parse_quantity ''5'' = Inr 5"
proof -
  have "is_digit (CHR ''5'')" "of_char (CHR ''5'') = (53 :: nat)" by code_simp+
  then show ?thesis by (simp add: parse_quantity_def)
qed

lemma plain_utxos:
  "unexamined_utxos plain_csl (\<lambda>bs. None) plain_mapper (ic_utxo_set plain_context) = []"
  "filter (\<lambda>u. utxo_key u \<in> set (collect_tx_inputs plain_pallas)) (ic_utxo_set plain_context) =
     ic_utxo_set plain_context"
  "\<exists>us. to_pallas_utxos plain_csl (\<lambda>bs. None) plain_mapper (ic_utxo_set plain_context) = Inr us \<and>
     missed_utxos (collect_tx_inputs plain_pallas) us = []"
proof -
  show "unexamined_utxos plain_csl (\<lambda>bs. None) plain_mapper (ic_utxo_set plain_context) = []"
    by (simp add: unexamined_utxos_def map_filter_simps plain_context_def sample_utxo_def
        context_nesting_refusal_def)
  have "map to_ascii_lowercase (hex_encode sample_id) = hex_encode sample_id" by code_simp
  then show "filter (\<lambda>u. utxo_key u \<in> set (collect_tx_inputs plain_pallas)) (ic_utxo_set plain_context) =
      ic_utxo_set plain_context"
    by (simp add: plain_context_def utxo_key_def plain_pallas_def collect_tx_inputs_def
        input_to_request_format_def number_def sample_utxo_def)
  have "hex_encode sample_id \<noteq> ''80''" "length sample_id = 32" by code_simp+
  then have "to_pallas_utxos plain_csl (\<lambda>bs. None) plain_mapper (ic_utxo_set plain_context) =
      Inr [\<lparr>rs_input = \<lparr>pi_transaction_id = sample_id, pi_index = 0\<rparr>, rs_address = [1],
        rs_value = CoinValue 5, rs_datum = None, rs_script_ref = None\<rparr>]"
    by (simp add: plain_context_def sample_utxo_def to_pallas_utxo_def hash_bytes_def plain_csl_def
        address_from_bech32_def to_pallas_value_def plain_quantity to_pallas_datum_def
        to_pallas_script_ref_def plain_mapper_def)
  then show "\<exists>us. to_pallas_utxos plain_csl (\<lambda>bs. None) plain_mapper (ic_utxo_set plain_context) = Inr us \<and>
      missed_utxos (collect_tx_inputs plain_pallas) us = []"
    by (simp add: missed_utxos_def plain_pallas_def collect_tx_inputs_def)
qed

lemma plain_phase_2:
  "phase_2_validation plain_csl (\<lambda>bs. None) plain_mapper plain_evaluator (\<lambda>bs. Inr (Some plain_pallas)) ''80''
     plain_context = Inr \<lparr>p2_errors = [], p2_warnings = [], p2_results = []\<rparr>"
proof -
  have "tx_redeemers plain_pallas = []" by (simp add: tx_redeemers_def plain_pallas_def)
  with plain_utxos show ?thesis
    by (auto simp: phase_2_validation_def plain_gates Let_def check_missed_utxos_def eval_all_redeemers_def)
qed

lemma plain_validation:
  "\<exists>r. validate_transaction plain_libraries ''80'' plain_context = Inr r \<and>
     ol_errors r = [] \<and> ol_phase2_errors r = []"
proof -
  have size: "ledger_tx_size [0x80] = None" by code_simp
  from plain_quiet show ?thesis
    by (auto simp: validate_transaction_def plain_libraries_def plain_gates plain_transaction_def
        phase_1_validation_def Let_def plain_phase_2 quiet_def size split: sum.splits)
qed

end
