(* ===== verification/Loop_Bounds.thy ===== *)
theory Loop_Bounds
  imports Limits_Scan Cbor_Nav
begin

text \<open>
  How long the loops over a buffer run. A turn of the shape scan, or of the walk over one item,
  that does not end the loop moves the position forward and keeps it inside the buffer, so there
  are at most as many such turns as the buffer has bytes.
\<close>

definition scan_turns :: "bytes \<Rightarrow> nat \<Rightarrow> nat \<Rightarrow> bool \<Rightarrow> ranges \<Rightarrow> (scan \<times> scan) set" where
  "scan_turns bs dc ic collect skip = {(s, t). scan_step bs dc ic collect skip s = Inr t}"

lemma scan_turns_advance:
  "(s, t) \<in> scan_turns bs dc ic collect skip ^^ n \<Longrightarrow>
     sc_pos s + n \<le> sc_pos t \<and> (0 < n \<longrightarrow> sc_pos t \<le> length bs)"
proof (induction n arbitrary: t)
  case (Suc n)
  then obtain u where u: "(s, u) \<in> scan_turns bs dc ic collect skip ^^ n"
    "(u, t) \<in> scan_turns bs dc ic collect skip" by auto
  from u(2) scan_step_pos [of bs dc ic collect skip u t] have "sc_pos u < sc_pos t \<and> sc_pos t \<le> length bs"
    by (simp add: scan_turns_def)
  with Suc.IH [OF u(1)] show ?case by simp
qed simp

lemma scan_loop_reached:
  "\<exists>n s. (start, s) \<in> scan_turns bs dc ic collect skip ^^ n \<and>
     scan_step bs dc ic collect skip s = Inl (scan_loop bs dc ic collect skip start)"
proof (induction bs dc ic collect skip start rule: scan_loop.induct)
  case (1 bs dc ic collect skip s)
  show ?case
  proof (cases "scan_step bs dc ic collect skip s")
    case (Inl t)
    then have "(s, s) \<in> scan_turns bs dc ic collect skip ^^ 0 \<and>
        scan_step bs dc ic collect skip s = Inl (scan_loop bs dc ic collect skip s)"
      by (simp add: scan_loop.simps [of bs dc ic collect skip s])
    then show ?thesis by blast
  next
    case (Inr t)
    from "1.IH" [OF this] obtain n u where
      u: "(t, u) \<in> scan_turns bs dc ic collect skip ^^ n"
        "scan_step bs dc ic collect skip u = Inl (scan_loop bs dc ic collect skip t)" by blast
    have "(s, t) \<in> scan_turns bs dc ic collect skip" using Inr by (simp add: scan_turns_def)
    note relpow_Suc_I2 [OF this u(1)]
    moreover have "scan_loop bs dc ic collect skip s = scan_loop bs dc ic collect skip t"
      using Inr by (simp add: scan_loop.simps [of bs dc ic collect skip s])
    ultimately show ?thesis using u(2) by metis
  qed
qed

lemma scan_loop_ends:
  "\<exists>n s. n \<le> length bs \<and> (scan_start, s) \<in> scan_turns bs dc ic collect skip ^^ n \<and>
     scan_step bs dc ic collect skip s = Inl (scan_loop bs dc ic collect skip scan_start)"
proof -
  obtain n s where s: "(scan_start, s) \<in> scan_turns bs dc ic collect skip ^^ n"
      "scan_step bs dc ic collect skip s = Inl (scan_loop bs dc ic collect skip scan_start)"
    using scan_loop_reached [of scan_start bs dc ic collect skip] by blast
  moreover from scan_turns_advance [OF s(1)] have "n \<le> length bs" by (cases n) auto
  ultimately show ?thesis by blast
qed

text \<open>A state of the walk over one item: the position and the open containers.\<close>

definition skip_turns :: "bytes \<Rightarrow> ((nat \<times> u64 option list) \<times> nat \<times> u64 option list) set" where
  "skip_turns bs =
     {((i, opened), (i', c # rest)) | i opened i' c rest.
        \<exists>opened'. skip_step bs i opened = Some (i', opened') \<and> close_full opened' = c # rest}"

lemma skip_turns_advance:
  "(s, t) \<in> skip_turns bs ^^ n \<Longrightarrow> fst s + n \<le> fst t \<and> (0 < n \<longrightarrow> fst t \<le> length bs)"
proof (induction n arbitrary: t)
  case (Suc n)
  then obtain u where u: "(s, u) \<in> skip_turns bs ^^ n" "(u, t) \<in> skip_turns bs" by auto
  from u(2) have "fst u < fst t \<and> fst t \<le> length bs"
    by (auto simp: skip_turns_def dest: skip_step_bound)
  with Suc.IH [OF u(1)] show ?case by simp
qed simp

lemma skip_loop_reached:
  "\<exists>n s. ((i, opened), s) \<in> skip_turns bs ^^ n \<and> s \<notin> Domain (skip_turns bs) \<and>
     skip_loop bs (fst s) (snd s) = skip_loop bs i opened"
proof (induction bs i opened rule: skip_loop.induct)
  case (1 bs i opened)
  show ?case
  proof (cases "(i, opened) \<in> Domain (skip_turns bs)")
    case False
    then have "((i, opened), (i, opened)) \<in> skip_turns bs ^^ 0 \<and> (i, opened) \<notin> Domain (skip_turns bs) \<and>
        skip_loop bs (fst (i, opened)) (snd (i, opened)) = skip_loop bs i opened" by simp
    then show ?thesis by blast
  next
    case True
    then obtain i' opened' c rest where turn: "((i, opened), (i', c # rest)) \<in> skip_turns bs"
      and step: "skip_step bs i opened = Some (i', opened')" "close_full opened' = c # rest"
      by (auto simp: skip_turns_def)
    from "1.IH" [OF step(1) refl step(2)] obtain n s where
      s: "((i', c # rest), s) \<in> skip_turns bs ^^ n" "s \<notin> Domain (skip_turns bs)"
        "skip_loop bs (fst s) (snd s) = skip_loop bs i' (c # rest)" by blast
    have "skip_loop bs i opened = skip_loop bs i' (c # rest)"
      using step by (simp add: skip_loop.simps [of bs i opened])
    with relpow_Suc_I2 [OF turn s(1)] s(2,3) show ?thesis by metis
  qed
qed

lemma skip_loop_ends:
  "\<exists>n s. n \<le> length bs \<and> ((i, []), s) \<in> skip_turns bs ^^ n \<and> s \<notin> Domain (skip_turns bs) \<and>
     skip_loop bs (fst s) (snd s) = skip_item bs i"
proof -
  obtain n s where s: "((i, []), s) \<in> skip_turns bs ^^ n" "s \<notin> Domain (skip_turns bs)"
      "skip_loop bs (fst s) (snd s) = skip_item bs i"
    using skip_loop_reached [of i "[]" bs] by (auto simp: skip_item_def)
  moreover from skip_turns_advance [OF s(1)] have "n \<le> length bs" by (cases n) auto
  ultimately show ?thesis by blast
qed

end
