(* ===== verification/Walk_Driver.thy ===== *)
theory Walk_Driver
  imports Main
begin

text \<open>
  The driver of the schema walks (\<^verbatim>\<open>src/src/cbor/walk_driver.rs\<close>), which keeps the tasks of a
  recursive walk on a stack of its own. A task works on the walk's shared state \<open>'s\<close>; polled, it
  completes with a result or suspends with the task to run above it, to be resumed with what that
  one produces.
\<close>

datatype ('s, 'r) task = Task "'s \<Rightarrow> ('s, 'r) poll \<times> 's"
  and ('s, 'r) poll = Ready 'r | Pending "('s, 'r) task" "'r \<Rightarrow> ('s, 'r) task"

fun poll_task :: "('s, 'r) task \<Rightarrow> 's \<Rightarrow> ('s, 'r) poll \<times> 's" where
  "poll_task (Task f) s = f s"

text \<open>
  The loop of \<open>drive\<close>: the innermost task, and the suspended ones below it as what they resume
  with. A task may suspend for ever, so the value is \<open>None\<close> when the loop does not end.
\<close>

partial_function (option) drive ::
  "('s, 'r) task \<Rightarrow> ('r \<Rightarrow> ('s, 'r) task) list \<Rightarrow> 's \<Rightarrow> ('r \<times> 's) option" where
  "drive innermost tasks s =
     (case poll_task innermost s of
        (Ready r, s') \<Rightarrow>
          (case tasks of
             [] \<Rightarrow> Some (r, s')
           | resume # below \<Rightarrow> drive (resume r) below s')
      | (Pending inner resume, s') \<Rightarrow> drive inner (resume # tasks) s')"

definition run_root :: "('s, 'r) task \<Rightarrow> 's \<Rightarrow> ('r \<times> 's) option" where
  "run_root task s = drive task [] s"

text \<open>\<open>run_above\<close>: request the task, suspend, and go on with its result.\<close>

definition run_above :: "('s, 'r) task \<Rightarrow> ('r \<Rightarrow> ('s, 'r) task) \<Rightarrow> ('s, 'r) task" where
  "run_above task resume = Task (\<lambda>s. (Pending task resume, s))"

definition completed :: "'r \<Rightarrow> ('s, 'r) task" where
  "completed r = Task (\<lambda>s. (Ready r, s))"

subsection \<open>The driver is the recursion\<close>

text \<open>A task run by ordinary recursion: the one above to its end, then on with its result.\<close>

primrec run_task :: "('s, 'r) task \<Rightarrow> 's \<Rightarrow> 'r \<times> 's"
  and run_poll :: "('s, 'r) poll \<Rightarrow> 's \<Rightarrow> 'r \<times> 's" where
  "run_task (Task f) = (\<lambda>s. (\<lambda>(run, s'). run s') (map_prod run_poll id (f s)))"
| "run_poll (Ready r) = (\<lambda>s. (r, s))"
| "run_poll (Pending inner resume) =
     (\<lambda>s. (\<lambda>(r, s'). (\<lambda>x. run_task (resume x)) r s') (run_task inner s))"

lemma run_task_Ready: "poll_task t s = (Ready r, s') \<Longrightarrow> run_task t s = (r, s')"
  by (cases t) simp

lemma run_task_Pending:
  "poll_task t s = (Pending inner resume, s') \<Longrightarrow>
     run_task t s = (case run_task inner s' of (r, s'') \<Rightarrow> run_task (resume r) s'')"
  by (cases t) simp

lemma drive_Ready:
  "poll_task t s = (Ready r, s') \<Longrightarrow>
     drive t tasks s = (case tasks of [] \<Rightarrow> Some (r, s') | resume # below \<Rightarrow> drive (resume r) below s')"
  by (simp add: drive.simps [of t tasks s])

lemma drive_Pending:
  "poll_task t s = (Pending inner resume, s') \<Longrightarrow> drive t tasks s = drive inner (resume # tasks) s'"
  by (simp add: drive.simps [of t tasks s])

text \<open>One task on top of suspended ones is that task by itself, then the rest.\<close>

definition drives :: "('s, 'r) task \<Rightarrow> bool" where
  "drives t \<longleftrightarrow>
     (\<forall>tasks s. drive t tasks s =
        (case tasks of
           [] \<Rightarrow> Some (run_task t s)
         | resume # below \<Rightarrow>
             (case run_task t s of (r, s') \<Rightarrow> drive (resume r) below s')))"

definition poll_drives :: "('s, 'r) poll \<Rightarrow> bool" where
  "poll_drives p \<longleftrightarrow>
     (case p of Ready r \<Rightarrow> True | Pending inner resume \<Rightarrow> drives inner \<and> (\<forall>r. drives (resume r)))"

lemma drives_all:
  fixes t :: "('s, 'r) task" and p :: "('s, 'r) poll"
  shows "drives t" and "poll_drives p"
proof (induction t and p)
  case (Task f)
  show ?case
    unfolding drives_def
  proof (intro allI)
    fix tasks and s :: 's
    obtain q s' where poll: "f s = (q, s')" by fastforce
    have "(q, s') \<in> range f" using poll by (metis rangeI)
    then have q: "poll_drives q" using Task [of "(q, s')" q] by (simp add: prod_set_defs)
    show "drive (Task f) tasks s =
        (case tasks of
           [] \<Rightarrow> Some (run_task (Task f) s)
         | resume # below \<Rightarrow> (case run_task (Task f) s of (r, s') \<Rightarrow> drive (resume r) below s'))"
    proof (cases q)
      case (Ready r)
      with poll show ?thesis
        using drive_Ready [of "Task f" s r s' tasks] run_task_Ready [of "Task f" s r s']
        by (simp del: run_task.simps split: list.split)
    next
      case (Pending inner resume)
      with q have "drives inner" "\<And>r. drives (resume r)" by (simp_all add: poll_drives_def)
      with poll Pending drive_Pending [of "Task f" s inner resume s' tasks]
        run_task_Pending [of "Task f" s inner resume s'] show ?thesis
        by (simp add: drives_def del: run_task.simps split: prod.split list.split)
    qed
  qed
next
  case (Ready r)
  then show ?case by (simp add: poll_drives_def)
next
  case (Pending inner resume)
  then show ?case by (auto simp: poll_drives_def)
qed

theorem driver_is_recursion: "run_root t s = Some (run_task t s)"
  using drives_all(1) [of t] by (simp add: run_root_def drives_def)

end
