(* ===== verification/Json.thy ===== *)
theory Json
  imports Native_Script "HOL-Library.AList"
begin

text \<open>
  JSON values as \<^verbatim>\<open>serde_json\<close> holds them (objects keep the order their keys were inserted
  in) and the writer of \<^verbatim>\<open>src/src/deep_json.rs\<close>, which renders them with an explicit
  stack. A string is its UTF-8 bytes, each a character; a float is the bits of its binary64 form,
  and the text of one is a parameter.
\<close>

unbundle bit_operations_syntax

datatype json_number = PosInt u64 | NegInt "64 word" | FloatBits u64

datatype json =
    JNull
  | JBool bool
  | JNum json_number
  | JStr string
  | JArr "json list"
  | JObj "(string \<times> json) list"

text \<open>\<open>Map::insert\<close>: a key that is there keeps its place.\<close>

definition obj_insert :: "string \<Rightarrow> json \<Rightarrow> (string \<times> json) list \<Rightarrow> (string \<times> json) list" where
  "obj_insert = AList.update"

definition json_nat :: "nat \<Rightarrow> json" where
  "json_nat n = JNum (PosInt (of_nat n))"

subsection \<open>Scalars\<close>

definition MAX_SAFE_INTEGER :: nat where "MAX_SAFE_INTEGER = 9007199254740991"

definition NUMBER_TOKEN :: string where "NUMBER_TOKEN = ''$serde_json::private::Number''"

fun number_text :: "(u64 \<Rightarrow> string) \<Rightarrow> json_number \<Rightarrow> string" where
  "number_text show_float (PosInt n) = decimal (unat n)"
| "number_text show_float (NegInt n) = signed_decimal (sint n)"
| "number_text show_float (FloatBits f) = show_float f"

text \<open>\<open>Number::as_i64\<close>.\<close>

fun number_as_i64 :: "json_number \<Rightarrow> int option" where
  "number_as_i64 (PosInt n) = (if uint n \<le> 9223372036854775807 then Some (uint n) else None)"
| "number_as_i64 (NegInt n) = Some (sint n)"
| "number_as_i64 (FloatBits f) = None"

fun number_is_f64 :: "json_number \<Rightarrow> bool" where
  "number_is_f64 (FloatBits f) = True"
| "number_is_f64 n = False"

definition write_number :: "(u64 \<Rightarrow> string) \<Rightarrow> json_number \<Rightarrow> string" where
  "write_number show_float n =
     (let exact = (case number_as_i64 n of
                     Some i \<Rightarrow> \<bar>i\<bar> \<le> int MAX_SAFE_INTEGER
                   | None \<Rightarrow> number_is_f64 n)
      in if exact then number_text show_float n
         else ''{'' @ quote @ NUMBER_TOKEN @ quote @ '':'' @ quote @ number_text show_float n
              @ quote @ ''}'')"

text \<open>What \<open>write_string\<close> puts for one byte: the escape of a quote, a backslash or a control.\<close>

definition escape_byte :: "char \<Rightarrow> string" where
  "escape_byte c =
     (let n = of_char c :: nat; backslash = CHR 0x5C in
      if n = 0x22 then [backslash, CHR 0x22]
      else if n = 0x5C then [backslash, backslash]
      else if n = 8 then [backslash, CHR ''b'']
      else if n = 12 then [backslash, CHR ''f'']
      else if n = 10 then [backslash, CHR ''n'']
      else if n = 13 then [backslash, CHR ''r'']
      else if n = 9 then [backslash, CHR ''t'']
      else if n < 32 then backslash # ''u00'' @ [hex_digit (n div 16), hex_digit (n mod 16)]
      else [c])"

text \<open>
  The code copies the bytes between two escapes in one slice: \<open>pending\<close> is the slice
  \<open>s[start..i]\<close> not written yet.
\<close>

fun write_string_from :: "string \<Rightarrow> string \<Rightarrow> string \<Rightarrow> string" where
  "write_string_from out pending [] = out @ pending @ quote"
| "write_string_from out pending (c # cs) =
     (if escape_byte c = [c] then write_string_from out (pending @ [c]) cs
      else write_string_from (out @ pending @ escape_byte c) [] cs)"

definition write_string :: "string \<Rightarrow> string" where
  "write_string s = write_string_from quote [] s"

fun write_scalar :: "(u64 \<Rightarrow> string) \<Rightarrow> json \<Rightarrow> string" where
  "write_scalar show_float JNull = ''null''"
| "write_scalar show_float (JBool b) = (if b then ''true'' else ''false'')"
| "write_scalar show_float (JNum n) = write_number show_float n"
| "write_scalar show_float (JStr s) = write_string s"
| "write_scalar show_float v = []"

subsection \<open>The writer\<close>

text \<open>An open container: the items it has left, and whether the first one is still to come.\<close>

datatype json_frame = ArrayFrame "json list" bool | ObjectFrame "(string \<times> json) list" bool

fun json_weight :: "json \<Rightarrow> nat" where
  "json_weight (JArr items) = 2 + sum_list (map (\<lambda>v. Suc (json_weight v)) items)"
| "json_weight (JObj entries) = 2 + sum_list (map (\<lambda>(k, v). Suc (json_weight v)) entries)"
| "json_weight v = 1"

fun frame_weight :: "json_frame \<Rightarrow> nat" where
  "frame_weight (ArrayFrame items first) = 1 + sum_list (map (\<lambda>v. Suc (json_weight v)) items)"
| "frame_weight (ObjectFrame entries first) = 1 + sum_list (map (\<lambda>(k, v). Suc (json_weight v)) entries)"

definition comma :: "bool \<Rightarrow> string" where "comma first = (if first then [] else '','')"

function write_frames ::
  "(u64 \<Rightarrow> string) \<Rightarrow> string \<Rightarrow> json option \<Rightarrow> json_frame list \<Rightarrow> string" where
  "write_frames show_float out (Some (JArr items)) stack =
     write_frames show_float (out @ ''['') None (ArrayFrame items True # stack)"
| "write_frames show_float out (Some (JObj entries)) stack =
     write_frames show_float (out @ ''{'') None (ObjectFrame entries True # stack)"
| "write_frames show_float out (Some JNull) stack =
     write_frames show_float (out @ write_scalar show_float JNull) None stack"
| "write_frames show_float out (Some (JBool b)) stack =
     write_frames show_float (out @ write_scalar show_float (JBool b)) None stack"
| "write_frames show_float out (Some (JNum n)) stack =
     write_frames show_float (out @ write_scalar show_float (JNum n)) None stack"
| "write_frames show_float out (Some (JStr s)) stack =
     write_frames show_float (out @ write_scalar show_float (JStr s)) None stack"
| "write_frames show_float out None [] = out"
| "write_frames show_float out None (ArrayFrame [] first # stack) =
     write_frames show_float (out @ '']'') None stack"
| "write_frames show_float out None (ArrayFrame (v # vs) first # stack) =
     write_frames show_float (out @ comma first) (Some v) (ArrayFrame vs False # stack)"
| "write_frames show_float out None (ObjectFrame [] first # stack) =
     write_frames show_float (out @ ''}'') None stack"
| "write_frames show_float out None (ObjectFrame ((k, v) # es) first # stack) =
     write_frames show_float (out @ comma first @ write_string k @ '':'') (Some v)
       (ObjectFrame es False # stack)"
  by pat_completeness auto
termination
  by (relation "measure (\<lambda>(sf, out, next, stack).
      (case next of Some v \<Rightarrow> json_weight v | None \<Rightarrow> 0) + sum_list (map frame_weight stack))") auto

definition write_json :: "(u64 \<Rightarrow> string) \<Rightarrow> json \<Rightarrow> string" where
  "write_json show_float v = write_frames show_float [] (Some v) []"

subsection \<open>The writer is the recursive printer\<close>

fun join_commas :: "string list \<Rightarrow> string" where
  "join_commas [] = []"
| "join_commas [s] = s"
| "join_commas (s # ss) = s @ '','' @ join_commas ss"

fun json_text :: "(u64 \<Rightarrow> string) \<Rightarrow> json \<Rightarrow> string" where
  "json_text show_float (JArr items) = ''['' @ join_commas (map (json_text show_float) items) @ '']''"
| "json_text show_float (JObj entries) =
     ''{'' @ join_commas (map (\<lambda>(k, v). write_string k @ '':'' @ json_text show_float v) entries) @ ''}''"
| "json_text show_float v = write_scalar show_float v"

text \<open>What is still to be written when a container is open.\<close>

fun frame_text :: "(u64 \<Rightarrow> string) \<Rightarrow> json_frame \<Rightarrow> string" where
  "frame_text show_float (ArrayFrame items first) =
     concat (map (\<lambda>v. '','' @ json_text show_float v) items) @ '']''"
| "frame_text show_float (ObjectFrame entries first) =
     concat (map (\<lambda>(k, v). '','' @ write_string k @ '':'' @ json_text show_float v) entries) @ ''}''"

definition rest_text :: "(u64 \<Rightarrow> string) \<Rightarrow> json_frame \<Rightarrow> string" where
  "rest_text show_float f =
     (case f of
        ArrayFrame items first \<Rightarrow>
          (if first then join_commas (map (json_text show_float) items) @ '']''
           else frame_text show_float f)
      | ObjectFrame entries first \<Rightarrow>
          (if first then
             join_commas (map (\<lambda>(k, v). write_string k @ '':'' @ json_text show_float v) entries) @ ''}''
           else frame_text show_float f))"

lemma join_commas_Cons: "join_commas (s # ss) = s @ concat (map (\<lambda>s. '','' @ s) ss)"
  by (induction ss arbitrary: s) simp_all

lemma write_frames_text:
  "write_frames sf out next stack =
     out @ (case next of Some v \<Rightarrow> json_text sf v | None \<Rightarrow> []) @ concat (map (rest_text sf) stack)"
  by (induction sf out "next" stack rule: write_frames.induct)
    (simp_all add: rest_text_def comma_def join_commas_Cons comp_def case_prod_unfold)

lemma write_json_text: "write_json show_float v = json_text show_float v"
  by (simp add: write_json_def write_frames_text)

text \<open>A string is written escaped byte by byte, between quotes.\<close>

lemma write_string_from_escapes:
  "write_string_from out pending cs = out @ pending @ concat (map escape_byte cs) @ quote"
  by (induction out pending cs rule: write_string_from.induct) auto

lemma write_string_escapes: "write_string s = quote @ concat (map escape_byte s) @ quote"
  by (simp add: write_string_def write_string_from_escapes)

end
