(* ===== verification/Cbor_Decoder.thy ===== *)
theory Cbor_Decoder
  imports Json Cbor_Errors Budgets Std_Text "HOL-Library.List_Lexorder"
begin

text \<open>
  The decoder from CBOR to the positional JSON tree (\<^verbatim>\<open>src/src/cbor/decoder.rs\<close>), with
  the names of tags (\<^verbatim>\<open>src/src/cbor/tags.rs\<close>) and the errors of
  \<^verbatim>\<open>src/src/cbor/errors.rs\<close> it answers. The header and payload reader of the
  \<^verbatim>\<open>ciborium\<close> library is a parameter; a \<open>Vec\<close> used as a stack is a list with its
  top first. A binary64 float is its bits.
\<close>

unbundle bit_operations_syntax

subsection \<open>Positions\<close>

definition pos_value :: "nat \<Rightarrow> nat \<Rightarrow> json" where
  "pos_value start end = JObj [(''offset'', json_nat start), (''length'', json_nat (end - start))]"

subsection \<open>Oddities\<close>

datatype oddity_kind =
    IntNotShortest
  | FloatNotShortest
  | IndefiniteLength
  | MapKeysNotSorted
  | DuplicateMapKeys
  | BignumForSmallInt
  | BignumLeadingZeroes

fun oddity_kind_str :: "oddity_kind \<Rightarrow> string" where
  "oddity_kind_str IntNotShortest = ''IntNotShortest''"
| "oddity_kind_str FloatNotShortest = ''FloatNotShortest''"
| "oddity_kind_str IndefiniteLength = ''IndefiniteLength''"
| "oddity_kind_str MapKeysNotSorted = ''MapKeysNotSorted''"
| "oddity_kind_str DuplicateMapKeys = ''DuplicateMapKeys''"
| "oddity_kind_str BignumForSmallInt = ''BignumForSmallInt''"
| "oddity_kind_str BignumLeadingZeroes = ''BignumLeadingZeroes''"

type_synonym oddity = "oddity_kind \<times> string option"

definition oddity :: "oddity_kind \<Rightarrow> string \<Rightarrow> oddity" where
  "oddity kind detail = (kind, Some detail)"

definition oddity_value :: "oddity \<Rightarrow> json" where
  "oddity_value x =
     JObj ((''kind'', JStr (oddity_kind_str (fst x)))
       # (case snd x of Some d \<Rightarrow> [(''detail'', JStr d)] | None \<Rightarrow> []))"

definition attach_oddities :: "json \<Rightarrow> oddity list \<Rightarrow> json" where
  "attach_oddities v oddities =
     (if oddities = [] then v
      else case v of
             JObj obj \<Rightarrow> JObj (obj_insert ''oddities'' (JArr (map oddity_value oddities)) obj)
           | _ \<Rightarrow> v)"

definition shortest_arg_width :: "u64 \<Rightarrow> nat" where
  "shortest_arg_width v =
     (if v < 24 then 0 else if v < 2 ^ 8 then 1 else if v < 2 ^ 16 then 2 else if v < 2 ^ 32 then 4 else 8)"

definition int_not_shortest :: "u64 \<Rightarrow> nat \<Rightarrow> bool \<Rightarrow> oddity option" where
  "int_not_shortest v header_len is_negative =
     (let shortest_len = 1 + shortest_arg_width v in
      if header_len \<le> shortest_len then None
      else
        let value_repr = (if is_negative then signed_decimal (- uint v - 1) else decimal (unat v))
        in Some (oddity IntNotShortest
             (''value '' @ value_repr @ '' uses '' @ decimal header_len @ ''-byte header, shortest is ''
               @ decimal shortest_len)))"

subsection \<open>Floats\<close>

definition f64_exp :: "u64 \<Rightarrow> int" where
  "f64_exp bits = uint (drop_bit 52 bits AND 0x7ff)"

definition f64_mant :: "u64 \<Rightarrow> u64" where
  "f64_mant bits = bits AND 0xfffffffffffff"

definition f64_is_nan :: "u64 \<Rightarrow> bool" where
  "f64_is_nan bits \<longleftrightarrow> f64_exp bits = 0x7ff \<and> f64_mant bits \<noteq> 0"

definition f64_is_finite :: "u64 \<Rightarrow> bool" where
  "f64_is_finite bits \<longleftrightarrow> f64_exp bits \<noteq> 0x7ff"

text \<open>
  \<open>v as f32\<close> when the cast loses nothing, as the sign, exponent and mantissa of the binary32
  form: this is what \<open>(v as f32) as f64 == v\<close> tests. A binary64 subnormal is too small
  for any binary32 form but zero.
\<close>

definition exact_f32 :: "u64 \<Rightarrow> (int \<times> u64) option" where
  "exact_f32 bits =
     (let e = f64_exp bits; m = f64_mant bits in
      if e = 0x7ff then (if m = 0 then Some (0xff, 0) else None)
      else if e = 0 then (if m = 0 then Some (0, 0) else None)
      else
        let x = e - 1023 in
        if 127 < x then None
        else if - 126 \<le> x then
          (if m AND 0x1fffffff = 0 then Some (x + 127, drop_bit 29 m) else None)
        else if x < - 149 then None
        else
          let shift = nat (- 126 - x); full = push_bit 52 1 OR m
          in if take_bit (29 + shift) full = 0 then Some (0, drop_bit (29 + shift) full) else None)"

definition f64_fits_f16_exactly :: "u64 \<Rightarrow> bool" where
  "f64_fits_f16_exactly bits =
     (case exact_f32 bits of
        None \<Rightarrow> False
      | Some (exp, mant) \<Rightarrow>
          if exp = 0 \<and> mant = 0 then True
          else if exp = 0xff then mant = 0
          else
            let e = exp - 127 in
            if 15 < e then False
            else if - 14 \<le> e then mant AND 0x1fff = 0
            else if e < - 24 then False
            else
              let full_mant = push_bit 23 1 OR mant;
                  extra_shift = nat (- 14 - e);
                  total_low_bits = 13 + extra_shift
              in full_mant AND (push_bit total_low_bits 1 - 1) = 0)"

definition shortest_float_len :: "u64 \<Rightarrow> nat" where
  "shortest_float_len bits =
     (if f64_is_nan bits \<or> \<not> f64_is_finite bits then 9
      else if f64_fits_f16_exactly bits then 3
      else if exact_f32 bits \<noteq> None then 5
      else 9)"

definition float_not_shortest :: "(u64 \<Rightarrow> string) \<Rightarrow> u64 \<Rightarrow> nat \<Rightarrow> oddity option" where
  "float_not_shortest show_float bits header_len =
     (if f64_is_nan bits then None
      else
        let shortest = shortest_float_len bits in
        if header_len \<le> shortest then None
        else Some (oddity FloatNotShortest
          (''value '' @ show_float bits @ '' uses '' @ decimal header_len
            @ ''-byte encoding, shortest is '' @ decimal shortest)))"

subsection \<open>Tags\<close>

definition NAMED_TAGS :: "(u64 \<times> string) list" where
  "NAMED_TAGS =
     [(0, ''DateTime''), (1, ''Timestamp''), (2, ''PosBignum''), (3, ''NegBignum''), (4, ''Decimal''),
      (5, ''Bigfloat''), (21, ''ToBase64Url''), (22, ''ToBase64''), (23, ''ToBase16''), (24, ''Cbor''),
      (32, ''Uri''), (33, ''Base64Url''), (34, ''Base64''), (35, ''Regex''), (36, ''Mime'')]"

definition UNASSIGNED_PREFIX :: string where "UNASSIGNED_PREFIX = ''Unassigned(''"
definition UNASSIGNED_SUFFIX :: string where "UNASSIGNED_SUFFIX = '')''"

definition tag_name :: "u64 \<Rightarrow> string" where
  "tag_name tag =
     (case find (\<lambda>(n, _). n = tag) NAMED_TAGS of
        Some (n, name) \<Rightarrow> name
      | None \<Rightarrow> UNASSIGNED_PREFIX @ decimal (unat tag) @ UNASSIGNED_SUFFIX)"


definition tag_number :: "string \<Rightarrow> u64 option" where
  "tag_number name =
     (case find (\<lambda>(tag, n). n = name) NAMED_TAGS of
        Some (tag, n) \<Rightarrow> Some tag
      | None \<Rightarrow>
          if take (length UNASSIGNED_PREFIX) name = UNASSIGNED_PREFIX then
            let rest = drop (length UNASSIGNED_PREFIX) name in
            if rest \<noteq> [] \<and> [last rest] = UNASSIGNED_SUFFIX then
              parse_u64 (butlast rest)
            else None
          else None)"

subsection \<open>The errors\<close>

text \<open>An error with the tree decoded so far. The path of the walk has its innermost segment first.\<close>

type_synonym failure = "decode_error \<times> json option"

definition new_error ::
  "error_kind \<Rightarrow> path_seg list \<Rightarrow> nat option \<Rightarrow> (nat \<times> nat) option \<Rightarrow> string \<Rightarrow> decode_error" where
  "new_error kind path offset span message =
     \<lparr>de_kind = kind, de_offset = offset, de_byte_span = span, de_path = render_path (rev path),
      de_message = message\<rparr>"

definition invalid_hex :: "string \<Rightarrow> decode_error" where
  "invalid_hex reason = new_error InvalidHex [] None None (''invalid CBOR hex: '' @ reason)"

definition invalid_syntax :: "path_seg list \<Rightarrow> nat \<Rightarrow> decode_error" where
  "invalid_syntax path offset =
     new_error InvalidSyntax path (Some offset) None (''invalid CBOR syntax at offset '' @ decimal offset)"

definition unexpected_eof :: "path_seg list \<Rightarrow> nat \<Rightarrow> decode_error" where
  "unexpected_eof path offset =
     new_error UnexpectedEof path (Some offset) None
       (''unexpected end of CBOR input at offset '' @ decimal offset)"

definition unexpected_break :: "path_seg list \<Rightarrow> nat \<Rightarrow> decode_error" where
  "unexpected_break path offset =
     new_error UnexpectedBreak path (Some offset) (Some (offset, 1))
       (''unexpected CBOR break at offset '' @ decimal offset)"

definition trailing_data :: "nat \<Rightarrow> nat \<Rightarrow> decode_error" where
  "trailing_data offset bytes_left =
     new_error TrailingData [] (Some offset) (Some (offset, bytes_left))
       (''trailing CBOR data at offset '' @ decimal offset @ '' ('' @ decimal bytes_left @ '' byte(s) left)'')"

definition invalid_utf8 :: "path_seg list \<Rightarrow> nat \<Rightarrow> nat \<Rightarrow> decode_error" where
  "invalid_utf8 path offset len =
     new_error InvalidUtf8 path (Some offset) (Some (offset, len))
       (''invalid UTF-8 text string at offset '' @ decimal offset)"

definition invalid_chunk :: "path_seg list \<Rightarrow> nat \<Rightarrow> string \<Rightarrow> decode_error" where
  "invalid_chunk path offset container =
     new_error InvalidChunk path (Some offset) None
       (''invalid '' @ container @ '' chunk at offset '' @ decimal offset)"

definition int_not_representable :: "path_seg list \<Rightarrow> nat \<Rightarrow> int \<Rightarrow> decode_error" where
  "int_not_representable path offset v =
     new_error IntNotRepresentable path (Some offset) None
       (''cannot represent CBOR negative integer '' @ signed_decimal v @ '' as JSON number'')"

definition nesting_too_deep :: "path_seg list \<Rightarrow> nat \<Rightarrow> nat \<Rightarrow> decode_error" where
  "nesting_too_deep path offset limit =
     new_error NestingTooDeep path (Some offset) (Some (offset, 1)) (nesting_depth_message limit)"

definition non_finite_float :: "path_seg list \<Rightarrow> nat \<Rightarrow> decode_error" where
  "non_finite_float path offset =
     new_error NonFiniteFloat path (Some offset) None ''cannot encode non-finite CBOR float as JSON number''"

definition io_failure :: "path_seg list \<Rightarrow> nat option \<Rightarrow> string \<Rightarrow> decode_error" where
  "io_failure path offset reason = new_error Io path offset None (''CBOR read error: '' @ reason)"

definition error_to_json :: "decode_error \<Rightarrow> json" where
  "error_to_json e =
     JObj
       ([(''kind'', JStr (error_kind_str (de_kind e))), (''message'', JStr (de_message e)),
         (''path'', JStr (de_path e))]
        @ (case de_offset e of Some offset \<Rightarrow> [(''offset'', json_nat offset)] | None \<Rightarrow> [])
        @ (case de_byte_span e of
             Some (offset, len) \<Rightarrow>
               [(''byte_span'', JObj [(''offset'', json_nat offset), (''length'', json_nat len)])]
           | None \<Rightarrow> []))"

subsection \<open>The reader\<close>

datatype cbor_header =
    HPositive u64
  | HNegative u64
  | HFloat u64
  | HSimple u8
  | HTag u64
  | HBreak
  | HBytes "nat option"
  | HText "nat option"
  | HArray "nat option"
  | HMap "nat option"

datatype io_error = EndOfInput | OtherIo string

datatype pull_error = SyntaxError nat | IoError io_error

text \<open>
  The reader answers with the offset it stands at afterwards, which an error leaves somewhere in
  the input. The text of a float and the hex decoder are parameters as well.
\<close>

record cbor_reader =
  cr_pull :: "bytes \<Rightarrow> nat \<Rightarrow> (pull_error + cbor_header) \<times> nat"
  cr_read :: "bytes \<Rightarrow> nat \<Rightarrow> nat \<Rightarrow> (io_error + bytes) \<times> nat"
  cr_show_float :: "u64 \<Rightarrow> string"
  cr_hex_decode :: "string \<Rightarrow> string + bytes"

fun map_cbor_error :: "pull_error \<Rightarrow> nat \<Rightarrow> path_seg list \<Rightarrow> decode_error" where
  "map_cbor_error (SyntaxError offset) start path = invalid_syntax path offset"
| "map_cbor_error (IoError EndOfInput) start path = unexpected_eof path start"
| "map_cbor_error (IoError (OtherIo reason)) start path = io_failure path (Some start) reason"

definition pull_header ::
  "cbor_reader \<Rightarrow> bytes \<Rightarrow> path_seg list \<Rightarrow> nat \<Rightarrow> (decode_error + cbor_header) \<times> nat" where
  "pull_header rd bs path offset =
     (case cr_pull rd bs offset of
        (Inl e, offset') \<Rightarrow> (Inl (map_cbor_error e offset path), offset')
      | (Inr h, offset') \<Rightarrow> (Inr h, offset'))"

definition READ_CHUNK :: nat where "READ_CHUNK = 65536"

text \<open>\<open>remaining\<close> is \<open>len - buf.len()\<close>.\<close>

function read_chunks ::
  "cbor_reader \<Rightarrow> bytes \<Rightarrow> path_seg list \<Rightarrow> nat \<Rightarrow> nat \<Rightarrow> nat \<Rightarrow> bytes \<Rightarrow>
     (decode_error + bytes) \<times> nat" where
  "read_chunks rd bs path before remaining offset buf =
     (if remaining = 0 then (Inr buf, offset)
      else
        let step = min remaining READ_CHUNK in
        (case cr_read rd bs offset step of
           (Inl EndOfInput, offset') \<Rightarrow> (Inl (unexpected_eof path before), offset')
         | (Inl (OtherIo reason), offset') \<Rightarrow> (Inl (io_failure path (Some before) reason), offset')
         | (Inr part, offset') \<Rightarrow>
             read_chunks rd bs path before (remaining - step) offset' (buf @ part)))"
  by pat_completeness auto
termination
  by (relation "measure (\<lambda>(rd, bs, path, before, remaining, offset, buf). remaining)")
    (auto simp: READ_CHUNK_def)

declare read_chunks.simps [simp del]

definition read_exact ::
  "cbor_reader \<Rightarrow> bytes \<Rightarrow> path_seg list \<Rightarrow> nat \<Rightarrow> nat \<Rightarrow> (decode_error + bytes) \<times> nat" where
  "read_exact rd bs path len offset = read_chunks rd bs path offset len offset []"

end
