(* ===== verification/Decoder_Nodes.thy ===== *)
theory Decoder_Nodes
  imports Cbor_Decoder
begin

text \<open>
  The nodes of the positional tree (\<^verbatim>\<open>src/src/cbor/decoder.rs\<close>): tokens, containers,
  tags and their partial forms, with the oddities each is checked for.
\<close>

unbundle bit_operations_syntax

subsection \<open>Tokens and containers\<close>

definition simple_token :: "string \<Rightarrow> json \<Rightarrow> nat \<Rightarrow> nat \<Rightarrow> json" where
  "simple_token type_name v start end =
     JObj [(''type'', JStr type_name), (''position_info'', pos_value start end), (''value'', v)]"

definition container_object ::
  "string \<Rightarrow> nat \<Rightarrow> nat \<Rightarrow> nat \<Rightarrow> nat option \<Rightarrow> json list \<Rightarrow> (string \<times> json) list" where
  "container_object type_name start header_end end len values =
     [(''type'', JStr type_name), (''position_info'', pos_value start header_end),
      (''struct_position_info'', pos_value start end),
      (''items'', case len of Some n \<Rightarrow> json_nat n | None \<Rightarrow> JStr ''Indefinite''),
      (''values'', JArr values)]"

definition mark_incomplete :: "(string \<times> json) list \<Rightarrow> json" where
  "mark_incomplete obj = JObj (obj_insert ''incomplete'' (JBool True) obj)"

definition partial_array :: "nat \<Rightarrow> nat \<Rightarrow> nat \<Rightarrow> json list \<Rightarrow> nat option \<Rightarrow> json" where
  "partial_array start header_end end values len =
     mark_incomplete (container_object ''Array'' start header_end end len values)"

definition partial_map :: "nat \<Rightarrow> nat \<Rightarrow> nat \<Rightarrow> json list \<Rightarrow> nat option \<Rightarrow> json" where
  "partial_map start header_end end entries len =
     mark_incomplete (container_object ''Map'' start header_end end len entries)"

definition tag_object :: "nat \<Rightarrow> nat \<Rightarrow> nat \<Rightarrow> u64 \<Rightarrow> (string \<times> json) list" where
  "tag_object start header_end end tag =
     [(''type'', JStr ''Tag''), (''position_info'', pos_value start header_end),
      (''struct_position_info'', pos_value start end), (''tag'', JStr (tag_name tag))]"

definition partial_tag :: "nat \<Rightarrow> nat \<Rightarrow> nat \<Rightarrow> u64 \<Rightarrow> json option \<Rightarrow> json" where
  "partial_tag start header_end end tag inner =
     mark_incomplete
       (case inner of
          Some v \<Rightarrow> obj_insert ''value'' v (tag_object start header_end end tag)
        | None \<Rightarrow> tag_object start header_end end tag)"

definition partial_map_entry :: "json option \<Rightarrow> json option \<Rightarrow> side \<Rightarrow> json" where
  "partial_map_entry key v failing_side =
     JObj
       ((case key of Some k \<Rightarrow> [(''key'', k)] | None \<Rightarrow> [])
        @ (case v of Some v \<Rightarrow> [(''value'', v)] | None \<Rightarrow> [])
        @ [(''incomplete_at'', JStr (case failing_side of Key \<Rightarrow> ''key'' | Value \<Rightarrow> ''value'')),
           (''incomplete'', JBool True)])"

definition map_entry :: "json \<Rightarrow> json \<Rightarrow> json" where
  "map_entry key v = JObj [(''key'', key), (''value'', v)]"

definition array_value :: "nat \<Rightarrow> nat \<Rightarrow> nat \<Rightarrow> json list \<Rightarrow> nat option \<Rightarrow> json" where
  "array_value start header_end end values len =
     attach_oddities (JObj (container_object ''Array'' start header_end end len values))
       (if len = None then [oddity IndefiniteLength ''indefinite-length array''] else [])"

definition span_bytes :: "bytes \<Rightarrow> nat \<times> nat \<Rightarrow> bytes" where
  "span_bytes bs span = take (snd span - fst span) (drop (fst span) bs)"

fun map_keys_not_sorted_detail :: "bytes \<Rightarrow> (nat \<times> nat) list \<Rightarrow> string option" where
  "map_keys_not_sorted_detail bs (a # b # spans) =
     (if span_bytes bs b < span_bytes bs a
      then Some (''key at offset '' @ decimal (fst a) @ '' sorts after key at offset '' @ decimal (fst b))
      else map_keys_not_sorted_detail bs (b # spans))"
| "map_keys_not_sorted_detail bs spans = None"

fun duplicate_map_keys_detail :: "bytes \<Rightarrow> (nat \<times> nat) list \<Rightarrow> string option" where
  "duplicate_map_keys_detail bs [] = None"
| "duplicate_map_keys_detail bs (a # spans) =
     (case find (\<lambda>b. span_bytes bs a = span_bytes bs b) spans of
        Some b \<Rightarrow> Some (''duplicate key at offsets '' @ decimal (fst a) @ '' and '' @ decimal (fst b))
      | None \<Rightarrow> duplicate_map_keys_detail bs spans)"

definition map_value ::
  "bytes \<Rightarrow> nat \<Rightarrow> nat \<Rightarrow> nat \<Rightarrow> json list \<Rightarrow> (nat \<times> nat) list \<Rightarrow> nat option \<Rightarrow> json" where
  "map_value bs start header_end end entries key_spans len =
     attach_oddities (JObj (container_object ''Map'' start header_end end len entries))
       ((if len = None then [oddity IndefiniteLength ''indefinite-length map''] else [])
        @ (case map_keys_not_sorted_detail bs key_spans of
             Some d \<Rightarrow> [oddity MapKeysNotSorted d] | None \<Rightarrow> [])
        @ (case duplicate_map_keys_detail bs key_spans of
             Some d \<Rightarrow> [oddity DuplicateMapKeys d] | None \<Rightarrow> []))"

subsection \<open>Tags\<close>

definition leading_zero_count :: "bytes \<Rightarrow> nat" where
  "leading_zero_count raw = length (takeWhile (\<lambda>b. b = 0) raw)"

definition fits_native_cbor_int :: "u64 \<Rightarrow> bytes \<Rightarrow> bool" where
  "fits_native_cbor_int tag raw =
     (let trimmed = dropWhile (\<lambda>b. b = 0) raw in
      if 8 < length trimmed then False
      else
        let magnitude = foldl (\<lambda>m b. push_bit 8 m OR ucast b) (0 :: u64) trimmed in
        if tag = 2 then True else if tag = 3 then magnitude < - 1 else False)"

text \<open>\<open>Value::get\<close> and \<open>Value::as_str\<close>.\<close>

definition json_get :: "json \<Rightarrow> string \<Rightarrow> json option" where
  "json_get v key = (case v of JObj obj \<Rightarrow> map_of obj key | _ \<Rightarrow> None)"

definition json_as_str :: "json \<Rightarrow> string option" where
  "json_as_str v = (case v of JStr s \<Rightarrow> Some s | _ \<Rightarrow> None)"

definition bignum_oddities :: "cbor_reader \<Rightarrow> u64 \<Rightarrow> json \<Rightarrow> oddity list" where
  "bignum_oddities rd tag inner =
     (if tag \<noteq> 2 \<and> tag \<noteq> 3 then []
      else if Option.bind (json_get inner ''type'') json_as_str \<noteq> Some ''Bytes'' then []
      else
        (case Option.bind (json_get inner ''value'') json_as_str of
           None \<Rightarrow> []
         | Some hex \<Rightarrow>
             (case cr_hex_decode rd hex of
                Inl e \<Rightarrow> []
              | Inr raw \<Rightarrow>
                  (case raw of
                     b # rest \<Rightarrow>
                       if b = 0 then
                         [oddity BignumLeadingZeroes
                           (''bignum byte string starts with '' @ decimal (leading_zero_count raw)
                             @ '' zero byte(s)'')]
                       else []
                   | [] \<Rightarrow> [])
                  @ (if fits_native_cbor_int tag raw then
                       [oddity BignumForSmallInt
                         ((if tag = 2 then ''unsigned'' else ''negative'')
                           @ '' bignum fits in a native CBOR integer ('' @ decimal (length raw)
                           @ '' content bytes)'')]
                     else []))))"

definition tag_value :: "cbor_reader \<Rightarrow> nat \<Rightarrow> nat \<Rightarrow> nat \<Rightarrow> u64 \<Rightarrow> json \<Rightarrow> json" where
  "tag_value rd start header_end end tag inner =
     attach_oddities (JObj (obj_insert ''value'' inner (tag_object start header_end end tag)))
       (bignum_oddities rd tag inner)"

subsection \<open>Scalars\<close>

definition positive_type_name :: "nat \<Rightarrow> string" where
  "positive_type_name width =
     (if width = 1 \<or> width = 2 then ''U8'' else if width = 3 then ''U16''
      else if width = 5 then ''U32'' else ''U64'')"

definition negative_type_name :: "nat \<Rightarrow> int \<Rightarrow> string" where
  "negative_type_name width v =
     (if (width = 1 \<or> width = 2) \<and> - 128 \<le> v then ''I8''
      else if width = 3 \<and> - 32768 \<le> v then ''I16''
      else if width = 5 \<and> - 2147483648 \<le> v then ''I32''
      else if width = 9 \<and> - 9223372036854775808 \<le> v then ''I64''
      else ''Int'')"

definition float_type_name :: "nat \<Rightarrow> string" where
  "float_type_name width = (if width = 3 then ''F16'' else if width = 5 then ''F32'' else ''F64'')"

text \<open>\<open>Number::from_i128\<close>.\<close>

definition number_from_i128 :: "int \<Rightarrow> json_number option" where
  "number_from_i128 i =
     (if 0 \<le> i \<and> i \<le> int u64_max then Some (PosInt (of_int i))
      else if - 9223372036854775808 \<le> i \<and> i < 0 then Some (NegInt (of_int i))
      else None)"

definition negative_value :: "u64 \<Rightarrow> nat \<Rightarrow> nat \<Rightarrow> path_seg list \<Rightarrow> decode_error + json" where
  "negative_value v start end path =
     (let signed = - uint v - 1;
          type_name = negative_type_name (end - start) signed
      in if - 9223372036854775808 \<le> signed
         then Inr (simple_token type_name (JNum (NegInt (of_int signed))) start end)
         else
           (case number_from_i128 signed of
              Some n \<Rightarrow> Inr (simple_token type_name (JNum n) start end)
            | None \<Rightarrow> Inl (int_not_representable path start signed)))"

definition number_from_f64 :: "u64 \<Rightarrow> nat \<Rightarrow> path_seg list \<Rightarrow> decode_error + json" where
  "number_from_f64 f offset path =
     (if f64_is_finite f then Inr (JNum (FloatBits f)) else Inl (non_finite_float path offset))"

definition option_list :: "'a option \<Rightarrow> 'a list" where
  "option_list x = (case x of Some a \<Rightarrow> [a] | None \<Rightarrow> [])"

subsection \<open>Chunked strings\<close>

datatype chunk_kind = ByteChunks | TextChunks

fun chunked_type_name :: "chunk_kind \<Rightarrow> string" where
  "chunked_type_name ByteChunks = ''IndefiniteLengthBytes''"
| "chunked_type_name TextChunks = ''IndefiniteLengthString''"

fun chunk_type :: "chunk_kind \<Rightarrow> string" where
  "chunk_type ByteChunks = ''Bytes''"
| "chunk_type TextChunks = ''String''"

fun chunk_oddity_detail :: "chunk_kind \<Rightarrow> string" where
  "chunk_oddity_detail ByteChunks = ''indefinite-length byte string''"
| "chunk_oddity_detail TextChunks = ''indefinite-length text string''"

definition chunks_object :: "nat \<Rightarrow> nat \<Rightarrow> nat \<Rightarrow> json list \<Rightarrow> chunk_kind \<Rightarrow> (string \<times> json) list" where
  "chunks_object start header_end chunks_end chunks kind =
     [(''type'', JStr (chunked_type_name kind)), (''position_info'', pos_value start header_end),
      (''struct_position_info'', pos_value start chunks_end), (''chunks'', JArr chunks)]"

definition partial_chunks :: "nat \<Rightarrow> nat \<Rightarrow> nat \<Rightarrow> json list \<Rightarrow> chunk_kind \<Rightarrow> json" where
  "partial_chunks start header_end chunks_end chunks kind =
     mark_incomplete (chunks_object start header_end chunks_end chunks kind)"

definition break_token :: "nat \<Rightarrow> nat \<Rightarrow> json" where
  "break_token start end = simple_token ''Break'' JNull start end"

text \<open>The payload of one chunk whose header has been read: its token, or the error.\<close>

definition read_chunk ::
  "cbor_reader \<Rightarrow> bytes \<Rightarrow> chunk_kind \<Rightarrow> path_seg list \<Rightarrow> nat \<Rightarrow> nat \<Rightarrow> nat \<Rightarrow>
     (decode_error + json) \<times> nat" where
  "read_chunk rd bs kind path chunk_start len offset =
     (case read_exact rd bs path len offset of
        (Inl e, end) \<Rightarrow> (Inl e, end)
      | (Inr body, end) \<Rightarrow>
          ((case kind of
              ByteChunks \<Rightarrow> Inr (simple_token (chunk_type kind) (JStr (hex_encode body)) chunk_start end)
            | TextChunks \<Rightarrow>
                if valid_utf8 body
                then Inr (simple_token (chunk_type kind) (JStr (text_of body)) chunk_start end)
                else Inl (invalid_utf8 path chunk_start (end - chunk_start))), end))"

text \<open>One turn of the loop over the chunks: an error, the break that ends it, or a chunk.\<close>

datatype chunk_turn = ChunkError decode_error | LastChunk json | NextChunk json

definition chunk_turn ::
  "cbor_reader \<Rightarrow> bytes \<Rightarrow> chunk_kind \<Rightarrow> path_seg list \<Rightarrow> nat \<Rightarrow> chunk_turn \<times> nat" where
  "chunk_turn rd bs kind path offset =
     (case pull_header rd bs path offset of
        (Inl e, offset') \<Rightarrow> (ChunkError e, offset')
      | (Inr h, offset') \<Rightarrow>
          let chunk = (\<lambda>len.
                case read_chunk rd bs kind path offset len offset' of
                  (Inl e, end) \<Rightarrow> (ChunkError e, end)
                | (Inr token, end) \<Rightarrow> (NextChunk token, end));
              wrong = (ChunkError (invalid_chunk path offset
                (case kind of ByteChunks \<Rightarrow> ''bytes'' | TextChunks \<Rightarrow> ''text'')), offset')
          in case h of
               HBreak \<Rightarrow> (LastChunk (break_token offset offset'), offset')
             | HBytes (Some len) \<Rightarrow> if kind = ByteChunks then chunk len else wrong
             | HText (Some len) \<Rightarrow> if kind = TextChunks then chunk len else wrong
             | _ \<Rightarrow> wrong)"

text \<open>
  The loop of \<open>decode_indefinite_chunks\<close>. Whether it ends depends on the reader, so its value
  is \<open>None\<close> when it does not; the tree of the chunks so far goes with an error.
\<close>

partial_function (option) chunk_loop ::
  "cbor_reader \<Rightarrow> bytes \<Rightarrow> chunk_kind \<Rightarrow> path_seg list \<Rightarrow> nat \<Rightarrow> nat \<Rightarrow> json list \<Rightarrow> nat \<Rightarrow> nat \<Rightarrow>
     ((failure + json list) \<times> nat) option" where
  "chunk_loop rd bs kind path start header_end chunks idx offset =
     (case chunk_turn rd bs kind (Chunk idx # path) offset of
        (ChunkError e, offset') \<Rightarrow>
          Some (Inl (e, Some (partial_chunks start header_end offset' chunks kind)), offset')
      | (LastChunk token, offset') \<Rightarrow> Some (Inr (chunks @ [token]), offset')
      | (NextChunk token, offset') \<Rightarrow>
          chunk_loop rd bs kind path start header_end (chunks @ [token]) (idx + 1) offset')"

definition decode_indefinite_chunks ::
  "cbor_reader \<Rightarrow> bytes \<Rightarrow> nat \<Rightarrow> chunk_kind \<Rightarrow> path_seg list \<Rightarrow> nat \<Rightarrow>
     ((failure + json) \<times> nat) option" where
  "decode_indefinite_chunks rd bs start kind path header_end =
     map_option (\<lambda>(r, end).
         (case r of
            Inl e \<Rightarrow> Inl e
          | Inr chunks \<Rightarrow>
              Inr (attach_oddities (JObj (chunks_object start header_end end chunks kind))
                [oddity IndefiniteLength (chunk_oddity_detail kind)]), end))
       (chunk_loop rd bs kind path start header_end [] 0 header_end)"

end
