(* ===== verification/Decoder_Loop.thy ===== *)
theory Decoder_Loop
  imports Decoder_Nodes
begin

text \<open>
  The loop of the decoder (\<open>decode_item\<close> of \<^verbatim>\<open>src/src/cbor/decoder.rs\<close>): one
  header per turn, the open containers on a stack, each completed item attached to its parent. The
  path has the segment of the innermost item first.
\<close>

subsection \<open>Open containers\<close>

datatype container_frame =
    OpenArray nat nat "nat option" "json list"
  | OpenMap nat nat "nat option" "json list" "(nat \<times> nat) list" nat "(json \<times> nat) option"
  | OpenTag nat nat u64

type_synonym path = "path_seg list"

text \<open>\<open>consume_break\<close> looks at the byte and only then pulls; the answer is the span of the break.\<close>

definition consume_break ::
  "cbor_reader \<Rightarrow> bytes \<Rightarrow> path \<Rightarrow> nat \<Rightarrow> (decode_error + (nat \<times> nat) option) \<times> nat" where
  "consume_break rd bs path offset =
     (case nth_opt bs offset of
        Some b \<Rightarrow>
          if b = 0xff then
            (case pull_header rd bs path offset of
               (Inl e, offset') \<Rightarrow> (Inl e, offset')
             | (Inr h, offset') \<Rightarrow> (Inr (Some (offset, offset')), offset'))
          else (Inr None, offset)
      | None \<Rightarrow>
          (case pull_header rd bs path offset of
             (Inl e, offset') \<Rightarrow> (Inl e, offset')
           | (Inr h, offset') \<Rightarrow> (Inr None, offset')))"

text \<open>The index of the next item of a container, its items (with the break it ends in), the offset.\<close>

definition next_index ::
  "cbor_reader \<Rightarrow> bytes \<Rightarrow> path \<Rightarrow> nat option \<Rightarrow> json list \<Rightarrow> nat \<Rightarrow>
     (decode_error + nat option \<times> json list) \<times> nat" where
  "next_index rd bs path len items offset =
     (let next = length items in
      case len of
        Some n \<Rightarrow> (Inr (if next < n then Some next else None, items), offset)
      | None \<Rightarrow>
          (case consume_break rd bs path offset of
             (Inl e, offset') \<Rightarrow> (Inl e, offset')
           | (Inr (Some (start, end)), offset') \<Rightarrow> (Inr (None, items @ [break_token start end]), offset')
           | (Inr None, offset') \<Rightarrow> (Inr (Some next, items), offset')))"

text \<open>
  A container steps on to its next item, whose segment goes on the path, or is complete. An error
  leaves the frame as it was.
\<close>

datatype advanced = Advance container_frame path | Complete json

definition advance ::
  "cbor_reader \<Rightarrow> bytes \<Rightarrow> container_frame \<Rightarrow> path \<Rightarrow> nat \<Rightarrow> (decode_error + advanced) \<times> nat" where
  "advance rd bs frame path offset =
     (case frame of
        OpenArray start header_end len values \<Rightarrow>
          (case next_index rd bs path len values offset of
             (Inl e, offset') \<Rightarrow> (Inl e, offset')
           | (Inr (Some i, values'), offset') \<Rightarrow>
               (Inr (Advance (OpenArray start header_end len values') (ArrayIdx i # path)), offset')
           | (Inr (None, values'), offset') \<Rightarrow>
               (Inr (Complete (array_value start header_end offset' values' len)), offset'))
      | OpenMap start header_end len entries key_spans key_start key \<Rightarrow>
          (case next_index rd bs path len entries offset of
             (Inl e, offset') \<Rightarrow> (Inl e, offset')
           | (Inr (Some i, entries'), offset') \<Rightarrow>
               (Inr (Advance (OpenMap start header_end len entries' key_spans offset' key)
                  (MapEntry i Key # path)), offset')
           | (Inr (None, entries'), offset') \<Rightarrow>
               (Inr (Complete (map_value bs start header_end offset' entries' key_spans len)), offset'))
      | OpenTag start header_end tag \<Rightarrow> (Inr (Advance frame (TagInner # path)), offset))"

text \<open>
  The open containers folded into the tree of an error, innermost first: \<open>level\<close> is how many
  containers are around the one folded.
\<close>

fun unwind_frames :: "json option \<Rightarrow> container_frame list \<Rightarrow> path \<Rightarrow> nat \<Rightarrow> json option" where
  "unwind_frames partial [] path end = partial"
| "unwind_frames partial (frame # rest) path end =
     (let level = length rest in
      unwind_frames
        (Some
          (case frame of
             OpenArray start header_end len values \<Rightarrow>
               partial_array start header_end end (values @ option_list partial) len
           | OpenMap start header_end len entries key_spans key_start key \<Rightarrow>
               partial_map start header_end end
                 (case key of
                    Some (k, key_end) \<Rightarrow> entries @ [partial_map_entry (Some k) partial Value]
                  | None \<Rightarrow>
                      if level < length path then entries @ [partial_map_entry partial None Key]
                      else entries) len
           | OpenTag start header_end tag \<Rightarrow> partial_tag start header_end end tag partial))
        rest path end)"

definition unwind :: "failure \<Rightarrow> container_frame list \<Rightarrow> path \<Rightarrow> nat \<Rightarrow> failure" where
  "unwind failure frames path end = (fst failure, unwind_frames (snd failure) frames path end)"

subsection \<open>One header\<close>

text \<open>What a header decodes to: a complete item, or a container whose items follow.\<close>

datatype decoded = Item json | Opened

text \<open>The result, the path and the stack after it, and the offset.\<close>

type_synonym decode_answer = "(failure + decoded) \<times> path \<times> container_frame list \<times> nat"

definition push_container ::
  "cbor_reader \<Rightarrow> bytes \<Rightarrow> container_frame \<Rightarrow> path \<Rightarrow> container_frame list \<Rightarrow> nat \<Rightarrow> decode_answer" where
  "push_container rd bs frame path frames offset =
     (case advance rd bs frame path offset of
        (Inl e, offset') \<Rightarrow> (Inl (e, None), path, frame # frames, offset')
      | (Inr (Advance frame' path'), offset') \<Rightarrow> (Inr Opened, path', frame' # frames, offset')
      | (Inr (Complete v), offset') \<Rightarrow> (Inr (Item v), path, frames, offset'))"

text \<open>An item without a frame of its own.\<close>

definition leaf :: "failure + json \<Rightarrow> path \<Rightarrow> container_frame list \<Rightarrow> nat \<Rightarrow> decode_answer" where
  "leaf r path frames offset =
     ((case r of Inl e \<Rightarrow> Inl e | Inr v \<Rightarrow> Inr (Item v)), path, frames, offset)"

definition simple_value :: "u8 \<Rightarrow> nat \<Rightarrow> nat \<Rightarrow> json" where
  "simple_value v start end =
     (if v = 20 then simple_token ''Bool'' (JBool False) start end
      else if v = 21 then simple_token ''Bool'' (JBool True) start end
      else if v = 22 then simple_token ''Null'' JNull start end
      else if v = 23 then simple_token ''Undefined'' JNull start end
      else simple_token ''Simple'' (json_nat (unat v)) start end)"

definition scalar_value ::
  "cbor_reader \<Rightarrow> cbor_header \<Rightarrow> nat \<Rightarrow> nat \<Rightarrow> path \<Rightarrow> decode_error + json" where
  "scalar_value rd h start header_end path =
     (let width = header_end - start in
      case h of
        HPositive v \<Rightarrow>
          Inr (attach_oddities
            (simple_token (positive_type_name width) (JNum (PosInt v)) start header_end)
            (option_list (int_not_shortest v width False)))
      | HNegative v \<Rightarrow>
          (case negative_value v start header_end path of
             Inl e \<Rightarrow> Inl e
           | Inr token \<Rightarrow> Inr (attach_oddities token (option_list (int_not_shortest v width True))))
      | HFloat f \<Rightarrow>
          (case number_from_f64 f start path of
             Inl e \<Rightarrow> Inl e
           | Inr n \<Rightarrow>
               Inr (attach_oddities (simple_token (float_type_name width) n start header_end)
                 (option_list (float_not_shortest (cr_show_float rd) f width))))
      | HSimple v \<Rightarrow> Inr (simple_value v start header_end)
      | _ \<Rightarrow> Inl (unexpected_break path start))"

definition bytes_value ::
  "cbor_reader \<Rightarrow> bytes \<Rightarrow> nat \<Rightarrow> nat \<Rightarrow> path \<Rightarrow> nat \<Rightarrow> (failure + json) \<times> nat" where
  "bytes_value rd bs start len path offset =
     (case read_exact rd bs path len offset of
        (Inl e, end) \<Rightarrow> (Inl (e, None), end)
      | (Inr body, end) \<Rightarrow> (Inr (simple_token ''Bytes'' (JStr (hex_encode body)) start end), end))"

definition text_value ::
  "cbor_reader \<Rightarrow> bytes \<Rightarrow> nat \<Rightarrow> nat \<Rightarrow> path \<Rightarrow> nat \<Rightarrow> (failure + json) \<times> nat" where
  "text_value rd bs start len path offset =
     (case read_exact rd bs path len offset of
        (Inl e, end) \<Rightarrow> (Inl (e, None), end)
      | (Inr body, end) \<Rightarrow>
          (if valid_utf8 body then Inr (simple_token ''String'' (JStr (text_of body)) start end)
           else Inl (invalid_utf8 path start (end - start), None), end))"

definition decode_header ::
  "cbor_reader \<Rightarrow> bytes \<Rightarrow> cbor_header \<Rightarrow> nat \<Rightarrow> path \<Rightarrow> container_frame list \<Rightarrow> nat \<Rightarrow>
     decode_answer option" where
  "decode_header rd bs h start path frames header_end =
     (case h of
        HBytes (Some len) \<Rightarrow>
          (case bytes_value rd bs start len path header_end of
             (r, end) \<Rightarrow> Some (leaf r path frames end))
      | HText (Some len) \<Rightarrow>
          (case text_value rd bs start len path header_end of
             (r, end) \<Rightarrow> Some (leaf r path frames end))
      | HBytes None \<Rightarrow>
          map_option (\<lambda>(r, end). leaf r path frames end)
            (decode_indefinite_chunks rd bs start ByteChunks path header_end)
      | HText None \<Rightarrow>
          map_option (\<lambda>(r, end). leaf r path frames end)
            (decode_indefinite_chunks rd bs start TextChunks path header_end)
      | HArray len \<Rightarrow>
          Some (push_container rd bs (OpenArray start header_end len []) path frames header_end)
      | HMap len \<Rightarrow>
          Some (push_container rd bs (OpenMap start header_end len [] [] header_end None) path frames
            header_end)
      | HTag tag \<Rightarrow>
          Some (push_container rd bs (OpenTag start header_end tag) path frames header_end)
      | _ \<Rightarrow>
          (case scalar_value rd h start header_end path of
             Inl e \<Rightarrow> Some (leaf (Inl (e, None)) path frames header_end)
           | Inr v \<Rightarrow> Some (leaf (Inr v) path frames header_end)))"

subsection \<open>The loop\<close>

text \<open>
  A completed item is attached to the innermost container, and so are the containers it
  completes, until one takes a further item or the root is complete.
\<close>

datatype attached =
    Finished json nat
  | Continue path "container_frame list" nat
  | Failed decode_error path "container_frame list" nat

fun attach :: "cbor_reader \<Rightarrow> bytes \<Rightarrow> json \<Rightarrow> path \<Rightarrow> container_frame list \<Rightarrow> nat \<Rightarrow> attached" where
  "attach rd bs v path [] offset = Finished v offset"
| "attach rd bs v path (OpenTag start header_end tag # rest) offset =
     attach rd bs (tag_value rd start header_end offset tag v) (tl path) rest offset"
| "attach rd bs v path (OpenArray start header_end len values # rest) offset =
     (let frame = OpenArray start header_end len (values @ [v]) in
      case advance rd bs frame (tl path) offset of
        (Inl e, offset') \<Rightarrow> Failed e (tl path) (frame # rest) offset'
      | (Inr (Advance frame' path'), offset') \<Rightarrow> Continue path' (frame' # rest) offset'
      | (Inr (Complete v'), offset') \<Rightarrow> attach rd bs v' (tl path) rest offset')"
| "attach rd bs v path (OpenMap start header_end len entries key_spans key_start None # rest) offset =
     Continue (MapEntry (length entries) Value # tl path)
       (OpenMap start header_end len entries key_spans key_start (Some (v, offset)) # rest) offset"
| "attach rd bs v path
     (OpenMap start header_end len entries key_spans key_start (Some (key, key_end)) # rest) offset =
     (let frame = OpenMap start header_end len (entries @ [map_entry key v])
                    (key_spans @ [(key_start, key_end)]) key_start None in
      case advance rd bs frame (tl path) offset of
        (Inl e, offset') \<Rightarrow> Failed e (tl path) (frame # rest) offset'
      | (Inr (Advance frame' path'), offset') \<Rightarrow> Continue path' (frame' # rest) offset'
      | (Inr (Complete v'), offset') \<Rightarrow> attach rd bs v' (tl path) rest offset')"

text \<open>One turn of the outer loop: the header of the item the path names, and what it decodes to.\<close>

definition decode_turn ::
  "cbor_reader \<Rightarrow> bytes \<Rightarrow> path \<Rightarrow> container_frame list \<Rightarrow> nat \<Rightarrow> decode_answer option" where
  "decode_turn rd bs path frames offset =
     (if MAX_CBOR_DECODE_NESTING_DEPTH < length path
      then Some (Inl (nesting_too_deep path offset MAX_CBOR_DECODE_NESTING_DEPTH, None), path, frames,
        offset)
      else
        case pull_header rd bs path offset of
          (Inl e, offset') \<Rightarrow> Some (Inl (e, None), path, frames, offset')
        | (Inr h, offset') \<Rightarrow> decode_header rd bs h offset path frames offset')"

partial_function (option) decode_loop ::
  "cbor_reader \<Rightarrow> bytes \<Rightarrow> path \<Rightarrow> container_frame list \<Rightarrow> nat \<Rightarrow> (failure + json \<times> nat) option" where
  "decode_loop rd bs path frames offset =
     Option.bind (decode_turn rd bs path frames offset) (\<lambda>(r, path', frames', offset').
       case r of
         Inl failure \<Rightarrow> Some (Inl (unwind failure frames' path' offset'))
       | Inr Opened \<Rightarrow> decode_loop rd bs path' frames' offset'
       | Inr (Item v) \<Rightarrow>
           (case attach rd bs v path' frames' offset' of
              Finished v' end \<Rightarrow> Some (Inr (v', end))
            | Continue path'' frames'' offset'' \<Rightarrow> decode_loop rd bs path'' frames'' offset''
            | Failed e path'' frames'' offset'' \<Rightarrow>
                Some (Inl (unwind (e, None) frames'' path'' offset''))))"

definition decode_item :: "cbor_reader \<Rightarrow> bytes \<Rightarrow> (failure + json \<times> nat) option" where
  "decode_item rd bs = decode_loop rd bs [] [] 0"

definition decode_cbor_to_value :: "cbor_reader \<Rightarrow> bytes \<Rightarrow> (failure + json) option" where
  "decode_cbor_to_value rd bs =
     map_option (\<lambda>r.
         case r of
           Inl failure \<Rightarrow> Inl failure
         | Inr (v, trailing) \<Rightarrow>
             if trailing \<noteq> length bs
             then Inl (trailing_data trailing (length bs - trailing), Some v)
             else Inr v)
       (decode_item rd bs)"

end
