(* ===== verification/Source_Index.thy ===== *)
theory Source_Index
  imports Json Std_Text
begin

text \<open>
  Offsets into a schema text (\<^verbatim>\<open>src/src/cbor/source_index.rs\<close>): the table from byte offsets
  to UTF-16 code units, the lines, and the spans reported to a JavaScript caller. A text is its
  UTF-8 bytes.
\<close>

subsection \<open>Characters\<close>

text \<open>The length of a character in bytes, from its first one, and in UTF-16 code units.\<close>

definition utf8_len :: "u8 \<Rightarrow> nat" where
  "utf8_len b = (if b < 0x80 then 1 else if b < 0xE0 then 2 else if b < 0xF0 then 3 else 4)"

definition len_utf16 :: "bytes \<Rightarrow> nat" where
  "len_utf16 ch = (if length ch = 4 then 2 else 1)"

lemma utf8_len_pos [simp]: "0 < utf8_len b"
  by (simp add: utf8_len_def)

function chars :: "bytes \<Rightarrow> bytes list" where
  "chars [] = []"
| "chars (b # bs) = take (utf8_len b) (b # bs) # chars (drop (utf8_len b) (b # bs))"
  by pat_completeness auto
termination by (relation "measure length") simp_all

fun indices_from :: "nat \<Rightarrow> bytes list \<Rightarrow> (nat \<times> bytes) list" where
  "indices_from i [] = []"
| "indices_from i (ch # cs) = (i, ch) # indices_from (i + length ch) cs"

definition char_indices :: "bytes \<Rightarrow> (nat \<times> bytes) list" where
  "char_indices source = indices_from 0 (chars source)"

subsection \<open>The index\<close>

record utf16_index =
  byte_to_utf16 :: "nat list"
  line_starts :: "nat list"

definition index_char :: "nat list \<times> nat list \<times> nat \<Rightarrow> nat \<times> bytes \<Rightarrow> nat list \<times> nat list \<times> nat" where
  "index_char st at =
     (let (table, starts, count) = st; (byte_i, ch) = at; next = byte_i + length ch in
      (foldl (\<lambda>t j. t[j := count]) table [byte_i..<next],
       if ch = [10] then starts @ [next] else starts,
       count + len_utf16 ch))"

definition utf16_new :: "bytes \<Rightarrow> utf16_index" where
  "utf16_new source =
     (let (table, starts, count) =
        foldl index_char (replicate (length source + 1) 0, [0], 0) (char_indices source)
      in \<lparr>byte_to_utf16 = table[length source := count], line_starts = starts\<rparr>)"

text \<open>\<open>binary_search\<close> in a strictly ascending slice: where the value is, or would be inserted.\<close>

definition binary_search :: "nat list \<Rightarrow> nat \<Rightarrow> nat + nat" where
  "binary_search xs x =
     (if x \<in> set xs then Inr (length (takeWhile (\<lambda>y. y \<noteq> x) xs))
      else Inl (length (takeWhile (\<lambda>y. y < x) xs)))"

definition line_at :: "utf16_index \<Rightarrow> nat \<Rightarrow> nat" where
  "line_at idx byte_offset =
     (case binary_search (line_starts idx) byte_offset of Inr i \<Rightarrow> i + 1 | Inl i \<Rightarrow> i)"

definition char_offset :: "utf16_index \<Rightarrow> nat \<Rightarrow> nat" where
  "char_offset idx byte_offset =
     (let table = byte_to_utf16 idx in
      case nth_opt table byte_offset of
        Some n \<Rightarrow> n
      | None \<Rightarrow> (if table = [] then 0 else last table))"

definition is_char_boundary :: "utf16_index \<Rightarrow> nat \<Rightarrow> bool" where
  "is_char_boundary idx i \<longleftrightarrow>
     i = 0 \<or> length (byte_to_utf16 idx) \<le> i \<or> byte_to_utf16 idx ! i \<noteq> byte_to_utf16 idx ! (i - 1)"

text \<open>The loop of \<open>char_offset_ceil\<close>: on to the first entry that differs.\<close>

function ceil_from :: "nat list \<Rightarrow> nat \<Rightarrow> nat \<Rightarrow> nat" where
  "ceil_from table inside i =
     (if nth_opt table i = Some inside then ceil_from table inside (i + 1)
      else case nth_opt table i of Some n \<Rightarrow> n | None \<Rightarrow> inside)"
  by pat_completeness auto
termination
  by (relation "measure (\<lambda>(table, inside, i). length table - i)") (auto simp: nth_opt_def split: if_splits)

declare ceil_from.simps [simp del]

definition char_offset_ceil :: "utf16_index \<Rightarrow> nat \<Rightarrow> nat" where
  "char_offset_ceil idx byte_offset =
     (if is_char_boundary idx byte_offset then char_offset idx byte_offset
      else ceil_from (byte_to_utf16 idx) (byte_to_utf16 idx ! byte_offset) (byte_offset + 1))"

subsection \<open>Spans\<close>

record source_span =
  sp_offset :: nat
  sp_length :: nat
  sp_char_offset :: nat
  sp_char_length :: nat
  sp_line :: nat

definition source_span :: "utf16_index \<Rightarrow> nat \<Rightarrow> nat \<Rightarrow> nat \<Rightarrow> source_span" where
  "source_span idx byte_start byte_end line =
     (let byte_length = byte_end - byte_start;
          char_start = char_offset idx byte_start;
          char_end = (if byte_length = 0 then char_start else char_offset_ceil idx byte_end)
      in \<lparr>sp_offset = byte_start, sp_length = byte_length, sp_char_offset = char_start,
          sp_char_length = char_end - char_start, sp_line = line\<rparr>)"

definition span_json :: "utf16_index \<Rightarrow> nat \<Rightarrow> nat \<Rightarrow> nat \<Rightarrow> json" where
  "span_json idx byte_start byte_end line =
     (let span = source_span idx byte_start byte_end line in
      JObj [(''offset'', json_nat (sp_offset span)), (''length'', json_nat (sp_length span)),
        (''char_offset'', json_nat (sp_char_offset span)),
        (''char_length'', json_nat (sp_char_length span)), (''line'', json_nat (sp_line span))])"

end
