(* ===== verification/Diagnostic.thy ===== *)
theory Diagnostic
  imports Decoder_Loop Source_Index Cddl_Limits Asset_Store
begin

text \<open>
  Diagnostic notation of composite map keys (\<^verbatim>\<open>src/src/cbor/diagnostic.rs\<close>): its parser, and
  the match of what it denotes against a node of the decoded tree. A text is its UTF-8 bytes, each
  a character; the parser's position is what is left of the text. The hex decoder and the reading
  and writing of floats are parameters.
\<close>

subsection \<open>Items\<close>

datatype diag =
    DInt int
  | DBytes bytes
  | DText string
  | DFloat u64
  | DBool bool
  | DNull
  | DSimple u8
  | DTag u64 diag
  | DArr "diag list"
  | DMap "(diag \<times> diag) list"

record float_library =
  fl_hex_decode :: "string \<Rightarrow> string + bytes"
  fl_parse :: "string \<Rightarrow> u64 option"
  fl_show :: "u64 \<Rightarrow> string"
  fl_of_int :: "int \<Rightarrow> u64"

definition MAX_DIAG_DEPTH :: nat where "MAX_DIAG_DEPTH = 32"

definition F64_NAN :: u64 where "F64_NAN = 0x7FF8000000000000"
definition F64_INFINITY :: u64 where "F64_INFINITY = 0x7FF0000000000000"
definition F64_NEG_INFINITY :: u64 where "F64_NEG_INFINITY = 0xFFF0000000000000"

subsection \<open>The cursor\<close>

definition is_ws :: "char \<Rightarrow> bool" where
  "is_ws c \<longleftrightarrow> c \<in> {CHR '' '', CHR 0x09, CHR 0x0A, CHR 0x0D}"

definition skip_ws :: "string \<Rightarrow> string" where "skip_ws s = dropWhile is_ws s"

definition eat :: "char \<Rightarrow> string \<Rightarrow> string option" where
  "eat c s = (case skip_ws s of x # r \<Rightarrow> if x = c then Some r else None | [] \<Rightarrow> None)"

definition eat_literal :: "string \<Rightarrow> string \<Rightarrow> string option" where
  "eat_literal lit s = (if take (length lit) s = lit then Some (drop (length lit) s) else None)"

definition utf8_text :: "string \<Rightarrow> bool" where "utf8_text s \<longleftrightarrow> valid_utf8 (map byte s)"

definition first_char :: "string \<Rightarrow> string" where
  "first_char s = (case s of [] \<Rightarrow> [] | c # r \<Rightarrow> take (utf8_len (byte c)) s)"

definition after_char :: "string \<Rightarrow> string" where
  "after_char s = (case s of [] \<Rightarrow> [] | c # r \<Rightarrow> drop (utf8_len (byte c)) s)"

subsection \<open>Strings\<close>

text \<open>\<open>u32::from_str_radix(_, 16)\<close>, and \<open>char::from_u32\<close> as the UTF-8 bytes of the character.\<close>

definition hex_value :: "char \<Rightarrow> nat option" where
  "hex_value c =
     (let n = of_char c :: nat in
      if 48 \<le> n \<and> n \<le> 57 then Some (n - 48)
      else if 65 \<le> n \<and> n \<le> 70 then Some (n - 55)
      else if 97 \<le> n \<and> n \<le> 102 then Some (n - 87)
      else None)"

fun hex_digits_value :: "nat \<Rightarrow> string \<Rightarrow> nat option" where
  "hex_digits_value acc [] = Some acc"
| "hex_digits_value acc (c # cs) =
     (case hex_value c of
        Some d \<Rightarrow> if 16 * acc + d < 2 ^ 32 then hex_digits_value (16 * acc + d) cs else None
      | None \<Rightarrow> None)"

definition parse_hex_u32 :: "string \<Rightarrow> nat option" where
  "parse_hex_u32 s =
     (let ds = (case s of c # rest \<Rightarrow> if c = CHR ''+'' then rest else s | [] \<Rightarrow> s)
      in if ds = [] then None else hex_digits_value 0 ds)"

definition char_from_u32 :: "nat \<Rightarrow> string option" where
  "char_from_u32 n =
     (if 0x110000 \<le> n \<or> 0xD800 \<le> n \<and> n \<le> 0xDFFF then None
      else Some (map char_of
        (if n < 0x80 then [n]
         else if n < 0x800 then [0xC0 + n div 64, 0x80 + n mod 64]
         else if n < 0x10000 then [0xE0 + n div 4096, 0x80 + n div 64 mod 64, 0x80 + n mod 64]
         else [0xF0 + n div 262144, 0x80 + n div 4096 mod 64, 0x80 + n div 64 mod 64, 0x80 + n mod 64])))"

text \<open>What a backslash and the characters after it stand for.\<close>

definition escape_of :: "string \<Rightarrow> (string \<times> string) option" where
  "escape_of s =
     (if \<not> utf8_text s \<or> s = [] then None
      else
        let e = first_char s; r = after_char s in
        if e = quote then Some (quote, r)
        else if e = [CHR 0x5C] then Some ([CHR 0x5C], r)
        else if e = ''n'' then Some ([CHR 0x0A], r)
        else if e = ''t'' then Some ([CHR 0x09], r)
        else if e = ''r'' then Some ([CHR 0x0D], r)
        else if e = ''0'' then Some ([CHR 0x00], r)
        else if e = [CHR 0x27] then Some ([CHR 0x27], r)
        else if e = ''u'' then
          (case eat (CHR ''{'') r of
             None \<Rightarrow> None
           | Some t \<Rightarrow>
               let digits = takeWhile (\<lambda>c. c \<noteq> CHR ''}'') t; closing = dropWhile (\<lambda>c. c \<noteq> CHR ''}'') t in
               if closing = [] \<or> \<not> utf8_text digits then None
               else Option.bind (parse_hex_u32 digits)
                 (\<lambda>n. map_option (\<lambda>ch. (ch, tl closing)) (char_from_u32 n)))
        else Some (CHR 0x5C # e, r))"

lemma skip_ws_length: "length (skip_ws s) \<le> length s"
  by (simp add: skip_ws_def length_dropWhile_le)

lemma eat_length: "eat c s = Some r \<Longrightarrow> length r < length s"
  using skip_ws_length [of s] by (auto simp: eat_def split: list.splits if_splits)

lemma after_char_length: "s \<noteq> [] \<Longrightarrow> length (after_char s) < length s"
  by (cases s) (simp_all add: after_char_def)

lemma escape_of_length: "escape_of s = Some (x, r) \<Longrightarrow> length r < length s"
proof -
  assume *: "escape_of s = Some (x, r)"
  then have ne: "s \<noteq> []" by (auto simp: escape_of_def)
  have closing: "length (tl (dropWhile (\<lambda>c. c \<noteq> CHR ''}'') t)) \<le> length t" for t :: string
    using length_dropWhile_le [of "\<lambda>c. c \<noteq> CHR ''}''" t] by simp
  have "r = after_char s \<or>
      (\<exists>t. eat (CHR ''{'') (after_char s) = Some t \<and> r = tl (dropWhile (\<lambda>c. c \<noteq> CHR ''}'') t))"
    using * by (auto simp: escape_of_def Let_def bind_eq_Some_conv split: if_splits option.splits)
  then have "length r \<le> length (after_char s)"
  proof
    assume "\<exists>t. eat (CHR ''{'') (after_char s) = Some t \<and> r = tl (dropWhile (\<lambda>c. c \<noteq> CHR ''}'') t)"
    then obtain t where t: "eat (CHR ''{'') (after_char s) = Some t"
      and r: "r = tl (dropWhile (\<lambda>c. c \<noteq> CHR ''}'') t)" by blast
    from eat_length [OF t] closing [of t] show ?thesis unfolding r by linarith
  qed simp
  with after_char_length [OF ne] show ?thesis by linarith
qed

function text_loop :: "string \<Rightarrow> string \<Rightarrow> (string \<times> string) option" where
  "text_loop out s =
     (if \<not> utf8_text s \<or> s = [] then None
      else
        let c = first_char s; r = after_char s in
        if c = quote then Some (out, r)
        else if c = [CHR 0x5C] then
          (case escape_of r of None \<Rightarrow> None | Some (x, r') \<Rightarrow> text_loop (out @ x) r')
        else text_loop (out @ c) r)"
  by pat_completeness auto
termination
proof (relation "measure (\<lambda>(out, s). length s)", goal_cases)
  case (2 out s c r p x r')
  then show ?case
    using escape_of_length [of r x r'] after_char_length [of s] by simp
next
  case (3 out s c r)
  then show ?case using after_char_length [of s] by simp
qed simp

declare text_loop.simps [simp del]

subsection \<open>Numbers\<close>

definition take_digits :: "string \<Rightarrow> string \<times> string" where
  "take_digits s = (takeWhile is_digit s, dropWhile is_digit s)"

definition diag_digits :: "string \<Rightarrow> (u64 \<times> string) option" where
  "diag_digits s =
     (let (ds, r) = take_digits (skip_ws s) in map_option (\<lambda>n. (n, r)) (parse_u64 ds))"

text \<open>The text of a number, whether it is a float literal, and what follows.\<close>

definition number_span :: "string \<Rightarrow> string \<times> bool \<times> string" where
  "number_span s =
     (let (sign, s1) = (case s of c # r \<Rightarrow> if c = CHR ''-'' then ([c], r) else ([], s) | [] \<Rightarrow> ([], s));
          (whole, s2) = take_digits s1;
          (fraction, s3) =
            (case s2 of
               p # d # r \<Rightarrow>
                 if p = CHR ''.'' \<and> is_digit d
                 then (let (ds, r') = take_digits (d # r) in (p # ds, r')) else ([], s2)
             | _ \<Rightarrow> ([], s2));
          (power, s4) =
            (case s3 of
               e # r \<Rightarrow>
                 if e = CHR ''e'' \<or> e = CHR ''E'' then
                   (let (esign, r1) =
                          (case r of x # r' \<Rightarrow> if x = CHR ''+'' \<or> x = CHR ''-'' then ([x], r') else ([], r)
                           | [] \<Rightarrow> ([], r));
                        (ds, r2) = take_digits r1
                    in (e # esign @ ds, r2))
                 else ([], s3)
             | [] \<Rightarrow> ([], s3))
      in (sign @ whole @ fraction @ power, fraction \<noteq> [] \<or> power \<noteq> [], s4))"

definition diag_number ::
  "float_library \<Rightarrow> (string \<Rightarrow> (diag \<times> string) option) \<Rightarrow> string \<Rightarrow> (diag \<times> string) option" where
  "diag_number lib inner s =
     (let (text, is_float, r) = number_span s in
      if is_float then map_option (\<lambda>f. (DFloat f, r)) (fl_parse lib text)
      else
        (case parse_i128 text of
           Inl e \<Rightarrow> None
         | Inr n \<Rightarrow>
             (case r of
                [] \<Rightarrow> Some (DInt n, r)
              | c # r1 \<Rightarrow>
                  let r2 = skip_ws r1 in
                  if c \<noteq> CHR ''('' then Some (DInt n, r)
                  else
                  if eat_literal ''...'' r2 \<noteq> None then None
                  else
                    (case inner r2 of
                       None \<Rightarrow> None
                     | Some (x, r3) \<Rightarrow>
                         (case eat (CHR '')'') r3 of
                            None \<Rightarrow> None
                          | Some r4 \<Rightarrow>
                              if 0 \<le> n \<and> n \<le> int u64_max then Some (DTag (of_int n) x, r4) else None)))))"

subsection \<open>The parser\<close>

text \<open>
  The loops over the items of an array and the entries of a map: \<open>item\<close> reads one, one level
  further down. The fuel is the length of the text, and each turn takes some of it.
\<close>

fun array_loop ::
  "(string \<Rightarrow> (diag \<times> string) option) \<Rightarrow> nat \<Rightarrow> diag list \<Rightarrow> string \<Rightarrow> (diag \<times> string) option" where
  "array_loop item 0 items s = None"
| "array_loop item (Suc fuel) items s =
     (let s1 = skip_ws s in
      if eat_literal ''...'' s1 \<noteq> None then None
      else
        (case item s1 of
           None \<Rightarrow> None
         | Some (x, s2) \<Rightarrow>
             (case skip_ws s2 of
                [] \<Rightarrow> None
              | c # r \<Rightarrow>
                  if c = CHR '','' then array_loop item fuel (items @ [x]) r
                  else if c = CHR '']'' then Some (DArr (items @ [x]), r)
                  else None)))"

fun map_loop ::
  "(string \<Rightarrow> (diag \<times> string) option) \<Rightarrow> nat \<Rightarrow> (diag \<times> diag) list \<Rightarrow> string \<Rightarrow>
     (diag \<times> string) option" where
  "map_loop item 0 entries s = None"
| "map_loop item (Suc fuel) entries s =
     (let s1 = skip_ws s in
      if eat_literal ''...'' s1 \<noteq> None then None
      else
        (case item s1 of
           None \<Rightarrow> None
         | Some (k, s2) \<Rightarrow>
             (case eat (CHR '':'') s2 of
                None \<Rightarrow> None
              | Some s3 \<Rightarrow>
                  (case item s3 of
                     None \<Rightarrow> None
                   | Some (v, s4) \<Rightarrow>
                       (case skip_ws s4 of
                          [] \<Rightarrow> None
                        | c # r \<Rightarrow>
                            if c = CHR '','' then map_loop item fuel (entries @ [(k, v)]) r
                            else if c = CHR ''}'' then Some (DMap (entries @ [(k, v)]), r)
                            else None)))))"

definition hex_string :: "float_library \<Rightarrow> string \<Rightarrow> (diag \<times> string) option" where
  "hex_string lib s =
     (let hex = takeWhile (\<lambda>c. c \<noteq> CHR 0x27) s; closing = dropWhile (\<lambda>c. c \<noteq> CHR 0x27) s in
      if closing = [] \<or> \<not> utf8_text hex then None
      else (case fl_hex_decode lib hex of Inl e \<Rightarrow> None | Inr b \<Rightarrow> Some (DBytes b, tl closing)))"

definition simple_item :: "string \<Rightarrow> (diag \<times> string) option" where
  "simple_item s =
     (case diag_digits s of
        None \<Rightarrow> None
      | Some (n, r) \<Rightarrow>
          (case eat (CHR '')'') r of
             None \<Rightarrow> None
           | Some r' \<Rightarrow> if n < 256 then Some (DSimple (ucast n), r') else None))"

text \<open>A keyword and the item it stands for, in the order the code tries them.\<close>

definition keyword_item :: "string \<Rightarrow> (diag \<times> string) option" where
  "keyword_item s =
     (let word = (\<lambda>w x. map_option (Pair x) (eat_literal w s)) in
      case s of
        [] \<Rightarrow> None
      | c # r \<Rightarrow>
          if c = CHR ''t'' then word ''true'' (DBool True)
          else if c = CHR ''f'' then word ''false'' (DBool False)
          else if c = CHR ''n'' then word ''null'' DNull
          else if c = CHR ''u'' then word ''undefined'' DNull
          else if c = CHR ''N'' then word ''NaN'' (DFloat F64_NAN)
          else if c = CHR ''I'' then word ''Infinity'' (DFloat F64_INFINITY)
          else if c = CHR ''-'' then word ''-Infinity'' (DFloat F64_NEG_INFINITY)
          else None)"

text \<open>\<open>item\<close>, with the levels left below it: none when it is past the depth limit.\<close>

fun diag_item :: "float_library \<Rightarrow> nat \<Rightarrow> string \<Rightarrow> (diag \<times> string) option" where
  "diag_item lib 0 s = None"
| "diag_item lib (Suc levels) s =
     (let s0 = skip_ws s in
      case s0 of
        [] \<Rightarrow> None
      | c # r \<Rightarrow>
          if c = CHR ''['' then
            (case skip_ws r of
               [] \<Rightarrow> None
             | d # r1 \<Rightarrow>
                 if d = CHR '']'' then Some (DArr [], r1)
                 else array_loop (diag_item lib levels) (length s0) [] (d # r1))
          else if c = CHR ''{'' then
            (case skip_ws r of
               [] \<Rightarrow> None
             | d # r1 \<Rightarrow>
                 if d = CHR ''}'' then Some (DMap [], r1)
                 else map_loop (diag_item lib levels) (length s0) [] (d # r1))
          else if eat_literal (''h'' @ [CHR 0x27]) s0 \<noteq> None then hex_string lib (drop 2 s0)
          else if c = CHR 0x22 then map_option (map_prod DText id) (text_loop [] r)
          else if eat_literal ''simple('' s0 \<noteq> None then simple_item (drop 7 s0)
          else if keyword_item s0 \<noteq> None then keyword_item s0
          else if c = CHR ''-'' \<or> is_digit c then diag_number lib (diag_item lib levels) s0
          else None)"

definition starts_composite :: "string \<Rightarrow> bool" where
  "starts_composite s =
     (case s of
        [] \<Rightarrow> False
      | c # r \<Rightarrow>
          if c = CHR ''['' \<or> c = CHR ''{'' then True
          else if c = CHR ''s'' then eat_literal ''simple('' s \<noteq> None
          else if is_digit c then
            (case dropWhile is_digit s of d # _ \<Rightarrow> d = CHR ''('' | [] \<Rightarrow> False)
          else False)"

definition parse_composite :: "float_library \<Rightarrow> string \<Rightarrow> diag option" where
  "parse_composite lib text =
     (let s = skip_ws text in
      if \<not> starts_composite s then None
      else
        (case diag_item lib (Suc MAX_DIAG_DEPTH) s of
           None \<Rightarrow> None
         | Some (x, r) \<Rightarrow> if skip_ws r = [] then Some x else None))"

definition parse_text :: "float_library \<Rightarrow> string \<Rightarrow> string option" where
  "parse_text lib text =
     (if take 1 text \<noteq> quote then None
      else
        (case diag_item lib (Suc MAX_DIAG_DEPTH) text of
           Some (DText s, r) \<Rightarrow> if r = [] then Some s else None
         | _ \<Rightarrow> None))"

end
