(* ===== verification/Std_Trim.thy ===== *)
theory Std_Trim
  imports Diagnostic
begin

text \<open>
  What the sources use of the standard library on a text's ends and letters: \<open>trim\<close>, the ASCII
  case and the character boundaries. A string is its UTF-8 bytes, each a character.
\<close>

text \<open>\<open>trim\<close> takes the characters with Unicode's \<open>White_Space\<close> property off both ends.\<close>

definition white_space :: "string list" where
  "white_space = map (\<lambda>n. case char_from_u32 n of Some c \<Rightarrow> c | None \<Rightarrow> [])
     ([9..<14] @ [0x20, 0x85, 0xA0, 0x1680] @ [0x2000..<0x200B] @ [0x2028, 0x2029, 0x202F, 0x205F, 0x3000])"

definition trim :: "string \<Rightarrow> string" where
  "trim s =
     (let is_white = (\<lambda>c. c \<in> set white_space);
          cs = dropWhile is_white (map text_of (chars (map byte s)))
      in concat (rev (dropWhile is_white (rev cs))))"

text \<open>\<open>to_ascii_lowercase\<close> and \<open>eq_ignore_ascii_case\<close>.\<close>

definition ascii_lower :: "char \<Rightarrow> char" where
  "ascii_lower c =
     (let n = of_char c :: nat in if 65 \<le> n \<and> n \<le> 90 then char_of (n + 32) else c)"

definition lower_text :: "string \<Rightarrow> string" where
  "lower_text s = map ascii_lower s"

definition eq_ignore_ascii_case :: "string \<Rightarrow> string \<Rightarrow> bool" where
  "eq_ignore_ascii_case s t \<longleftrightarrow> lower_text s = lower_text t"

text \<open>\<open>is_char_boundary\<close> of a byte index, where a slice of a text may end.\<close>

definition char_boundary :: "string \<Rightarrow> nat \<Rightarrow> bool" where
  "char_boundary s i \<longleftrightarrow> i = length s \<or> i < length s \<and> \<not> continuation (byte (s ! i))"

end
