(* ===== verification/Location_Text.thy ===== *)
theory Location_Text
  imports Std_Trim
begin

text \<open>
  The validator's locations as texts (\<^verbatim>\<open>src/src/cbor/validation.rs\<close>): where their components
  end, what each component names, and the path in the decoder's notation. An operation the code can
  panic in answers an option, \<open>None\<close> the panic.
\<close>

subsection \<open>Components\<close>

text \<open>The indices \<open>location_separators\<close> calls back with: \<open>i\<close> is that of the first byte of \<open>s\<close>.\<close>

fun separators_from :: "nat \<Rightarrow> nat \<Rightarrow> bool \<Rightarrow> bool \<Rightarrow> string \<Rightarrow> nat list" where
  "separators_from i depth in_text escaped [] = []"
| "separators_from i depth in_text escaped (b # s) =
     (if in_text then
        (if escaped then separators_from (Suc i) depth True False s
         else if b = CHR 0x5C then separators_from (Suc i) depth True True s
         else separators_from (Suc i) depth (b \<noteq> CHR 0x22) False s)
      else if b = CHR 0x22 then separators_from (Suc i) depth True escaped s
      else if b \<in> {CHR ''('', CHR ''['', CHR ''{''} then separators_from (Suc i) (depth + 1) False escaped s
      else if b \<in> {CHR '')'', CHR '']'', CHR ''}''} \<and> 0 < depth
      then separators_from (Suc i) (depth - 1) False escaped s
      else if b = CHR ''/'' \<and> depth = 0 then i # separators_from (Suc i) depth False escaped s
      else separators_from (Suc i) depth False escaped s)"

definition location_separators :: "string \<Rightarrow> nat list" where
  "location_separators s = separators_from 0 0 False False s"

definition cut_segment :: "string \<Rightarrow> string list \<times> nat \<Rightarrow> nat \<Rightarrow> string list \<times> nat" where
  "cut_segment s st i = (case st of (out, from) \<Rightarrow> (out @ [take (i - from) (drop from s)], i + 1))"

definition split_location_segments :: "string \<Rightarrow> string list" where
  "split_location_segments s =
     (let (out, from) = foldl (cut_segment s) ([], 0) (location_separators s)
      in if from < length s then out @ [drop from s] else out)"

definition trim_start_slashes :: "string \<Rightarrow> string" where
  "trim_start_slashes loc = dropWhile (\<lambda>c. c = CHR ''/'') loc"

definition location_depth :: "string \<Rightarrow> nat" where
  "location_depth loc =
     (let s = trim_start_slashes loc in if s = [] then 0 else 1 + length (location_separators s))"

fun join_slash :: "string list \<Rightarrow> string" where
  "join_slash [] = []"
| "join_slash [x] = x"
| "join_slash (x # y # xs) = x @ ''/'' @ join_slash (y # xs)"

definition parent_location :: "string \<Rightarrow> string" where
  "parent_location loc =
     (let segments = butlast (split_location_segments (trim_start_slashes loc))
      in if segments = [] then [] else ''/'' @ join_slash segments)"

subsection \<open>What a component names\<close>

datatype segment =
    Index nat
  | TextKey string
  | IntKey int
  | FloatKey u64
  | BytesKey bytes
  | BoolKey bool
  | NullKey
  | CompositeKey diag
  | Unnamed
  | Opaque

definition UNNAMED_ENTRY :: string where "UNNAMED_ENTRY = ''...''"

definition parse_usize :: "string \<Rightarrow> nat option" where
  "parse_usize s =
     (case parse_u64 s of
        Some n \<Rightarrow> if unat n \<le> usize_max then Some (unat n) else None
      | None \<Rightarrow> None)"

definition strip_suffix :: "string \<Rightarrow> string \<Rightarrow> string option" where
  "strip_suffix suf s =
     (if length suf \<le> length s \<and> drop (length s - length suf) s = suf
      then Some (take (length s - length suf) s) else None)"

definition parse_base16_segment :: "float_library \<Rightarrow> string \<Rightarrow> bytes option" where
  "parse_base16_segment lib seg =
     Option.bind (eat_literal (''h'' @ [CHR 0x27]) seg)
       (\<lambda>t. Option.bind (strip_suffix [CHR 0x27] t)
         (\<lambda>inner. case fl_hex_decode lib inner of Inr bs \<Rightarrow> Some bs | Inl _ \<Rightarrow> None))"

definition parse_float_segment :: "float_library \<Rightarrow> string \<Rightarrow> u64 option" where
  "parse_float_segment lib seg =
     (let is_literal = (\<exists>c \<in> set seg. c \<in> {CHR ''.'', CHR ''e'', CHR ''E''}) in
      if \<not> is_literal \<and> seg \<notin> {''NaN'', ''Infinity'', ''-Infinity''} then None else fl_parse lib seg)"

definition strip_debug_quotes :: "float_library \<Rightarrow> string \<Rightarrow> string option" where
  "strip_debug_quotes lib seg = parse_text lib seg"

text \<open>The slice ends at a byte index, which is a panic when a character is cut there.\<close>

definition strip_prefix_ci :: "string \<Rightarrow> string \<Rightarrow> string option option" where
  "strip_prefix_ci s prefix =
     (if length s < length prefix then Some None
      else if \<not> char_boundary s (length prefix) then None
      else Some (if eq_ignore_ascii_case (take (length prefix) s) prefix
                 then Some (drop (length prefix) s) else None))"

lemma trim_length: "length (trim s) \<le> length s"
proof -
  have chars: "concat (chars bs) = bs" for bs
    by (induction bs rule: chars.induct) simp_all
  have le: "length (concat (dropWhile P xs)) \<le> length (concat xs)" for P and xs :: "string list"
    by (induction xs) auto
  have le_rev: "length (concat (rev (dropWhile P (rev xs)))) \<le> length (concat xs)" for P and xs :: "string list"
    using le [of P "rev xs"] by (simp add: length_concat flip: rev_map) 
  have "concat (map text_of (chars (map byte s))) = text_of (concat (chars (map byte s)))"
    by (simp add: text_of_def [abs_def] map_concat)
  then have "length (concat (map text_of (chars (map byte s)))) = length s"
    by (simp add: chars text_of_def)
  with le_rev le show ?thesis unfolding trim_def Let_def by (metis le_trans)
qed

function integer_segment_loop :: "string \<Rightarrow> int option option" where
  "integer_segment_loop s =
     (case strip_prefix_ci s ''Integer('' of
        None \<Rightarrow> None
      | Some None \<Rightarrow> Some (case parse_i128 s of Inr n \<Rightarrow> Some n | Inl _ \<Rightarrow> None)
      | Some (Some t) \<Rightarrow>
          (case strip_suffix '')'' t of
             Some inner \<Rightarrow> integer_segment_loop (trim inner)
           | None \<Rightarrow> Some (case parse_i128 s of Inr n \<Rightarrow> Some n | Inl _ \<Rightarrow> None)))"
  by pat_completeness auto
termination
proof (relation "measure length", goal_cases)
  case (2 s o1 t inner)
  then have "length t < length s" by (auto simp: strip_prefix_ci_def split: if_splits)
  moreover have "length inner \<le> length t" using 2 by (auto simp: strip_suffix_def split: if_splits)
  ultimately show ?case using trim_length [of inner] by simp
qed simp

declare integer_segment_loop.simps [simp del]

definition parse_integer_segment :: "string \<Rightarrow> int option option" where
  "parse_integer_segment seg = integer_segment_loop (trim seg)"

definition classify_segment :: "float_library \<Rightarrow> string \<Rightarrow> segment option" where
  "classify_segment lib seg =
     (if seg = UNNAMED_ENTRY then Some Unnamed
      else case parse_usize seg of Some i \<Rightarrow> Some (Index i) | None \<Rightarrow>
        (case strip_debug_quotes lib seg of Some unquoted \<Rightarrow> Some (TextKey unquoted) | None \<Rightarrow>
          (case parse_integer_segment seg of None \<Rightarrow> None | Some (Some n) \<Rightarrow> Some (IntKey n) | Some None \<Rightarrow>
            Some
              (case parse_base16_segment lib seg of Some b \<Rightarrow> BytesKey b | None \<Rightarrow>
                if seg = ''true'' then BoolKey True
                else if seg = ''false'' then BoolKey False
                else if seg = ''null'' then NullKey
                else
                  (case parse_float_segment lib seg of Some f \<Rightarrow> FloatKey f | None \<Rightarrow>
                    (case parse_composite lib seg of Some item \<Rightarrow> CompositeKey item | None \<Rightarrow> Opaque))))))"

subsection \<open>The path\<close>

definition is_ascii_alphabetic :: "char \<Rightarrow> bool" where
  "is_ascii_alphabetic c = (let n = of_char c :: nat in 65 \<le> n \<and> n \<le> 90 \<or> 97 \<le> n \<and> n \<le> 122)"

definition is_identifier :: "string \<Rightarrow> bool" where
  "is_identifier key =
     (case key of
        [] \<Rightarrow> False
      | c # cs \<Rightarrow>
          (is_ascii_alphabetic c \<or> c = CHR ''_'') \<and>
          (\<forall>d \<in> set cs. is_ascii_alphabetic d \<or> is_digit d \<or> d = CHR ''_'' \<or> d = CHR ''-''))"

definition text_key :: "string \<Rightarrow> string" where
  "text_key key =
     (if is_identifier key then ''.'' @ key
      else ''['' @ quote @
        concat (map (\<lambda>c. if c = CHR 0x5C \<or> c = CHR 0x22 then [CHR 0x5C, c] else [c]) key) @ quote @ '']'')"

definition path_segment :: "string \<Rightarrow> segment \<Rightarrow> string" where
  "path_segment seg classified =
     (case classified of
        Index i \<Rightarrow> ''['' @ decimal i @ '']''
      | TextKey s \<Rightarrow> text_key s
      | IntKey n \<Rightarrow> ''['' @ signed_decimal n @ '']''
      | CompositeKey item \<Rightarrow> ''['' @ seg @ '']''
      | FloatKey f \<Rightarrow> ''['' @ seg @ '']''
      | Unnamed \<Rightarrow> ''['' @ seg @ '']''
      | Opaque \<Rightarrow> ''['' @ seg @ '']''
      | BytesKey bs \<Rightarrow> ''.'' @ seg
      | BoolKey b \<Rightarrow> ''.'' @ seg
      | NullKey \<Rightarrow> ''.'' @ seg)"

text \<open>Every component with what it names; a panic in one is a panic of the whole.\<close>

definition classified_segments :: "float_library \<Rightarrow> string \<Rightarrow> (string \<times> segment) list option" where
  "classified_segments lib trimmed =
     those (map (\<lambda>seg. map_option (Pair seg) (classify_segment lib seg)) (split_location_segments trimmed))"

definition cbor_location_to_json_path :: "float_library \<Rightarrow> string \<Rightarrow> string option" where
  "cbor_location_to_json_path lib loc =
     (let trimmed = trim_start_slashes loc in
      if trimmed = [] then Some ''$''
      else map_option (\<lambda>cs. ''$'' @ concat (map (\<lambda>(seg, classified). path_segment seg classified) cs))
        (classified_segments lib trimmed))"

end
