(* ===== verification/Decoder_Tree.thy ===== *)
theory Decoder_Tree
  imports Decoder_Loop Cbor_Spec
begin

text \<open>
  What the decoder is to answer: the tree of a data item by recursion over the item, and the
  documented behaviour of the reader it relies on.
\<close>

subsection \<open>The reader's laws\<close>

text \<open>\<open>fl\<close> widens the bits of a float of 2, 4 or 8 bytes to binary64.\<close>

definition header_of :: "(arg_width \<Rightarrow> nat \<Rightarrow> u64) \<Rightarrow> nat \<Rightarrow> arg_width \<Rightarrow> nat \<Rightarrow> cbor_header" where
  "header_of fl major w n =
     (if major = 0 then HPositive (of_nat n)
      else if major = 1 then HNegative (of_nat n)
      else if major = 2 then HBytes (Some n)
      else if major = 3 then HText (Some n)
      else if major = 4 then HArray (Some n)
      else if major = 5 then HMap (Some n)
      else if major = 6 then HTag (of_nat n)
      else if w = Inline \<or> w = Arg1 then HSimple (of_nat n)
      else HFloat (fl w n))"

definition indefinite_header :: "nat \<Rightarrow> cbor_header" where
  "indefinite_header major =
     (if major = 2 then HBytes None else if major = 3 then HText None
      else if major = 4 then HArray None else HMap None)"

text \<open>
  The reader pulls the header that is encoded where it stands, a break included, and reads as many
  bytes as it is asked for when they are there.
\<close>

definition reads_headers :: "cbor_reader \<Rightarrow> (arg_width \<Rightarrow> nat \<Rightarrow> u64) \<Rightarrow> bytes \<Rightarrow> bool" where
  "reads_headers rd fl bs \<longleftrightarrow>
     (\<forall>i major w n. major < 8 \<longrightarrow> fits w n \<longrightarrow> (major \<in> {2, 3, 4, 5} \<longrightarrow> n \<le> usize_max) \<longrightarrow>
        (major = 7 \<and> w = Arg1 \<longrightarrow> 32 \<le> n) \<longrightarrow> occurs bs i (enc_head major w n) \<longrightarrow>
        cr_pull rd bs i = (Inr (header_of fl major w n), i + Suc (width_bytes w))) \<and>
     (\<forall>i major. major \<in> {2, 3, 4, 5} \<longrightarrow> nth_opt bs i = Some (initial_byte major 31) \<longrightarrow>
        cr_pull rd bs i = (Inr (indefinite_header major), i + 1)) \<and>
     (\<forall>i. nth_opt bs i = Some 0xff \<longrightarrow> cr_pull rd bs i = (Inr HBreak, i + 1)) \<and>
     (\<forall>i n. i + n \<le> length bs \<longrightarrow> cr_read rd bs i n = (Inr (take n (drop i bs)), i + n))"

subsection \<open>The tree\<close>

definition scalar_tree :: "cbor_reader \<Rightarrow> cbor_header \<Rightarrow> nat \<Rightarrow> nat \<Rightarrow> json" where
  "scalar_tree rd h start end = (case scalar_value rd h start end [] of Inr v \<Rightarrow> v | Inl e \<Rightarrow> JNull)"

definition string_token :: "nat \<Rightarrow> bytes \<Rightarrow> nat \<Rightarrow> nat \<Rightarrow> json" where
  "string_token major payload start end =
     (if major = 2 then simple_token ''Bytes'' (JStr (hex_encode payload)) start end
      else simple_token ''String'' (JStr (text_of payload)) start end)"

fun chunk_tokens :: "nat \<Rightarrow> nat \<Rightarrow> (arg_width \<times> bytes) list \<Rightarrow> json list" where
  "chunk_tokens major i [] = []"
| "chunk_tokens major i (c # cs) =
     string_token major (snd c) i (i + length (enc_chunk major c))
     # chunk_tokens major (i + length (enc_chunk major c)) cs"

definition kind_of :: "nat \<Rightarrow> chunk_kind" where
  "kind_of major = (if major = 2 then ByteChunks else TextChunks)"

fun pair_entries :: "json list \<Rightarrow> json list" where
  "pair_entries (k # v # rest) = map_entry k v # pair_entries rest"
| "pair_entries _ = []"

fun key_spans_of :: "nat \<Rightarrow> item list \<Rightarrow> (nat \<times> nat) list" where
  "key_spans_of i (k # v # rest) =
     (i, i + length (encode k)) # key_spans_of (i + length (encode k) + length (encode v)) rest"
| "key_spans_of i _ = []"

definition items_length :: "item list \<Rightarrow> nat" where
  "items_length xs = length (concat (map encode xs))"

fun tree :: "cbor_reader \<Rightarrow> (arg_width \<Rightarrow> nat \<Rightarrow> u64) \<Rightarrow> bytes \<Rightarrow> nat \<Rightarrow> item \<Rightarrow> json"
  and forest :: "cbor_reader \<Rightarrow> (arg_width \<Rightarrow> nat \<Rightarrow> u64) \<Rightarrow> bytes \<Rightarrow> nat \<Rightarrow> item list \<Rightarrow> json list" where
  "tree rd fl bs i (Scalar major w n) =
     scalar_tree rd (header_of fl major w n) i (i + Suc (width_bytes w))"
| "tree rd fl bs i (Str major w payload) =
     string_token major payload i (i + Suc (width_bytes w) + length payload)"
| "tree rd fl bs i (StrIndef major chunks) =
     (let end = i + length (encode (StrIndef major chunks)) in
      attach_oddities
        (JObj (chunks_object i (i + 1) end
          (chunk_tokens major (i + 1) chunks @ [break_token (end - 1) end]) (kind_of major)))
        [oddity IndefiniteLength (chunk_oddity_detail (kind_of major))])"
| "tree rd fl bs i (Arr w xs) =
     (let start = i + Suc (width_bytes w) in
      array_value i start (start + items_length xs) (forest rd fl bs start xs) (Some (length xs)))"
| "tree rd fl bs i (ArrIndef xs) =
     (let end = i + 1 + items_length xs in
      array_value i (i + 1) (end + 1) (forest rd fl bs (i + 1) xs @ [break_token end (end + 1)]) None)"
| "tree rd fl bs i (Assoc w xs) =
     (let start = i + Suc (width_bytes w) in
      map_value bs i start (start + items_length xs) (pair_entries (forest rd fl bs start xs))
        (key_spans_of start xs) (Some (length xs div 2)))"
| "tree rd fl bs i (AssocIndef xs) =
     (let end = i + 1 + items_length xs in
      map_value bs i (i + 1) (end + 1)
        (pair_entries (forest rd fl bs (i + 1) xs) @ [break_token end (end + 1)])
        (key_spans_of (i + 1) xs) None)"
| "tree rd fl bs i (Tagged w n x) =
     (let start = i + Suc (width_bytes w) in
      tag_value rd i start (start + length (encode x)) (of_nat n) (tree rd fl bs start x))"
| "forest rd fl bs i [] = []"
| "forest rd fl bs i (x # xs) = tree rd fl bs i x # forest rd fl bs (i + length (encode x)) xs"

subsection \<open>What can be decoded\<close>

text \<open>
  A JSON number holds neither an integer below that of 64 bits nor a float that is not finite, and
  a text is UTF-8. A simple value of two bytes is at least 32.
\<close>

fun decodable :: "(arg_width \<Rightarrow> nat \<Rightarrow> u64) \<Rightarrow> item \<Rightarrow> bool" where
  "decodable fl (Scalar major w n) =
     ((major = 1 \<longrightarrow> n < 2 ^ 63) \<and>
      (major = 7 \<longrightarrow> w = Inline \<or> w = Arg1 \<and> 32 \<le> n \<or> w \<noteq> Arg1 \<and> f64_is_finite (fl w n)))"
| "decodable fl (Str major w payload) = (major = 3 \<longrightarrow> valid_utf8 payload)"
| "decodable fl (StrIndef major chunks) = (major = 3 \<longrightarrow> (\<forall>c \<in> set chunks. valid_utf8 (snd c)))"
| "decodable fl (Arr w xs) = (\<forall>x \<in> set xs. decodable fl x)"
| "decodable fl (ArrIndef xs) = (\<forall>x \<in> set xs. decodable fl x)"
| "decodable fl (Assoc w xs) = (\<forall>x \<in> set xs. decodable fl x)"
| "decodable fl (AssocIndef xs) = (\<forall>x \<in> set xs. decodable fl x)"
| "decodable fl (Tagged w n x) = decodable fl x"

end
