(* ===== verification/Diagnostic_Match.thy ===== *)
theory Diagnostic_Match
  imports Diagnostic Decoder_Tree
begin

text \<open>
  The match of a data item against a node of the decoded tree (\<open>node_matches\<close> and what it calls
  in \<^verbatim>\<open>src/src/cbor/diagnostic.rs\<close>).
\<close>

unbundle bit_operations_syntax

subsection \<open>Reading a node\<close>

definition json_as_array :: "json \<Rightarrow> json list option" where
  "json_as_array v = (case v of JArr xs \<Rightarrow> Some xs | _ \<Rightarrow> None)"

definition json_as_bool :: "json \<Rightarrow> bool option" where
  "json_as_bool v = (case v of JBool b \<Rightarrow> Some b | _ \<Rightarrow> None)"

definition json_as_u64 :: "json \<Rightarrow> u64 option" where
  "json_as_u64 v = (case v of JNum (PosInt n) \<Rightarrow> Some n | _ \<Rightarrow> None)"

definition json_as_f64 :: "float_library \<Rightarrow> json \<Rightarrow> u64 option" where
  "json_as_f64 lib v =
     (case v of
        JNum (PosInt n) \<Rightarrow> Some (fl_of_int lib (uint n))
      | JNum (NegInt n) \<Rightarrow> Some (fl_of_int lib (sint n))
      | JNum (FloatBits f) \<Rightarrow> Some f
      | _ \<Rightarrow> None)"

text \<open>A member of a node that is a string, and the one that says what the node is.\<close>

definition node_str :: "json \<Rightarrow> string \<Rightarrow> string option" where
  "node_str node key = Option.bind (json_get node key) json_as_str"

definition node_kind :: "json \<Rightarrow> string" where
  "node_kind node = (case node_str node ''type'' of Some t \<Rightarrow> t | None \<Rightarrow> [])"

definition without_break :: "json list \<Rightarrow> json list" where
  "without_break xs = filter (\<lambda>v. node_str v ''type'' \<noteq> Some ''Break'') xs"

definition node_values :: "json \<Rightarrow> json list option" where
  "node_values node = Option.bind (json_get node ''values'') json_as_array"

subsection \<open>Scalars\<close>

text \<open>\<open>==\<close> of two floats: their bits, except that no NaN equals anything and the zeros are equal.\<close>

definition f64_eq :: "u64 \<Rightarrow> u64 \<Rightarrow> bool" where
  "f64_eq a b \<longleftrightarrow>
     \<not> f64_is_nan a \<and> \<not> f64_is_nan b \<and>
     (a = b \<or> a AND 0x7FFFFFFFFFFFFFFF = 0 \<and> b AND 0x7FFFFFFFFFFFFFFF = 0)"

definition int_kinds :: "string list" where
  "int_kinds = [''U8'', ''U16'', ''U32'', ''U64'', ''I8'', ''I16'', ''I32'', ''I64'', ''Int'']"

definition int_node_is :: "float_library \<Rightarrow> json \<Rightarrow> int \<Rightarrow> bool" where
  "int_node_is lib node n \<longleftrightarrow>
     node_kind node \<in> set int_kinds \<and>
     (case json_get node ''value'' of
        Some (JNum num) \<Rightarrow>
          (case number_as_i64 num of
             Some v \<Rightarrow> v = n
           | None \<Rightarrow>
               (case json_as_u64 (JNum num) of
                  Some v \<Rightarrow> uint v = n
                | None \<Rightarrow> number_text (fl_show lib) num = signed_decimal n))
      | _ \<Rightarrow> False)"

fun chunks_spell :: "json list \<Rightarrow> string \<Rightarrow> bool" where
  "chunks_spell [] rest \<longleftrightarrow> rest = []"
| "chunks_spell (c # cs) rest \<longleftrightarrow>
     (if node_str c ''type'' = Some ''Break'' then chunks_spell cs rest
      else
        case node_str c ''value'' of
          None \<Rightarrow> False
        | Some part \<Rightarrow>
            (case eat_literal part rest of None \<Rightarrow> False | Some after \<Rightarrow> chunks_spell cs after))"

definition string_payload_is :: "json \<Rightarrow> string \<Rightarrow> string \<Rightarrow> string \<Rightarrow> bool" where
  "string_payload_is node whole chunked want =
     (case node_str node ''type'' of
        None \<Rightarrow> False
      | Some kind \<Rightarrow>
          if kind = whole then node_str node ''value'' = Some want
          else if kind \<noteq> chunked then False
          else
            (case Option.bind (json_get node ''chunks'') json_as_array of
               None \<Rightarrow> False
             | Some chunks \<Rightarrow> chunks_spell chunks want))"

fun splice_chunks :: "string \<Rightarrow> json list \<Rightarrow> string option" where
  "splice_chunks out [] = Some out"
| "splice_chunks out (c # cs) =
     (if node_str c ''type'' = Some ''Break'' then splice_chunks out cs
      else case node_str c ''value'' of None \<Rightarrow> None | Some part \<Rightarrow> splice_chunks (out @ part) cs)"

definition string_payload :: "json \<Rightarrow> string \<Rightarrow> string \<Rightarrow> string option" where
  "string_payload node whole chunked =
     (case node_str node ''type'' of
        None \<Rightarrow> None
      | Some kind \<Rightarrow>
          if kind = whole then node_str node ''value''
          else if kind = chunked then
            Option.bind (Option.bind (json_get node ''chunks'') json_as_array) (splice_chunks [])
          else None)"

subsection \<open>The match\<close>

function (sequential) node_matches :: "float_library \<Rightarrow> json \<Rightarrow> diag \<Rightarrow> bool"
  and items_match :: "float_library \<Rightarrow> json list \<Rightarrow> diag list \<Rightarrow> bool"
  and entries_match :: "float_library \<Rightarrow> json list \<Rightarrow> (diag \<times> diag) list \<Rightarrow> bool" where
  "node_matches lib node (DInt n) = int_node_is lib node n"
| "node_matches lib node (DBytes b) =
     string_payload_is node ''Bytes'' ''IndefiniteLengthBytes'' (hex_encode b)"
| "node_matches lib node (DText t) = string_payload_is node ''String'' ''IndefiniteLengthString'' t"
| "node_matches lib node (DFloat f) =
     (node_kind node \<in> {''F16'', ''F32'', ''F64''} \<and>
      (case Option.bind (json_get node ''value'') (json_as_f64 lib) of
         Some v \<Rightarrow> f64_eq v f \<or> f64_is_nan v \<and> f64_is_nan f
       | None \<Rightarrow> False))"
| "node_matches lib node (DBool b) =
     (node_kind node = ''Bool'' \<and> Option.bind (json_get node ''value'') json_as_bool = Some b)"
| "node_matches lib node DNull = (node_kind node \<in> {''Null'', ''Undefined''})"
| "node_matches lib node (DSimple n) =
     (node_kind node = ''Simple'' \<and> Option.bind (json_get node ''value'') json_as_u64 = Some (ucast n))"
| "node_matches lib node (DTag tag inner) =
     (node_kind node = ''Tag'' \<and> Option.bind (node_str node ''tag'') tag_number = Some tag \<and>
      (case json_get node ''value'' of Some v \<Rightarrow> node_matches lib v inner | None \<Rightarrow> False))"
| "node_matches lib node (DArr items) =
     (node_kind node = ''Array'' \<and>
      (case node_values node of
         Some vs \<Rightarrow> items_match lib (without_break vs) items
       | None \<Rightarrow> False))"
| "node_matches lib node (DMap entries) =
     (node_kind node = ''Map'' \<and>
      (case node_values node of
         Some vs \<Rightarrow> entries_match lib (without_break vs) entries
       | None \<Rightarrow> False))"
| "items_match lib [] [] = True"
| "items_match lib (v # vs) (x # xs) = (node_matches lib v x \<and> items_match lib vs xs)"
| "items_match lib _ _ = False"
| "entries_match lib [] [] = True"
| "entries_match lib (e # es) ((k, v) # kvs) =
     ((case json_get e ''key'' of Some node \<Rightarrow> node_matches lib node k | None \<Rightarrow> False) \<and>
      (case json_get e ''value'' of Some node \<Rightarrow> node_matches lib node v | None \<Rightarrow> False) \<and>
      entries_match lib es kvs)"
| "entries_match lib _ _ = False"
  by pat_completeness auto
termination
  by (relation "measure (case_sum (\<lambda>(lib, node, x). size x)
      (case_sum (\<lambda>(lib, vs, xs). size_list size xs)
        (\<lambda>(lib, es, kvs). size_list (size_prod size size) kvs)))") simp_all

subsection \<open>What a data item denotes\<close>

text \<open>
  The value of a data item, whatever widths it is written in and however its strings are chunked;
  the widening of a float's bits is \<open>fl\<close>.
\<close>

definition scalar_diag :: "(arg_width \<Rightarrow> nat \<Rightarrow> u64) \<Rightarrow> nat \<Rightarrow> arg_width \<Rightarrow> nat \<Rightarrow> diag" where
  "scalar_diag fl major w n =
     (if major = 0 then DInt (int n)
      else if major = 1 then DInt (- 1 - int n)
      else if w \<noteq> Inline \<and> w \<noteq> Arg1 then DFloat (fl w n)
      else if n = 20 then DBool False
      else if n = 21 then DBool True
      else if n = 22 \<or> n = 23 then DNull
      else DSimple (of_nat n))"

fun diag_of :: "(arg_width \<Rightarrow> nat \<Rightarrow> u64) \<Rightarrow> item \<Rightarrow> diag" where
  "diag_of fl (Scalar major w n) = scalar_diag fl major w n"
| "diag_of fl (Str major w payload) =
     (if major = 2 then DBytes payload else DText (text_of payload))"
| "diag_of fl (StrIndef major cs) =
     (let payload = concat (map snd cs) in
      if major = 2 then DBytes payload else DText (text_of payload))"
| "diag_of fl (Arr w xs) = DArr (map (diag_of fl) xs)"
| "diag_of fl (ArrIndef xs) = DArr (map (diag_of fl) xs)"
| "diag_of fl (Assoc w xs) = DMap (pair_up (map (diag_of fl) xs))"
| "diag_of fl (AssocIndef xs) = DMap (pair_up (map (diag_of fl) xs))"
| "diag_of fl (Tagged w n x) = DTag (of_nat n) (diag_of fl x)"

text \<open>Equality of values, with the floats compared as floats.\<close>

fun diag_eq :: "diag \<Rightarrow> diag \<Rightarrow> bool" where
  "diag_eq (DFloat a) (DFloat b) = (f64_eq a b \<or> f64_is_nan a \<and> f64_is_nan b)"
| "diag_eq (DTag t x) (DTag u y) = (t = u \<and> diag_eq x y)"
| "diag_eq (DArr xs) (DArr ys) = list_all2 diag_eq xs ys"
| "diag_eq (DMap xs) (DMap ys) =
     list_all2 (\<lambda>p q. diag_eq (fst p) (fst q) \<and> diag_eq (snd p) (snd q)) xs ys"
| "diag_eq x y = (x = y)"

end
