(* ===== verification/Decoder_Facts.thy ===== *)
theory Decoder_Facts
  imports Decoder_Tree Limits_Depth
begin

text \<open>
  The loop of the decoder is the recursion over the item: on the encoding of an item it builds the
  item's tree, whatever surrounds the item and whatever containers are open around it.
\<close>

subsection \<open>Attaching and going on\<close>

definition settle ::
  "cbor_reader \<Rightarrow> bytes \<Rightarrow> json \<Rightarrow> path \<Rightarrow> container_frame list \<Rightarrow> nat \<Rightarrow> (failure + json \<times> nat) option" where
  "settle rd bs v path frames offset =
     (case attach rd bs v path frames offset of
        Finished v' end \<Rightarrow> Some (Inr (v', end))
      | Continue path' frames' offset' \<Rightarrow> decode_loop rd bs path' frames' offset'
      | Failed e path' frames' offset' \<Rightarrow> Some (Inl (unwind (e, None) frames' path' offset')))"

lemma settle_root [simp]: "settle rd bs v path [] offset = Some (Inr (v, offset))"
  by (simp add: settle_def)

lemma settle_tag [simp]:
  "settle rd bs v (seg # path) (OpenTag start header_end tag # frames) offset =
     settle rd bs (tag_value rd start header_end offset tag v) path frames offset"
  by (simp add: settle_def)

lemma settle_key [simp]:
  "settle rd bs v (seg # path) (OpenMap start header_end len entries spans key_start None # frames) offset =
     decode_loop rd bs (MapEntry (length entries) Value # path)
       (OpenMap start header_end len entries spans key_start (Some (v, offset)) # frames) offset"
  by (simp add: settle_def)

lemma loop_item:
  "decode_turn rd bs path frames i = Some (Inr (Item v), path', frames', j) \<Longrightarrow>
     decode_loop rd bs path frames i = settle rd bs v path' frames' j"
  by (simp add: decode_loop.simps [of rd bs path frames i] settle_def)

lemma loop_opened:
  "decode_turn rd bs path frames i = Some (Inr Opened, path', frames', j) \<Longrightarrow>
     decode_loop rd bs path frames i = decode_loop rd bs path' frames' j"
  by (simp add: decode_loop.simps [of rd bs path frames i])

text \<open>Whether a container of a length takes another item after \<open>k\<close>, and where it stands then.\<close>

definition more_items :: "bytes \<Rightarrow> nat option \<Rightarrow> nat \<Rightarrow> nat \<Rightarrow> bool" where
  "more_items bs len k offset \<longleftrightarrow>
     (case len of Some n \<Rightarrow> k < n | None \<Rightarrow> \<exists>b. nth_opt bs offset = Some b \<and> b \<noteq> 0xff)"

definition no_more_items :: "bytes \<Rightarrow> nat option \<Rightarrow> nat \<Rightarrow> nat \<Rightarrow> bool" where
  "no_more_items bs len k offset \<longleftrightarrow>
     (case len of Some n \<Rightarrow> k = n | None \<Rightarrow> nth_opt bs offset = Some 0xff)"

definition break_of :: "nat option \<Rightarrow> nat \<Rightarrow> json list" where
  "break_of len offset = (if len = None then [break_token offset (offset + 1)] else [])"

definition end_of :: "nat option \<Rightarrow> nat \<Rightarrow> nat" where
  "end_of len offset = (if len = None then offset + 1 else offset)"

lemma next_index_more:
  "more_items bs len (length items) offset \<Longrightarrow>
     next_index rd bs path len items offset = (Inr (Some (length items), items), offset)"
  by (auto simp: more_items_def next_index_def consume_break_def split: option.splits)

lemma next_index_done:
  assumes "reads_headers rd fl bs" "no_more_items bs len (length items) offset"
  shows "next_index rd bs path len items offset =
    (Inr (None, items @ break_of len offset), end_of len offset)"
  using assms
  by (auto simp: no_more_items_def next_index_def consume_break_def break_of_def end_of_def
      reads_headers_def pull_header_def split: option.splits)

lemma settle_array_more:
  assumes "more_items bs len (Suc (length values)) offset"
  shows "settle rd bs v (seg # path) (OpenArray start header_end len values # frames) offset =
    decode_loop rd bs (ArrayIdx (Suc (length values)) # path)
      (OpenArray start header_end len (values @ [v]) # frames) offset"
  using next_index_more [of bs len "values @ [v]" offset] assms
  by (simp add: settle_def advance_def Let_def)

lemma settle_array_done:
  assumes "reads_headers rd fl bs" "no_more_items bs len (Suc (length values)) offset"
  shows "settle rd bs v (seg # path) (OpenArray start header_end len values # frames) offset =
    settle rd bs (array_value start header_end (end_of len offset)
        (values @ [v] @ break_of len offset) len) path frames (end_of len offset)"
  using next_index_done [OF assms(1), of len "values @ [v]" offset] assms(2)
  by (simp add: settle_def advance_def Let_def)

lemma settle_value_more:
  assumes "more_items bs len (Suc (length entries)) offset"
  shows "settle rd bs v (seg # path)
      (OpenMap start header_end len entries spans key_start (Some (k, key_end)) # frames) offset =
    decode_loop rd bs (MapEntry (Suc (length entries)) Key # path)
      (OpenMap start header_end len (entries @ [map_entry k v]) (spans @ [(key_start, key_end)])
         offset None # frames) offset"
  using next_index_more [of bs len "entries @ [map_entry k v]" offset] assms
  by (simp add: settle_def advance_def Let_def)

lemma settle_value_done:
  assumes "reads_headers rd fl bs" "no_more_items bs len (Suc (length entries)) offset"
  shows "settle rd bs v (seg # path)
      (OpenMap start header_end len entries spans key_start (Some (k, key_end)) # frames) offset =
    settle rd bs (map_value bs start header_end (end_of len offset)
        (entries @ [map_entry k v] @ break_of len offset) (spans @ [(key_start, key_end)]) len)
      path frames (end_of len offset)"
  using next_index_done [OF assms(1), of len "entries @ [map_entry k v]" offset] assms(2)
  by (simp add: settle_def advance_def Let_def)

subsection \<open>One header\<close>

lemma pull_documented:
  assumes "reads_headers rd fl bs" "occurs bs i (enc_head major w n)" "major < 8" "fits w n"
    "major \<in> {2, 3, 4, 5} \<Longrightarrow> n \<le> usize_max" "major = 7 \<and> w = Arg1 \<Longrightarrow> 32 \<le> n"
  shows "pull_header rd bs path i = (Inr (header_of fl major w n), i + Suc (width_bytes w))"
  using assms by (simp add: reads_headers_def pull_header_def)

lemma turn_header:
  assumes "length path \<le> MAX_CBOR_DECODE_NESTING_DEPTH" "pull_header rd bs path i = (Inr h, j)"
  shows "decode_turn rd bs path frames i = decode_header rd bs h i path frames j"
  using assms by (simp add: decode_turn_def)

lemma read_chunks_whole:
  assumes "reads_headers rd fl bs"
  shows "i + n \<le> length bs \<Longrightarrow>
    read_chunks rd bs path before n i buf = (Inr (buf @ take n (drop i bs)), i + n)"
proof (induction n arbitrary: i buf rule: less_induct)
  case (less n)
  show ?case
  proof (cases "n = 0")
    case True
    then show ?thesis by (simp add: read_chunks.simps [of rd bs path before 0 i buf])
  next
    case False
    define step where "step = min n READ_CHUNK"
    have step: "0 < step" "step \<le> n" using False by (simp_all add: step_def READ_CHUNK_def)
    then have "cr_read rd bs i step = (Inr (take step (drop i bs)), i + step)"
      using assms less.prems by (simp add: reads_headers_def)
    moreover have "read_chunks rd bs path before (n - step) (i + step) (buf @ take step (drop i bs)) =
        (Inr (buf @ take n (drop i bs)), i + n)"
      using less.IH [of "n - step" "i + step" "buf @ take step (drop i bs)"] less.prems step False
        take_add [of step "n - step" "drop i bs"]
      by (simp add: drop_drop add.commute)
    ultimately show ?thesis
      using False by (simp add: read_chunks.simps [of rd bs path before n i buf] step_def [symmetric])
  qed
qed

lemma read_exact_documented:
  assumes "reads_headers rd fl bs" "occurs bs i payload"
  shows "read_exact rd bs path (length payload) i = (Inr payload, i + length payload)"
  using read_chunks_whole [OF assms(1), of i "length payload" path i "[]"] assms(2)
  by (simp add: read_exact_def occurs_def)

subsection \<open>Items without items\<close>

lemma scalar_value_path: "scalar_value rd h start end path = Inr v \<Longrightarrow> scalar_value rd h start end [] = Inr v"
  by (auto simp: scalar_value_def negative_value_def number_from_f64_def Let_def
      split: cbor_header.splits sum.splits if_splits option.splits)

lemma scalar_value_decodable:
  assumes "well_formed (Scalar major w n)" "decodable fl (Scalar major w n)"
  shows "scalar_value rd (header_of fl major w n) start end path =
    Inr (scalar_tree rd (header_of fl major w n) start end)"
proof -
  have "\<exists>v. scalar_value rd (header_of fl major w n) start end path = Inr v"
  proof -
    have "n < 2 ^ 63 \<Longrightarrow> uint (of_nat n :: u64) = int n"
      by (simp add: unsigned_of_nat take_bit_eq_mod)
    with assms show ?thesis
      by (auto simp: scalar_value_def header_of_def negative_value_def number_from_f64_def Let_def)
  qed
  then obtain v where v: "scalar_value rd (header_of fl major w n) start end path = Inr v" ..
  from scalar_value_path [OF this] v show ?thesis by (simp add: scalar_tree_def)
qed

definition decodes :: "cbor_reader \<Rightarrow> (arg_width \<Rightarrow> nat \<Rightarrow> u64) \<Rightarrow> bytes \<Rightarrow> item \<Rightarrow> bool" where
  "decodes rd fl bs x \<longleftrightarrow>
     (\<forall>i path frames. occurs bs i (encode x) \<longrightarrow>
        length path + item_depth x \<le> MAX_CBOR_DECODE_NESTING_DEPTH \<longrightarrow>
        decode_loop rd bs path frames i =
          settle rd bs (tree rd fl bs i x) path frames (i + length (encode x)))"

lemma decodes_scalar:
  assumes "reads_headers rd fl bs" "well_formed (Scalar major w n)" "decodable fl (Scalar major w n)"
  shows "decodes rd fl bs (Scalar major w n)"
  unfolding decodes_def
proof (intro allI impI)
  fix i and path :: path and frames
  assume occ: "occurs bs i (encode (Scalar major w n))"
    and depth: "length path + item_depth (Scalar major w n) \<le> MAX_CBOR_DECODE_NESTING_DEPTH"
  have major: "major \<in> {0, 1, 7}" "fits w n" using assms(2) by simp_all
  have pull: "pull_header rd bs path i = (Inr (header_of fl major w n), i + Suc (width_bytes w))"
    using assms(1,3) occ major by (intro pull_documented) auto
  let ?v = "scalar_tree rd (header_of fl major w n) i (i + Suc (width_bytes w))"
  have "decode_turn rd bs path frames i = Some (Inr (Item ?v), path, frames, i + Suc (width_bytes w))"
    using turn_header [OF _ pull, of frames] depth major
      scalar_value_decodable [OF assms(2,3), of rd i "i + Suc (width_bytes w)" path]
    by (auto simp: decode_header_def header_of_def leaf_def)
  from loop_item [OF this] show "decode_loop rd bs path frames i =
      settle rd bs (tree rd fl bs i (Scalar major w n)) path frames (i + length (encode (Scalar major w n)))"
    by simp
qed

lemma fits_usize: "i + n \<le> length bs \<Longrightarrow> length bs \<le> usize_max \<Longrightarrow> n \<le> usize_max"
  by simp

lemma decodes_string:
  assumes "reads_headers rd fl bs" "length bs \<le> usize_max" "well_formed (Str major w payload)"
    "decodable fl (Str major w payload)"
  shows "decodes rd fl bs (Str major w payload)"
  unfolding decodes_def
proof (intro allI impI)
  fix i and path :: path and frames
  assume occ: "occurs bs i (encode (Str major w payload))"
    and depth: "length path + item_depth (Str major w payload) \<le> MAX_CBOR_DECODE_NESTING_DEPTH"
  have major: "major \<in> {2, 3}" "fits w (length payload)" using assms(3) by simp_all
  from occ have head: "occurs bs i (enc_head major w (length payload))"
    and body: "occurs bs (i + Suc (width_bytes w)) payload"
    by (simp_all add: occurs_append)
  have small: "length payload \<le> usize_max" using occurs_length [OF body] assms(2) by simp
  have pull: "pull_header rd bs path i =
      (Inr (header_of fl major w (length payload)), i + Suc (width_bytes w))"
    using assms(1) head major small by (intro pull_documented) auto
  let ?stop = "i + Suc (width_bytes w) + length payload"
  have "decode_turn rd bs path frames i =
      Some (Inr (Item (string_token major payload i ?stop)), path, frames, ?stop)"
    using turn_header [OF _ pull, of frames] depth major assms(4)
      read_exact_documented [OF assms(1) body, of path]
    by (auto simp: decode_header_def header_of_def leaf_def bytes_value_def text_value_def string_token_def)
  from loop_item [OF this] show "decode_loop rd bs path frames i =
      settle rd bs (tree rd fl bs i (Str major w payload)) path frames
        (i + length (encode (Str major w payload)))"
    by (simp add: add.assoc)
qed

subsection \<open>Chunked strings\<close>

lemma kind_of_simps [simp]: "kind_of 2 = ByteChunks" "kind_of 3 = TextChunks"
  by (simp_all add: kind_of_def)

lemma chunk_turn_documented:
  assumes "reads_headers rd fl bs" "length bs \<le> usize_max" "occurs bs i (enc_chunk major c)"
    "major \<in> {2, 3}" "fits (fst c) (length (snd c))" "major = 3 \<Longrightarrow> valid_utf8 (snd c)"
  shows "chunk_turn rd bs (kind_of major) path i =
    (NextChunk (string_token major (snd c) i (i + length (enc_chunk major c))),
     i + length (enc_chunk major c))"
proof -
  from assms(3) have head: "occurs bs i (enc_head major (fst c) (length (snd c)))"
    and body: "occurs bs (i + Suc (width_bytes (fst c))) (snd c)"
    by (simp_all add: enc_chunk_def occurs_append)
  have "length (snd c) \<le> usize_max" using occurs_length [OF body] assms(2) by simp
  then have "pull_header rd bs path i =
      (Inr (header_of fl major (fst c) (length (snd c))), i + Suc (width_bytes (fst c)))"
    using assms(1,4,5) head by (intro pull_documented) auto
  then show ?thesis
    using assms(4,6) read_exact_documented [OF assms(1) body, of path]
    by (auto simp: chunk_turn_def header_of_def read_chunk_def string_token_def enc_chunk_def
        Let_def add.assoc)
qed

lemma chunk_turn_break:
  assumes "reads_headers rd fl bs" "nth_opt bs i = Some 0xff"
  shows "chunk_turn rd bs kind path i = (LastChunk (break_token i (i + 1)), i + 1)"
  using assms by (simp add: chunk_turn_def pull_header_def reads_headers_def Let_def)

lemma chunk_loop_documented:
  assumes "reads_headers rd fl bs" "length bs \<le> usize_max" "major \<in> {2, 3}"
  shows "\<forall>c \<in> set cs. fits (fst c) (length (snd c)) \<and> (major = 3 \<longrightarrow> valid_utf8 (snd c)) \<Longrightarrow>
    occurs bs i (concat (map (enc_chunk major) cs) @ [0xff]) \<Longrightarrow>
    e = i + length (concat (map (enc_chunk major) cs)) \<Longrightarrow>
    chunk_loop rd bs (kind_of major) path start header_end acc idx i =
      Some (Inr (acc @ chunk_tokens major i cs @ [break_token e (e + 1)]), e + 1)"
proof (induction cs arbitrary: i acc idx)
  case Nil
  then show ?case
    using chunk_turn_break [OF assms(1), of i "kind_of major" "Chunk idx # path"]
    by (simp add: chunk_loop.simps [of rd bs "kind_of major" path start header_end acc idx i] occurs_Cons)
next
  case (Cons c cs)
  have "chunk_turn rd bs (kind_of major) (Chunk idx # path) i =
      (NextChunk (string_token major (snd c) i (i + length (enc_chunk major c))),
       i + length (enc_chunk major c))"
    using Cons.prems by (intro chunk_turn_documented [OF assms(1,2) _ assms(3)]) (simp_all add: occurs_append)
  moreover have "chunk_loop rd bs (kind_of major) path start header_end
      (acc @ [string_token major (snd c) i (i + length (enc_chunk major c))]) (idx + 1)
      (i + length (enc_chunk major c)) = Some (Inr (acc @ chunk_tokens major i (c # cs) @
        [break_token e (e + 1)]), e + 1)"
    using Cons.IH [of "i + length (enc_chunk major c)"
        "acc @ [string_token major (snd c) i (i + length (enc_chunk major c))]" "idx + 1"] Cons.prems
    by (simp add: occurs_append add.assoc)
  ultimately show ?case
    by (simp add: chunk_loop.simps [of rd bs "kind_of major" path start header_end acc idx i])
qed

lemma decodes_chunked:
  assumes "reads_headers rd fl bs" "length bs \<le> usize_max" "well_formed (StrIndef major chunks)"
    "decodable fl (StrIndef major chunks)"
  shows "decodes rd fl bs (StrIndef major chunks)"
  unfolding decodes_def
proof (intro allI impI)
  fix i and path :: path and frames
  let ?x = "StrIndef major chunks"
  let ?body = "concat (map (enc_chunk major) chunks)"
  let ?e = "i + 1 + length ?body"
  assume occ: "occurs bs i (encode ?x)"
    and depth: "length path + item_depth ?x \<le> MAX_CBOR_DECODE_NESTING_DEPTH"
  have major: "major \<in> {2, 3}" using assms(3) by simp
  have "nth_opt bs i = Some (initial_byte major 31)" and body: "occurs bs (i + 1) (?body @ [0xff])"
    using occ by (simp_all add: occurs_Cons)
  then have pull: "pull_header rd bs path i = (Inr (indefinite_header major), i + 1)"
    using assms(1) major by (auto simp: pull_header_def reads_headers_def)
  have "chunk_loop rd bs (kind_of major) path i (i + 1) [] 0 (i + 1) =
      Some (Inr ([] @ chunk_tokens major (i + 1) chunks @ [break_token ?e (?e + 1)]), ?e + 1)"
    using assms(3,4) body by (intro chunk_loop_documented [OF assms(1,2) major]) auto
  then have "decode_turn rd bs path frames i =
      Some (Inr (Item (tree rd fl bs i ?x)), path, frames, i + length (encode ?x))"
    using turn_header [OF _ pull, of frames] depth major
    by (auto simp: decode_header_def indefinite_header_def leaf_def decode_indefinite_chunks_def Let_def
        add.assoc)
  from loop_item [OF this] show "decode_loop rd bs path frames i =
      settle rd bs (tree rd fl bs i ?x) path frames (i + length (encode ?x))" .
qed

subsection \<open>Containers\<close>

text \<open>
  The items of an array or map still to come. What an item must satisfy is \<open>fits_at\<close>: it decodes
  to its tree, its levels are within the limit, and it does not begin with a break.
\<close>

definition fits_at :: "cbor_reader \<Rightarrow> (arg_width \<Rightarrow> nat \<Rightarrow> u64) \<Rightarrow> bytes \<Rightarrow> path \<Rightarrow> item \<Rightarrow> bool" where
  "fits_at rd fl bs path x \<longleftrightarrow>
     decodes rd fl bs x \<and> well_formed x \<and>
     length path + Suc (item_depth x) \<le> MAX_CBOR_DECODE_NESTING_DEPTH"

lemma fits_at_decodes:
  assumes "fits_at rd fl bs path x" "occurs bs i (encode x)"
  shows "decode_loop rd bs (seg # path) frames i =
    settle rd bs (tree rd fl bs i x) (seg # path) frames (i + length (encode x))"
  using assms by (simp add: fits_at_def decodes_def)

lemma more_before_item:
  assumes "well_formed x" "occurs bs i (encode x)" "no_more_items bs len n e" "k < n"
  shows "more_items bs len k i"
proof -
  have "encode x \<noteq> []" by (cases x) (simp_all add: enc_head_def)
  then have "i < length bs" using occurs_length [OF assms(2)] by (cases "encode x") auto
  then show ?thesis
    using assms not_break_encode [OF assms(1,2)]
    by (auto simp: more_items_def no_more_items_def is_break_def nth_opt_def split: option.splits if_splits)
qed

lemma array_items:
  assumes "reads_headers rd fl bs"
  shows "xs \<noteq> [] \<Longrightarrow> \<forall>x \<in> set xs. fits_at rd fl bs path x \<Longrightarrow> occurs bs i (concat (map encode xs)) \<Longrightarrow>
    no_more_items bs len (length vs + length xs) e \<Longrightarrow> e = i + items_length xs \<Longrightarrow>
    decode_loop rd bs (ArrayIdx (length vs) # path) (OpenArray start header_end len vs # frames) i =
      settle rd bs (array_value start header_end (end_of len e)
          (vs @ forest rd fl bs i xs @ break_of len e) len) path frames (end_of len e)"
proof (induction xs arbitrary: vs i)
  case (Cons x xs)
  have now: "decode_loop rd bs (ArrayIdx (length vs) # path)
        (OpenArray start header_end len vs # frames) i =
      settle rd bs (tree rd fl bs i x) (ArrayIdx (length vs) # path)
        (OpenArray start header_end len vs # frames) (i + length (encode x))"
    using Cons.prems by (intro fits_at_decodes) (simp_all add: occurs_append)
  show ?case
  proof (cases xs)
    case Nil
    then show ?thesis
      using now Cons.prems settle_array_done [OF assms, of len vs e]
      by (simp add: items_length_def)
  next
    case (Cons y ys)
    have "more_items bs len (Suc (length vs)) (i + length (encode x))"
      using Cons Cons.prems
      by (intro more_before_item [where x = y and n = "length vs + length (x # xs)" and e = e])
        (simp_all add: occurs_append fits_at_def)
    then have "settle rd bs (tree rd fl bs i x) (ArrayIdx (length vs) # path)
        (OpenArray start header_end len vs # frames) (i + length (encode x)) =
      decode_loop rd bs (ArrayIdx (length (vs @ [tree rd fl bs i x])) # path)
        (OpenArray start header_end len (vs @ [tree rd fl bs i x]) # frames) (i + length (encode x))"
      by (simp add: settle_array_more)
    also have "\<dots> = settle rd bs (array_value start header_end (end_of len e)
          ((vs @ [tree rd fl bs i x]) @ forest rd fl bs (i + length (encode x)) xs @ break_of len e) len)
        path frames (end_of len e)"
      using Cons Cons.prems by (intro Cons.IH) (simp_all add: occurs_append items_length_def add.assoc)
    finally show ?thesis using now by simp
  qed
qed simp

lemma map_items:
  assumes "reads_headers rd fl bs"
  shows "xs \<noteq> [] \<Longrightarrow> even (length xs) \<Longrightarrow> \<forall>x \<in> set xs. fits_at rd fl bs path x \<Longrightarrow>
    occurs bs i (concat (map encode xs)) \<Longrightarrow>
    no_more_items bs len (length entries + length xs div 2) e \<Longrightarrow> e = i + items_length xs \<Longrightarrow>
    decode_loop rd bs (MapEntry (length entries) Key # path)
        (OpenMap start header_end len entries spans i None # frames) i =
      settle rd bs (map_value bs start header_end (end_of len e)
          (entries @ pair_entries (forest rd fl bs i xs) @ break_of len e)
          (spans @ key_spans_of i xs) len) path frames (end_of len e)"
proof (induction xs arbitrary: entries spans i rule: pair_up.induct)
  case (1 k v xs)
  let ?j = "i + length (encode k)"
  let ?l = "?j + length (encode v)"
  let ?k = "tree rd fl bs i k" and ?v = "tree rd fl bs ?j v"
  let ?entries = "entries @ [map_entry ?k ?v]" and ?spans = "spans @ [(i, ?j)]"
  have key: "decode_loop rd bs (MapEntry (length entries) Key # path)
        (OpenMap start header_end len entries spans i None # frames) i =
      decode_loop rd bs (MapEntry (length entries) Value # path)
        (OpenMap start header_end len entries spans i (Some (?k, ?j)) # frames) ?j"
    using 1(4,5) fits_at_decodes [of rd fl bs path k i] by (simp add: occurs_append)
  also have "\<dots> = settle rd bs ?v (MapEntry (length entries) Value # path)
        (OpenMap start header_end len entries spans i (Some (?k, ?j)) # frames) ?l"
    using 1(4,5) by (intro fits_at_decodes) (simp_all add: occurs_append)
  finally have now: "decode_loop rd bs (MapEntry (length entries) Key # path)
        (OpenMap start header_end len entries spans i None # frames) i =
      settle rd bs ?v (MapEntry (length entries) Value # path)
        (OpenMap start header_end len entries spans i (Some (?k, ?j)) # frames) ?l" .
  show ?case
  proof (cases xs)
    case Nil
    then show ?thesis
      using now 1(6,7) settle_value_done [OF assms, of len entries e]
      by (simp add: items_length_def add.assoc)
  next
    case (Cons y ys)
    have "0 < length xs div 2" using Cons 1(3) by (cases ys) auto
    then have "more_items bs len (Suc (length entries)) ?l"
      using Cons 1(4-7)
      by (intro more_before_item [where x = y and n = "length entries + length (k # v # xs) div 2" and e = e])
        (simp_all add: occurs_append fits_at_def)
    then have "settle rd bs ?v (MapEntry (length entries) Value # path)
        (OpenMap start header_end len entries spans i (Some (?k, ?j)) # frames) ?l =
      decode_loop rd bs (MapEntry (length ?entries) Key # path)
        (OpenMap start header_end len ?entries ?spans ?l None # frames) ?l"
      by (simp add: settle_value_more)
    also have "\<dots> = settle rd bs (map_value bs start header_end (end_of len e)
          (?entries @ pair_entries (forest rd fl bs ?l xs) @ break_of len e)
          (?spans @ key_spans_of ?l xs) len) path frames (end_of len e)"
      using Cons 1(3-7) by (intro 1(1)) (simp_all add: occurs_append items_length_def add.assoc)
    finally show ?thesis using now by (simp add: add.assoc)
  qed
qed simp_all

lemma opened_array:
  assumes "reads_headers rd fl bs" "\<forall>x \<in> set xs. fits_at rd fl bs path x"
    "occurs bs header_end (concat (map encode xs))" "no_more_items bs len (length xs) e"
    "e = header_end + items_length xs"
    "decode_turn rd bs path frames start =
       Some (push_container rd bs (OpenArray start header_end len []) path frames header_end)"
  shows "decode_loop rd bs path frames start =
    settle rd bs (array_value start header_end (end_of len e)
      (forest rd fl bs header_end xs @ break_of len e) len) path frames (end_of len e)"
proof (cases xs)
  case Nil
  then have "push_container rd bs (OpenArray start header_end len []) path frames header_end =
      (Inr (Item (array_value start header_end (end_of len e) (break_of len e) len)), path, frames,
        end_of len e)"
    using next_index_done [OF assms(1), of len "[]" e path] assms(4,5)
    by (simp add: push_container_def advance_def items_length_def)
  with Nil show ?thesis using loop_item assms(6) by simp
next
  case (Cons x ys)
  then have "more_items bs len 0 header_end"
    using assms(2-4)
    by (intro more_before_item [of x _ _ _ "length xs" e]) (simp_all add: occurs_append fits_at_def)
  then have "push_container rd bs (OpenArray start header_end len []) path frames header_end =
      (Inr Opened, ArrayIdx 0 # path, OpenArray start header_end len [] # frames, header_end)"
    using next_index_more [of bs len "[]" header_end rd path]
    by (simp add: push_container_def advance_def)
  with assms(6) have "decode_loop rd bs path frames start =
      decode_loop rd bs (ArrayIdx 0 # path) (OpenArray start header_end len [] # frames) header_end"
    using loop_opened by simp
  also have "\<dots> = settle rd bs (array_value start header_end (end_of len e)
      (forest rd fl bs header_end xs @ break_of len e) len) path frames (end_of len e)"
    using array_items [OF assms(1) _ assms(2,3), of len "[]" e start header_end frames] assms(4,5) Cons
    by simp
  finally show ?thesis .
qed

lemma opened_map:
  assumes "reads_headers rd fl bs" "\<forall>x \<in> set xs. fits_at rd fl bs path x" "even (length xs)"
    "occurs bs header_end (concat (map encode xs))" "no_more_items bs len (length xs div 2) e"
    "e = header_end + items_length xs"
    "decode_turn rd bs path frames start =
       Some (push_container rd bs (OpenMap start header_end len [] [] header_end None) path frames
         header_end)"
  shows "decode_loop rd bs path frames start =
    settle rd bs (map_value bs start header_end (end_of len e)
      (pair_entries (forest rd fl bs header_end xs) @ break_of len e) (key_spans_of header_end xs) len)
      path frames (end_of len e)"
proof (cases xs)
  case Nil
  then have "push_container rd bs (OpenMap start header_end len [] [] header_end None) path frames header_end =
      (Inr (Item (map_value bs start header_end (end_of len e) (break_of len e) [] len)), path, frames,
        end_of len e)"
    using next_index_done [OF assms(1), of len "[]" e path] assms(5,6)
    by (simp add: push_container_def advance_def items_length_def)
  with Nil show ?thesis using loop_item assms(7) by simp
next
  case (Cons x ys)
  then have "0 < length xs div 2" using assms(3) by (cases ys) auto
  then have "more_items bs len 0 header_end"
    using Cons assms(2,4,5)
    by (intro more_before_item [of x _ _ _ "length xs div 2" e]) (simp_all add: occurs_append fits_at_def)
  then have "push_container rd bs (OpenMap start header_end len [] [] header_end None) path frames header_end =
      (Inr Opened, MapEntry 0 Key # path, OpenMap start header_end len [] [] header_end None # frames,
        header_end)"
    using next_index_more [of bs len "[]" header_end rd path]
    by (simp add: push_container_def advance_def)
  with assms(7) have "decode_loop rd bs path frames start =
      decode_loop rd bs (MapEntry 0 Key # path)
        (OpenMap start header_end len [] [] header_end None # frames) header_end"
    using loop_opened by simp
  also have "\<dots> = settle rd bs (map_value bs start header_end (end_of len e)
      (pair_entries (forest rd fl bs header_end xs) @ break_of len e) (key_spans_of header_end xs) len)
      path frames (end_of len e)"
    using map_items [OF assms(1) _ assms(3,2,4), of len "[]" e start header_end "[]" frames] assms(5,6) Cons
    by simp
  finally show ?thesis .
qed

lemma fits_at_items:
  assumes "\<And>x. x \<in> set xs \<Longrightarrow> decodes rd fl bs x" "\<forall>x \<in> set xs. well_formed x"
    "length path + max_list (map (\<lambda>x. Suc (item_depth x)) xs) \<le> MAX_CBOR_DECODE_NESTING_DEPTH"
  shows "\<forall>x \<in> set xs. fits_at rd fl bs path x"
  using assms max_list_bound [of _ xs "\<lambda>x. Suc (item_depth x)"]
  by (fastforce simp: fits_at_def)

text \<open>The header of a container, counted or indefinite.\<close>

lemma turn_counted:
  assumes "reads_headers rd fl bs" "length path \<le> MAX_CBOR_DECODE_NESTING_DEPTH"
    "occurs bs i (enc_head major w n)" "major \<in> {4, 5, 6}" "fits w n" "n \<le> usize_max \<or> major = 6"
  shows "decode_turn rd bs path frames i =
    decode_header rd bs (header_of fl major w n) i path frames (i + Suc (width_bytes w))"
proof -
  have "pull_header rd bs path i = (Inr (header_of fl major w n), i + Suc (width_bytes w))"
    using assms by (intro pull_documented) auto
  then show ?thesis using turn_header assms(2) by simp
qed

lemma turn_indefinite:
  assumes "reads_headers rd fl bs" "length path \<le> MAX_CBOR_DECODE_NESTING_DEPTH"
    "nth_opt bs i = Some (initial_byte major 31)" "major \<in> {4, 5}"
  shows "decode_turn rd bs path frames i =
    decode_header rd bs (indefinite_header major) i path frames (i + 1)"
proof -
  have "pull_header rd bs path i = (Inr (indefinite_header major), i + 1)"
    using assms by (auto simp: pull_header_def reads_headers_def)
  then show ?thesis using turn_header assms(2) by simp
qed

lemma items_length_bound: "length xs \<le> items_length xs"
proof (induction xs)
  case (Cons x xs)
  have "encode x \<noteq> []" by (cases x) (simp_all add: enc_head_def)
  then have "1 \<le> length (encode x)" by (cases "encode x") simp_all
  with Cons show ?case by (simp add: items_length_def)
qed (simp add: items_length_def)

theorem decodes_item:
  assumes "reads_headers rd fl bs" "length bs \<le> usize_max"
  shows "well_formed x \<Longrightarrow> decodable fl x \<Longrightarrow> decodes rd fl bs x"
proof (induction x)
  case (Scalar major w n)
  then show ?case by (intro decodes_scalar assms)
next
  case (Str major w payload)
  then show ?case by (intro decodes_string assms)
next
  case (StrIndef major chunks)
  then show ?case by (intro decodes_chunked assms)
next
  case (Arr w xs)
  show ?case
    unfolding decodes_def
  proof (intro allI impI)
    fix i and path :: path and frames
    assume occ: "occurs bs i (encode (Arr w xs))"
      and depth: "length path + item_depth (Arr w xs) \<le> MAX_CBOR_DECODE_NESTING_DEPTH"
    let ?h = "i + Suc (width_bytes w)"
    from occ have head: "occurs bs i (enc_head 4 w (length xs))"
      and body: "occurs bs ?h (concat (map encode xs))"
      by (simp_all add: occurs_append)
    have "length xs \<le> usize_max"
      using items_length_bound [of xs] occurs_length [OF body] assms(2) by (simp add: items_length_def)
    then have "decode_turn rd bs path frames i =
        Some (push_container rd bs (OpenArray i ?h (Some (length xs)) []) path frames ?h)"
      using turn_counted [OF assms(1) _ head] depth Arr.prems
      by (simp add: decode_header_def header_of_def)
    from opened_array [OF assms(1) fits_at_items body _ refl this] Arr depth
    show "decode_loop rd bs path frames i =
        settle rd bs (tree rd fl bs i (Arr w xs)) path frames (i + length (encode (Arr w xs)))"
      by (simp add: no_more_items_def break_of_def end_of_def items_length_def add.assoc)
  qed
next
  case (ArrIndef xs)
  show ?case
    unfolding decodes_def
  proof (intro allI impI)
    fix i and path :: path and frames
    assume occ: "occurs bs i (encode (ArrIndef xs))"
      and depth: "length path + item_depth (ArrIndef xs) \<le> MAX_CBOR_DECODE_NESTING_DEPTH"
    from occ have head: "nth_opt bs i = Some (initial_byte 4 31)"
      and body: "occurs bs (i + 1) (concat (map encode xs))"
      and stop: "no_more_items bs None (length xs) (i + 1 + items_length xs)"
      by (simp_all add: occurs_append occurs_Cons no_more_items_def items_length_def)
    have "decode_turn rd bs path frames i =
        Some (push_container rd bs (OpenArray i (i + 1) None []) path frames (i + 1))"
      using turn_indefinite [OF assms(1) _ head] depth
      by (simp add: decode_header_def indefinite_header_def)
    from opened_array [OF assms(1) fits_at_items body stop refl this] ArrIndef depth
    show "decode_loop rd bs path frames i =
        settle rd bs (tree rd fl bs i (ArrIndef xs)) path frames (i + length (encode (ArrIndef xs)))"
      by (simp add: break_of_def end_of_def items_length_def add.assoc Let_def)
  qed
next
  case (Assoc w xs)
  show ?case
    unfolding decodes_def
  proof (intro allI impI)
    fix i and path :: path and frames
    assume occ: "occurs bs i (encode (Assoc w xs))"
      and depth: "length path + item_depth (Assoc w xs) \<le> MAX_CBOR_DECODE_NESTING_DEPTH"
    let ?h = "i + Suc (width_bytes w)"
    from occ have head: "occurs bs i (enc_head 5 w (length xs div 2))"
      and body: "occurs bs ?h (concat (map encode xs))"
      by (simp_all add: occurs_append)
    have "length xs div 2 \<le> usize_max"
      using items_length_bound [of xs] occurs_length [OF body] assms(2) by (simp add: items_length_def)
    then have "decode_turn rd bs path frames i =
        Some (push_container rd bs (OpenMap i ?h (Some (length xs div 2)) [] [] ?h None) path frames ?h)"
      using turn_counted [OF assms(1) _ head] depth Assoc.prems
      by (simp add: decode_header_def header_of_def)
    from opened_map [OF assms(1) fits_at_items _ body _ refl this] Assoc depth
    show "decode_loop rd bs path frames i =
        settle rd bs (tree rd fl bs i (Assoc w xs)) path frames (i + length (encode (Assoc w xs)))"
      by (simp add: no_more_items_def break_of_def end_of_def items_length_def add.assoc)
  qed
next
  case (AssocIndef xs)
  show ?case
    unfolding decodes_def
  proof (intro allI impI)
    fix i and path :: path and frames
    assume occ: "occurs bs i (encode (AssocIndef xs))"
      and depth: "length path + item_depth (AssocIndef xs) \<le> MAX_CBOR_DECODE_NESTING_DEPTH"
    from occ have head: "nth_opt bs i = Some (initial_byte 5 31)"
      and body: "occurs bs (i + 1) (concat (map encode xs))"
      and stop: "no_more_items bs None (length xs div 2) (i + 1 + items_length xs)"
      by (simp_all add: occurs_append occurs_Cons no_more_items_def items_length_def)
    have "decode_turn rd bs path frames i =
        Some (push_container rd bs (OpenMap i (i + 1) None [] [] (i + 1) None) path frames (i + 1))"
      using turn_indefinite [OF assms(1) _ head] depth
      by (simp add: decode_header_def indefinite_header_def)
    from opened_map [OF assms(1) fits_at_items _ body stop refl this] AssocIndef depth
    show "decode_loop rd bs path frames i =
        settle rd bs (tree rd fl bs i (AssocIndef xs)) path frames (i + length (encode (AssocIndef xs)))"
      by (simp add: break_of_def end_of_def items_length_def add.assoc Let_def)
  qed
next
  case (Tagged w n x)
  show ?case
    unfolding decodes_def
  proof (intro allI impI)
    fix i and path :: path and frames
    assume occ: "occurs bs i (encode (Tagged w n x))"
      and depth: "length path + item_depth (Tagged w n x) \<le> MAX_CBOR_DECODE_NESTING_DEPTH"
    let ?h = "i + Suc (width_bytes w)"
    from occ have head: "occurs bs i (enc_head 6 w n)" and body: "occurs bs ?h (encode x)"
      by (simp_all add: occurs_append)
    have "decode_turn rd bs path frames i =
        Some (Inr Opened, TagInner # path, OpenTag i ?h (of_nat n) # frames, ?h)"
      using turn_counted [OF assms(1) _ head] depth Tagged.prems
      by (simp add: decode_header_def header_of_def push_container_def advance_def)
    then have "decode_loop rd bs path frames i =
        decode_loop rd bs (TagInner # path) (OpenTag i ?h (of_nat n) # frames) ?h"
      by (rule loop_opened)
    also have "\<dots> = settle rd bs (tree rd fl bs ?h x) (TagInner # path) (OpenTag i ?h (of_nat n) # frames)
        (?h + length (encode x))"
      using Tagged depth body by (simp add: decodes_def)
    finally show "decode_loop rd bs path frames i =
        settle rd bs (tree rd fl bs i (Tagged w n x)) path frames (i + length (encode (Tagged w n x)))"
      by (simp add: Let_def add.assoc)
  qed
qed

end
