(* ===== verification/Decoder_Returns.thy ===== *)
theory Decoder_Returns
  imports Decoder_Loop
begin

text \<open>
  The decoder returns on every input: a header takes at least one byte, so the loops over the
  items and over the chunks of a string go on at most as often as there are bytes.
\<close>

subsection \<open>What the reader keeps\<close>

text \<open>Whatever the bytes, a header takes at least one of them, and no read goes back or past the end.\<close>

definition advances :: "cbor_reader \<Rightarrow> bytes \<Rightarrow> bool" where
  "advances rd bs \<longleftrightarrow>
     (\<forall>i h j. cr_pull rd bs i = (Inr h, j) \<longrightarrow> i < j \<and> j \<le> length bs) \<and>
     (\<forall>i n part j. i \<le> length bs \<longrightarrow> cr_read rd bs i n = (Inr part, j) \<longrightarrow> i \<le> j \<and> j \<le> length bs)"

lemma pull_advances:
  assumes "advances rd bs" "pull_header rd bs path i = (Inr h, j)"
  shows "i < j \<and> j \<le> length bs"
proof -
  obtain r k where pull: "cr_pull rd bs i = (r, k)" by fastforce
  with assms(2) have "cr_pull rd bs i = (Inr h, j)" by (cases r) (simp_all add: pull_header_def)
  with assms(1) show ?thesis unfolding advances_def by blast
qed

lemma read_chunks_advances:
  assumes "advances rd bs"
  shows "read_chunks rd bs path before n i buf = (Inr body, j) \<Longrightarrow> i \<le> length bs \<Longrightarrow>
    i \<le> j \<and> j \<le> length bs"
proof (induction n arbitrary: i buf rule: less_induct)
  case (less n)
  show ?case
  proof (cases "n = 0")
    case True
    with less.prems show ?thesis by (simp add: read_chunks.simps [of rd bs path before 0 i buf])
  next
    case False
    define m where "m = min n READ_CHUNK"
    have m: "n - m < n" using False by (simp add: m_def READ_CHUNK_def)
    obtain r k where read: "cr_read rd bs i m = (r, k)" by fastforce
    show ?thesis
    proof (cases r)
      case (Inl e)
      with False read less.prems show ?thesis
        by (cases e) (simp_all add: read_chunks.simps [of rd bs path before n i buf] m_def)
    next
      case (Inr part)
      with False read less.prems(1) have "read_chunks rd bs path before (n - m) k (buf @ part) = (Inr body, j)"
        by (simp add: read_chunks.simps [of rd bs path before n i buf] m_def)
      moreover have "i \<le> k \<and> k \<le> length bs"
        using Inr read less.prems(2) assms unfolding advances_def by blast
      ultimately show ?thesis using less.IH [OF m, of k "buf @ part"] by linarith
    qed
  qed
qed

lemma read_exact_advances:
  "advances rd bs \<Longrightarrow> read_exact rd bs path n i = (Inr body, j) \<Longrightarrow> i \<le> length bs \<Longrightarrow>
     i \<le> j \<and> j \<le> length bs"
  using read_chunks_advances [of rd bs path i n i "[]" body j] by (simp add: read_exact_def)

subsection \<open>Chunked strings\<close>

lemma read_chunk_advances:
  assumes "advances rd bs" "read_chunk rd bs kind path start n i = (Inr token, j)" "i \<le> length bs"
  shows "i \<le> j \<and> j \<le> length bs"
proof -
  obtain r k where read: "read_exact rd bs path n i = (r, k)" by fastforce
  with assms(2) obtain body where "r = Inr body" "k = j"
    by (cases r) (auto simp: read_chunk_def)
  with read assms show ?thesis using read_exact_advances by blast
qed

lemma chunk_turn_advances:
  assumes "advances rd bs" "chunk_turn rd bs kind path i = (turn, j)" "\<And>e. turn \<noteq> ChunkError e"
  shows "i < j \<and> j \<le> length bs"
proof -
  obtain r k where pull: "pull_header rd bs path i = (r, k)" by fastforce
  show ?thesis
  proof (cases r)
    case (Inl e)
    with pull assms(2,3) show ?thesis by (auto simp: chunk_turn_def)
  next
    case (Inr h)
    with pull assms(1) have k: "i < k" "k \<le> length bs" using pull_advances by blast+
    have chunk: "i < j \<and> j \<le> length bs"
      if "(case read_chunk rd bs kind path i len k of
             (Inl e, end) \<Rightarrow> (ChunkError e, end) | (Inr token, end) \<Rightarrow> (NextChunk token, end)) = (turn, j)"
      for len
    proof -
      obtain s l where read: "read_chunk rd bs kind path i len k = (s, l)" by fastforce
      with that assms(3) obtain token where "s = Inr token" "l = j" by (cases s) auto
      with read have "k \<le> j \<and> j \<le> length bs"
        using read_chunk_advances [OF assms(1)] k(2) by blast
      with k(1) show ?thesis by simp
    qed
    show ?thesis
      using pull Inr assms(2,3) k chunk
      by (cases h) (auto simp: chunk_turn_def Let_def split: option.splits if_splits)
  qed
qed

lemma chunk_loop_returns:
  assumes "advances rd bs"
  shows "i \<le> length bs \<Longrightarrow>
    \<exists>r j. chunk_loop rd bs kind path start header_end chunks idx i = Some (r, j) \<and>
      ((\<exists>ts. r = Inr ts) \<longrightarrow> i < j \<and> j \<le> length bs)"
proof (induction "length bs - i" arbitrary: i chunks idx rule: less_induct)
  case less
  obtain turn j where turn: "chunk_turn rd bs kind (Chunk idx # path) i = (turn, j)" by fastforce
  show ?case
  proof (cases turn)
    case (ChunkError e)
    with turn show ?thesis
      by (simp add: chunk_loop.simps [of rd bs kind path start header_end chunks idx i])
  next
    case (LastChunk token)
    with turn chunk_turn_advances [OF assms turn] show ?thesis
      by (simp add: chunk_loop.simps [of rd bs kind path start header_end chunks idx i])
  next
    case (NextChunk token)
    then have j: "i < j" "j \<le> length bs" using chunk_turn_advances [OF assms turn] by simp_all
    with less.hyps [of j "chunks @ [token]" "idx + 1"] NextChunk turn show ?thesis
      by (fastforce simp: chunk_loop.simps [of rd bs kind path start header_end chunks idx i])
  qed
qed

lemma indefinite_chunks_return:
  assumes "advances rd bs" "i \<le> length bs"
  shows "\<exists>r j. decode_indefinite_chunks rd bs start kind path i = Some (r, j) \<and>
    ((\<exists>v. r = Inr v) \<longrightarrow> i < j \<and> j \<le> length bs)"
proof -
  from chunk_loop_returns [OF assms(1,2), of kind path start i "[]" 0] obtain r j where
    "chunk_loop rd bs kind path start i [] 0 i = Some (r, j)"
    "(\<exists>ts. r = Inr ts) \<longrightarrow> i < j \<and> j \<le> length bs" by blast
  then show ?thesis by (cases r) (simp_all add: decode_indefinite_chunks_def)
qed

subsection \<open>Containers\<close>

lemma consume_break_advances:
  assumes "advances rd bs" "consume_break rd bs path i = (Inr r, j)" "i \<le> length bs"
  shows "i \<le> j \<and> j \<le> length bs"
proof -
  obtain s k where pull: "pull_header rd bs path i = (s, k)" by fastforce
  show ?thesis
  proof (cases s)
    case (Inl e)
    with pull assms(2,3) show ?thesis
      by (auto simp: consume_break_def split: option.splits if_splits)
  next
    case (Inr h)
    with pull assms(1) have "i < k" "k \<le> length bs" using pull_advances by blast+
    with pull Inr assms(2,3) show ?thesis
      by (auto simp: consume_break_def split: option.splits if_splits)
  qed
qed

lemma next_index_advances:
  assumes "advances rd bs" "next_index rd bs path len items i = (Inr r, j)" "i \<le> length bs"
  shows "i \<le> j \<and> j \<le> length bs"
proof (cases len)
  case (Some n)
  with assms show ?thesis by (auto simp: next_index_def Let_def)
next
  case None
  obtain s k where brk: "consume_break rd bs path i = (s, k)" by fastforce
  with None assms(2) obtain b where "s = Inr b" "k = j"
    by (cases s) (auto simp: next_index_def Let_def split: option.splits prod.splits)
  with brk assms(1,3) show ?thesis using consume_break_advances by blast
qed

lemma advance_advances:
  assumes "advances rd bs" "advance rd bs frame path i = (Inr r, j)" "i \<le> length bs"
  shows "i \<le> j \<and> j \<le> length bs"
proof -
  have *: "i \<le> k \<and> k \<le> length bs" if "next_index rd bs path len items i = (Inr s, k)" for len items s k
    using next_index_advances [OF assms(1) that assms(3)] .
  show ?thesis
  proof (cases frame)
    case (OpenArray start header_end len items)
    obtain s k where nxt: "next_index rd bs path len items i = (s, k)" by fastforce
    show ?thesis
      using * [of len items _ k] nxt assms(2) OpenArray
      by (cases s) (auto simp: advance_def split: option.splits)
  next
    case (OpenMap start header_end len items spans key_start key)
    obtain s k where nxt: "next_index rd bs path len items i = (s, k)" by fastforce
    show ?thesis
      using * [of len items _ k] nxt assms(2) OpenMap
      by (cases s) (auto simp: advance_def split: option.splits)
  next
    case (OpenTag start header_end tag)
    with assms(2,3) show ?thesis by (simp add: advance_def)
  qed
qed

subsection \<open>The loop over the items\<close>

lemma attach_advances:
  "advances rd bs \<Longrightarrow> i \<le> length bs \<Longrightarrow>
    (case attach rd bs v path frames i of
       Finished v' j \<Rightarrow> i \<le> j \<and> j \<le> length bs
     | Continue path' frames' j \<Rightarrow> i \<le> j \<and> j \<le> length bs
     | Failed e path' frames' j \<Rightarrow> True)"
proof (induction rd bs v path frames i rule: attach.induct)
  case (3 rd bs v path start header_end len items rest i)
  let ?frame = "OpenArray start header_end len (items @ [v])"
  obtain r j where adv: "advance rd bs ?frame (tl path) i = (r, j)" by fastforce
  show ?case
  proof (cases r)
    case (Inl e)
    with adv show ?thesis by simp
  next
    case (Inr a)
    from advance_advances [OF 3(2) adv [unfolded Inr] 3(3)] have j: "i \<le> j" "j \<le> length bs"
      by simp_all
    show ?thesis
    proof (cases a)
      case (Advance frame' path')
      with Inr adv j show ?thesis by simp
    next
      case (Complete v')
      with 3(1) [OF refl adv [symmetric] Inr Complete 3(2) j(2)] Inr adv j(1) show ?thesis
        by (auto split: attached.splits)
    qed
  qed
next
  case (5 rd bs v path start header_end len entries spans key_start key key_end rest i)
  let ?frame = "OpenMap start header_end len (entries @ [map_entry key v])
    (spans @ [(key_start, key_end)]) key_start None"
  obtain r j where adv: "advance rd bs ?frame (tl path) i = (r, j)" by fastforce
  show ?case
  proof (cases r)
    case (Inl e)
    with adv show ?thesis by simp
  next
    case (Inr a)
    from advance_advances [OF 5(2) adv [unfolded Inr] 5(3)] have j: "i \<le> j" "j \<le> length bs"
      by simp_all
    show ?thesis
    proof (cases a)
      case (Advance frame' path')
      with Inr adv j show ?thesis by simp
    next
      case (Complete v')
      with 5(1) [OF refl adv [symmetric] Inr Complete 5(2) j(2)] Inr adv j(1) show ?thesis
        by (auto split: attached.splits)
    qed
  qed
qed simp_all

text \<open>An answer at which the loop goes on stands where the reader does.\<close>

definition on_course :: "bytes \<Rightarrow> nat \<Rightarrow> decode_answer option \<Rightarrow> bool" where
  "on_course bs i r \<longleftrightarrow>
     (\<exists>d path frames j. r = Some (d, path, frames, j) \<and>
        ((\<exists>x. d = Inr x) \<longrightarrow> i \<le> j \<and> j \<le> length bs))"

lemma on_course_leaf:
  "(\<And>v. r = Inr v \<Longrightarrow> i \<le> j \<and> j \<le> length bs) \<Longrightarrow> on_course bs i (Some (leaf r path frames j))"
  by (cases r) (simp_all add: on_course_def leaf_def)

lemma on_course_push:
  assumes "advances rd bs" "i \<le> length bs"
  shows "on_course bs i (Some (push_container rd bs frame path frames i))"
proof -
  obtain r j where adv: "advance rd bs frame path i = (r, j)" by fastforce
  show ?thesis
  proof (cases r)
    case (Inl e)
    with adv show ?thesis by (simp add: on_course_def push_container_def)
  next
    case (Inr a)
    with advance_advances [OF assms(1) adv [unfolded Inr] assms(2)] adv show ?thesis
      by (cases a) (simp_all add: on_course_def push_container_def)
  qed
qed

lemma on_course_chunks:
  assumes "advances rd bs" "i \<le> length bs"
  shows "on_course bs i (map_option (\<lambda>(r, end). leaf r path frames end)
    (decode_indefinite_chunks rd bs start kind path i))"
proof -
  from indefinite_chunks_return [OF assms] obtain r j where
    *: "decode_indefinite_chunks rd bs start kind path i = Some (r, j)"
    "(\<exists>v. r = Inr v) \<longrightarrow> i < j \<and> j \<le> length bs" by blast
  then have "on_course bs i (Some (leaf r path frames j))"
    by (intro on_course_leaf) auto
  with *(1) show ?thesis by simp
qed

lemma bytes_value_advances:
  assumes "advances rd bs" "i \<le> length bs" "bytes_value rd bs start n path i = (Inr v, j)"
  shows "i \<le> j \<and> j \<le> length bs"
proof -
  obtain r k where read: "read_exact rd bs path n i = (r, k)" by fastforce
  with assms(3) obtain body where "r = Inr body" "k = j"
    by (cases r) (auto simp: bytes_value_def)
  with read assms show ?thesis using read_exact_advances by blast
qed

lemma text_value_advances:
  assumes "advances rd bs" "i \<le> length bs" "text_value rd bs start n path i = (Inr v, j)"
  shows "i \<le> j \<and> j \<le> length bs"
proof -
  obtain r k where read: "read_exact rd bs path n i = (r, k)" by fastforce
  with assms(3) obtain body where "r = Inr body" "k = j"
    by (cases r) (auto simp: text_value_def)
  with read assms show ?thesis using read_exact_advances by blast
qed

lemma decode_header_on_course:
  assumes "advances rd bs" "i \<le> length bs"
  shows "on_course bs i (decode_header rd bs h start path frames i)"
proof -
  note push = on_course_push [OF assms] and chunks = on_course_chunks [OF assms]
  have scalar: "on_course bs i (case scalar_value rd h start i path of
      Inl e \<Rightarrow> Some (leaf (Inl (e, None)) path frames i) | Inr v \<Rightarrow> Some (leaf (Inr v) path frames i))"
    using assms(2) by (simp add: on_course_leaf split: sum.split)
  show ?thesis
  proof (cases h)
    case (HBytes len)
    show ?thesis
    proof (cases len)
      case (Some n)
      obtain r j where r: "bytes_value rd bs start n path i = (r, j)" by fastforce
      have "on_course bs i (Some (leaf r path frames j))"
        by (rule on_course_leaf) (use bytes_value_advances [OF assms, of start n path _ j] r in blast)
      with r Some HBytes show ?thesis by (simp add: decode_header_def)
    qed (use HBytes chunks in \<open>simp add: decode_header_def\<close>)
  next
    case (HText len)
    show ?thesis
    proof (cases len)
      case (Some n)
      obtain r j where r: "text_value rd bs start n path i = (r, j)" by fastforce
      have "on_course bs i (Some (leaf r path frames j))"
        by (rule on_course_leaf) (use text_value_advances [OF assms, of start n path _ j] r in blast)
      with r Some HText show ?thesis by (simp add: decode_header_def)
    qed (use HText chunks in \<open>simp add: decode_header_def\<close>)
  qed (use scalar push in \<open>simp_all add: decode_header_def\<close>)
qed

lemma decode_turn_on_course:
  assumes "advances rd bs"
  shows "on_course bs (Suc i) (decode_turn rd bs path frames i)"
proof (cases "MAX_CBOR_DECODE_NESTING_DEPTH < length path")
  case True
  then show ?thesis by (simp add: decode_turn_def on_course_def)
next
  case False
  obtain r k where pull: "pull_header rd bs path i = (r, k)" by fastforce
  show ?thesis
  proof (cases r)
    case (Inl e)
    with pull False show ?thesis by (simp add: decode_turn_def on_course_def)
  next
    case (Inr h)
    with pull have k: "i < k" "k \<le> length bs" using pull_advances [OF assms] by blast+
    from decode_header_on_course [OF assms k(2), of h i path frames]
    have "on_course bs (Suc i) (decode_header rd bs h i path frames k)"
      using k(1) unfolding on_course_def by fastforce
    with pull Inr False show ?thesis by (simp add: decode_turn_def)
  qed
qed

theorem decode_loop_returns:
  assumes "advances rd bs"
  shows "i \<le> length bs \<Longrightarrow> \<exists>r. decode_loop rd bs path frames i = Some r"
proof (induction "length bs - i" arbitrary: i path frames rule: less_induct)
  case less
  from decode_turn_on_course [OF assms, of i path frames] obtain d path' frames' j where
    turn: "decode_turn rd bs path frames i = Some (d, path', frames', j)"
    and j: "(\<exists>x. d = Inr x) \<longrightarrow> Suc i \<le> j \<and> j \<le> length bs"
    unfolding on_course_def by blast
  show ?case
  proof (cases d)
    case (Inl e)
    with turn show ?thesis by (simp add: decode_loop.simps [of rd bs path frames i])
  next
    case (Inr x)
    with j have j': "i < j" "j \<le> length bs" by auto
    have IH: "\<exists>r. decode_loop rd bs p f k = Some r" if "j \<le> k \<and> k \<le> length bs" for p f k
    proof -
      have "length bs - k < length bs - i" using that j' by linarith
      from less.hyps [OF this] that show ?thesis by blast
    qed
    show ?thesis
    proof (cases x)
      case Opened
      with IH j' Inr turn show ?thesis
        by (simp add: decode_loop.simps [of rd bs path frames i])
    next
      case (Item v)
      from attach_advances [OF assms j'(2), of v path' frames'] IH Item Inr turn
      show ?thesis
        by (cases "attach rd bs v path' frames' j")
          (simp_all add: decode_loop.simps [of rd bs path frames i])
    qed
  qed
qed

theorem decoder_returns:
  "advances rd bs \<Longrightarrow> \<exists>r. decode_cbor_to_value rd bs = Some r"
  using decode_loop_returns [of rd bs 0 "[]" "[]"]
  by (auto simp: decode_cbor_to_value_def decode_item_def)

end
