(* ===== verification/Decoder_Whole.thy ===== *)
theory Decoder_Whole
  imports Decoder_Facts Decoder_Returns
begin

text \<open>
  The decoder on a whole document, and a reader that satisfies what the theorems ask of one: it
  takes its headers with \<open>read_header\<close> of the navigation.
\<close>

lemma decoder_on_item:
  assumes "reads_headers rd fl bs" "length bs \<le> usize_max" "well_formed x" "decodable fl x"
    "item_depth x \<le> MAX_CBOR_DECODE_NESTING_DEPTH" "occurs bs 0 (encode x)"
  shows "decode_item rd bs = Some (Inr (tree rd fl bs 0 x, length (encode x)))"
  using decodes_item [OF assms(1-4)] assms(5,6) unfolding decode_item_def decodes_def
  by (metis add_0 list.size(3) settle_root)

lemma decoder_whole_item:
  assumes "reads_headers rd fl (encode x)" "length (encode x) \<le> usize_max" "well_formed x"
    "decodable fl x" "item_depth x \<le> MAX_CBOR_DECODE_NESTING_DEPTH"
  shows "decode_cbor_to_value rd (encode x) = Some (Inr (tree rd fl (encode x) 0 x))"
  using decoder_on_item [OF assms] by (simp add: decode_cbor_to_value_def occurs_whole)

lemma decoder_trailing:
  assumes "reads_headers rd fl (encode x @ rest)" "length (encode x @ rest) \<le> usize_max"
    "well_formed x" "decodable fl x" "item_depth x \<le> MAX_CBOR_DECODE_NESTING_DEPTH" "rest \<noteq> []"
  shows "decode_cbor_to_value rd (encode x @ rest) =
    Some (Inl (trailing_data (length (encode x)) (length rest),
      Some (tree rd fl (encode x @ rest) 0 x)))"
  using decoder_on_item [OF assms(1-5)] assms(6) occurs_appendI [of "[]" "encode x" rest]
  by (simp add: decode_cbor_to_value_def)

subsection \<open>A reader\<close>

definition plain_header :: "(arg_width \<Rightarrow> nat \<Rightarrow> u64) \<Rightarrow> header \<Rightarrow> cbor_header option" where
  "plain_header fl h =
     (case hd_argument h of
        Some n \<Rightarrow>
          Some (if hd_major h = 7 \<and> 2 < hd_len h then
              HFloat (fl (if hd_len h = 3 then Arg2 else if hd_len h = 5 then Arg4 else Arg8) (unat n))
            else header_of fl (unat (hd_major h)) Inline (unat n))
      | None \<Rightarrow>
          if hd_major h \<in> {2, 3, 4, 5} then Some (indefinite_header (unat (hd_major h)))
          else if hd_major h = 7 then Some HBreak
          else None)"

definition plain_pull ::
  "(arg_width \<Rightarrow> nat \<Rightarrow> u64) \<Rightarrow> bytes \<Rightarrow> nat \<Rightarrow> (pull_error + cbor_header) \<times> nat" where
  "plain_pull fl bs i =
     (case read_header bs i of
        None \<Rightarrow> (Inl (if length bs \<le> i then IoError EndOfInput else SyntaxError i), i)
      | Some h \<Rightarrow>
          (case plain_header fl h of
             None \<Rightarrow> (Inl (SyntaxError i), i)
           | Some c \<Rightarrow> (Inr c, i + hd_len h)))"

definition plain_read :: "bytes \<Rightarrow> nat \<Rightarrow> nat \<Rightarrow> (io_error + bytes) \<times> nat" where
  "plain_read bs i n =
     (if i + n \<le> length bs then (Inr (take n (drop i bs)), i + n) else (Inl EndOfInput, length bs))"

definition plain_hex_digit :: "char \<Rightarrow> nat option" where
  "plain_hex_digit c = map_option fst (find (\<lambda>p. snd p = c) (enumerate 0 ''0123456789abcdef''))"

fun plain_hex_decode :: "string \<Rightarrow> string + bytes" where
  "plain_hex_decode (a # b # s) =
     (case (plain_hex_digit a, plain_hex_digit b, plain_hex_decode s) of
        (Some h, Some l, Inr bs) \<Rightarrow> Inr (of_nat (16 * h + l) # bs)
      | _ \<Rightarrow> Inl ''invalid hex'')"
| "plain_hex_decode [] = Inr []"
| "plain_hex_decode _ = Inl ''odd length''"

definition plain_reader :: "(arg_width \<Rightarrow> nat \<Rightarrow> u64) \<Rightarrow> cbor_reader" where
  "plain_reader fl =
     \<lparr>cr_pull = plain_pull fl, cr_read = plain_read, cr_show_float = (\<lambda>f. decimal (unat f)),
      cr_hex_decode = plain_hex_decode\<rparr>"

lemma plain_reader_advances: "advances (plain_reader fl) bs"
proof -
  have "i < j \<and> j \<le> length bs" if "plain_pull fl bs i = (Inr h, j)" for i h j
    using that read_header_bound [of bs i]
    by (auto simp: plain_pull_def split: option.splits)
  moreover have "i \<le> j \<and> j \<le> length bs" if "plain_read bs i n = (Inr part, j)" for i n part j
    using that by (simp add: plain_read_def split: if_splits)
  ultimately show ?thesis
    unfolding advances_def plain_reader_def cbor_reader.simps by blast
qed

lemma plain_reader_documented:
  assumes "length bs \<le> usize_max"
  shows "reads_headers (plain_reader fl) fl bs"
proof -
  have "plain_pull fl bs i = (Inr (header_of fl major w n), i + Suc (width_bytes w))"
    if "major < 8" "fits w n" "occurs bs i (enc_head major w n)" for i major w n
  proof -
    have n: "unat (of_nat n :: u64) = n"
      using fits_u64 [OF that(2)] by (simp add: unat_of_nat take_bit_eq_mod)
    have m: "unat (of_nat major :: u8) = major"
      using that(1) by (simp add: unat_of_nat take_bit_eq_mod)
    then have "(of_nat major :: u8) = 7 \<longleftrightarrow> major = 7"
      by (simp add: word_unat_eq_iff)
    then show ?thesis
      using read_header_enc [OF that(3,1,2) assms] m n that(1)
      by (cases w) (auto simp: plain_pull_def plain_header_def mk_header_def header_of_def)
  qed
  moreover have "plain_pull fl bs i = (Inr (indefinite_header major), i + 1)"
    if "major \<in> {2, 3, 4, 5}" "nth_opt bs i = Some (initial_byte major 31)" for i major
    using read_header_indefinite [OF that(2)] that(1)
    by (auto simp: plain_pull_def plain_header_def mk_header_def)
  moreover have "plain_pull fl bs i = (Inr HBreak, i + 1)" if "nth_opt bs i = Some 0xff" for i
  proof -
    have "initial_byte 7 31 = 0xff" using initial_byte_break [of 7 31] by simp
    with read_header_indefinite [of bs i 7] that show ?thesis
      by (simp add: plain_pull_def plain_header_def mk_header_def)
  qed
  moreover have "plain_read bs i n = (Inr (take n (drop i bs)), i + n)" if "i + n \<le> length bs" for i n
    using that by (simp add: plain_read_def)
  ultimately show ?thesis
    unfolding reads_headers_def plain_reader_def cbor_reader.simps by blast
qed

subsection \<open>The exports\<close>

text \<open>
  The decoder's exports (\<open>cbor_to_json\<close>, \<open>well_formedness_error\<close> of
  \<^verbatim>\<open>src/src/cbor/mod.rs\<close>): hex in, JSON text out, and the gate of the other readers. The
  value is \<open>None\<close> when the decoder does not return.
\<close>

definition ok_result :: "json \<Rightarrow> json" where
  "ok_result v = JObj [(''ok'', JBool True), (''value'', v)]"

definition err_result :: "json \<Rightarrow> json option \<Rightarrow> json" where
  "err_result error partial =
     (let obj = [(''ok'', JBool False), (''error'', error)] in
      JObj (case partial of Some p \<Rightarrow> obj_insert ''partial'' p obj | None \<Rightarrow> obj))"

definition cbor_to_json :: "cbor_reader \<Rightarrow> (u64 \<Rightarrow> string) \<Rightarrow> string \<Rightarrow> string option" where
  "cbor_to_json rd show_number cbor_hex =
     map_option (write_json show_number)
       (case cr_hex_decode rd cbor_hex of
          Inr cbor \<Rightarrow>
            map_option (\<lambda>r.
                case r of
                  Inr v \<Rightarrow> ok_result v
                | Inl (e, partial) \<Rightarrow> err_result (error_to_json e) partial)
              (decode_cbor_to_value rd cbor)
        | Inl reason \<Rightarrow> Some (err_result (error_to_json (invalid_hex reason)) None))"

definition well_formedness_error :: "cbor_reader \<Rightarrow> bytes \<Rightarrow> decode_error option option" where
  "well_formedness_error rd bs =
     map_option (\<lambda>r. case r of Inr v \<Rightarrow> None | Inl (e, partial) \<Rightarrow> Some e) (decode_cbor_to_value rd bs)"

lemma cbor_to_json_item:
  assumes "cr_hex_decode rd cbor_hex = Inr (encode x)" "reads_headers rd fl (encode x)"
    "length (encode x) \<le> usize_max" "well_formed x" "decodable fl x"
    "item_depth x \<le> MAX_CBOR_DECODE_NESTING_DEPTH"
  shows "cbor_to_json rd show_number cbor_hex =
    Some (json_text show_number (ok_result (tree rd fl (encode x) 0 x)))"
  using decoder_whole_item [OF assms(2-6)] assms(1) by (simp add: cbor_to_json_def write_json_text)

lemma cbor_to_json_returns:
  assumes "\<And>bs. cr_hex_decode rd cbor_hex = Inr bs \<Longrightarrow> advances rd bs"
  shows "\<exists>text. cbor_to_json rd show_number cbor_hex = Some text"
  using assms decoder_returns [of rd] by (fastforce simp: cbor_to_json_def split: sum.split)

lemma well_formedness_error_item:
  assumes "reads_headers rd fl (encode x)" "length (encode x) \<le> usize_max" "well_formed x"
    "decodable fl x" "item_depth x \<le> MAX_CBOR_DECODE_NESTING_DEPTH"
  shows "well_formedness_error rd (encode x) = Some None"
  using decoder_whole_item [OF assms] by (simp add: well_formedness_error_def)

end
