(* ===== verification/Location_Tree.thy ===== *)
theory Location_Tree
  imports Location_Text Diagnostic_Match Decoder_Whole Budgets
begin

text \<open>
  Looking a location up in the decoded tree (\<^verbatim>\<open>src/src/cbor/validation.rs\<close>): one step into
  a container, the index of a large map's keys, the walk on into embedded payloads, and the path
  with the entries named by position written out.
\<close>

text \<open>
  What the walk needs of other libraries: the decoder's reader, floats, the longest key the
  \<^verbatim>\<open>cddl\<close> validator writes out, and how Rust's \<open>Debug\<close> writes a text and
  \<^verbatim>\<open>serde_json\<close> a value.
\<close>

record location_library =
  ll_floats :: float_library
  ll_reader :: cbor_reader
  ll_max_rendered :: nat
  ll_debug :: "string \<Rightarrow> string"
  ll_display :: "json \<Rightarrow> string"

subsection \<open>Nodes\<close>

lemma json_get_size: "json_get v key = Some w \<Longrightarrow> size w < size v"
proof -
  assume "json_get v key = Some w"
  then obtain obj where v: "v = JObj obj" and "map_of obj key = Some w"
    by (auto simp: json_get_def split: json.splits)
  then have "(key, w) \<in> set obj" by (simp add: map_of_SomeD)
  then have "size w < Suc (size_list (size_prod (\<lambda>_. 0) size) obj)"
    by (induction obj) auto
  then show ?thesis by (simp add: v)
qed

function unwrap_tags :: "json \<Rightarrow> json" where
  "unwrap_tags node =
     (if node_str node ''type'' = Some ''Tag'' then
        (case json_get node ''value'' of Some inner \<Rightarrow> unwrap_tags inner | None \<Rightarrow> node)
      else node)"
  by pat_completeness auto
termination by (relation "measure size") (auto simp: json_get_size)

declare unwrap_tags.simps [simp del]

definition is_integer_node :: "json \<Rightarrow> bool" where
  "is_integer_node node \<longleftrightarrow> node_kind node \<in> set int_kinds"

definition json_as_i64 :: "json \<Rightarrow> int option" where
  "json_as_i64 v = (case v of JNum n \<Rightarrow> number_as_i64 n | _ \<Rightarrow> None)"

subsection \<open>Previews\<close>

definition MAX_PREVIEW_TAG_DEPTH :: nat where "MAX_PREVIEW_TAG_DEPTH = 4"
definition MAX_PREVIEW_TEXT_LEN :: nat where "MAX_PREVIEW_TEXT_LEN = 40"
definition MAX_PREVIEW_HEX_LEN :: nat where "MAX_PREVIEW_HEX_LEN = 32"

text \<open>The ellipsis character, in UTF-8.\<close>

definition ellipsis :: string where "ellipsis = [CHR 0xE2, CHR 0x80, CHR 0xA6]"

definition ELIDED_BODY :: string where "ELIDED_BODY = ''('' @ ellipsis @ '')''"

fun floor_boundary :: "string \<Rightarrow> nat \<Rightarrow> nat" where
  "floor_boundary s 0 = 0"
| "floor_boundary s (Suc n) = (if char_boundary s (Suc n) then Suc n else floor_boundary s n)"

definition truncate_ellipsis :: "string \<Rightarrow> nat \<Rightarrow> string" where
  "truncate_ellipsis s limit =
     (if length s \<le> limit then s else take (floor_boundary s (limit - 1)) s @ ellipsis)"

definition count_items :: "json \<Rightarrow> string \<Rightarrow> string" where
  "count_items node field =
     decimal (case Option.bind (json_get node field) json_as_array of
        Some xs \<Rightarrow> length (without_break xs)
      | None \<Rightarrow> 0)"

function node_preview_at :: "location_library \<Rightarrow> json \<Rightarrow> nat \<Rightarrow> string" where
  "node_preview_at lib node depth =
     (let type_name = (case node_str node ''type'' of Some t \<Rightarrow> t | None \<Rightarrow> ''value'');
          indefinite = (node_str node ''items'' = Some ''Indefinite'') in
      if type_name = ''Tag'' then
        (case Option.bind (node_str node ''tag'') tag_number of
           Some tag \<Rightarrow>
             ''#6.'' @ decimal (unat tag) @
             (case json_get node ''value'' of
                Some inner \<Rightarrow>
                  (if depth < MAX_PREVIEW_TAG_DEPTH
                   then ''('' @ node_preview_at lib inner (depth + 1) @ '')'' else ELIDED_BODY)
              | None \<Rightarrow> ELIDED_BODY)
         | None \<Rightarrow> ''tag'' @ ELIDED_BODY)
      else if type_name = ''Array'' then
        (if indefinite then ''indefinite '' else []) @ ''array('' @ count_items node ''values'' @ '' items)''
      else if type_name = ''Map'' then
        (if indefinite then ''indefinite '' else []) @ ''map('' @ count_items node ''values'' @ '' entries)''
      else if type_name = ''IndefiniteLengthBytes''
      then ''indefinite bytes('' @ count_items node ''chunks'' @ '' chunks)''
      else if type_name = ''IndefiniteLengthString''
      then ''indefinite text('' @ count_items node ''chunks'' @ '' chunks)''
      else if type_name = ''String'' then
        (case node_str node ''value'' of
           Some s \<Rightarrow> ''text '' @ ll_debug lib (truncate_ellipsis s MAX_PREVIEW_TEXT_LEN)
         | None \<Rightarrow> ''text'')
      else if type_name = ''Bytes'' then
        (case node_str node ''value'' of
           Some h \<Rightarrow>
             ''bytes 0x'' @ truncate_ellipsis h MAX_PREVIEW_HEX_LEN @ '' ('' @ decimal (length h div 2)
             @ '' bytes)''
         | None \<Rightarrow> ''bytes'')
      else if type_name = ''Simple'' then
        (case json_get node ''value'' of
           Some v \<Rightarrow> if v = JNull then ''simple'' else ''simple('' @ ll_display lib v @ '')''
         | None \<Rightarrow> ''simple'')
      else if type_name \<in> {''Bool'', ''Null'', ''Undefined''} then
        (case json_get node ''value'' of
           Some v \<Rightarrow> if v = JNull then lower_text type_name else ll_display lib v
         | None \<Rightarrow> lower_text type_name)
      else
        (case json_get node ''value'' of
           Some v \<Rightarrow> if v = JNull then type_name else truncate_ellipsis (ll_display lib v) 40
         | None \<Rightarrow> type_name))"
  by pat_completeness auto
termination by (relation "measure (\<lambda>(lib, node, depth). size node)") (auto simp: json_get_size)

declare node_preview_at.simps [simp del]

definition node_preview :: "location_library \<Rightarrow> json \<Rightarrow> string" where
  "node_preview lib node = node_preview_at lib node 0"

subsection \<open>One step\<close>

record step =
  sv_value :: json
  sv_key :: "json option"

definition step_item :: "json \<Rightarrow> step" where
  "step_item v = \<lparr>sv_value = v, sv_key = None\<rparr>"

definition step_entry :: "json \<Rightarrow> step option" where
  "step_entry e = map_option (\<lambda>v. \<lparr>sv_value = v, sv_key = json_get e ''key''\<rparr>) (json_get e ''value'')"

definition entry_has :: "(json \<Rightarrow> bool) \<Rightarrow> json \<Rightarrow> bool" where
  "entry_has is_key e \<longleftrightarrow> (case json_get e ''key'' of Some k \<Rightarrow> is_key k | None \<Rightarrow> False)"

definition find_entry :: "json \<Rightarrow> (json \<Rightarrow> bool) \<Rightarrow> step option" where
  "find_entry node is_key =
     Option.bind (node_values node) (\<lambda>es. Option.bind (find (entry_has is_key) es) step_entry)"

text \<open>Whether a key is rendered past the validator's bound: \<open>None\<close> when that is not known.\<close>

definition rendered_past_bound :: "location_library \<Rightarrow> json \<Rightarrow> bool option" where
  "rendered_past_bound lib key =
     (case string_payload key ''String'' ''IndefiniteLengthString'' of
        Some text \<Rightarrow> Some (ll_max_rendered lib < length (ll_debug lib text))
      | None \<Rightarrow>
          (case string_payload key ''Bytes'' ''IndefiniteLengthBytes'' of
             Some hex \<Rightarrow> Some (ll_max_rendered lib < length hex + 3)
           | None \<Rightarrow>
               if is_integer_node key \<or>
                  node_kind key \<in> {''F16'', ''F32'', ''F64'', ''Bool'', ''Null'', ''Undefined''}
               then Some False else None))"

fun unnamed_from :: "location_library \<Rightarrow> json option \<Rightarrow> json list \<Rightarrow> json option" where
  "unnamed_from lib found [] = found"
| "unnamed_from lib found (e # es) =
     (case json_get e ''key'' of
        None \<Rightarrow> unnamed_from lib found es
      | Some key \<Rightarrow>
          (case rendered_past_bound lib key of
             None \<Rightarrow> None
           | Some False \<Rightarrow> unnamed_from lib found es
           | Some True \<Rightarrow> if found \<noteq> None then None else unnamed_from lib (Some e) es))"

definition unnamed_entry :: "location_library \<Rightarrow> json \<Rightarrow> json option" where
  "unnamed_entry lib node = Option.bind (node_values node) (unnamed_from lib None)"

definition int_key_is :: "nat \<Rightarrow> json \<Rightarrow> bool" where
  "int_key_is i k \<longleftrightarrow> is_integer_node k \<and> Option.bind (json_get k ''value'') json_as_i64 = Some (int i)"

definition step_into_map :: "location_library \<Rightarrow> json \<Rightarrow> segment \<Rightarrow> step option" where
  "step_into_map lib node seg =
     (case seg of
        Index i \<Rightarrow>
          Option.bind (node_values node) (\<lambda>es.
            case find (entry_has (int_key_is i)) es of
              Some e \<Rightarrow> step_entry e
            | None \<Rightarrow> Option.bind (nth_opt es i) step_entry)
      | TextKey key \<Rightarrow>
          find_entry node (\<lambda>k. string_payload_is k ''String'' ''IndefiniteLengthString'' key)
      | FloatKey f \<Rightarrow>
          find_entry node (\<lambda>k. node_kind k \<in> {''F16'', ''F32'', ''F64''} \<and>
            (case Option.bind (json_get k ''value'') (json_as_f64 (ll_floats lib)) of
               Some v \<Rightarrow> f64_eq v f | None \<Rightarrow> False))
      | BytesKey b \<Rightarrow>
          find_entry node (\<lambda>k. string_payload_is k ''Bytes'' ''IndefiniteLengthBytes'' (hex_encode b))
      | BoolKey b \<Rightarrow>
          find_entry node (\<lambda>k. node_kind k = ''Bool'' \<and>
            Option.bind (json_get k ''value'') json_as_bool = Some b)
      | NullKey \<Rightarrow> find_entry node (\<lambda>k. node_kind k \<in> {''Null'', ''Undefined''})
      | IntKey n \<Rightarrow> find_entry node (\<lambda>k. int_node_is (ll_floats lib) k n)
      | CompositeKey item \<Rightarrow> find_entry node (\<lambda>k. node_matches (ll_floats lib) k item)
      | Unnamed \<Rightarrow> Option.bind (unnamed_entry lib node) step_entry
      | Opaque \<Rightarrow> None)"

definition step_into :: "location_library \<Rightarrow> json \<Rightarrow> segment \<Rightarrow> step option" where
  "step_into lib node seg =
     (if node_kind node = ''Array'' then
        (case seg of
           Index i \<Rightarrow> map_option step_item (Option.bind (node_values node) (\<lambda>vs. nth_opt vs i))
         | _ \<Rightarrow> None)
      else if node_kind node = ''Map'' then step_into_map lib node seg
      else if node_kind node = ''Tag'' then map_option step_item (json_get node ''value'')
      else None)"

subsection \<open>The index of a large map\<close>

definition INDEXED_MAP_ENTRIES :: nat where "INDEXED_MAP_ENTRIES = 16"

record map_keys =
  mk_text :: "(string \<rightharpoonup> nat) option"
  mk_ints :: "int \<rightharpoonup> nat"

definition or_insert :: "'k \<Rightarrow> nat \<Rightarrow> ('k \<rightharpoonup> nat) \<Rightarrow> ('k \<rightharpoonup> nat)" where
  "or_insert k at m = (if m k = None then m(k \<mapsto> at) else m)"

definition index_entry :: "map_keys \<Rightarrow> nat \<times> json \<Rightarrow> map_keys" where
  "index_entry ks at_entry =
     (let (at, e) = at_entry in
      case json_get e ''key'' of
        None \<Rightarrow> ks
      | Some key \<Rightarrow>
          if node_kind key = ''String'' then
            (case (mk_text ks, node_str key ''value'') of
               (Some index, Some t) \<Rightarrow> ks\<lparr>mk_text := Some (or_insert t at index)\<rparr>
             | _ \<Rightarrow> ks)
          else if node_kind key = ''IndefiniteLengthString'' then ks\<lparr>mk_text := None\<rparr>
          else if is_integer_node key then
            (case Option.bind (json_get key ''value'') json_as_i64 of
               Some n \<Rightarrow> ks\<lparr>mk_ints := or_insert n at (mk_ints ks)\<rparr>
             | None \<Rightarrow> ks)
          else ks)"

definition map_keys_of :: "json list \<Rightarrow> map_keys" where
  "map_keys_of es = foldl index_entry \<lparr>mk_text = Some Map.empty, mk_ints = Map.empty\<rparr> (enumerate 0 es)"

text \<open>
  The code keys its index by the address of a map's node, and never changes the tree: here it is
  keyed by the node itself.
\<close>

type_synonym key_index = "json \<rightharpoonup> map_keys"

definition indexed_keys :: "key_index \<Rightarrow> json \<Rightarrow> json list \<Rightarrow> map_keys \<times> key_index" where
  "indexed_keys index node es =
     (case index node of
        Some keys \<Rightarrow> (keys, index)
      | None \<Rightarrow> let keys = map_keys_of es in (keys, index(node \<mapsto> keys)))"

definition index_step_into ::
  "location_library \<Rightarrow> key_index \<Rightarrow> json \<Rightarrow> segment \<Rightarrow> step option \<times> key_index" where
  "index_step_into lib index node seg =
     (let plain = step_into lib node seg in
      case (seg, node_values node) of
        (TextKey key, Some es) \<Rightarrow>
          if node_kind node = ''Map'' \<and> INDEXED_MAP_ENTRIES \<le> length es then
            (let (keys, index') = indexed_keys index node es in
             (case mk_text keys of
                Some text \<Rightarrow> Option.bind (text key) (\<lambda>at. step_entry (es ! at))
              | None \<Rightarrow> plain, index'))
          else (plain, index)
      | (Index i, Some es) \<Rightarrow>
          if node_kind node = ''Map'' \<and> INDEXED_MAP_ENTRIES \<le> length es then
            (let (keys, index') = indexed_keys index node es;
                 at = (case mk_ints keys (int i) of Some n \<Rightarrow> n | None \<Rightarrow> i) in
             (Option.bind (nth_opt es at) step_entry, index'))
          else (plain, index)
      | _ \<Rightarrow> (plain, index))"

end
