(* ===== verification/Location_Walk.thy ===== *)
theory Location_Walk
  imports Location_Tree
begin

text \<open>
  The walk of a location through the decoded tree and the payloads embedded in it, and the path an
  error is reported under (\<^verbatim>\<open>src/src/cbor/validation.rs\<close>).
\<close>

subsection \<open>Views\<close>

text \<open>A \<open>u64\<close> cast to \<open>usize\<close>.\<close>

definition usize_cast :: "u64 \<Rightarrow> nat" where "usize_cast n = unat n mod (usize_max + 1)"

definition span_field :: "json \<Rightarrow> string \<Rightarrow> nat option" where
  "span_field span field = map_option usize_cast (Option.bind (json_get span field) json_as_u64)"

definition rebased_span :: "json option \<Rightarrow> nat \<Rightarrow> nat \<Rightarrow> json option" where
  "rebased_span span offset cbor_len =
     (case span of
        None \<Rightarrow> None
      | Some span \<Rightarrow>
          if offset = 0 then Some span
          else
            (case (span_field span ''offset'', span_field span ''length'') of
               (Some at, Some len) \<Rightarrow>
                 (case usize_checked_add (at + offset) len of
                    Some stop \<Rightarrow>
                      if cbor_len < stop then None
                      else Some (JObj [(''offset'', json_nat (at + offset)), (''length'', json_nat len)])
                  | None \<Rightarrow> None)
             | _ \<Rightarrow> None))"

record node_view =
  nv_span :: "json option"
  nv_anchor :: "json option"
  nv_preview :: string

definition view_of :: "location_library \<Rightarrow> json \<Rightarrow> nat \<Rightarrow> nat \<Rightarrow> node_view" where
  "view_of lib node rebase cbor_len =
     \<lparr>nv_span = rebased_span (json_get node ''position_info'') rebase cbor_len,
      nv_anchor =
        rebased_span
          (case json_get node ''struct_position_info'' of
             Some p \<Rightarrow> Some p
           | None \<Rightarrow> json_get node ''position_info'') rebase cbor_len,
      nv_preview = node_preview lib node\<rparr>"

record located_node =
  ln_tagged :: node_view
  ln_untagged :: "node_view option"
  ln_key :: "node_view option"
  ln_embedded :: bool

definition located_view :: "located_node \<Rightarrow> bool \<Rightarrow> node_view" where
  "located_view node names_tag =
     (case ln_untagged node of
        Some untagged \<Rightarrow> if names_tag then ln_tagged node else untagged
      | None \<Rightarrow> ln_tagged node)"

subsection \<open>Embedded payloads\<close>

definition MAX_SEQUENCE_ITEMS :: nat where "MAX_SEQUENCE_ITEMS = 4096"

text \<open>
  The items of a sequence from \<open>start\<close> on, with the ones before in \<open>out\<close>. The outer option is
  the decoder's, \<open>None\<close> when it does not return.
\<close>

function sequence_from :: "cbor_reader \<Rightarrow> bytes \<Rightarrow> (nat \<times> json) list \<Rightarrow> nat \<Rightarrow>
    (nat \<times> json) list option option" where
  "sequence_from rd payload out start =
     (if length payload \<le> start then Some (Some out)
      else if MAX_SEQUENCE_ITEMS \<le> length out then Some None
      else
        (case decode_cbor_to_value rd (drop start payload) of
           None \<Rightarrow> None
         | Some (Inr v) \<Rightarrow> Some (Some (out @ [(start, v)]))
         | Some (Inl (e, partial)) \<Rightarrow>
             if de_kind e = TrailingData then
               (case de_offset e of
                  None \<Rightarrow> Some None
                | Some stop \<Rightarrow>
                    if stop = 0 then Some None
                    else
                      (case decode_cbor_to_value rd (take stop (drop start payload)) of
                         None \<Rightarrow> None
                       | Some (Inl _) \<Rightarrow> Some None
                       | Some (Inr item) \<Rightarrow>
                           sequence_from rd payload (out @ [(start, item)]) (start + stop)))
             else Some None))"
  by pat_completeness auto
termination by (relation "measure (\<lambda>(rd, payload, out, start). length payload - start)") auto

declare sequence_from.simps [simp del]

definition decode_cbor_sequence :: "cbor_reader \<Rightarrow> bytes \<Rightarrow> (nat \<times> json) list option option" where
  "decode_cbor_sequence rd payload = sequence_from rd payload [] 0"

text \<open>
  The payload of a byte string of definite length and where it starts in the outer input, when it
  lies inside.
\<close>

definition bytes_payload :: "location_library \<Rightarrow> nat \<Rightarrow> nat \<Rightarrow> json \<Rightarrow> (bytes \<times> nat) option" where
  "bytes_payload lib rebase cbor_len node =
     (if node_str node ''type'' \<noteq> Some ''Bytes'' then None
      else
        Option.bind (node_str node ''value'') (\<lambda>hex.
          case fl_hex_decode (ll_floats lib) hex of
            Inl _ \<Rightarrow> None
          | Inr payload \<Rightarrow>
              Option.bind (json_get node ''position_info'') (\<lambda>pos.
                Option.bind (span_field pos ''offset'') (\<lambda>start.
                  Option.bind (span_field pos ''length'') (\<lambda>len.
                    if len < length payload then None
                    else
                      let content_start = rebase + start + (len - length payload) in
                      if cbor_len < content_start + length payload then None
                      else Some (payload, content_start))))))"

subsection \<open>The walk\<close>

definition step_with ::
  "location_library \<Rightarrow> key_index option \<Rightarrow> json \<Rightarrow> segment \<Rightarrow> step option \<times> key_index option" where
  "step_with lib keys item seg =
     (case keys of
        Some index \<Rightarrow> map_prod id Some (index_step_into lib index item seg)
      | None \<Rightarrow> (step_into lib item seg, None))"

text \<open>
  \<open>locate_from\<close> is the loop of \<open>locate_in\<close>. The addresses of a node and of its content differ when
  the node is a tag with a value.
\<close>

function (sequential) locate_from ::
  "location_library \<Rightarrow> nat \<Rightarrow> nat \<Rightarrow> nat \<Rightarrow> key_index option \<Rightarrow> json \<Rightarrow> json option \<Rightarrow> segment list \<Rightarrow>
     located_node option option \<times> key_index option"
  and locate_embedded ::
  "location_library \<Rightarrow> nat \<Rightarrow> nat \<Rightarrow> nat \<Rightarrow> json \<Rightarrow> segment list \<Rightarrow> located_node option option" where
  "locate_from lib cbor_len rebase depth keys node key [] =
     (let untagged = unwrap_tags node in
      (Some (Some \<lparr>ln_tagged = view_of lib node rebase cbor_len,
         ln_untagged = (if untagged = node then None else Some (view_of lib untagged rebase cbor_len)),
         ln_key = map_option (\<lambda>k. view_of lib k rebase cbor_len) key,
         ln_embedded = (0 < rebase)\<rparr>), keys))"
| "locate_from lib cbor_len rebase depth keys node key (seg # segs) =
     (let item = unwrap_tags node; (found, keys') = step_with lib keys item seg in
      case found of
        Some st \<Rightarrow> locate_from lib cbor_len rebase depth keys' (sv_value st) (sv_key st) segs
      | None \<Rightarrow>
          if node_kind item = ''Map'' then
            (Some (Some \<lparr>ln_tagged = view_of lib item rebase cbor_len, ln_untagged = None,
               ln_key = None, ln_embedded = (0 < rebase)\<rparr>), keys')
          else (locate_embedded lib cbor_len rebase depth item (seg # segs), keys'))"
| "locate_embedded lib cbor_len rebase depth node segs =
     (if MAX_EMBEDDED_DEPTH \<le> depth \<or> segs = [] then Some None
      else
        (case bytes_payload lib rebase cbor_len node of
           None \<Rightarrow> Some None
         | Some (payload, content_start) \<Rightarrow>
             (case decode_cbor_to_value (ll_reader lib) payload of
                None \<Rightarrow> None
              | Some (Inr inner) \<Rightarrow>
                  fst (locate_from lib cbor_len content_start (depth + 1) None inner None segs)
              | Some (Inl _) \<Rightarrow>
                  (case segs of
                     Index i # rest \<Rightarrow>
                       (case decode_cbor_sequence (ll_reader lib) payload of
                          None \<Rightarrow> None
                        | Some None \<Rightarrow> Some None
                        | Some (Some items) \<Rightarrow>
                            (case nth_opt items i of
                               None \<Rightarrow> Some None
                             | Some (item_start, item) \<Rightarrow>
                                 fst (locate_from lib cbor_len (content_start + item_start) (depth + 1)
                                   None item None rest)))
                   | _ \<Rightarrow> Some None))))"
  by pat_completeness auto
termination
  by (relation "inv_image (less_than <*lex*> less_than)
      (case_sum (\<lambda>(lib, len, rebase, depth, keys, node, key, segs). (MAX_EMBEDDED_DEPTH - depth, 2 * length segs + 1))
        (\<lambda>(lib, len, rebase, depth, node, segs). (MAX_EMBEDDED_DEPTH - depth, 2 * length segs)))") auto

declare locate_from.simps [simp del] locate_embedded.simps [simp del]

definition locate_in ::
  "location_library \<Rightarrow> json \<Rightarrow> segment list \<Rightarrow> nat \<Rightarrow> nat \<Rightarrow> nat \<Rightarrow> key_index option \<Rightarrow>
     located_node option option \<times> key_index option" where
  "locate_in lib root segs rebase depth cbor_len keys =
     locate_from lib cbor_len rebase depth keys root None segs"

text \<open>\<open>None\<close> when a component cannot be classified without a panic, or the decoder does not return.\<close>

definition locate_cbor_node ::
  "location_library \<Rightarrow> json \<Rightarrow> string \<Rightarrow> nat \<Rightarrow> key_index option \<Rightarrow>
     (located_node option \<times> key_index option) option" where
  "locate_cbor_node lib root loc cbor_len keys =
     (let trimmed = trim_start_slashes loc in
      Option.bind (if trimmed = [] then Some [] else classified_segments (ll_floats lib) trimmed)
        (\<lambda>cs. case locate_in lib root (map snd cs) 0 0 cbor_len keys of
           (found, keys') \<Rightarrow> map_option (\<lambda>n. (n, keys')) found))"

text \<open>The nodes one report has located, by location, with the index of its large maps.\<close>

record located_nodes =
  lo_by_location :: "string \<rightharpoonup> located_node option"
  lo_keys :: key_index

definition located_new :: located_nodes where
  "located_new = \<lparr>lo_by_location = Map.empty, lo_keys = Map.empty\<rparr>"

definition resolve ::
  "location_library \<Rightarrow> located_nodes \<Rightarrow> json \<Rightarrow> string \<Rightarrow> nat \<Rightarrow>
     (located_node option \<times> located_nodes) option" where
  "resolve lib ln root loc cbor_len =
     (case lo_by_location ln loc of
        Some node \<Rightarrow> Some (node, ln)
      | None \<Rightarrow>
          map_option (\<lambda>(node, keys).
              (node, \<lparr>lo_by_location = (lo_by_location ln)(loc \<mapsto> node),
                 lo_keys = (case keys of Some index \<Rightarrow> index | None \<Rightarrow> lo_keys ln)\<rparr>))
            (locate_cbor_node lib root loc cbor_len (Some (lo_keys ln))))"

subsection \<open>The path in the root\<close>

definition MAX_PATH_KEY_LEN :: nat where "MAX_PATH_KEY_LEN = 1024"

definition written_key_segment :: "json \<Rightarrow> string option" where
  "written_key_segment key =
     (let short = (\<lambda>out. if length out \<le> MAX_PATH_KEY_LEN then Some out else None) in
      case string_payload key ''String'' ''IndefiniteLengthString'' of
        Some text \<Rightarrow> short (text_key text)
      | None \<Rightarrow>
          (case string_payload key ''Bytes'' ''IndefiniteLengthBytes'' of
             Some hex \<Rightarrow> short (''.h'' @ [CHR 0x27] @ hex @ [CHR 0x27])
           | None \<Rightarrow> None))"

definition resolved_later :: "segment \<Rightarrow> bool" where
  "resolved_later seg \<longleftrightarrow> (case seg of Unnamed \<Rightarrow> True | Index i \<Rightarrow> True | _ \<Rightarrow> False)"

text \<open>The text of one component at \<open>node\<close>, with the step that was taken there.\<close>

definition path_component ::
  "location_library \<Rightarrow> key_index \<Rightarrow> json option \<Rightarrow> string \<times> segment \<Rightarrow>
     string \<times> step option \<times> key_index" where
  "path_component lib index node cs =
     (let (seg, classified) = cs; item = map_option unwrap_tags node in
      case item of
        None \<Rightarrow> (path_segment seg classified, None, index)
      | Some item \<Rightarrow>
          (let (taken, index') = index_step_into lib index item classified;
               positional = (resolved_later classified \<and> node_kind item = ''Map'');
               written = Option.bind (Option.bind taken sv_key) (\<lambda>key.
                 if positional \<and> \<not> is_integer_node key then written_key_segment key else None)
           in (case written of Some w \<Rightarrow> w | None \<Rightarrow> path_segment seg classified, taken, index')))"

text \<open>The tree is walked as long as a component is still to be resolved.\<close>

fun path_from ::
  "location_library \<Rightarrow> key_index \<Rightarrow> json option \<Rightarrow> (string \<times> segment) list \<Rightarrow> string \<times> key_index" where
  "path_from lib index node [] = ([], index)"
| "path_from lib index node (c # cs) =
     (let (text, taken, index') = path_component lib index node c;
          node' = (if list_ex (\<lambda>d. resolved_later (snd d)) cs then map_option sv_value taken else None);
          (rest, index'') = path_from lib index' node' cs
      in (text @ rest, index''))"

definition json_path_in_tree ::
  "location_library \<Rightarrow> json \<Rightarrow> string \<Rightarrow> key_index \<Rightarrow> (string \<times> key_index) option" where
  "json_path_in_tree lib root loc index =
     (let trimmed = trim_start_slashes loc in
      if trimmed = [] then Some (''$'', index)
      else
        map_option (\<lambda>cs.
            let node = (if list_ex (\<lambda>d. resolved_later (snd d)) cs then Some root else None);
                (text, index') = path_from lib index node cs
            in (''$'' @ text, index'))
          (classified_segments (ll_floats lib) trimmed))"

end
