(* ===== verification/Location_Facts.thy ===== *)
theory Location_Facts
  imports Location_Walk
begin

text \<open>
  The index of a large map's keys and the memory of the locations already looked up change no
  answer.
\<close>

subsection \<open>The first of a list\<close>

fun first_index :: "('a \<Rightarrow> bool) \<Rightarrow> 'a list \<Rightarrow> nat option" where
  "first_index P [] = None"
| "first_index P (x # xs) = (if P x then Some 0 else map_option Suc (first_index P xs))"

lemma first_index_append:
  "first_index P (xs @ [x]) =
     (case first_index P xs of Some i \<Rightarrow> Some i | None \<Rightarrow> if P x then Some (length xs) else None)"
  by (induction xs) (auto split: option.split)

lemma find_first_index: "find P xs = map_option (nth xs) (first_index P xs)"
  by (induction xs) (auto simp: option.map_comp o_def)

lemma first_index_less: "first_index P xs = Some i \<Longrightarrow> i < length xs"
  by (induction xs arbitrary: i) (auto split: if_splits)

lemma find_at: "Option.bind (find P xs) f = Option.bind (first_index P xs) (\<lambda>i. f (xs ! i))"
  by (simp add: find_first_index bind_map_option o_def)

lemma first_index_cong: "(\<And>x. x \<in> set xs \<Longrightarrow> P x = Q x) \<Longrightarrow> first_index P xs = first_index Q xs"
  by (induction xs) auto

subsection \<open>The index\<close>

definition int_entry :: "int \<Rightarrow> json \<Rightarrow> bool" where
  "int_entry n = entry_has (\<lambda>k. is_integer_node k \<and> Option.bind (json_get k ''value'') json_as_i64 = Some n)"

definition text_entry :: "string \<Rightarrow> json \<Rightarrow> bool" where
  "text_entry t = entry_has (\<lambda>k. node_kind k = ''String'' \<and> node_str k ''value'' = Some t)"

definition chunked_entry :: "json \<Rightarrow> bool" where
  "chunked_entry = entry_has (\<lambda>k. node_kind k = ''IndefiniteLengthString'')"

lemma integer_kinds: "is_integer_node k \<Longrightarrow> node_kind k \<noteq> ''String'' \<and> node_kind k \<noteq> ''IndefiniteLengthString''"
  by (auto simp: is_integer_node_def int_kinds_def)

lemma entry_has_at:
  "json_get e ''key'' = Some k \<Longrightarrow> entry_has P e \<longleftrightarrow> P k" "json_get e ''key'' = None \<Longrightarrow> \<not> entry_has P e"
  by (simp_all add: entry_has_def)

lemma map_keys_of_append:
  "map_keys_of (es @ [e]) = index_entry (map_keys_of es) (length es, e)"
  by (simp add: map_keys_of_def enumerate_append_eq)

lemma map_keys_of_first:
  "mk_ints (map_keys_of es) = (\<lambda>n. first_index (int_entry n) es)"
  "mk_text (map_keys_of es) =
     (if list_ex chunked_entry es then None else Some (\<lambda>t. first_index (text_entry t) es))"
proof (induction es rule: rev_induct)
  case Nil
  show "mk_ints (map_keys_of []) = (\<lambda>n. first_index (int_entry n) [])"
    "mk_text (map_keys_of []) =
       (if list_ex chunked_entry [] then None else Some (\<lambda>t. first_index (text_entry t) []))"
    by (auto simp: map_keys_of_def)
next
  case (snoc e es)
  note defs = map_keys_of_append index_entry_def first_index_append int_entry_def text_entry_def
    chunked_entry_def entry_has_at or_insert_def
  show "mk_ints (map_keys_of (es @ [e])) = (\<lambda>n. first_index (int_entry n) (es @ [e]))"
  proof (cases "json_get e ''key''")
    case None
    then show ?thesis using snoc(1) by (auto simp: defs fun_eq_iff split: option.splits)
  next
    case (Some k)
    then show ?thesis
      using snoc(1) integer_kinds [of k]
      by (auto simp: defs Let_def fun_eq_iff split: option.splits)
  qed
  show "mk_text (map_keys_of (es @ [e])) =
      (if list_ex chunked_entry (es @ [e]) then None
       else Some (\<lambda>t. first_index (text_entry t) (es @ [e])))"
  proof (cases "json_get e ''key''")
    case None
    then show ?thesis using snoc(2) by (auto simp: defs fun_eq_iff split: option.splits)
  next
    case (Some k)
    then show ?thesis
      using snoc(2) integer_kinds [of k]
      by (auto simp: defs Let_def fun_eq_iff split: option.splits)
  qed
qed

lemma string_key_is:
  "node_kind k \<noteq> ''IndefiniteLengthString'' \<Longrightarrow>
     string_payload_is k ''String'' ''IndefiniteLengthString'' t \<longleftrightarrow>
     node_kind k = ''String'' \<and> node_str k ''value'' = Some t"
  by (auto simp: string_payload_is_def node_kind_def split: option.splits)

definition index_ok :: "key_index \<Rightarrow> bool" where
  "index_ok index \<longleftrightarrow>
     (\<forall>node keys. index node = Some keys \<longrightarrow> (\<exists>es. node_values node = Some es \<and> keys = map_keys_of es))"

lemma indexed_keys_ok:
  assumes "index_ok index" "node_values node = Some es"
  shows "fst (indexed_keys index node es) = map_keys_of es \<and> index_ok (snd (indexed_keys index node es))"
proof (cases "index node")
  case (Some keys)
  with assms have "keys = map_keys_of es" unfolding index_ok_def by (metis option.inject)
  with Some assms(1) show ?thesis by (simp add: indexed_keys_def)
qed (use assms in \<open>auto simp: indexed_keys_def index_ok_def Let_def\<close>)

lemma text_lookup:
  assumes "\<not> list_ex chunked_entry es" "node_values node = Some es"
  shows "find_entry node (\<lambda>k. string_payload_is k ''String'' ''IndefiniteLengthString'' t) =
    Option.bind (first_index (text_entry t) es) (\<lambda>i. step_entry (es ! i))"
proof -
  have "first_index (entry_has (\<lambda>k. string_payload_is k ''String'' ''IndefiniteLengthString'' t)) es =
      first_index (text_entry t) es"
  proof (rule first_index_cong)
    fix e assume "e \<in> set es"
    then have "\<not> chunked_entry e" using assms(1) by (auto simp: list_ex_iff)
    then show "entry_has (\<lambda>k. string_payload_is k ''String'' ''IndefiniteLengthString'' t) e = text_entry t e"
      by (auto simp: entry_has_def text_entry_def chunked_entry_def string_key_is split: option.splits)
  qed
  then show ?thesis by (simp add: find_entry_def assms(2) find_at)
qed

lemma int_lookup:
  assumes "node_values node = Some es"
  shows "step_into_map lib node (Index i) =
    Option.bind (nth_opt es (case first_index (int_entry (int i)) es of Some n \<Rightarrow> n | None \<Rightarrow> i)) step_entry"
proof -
  have "entry_has (int_key_is i) = int_entry (int i)"
    by (simp add: int_entry_def int_key_is_def [abs_def])
  then show ?thesis
    by (auto simp: step_into_map_def assms find_first_index nth_opt_def dest: first_index_less split: option.split)
qed

lemma index_step:
  assumes "index_ok index"
  shows "fst (index_step_into lib index node seg) = step_into lib node seg \<and>
    index_ok (snd (index_step_into lib index node seg))"
proof (cases "node_values node")
  case None
  then show ?thesis using assms by (auto simp: index_step_into_def Let_def split: segment.split)
next
  case (Some es)
  obtain keys index' where keys: "indexed_keys index node es = (keys, index')" by fastforce
  have ok: "keys = map_keys_of es" "index_ok index'" using indexed_keys_ok [OF assms Some] by (simp_all add: keys)
  show ?thesis
  proof (cases "node_kind node = ''Map'' \<and> INDEXED_MAP_ENTRIES \<le> length es")
    case True
    then have map: "step_into lib node = step_into_map lib node" by (auto simp: step_into_def fun_eq_iff)
    show ?thesis
    proof (cases seg)
      case (Index i)
      then show ?thesis
        using True by (simp add: index_step_into_def Let_def Some keys ok map_keys_of_first int_lookup map)
    next
      case (TextKey t)
      then show ?thesis
        using True text_lookup [OF _ Some]
        by (simp add: index_step_into_def Let_def Some keys ok map_keys_of_first map step_into_map_def)
    qed (use assms in \<open>simp_all add: index_step_into_def Let_def\<close>)
  next
    case False
    then show ?thesis using assms Some by (auto simp: index_step_into_def Let_def split: segment.split)
  qed
qed

subsection \<open>The walk\<close>

definition keys_ok :: "key_index option \<Rightarrow> bool" where
  "keys_ok keys \<longleftrightarrow> (case keys of Some index \<Rightarrow> index_ok index | None \<Rightarrow> True)"

lemma step_with_ok:
  assumes "keys_ok keys"
  shows "fst (step_with lib keys item seg) = step_into lib item seg \<and>
    keys_ok (snd (step_with lib keys item seg)) \<and> (snd (step_with lib keys item seg) = None \<longleftrightarrow> keys = None)"
  using assms index_step by (auto simp: step_with_def keys_ok_def split: option.splits)

lemma locate_from_ok:
  "keys_ok keys \<Longrightarrow>
     fst (locate_from lib len rebase depth keys node key segs) =
       fst (locate_from lib len rebase depth None node key segs) \<and>
     keys_ok (snd (locate_from lib len rebase depth keys node key segs)) \<and>
     (snd (locate_from lib len rebase depth keys node key segs) = None \<longleftrightarrow> keys = None)"
proof (induction segs arbitrary: keys node key)
  case Nil
  then show ?case by (simp add: locate_from.simps Let_def)
next
  case (Cons seg segs)
  obtain found keys' where st: "step_with lib keys (unwrap_tags node) seg = (found, keys')" by fastforce
  from step_with_ok [OF Cons.prems, of lib "unwrap_tags node" seg]
  have found: "found = step_into lib (unwrap_tags node) seg" and ok: "keys_ok keys'"
    and none: "keys' = None \<longleftrightarrow> keys = None"
    by (simp_all add: st)
  have plain: "step_with lib None (unwrap_tags node) seg = (found, None)" by (simp add: step_with_def found)
  show ?case
  proof (cases found)
    case None
    then show ?thesis
      using ok none unfolding locate_from.simps(2) by (simp add: st plain Let_def)
  next
    case (Some s)
    then show ?thesis
      using Cons.IH [OF ok, of "sv_value s" "sv_key s"] none
      unfolding locate_from.simps(2) by (simp add: st plain Let_def)
  qed
qed

subsection \<open>The memory of a report\<close>

definition located_ok :: "location_library \<Rightarrow> json \<Rightarrow> nat \<Rightarrow> located_nodes \<Rightarrow> bool" where
  "located_ok lib root len ln \<longleftrightarrow>
     index_ok (lo_keys ln) \<and>
     (\<forall>loc node. lo_by_location ln loc = Some node \<longrightarrow>
        locate_cbor_node lib root loc len None = Some (node, None))"

lemma located_new_ok: "located_ok lib root len located_new"
  by (simp add: located_ok_def located_new_def index_ok_def)

lemma locate_cbor_node_ok:
  assumes "index_ok index"
  shows "(case locate_cbor_node lib root loc len (Some index) of
      None \<Rightarrow> locate_cbor_node lib root loc len None = None
    | Some (node, keys) \<Rightarrow>
        locate_cbor_node lib root loc len None = Some (node, None) \<and> (\<exists>index'. keys = Some index' \<and> index_ok index'))"
proof (cases "if trim_start_slashes loc = [] then Some []
    else classified_segments (ll_floats lib) (trim_start_slashes loc)")
  case None
  then show ?thesis by (simp add: locate_cbor_node_def Let_def)
next
  case (Some cs)
  have ok: "keys_ok (Some index)" using assms by (simp add: keys_ok_def)
  note walk = locate_from_ok [OF ok, of lib len 0 0 root None "map snd cs"]
  have none: "snd (locate_from lib len 0 0 None root None (map snd cs)) = None"
    using locate_from_ok [of None lib len 0 0 root None "map snd cs"] by (simp add: keys_ok_def)
  obtain found keys where f: "locate_from lib len 0 0 (Some index) root None (map snd cs) = (found, keys)"
    by fastforce
  obtain found' keys' where f': "locate_from lib len 0 0 None root None (map snd cs) = (found', keys')"
    by fastforce
  from walk none have eq: "found = found'" "keys' = None" "\<exists>index'. keys = Some index' \<and> index_ok index'"
    by (auto simp: f f' keys_ok_def split: option.splits)
  then show ?thesis
    unfolding locate_cbor_node_def Let_def Some by (cases found') (auto simp: locate_in_def f f')
qed

theorem resolve_ok:
  assumes "located_ok lib root len ln"
  shows "(case resolve lib ln root loc len of
      None \<Rightarrow> locate_cbor_node lib root loc len None = None
    | Some (node, ln') \<Rightarrow>
        locate_cbor_node lib root loc len None = Some (node, None) \<and> located_ok lib root len ln')"
proof (cases "lo_by_location ln loc")
  case None
  have "index_ok (lo_keys ln)" using assms by (simp add: located_ok_def)
  from locate_cbor_node_ok [OF this, of lib root loc len] show ?thesis
    using assms None
    by (cases "locate_cbor_node lib root loc len (Some (lo_keys ln))")
      (auto simp: resolve_def located_ok_def split: if_splits)
next
  case (Some node)
  with assms show ?thesis by (simp add: resolve_def located_ok_def)
qed

text \<open>The memory after a sequence of lookups, as one report makes them.\<close>

fun resolve_all ::
  "location_library \<Rightarrow> json \<Rightarrow> nat \<Rightarrow> string list \<Rightarrow> located_nodes \<Rightarrow> located_nodes option" where
  "resolve_all lib root len [] ln = Some ln"
| "resolve_all lib root len (loc # locs) ln =
     Option.bind (resolve lib ln root loc len) (\<lambda>(node, ln'). resolve_all lib root len locs ln')"

lemma resolve_all_ok:
  "located_ok lib root len ln \<Longrightarrow> resolve_all lib root len locs ln = Some ln' \<Longrightarrow> located_ok lib root len ln'"
proof (induction locs arbitrary: ln)
  case (Cons loc locs)
  from Cons.prems(2) obtain node ln1 where
    r: "resolve lib ln root loc len = Some (node, ln1)" "resolve_all lib root len locs ln1 = Some ln'"
    by (auto simp: bind_eq_Some_conv)
  with resolve_ok [OF Cons.prems(1), of loc] have "located_ok lib root len ln1" by simp
  then show ?case using r(2) by (rule Cons.IH)
qed simp

theorem resolved_fresh:
  assumes "resolve_all lib root len locs located_new = Some ln"
  shows "map_option fst (resolve lib ln root loc len) =
    map_option fst (locate_cbor_node lib root loc len None)"
  using resolve_ok [OF resolve_all_ok [OF located_new_ok assms], of loc] by (auto split: option.splits)

end
