(* ===== verification/Diagnostic_Facts.thy ===== *)
theory Diagnostic_Facts
  imports Diagnostic_Match Decoder_Facts Limits_Facts
begin

text \<open>
  A node of the decoded tree matches an item of the notation exactly when they are the same data,
  whatever widths the document writes its headers in and however it chunks its strings.
\<close>

subsection \<open>Members of nodes\<close>

lemma json_get_JObj [simp]: "json_get (JObj obj) key = map_of obj key"
  by (simp add: json_get_def)

lemma json_get_attach [simp]:
  "key \<noteq> ''oddities'' \<Longrightarrow> json_get (attach_oddities (JObj obj) os) key = map_of obj key"
  by (simp add: attach_oddities_def obj_insert_def update_conv')

lemma json_get_token [simp]:
  "json_get (simple_token t v s e) key =
     (if key = ''type'' then Some (JStr t)
      else if key = ''position_info'' then Some (pos_value s e)
      else if key = ''value'' then Some v else None)"
  by (simp add: simple_token_def)

lemma json_get_attached_token [simp]:
  "key \<noteq> ''oddities'' \<Longrightarrow> json_get (attach_oddities (simple_token t v s e) os) key =
     json_get (simple_token t v s e) key"
  by (simp add: simple_token_def)

lemma json_as_simps [simp]:
  "json_as_str (JStr s) = Some s" "json_as_array (JArr xs) = Some xs"
  "json_as_bool (JBool b) = Some b" "json_as_u64 (JNum (PosInt n)) = Some n"
  "json_as_u64 (JNum (NegInt k)) = None" "json_as_u64 (JNum (FloatBits f)) = None"
  "json_as_f64 lib (JNum (FloatBits f)) = Some f"
  by (simp_all add: json_as_str_def json_as_array_def json_as_bool_def json_as_u64_def json_as_f64_def)

lemma kind_simps:
  "node_str node ''type'' = Some t \<Longrightarrow> node_kind node = t"
  by (simp add: node_kind_def)

subsection \<open>Scalars\<close>

lemma positive_type_kind: "positive_type_name k \<in> set int_kinds"
  by (simp add: positive_type_name_def int_kinds_def)

lemma negative_type_kind: "negative_type_name k v \<in> set int_kinds"
  by (simp add: negative_type_name_def int_kinds_def)

lemma int_kinds_other:
  "k \<in> set int_kinds \<Longrightarrow>
     k \<notin> {''Bytes'', ''IndefiniteLengthBytes'', ''String'', ''IndefiniteLengthString'', ''F16'', ''F32'', ''F64'',
          ''Bool'', ''Null'', ''Undefined'', ''Simple'', ''Tag'', ''Array'', ''Map'', ''Break''}"
  by (auto simp: int_kinds_def)

text \<open>An integer node: one of the integer kinds, and a number with its value.\<close>

lemma int_node_matches:
  assumes "node_str node ''type'' = Some k" "k \<in> set int_kinds" "\<And>n. int_node_is lib node n \<longleftrightarrow> v = n"
  shows "node_matches lib node d \<longleftrightarrow> diag_eq (DInt v) d"
proof -
  have kind: "node_kind node = k" using assms(1) by (rule kind_simps)
  show ?thesis
    using int_kinds_other [OF assms(2)] kind assms(1,3)
    by (cases d) (auto simp: string_payload_is_def)
qed

lemma positive_node:
  assumes "n < 2 ^ 64"
  shows "node_matches lib (attach_oddities (simple_token (positive_type_name k) (JNum (PosInt (of_nat n))) s e) os) d
    \<longleftrightarrow> diag_eq (DInt (int n)) d"
proof -
  let ?node = "attach_oddities (simple_token (positive_type_name k) (JNum (PosInt (of_nat n))) s e) os"
  have kind: "node_str ?node ''type'' = Some (positive_type_name k)" by (simp add: node_str_def)
  have "uint (of_nat n :: u64) = int n" using assms by (simp add: unsigned_of_nat take_bit_eq_mod)
  then have "int_node_is lib ?node m \<longleftrightarrow> int n = m" for m
    using kind_simps [OF kind] by (simp add: int_node_is_def positive_type_kind)
  with kind positive_type_kind show ?thesis by (rule int_node_matches)
qed

lemma sint_of_int_small: "- (2 ^ 63) \<le> i \<Longrightarrow> i < 2 ^ 63 \<Longrightarrow> sint (of_int i :: 64 word) = i"
  by (simp add: signed_of_int signed_take_bit_int_eq_self)

lemma uint_ucast_byte [simp]: "uint (ucast (b :: u8) :: u64) = uint b"
  using unsigned_less [of b, where 'a = int] by (simp add: unsigned_ucast_eq take_bit_int_eq_self_iff)

lemma negative_node:
  assumes "n < 2 ^ 63"
  shows "node_matches lib (attach_oddities (simple_token (negative_type_name k v) (JNum (NegInt (of_int (- int n - 1)))) s e) os) d
    \<longleftrightarrow> diag_eq (DInt (- 1 - int n)) d"
proof -
  let ?node = "attach_oddities (simple_token (negative_type_name k v) (JNum (NegInt (of_int (- int n - 1)))) s e) os"
  have kind: "node_str ?node ''type'' = Some (negative_type_name k v)" by (simp add: node_str_def)
  have "sint (of_int (- int n - 1) :: 64 word) = - int n - 1"
    by (rule sint_of_int_small) (use assms in simp_all)
  then have "int_node_is lib ?node m \<longleftrightarrow> - 1 - int n = m" for m
    using kind_simps [OF kind] by (auto simp: int_node_is_def negative_type_kind)
  with kind negative_type_kind show ?thesis by (rule int_node_matches)
qed

lemma float_node:
  "node_matches lib (attach_oddities (simple_token (float_type_name k) (JNum (FloatBits f)) s e) os) d
    \<longleftrightarrow> diag_eq (DFloat f) d"
proof -
  let ?node = "attach_oddities (simple_token (float_type_name k) (JNum (FloatBits f)) s e) os"
  have kind: "node_str ?node ''type'' = Some (float_type_name k)" by (simp add: node_str_def)
  have "float_type_name k \<in> {''F16'', ''F32'', ''F64''}" by (simp add: float_type_name_def)
  with kind kind_simps [OF kind] show ?thesis
    by (cases d) (auto simp: string_payload_is_def int_node_is_def int_kinds_def)
qed

lemma simple_node:
  assumes "n < 256"
  shows "node_matches lib (simple_value (of_nat n) s e) d \<longleftrightarrow>
    diag_eq (if n = 20 then DBool False else if n = 21 then DBool True
      else if n = 22 \<or> n = 23 then DNull else DSimple (of_nat n)) d"
proof -
  have "(of_nat n :: u8) = of_nat m \<longleftrightarrow> n = m" if "m < 256" for m
    using assms that by (simp add: word_unat_eq_iff unat_of_nat take_bit_eq_mod)
  from this [of 20] this [of 21] this [of 22] this [of 23]
  have "(of_nat n :: u8) = 20 \<longleftrightarrow> n = 20" "(of_nat n :: u8) = 21 \<longleftrightarrow> n = 21"
    "(of_nat n :: u8) = 22 \<longleftrightarrow> n = 22" "(of_nat n :: u8) = 23 \<longleftrightarrow> n = 23"
    by simp_all
  note bits = this
  have kind: "node_kind (simple_token t v s e) = t" for t v by (simp add: node_kind_def node_str_def)
  have str: "node_str (simple_token t v s e) ''type'' = Some t" for t v by (simp add: node_str_def)
  have simple: "ucast (of_nat n :: u8) = (ucast m :: u64) \<longleftrightarrow> of_nat n = m" for m :: u8
    by (metis uint_ucast_byte word_uint_eq_iff)
  show ?thesis
    unfolding simple_value_def bits
    by (cases d) (auto simp: kind str string_payload_is_def int_node_is_def int_kinds_def json_nat_def simple)
qed

subsection \<open>Strings\<close>

lemma eat_literal_iff: "eat_literal lit s = Some r \<longleftrightarrow> s = lit @ r"
  by (auto simp: eat_literal_def) (metis append_take_drop_id)

lemma string_node:
  assumes "major \<in> {2, 3}"
  shows "node_matches lib (string_token major payload s e) d \<longleftrightarrow>
    diag_eq (if major = 2 then DBytes payload else DText (text_of payload)) d"
  using assms
  by (cases d) (auto simp: string_token_def string_payload_is_def node_kind_def node_str_def
      int_node_is_def int_kinds_def)

definition part_of :: "nat \<Rightarrow> bytes \<Rightarrow> string" where
  "part_of major payload = (if major = 2 then hex_encode payload else text_of payload)"

lemma chunks_spell_tokens:
  "chunks_spell (chunk_tokens major i cs @ [break_token s e]) want \<longleftrightarrow>
     want = part_of major (concat (map snd cs))"
proof (induction cs arbitrary: i want)
  case Nil
  then show ?case
    by (simp add: break_token_def node_str_def part_of_def hex_encode_def text_of_def)
next
  case (Cons c cs)
  have token: "node_str (string_token major (snd c) s e) ''type'' \<noteq> Some ''Break''"
    "node_str (string_token major (snd c) s e) ''value'' = Some (part_of major (snd c))" for s e
    by (simp_all add: string_token_def node_str_def part_of_def)
  have "part_of major (concat (map snd (c # cs))) = part_of major (snd c) @ part_of major (concat (map snd cs))"
    by (simp add: part_of_def hex_encode_def text_of_def)
  with Cons show ?case
    by (auto simp: token eat_literal_iff split: option.split) (metis eat_literal_iff option.distinct(1))
qed

lemma chunked_node:
  assumes "major \<in> {2, 3}"
  shows "node_matches lib (attach_oddities (JObj (chunks_object s h e
      (chunk_tokens major i cs @ [break_token b b']) (kind_of major))) os) d \<longleftrightarrow>
    diag_eq (if major = 2 then DBytes (concat (map snd cs)) else DText (text_of (concat (map snd cs)))) d"
proof -
  let ?node = "attach_oddities (JObj (chunks_object s h e
      (chunk_tokens major i cs @ [break_token b b']) (kind_of major))) os"
  have kind: "node_str ?node ''type'' = Some (chunked_type_name (kind_of major))"
    by (simp add: node_str_def chunks_object_def)
  have chunks: "json_get ?node ''chunks'' = Some (JArr (chunk_tokens major i cs @ [break_token b b']))"
    by (simp add: chunks_object_def)
  from assms show ?thesis
    using kind chunks
    by (cases d) (auto simp: string_payload_is_def node_kind_def chunks_spell_tokens part_of_def
        int_node_is_def int_kinds_def)
qed

subsection \<open>Containers\<close>

lemma container_node:
  assumes "kind \<in> {''Array'', ''Map''}"
  shows "node_str (attach_oddities (JObj (container_object kind s h e len vs)) os) ''type'' = Some kind"
    "node_values (attach_oddities (JObj (container_object kind s h e len vs)) os) = Some vs"
  by (simp_all add: node_str_def node_values_def container_object_def)

lemma array_node:
  "node_matches lib (array_value s h e vs len) d \<longleftrightarrow>
     (case d of DArr ds \<Rightarrow> items_match lib (without_break vs) ds | _ \<Rightarrow> False)"
  using container_node [of "''Array''" s h e len vs]
  by (cases d) (simp_all add: array_value_def node_kind_def string_payload_is_def int_node_is_def int_kinds_def)

lemma map_node:
  "node_matches lib (map_value bs s h e vs spans len) d \<longleftrightarrow>
     (case d of DMap ds \<Rightarrow> entries_match lib (without_break vs) ds | _ \<Rightarrow> False)"
  using container_node [of "''Map''" s h e len vs]
  by (cases d) (simp_all add: map_value_def node_kind_def string_payload_is_def int_node_is_def int_kinds_def)

lemma without_break_break: "without_break (vs @ [break_token s e]) = without_break vs"
  by (simp add: without_break_def break_token_def node_str_def)

subsection \<open>Tags\<close>

lemma of_char_digit: "d < 10 \<Longrightarrow> of_char (digit d) = (48 + d :: nat)"
  by (simp add: digit_def)

lemma decimal_digits: "c \<in> set (decimal n) \<Longrightarrow> is_digit c"
proof (induction n rule: less_induct)
  case (less n)
  show ?case
  proof (cases "n < 10")
    case True
    with less.prems show ?thesis by (simp add: decimal.simps [of n] is_digit_def of_char_digit)
  next
    case False
    have "of_char (digit (n mod 10)) = (48 + n mod 10 :: nat)" by (rule of_char_digit) simp
    then have "is_digit (digit (n mod 10))" by (simp add: is_digit_def)
    with less.IH [of "n div 10"] less.prems False show ?thesis by (auto simp: decimal.simps [of n])
  qed
qed

lemma decimal_not_Nil [simp]: "decimal n \<noteq> []"
  by (simp add: decimal.simps [of n])

lemma digits_value_append:
  "digits_value acc (xs @ ys) = Option.bind (digits_value acc xs) (\<lambda>a. digits_value a ys)"
  by (induction acc xs rule: digits_value.induct) simp_all

lemma digits_value_decimal: "n < 2 ^ 64 \<Longrightarrow> digits_value 0 (decimal n) = Some n"
proof (induction n rule: less_induct)
  case (less n)
  show ?case
  proof (cases "n < 10")
    case True
    then show ?thesis by (simp add: decimal.simps [of n] is_digit_def of_char_digit)
  next
    case False
    with less have "digits_value 0 (decimal (n div 10)) = Some (n div 10)" by simp
    moreover have "of_char (digit (n mod 10)) = (48 + n mod 10 :: nat)" by (rule of_char_digit) simp
    moreover have "10 * (n div 10) + n mod 10 = n" by simp
    ultimately show ?thesis
      using False less.prems by (simp add: decimal.simps [of n] digits_value_append is_digit_def)
  qed
qed

lemma parse_u64_decimal: "n < 2 ^ 64 \<Longrightarrow> parse_u64 (decimal n) = Some (of_nat n)"
proof -
  assume small: "n < 2 ^ 64"
  obtain c cs where cs: "decimal n = c # cs" using decimal_not_Nil by (cases "decimal n") auto
  then have "is_digit c" using decimal_digits [of c n] by simp
  then have "c \<noteq> CHR ''+''" by (auto simp: is_digit_def)
  then have "(case decimal n of CHR ''+'' # rest \<Rightarrow> rest | _ \<Rightarrow> decimal n) = decimal n"
    unfolding cs by (auto split: char.split bool.split)
  then show ?thesis using digits_value_decimal [OF small] by (simp add: parse_u64_def)
qed

lemma find_by_name:
  "distinct (map snd xs) \<Longrightarrow> (t, name) \<in> set xs \<Longrightarrow> find (\<lambda>(tag, n). n = name) xs = Some (t, name)"
  by (induction xs) force+

lemma named_tags_distinct: "distinct (map snd NAMED_TAGS)"
  by code_simp

lemma named_tags_not_unassigned:
  "\<forall>p \<in> set NAMED_TAGS. take (length UNASSIGNED_PREFIX) (snd p) \<noteq> UNASSIGNED_PREFIX"
  by code_simp

theorem tag_number_name: "tag_number (tag_name t) = Some t"
proof (cases "find (\<lambda>(n, _). n = t) NAMED_TAGS")
  case None
  let ?name = "UNASSIGNED_PREFIX @ decimal (unat t) @ UNASSIGNED_SUFFIX"
  have "unat t < 2 ^ LENGTH(64)" by (rule unsigned_less)
  then have "parse_u64 (decimal (unat t)) = Some t" using parse_u64_decimal by simp
  moreover have "find (\<lambda>(tag, n). n = ?name) NAMED_TAGS = None"
    using named_tags_not_unassigned by (auto simp: find_None_iff)
  ultimately show ?thesis
    using None by (simp add: tag_number_def tag_name_def UNASSIGNED_SUFFIX_def Let_def)
next
  case (Some p)
  obtain n name where p: "p = (n, name)" by fastforce
  with Some have "(n, name) \<in> set NAMED_TAGS" "n = t"
    by (auto simp: find_Some_iff) (metis nth_mem)
  with find_by_name [OF named_tags_distinct] Some p show ?thesis
    by (simp add: tag_number_def tag_name_def)
qed

lemma tag_node:
  "node_matches lib (tag_value rd s h e t v) d \<longleftrightarrow>
     (case d of DTag u x \<Rightarrow> t = u \<and> node_matches lib v x | _ \<Rightarrow> False)"
proof -
  let ?node = "tag_value rd s h e t v"
  have "json_get ?node ''value'' = Some v" "node_str ?node ''type'' = Some ''Tag''"
    "node_str ?node ''tag'' = Some (tag_name t)"
    by (simp_all add: tag_value_def tag_object_def node_str_def obj_insert_def update_conv')
  then show ?thesis
    by (cases d) (auto simp: node_kind_def string_payload_is_def int_node_is_def int_kinds_def tag_number_name)
qed

subsection \<open>The tree\<close>

lemma scalar_node:
  assumes "well_formed (Scalar major w n)" "decodable fl (Scalar major w n)"
  shows "node_matches lib (scalar_tree rd (header_of fl major w n) s e) d \<longleftrightarrow>
    diag_eq (scalar_diag fl major w n) d"
proof -
  have fits: "fits w n" and major: "major = 0 \<or> major = 1 \<or> major = 7" using assms(1) by auto
  from major show ?thesis
  proof (elim disjE)
    assume m: "major = 0"
    with positive_node [OF fits_u64 [OF fits]] show ?thesis
      by (simp add: scalar_tree_def scalar_value_def header_of_def scalar_diag_def Let_def)
  next
    assume m: "major = 1"
    then have n: "n < 2 ^ 63" using assms(2) by simp
    then have "uint (of_nat n :: u64) = int n" by (simp add: unsigned_of_nat take_bit_eq_mod)
    with m n negative_node [OF n] show ?thesis
      by (simp add: scalar_tree_def scalar_value_def header_of_def scalar_diag_def negative_value_def Let_def)
  next
    assume m: "major = 7"
    show ?thesis
    proof (cases "w = Inline \<or> w = Arg1")
      case True
      then have "n < 256" using fits by auto
      with True m simple_node [of n] show ?thesis
        by (auto simp: scalar_tree_def scalar_value_def header_of_def scalar_diag_def Let_def)
    next
      case False
      with m assms(2) have "f64_is_finite (fl w n)" by simp
      with False m float_node show ?thesis
        by (simp add: scalar_tree_def scalar_value_def header_of_def scalar_diag_def number_from_f64_def Let_def)
    qed
  qed
qed

lemma scalar_tree_type:
  assumes "well_formed (Scalar major w n)" "decodable fl (Scalar major w n)"
  shows "node_str (scalar_tree rd (header_of fl major w n) s e) ''type'' \<noteq> Some ''Break''"
proof -
  have "node_str (simple_value b s e) ''type'' \<noteq> Some ''Break''" for b
    by (simp add: simple_value_def node_str_def)
  moreover have "positive_type_name k \<noteq> ''Break''" "negative_type_name k v \<noteq> ''Break''"
    "float_type_name k \<noteq> ''Break''" for k v
    by (simp_all add: positive_type_name_def negative_type_name_def float_type_name_def)
  moreover have "n < 2 ^ 63 \<Longrightarrow> uint (of_nat n :: u64) = int n"
    by (simp add: unsigned_of_nat take_bit_eq_mod)
  ultimately show ?thesis
    using assms
    by (auto simp: scalar_tree_def scalar_value_def header_of_def negative_value_def number_from_f64_def
        node_str_def Let_def)
qed

lemma tree_not_break:
  assumes "well_formed x" "decodable fl x"
  shows "node_str (tree rd fl bs i x) ''type'' \<noteq> Some ''Break''"
proof (cases x)
  case (Scalar major w n)
  with assms scalar_tree_type show ?thesis by simp
next
  case (StrIndef major cs)
  then show ?thesis by (simp add: node_str_def chunks_object_def kind_of_def Let_def)
qed (simp_all add: node_str_def string_token_def array_value_def map_value_def tag_value_def
    container_object_def tag_object_def obj_insert_def update_conv' Let_def)

lemma without_break_forest:
  "\<forall>x \<in> set xs. well_formed x \<and> decodable fl x \<Longrightarrow>
     without_break (forest rd fl bs i xs) = forest rd fl bs i xs"
  by (induction xs arbitrary: i) (simp_all add: without_break_def tree_not_break)

lemma without_break_entries: "without_break (pair_entries vs) = pair_entries vs"
  by (induction vs rule: pair_entries.induct) (simp_all add: without_break_def map_entry_def node_str_def)

lemma forest_matches:
  "\<forall>x \<in> set xs. \<forall>i d. node_matches lib (tree rd fl bs i x) d = diag_eq (diag_of fl x) d \<Longrightarrow>
     items_match lib (forest rd fl bs i xs) ds = list_all2 diag_eq (map (diag_of fl) xs) ds"
proof (induction xs arbitrary: i ds)
  case Nil
  then show ?case by (cases ds) simp_all
next
  case (Cons x xs)
  then show ?case by (cases ds) simp_all
qed

lemma entries_matches:
  "even (length xs) \<Longrightarrow>
     \<forall>x \<in> set xs. \<forall>i d. node_matches lib (tree rd fl bs i x) d = diag_eq (diag_of fl x) d \<Longrightarrow>
     entries_match lib (pair_entries (forest rd fl bs i xs)) ds =
       list_all2 (\<lambda>p q. diag_eq (fst p) (fst q) \<and> diag_eq (snd p) (snd q))
         (pair_up (map (diag_of fl) xs)) ds"
proof (induction xs arbitrary: i ds rule: pair_up.induct)
  case (1 k v rest)
  then show ?case by (cases ds) (auto simp: map_entry_def)
next
  case "2_1"
  then show ?case by (cases ds) simp_all
qed simp_all

theorem tree_matches:
  "well_formed x \<Longrightarrow> decodable fl x \<Longrightarrow>
     node_matches lib (tree rd fl bs i x) d = diag_eq (diag_of fl x) d"
proof (induction x arbitrary: i d)
  case (Scalar major w n)
  then show ?case by (simp add: scalar_node del: well_formed.simps decodable.simps)
next
  case (Str major w payload)
  then show ?case by (simp add: string_node del: diag_eq.simps)
next
  case (StrIndef major cs)
  then show ?case by (simp add: chunked_node Let_def del: diag_eq.simps)
next
  case (Arr w xs)
  then have "\<forall>x \<in> set xs. \<forall>i d. node_matches lib (tree rd fl bs i x) d = diag_eq (diag_of fl x) d" by simp
  with Arr.prems show ?case
    unfolding tree.simps Let_def array_node diag_of.simps
    by (cases d) (simp_all add: without_break_forest forest_matches Let_def)
next
  case (ArrIndef xs)
  then have "\<forall>x \<in> set xs. \<forall>i d. node_matches lib (tree rd fl bs i x) d = diag_eq (diag_of fl x) d" by simp
  with ArrIndef.prems show ?case
    unfolding tree.simps Let_def array_node diag_of.simps
    by (cases d) (simp_all add: without_break_break without_break_forest forest_matches Let_def)
next
  case (Assoc w xs)
  then have "\<forall>x \<in> set xs. \<forall>i d. node_matches lib (tree rd fl bs i x) d = diag_eq (diag_of fl x) d" by simp
  with Assoc.prems show ?case
    unfolding tree.simps Let_def map_node diag_of.simps
    by (cases d) (simp_all add: without_break_entries entries_matches Let_def)
next
  case (AssocIndef xs)
  then have "\<forall>x \<in> set xs. \<forall>i d. node_matches lib (tree rd fl bs i x) d = diag_eq (diag_of fl x) d" by simp
  with AssocIndef.prems show ?case
    unfolding tree.simps Let_def map_node diag_of.simps
    by (cases d) (simp_all add: without_break_break without_break_entries entries_matches Let_def)
next
  case (Tagged w n x)
  then show ?case
    unfolding tree.simps Let_def tag_node diag_of.simps
    by (cases d) simp_all
qed

end
