(* ===== verification/Document_Cache.thy ===== *)
theory Document_Cache
  imports Cddl_Limits
begin

text \<open>
  Schema documents and their cache (\<^verbatim>\<open>src/src/cbor/document_cache.rs\<close>): every schema text is
  checked for nesting, parsed, and kept with its outcome, most recently used first. The parser is
  that of the \<^verbatim>\<open>cddl\<close> library and a parameter, \<open>'ast\<close> its syntax trees. A text is its
  bytes.
\<close>

subsection \<open>Rejections\<close>

datatype schema_error_kind = NestingTooDeepSchema | ParseFailed | Unresolved

fun schema_error_kind_str :: "schema_error_kind \<Rightarrow> string" where
  "schema_error_kind_str NestingTooDeepSchema = ''nesting_too_deep''"
| "schema_error_kind_str ParseFailed = ''parse_error''"
| "schema_error_kind_str Unresolved = ''unresolved_references''"

record schema_error =
  se_kind :: schema_error_kind
  se_message :: string
  se_span :: "(nat \<times> nat \<times> nat) option"

definition to_js_error :: "schema_error \<Rightarrow> string" where
  "to_js_error e = ''CDDL parse error: '' @ se_message e"

definition MISSING_RULE_PREFIX :: string where
  "MISSING_RULE_PREFIX = ''missing definition for rule ''"

text \<open>The parser's errors: with the range, the line and the short message, or another one's text.\<close>

datatype parser_error = ParserAt nat nat nat string | OtherParserError string

definition classify :: "parser_error \<Rightarrow> schema_error" where
  "classify e =
     (case e of
        ParserAt start end line short \<Rightarrow>
          \<lparr>se_kind = (if take (length MISSING_RULE_PREFIX) short = MISSING_RULE_PREFIX
                      then Unresolved else ParseFailed),
           se_message = short,
           se_span = (if start \<noteq> end then Some (start, end, line) else None)\<rparr>
      | OtherParserError text \<Rightarrow>
          \<lparr>se_kind = ParseFailed, se_message = text, se_span = None\<rparr>)"

subsection \<open>Documents\<close>

text \<open>The parser with and without the check that every reference resolves.\<close>

record 'ast cddl_parser =
  parse_checked :: "bytes \<Rightarrow> parser_error + 'ast"
  parse_plain :: "bytes \<Rightarrow> parser_error + 'ast"

definition parse_document :: "'ast cddl_parser \<Rightarrow> bytes \<Rightarrow> bool \<Rightarrow> parser_error + 'ast" where
  "parse_document p src checked = (if checked then parse_checked p src else parse_plain p src)"

record 'ast document_entry =
  en_parsed :: "'ast option"
  en_error :: "schema_error option"

definition line_of :: "bytes \<Rightarrow> nat \<Rightarrow> nat" where
  "line_of src offset = 1 + length (filter (\<lambda>b. b = 10) (take (min offset (length src)) src))"

definition build_entry :: "'ast cddl_parser \<Rightarrow> bytes \<Rightarrow> 'ast document_entry" where
  "build_entry p src =
     (case cddl_nesting_overflow src of
        Some overflow \<Rightarrow>
          let at = ov_offset overflow in
          \<lparr>en_parsed = None,
           en_error = Some \<lparr>se_kind = NestingTooDeepSchema, se_message = cddl_overflow_message overflow,
             se_span = Some (at, at + 1, line_of src at)\<rparr>\<rparr>
      | None \<Rightarrow>
          (case parse_document p src True of
             Inr doc \<Rightarrow> \<lparr>en_parsed = Some doc, en_error = None\<rparr>
           | Inl e \<Rightarrow>
               let error = classify e in
               \<lparr>en_parsed =
                  (if se_kind error = Unresolved
                   then (case parse_document p src False of Inr doc \<Rightarrow> Some doc | Inl _ \<Rightarrow> None)
                   else None),
                en_error = Some error\<rparr>))"

text \<open>\<open>None\<close> is the branch the code calls unreachable.\<close>

definition unchecked_ast :: "'ast document_entry \<Rightarrow> (schema_error + 'ast) option" where
  "unchecked_ast entry =
     (case (en_parsed entry, en_error entry) of
        (Some doc, _) \<Rightarrow> Some (Inr doc)
      | (None, Some e) \<Rightarrow> Some (Inl e)
      | (None, None) \<Rightarrow> None)"

definition checked_ast :: "'ast document_entry \<Rightarrow> (schema_error + 'ast) option" where
  "checked_ast entry =
     (case (en_error entry, en_parsed entry) of
        (Some e, _) \<Rightarrow> Some (Inl e)
      | (None, Some doc) \<Rightarrow> Some (Inr doc)
      | (None, None) \<Rightarrow> None)"

subsection \<open>The cache\<close>

definition CACHE_CAPACITY :: nat where "CACHE_CAPACITY = 4"

type_synonym 'ast document_cache = "(bytes \<times> 'ast document_entry) list"

text \<open>A hit moves to the front; a miss is built with the cache released and put there.\<close>

definition cache_hit :: "'ast document_cache \<Rightarrow> bytes \<Rightarrow> ('ast document_entry \<times> 'ast document_cache) option" where
  "cache_hit cache src =
     (let found = length (takeWhile (\<lambda>kv. fst kv \<noteq> src) cache) in
      if found < length cache then
        let entry = cache ! found in
        Some (snd entry, entry # take found cache @ drop (Suc found) cache)
      else None)"

definition cache_insert ::
  "'ast document_cache \<Rightarrow> bytes \<Rightarrow> 'ast document_entry \<Rightarrow> 'ast document_cache" where
  "cache_insert cache src entry =
     take CACHE_CAPACITY ((src, entry) # filter (\<lambda>kv. fst kv \<noteq> src) cache)"

definition cache_lookup ::
  "'ast cddl_parser \<Rightarrow> 'ast document_cache \<Rightarrow> bytes \<Rightarrow> 'ast document_entry \<times> 'ast document_cache" where
  "cache_lookup p cache src =
     (case cache_hit cache src of
        Some hit \<Rightarrow> hit
      | None \<Rightarrow> let entry = build_entry p src in (entry, cache_insert cache src entry))"

text \<open>What runs with the tree may look further documents up, so it gets the cache and leaves one.\<close>

definition with_ast_unchecked ::
  "'ast cddl_parser \<Rightarrow> bytes \<Rightarrow>
     ((schema_error + 'ast) option \<Rightarrow> 'ast document_cache \<Rightarrow> 'r \<times> 'ast document_cache) \<Rightarrow>
     'ast document_cache \<Rightarrow> 'r \<times> 'ast document_cache" where
  "with_ast_unchecked p src f cache =
     (let (entry, cache') = cache_lookup p cache src in f (unchecked_ast entry) cache')"

definition with_ast_checked ::
  "'ast cddl_parser \<Rightarrow> bytes \<Rightarrow>
     ((schema_error + 'ast) option \<Rightarrow> 'ast document_cache \<Rightarrow> 'r \<times> 'ast document_cache) \<Rightarrow>
     'ast document_cache \<Rightarrow> 'r \<times> 'ast document_cache" where
  "with_ast_checked p src f cache =
     (let (entry, cache') = cache_lookup p cache src in f (checked_ast entry) cache')"

subsection \<open>The cache is transparent\<close>

definition cache_ok :: "'ast cddl_parser \<Rightarrow> 'ast document_cache \<Rightarrow> bool" where
  "cache_ok p cache \<longleftrightarrow>
     distinct (map fst cache) \<and> length cache \<le> CACHE_CAPACITY \<and>
     (\<forall>(src, entry) \<in> set cache. entry = build_entry p src)"

lemma cache_hit_Some:
  assumes "cache_hit cache src = Some (entry, cache')"
  shows "\<exists>before after. cache = before @ (src, entry) # after \<and> src \<notin> fst ` set before \<and>
    cache' = (src, entry) # before @ after"
proof -
  let ?n = "length (takeWhile (\<lambda>kv. fst kv \<noteq> src) cache)"
  from assms have n: "?n < length cache" "entry = snd (cache ! ?n)"
    "cache' = cache ! ?n # take ?n cache @ drop (Suc ?n) cache"
    by (auto simp: cache_hit_def Let_def split: if_splits)
  have "fst (cache ! ?n) = src" using nth_length_takeWhile [OF n(1)] by simp
  then have "cache ! ?n = (src, entry)" using n(2) by (cases "cache ! ?n") simp
  moreover have "cache = take ?n cache @ cache ! ?n # drop (Suc ?n) cache"
    using n(1) by (rule id_take_nth_drop)
  moreover have "src \<notin> fst ` set (take ?n cache)"
    using takeWhile_eq_take [of "\<lambda>kv. fst kv \<noteq> src" cache] set_takeWhileD by fastforce
  ultimately show ?thesis using n(3) by metis
qed

lemma cache_hit_None:
  assumes "cache_hit cache src = None"
  shows "src \<notin> fst ` set cache"
proof -
  have "length (takeWhile (\<lambda>kv. fst kv \<noteq> src) cache) = length cache"
    using assms length_takeWhile_le [of "\<lambda>kv. fst kv \<noteq> src" cache]
    by (simp add: cache_hit_def Let_def split: if_splits)
  then have "takeWhile (\<lambda>kv. fst kv \<noteq> src) cache = cache"
    by (metis takeWhile_eq_take take_all_iff order_refl)
  then have "\<forall>kv \<in> set cache. fst kv \<noteq> src" by (simp add: takeWhile_eq_all_conv)
  then show ?thesis by auto
qed

lemma cache_lookup_ok:
  assumes "cache_ok p cache"
  shows "fst (cache_lookup p cache src) = build_entry p src \<and> cache_ok p (snd (cache_lookup p cache src))"
proof (cases "cache_hit cache src")
  case None
  then have "filter (\<lambda>kv. fst kv \<noteq> src) cache = cache"
    using cache_hit_None [OF None] by (force simp: filter_id_conv)
  with None assms cache_hit_None [OF None] show ?thesis
    by (auto simp: cache_lookup_def cache_insert_def cache_ok_def Let_def CACHE_CAPACITY_def image_iff
        simp flip: take_map dest!: in_set_takeD)
next
  case (Some hit)
  obtain entry cache' where hit: "hit = (entry, cache')" by fastforce
  with Some obtain before after where *: "cache = before @ (src, entry) # after"
    "cache' = (src, entry) # before @ after"
    using cache_hit_Some by blast
  with Some hit assms show ?thesis
    by (auto simp: cache_lookup_def cache_ok_def)
qed

text \<open>The documents resident are the last \<open>CACHE_CAPACITY\<close> different ones asked for.\<close>

lemma cache_lookup_keys:
  "cache_ok p cache \<Longrightarrow>
     map fst (snd (cache_lookup p cache src)) =
       take CACHE_CAPACITY (src # filter (\<lambda>k. k \<noteq> src) (map fst cache))"
proof (cases "cache_hit cache src")
  case None
  then show ?thesis
    by (simp add: cache_lookup_def cache_insert_def Let_def filter_map comp_def flip: take_map)
next
  case (Some hit)
  assume ok: "cache_ok p cache"
  obtain entry cache' where hit: "hit = (entry, cache')" by fastforce
  with Some obtain before after where *: "cache = before @ (src, entry) # after"
    "cache' = (src, entry) # before @ after"
    using cache_hit_Some by blast
  from ok * have "src \<notin> fst ` set before" "src \<notin> fst ` set after" "length cache \<le> CACHE_CAPACITY"
    by (auto simp: cache_ok_def)
  note small = \<open>length cache \<le> CACHE_CAPACITY\<close>
  from \<open>src \<notin> fst ` set before\<close> \<open>src \<notin> fst ` set after\<close>
  have "filter (\<lambda>k. k \<noteq> src) (map fst before) = map fst before"
    "filter (\<lambda>k. k \<noteq> src) (map fst after) = map fst after"
    by (auto intro!: filter_True)
  then have "filter (\<lambda>k. k \<noteq> src) (map fst cache) = map fst before @ map fst after"
    using *(1) by simp
  with *(2) small *(1) Some hit show ?thesis
    by (simp add: cache_lookup_def)
qed

definition lookups :: "'ast cddl_parser \<Rightarrow> bytes list \<Rightarrow> 'ast document_cache" where
  "lookups p srcs = foldl (\<lambda>cache src. snd (cache_lookup p cache src)) [] srcs"

lemma lookups_ok: "cache_ok p (lookups p srcs)"
proof (induction srcs rule: rev_induct)
  case (snoc src srcs)
  then show ?case using cache_lookup_ok [of p "lookups p srcs" src] by (simp add: lookups_def)
qed (simp add: lookups_def cache_ok_def)

fun recent_first :: "'a list \<Rightarrow> 'a list" where
  "recent_first [] = []"
| "recent_first (x # xs) = x # filter (\<lambda>y. y \<noteq> x) (recent_first xs)"

lemma take_Suc_filter:
  "distinct ys \<Longrightarrow> take n (x # filter (\<lambda>y. y \<noteq> x) (take n ys)) = take n (x # filter (\<lambda>y. y \<noteq> x) ys)"
proof (cases n)
  case (Suc m)
  assume "distinct ys"
  then have "take m (filter (\<lambda>y. y \<noteq> x) (take (Suc m) ys)) = take m (filter (\<lambda>y. y \<noteq> x) ys)"
  proof (induction ys arbitrary: m)
    case (Cons y ys)
    show ?case
    proof (cases "y = x")
      case True
      with Cons.prems have "x \<notin> set ys" by simp
      then have f: "filter (\<lambda>z. z \<noteq> x) ys = ys" "filter (\<lambda>z. z \<noteq> x) (take k ys) = take k ys" for k
        by (auto simp: filter_id_conv dest: in_set_takeD)
      with True show ?thesis by simp
    next
      case False
      with Cons show ?thesis by (cases m) simp_all
    qed
  qed simp
  with Suc show ?thesis by simp
qed simp

lemma set_recent_first [simp]: "set (recent_first xs) = set xs"
  by (induction xs) auto

lemma distinct_recent_first: "distinct (recent_first xs)"
  by (induction xs) auto

lemma lookups_recent: "map fst (lookups p srcs) = take CACHE_CAPACITY (recent_first (rev srcs))"
proof (induction srcs rule: rev_induct)
  case (snoc src srcs)
  have "map fst (lookups p (srcs @ [src])) =
      take CACHE_CAPACITY (src # filter (\<lambda>k. k \<noteq> src) (map fst (lookups p srcs)))"
    using cache_lookup_keys [OF lookups_ok] by (simp add: lookups_def)
  with snoc show ?case
    using take_Suc_filter [OF distinct_recent_first] by simp
qed (simp add: lookups_def)

subsection \<open>What is asked of a document\<close>

lemma build_entry_reachable: "unchecked_ast (build_entry p src) \<noteq> None" "checked_ast (build_entry p src) \<noteq> None"
  by (auto simp: build_entry_def unchecked_ast_def checked_ast_def Let_def split: option.splits sum.splits)

lemma checked_iff:
  "checked_ast (build_entry p src) = Some (Inr doc) \<longleftrightarrow>
     cddl_nesting_overflow src = None \<and> parse_checked p src = Inr doc"
  by (auto simp: build_entry_def checked_ast_def parse_document_def Let_def split: option.splits sum.splits)

lemma checked_is_unchecked:
  "checked_ast (build_entry p src) = Some (Inr doc) \<Longrightarrow> unchecked_ast (build_entry p src) = Some (Inr doc)"
  by (auto simp: build_entry_def checked_ast_def unchecked_ast_def split: option.splits sum.splits)

end
