(* ===== verification/Source_Facts.thy ===== *)
theory Source_Facts
  imports Source_Index Document_Cache
begin

text \<open>
  What the index of a text answers, read off its characters: the UTF-16 units before an offset and
  the line it is on.
\<close>

subsection \<open>Characters of a text\<close>

lemma concat_chars [simp]: "concat (chars s) = s"
  by (induction s rule: chars.induct) simp_all

text \<open>A character of a text: its length is what its first byte says, and only a newline has byte 10.\<close>

definition char_ok :: "bytes \<Rightarrow> bool" where
  "char_ok ch \<longleftrightarrow> ch \<noteq> [] \<and> length ch = utf8_len (hd ch) \<and> (10 \<in> set ch \<longrightarrow> ch = [10])"

lemma continuation_not_newline: "continuation b \<Longrightarrow> b \<noteq> 10"
  by (auto simp: continuation_def)

lemma char_ok_lead:
  "length (b # cs) = utf8_len b \<Longrightarrow> b \<noteq> 10 \<Longrightarrow> \<forall>c \<in> set cs. continuation c \<Longrightarrow> char_ok (b # cs)"
  by (auto simp: char_ok_def dest: continuation_not_newline)

lemma chars_lead:
  assumes "length (b # cs) = utf8_len b"
  shows "chars (b # cs @ s) = (b # cs) # chars s"
  by (simp add: assms [symmetric])

text \<open>The bytes a valid text begins with, and what follows them.\<close>

lemma not_ascii_lead: "0xC2 \<le> (b :: u8) \<Longrightarrow> \<not> b < 0x80"
  by (auto simp: word_le_nat_alt word_less_nat_alt)

lemma valid_utf8_two:
  assumes "0xC2 \<le> b" "b \<le> 0xDF"
  shows "valid_utf8 (b # bs) \<longleftrightarrow> (\<exists>c r. bs = c # r \<and> continuation c \<and> valid_utf8 r)"
  using assms not_ascii_lead [OF assms(1)] by (auto split: list.splits)

definition three_ok :: "u8 \<Rightarrow> u8 \<Rightarrow> u8 \<Rightarrow> bool" where
  "three_ok b c d \<longleftrightarrow>
     continuation c \<and> (b = 0xE0 \<longrightarrow> 0xA0 \<le> c) \<and> (b = 0xED \<longrightarrow> c \<le> 0x9F) \<and> continuation d"

lemma valid_utf8_three:
  assumes "0xE0 \<le> b" "b \<le> 0xEF"
  shows "valid_utf8 (b # bs) \<longleftrightarrow> (\<exists>c d r. bs = c # d # r \<and> three_ok b c d \<and> valid_utf8 r)"
proof -
  have "\<not> b < 0x80" "\<not> b \<le> 0xDF" using assms(1) by (auto simp: word_le_nat_alt word_less_nat_alt)
  with assms show ?thesis by (auto simp: three_ok_def split: list.splits)
qed

definition four_ok :: "u8 \<Rightarrow> u8 \<Rightarrow> u8 \<Rightarrow> u8 \<Rightarrow> bool" where
  "four_ok b c d e \<longleftrightarrow>
     continuation c \<and> (b = 0xF0 \<longrightarrow> 0x90 \<le> c) \<and> (b = 0xF4 \<longrightarrow> c \<le> 0x8F) \<and>
     continuation d \<and> continuation e"

lemma valid_utf8_four:
  assumes "0xF0 \<le> b" "b \<le> 0xF4"
  shows "valid_utf8 (b # bs) \<longleftrightarrow> (\<exists>c d e r. bs = c # d # e # r \<and> four_ok b c d e \<and> valid_utf8 r)"
proof -
  have "\<not> b < 0x80" "\<not> b \<le> 0xDF" "\<not> b \<le> 0xEF"
    using assms(1) by (auto simp: word_le_nat_alt word_less_nat_alt)
  with assms show ?thesis by (auto simp: four_ok_def split: list.splits)
qed

lemma valid_utf8_lead:
  "valid_utf8 (b # bs) \<Longrightarrow>
     b < 0x80 \<or> 0xC2 \<le> b \<and> b \<le> 0xDF \<or> 0xE0 \<le> b \<and> b \<le> 0xEF \<or> 0xF0 \<le> b \<and> b \<le> 0xF4"
  by (simp split: if_splits)

lemma valid_utf8_cases:
  assumes "valid_utf8 (b # bs)"
  obtains (ascii) "b < 0x80" "valid_utf8 bs"
    | (lead) cs s where "bs = cs @ s" "length (b # cs) = utf8_len b" "\<not> b < 0x80" "cs \<noteq> []"
        "\<forall>c \<in> set cs. continuation c" "valid_utf8 s"
        "\<And>z. valid_utf8 z \<Longrightarrow> valid_utf8 (b # cs @ z)"
proof -
  from valid_utf8_lead [OF assms] show ?thesis
  proof (elim disjE conjE)
    assume "b < 0x80"
    with assms that(1) show ?thesis by simp
  next
    assume b: "0xC2 \<le> b" "b \<le> 0xDF"
    from assms obtain c r where bs: "bs = c # r" "continuation c" "valid_utf8 r"
      unfolding valid_utf8_two [OF b] by blast
    have "utf8_len b = 2" "\<not> b < 0x80"
      using b by (auto simp: utf8_len_def word_le_nat_alt word_less_nat_alt)
    moreover have "valid_utf8 (b # [c] @ z)" if "valid_utf8 z" for z
      unfolding valid_utf8_two [OF b] using that bs(2) by simp
    ultimately show ?thesis using that(2) [of "[c]" r] bs by (simp del: valid_utf8.simps)
  next
    assume b: "0xE0 \<le> b" "b \<le> 0xEF"
    from assms obtain c d r where bs: "bs = c # d # r" "three_ok b c d" "valid_utf8 r"
      unfolding valid_utf8_three [OF b] by blast
    have "utf8_len b = 3" "\<not> b < 0x80"
      using b by (auto simp: utf8_len_def word_le_nat_alt word_less_nat_alt)
    moreover have "valid_utf8 (b # [c, d] @ z)" if "valid_utf8 z" for z
      unfolding valid_utf8_three [OF b] using that bs(2) by simp
    moreover have "continuation c" "continuation d" using bs(2) by (simp_all add: three_ok_def)
    ultimately show ?thesis using that(2) [of "[c, d]" r] bs by (simp del: valid_utf8.simps)
  next
    assume b: "0xF0 \<le> b" "b \<le> 0xF4"
    from assms obtain c d e r where bs: "bs = c # d # e # r" "four_ok b c d e" "valid_utf8 r"
      unfolding valid_utf8_four [OF b] by blast
    have "utf8_len b = 4" "\<not> b < 0x80"
      using b by (auto simp: utf8_len_def word_le_nat_alt word_less_nat_alt)
    moreover have "valid_utf8 (b # [c, d, e] @ z)" if "valid_utf8 z" for z
      unfolding valid_utf8_four [OF b] using that bs(2) by simp
    moreover have "continuation c" "continuation d" "continuation e" using bs(2) by (simp_all add: four_ok_def)
    ultimately show ?thesis using that(2) [of "[c, d, e]" r] bs by (simp del: valid_utf8.simps)
  qed
qed

lemma chars_ok: "valid_utf8 s \<Longrightarrow> \<forall>ch \<in> set (chars s). char_ok ch"
proof (induction s rule: length_induct)
  case (1 s)
  show ?case
  proof (cases s)
    case (Cons b bs)
    with 1(2) have "valid_utf8 (b # bs)" by simp
    then show ?thesis
    proof (cases rule: valid_utf8_cases)
      case ascii
      have "length bs < length s" using Cons by simp
      with 1(1) ascii(2) have "\<forall>ch \<in> set (chars bs). char_ok ch" by blast
      with ascii(1) Cons show ?thesis by (simp add: utf8_len_def char_ok_def)
    next
      case (lead cs r)
      have "length r < length s" using Cons lead(1) by simp
      with 1(1) lead(6) have "\<forall>ch \<in> set (chars r). char_ok ch" by blast
      moreover have "b \<noteq> 10" using lead(3) by auto
      ultimately show ?thesis
        using chars_lead [OF lead(2), of r] char_ok_lead [OF lead(2) _ lead(5)] lead(1) Cons by simp
    qed
  qed simp
qed

subsection \<open>The table and the lines\<close>

definition units :: "bytes list \<Rightarrow> nat" where "units cs = sum_list (map len_utf16 cs)"

text \<open>The units of the characters that end at or before an offset, and of those that begin before it.\<close>

fun units_before :: "bytes list \<Rightarrow> nat \<Rightarrow> nat" where
  "units_before [] i = 0"
| "units_before (ch # cs) i =
     (if length ch \<le> i then len_utf16 ch + units_before cs (i - length ch) else 0)"

fun units_begun :: "bytes list \<Rightarrow> nat \<Rightarrow> nat" where
  "units_begun [] i = 0"
| "units_begun (ch # cs) i = (if i = 0 then 0 else len_utf16 ch + units_begun cs (i - length ch))"

fun table_of :: "nat \<Rightarrow> bytes list \<Rightarrow> nat list" where
  "table_of count [] = []"
| "table_of count (ch # cs) = replicate (length ch) count @ table_of (count + len_utf16 ch) cs"

fun newline_ends :: "nat \<Rightarrow> bytes list \<Rightarrow> nat list" where
  "newline_ends i [] = []"
| "newline_ends i (ch # cs) =
     (if ch = [10] then [i + length ch] else []) @ newline_ends (i + length ch) cs"

lemma length_table_of [simp]: "length (table_of count cs) = length (concat cs)"
  by (induction cs arbitrary: count) simp_all

lemma fill_range:
  "foldl (\<lambda>t j. t[j := v]) (pre @ replicate (n + m) w) [length pre..<length pre + n] =
     pre @ replicate n v @ replicate m w"
proof (induction n arbitrary: m)
  case (Suc n)
  have "foldl (\<lambda>t j. t[j := v]) (pre @ replicate (Suc n + m) w) [length pre..<length pre + Suc n] =
      (foldl (\<lambda>t j. t[j := v]) (pre @ replicate (n + Suc m) w) [length pre..<length pre + n])
        [length pre + n := v]"
    by simp
  also have "\<dots> = pre @ replicate n v @ (replicate (Suc m) w)[0 := v]"
    by (simp only: Suc.IH) (simp add: list_update_append)
  also have "\<dots> = pre @ replicate (Suc n) v @ replicate m w"
    by (simp add: replicate_app_Cons_same)
  finally show ?case .
qed simp

lemma index_chars_fold:
  "foldl index_char (pre @ replicate (length (concat cs) + 1) 0, starts, count)
       (indices_from (length pre) cs) =
     (pre @ table_of count cs @ [0], starts @ newline_ends (length pre) cs, count + units cs)"
proof (induction cs arbitrary: pre starts count)
  case (Cons ch cs)
  have "index_char (pre @ replicate (length (concat (ch # cs)) + 1) 0, starts, count) (length pre, ch) =
      ((pre @ replicate (length ch) count) @ replicate (length (concat cs) + 1) 0,
       (if ch = [10] then starts @ [length pre + length ch] else starts), count + len_utf16 ch)"
    using fill_range [of count pre "length ch" "length (concat cs) + 1" 0]
    by (simp add: index_char_def add.assoc)
  with Cons [of "pre @ replicate (length ch) count"] show ?case
    by (simp add: units_def add.assoc del: replicate_Suc)
qed (simp add: units_def)

lemma utf16_new_table:
  "byte_to_utf16 (utf16_new s) = table_of 0 (chars s) @ [units (chars s)]"
  "line_starts (utf16_new s) = 0 # newline_ends 0 (chars s)"
  using index_chars_fold [of "[]" "chars s" "[0]" 0]
  by (simp_all add: utf16_new_def char_indices_def list_update_append)

subsection \<open>Offsets\<close>

lemma nth_table:
  "i \<le> length (concat cs) \<Longrightarrow> (table_of count cs @ [count + units cs]) ! i = count + units_before cs i"
proof (induction cs arbitrary: i count)
  case (Cons ch cs)
  show ?case
  proof (cases "length ch \<le> i")
    case True
    with Cons.prems Cons.IH [of "i - length ch" "count + len_utf16 ch"] show ?thesis
      by (simp add: nth_append units_def add.assoc split: if_splits) linarith?
  next
    case False
    then show ?thesis by (simp add: nth_append)
  qed
qed (simp add: units_def)

lemma units_before_all: "length (concat cs) \<le> i \<Longrightarrow> units_before cs i = units cs"
  by (induction cs arbitrary: i) (simp_all add: units_def)

lemma char_offset_units: "char_offset (utf16_new s) i = units_before (chars s) i"
proof (cases "i \<le> length s")
  case True
  then show ?thesis
    using nth_table [of i "chars s" 0] by (simp add: char_offset_def utf16_new_table nth_opt_def)
next
  case False
  then show ?thesis
    using units_before_all [of "chars s" i]
    by (simp add: char_offset_def utf16_new_table nth_opt_def)
qed

lemma units_before_boundary:
  "units_before (cs @ ds) (length (concat cs) + i) = units cs + units_before ds i"
  by (induction cs) (simp_all add: units_def add.assoc)

lemma units_begun_boundary:
  "\<forall>ch \<in> set cs. ch \<noteq> [] \<Longrightarrow>
     units_begun (cs @ ds) (length (concat cs) + i) = units cs + units_begun ds i"
  by (induction cs) (auto simp: units_def add.assoc)

text \<open>Where an offset of a text lies: between two characters, or inside one.\<close>

lemma offset_cases:
  assumes "\<forall>ch \<in> set cs. ch \<noteq> []"
  obtains (between) ds es where "cs = ds @ es" "i = length (concat ds)"
    | (inside) ds ch es k where "cs = ds @ ch # es" "i = length (concat ds) + k" "0 < k" "k < length ch"
    | (past) "length (concat cs) < i"
  using assms
proof (induction cs arbitrary: i thesis)
  case Nil
  then show ?case by (cases i) auto
next
  case (Cons ch cs)
  show ?case
  proof (cases "i < length ch")
    case True
    show ?thesis
    proof (cases "i = 0")
      case True
      then show ?thesis using Cons.prems(1) [of "[]" "ch # cs"] by simp
    next
      case False
      then show ?thesis using Cons.prems(2) [of "[]" ch cs i] \<open>i < length ch\<close> by simp
    qed
  next
    case False
    then have i: "i = length ch + (i - length ch)" by simp
    show ?thesis
    proof (rule Cons.IH [of "i - length ch"])
      fix ds es assume "cs = ds @ es" "i - length ch = length (concat ds)"
      then show ?thesis using Cons.prems(1) [of "ch # ds" es] i by simp
    next
      fix ds c es k assume "cs = ds @ c # es" "i - length ch = length (concat ds) + k" "0 < k" "k < length c"
      then show ?thesis using Cons.prems(2) [of "ch # ds" c es k] i by simp
    next
      assume "length (concat cs) < i - length ch"
      then show ?thesis using Cons.prems(3) i by simp
    qed (use Cons.prems(4) in simp)
  qed
qed

lemma len_utf16_pos [simp]: "0 < len_utf16 ch"
  by (simp add: len_utf16_def)

lemma ceil_from_reaches:
  assumes "\<And>j. i \<le> j \<Longrightarrow> j < m \<Longrightarrow> table ! j = inside" "m < length table" "table ! m \<noteq> inside" "i \<le> m"
  shows "ceil_from table inside i = table ! m"
  using assms
proof (induction "m - i" arbitrary: i)
  case 0
  then show ?case by (simp add: ceil_from.simps [of table inside i] nth_opt_def)
next
  case (Suc n)
  then have "table ! i = inside" "i < length table" by simp_all
  with Suc show ?case by (simp add: ceil_from.simps [of table inside i] nth_opt_def)
qed

lemma boundary_units:
  assumes "i \<le> length s"
  shows "is_char_boundary (utf16_new s) i \<longleftrightarrow>
    i = 0 \<or> units_before (chars s) i \<noteq> units_before (chars s) (i - 1)"
  using assms nth_table [of i "chars s" 0] nth_table [of "i - 1" "chars s" 0]
  by (auto simp: is_char_boundary_def utf16_new_table)

lemma char_offset_ceil_units:
  assumes "valid_utf8 s"
  shows "char_offset_ceil (utf16_new s) i = units_begun (chars s) i"
proof -
  have ne: "\<forall>ch \<in> set (chars s). ch \<noteq> []" using chars_ok [OF assms] by (simp add: char_ok_def)
  show ?thesis
    using ne
  proof (cases rule: offset_cases [where i = i])
    case (between ds es)
    have ds: "\<forall>ch \<in> set ds. ch \<noteq> []" using ne between(1) by simp
    have "length (concat (chars s)) = length (concat ds) + length (concat es)" using between(1) by simp
    then have le: "i \<le> length s" using between(2) by simp
    have "is_char_boundary (utf16_new s) i"
    proof (cases ds rule: rev_cases)
      case (snoc ds' ch)
      then obtain m where m: "length ch = Suc m" using ds by (cases ch) auto
      then have "i - 1 = length (concat ds') + m" using between(2) snoc by simp
      then have "units_before (chars s) (i - 1) = units ds'"
        using units_before_boundary [of ds' "ch # es" m] between(1) snoc m by simp
      moreover have "units_before (chars s) i = units ds' + len_utf16 ch + units_before es 0"
        using units_before_boundary [of ds es 0] between snoc by (simp add: units_def)
      ultimately show ?thesis using boundary_units [OF le] by simp
    qed (use between(2) boundary_units [OF le] in simp)
    moreover have "units_before es 0 = 0" "units_begun es 0 = 0"
      using ne between(1) by (cases es; simp)+
    ultimately show ?thesis
      using char_offset_units [of s i] units_before_boundary [of ds es 0] units_begun_boundary [OF ds, of es 0]
        between by (simp add: char_offset_ceil_def)
  next
    case (inside ds ch es k)
    let ?table = "byte_to_utf16 (utf16_new s)"
    have ds: "\<forall>ch \<in> set ds. ch \<noteq> []" using ne inside(1) by simp
    have len: "length s = length (concat ds) + length ch + length (concat es)"
      using arg_cong [OF inside(1), of "\<lambda>cs. length (concat cs)"] by simp
    have at: "?table ! (length (concat ds) + j) = units ds" if "j < length ch" for j
      using nth_table [of "length (concat ds) + j" "chars s" 0] that len
        units_before_boundary [of ds "ch # es" j] inside(1) by (simp add: utf16_new_table)
    have after: "?table ! (length (concat ds) + length ch) = units ds + len_utf16 ch + units_before es 0"
      using nth_table [of "length (concat ds) + length ch" "chars s" 0] len
        units_before_boundary [of ds "ch # es" "length ch"] inside(1) by (simp add: utf16_new_table)
    have "units_before es 0 = 0" using ne inside(1) by (cases es) simp_all
    with after have after: "?table ! (length (concat ds) + length ch) = units ds + len_utf16 ch" by simp
    have "i - 1 = length (concat ds) + (k - 1)" using inside(2,3) by simp
    then have "\<not> is_char_boundary (utf16_new s) i"
      using at [of k] at [of "k - 1"] inside(2-4) len by (simp add: is_char_boundary_def utf16_new_table(1))
    moreover have "ceil_from ?table (?table ! i) (i + 1) = ?table ! (length (concat ds) + length ch)"
    proof (rule ceil_from_reaches)
      fix j assume "i + 1 \<le> j" "j < length (concat ds) + length ch"
      then have "j = length (concat ds) + (j - length (concat ds))" "j - length (concat ds) < length ch"
        using inside(2) by linarith+
      then show "?table ! j = ?table ! i" using at at [of k] inside(2,4) by metis
    qed (use inside(2-4) len after at [of k] in \<open>simp_all add: utf16_new_table(1)\<close>)
    moreover have "units_begun es (k - length ch) = 0" using inside(4) ne inside(1) by (cases es) simp_all
    ultimately show ?thesis
      using units_begun_boundary [OF ds, of "ch # es" k] inside after by (simp add: char_offset_ceil_def)
  next
    case past
    have "units_begun cs j = units cs" if "length (concat cs) < j" for cs j
      using that by (induction cs arbitrary: j) (simp_all add: units_def)
    with past show ?thesis
      using char_offset_units [of s i] units_before_all [of "chars s" i]
      by (simp add: char_offset_ceil_def is_char_boundary_def utf16_new_table(1))
  qed
qed

subsection \<open>Lines\<close>

lemma newline_ends_bounds: "e \<in> set (newline_ends i cs) \<Longrightarrow> i < e"
  by (induction cs arbitrary: i) (fastforce split: if_splits)+

lemma newline_ends_sorted: "\<forall>ch \<in> set cs. ch \<noteq> [] \<Longrightarrow> sorted_wrt (<) (i # newline_ends i cs)"
proof (induction cs arbitrary: i)
  case (Cons ch cs)
  then have "sorted_wrt (<) ((i + length ch) # newline_ends (i + length ch) cs)" by simp
  moreover have "i < i + length ch" using Cons.prems by simp
  ultimately show ?case by fastforce
qed simp

text \<open>In an ascending list the search answers how many entries are at most the value.\<close>

lemma binary_search_count:
  "sorted_wrt (<) xs \<Longrightarrow>
     (case binary_search xs x of Inr i \<Rightarrow> i + 1 | Inl i \<Rightarrow> i) = length (filter (\<lambda>y. y \<le> x) xs)"
proof (induction xs)
  case (Cons y ys)
  have above: "z \<in> set ys \<Longrightarrow> y < z" for z using Cons.prems by simp
  show ?case
  proof (cases "y < x")
    case True
    with Cons show ?thesis by (auto simp: binary_search_def split: if_splits)
  next
    case False
    then have "filter (\<lambda>z. z \<le> x) ys = []" "x \<notin> set ys" using above by (fastforce simp: filter_empty_conv)+
    with False show ?thesis by (auto simp: binary_search_def)
  qed
qed (simp add: binary_search_def)

lemma newlines_before:
  assumes "\<forall>ch \<in> set cs. char_ok ch"
  shows "length (filter (\<lambda>e. e \<le> i + k) (newline_ends i cs)) =
    length (filter (\<lambda>b. b = 10) (take k (concat cs)))"
  using assms
proof (induction cs arbitrary: i k)
  case (Cons ch cs)
  have ch: "10 \<in> set ch \<Longrightarrow> ch = [10]" using Cons.prems by (auto simp: char_ok_def)
  have rest: "filter (\<lambda>b. b = 10) xs = []" if "ch \<noteq> [10]" "set xs \<subseteq> set ch" for xs
    using ch that by (auto simp: filter_empty_conv)
  show ?case
  proof (cases "length ch \<le> k")
    case True
    with Cons.IH [of "i + length ch" "k - length ch"] Cons.prems
    have IH: "length (filter (\<lambda>e. e \<le> i + k) (newline_ends (i + length ch) cs)) =
        length (filter (\<lambda>b. b = 10) (take (k - length ch) (concat cs)))" by simp
    show ?thesis
    proof (cases "ch = [10]")
      case True
      with IH \<open>length ch \<le> k\<close> show ?thesis by (simp add: take_Cons')
    next
      case False
      with IH \<open>length ch \<le> k\<close> rest [OF False subset_refl] show ?thesis by simp
    qed
  next
    case False
    have "filter (\<lambda>e. e \<le> i + k) (newline_ends (i + length ch) cs) = []"
      using False newline_ends_bounds [of _ "i + length ch" cs] by (fastforce simp: filter_empty_conv)
    moreover have "filter (\<lambda>b. b = 10) (take k ch) = []"
    proof (cases "ch = [10]")
      case True
      with False show ?thesis by (cases k) simp_all
    next
      case False
      then show ?thesis by (intro rest set_take_subset)
    qed
    ultimately show ?thesis using False by auto
  qed
qed simp

theorem line_at_line_of:
  assumes "valid_utf8 s"
  shows "line_at (utf16_new s) i = line_of s i"
proof -
  have ok: "\<forall>ch \<in> set (chars s). char_ok ch" using chars_ok [OF assms] .
  then have "sorted_wrt (<) (0 # newline_ends 0 (chars s))"
    by (intro newline_ends_sorted) (simp add: char_ok_def)
  then have "line_at (utf16_new s) i =
      length (filter (\<lambda>e. e \<le> i) (0 # newline_ends 0 (chars s)))"
    unfolding line_at_def utf16_new_table by (rule binary_search_count)
  also have "\<dots> = 1 + length (filter (\<lambda>b. b = 10) (take i s))"
    using newlines_before [OF ok, of 0 i] by simp
  also have "take i s = take (min i (length s)) s" by (simp add: min_def)
  finally show ?thesis by (simp add: line_of_def)
qed

text \<open>A span: the characters begun in its bytes, from the start of the one its first byte is in.\<close>

theorem source_span_units:
  assumes "valid_utf8 s" "i < j"
  shows "sp_char_offset (source_span (utf16_new s) i j l) = units_before (chars s) i"
    "sp_char_offset (source_span (utf16_new s) i j l) + sp_char_length (source_span (utf16_new s) i j l) =
       units_begun (chars s) j"
proof -
  have "units_before cs i \<le> units_begun cs j" for cs
    using assms(2) by (induction cs arbitrary: i j) (auto simp: diff_less_mono)
  then show "sp_char_offset (source_span (utf16_new s) i j l) = units_before (chars s) i"
    "sp_char_offset (source_span (utf16_new s) i j l) + sp_char_length (source_span (utf16_new s) i j l) =
       units_begun (chars s) j"
    using assms by (simp_all add: source_span_def Let_def char_offset_units char_offset_ceil_units)
qed

end
