(* ===== verification/Diagnostic_Roundtrip.thy ===== *)
theory Diagnostic_Roundtrip
  imports Diagnostic_Facts Source_Facts Balance_Facts
begin

text \<open>
  Reading what the notation writes: the text of an item, as the module's documentation describes
  it, is read back as that item. Floats, whose text the standard library chooses, are left out.
\<close>

subsection \<open>The notation\<close>

definition escape_char :: "char \<Rightarrow> string" where
  "escape_char c = (if c = CHR 0x22 \<or> c = CHR 0x5C then [CHR 0x5C, c] else [c])"

definition escaped :: "string \<Rightarrow> string" where "escaped s = concat (map escape_char s)"

fun separated :: "string list \<Rightarrow> string" where
  "separated [] = []"
| "separated [s] = s"
| "separated (s # ss) = s @ '', '' @ separated ss"

fun diag_text :: "diag \<Rightarrow> string" where
  "diag_text (DInt n) = signed_decimal n"
| "diag_text (DBytes b) = ''h'' @ [CHR 0x27] @ hex_encode b @ [CHR 0x27]"
| "diag_text (DText t) = quote @ escaped t @ quote"
| "diag_text (DFloat f) = []"
| "diag_text (DBool b) = (if b then ''true'' else ''false'')"
| "diag_text DNull = ''null''"
| "diag_text (DSimple n) = ''simple('' @ decimal (unat n) @ '')''"
| "diag_text (DTag t x) = decimal (unat t) @ ''('' @ diag_text x @ '')''"
| "diag_text (DArr xs) = ''['' @ separated (map diag_text xs) @ '']''"
| "diag_text (DMap kvs) =
     ''{'' @ separated (map (\<lambda>(k, v). diag_text k @ '': '' @ diag_text v) kvs) @ ''}''"

text \<open>What can be written so: no float, integers of 128 bits, texts in UTF-8.\<close>

fun writable :: "diag \<Rightarrow> bool" where
  "writable (DInt n) = (i128_min \<le> n \<and> n \<le> i128_max)"
| "writable (DText t) = utf8_text t"
| "writable (DFloat f) = False"
| "writable (DTag t x) = writable x"
| "writable (DArr xs) = (\<forall>x \<in> set xs. writable x)"
| "writable (DMap kvs) = (\<forall>p \<in> set kvs. writable (fst p) \<and> writable (snd p))"
| "writable x = True"

fun diag_depth :: "diag \<Rightarrow> nat" where
  "diag_depth (DTag t x) = Suc (diag_depth x)"
| "diag_depth (DArr xs) = max_list (map (\<lambda>x. Suc (diag_depth x)) xs)"
| "diag_depth (DMap kvs) = max_list (map (\<lambda>p. Suc (max (diag_depth (fst p)) (diag_depth (snd p)))) kvs)"
| "diag_depth x = 0"

subsection \<open>UTF-8\<close>

lemma byte_ascii: "of_char c < (128 :: nat) \<longleftrightarrow> byte c < 0x80"
proof -
  have "of_char c < (256 :: nat)" by (rule nat_of_char_less_256)
  then show ?thesis by (simp add: byte_def word_less_nat_alt unat_of_nat take_bit_eq_mod)
qed

lemma valid_utf8_append: "valid_utf8 a \<Longrightarrow> valid_utf8 b \<Longrightarrow> valid_utf8 (a @ b)"
proof (induction a rule: length_induct)
  case (1 a)
  show ?case
  proof (cases a)
    case (Cons x xs)
    with 1(2) have "valid_utf8 (x # xs)" by simp
    then show ?thesis
    proof (cases rule: valid_utf8_cases)
      case ascii
      moreover have "length xs < length a" using Cons by simp
      ultimately have "valid_utf8 (xs @ b)" using 1(1,3) by blast
      with ascii(1) Cons show ?thesis by simp
    next
      case (lead cs s)
      moreover have "length s < length a" using Cons lead(1) by simp
      ultimately have "valid_utf8 (s @ b)" using 1(1,3) by blast
      then have "valid_utf8 (x # cs @ s @ b)" by (rule lead(7))
      with lead(1) Cons show ?thesis by simp
    qed
  qed (use 1(3) in simp)
qed

lemma utf8_text_append: "utf8_text a \<Longrightarrow> utf8_text b \<Longrightarrow> utf8_text (a @ b)"
  by (simp add: utf8_text_def valid_utf8_append)

definition ascii :: "string \<Rightarrow> bool" where "ascii s \<longleftrightarrow> (\<forall>c \<in> set s. of_char c < (128 :: nat))"

lemma utf8_ascii: "ascii s \<Longrightarrow> utf8_text s"
  by (induction s) (simp_all add: utf8_text_def ascii_def byte_ascii)

lemma ascii_simps [simp]: "ascii []" "ascii (c # s) \<longleftrightarrow> of_char c < (128 :: nat) \<and> ascii s"
  "ascii (s @ t) \<longleftrightarrow> ascii s \<and> ascii t"
  by (auto simp: ascii_def)

lemma ascii_decimal [simp]: "ascii (decimal n)"
proof -
  have "of_char c < (128 :: nat)" if "c \<in> set (decimal n)" for c
    using decimal_digits [OF that] by (simp add: is_digit_def Let_def)
  then show ?thesis by (simp add: ascii_def)
qed

lemma ascii_signed_decimal [simp]: "ascii (signed_decimal n)"
  by (simp add: signed_decimal_def)

lemma of_char_hex_digit: "n < 16 \<Longrightarrow> of_char (hex_digit n) = (if n < 10 then 48 + n else 87 + n :: nat)"
  by (simp add: hex_digit_def)

lemma ascii_hex [simp]: "ascii (hex_encode b)"
proof (induction b)
  case (Cons x b)
  have "unat x < 256" using unsigned_less [of x, where 'a = nat] by simp
  then have small: "unat x div 16 < 16" "unat x mod 16 < 16" by simp_all
  then have "87 + unat x div 16 < 128" "87 + unat x mod 16 < 128" by linarith+
  with small have "of_char (hex_digit (unat x div 16)) < (128 :: nat)" "of_char (hex_digit (unat x mod 16)) < (128 :: nat)"
    by (simp_all add: of_char_hex_digit)
  with Cons show ?case by (simp add: hex_encode_def)
qed (simp add: hex_encode_def)

text \<open>A text by its characters: an ASCII one, or a longer one whose bytes are all past ASCII.\<close>

lemma utf8_text_cases:
  assumes "utf8_text t" "t \<noteq> []"
  obtains (ascii) c r where "t = c # r" "utf8_text r" "utf8_len (byte c) = 1" "of_char c < (128 :: nat)"
    | (wide) c cs r where "t = (c # cs) @ r" "utf8_text r" "utf8_len (byte c) = length (c # cs)"
        "\<forall>x \<in> set (c # cs). \<not> of_char x < (128 :: nat)"
proof (cases t)
  case (Cons c r)
  with assms(1) have "valid_utf8 (byte c # map byte r)" by (simp add: utf8_text_def)
  then show ?thesis
  proof (cases rule: valid_utf8_cases)
    case ascii
    then show ?thesis using that(1) [of c r] Cons by (simp add: utf8_text_def utf8_len_def byte_ascii)
  next
    case (lead cs s)
    then obtain cs' s' where r: "r = cs' @ s'" "cs = map byte cs'" "s = map byte s'"
      by (auto simp: map_eq_append_conv)
    have "\<not> of_char x < (128 :: nat)" if "x \<in> set cs'" for x
    proof -
      have "continuation (byte x)" using that lead(5) r(2) by simp
      then show ?thesis unfolding byte_ascii by (auto simp: continuation_def word_le_nat_alt word_less_nat_alt)
    qed
    moreover have "\<not> of_char c < (128 :: nat)" unfolding byte_ascii by (rule lead(3))
    moreover have "utf8_text s'" using lead(6) r(3) by (simp add: utf8_text_def)
    ultimately show ?thesis using that(2) [of c cs' s'] Cons lead(2) r by simp
  qed
qed (use assms(2) in simp)

subsection \<open>Texts\<close>

lemma first_char_lead [simp]:
  "utf8_len (byte c) = length (c # cs) \<Longrightarrow> first_char ((c # cs) @ r) = c # cs \<and> after_char ((c # cs) @ r) = r"
  by (simp add: first_char_def after_char_def)

lemma first_char_ascii [simp]:
  "of_char c < (128 :: nat) \<Longrightarrow> first_char (c # r) = [c] \<and> after_char (c # r) = r"
  by (simp add: first_char_def after_char_def utf8_len_def byte_ascii)

lemma escaped_simps [simp]: "escaped [] = []" "escaped (c # s) = escape_char c @ escaped s"
  "escaped (s @ t) = escaped s @ escaped t"
  by (simp_all add: escaped_def)

lemma escaped_wide: "\<forall>x \<in> set s. \<not> of_char x < (128 :: nat) \<Longrightarrow> escaped s = s"
proof (induction s)
  case (Cons c s)
  then have "c \<noteq> CHR 0x22" "c \<noteq> CHR 0x5C" by auto
  with Cons show ?case by (simp add: escape_char_def)
qed simp

lemma utf8_text_wide:
  assumes "utf8_text ((c # cs) @ r)" "utf8_len (byte c) = length (c # cs)"
    "\<forall>x \<in> set (c # cs). \<not> of_char x < (128 :: nat)" "utf8_text z"
  shows "utf8_text ((c # cs) @ z)"
proof -
  have "valid_utf8 (byte c # map byte cs @ map byte r)" using assms(1) by (simp add: utf8_text_def)
  then show ?thesis
  proof (cases rule: valid_utf8_cases)
    case ascii
    with assms(3) show ?thesis by (simp add: byte_ascii)
  next
    case (lead cs' s')
    then have "cs' = map byte cs" using assms(2) by (simp add: append_eq_append_conv)
    with lead(7) [of "map byte z"] assms(4) show ?thesis by (simp add: utf8_text_def)
  qed
qed

lemma utf8_text_escaped: "utf8_text t \<Longrightarrow> utf8_text (escaped t)"
proof (induction t rule: length_induct)
  case (1 t)
  show ?case
  proof (cases "t = []")
    case False
    from 1(2) False show ?thesis
    proof (cases rule: utf8_text_cases)
      case (ascii c r)
      moreover have "length r < length t" using ascii(1) by simp
      ultimately have "utf8_text (escaped r)" using 1(1) by blast
      moreover have "ascii (escape_char c)" using ascii(4) by (simp add: escape_char_def)
      ultimately show ?thesis using ascii(1) by (simp add: utf8_text_append utf8_ascii)
    next
      case (wide c cs r)
      moreover have "length r < length t" using wide(1) by simp
      ultimately have "utf8_text (escaped r)" using 1(1) by blast
      with utf8_text_wide [of c cs r "escaped r"] 1(2) wide show ?thesis
        using escaped_wide [OF wide(4)] by (simp only: escaped_simps(3))
    qed
  qed (simp add: utf8_text_def)
qed

lemma utf8_text_Cons: "of_char c < (128 :: nat) \<Longrightarrow> utf8_text s \<Longrightarrow> utf8_text (c # s)"
  using utf8_text_append [of "[c]" s] utf8_ascii [of "[c]"] by simp

lemma text_loop_escaped:
  "utf8_text t \<Longrightarrow> utf8_text rest \<Longrightarrow>
     text_loop out (escaped t @ CHR 0x22 # rest) = Some (out @ t, rest)"
proof (induction t arbitrary: out rule: length_induct)
  case (1 t)
  have after: "utf8_text (CHR 0x22 # rest)" using 1(3) by (intro utf8_text_Cons) simp_all
  have valid: "utf8_text (escaped s @ CHR 0x22 # rest)" if "utf8_text s" for s
    using that after by (intro utf8_text_append utf8_text_escaped)
  show ?case
  proof (cases "t = []")
    case True
    with after show ?thesis
      by (simp add: text_loop.simps [of out "CHR 0x22 # rest"] quote_def Let_def)
  next
    case False
    from 1(2) False show ?thesis
    proof (cases rule: utf8_text_cases)
      case (ascii c r)
      have "length r < length t" using ascii(1) by simp
      with 1(1,3) ascii(2) have IH: "text_loop out' (escaped r @ CHR 0x22 # rest) = Some (out' @ r, rest)" for out'
        by blast
      show ?thesis
      proof (cases "c = CHR 0x22 \<or> c = CHR 0x5C")
        case True
        then have "escape_of (c # escaped r @ CHR 0x22 # rest) = Some ([c], escaped r @ CHR 0x22 # rest)"
          using ascii(4) valid [OF ascii(2)] by (auto simp: escape_of_def quote_def Let_def utf8_text_Cons)
        moreover have "utf8_text (CHR 0x5C # c # escaped r @ CHR 0x22 # rest)"
          using ascii(4) valid [OF ascii(2)] by (simp add: utf8_text_Cons)
        ultimately show ?thesis
          using True ascii(1) IH [of "out @ [c]"]
          by (simp add: text_loop.simps [of out "CHR 0x5C # c # escaped r @ CHR 0x22 # rest"]
              escape_char_def quote_def Let_def)
      next
        case plain: False
        with ascii(1,4) IH [of "out @ [c]"] valid [OF ascii(2)] show ?thesis
          by (simp add: text_loop.simps [of out "c # escaped r @ CHR 0x22 # rest"]
              escape_char_def quote_def Let_def utf8_text_Cons)
      qed
    next
      case (wide c cs r)
      have "length r < length t" using wide(1) by simp
      with 1(1,3) wide(2) have IH: "text_loop out' (escaped r @ CHR 0x22 # rest) = Some (out' @ r, rest)" for out'
        by blast
      let ?s = "(c # cs) @ (escaped r @ CHR 0x22 # rest)"
      have "utf8_text ((c # cs) @ r)" using 1(2) unfolding wide(1) .
      then have "utf8_text ?s" using wide(3,4) valid [OF wide(2)] by (rule utf8_text_wide)
      moreover have "c # cs \<noteq> quote" "c # cs \<noteq> [CHR 0x5C]" using wide(4) by (auto simp: quote_def)
      moreover have "first_char ?s = c # cs" "after_char ?s = escaped r @ CHR 0x22 # rest"
        using first_char_lead [OF wide(3)] by blast+
      ultimately have "text_loop out ?s = text_loop (out @ (c # cs)) (escaped r @ CHR 0x22 # rest)"
        unfolding text_loop.simps [of out ?s] by (simp only: Let_def if_False if_True) simp
      then have "text_loop out ?s = Some (out @ (c # cs) @ r, rest)"
        using IH [of "out @ c # cs"] by simp
      moreover have "escaped t @ CHR 0x22 # rest = ?s"
        unfolding wide(1) escaped_simps(3) escaped_wide [OF wide(4)] by (simp only: append.assoc)
      ultimately show ?thesis using wide(1) by (simp only: append.assoc)
    qed
  qed
qed

subsection \<open>Numbers\<close>

lemma eat_literal_simps [simp]:
  "eat_literal [] s = Some s" "eat_literal (a # l) [] = None"
  "eat_literal (a # l) (c # r) = (if c = a then eat_literal l r else None)"
  by (auto simp: eat_literal_def)

lemma is_digit_range: "is_digit c \<longleftrightarrow> 48 \<le> (of_char c :: nat) \<and> of_char c \<le> (57 :: nat)"
  by (simp add: is_digit_def Let_def)

text \<open>What may follow an item: nothing a number could go on with.\<close>

definition number_ends :: "string \<Rightarrow> bool" where
  "number_ends s \<longleftrightarrow>
     (case s of [] \<Rightarrow> True | c # r \<Rightarrow> \<not> is_digit c \<and> c \<notin> {CHR ''.'', CHR ''e'', CHR ''E''})"

definition ends :: "string \<Rightarrow> bool" where
  "ends s \<longleftrightarrow> number_ends s \<and> (case s of [] \<Rightarrow> True | c # r \<Rightarrow> c \<noteq> CHR ''('')"

lemma take_digits_decimal:
  assumes "number_ends r"
  shows "take_digits (decimal n @ r) = (decimal n, r)"
proof -
  have "\<forall>c \<in> set (decimal n). is_digit c" using decimal_digits by blast
  moreover have "takeWhile is_digit r = []" "dropWhile is_digit r = r"
    using assms by (cases r; simp add: number_ends_def)+
  ultimately show ?thesis by (simp add: take_digits_def)
qed

lemma decimal_Cons: obtains c cs where "decimal n = c # cs" "is_digit c"
  using decimal_digits [of _ n] decimal_not_Nil [of n] by (metis list.exhaust list.set_intros(1))

lemma number_span_whole:
  assumes "number_ends r"
  shows "number_span (signed_decimal n @ r) = (signed_decimal n, False, r)"
proof -
  have rest: "(case r of p # d # r' \<Rightarrow> if p = CHR ''.'' \<and> is_digit d then f p d r' else ([], r)
      | _ \<Rightarrow> ([], r)) = ([], r)" for f
    using assms by (auto simp: number_ends_def split: list.split)
  have power: "(case r of e # r' \<Rightarrow> if e = CHR ''e'' \<or> e = CHR ''E'' then g e r' else ([], r)
      | [] \<Rightarrow> ([], r)) = ([], r)" for g
    using assms by (auto simp: number_ends_def split: list.split)
  show ?thesis
  proof (cases "n < 0")
    case True
    then show ?thesis
      by (simp add: signed_decimal_def number_span_def take_digits_decimal [OF assms] rest power)
  next
    case False
    obtain c cs where c: "decimal (nat n) = c # cs" "is_digit c" by (rule decimal_Cons)
    then have "c \<noteq> CHR ''-''" by (auto simp: is_digit_range)
    with c take_digits_decimal [OF assms, of "nat n"] False show ?thesis
      by (simp add: signed_decimal_def number_span_def rest power)
  qed
qed

lemma digit_not [simp]:
  "is_digit c \<Longrightarrow> c \<noteq> CHR ''[''" "is_digit c \<Longrightarrow> c \<noteq> CHR ''{''" "is_digit c \<Longrightarrow> c \<noteq> CHR ''h''"
  "is_digit c \<Longrightarrow> c \<noteq> CHR 0x22" "is_digit c \<Longrightarrow> c \<noteq> CHR ''s''" "is_digit c \<Longrightarrow> c \<noteq> CHR ''t''"
  "is_digit c \<Longrightarrow> c \<noteq> CHR ''f''" "is_digit c \<Longrightarrow> c \<noteq> CHR ''n''" "is_digit c \<Longrightarrow> c \<noteq> CHR ''u''"
  "is_digit c \<Longrightarrow> c \<noteq> CHR ''N''" "is_digit c \<Longrightarrow> c \<noteq> CHR ''I''" "is_digit c \<Longrightarrow> c \<noteq> CHR ''-''"
  "is_digit c \<Longrightarrow> c \<noteq> CHR ''.''" "is_digit c \<Longrightarrow> c \<noteq> CHR '']''" "is_digit c \<Longrightarrow> c \<noteq> CHR ''}''"
  "is_digit c \<Longrightarrow> \<not> is_ws c"
  by (auto simp: is_digit_range is_ws_def)

lemma digit_consts [simp]:
  "\<not> is_digit (CHR ''.'')" "\<not> is_digit (CHR '']'')" "\<not> is_digit (CHR ''}'')" "\<not> is_digit (CHR ''-'')"
  "\<not> is_digit (CHR ''['')" "\<not> is_digit (CHR ''{'')" "\<not> is_digit (CHR ''h'')" "\<not> is_digit (CHR 0x22)"
  "\<not> is_digit (CHR ''t'')" "\<not> is_digit (CHR ''f'')" "\<not> is_digit (CHR ''n'')" "\<not> is_digit (CHR ''s'')"
  "\<not> is_digit (CHR '','')" "\<not> is_digit (CHR '':'')" "\<not> is_digit (CHR '')'')" "\<not> is_digit (CHR ''('')"
  by (simp_all add: is_digit_range)

lemma skip_ws_simps [simp]:
  "skip_ws [] = []" "skip_ws (c # s) = (if is_ws c then skip_ws s else c # s)"
  by (simp_all add: skip_ws_def)

lemma skip_ws_idem [simp]: "skip_ws (skip_ws s) = skip_ws s"
  by (induction s) simp_all

lemma not_ws [simp]: "\<not> is_ws (CHR ''['')" "\<not> is_ws (CHR '']'')" "\<not> is_ws (CHR ''{'')" "\<not> is_ws (CHR ''}'')"
  "\<not> is_ws (CHR '','')" "\<not> is_ws (CHR '':'')" "\<not> is_ws (CHR '')'')" "\<not> is_ws (CHR ''h'')"
  "\<not> is_ws (CHR 0x22)" "\<not> is_ws (CHR ''t'')" "\<not> is_ws (CHR ''f'')" "\<not> is_ws (CHR ''n'')"
  "\<not> is_ws (CHR ''s'')" "\<not> is_ws (CHR ''-'')" "is_ws (CHR '' '')"
  by (simp_all add: is_ws_def)

lemma ends_simps [simp]: "ends []" "ends (CHR '']'' # s)" "ends (CHR ''}'' # s)" "ends (CHR '')'' # s)"
  "ends (CHR '','' # s)" "ends (CHR '':'' # s)"
  by (simp_all add: ends_def number_ends_def is_digit_range)

subsection \<open>One item\<close>

text \<open>A reader of items reads an item's text, whatever blanks are before it and whatever ends it.\<close>

definition reads :: "(string \<Rightarrow> (diag \<times> string) option) \<Rightarrow> diag \<Rightarrow> bool" where
  "reads item x \<longleftrightarrow>
     (\<forall>s r. ends r \<longrightarrow> utf8_text r \<longrightarrow> skip_ws s = diag_text x @ r \<longrightarrow> item s = Some (x, r))"

lemma readsD:
  "reads item x \<Longrightarrow> skip_ws s = diag_text x @ r \<Longrightarrow> ends r \<Longrightarrow> utf8_text r \<Longrightarrow> item s = Some (x, r)"
  by (simp add: reads_def)

text \<open>The first character of an item's text.\<close>

definition item_start :: "char \<Rightarrow> bool" where
  "item_start c \<longleftrightarrow>
     is_digit c \<or> c \<in> {CHR ''-'', CHR ''['', CHR ''{'', CHR ''h'', CHR 0x22, CHR ''t'', CHR ''f'', CHR ''n'', CHR ''s''}"

lemma diag_text_start:
  assumes "writable x"
  obtains c s where "diag_text x = c # s" "item_start c"
proof (cases x)
  case (DInt n)
  obtain c cs where "decimal (nat n) = c # cs" "is_digit c" by (rule decimal_Cons)
  with DInt that show ?thesis by (cases "n < 0") (auto simp: signed_decimal_def item_start_def)
next
  case (DTag t y)
  obtain c cs where "decimal (unat t) = c # cs" "is_digit c" by (rule decimal_Cons)
  with DTag that show ?thesis by (simp add: item_start_def)
next
  case (DBool b)
  with that show ?thesis by (cases b) (simp_all add: item_start_def)
qed (use assms that in \<open>simp_all add: item_start_def quote_def\<close>)

lemma item_start_plain: "item_start c \<Longrightarrow> \<not> is_ws c \<and> c \<noteq> CHR ''.'' \<and> c \<noteq> CHR '']'' \<and> c \<noteq> CHR ''}''"
  by (auto simp: item_start_def)

lemma skip_ws_diag_text [simp]: "writable x \<Longrightarrow> skip_ws (diag_text x @ r) = diag_text x @ r"
  by (rule diag_text_start [of x]) (auto dest: item_start_plain)

lemma not_elided [simp]: "writable x \<Longrightarrow> eat_literal ''...'' (diag_text x @ r) = None"
  by (rule diag_text_start [of x]) (auto dest: item_start_plain)

lemma diag_item_digit:
  assumes "is_digit c" "skip_ws s = c # r"
  shows "diag_item lib (Suc l) s = diag_number lib (diag_item lib l) (c # r)"
  using assms digit_not [OF assms(1)] by (simp add: keyword_item_def Let_def)

lemma diag_item_minus:
  assumes "skip_ws s = CHR ''-'' # d # r" "is_digit d"
  shows "diag_item lib (Suc l) s = diag_number lib (diag_item lib l) (CHR ''-'' # d # r)"
  using assms digit_not [OF assms(2)] by (simp add: keyword_item_def Let_def)

lemma utf8_text_separated: "\<forall>s \<in> set ss. utf8_text s \<Longrightarrow> utf8_text (separated ss)"
  by (induction ss rule: separated.induct) (simp_all add: utf8_text_append utf8_text_Cons utf8_ascii)

lemma utf8_text_diag: "writable x \<Longrightarrow> utf8_text (diag_text x)"
proof (induction x)
  case (DText t)
  then show ?case
    by (simp add: quote_def utf8_text_append utf8_text_Cons utf8_text_escaped utf8_ascii)
next
  case (DTag t x)
  then show ?case by (simp add: utf8_text_append utf8_text_Cons utf8_ascii)
next
  case (DArr xs)
  with utf8_text_separated [of "map diag_text xs"] show ?case
    by (simp add: utf8_text_append utf8_text_Cons utf8_ascii)
next
  case (DMap kvs)
  have "utf8_text (diag_text k @ '': '' @ diag_text v)" if "(k, v) \<in> set kvs" for k v
    using DMap that by (fastforce simp: utf8_text_append utf8_text_Cons utf8_ascii)
  then have "\<forall>s \<in> set (map (\<lambda>(k, v). diag_text k @ '': '' @ diag_text v) kvs). utf8_text s" by auto
  then have "utf8_text (separated (map (\<lambda>(k, v). diag_text k @ '': '' @ diag_text v) kvs))"
    by (rule utf8_text_separated)
  then show ?case by (simp add: utf8_text_append utf8_text_Cons utf8_ascii)
qed (auto simp: utf8_text_append utf8_text_Cons utf8_ascii)

subsection \<open>Loops\<close>

lemma array_loop_reads:
  assumes rest: "utf8_text rest"
  shows "xs \<noteq> [] \<Longrightarrow> \<forall>x \<in> set xs. reads item x \<and> writable x \<Longrightarrow> length xs \<le> fuel \<Longrightarrow>
    skip_ws s = separated (map diag_text xs) @ CHR '']'' # rest \<Longrightarrow>
    array_loop item fuel acc s = Some (DArr (acc @ xs), rest)"
proof (induction xs arbitrary: acc fuel s)
  case (Cons x xs)
  then obtain fuel' where fuel: "fuel = Suc fuel'" by (cases fuel) auto
  have x: "reads item x" "writable x" using Cons.prems(2) by simp_all
  show ?case
  proof (cases xs)
    case Nil
    have after: "utf8_text (CHR '']'' # rest)" using rest by (intro utf8_text_Cons) simp_all
    have s: "skip_ws s = diag_text x @ CHR '']'' # rest" using Cons.prems(4) Nil by simp
    then have "item (skip_ws s) = Some (x, CHR '']'' # rest)"
      using after x(2) by (intro readsD [OF x(1)]) simp_all
    with s x(2) fuel Nil show ?thesis by (simp add: Let_def)
  next
    case (Cons y ys)
    let ?more = "separated (map diag_text xs) @ CHR '']'' # rest"
    have s: "skip_ws s = diag_text x @ CHR '','' # CHR '' '' # ?more" using Cons Cons.prems(4) by simp
    have "utf8_text (separated (map diag_text xs))"
      using Cons.prems(2) utf8_text_diag by (intro utf8_text_separated) auto
    then have "utf8_text (CHR '','' # CHR '' '' # ?more)"
      using rest by (simp add: utf8_text_append utf8_text_Cons)
    then have "item (skip_ws s) = Some (x, CHR '','' # CHR '' '' # ?more)"
      using s x(2) by (intro readsD [OF x(1)]) simp_all
    moreover have "skip_ws (CHR '' '' # ?more) = ?more"
      using Cons Cons.prems(2) by (cases ys) simp_all
    then have "array_loop item fuel' (acc @ [x]) (CHR '' '' # ?more) = Some (DArr ((acc @ [x]) @ xs), rest)"
      using Cons Cons.prems fuel by (intro Cons.IH) simp_all
    ultimately show ?thesis using s x(2) fuel by (simp add: Let_def)
  qed
qed simp

definition entry_text :: "diag \<times> diag \<Rightarrow> string" where
  "entry_text p = diag_text (fst p) @ '': '' @ diag_text (snd p)"

lemma map_loop_reads:
  assumes rest: "utf8_text rest"
  shows "kvs \<noteq> [] \<Longrightarrow>
    \<forall>p \<in> set kvs. reads item (fst p) \<and> writable (fst p) \<and> reads item (snd p) \<and> writable (snd p) \<Longrightarrow>
    length kvs \<le> fuel \<Longrightarrow> skip_ws s = separated (map entry_text kvs) @ CHR ''}'' # rest \<Longrightarrow>
    map_loop item fuel acc s = Some (DMap (acc @ kvs), rest)"
proof (induction kvs arbitrary: acc fuel s)
  case (Cons p kvs)
  then obtain fuel' where fuel: "fuel = Suc fuel'" by (cases fuel) auto
  obtain k v where p: "p = (k, v)" by fastforce
  have k: "reads item k" "writable k" and v: "reads item v" "writable v"
    using Cons.prems(2) p by simp_all
  have entry: "item (skip_ws s) = Some (k, CHR '':'' # CHR '' '' # diag_text v @ r)"
    "item (CHR '' '' # diag_text v @ r) = Some (v, r)"
    if "skip_ws s = entry_text p @ r" "utf8_text r" "ends r" for r
  proof -
    have "utf8_text (CHR '':'' # CHR '' '' # diag_text v @ r)"
      using that(2) utf8_text_diag [OF v(2)] by (simp add: utf8_text_append utf8_text_Cons)
    then show "item (skip_ws s) = Some (k, CHR '':'' # CHR '' '' # diag_text v @ r)"
      using that(1) p k(2) by (intro readsD [OF k(1)]) (simp_all add: entry_text_def)
    show "item (CHR '' '' # diag_text v @ r) = Some (v, r)"
      using that(2,3) v(2) by (intro readsD [OF v(1)]) simp_all
  qed
  have colon: "eat (CHR '':'') (CHR '':'' # t) = Some t" for t by (simp add: eat_def)
  show ?case
  proof (cases kvs)
    case Nil
    have after: "utf8_text (CHR ''}'' # rest)" using rest by (intro utf8_text_Cons) simp_all
    have s: "skip_ws s = entry_text p @ CHR ''}'' # rest" using Cons.prems(4) Nil by simp
    from entry [OF this after] s k(2) fuel Nil p show ?thesis
      by (simp add: Let_def colon entry_text_def)
  next
    case (Cons q qs)
    let ?more = "separated (map entry_text kvs) @ CHR ''}'' # rest"
    have s: "skip_ws s = entry_text p @ CHR '','' # CHR '' '' # ?more" using Cons Cons.prems(4) by simp
    have "\<forall>t \<in> set (map entry_text kvs). utf8_text t"
      using Cons.prems(2) utf8_text_diag
      by (auto simp: entry_text_def utf8_text_append utf8_text_Cons)
    then have "utf8_text (CHR '','' # CHR '' '' # ?more)"
      using rest utf8_text_separated by (simp add: utf8_text_append utf8_text_Cons)
    note now = entry [OF s this]
    have "skip_ws (CHR '' '' # ?more) = ?more"
      using Cons Cons.prems(2) by (cases qs) (simp_all add: entry_text_def)
    then have "map_loop item fuel' (acc @ [p]) (CHR '' '' # ?more) = Some (DMap ((acc @ [p]) @ kvs), rest)"
      using Cons Cons.prems fuel by (intro Cons.IH) simp_all
    with now s k(2) fuel p show ?thesis
      by (simp add: Let_def colon entry_text_def)
  qed
qed simp

subsection \<open>Reading what is written\<close>

lemma length_separated: "\<forall>s \<in> set ss. s \<noteq> [] \<Longrightarrow> length ss \<le> length (separated ss)"
proof (induction ss rule: separated.induct)
  case (2 s)
  then show ?case by (cases s) simp_all
next
  case (3 s t ts)
  then show ?case by simp
qed simp

lemma entry_text_pair: "(\<lambda>(k, v). diag_text k @ '': '' @ diag_text v) = entry_text"
  by (auto simp: entry_text_def)

lemma diag_text_not_Nil: "writable x \<Longrightarrow> diag_text x \<noteq> []"
  by (rule diag_text_start) auto

lemma reads_number:
  assumes "i128_min \<le> n" "n \<le> i128_max"
  shows "reads (diag_item lib (Suc l)) (DInt n)"
  unfolding reads_def
proof (intro allI impI)
  fix s r assume r: "ends r" and s: "skip_ws s = diag_text (DInt n) @ r"
  have stop: "number_ends r" using r by (simp add: ends_def)
  have "diag_number lib (diag_item lib l) (signed_decimal n @ r) = Some (DInt n, r)"
    unfolding diag_number_def number_span_whole [OF stop] Let_def prod.case parse_signed_decimal [OF assms]
    using r by (cases r) (simp_all add: ends_def)
  moreover obtain c cs where c: "decimal (nat \<bar>n\<bar>) = c # cs" "is_digit c" by (rule decimal_Cons)
  moreover have "signed_decimal n = (if n < 0 then CHR ''-'' # c # cs else c # cs)"
    using c(1) by (cases "n < 0") (simp_all add: signed_decimal_def)
  ultimately show "diag_item lib (Suc l) s = Some (DInt n, r)"
    using s diag_item_digit [of c s "cs @ r" lib l] diag_item_minus [of s c "cs @ r" lib l]
    by (auto simp del: diag_item.simps split: if_splits)
qed

lemma reads_tag:
  assumes x: "reads (diag_item lib l) x" "writable x"
  shows "reads (diag_item lib (Suc l)) (DTag t x)"
  unfolding reads_def
proof (intro allI impI)
  fix s r assume r: "ends r" "utf8_text r" and s: "skip_ws s = diag_text (DTag t x) @ r"
  have small: "int (unat t) \<le> i128_max" "uint t \<le> 18446744073709551615"
  proof -
    have "uint t < 2 ^ LENGTH(64)" by (rule unsigned_less)
    then show "int (unat t) \<le> i128_max" "uint t \<le> 18446744073709551615"
      by (simp_all add: i128_max_def)
  qed
  let ?inner = "diag_text x @ CHR '')'' # r"
  have span: "number_span (decimal (unat t) @ CHR ''('' # ?inner) =
      (decimal (unat t), False, CHR ''('' # ?inner)"
    using number_span_whole [of "CHR ''('' # ?inner" "int (unat t)"]
    by (simp add: number_ends_def signed_decimal_def)
  have "utf8_text (CHR '')'' # r)" using r(2) by (intro utf8_text_Cons) simp_all
  then have "diag_item lib l (skip_ws ?inner) = Some (x, CHR '')'' # r)"
    using x(2) by (intro readsD [OF x(1)]) simp_all
  then have "diag_number lib (diag_item lib l) (decimal (unat t) @ CHR ''('' # ?inner) = Some (DTag t x, r)"
    using x(2) small by (simp add: diag_number_def span parse_decimal eat_def u64_max_def Let_def)
  moreover obtain c cs where c: "decimal (unat t) = c # cs" "is_digit c" by (rule decimal_Cons)
  ultimately show "diag_item lib (Suc l) s = Some (DTag t x, r)"
    using s diag_item_digit [of c s "cs @ CHR ''('' # ?inner" lib l] by (simp del: diag_item.simps)
qed

lemma diag_item_array:
  "skip_ws s = CHR ''['' # r \<Longrightarrow> skip_ws r = d # r1 \<Longrightarrow> d \<noteq> CHR '']'' \<Longrightarrow>
     diag_item lib (Suc l) s = array_loop (diag_item lib l) (length (CHR ''['' # r)) [] (d # r1)"
  by (simp add: Let_def del: array_loop.simps)

lemma diag_item_map:
  "skip_ws s = CHR ''{'' # r \<Longrightarrow> skip_ws r = d # r1 \<Longrightarrow> d \<noteq> CHR ''}'' \<Longrightarrow>
     diag_item lib (Suc l) s = map_loop (diag_item lib l) (length (CHR ''{'' # r)) [] (d # r1)"
  by (simp add: Let_def del: map_loop.simps)

lemma reads_array:
  assumes "\<forall>x \<in> set xs. reads (diag_item lib l) x \<and> writable x"
  shows "reads (diag_item lib (Suc l)) (DArr xs)"
  unfolding reads_def
proof (intro allI impI)
  fix s r assume r: "ends r" "utf8_text r" and s: "skip_ws s = diag_text (DArr xs) @ r"
  show "diag_item lib (Suc l) s = Some (DArr xs, r)"
  proof (cases xs)
    case Nil
    with s show ?thesis by (simp add: Let_def)
  next
    case (Cons x ys)
    let ?body = "separated (map diag_text xs) @ CHR '']'' # r"
    obtain c cs where c: "diag_text x = c # cs" "item_start c"
      using diag_text_start [of x] assms Cons by auto
    then have body: "skip_ws ?body = ?body" "\<exists>t. ?body = c # t"
      using Cons item_start_plain [OF c(2)] by (cases ys; simp)+
    have "\<forall>s \<in> set (map diag_text xs). s \<noteq> []" using assms diag_text_not_Nil by auto
    from length_separated [OF this] have "length xs \<le> length (CHR ''['' # ?body)" by simp
    then have "array_loop (diag_item lib l) (length (CHR ''['' # ?body)) [] ?body = Some (DArr ([] @ xs), r)"
      using Cons assms body(1) r(2) by (intro array_loop_reads) simp_all
    moreover obtain t where t: "?body = c # t" using body(2) by blast
    moreover have "skip_ws s = CHR ''['' # ?body" using s by simp
    ultimately show ?thesis
      using diag_item_array [of s ?body c t lib l] body(1) item_start_plain [OF c(2)]
      by (simp del: diag_item.simps array_loop.simps)
  qed
qed

lemma reads_map:
  assumes "\<forall>p \<in> set kvs. reads (diag_item lib l) (fst p) \<and> writable (fst p) \<and>
    reads (diag_item lib l) (snd p) \<and> writable (snd p)"
  shows "reads (diag_item lib (Suc l)) (DMap kvs)"
  unfolding reads_def
proof (intro allI impI)
  fix s r assume r: "ends r" "utf8_text r" and s: "skip_ws s = diag_text (DMap kvs) @ r"
  show "diag_item lib (Suc l) s = Some (DMap kvs, r)"
  proof (cases kvs)
    case Nil
    with s show ?thesis by (simp add: Let_def)
  next
    case (Cons p ps)
    let ?body = "separated (map entry_text kvs) @ CHR ''}'' # r"
    obtain c cs where c: "diag_text (fst p) = c # cs" "item_start c"
      using diag_text_start [of "fst p"] assms Cons by auto
    then have body: "skip_ws ?body = ?body" "\<exists>t. ?body = c # t"
      using Cons item_start_plain [OF c(2)] by (cases ps; simp add: entry_text_def)+
    have "\<forall>s \<in> set (map entry_text kvs). s \<noteq> []" by (auto simp: entry_text_def)
    from length_separated [OF this] have "length kvs \<le> length (CHR ''{'' # ?body)" by simp
    then have "map_loop (diag_item lib l) (length (CHR ''{'' # ?body)) [] ?body = Some (DMap ([] @ kvs), r)"
      using Cons assms body(1) r(2) by (intro map_loop_reads) simp_all
    moreover obtain t where t: "?body = c # t" using body(2) by blast
    moreover have "skip_ws s = CHR ''{'' # ?body" using s unfolding diag_text.simps entry_text_pair by simp
    ultimately show ?thesis
      using diag_item_map [of s ?body c t lib l] body(1) item_start_plain [OF c(2)]
      by (simp del: diag_item.simps map_loop.simps)
  qed
qed

lemma hex_not_quote: "c \<in> set (hex_encode b) \<Longrightarrow> c \<noteq> CHR 0x27"
proof (induction b)
  case (Cons x b)
  have "unat x < 256" using unsigned_less [of x, where 'a = nat] by simp
  then have "unat x div 16 < 16" "unat x mod 16 < 16" by simp_all
  then have "of_char (hex_digit (unat x div 16)) \<noteq> (39 :: nat)" "of_char (hex_digit (unat x mod 16)) \<noteq> (39 :: nat)"
    by (simp_all add: of_char_hex_digit)
  then have "hex_digit (unat x div 16) \<noteq> CHR 0x27" "hex_digit (unat x mod 16) \<noteq> CHR 0x27" by auto
  with Cons show ?case by (auto simp: hex_encode_def)
qed (simp add: hex_encode_def)

lemma byte_there_and_back [simp]: "(ucast (ucast (n :: u8) :: u64) :: u8) = n"
  by transfer (simp add: take_bit_take_bit)

theorem diag_item_reads:
  assumes "\<And>b. fl_hex_decode lib (hex_encode b) = Inr b"
  shows "writable x \<Longrightarrow> diag_depth x < levels \<Longrightarrow> reads (diag_item lib levels) x"
proof (induction x arbitrary: levels)
  case (DInt n)
  then show ?case by (cases levels) (simp_all del: diag_item.simps add: reads_number)
next
  case (DBytes b)
  have "takeWhile (\<lambda>c. c \<noteq> CHR 0x27) (hex_encode b @ CHR 0x27 # r) = hex_encode b"
    "dropWhile (\<lambda>c. c \<noteq> CHR 0x27) (hex_encode b @ CHR 0x27 # r) = CHR 0x27 # r" for r
  proof -
    have "\<forall>c \<in> set (hex_encode b). c \<noteq> CHR 0x27" using hex_not_quote by blast
    then show "takeWhile (\<lambda>c. c \<noteq> CHR 0x27) (hex_encode b @ CHR 0x27 # r) = hex_encode b"
      "dropWhile (\<lambda>c. c \<noteq> CHR 0x27) (hex_encode b @ CHR 0x27 # r) = CHR 0x27 # r"
      by simp_all
  qed
  with DBytes show ?case
    by (cases levels) (simp_all add: reads_def hex_string_def assms utf8_ascii Let_def)
next
  case (DText t)
  then show ?case
    by (cases levels) (simp_all add: reads_def quote_def text_loop_escaped [of t _ "[]", simplified] Let_def)
next
  case (DBool b)
  then show ?case by (cases levels; cases b) (simp_all add: reads_def keyword_item_def Let_def)
next
  case DNull
  then show ?case by (cases levels) (simp_all add: reads_def keyword_item_def Let_def)
next
  case (DSimple n)
  have "unat n < 2 ^ LENGTH(8)" by (rule unsigned_less)
  then have n: "unat n < 256" by simp
  then have "parse_u64 (decimal (unat n)) = Some (of_nat (unat n))" by (intro parse_u64_decimal) simp
  moreover have "(of_nat (unat n) :: u64) < 256"
  proof -
    have "uint n < 2 ^ LENGTH(8)" by (rule unsigned_less)
    then show ?thesis by (simp add: word_less_alt)
  qed
  moreover have "skip_ws (decimal (unat n) @ r) = decimal (unat n) @ r" for r
    by (rule decimal_Cons [of "unat n"]) simp
  moreover have "number_ends (CHR '')'' # r)" for r by (simp add: number_ends_def)
  ultimately show ?case
    using DSimple by (cases levels)
      (simp_all add: reads_def simple_item_def diag_digits_def take_digits_decimal eat_def Let_def)
next
  case (DTag t x)
  then show ?case by (cases levels) (simp_all del: diag_item.simps add: reads_tag)
next
  case (DArr xs)
  have "reads (diag_item lib l) x \<and> writable x" if "levels = Suc l" "x \<in> set xs" for l x
    using DArr that max_list_bound [of x xs "\<lambda>x. Suc (diag_depth x)"] by fastforce
  with DArr show ?case by (cases levels) (simp_all del: diag_item.simps add: reads_array)
next
  case (DMap kvs)
  have "reads (diag_item lib l) (fst p) \<and> writable (fst p) \<and> reads (diag_item lib l) (snd p) \<and> writable (snd p)"
    if "levels = Suc l" "p \<in> set kvs" for l p
    using DMap that
      max_list_bound [of p kvs "\<lambda>p. Suc (max (diag_depth (fst p)) (diag_depth (snd p)))"]
    by (cases p) fastforce
  with DMap show ?case by (cases levels) (simp_all del: diag_item.simps add: reads_map)
qed simp

definition composite :: "diag \<Rightarrow> bool" where
  "composite x \<longleftrightarrow> (case x of DArr _ \<Rightarrow> True | DMap _ \<Rightarrow> True | DTag _ _ \<Rightarrow> True | DSimple _ \<Rightarrow> True | _ \<Rightarrow> False)"

lemma starts_composite_text: "composite x \<Longrightarrow> starts_composite (diag_text x)"
proof (cases x)
  case (DTag t y)
  obtain c cs where c: "decimal (unat t) = c # cs" "is_digit c" by (rule decimal_Cons)
  have "take_digits (decimal (unat t) @ CHR ''('' # diag_text y @ '')'') =
      (decimal (unat t), CHR ''('' # diag_text y @ '')'')"
    by (rule take_digits_decimal) (simp add: number_ends_def)
  then have "dropWhile is_digit (c # cs @ CHR ''('' # diag_text y @ '')'') = CHR ''('' # diag_text y @ '')''"
    using c(1) by (simp add: take_digits_def)
  with c DTag digit_not [OF c(2)] show ?thesis by (simp add: starts_composite_def)
qed (simp_all add: composite_def starts_composite_def)

theorem composite_round_trip:
  assumes "\<And>b. fl_hex_decode lib (hex_encode b) = Inr b"
    and "composite x" "writable x" "diag_depth x \<le> MAX_DIAG_DEPTH"
  shows "parse_composite lib (diag_text x) = Some x"
proof -
  have "reads (diag_item lib (Suc MAX_DIAG_DEPTH)) x"
    using assms(4) by (intro diag_item_reads assms(1,3)) simp
  then have "diag_item lib (Suc MAX_DIAG_DEPTH) (diag_text x) = Some (x, [])"
    by (rule readsD) (use skip_ws_diag_text [OF assms(3), of "[]"] in \<open>simp_all add: utf8_text_def\<close>)
  then show ?thesis
    using skip_ws_diag_text [OF assms(3), of "[]"] starts_composite_text [OF assms(2)]
    by (simp add: parse_composite_def del: diag_item.simps)
qed

end
