(* ===== verification/Location_Keys.thy ===== *)
theory Location_Keys
  imports Location_Facts Diagnostic_Roundtrip
begin

text \<open>
  Locations of keys written in the validator's notation: a \<open>/\<close> inside a key separates nothing, every
  key the validator writes is classified as itself, and no location in ASCII makes the classification
  panic; one that is not can.
\<close>

subsection \<open>Nothing inside a key separates\<close>

text \<open>A text that leaves the scan where it was, at any level.\<close>

definition neutral :: "string \<Rightarrow> bool" where
  "neutral s \<longleftrightarrow>
     (\<forall>i d rest. separators_from i d False False (s @ rest) =
        separators_from (i + length s) d False False rest)"

definition plain_char :: "char \<Rightarrow> bool" where
  "plain_char c \<longleftrightarrow>
     c \<notin> {CHR 0x22, CHR ''('', CHR ''['', CHR ''{'', CHR '')'', CHR '']'', CHR ''}'', CHR ''/''}"

lemma neutral_Nil [simp]: "neutral []"
  by (simp add: neutral_def)

lemma neutral_append: "neutral s \<Longrightarrow> neutral t \<Longrightarrow> neutral (s @ t)"
  by (simp add: neutral_def add.assoc)

lemma neutral_plain: "\<forall>c \<in> set s. plain_char c \<Longrightarrow> neutral s"
proof (induction s)
  case (Cons c s)
  then have "plain_char c" "neutral s" by simp_all
  then show ?case by (simp add: neutral_def plain_char_def)
qed simp

lemma separators_in_text:
  "separators_from i d True False (escaped t @ CHR 0x22 # rest) =
     separators_from (i + length (escaped t) + 1) d False False rest"
  by (induction t arbitrary: i) (auto simp: escape_char_def)

lemma neutral_quoted: "neutral (quote @ escaped t @ quote)"
  by (simp add: neutral_def quote_def separators_in_text)

lemma neutral_bracketed:
  assumes "neutral s" "l \<in> {CHR ''('', CHR ''['', CHR ''{''}" "r \<in> {CHR '')'', CHR '']'', CHR ''}''}"
  shows "neutral (l # s @ [r])"
  using assms(2,3) assms(1) [unfolded neutral_def] by (auto simp: neutral_def)

lemma neutral_separated: "\<forall>s \<in> set ss. neutral s \<Longrightarrow> neutral (separated ss)"
proof (induction ss rule: separated.induct)
  case (3 s t ts)
  have comma: "neutral '', ''" by (rule neutral_plain) (simp add: plain_char_def)
  have "neutral (s @ '', '' @ separated (t # ts))"
    by (intro neutral_append comma 3(1)) (use 3(2) in auto)
  then show ?case by simp
qed simp_all

lemma plain_decimal: "neutral (decimal n)"
proof (rule neutral_plain)
  show "\<forall>c \<in> set (decimal n). plain_char c"
  proof
    fix c assume "c \<in> set (decimal n)"
    then have "is_digit c" by (rule decimal_digits)
    then show "plain_char c" by (auto simp: plain_char_def is_digit_def)
  qed
qed

lemma plain_hex_digit: "n < 16 \<Longrightarrow> plain_char (hex_digit n)"
proof -
  assume n: "n < 16"
  have "of_char (hex_digit n) = (if n < 10 then 48 + n else 87 + n :: nat)"
    by (rule of_char_hex_digit [OF n])
  then have "48 \<le> (of_char (hex_digit n) :: nat)" "(of_char (hex_digit n) :: nat) \<le> 102"
    "of_char (hex_digit n) \<noteq> (91 :: nat)" "of_char (hex_digit n) \<noteq> (93 :: nat)"
    using n by (auto split: if_splits)
  then show ?thesis by (auto simp: plain_char_def)
qed

lemma neutral_hex: "neutral (hex_encode b)"
proof (rule neutral_plain)
  show "\<forall>c \<in> set (hex_encode b). plain_char c"
  proof (induction b)
    case (Cons x b)
    have "unat x < 256" using unsigned_less [of x, where 'a = nat] by simp
    then have "unat x div 16 < 16" "unat x mod 16 < 16" by simp_all
    with Cons show ?case by (simp add: hex_encode_def plain_hex_digit)
  qed (simp add: hex_encode_def)
qed

lemma neutral_diag_text: "neutral (diag_text x)"
proof (induction x)
  case (DInt n)
  have "neutral ''-''" by (rule neutral_plain) (simp add: plain_char_def)
  with plain_decimal show ?case by (auto simp: signed_decimal_def intro: neutral_append [of "''-''", simplified])
next
  case (DBytes b)
  have "neutral (''h'' @ [CHR 0x27])" "neutral [CHR 0x27]"
    by (rule neutral_plain; simp add: plain_char_def)+
  from neutral_append [OF this(1) neutral_append [OF neutral_hex this(2)]] show ?case by simp
next
  case (DText t)
  show ?case using neutral_quoted by simp
next
  case (DBool b)
  show ?case by (cases b; simp; rule neutral_plain; simp add: plain_char_def)
next
  case DNull
  show ?case by (simp; rule neutral_plain; simp add: plain_char_def)
next
  case (DSimple n)
  have "neutral ''simple''" by (rule neutral_plain) (simp add: plain_char_def)
  from neutral_append [OF this neutral_bracketed [OF plain_decimal, of "CHR ''(''" "CHR '')''"]]
  show ?case by simp
next
  case (DTag t x)
  from neutral_append [OF plain_decimal neutral_bracketed [OF DTag, of "CHR ''(''" "CHR '')''"]]
  show ?case by simp
next
  case (DArr xs)
  then have "neutral (separated (map diag_text xs))" by (intro neutral_separated) auto
  from neutral_bracketed [OF this, of "CHR ''[''" "CHR '']''"] show ?case by simp
next
  case (DMap kvs)
  have colon: "neutral '': ''" by (rule neutral_plain) (simp add: plain_char_def)
  have "neutral (separated (map entry_text kvs))"
  proof (intro neutral_separated ballI)
    fix s assume "s \<in> set (map entry_text kvs)"
    then obtain k v where "(k, v) \<in> set kvs" and s: "s = diag_text k @ '': '' @ diag_text v"
      by (auto simp: entry_text_def)
    with DMap have "neutral (diag_text k)" "neutral (diag_text v)" by fastforce+
    then show "neutral s" unfolding s by (intro neutral_append colon)
  qed
  from neutral_bracketed [OF this, of "CHR ''{''" "CHR ''}''"]
  have "neutral (CHR ''{'' # separated (map entry_text kvs) @ [CHR ''}''])" by simp
  moreover have "diag_text (DMap kvs) = CHR ''{'' # separated (map entry_text kvs) @ [CHR ''}'']"
    by (simp add: entry_text_def [abs_def] case_prod_unfold)
  ultimately show ?case by (simp only:)
qed simp_all

subsection \<open>Splitting\<close>

lemma cut_segments:
  assumes "xs \<noteq> []" "\<forall>x \<in> set xs. neutral x" "s = pre @ join_slash xs"
  shows "\<exists>pre'. foldl (cut_segment s) (out, length pre) (separators_from (length pre) 0 False False (join_slash xs)) =
      (out @ butlast xs, length pre') \<and> s = pre' @ last xs"
  using assms
proof (induction xs arbitrary: pre out rule: join_slash.induct)
  case (2 x)
  have "separators_from (length pre) 0 False False (x @ []) = []"
    using 2(2) [simplified, unfolded neutral_def, rule_format, of "length pre" 0 "[]"] by simp
  with 2 show ?case by auto
next
  case (3 x y xs)
  let ?pre = "pre @ x @ ''/''"
  have seps: "separators_from (length pre) 0 False False (join_slash (x # y # xs)) =
      (length pre + length x) # separators_from (length ?pre) 0 False False (join_slash (y # xs))"
    using 3(3) [simplified, THEN conjunct1, unfolded neutral_def, rule_format, of "length pre" 0
        "''/'' @ join_slash (y # xs)"] by simp
  have s: "s = ?pre @ join_slash (y # xs)" using 3(4) by simp
  have cut: "cut_segment s (out, length pre) (length pre + length x) = (out @ [x], length ?pre)"
    by (simp add: cut_segment_def s)
  have "foldl (cut_segment s) (out, length pre)
        (separators_from (length pre) 0 False False (join_slash (x # y # xs))) =
      foldl (cut_segment s) (out @ [x], length ?pre)
        (separators_from (length ?pre) 0 False False (join_slash (y # xs)))"
    by (simp only: seps foldl.simps cut)
  moreover obtain pre' where "foldl (cut_segment s) (out @ [x], length ?pre)
      (separators_from (length ?pre) 0 False False (join_slash (y # xs))) =
      ((out @ [x]) @ butlast (y # xs), length pre')" "s = pre' @ last (y # xs)"
    using 3(1) [of ?pre "out @ [x]"] 3(3) s by auto
  ultimately show ?case by auto
qed simp

theorem split_joined:
  assumes "\<forall>x \<in> set xs. neutral x \<and> x \<noteq> []"
  shows "split_location_segments (join_slash xs) = xs"
proof (cases "xs = []")
  case True
  then show ?thesis by (simp add: split_location_segments_def location_separators_def)
next
  case False
  from cut_segments [OF False, of "join_slash xs" "[]" "[]"] assms obtain pre' where
    f: "foldl (cut_segment (join_slash xs)) ([], 0) (location_separators (join_slash xs)) = (butlast xs, length pre')"
    and s: "join_slash xs = pre' @ last xs"
    by (auto simp: location_separators_def)
  have "last xs \<noteq> []" using assms False by (metis last_in_set)
  then have "length pre' < length (join_slash xs)" unfolding s by simp
  moreover have "drop (length pre') (join_slash xs) = last xs" unfolding s by simp
  ultimately show ?thesis
    using False by (simp add: split_location_segments_def f)
qed

subsection \<open>ASCII\<close>

lemma chars_ascii: "ascii s \<Longrightarrow> chars (map byte s) = map (\<lambda>c. [byte c]) s"
  by (induction s) (simp_all add: utf8_len_def byte_ascii)

lemma char_of_byte [simp]: "char_of (unat (byte c)) = c"
proof -
  have "of_char c < (256 :: nat)" by (rule nat_of_char_less_256)
  then have "unat (byte c) = of_char c" unfolding byte_def by (subst unat_of_nat) (simp add: take_bit_eq_mod)
  then show ?thesis by (simp only: char_of_char)
qed

definition ascii_white :: "char \<Rightarrow> bool" where
  "ascii_white c \<longleftrightarrow> of_char c \<in> {9, 10, 11, 12, 13, 32 :: nat}"

lemma white_space_ascii:
  assumes "[c] \<in> set white_space"
  shows "ascii_white c"
proof -
  from assms obtain n :: nat where
    n: "n \<in> set ([9..<14] @ [0x20, 0x85, 0xA0, 0x1680] @ [0x2000..<0x200B] @ [0x2028, 0x2029, 0x202F, 0x205F, 0x3000])"
      and c: "[c] = (case char_from_u32 n of Some c \<Rightarrow> c | None \<Rightarrow> [])"
    unfolding white_space_def set_map by blast
  from c have "n < 128" "c = char_of n" by (auto simp: char_from_u32_def split: if_splits)
  with n show ?thesis by (auto simp: ascii_white_def)
qed

text \<open>The text between two characters that are no white space.\<close>

lemma trim_between:
  assumes "map text_of (chars (map byte s)) = [a] # cs" "[z] = last ([a] # cs)"
    "\<not> ascii_white a" "\<not> ascii_white z"
  shows "trim s = concat ([a] # cs)"
proof -
  have front: "dropWhile (\<lambda>c. c \<in> set white_space) ([a] # cs) = [a] # cs"
    using assms(3) white_space_ascii by auto
  have stays: "dropWhile (\<lambda>c. c \<in> set white_space) xs = xs" if "xs \<noteq> []" "hd xs = [z]" for xs
    using that assms(4) white_space_ascii [of z] by (cases xs) auto
  have "rev ([a] # cs) \<noteq> []" "hd (rev ([a] # cs)) = [z]"
    using assms(2) by (simp_all only: hd_rev) simp_all
  from stays [OF this] have ending:
    "dropWhile (\<lambda>c. c \<in> set white_space) (rev ([a] # cs)) = rev ([a] # cs)" .
  show ?thesis unfolding trim_def Let_def assms(1) front ending rev_rev_ident by (rule refl)
qed

lemma trim_ascii:
  assumes "ascii s" "s \<noteq> []" "\<not> ascii_white (hd s)" "\<not> ascii_white (last s)"
  shows "trim s = s"
proof -
  obtain a r where s: "s = a # r" using assms(2) by (cases s) auto
  have cs: "map text_of (chars (map byte s)) = [a] # map (\<lambda>c. [c]) r"
    using chars_ascii [OF assms(1)] by (simp add: text_of_def s)
  have "last ([a] # map (\<lambda>c. [c]) r) = [last s]"
    by (simp add: s last_map)
  then have "trim s = concat ([a] # map (\<lambda>c. [c]) r)"
    using trim_between [OF cs, of "last s"] assms(3,4) by (simp add: s)
  also have "\<dots> = s" by (simp add: s concat_map_singleton)
  finally show ?thesis .
qed

lemma char_boundary_ascii: "ascii s \<Longrightarrow> i \<le> length s \<Longrightarrow> char_boundary s i"
proof (cases "i = length s")
  case False
  assume "ascii s" "i \<le> length s"
  with False have i: "i < length s" by simp
  with \<open>ascii s\<close> have "byte (s ! i) < 0x80" by (auto simp: ascii_def byte_ascii [symmetric])
  then have "\<not> 0x80 \<le> byte (s ! i)" by (simp add: not_le)
  with i show ?thesis by (simp add: char_boundary_def continuation_def)
qed (simp add: char_boundary_def)

lemma strip_prefix_ascii: "ascii s \<Longrightarrow> strip_prefix_ci s prefix \<noteq> None"
  by (simp add: strip_prefix_ci_def char_boundary_ascii)

lemma ascii_trim: "ascii s \<Longrightarrow> ascii (trim s)"
proof -
  assume s: "ascii s"
  have "set (trim s) \<subseteq> set s"
  proof -
    have cs: "map text_of (chars (map byte s)) = map (\<lambda>c. [c]) s"
      by (simp add: chars_ascii [OF s] text_of_def)
    show ?thesis unfolding trim_def Let_def cs by (auto dest!: set_dropWhileD)
  qed
  with s show ?thesis by (auto simp: ascii_def)
qed

lemma integer_loop_ascii: "ascii s \<Longrightarrow> integer_segment_loop s \<noteq> None"
proof (induction s rule: integer_segment_loop.induct)
  case (1 s)
  obtain o1 where o1: "strip_prefix_ci s ''Integer('' = Some o1" using strip_prefix_ascii [OF 1(2)] by blast
  show ?case
  proof (cases o1)
    case None
    with o1 show ?thesis by (simp add: integer_segment_loop.simps [of s])
  next
    case (Some t)
    show ?thesis
    proof (cases "strip_suffix '')'' t")
      case None
      with o1 Some show ?thesis by (simp add: integer_segment_loop.simps [of s])
    next
      case (Some inner)
      have "set inner \<subseteq> set s"
        using o1 Some \<open>o1 = Some t\<close>
        by (auto simp: strip_prefix_ci_def strip_suffix_def split: if_splits dest!: in_set_takeD in_set_dropD)
      with 1(2) have "ascii inner" by (auto simp: ascii_def)
      then have "integer_segment_loop (trim inner) \<noteq> None"
        using 1(1) [OF o1 \<open>o1 = Some t\<close> Some] ascii_trim by blast
      with o1 Some \<open>o1 = Some t\<close> show ?thesis by (simp add: integer_segment_loop.simps [of s])
    qed
  qed
qed

theorem classify_ascii:
  assumes "ascii seg"
  shows "classify_segment lib seg \<noteq> None"
proof -
  obtain n where "parse_integer_segment seg = Some n"
    using integer_loop_ascii [OF ascii_trim [OF assms]] by (auto simp: parse_integer_segment_def)
  then show ?thesis
    by (cases "parse_usize seg"; cases "strip_debug_quotes lib seg"; cases n) (simp_all add: classify_segment_def)
qed

text \<open>The array key of one and a Cyrillic word: a character lies across the eighth byte.\<close>

definition split_character :: string where
  "split_character =
     ''[1, '' @ quote @ [CHR 0xD0, CHR 0xBA, CHR 0xD0, CHR 0xBB, CHR 0xD1, CHR 0x8E] @ quote @ '']''"

lemma classify_panics: "classify_segment lib split_character = None"
proof -
  have cs: "map text_of (chars (map byte split_character)) =
      [CHR ''[''] # [''1'', '','', '' '', quote, [CHR 0xD0, CHR 0xBA], [CHR 0xD0, CHR 0xBB], [CHR 0xD1, CHR 0x8E],
        quote, '']'']"
    by code_simp
  have trim: "trim split_character = split_character"
    by (subst trim_between [OF cs, of "CHR '']''"]) (simp_all add: ascii_white_def split_character_def quote_def)
  have "split_character \<noteq> UNNAMED_ENTRY" "parse_usize split_character = None" "take 1 split_character \<noteq> quote"
    "parse_integer_segment split_character = None"
    apply code_simp
    apply code_simp
    apply code_simp
    subgoal unfolding parse_integer_segment_def trim
      by (subst integer_segment_loop.simps) code_simp
    done
  then show ?thesis by (simp add: classify_segment_def strip_debug_quotes_def parse_text_def)
qed

lemma those_None: "None \<in> set xs \<Longrightarrow> those xs = None"
  by (induction xs) (auto split: option.split)

lemma those_Some: "\<forall>x \<in> set xs. x \<noteq> None \<Longrightarrow> those xs \<noteq> None"
  by (induction xs) (auto split: option.split)

lemma path_panics: "cbor_location_to_json_path lib (''/'' @ split_character) = None"
proof -
  have trimmed: "trim_start_slashes (''/'' @ split_character) = split_character"
    "split_location_segments split_character = [split_character]" "split_character \<noteq> []"
    by code_simp+
  show ?thesis
    unfolding cbor_location_to_json_path_def trimmed Let_def classified_segments_def
    using trimmed(3) by (simp add: classify_panics)
qed

lemma segments_sub:
  "seg \<in> set (split_location_segments s) \<Longrightarrow> set seg \<subseteq> set s"
proof -
  have "\<forall>seg \<in> set (fst (foldl (cut_segment s) st is)). seg \<in> set (fst st) \<or> set seg \<subseteq> set s" for st "is"
  proof (induction "is" arbitrary: st)
    case (Cons i "is")
    have "\<forall>seg \<in> set (fst (cut_segment s st i)). seg \<in> set (fst st) \<or> set seg \<subseteq> set s"
      by (cases st) (auto simp: cut_segment_def dest: in_set_takeD in_set_dropD)
    with Cons [of "cut_segment s st i"] show ?case by fastforce
  qed simp
  from this [of "([], 0)" "location_separators s"]
  show "seg \<in> set (split_location_segments s) \<Longrightarrow> set seg \<subseteq> set s"
    by (cases "foldl (cut_segment s) ([], 0) (location_separators s)")
      (auto simp: split_location_segments_def split: if_splits dest: in_set_dropD)
qed

lemma path_ascii:
  assumes "ascii loc"
  shows "cbor_location_to_json_path lib loc \<noteq> None"
proof -
  let ?s = "trim_start_slashes loc"
  have "set ?s \<subseteq> set loc" by (auto simp: trim_start_slashes_def dest: set_dropWhileD)
  then have "ascii seg" if "seg \<in> set (split_location_segments ?s)" for seg
    using segments_sub [OF that] assms by (auto simp: ascii_def)
  then have "\<forall>seg \<in> set (split_location_segments ?s). classify_segment lib seg \<noteq> None"
    using classify_ascii by blast
  then have "classified_segments lib ?s \<noteq> None"
    unfolding classified_segments_def by (intro those_Some) auto
  then show ?thesis by (simp add: cbor_location_to_json_path_def Let_def)
qed

subsection \<open>Keys\<close>

text \<open>What a key's component names.\<close>

definition key_segment :: "diag \<Rightarrow> segment" where
  "key_segment x =
     (case x of
        DInt n \<Rightarrow> if 0 \<le> n \<and> n \<le> int usize_max then Index (nat n) else IntKey n
      | DBytes b \<Rightarrow> BytesKey b
      | DText t \<Rightarrow> TextKey t
      | DFloat f \<Rightarrow> FloatKey f
      | DBool b \<Rightarrow> BoolKey b
      | DNull \<Rightarrow> NullKey
      | _ \<Rightarrow> CompositeKey x)"

text \<open>What the float parser of the standard library never takes.\<close>

definition float_texts :: "float_library \<Rightarrow> bool" where
  "float_texts lib \<longleftrightarrow>
     (\<forall>s f. fl_parse lib s = Some f \<longrightarrow> (\<forall>c \<in> set s. c \<notin> {CHR ''('', CHR ''['', CHR ''{''}))"

lemma digits_value_None: "\<exists>c \<in> set s. \<not> is_digit c \<Longrightarrow> digits_value acc s = None"
  by (induction s arbitrary: acc) auto

lemma parse_digits_Inl: "\<exists>c \<in> set s. \<not> is_digit c \<Longrightarrow> \<exists>e. parse_digits negative acc s = Inl e"
  by (induction s arbitrary: acc) (auto simp: to_digit_def is_digit_def Let_def)

text \<open>The characters of a key's text that tell the forms apart.\<close>

lemma diag_text_last:
  assumes "writable x"
  shows "diag_text x \<noteq> [] \<and> \<not> ascii_white (last (diag_text x))"
proof -
  have white: "is_digit c \<Longrightarrow> \<not> ascii_white c" for c by (auto simp: ascii_white_def is_digit_def)
  show ?thesis
  proof (cases x)
    case (DInt n)
    have "last (decimal (nat \<bar>n\<bar>)) \<in> set (decimal (nat \<bar>n\<bar>))" by (simp add: decimal_not_Nil)
    then have "\<not> ascii_white (last (decimal (nat \<bar>n\<bar>)))" using decimal_digits white by blast
    with DInt show ?thesis by (auto simp: signed_decimal_def decimal_not_Nil abs_if split: if_splits)
  qed (use assms in \<open>auto simp: ascii_white_def quote_def\<close>)
qed

lemma not_plain_number:
  assumes "writable x" "\<forall>n. x \<noteq> DInt n"
  shows "\<exists>c \<in> set (diag_text x). \<not> is_digit c"
  using assms by (cases x) (auto simp: quote_def is_digit_range)

text \<open>
  The keys a component is read back from: a text key of any characters, another without a float and
  in ASCII, integers of 64 bits.
\<close>

definition location_key :: "diag \<Rightarrow> bool" where
  "location_key x \<longleftrightarrow>
     writable x \<and> diag_depth x \<le> MAX_DIAG_DEPTH \<and>
     (case x of DText t \<Rightarrow> True | DInt n \<Rightarrow> n \<le> int u64_max | _ \<Rightarrow> ascii (diag_text x))"

lemma no_usize:
  assumes "\<exists>c \<in> set s. \<not> is_digit c" "s \<noteq> []" "hd s \<noteq> CHR ''+''"
  shows "parse_usize s = None"
proof -
  have "parse_u64 s = None"
  proof -
    obtain c r where s: "s = c # r" using assms(2) by (cases s) auto
    with assms(3) have "(case s of CHR ''+'' # rest \<Rightarrow> rest | _ \<Rightarrow> s) = s"
      by (auto split: char.split bool.split)
    then show ?thesis using digits_value_None [OF assms(1)] assms(2) by (simp add: parse_u64_def del: digits_value.simps)
  qed
  then show ?thesis by (simp add: parse_usize_def)
qed

lemma item_start_shape:
  "item_start c \<Longrightarrow> c \<noteq> CHR ''i'' \<and> c \<noteq> CHR ''I'' \<and> c \<noteq> CHR ''+'' \<and> \<not> ascii_white c \<and> ascii_lower c \<noteq> CHR ''i''"
  by (auto simp: item_start_def ascii_white_def ascii_lower_def is_digit_range Let_def)

lemma integer_segment_plain:
  assumes "ascii (diag_text x)" "writable x"
  shows "parse_integer_segment (diag_text x) =
    Some (case parse_i128 (diag_text x) of Inr n \<Rightarrow> Some n | Inl _ \<Rightarrow> None)"
proof -
  let ?s = "diag_text x"
  obtain c r where c: "?s = c # r" "item_start c" by (rule diag_text_start [OF assms(2)])
  have "trim ?s = ?s"
    using assms(1) c item_start_shape [OF c(2)] diag_text_last [OF assms(2)] by (intro trim_ascii) simp_all
  moreover have "strip_prefix_ci ?s ''Integer('' = Some None"
  proof (cases "8 \<le> length ?s")
    case True
    have "lower_text (take 8 ?s) \<noteq> lower_text ''Integer(''"
    proof -
      have "ascii_lower (CHR ''I'') = CHR ''i''" by code_simp
      then show ?thesis using item_start_shape [OF c(2)] by (simp add: c(1) lower_text_def)
    qed
    then show ?thesis
      using True char_boundary_ascii [OF assms(1), of 8] by (simp add: strip_prefix_ci_def eq_ignore_ascii_case_def eval_nat_numeral)
  qed (simp add: strip_prefix_ci_def)
  ultimately show ?thesis by (simp add: parse_integer_segment_def integer_segment_loop.simps [of ?s])
qed

lemma unquoted: "c \<noteq> CHR 0x22 \<Longrightarrow> strip_debug_quotes lib (c # r) = None"
  by (simp add: strip_debug_quotes_def parse_text_def quote_def del: diag_item.simps)

lemma classify_int:
  assumes "writable (DInt n)" "n \<le> int u64_max"
  shows "classify_segment lib (diag_text (DInt n)) = Some (key_segment (DInt n))"
proof -
  let ?s = "diag_text (DInt n)"
  obtain c r where c: "?s = c # r" "item_start c" by (rule diag_text_start [OF assms(1)])
  have integer: "parse_integer_segment ?s = Some (Some n)"
    using assms(1) integer_segment_plain [OF _ assms(1)] by (simp add: parse_signed_decimal)
  have "is_digit c \<or> c = CHR ''-''"
  proof (cases "n < 0")
    case True
    with c(1) show ?thesis by (simp add: signed_decimal_def)
  next
    case False
    obtain d ds where "decimal (nat n) = d # ds" "is_digit d" by (rule decimal_Cons)
    with c(1) False show ?thesis by (simp add: signed_decimal_def)
  qed
  then have "c \<noteq> CHR 0x22" "c \<noteq> CHR ''.''" by (auto simp: is_digit_range)
  then have quoted: "strip_debug_quotes lib ?s = None" and named: "?s \<noteq> UNNAMED_ENTRY"
    unfolding c(1) UNNAMED_ENTRY_def by (blast intro: unquoted, blast)
  show ?thesis
  proof (cases "n < 0")
    case True
    then have minus: "\<exists>c \<in> set ?s. \<not> is_digit c" "hd ?s \<noteq> CHR ''+''" by (simp_all add: signed_decimal_def)
    have "parse_usize ?s = None"
      using minus(1) c(1) minus(2) by (intro no_usize) (simp_all only: list.distinct not_False_eq_True)
    with True integer quoted named show ?thesis by (simp add: classify_segment_def key_segment_def)
  next
    case False
    then have small: "nat n < 2 ^ 64" using assms(2) by (simp add: u64_max_def)
    then have "parse_usize ?s = (if nat n \<le> usize_max then Some (nat n) else None)"
    proof -
      have "unat (of_nat (nat n) :: u64) = nat n"
        using small by (subst unat_of_nat) (simp add: take_bit_eq_mod)
      moreover have "parse_u64 ?s = Some (of_nat (nat n))"
        using False parse_u64_decimal [OF small] by (simp add: signed_decimal_def)
      ultimately show ?thesis by (simp only: parse_usize_def option.case)
    qed
    with False integer quoted named show ?thesis
      by (simp add: classify_segment_def key_segment_def nat_le_iff)
  qed
qed


lemma classify_text:
  assumes "\<And>b. fl_hex_decode lib (hex_encode b) = Inr b" "writable (DText t)"
  shows "classify_segment lib (diag_text (DText t)) = Some (key_segment (DText t))"
proof -
  let ?s = "diag_text (DText t)"
  have c: "?s = CHR 0x22 # escaped t @ quote" by (simp add: quote_def)
  have "reads (diag_item lib (Suc MAX_DIAG_DEPTH)) (DText t)"
    by (intro diag_item_reads assms) simp
  then have "diag_item lib (Suc MAX_DIAG_DEPTH) ?s = Some (DText t, [])"
    by (rule readsD) (use skip_ws_diag_text [OF assms(2), of "[]"] in
        \<open>simp_all add: utf8_text_def del: diag_text.simps\<close>)
  moreover have "take 1 ?s = quote" by (simp add: quote_def)
  ultimately have "strip_debug_quotes lib ?s = Some t"
    by (simp add: strip_debug_quotes_def parse_text_def del: diag_item.simps diag_text.simps)
  moreover have "parse_usize ?s = None"
    unfolding c by (rule no_usize) (simp_all add: is_digit_range)
  moreover have "?s \<noteq> UNNAMED_ENTRY" by (simp add: c UNNAMED_ENTRY_def del: diag_text.simps)
  ultimately show ?thesis by (simp add: classify_segment_def key_segment_def del: diag_text.simps)
qed

lemma no_integer_key:
  assumes "ascii (diag_text x)" "writable x" "\<forall>n. x \<noteq> DInt n"
  shows "parse_integer_segment (diag_text x) = Some None"
proof -
  obtain c r where c: "diag_text x = c # r" "item_start c" by (rule diag_text_start [OF assms(2)])
  have "c \<noteq> CHR ''+''" using item_start_shape [OF c(2)] by simp
  moreover have "c \<noteq> CHR ''-''"
  proof (cases x)
    case (DTag t y)
    obtain d ds where "decimal (unat t) = d # ds" "is_digit d" by (rule decimal_Cons)
    with DTag c(1) show ?thesis by auto
  next
    case (DBool b)
    with c(1) show ?thesis by (cases b) auto
  qed (use assms(2,3) c(1) in \<open>auto simp: quote_def\<close>)
  ultimately have "parse_i128 (diag_text x) = parse_digits False 0 (diag_text x)" by (simp add: c(1))
  then show ?thesis
    using parse_digits_Inl [OF not_plain_number [OF assms(2,3)], of False 0] integer_segment_plain [OF assms(1,2)]
    by fastforce
qed

text \<open>What every other key is classified by.\<close>

definition other_segment :: "float_library \<Rightarrow> string \<Rightarrow> segment" where
  "other_segment lib seg =
     (case parse_base16_segment lib seg of Some b \<Rightarrow> BytesKey b | None \<Rightarrow>
       if seg = ''true'' then BoolKey True
       else if seg = ''false'' then BoolKey False
       else if seg = ''null'' then NullKey
       else
         (case parse_float_segment lib seg of Some f \<Rightarrow> FloatKey f | None \<Rightarrow>
           (case parse_composite lib seg of Some item \<Rightarrow> CompositeKey item | None \<Rightarrow> Opaque)))"

lemma classify_other:
  assumes "ascii (diag_text x)" "writable x" "\<forall>n. x \<noteq> DInt n" "\<forall>t. x \<noteq> DText t"
  shows "classify_segment lib (diag_text x) = Some (other_segment lib (diag_text x))"
proof -
  obtain c r where c: "diag_text x = c # r" "item_start c" by (rule diag_text_start [OF assms(2)])
  have "c \<noteq> CHR 0x22"
  proof (cases x)
    case (DTag t y)
    obtain d ds where "decimal (unat t) = d # ds" "is_digit d" by (rule decimal_Cons)
    with DTag c(1) show ?thesis by auto
  next
    case (DBool b)
    with c(1) show ?thesis by (cases b) auto
  qed (use assms(2-4) c(1) in auto)
  then have "strip_debug_quotes lib (diag_text x) = None" by (simp add: c(1) unquoted)
  moreover have "parse_usize (diag_text x) = None"
    using not_plain_number [OF assms(2,3)] c item_start_shape [OF c(2)] by (intro no_usize) simp_all
  moreover have "diag_text x \<noteq> UNNAMED_ENTRY"
    using item_start_plain [OF c(2)] by (simp add: c(1) UNNAMED_ENTRY_def)
  ultimately show ?thesis
    using no_integer_key [OF assms(1-3)] by (simp add: classify_segment_def other_segment_def)
qed

lemma base16_other: "c \<noteq> CHR ''h'' \<Longrightarrow> parse_base16_segment lib (c # r) = None"
  by (simp add: parse_base16_segment_def eat_literal_def)

lemma base16_bytes:
  assumes "\<And>b. fl_hex_decode lib (hex_encode b) = Inr b"
  shows "parse_base16_segment lib (diag_text (DBytes b)) = Some b"
proof -
  have "strip_suffix [CHR 0x27] (hex_encode b @ [CHR 0x27]) = Some (hex_encode b)"
    by (simp add: strip_suffix_def)
  then show ?thesis using assms by (simp add: parse_base16_segment_def)
qed

lemma float_other:
  assumes "float_texts lib" "\<exists>c \<in> set s. c \<in> {CHR ''('', CHR ''['', CHR ''{''}"
  shows "parse_float_segment lib s = None"
  using assms unfolding parse_float_segment_def float_texts_def
  by (cases "fl_parse lib s") (auto simp: Let_def)

lemma classify_composite:
  assumes law: "\<And>b. fl_hex_decode lib (hex_encode b) = Inr b" and floats: "float_texts lib"
    and x: "composite x" "writable x" "diag_depth x \<le> MAX_DIAG_DEPTH"
  shows "other_segment lib (diag_text x) = CompositeKey x"
proof -
  obtain c r where c: "diag_text x = c # r" "c \<noteq> CHR ''h''" "c \<notin> {CHR ''t'', CHR ''f'', CHR ''n''}"
  proof (cases x)
    case (DTag t y)
    obtain d ds where "decimal (unat t) = d # ds" "is_digit d" by (rule decimal_Cons)
    with DTag that show ?thesis by auto
  qed (use x that in \<open>auto simp: composite_def\<close>)
  have "\<exists>c \<in> set (diag_text x). c \<in> {CHR ''('', CHR ''['', CHR ''{''}"
    using x(1) by (cases x) (auto simp: composite_def)
  from float_other [OF floats this] have "parse_float_segment lib (diag_text x) = None" .
  moreover have "diag_text x \<notin> {''true'', ''false'', ''null''}" using c by auto
  moreover have "parse_base16_segment lib (diag_text x) = None" unfolding c(1) using c(2) by (rule base16_other)
  ultimately show ?thesis
    using composite_round_trip [OF law x] by (simp add: other_segment_def)
qed

theorem classify_key:
  assumes law: "\<And>b. fl_hex_decode lib (hex_encode b) = Inr b" and floats: "float_texts lib"
    and x: "location_key x"
  shows "classify_segment lib (diag_text x) = Some (key_segment x)"
proof -
  have w: "writable x" and depth: "diag_depth x \<le> MAX_DIAG_DEPTH" using x by (simp_all add: location_key_def)
  have other: "classify_segment lib (diag_text x) = Some (other_segment lib (diag_text x))"
    if "\<forall>n. x \<noteq> DInt n" "\<forall>t. x \<noteq> DText t"
    using x w that by (intro classify_other) (auto simp: location_key_def split: diag.splits)
  have comp: "classify_segment lib (diag_text x) = Some (CompositeKey x)" if "composite x"
    using other classify_composite [OF law floats that w depth] that by (cases x) (simp_all add: composite_def)
  show ?thesis
  proof (cases x)
    case (DInt n)
    with w x classify_int [of n lib] show ?thesis by (simp add: location_key_def del: diag_text.simps)
  next
    case (DText t)
    with w classify_text [OF law, of t] show ?thesis by (simp del: diag_text.simps)
  next
    case (DBytes b)
    with other base16_bytes [OF law, of b] show ?thesis
      by (simp add: other_segment_def key_segment_def del: diag_text.simps)
  next
    case (DBool b)
    with other show ?thesis
      by (cases b) (simp_all add: other_segment_def key_segment_def base16_other)
  next
    case DNull
    with other show ?thesis by (simp add: other_segment_def key_segment_def base16_other)
  qed (use w comp in \<open>simp_all add: composite_def key_segment_def del: diag_text.simps\<close>)
qed

theorem keys_read_back:
  assumes "\<And>b. fl_hex_decode lib (hex_encode b) = Inr b" "float_texts lib"
    "\<And>x. x \<in> set xs \<Longrightarrow> location_key x"
  shows "classified_segments lib (join_slash (map diag_text xs)) =
    Some (map (\<lambda>x. (diag_text x, key_segment x)) xs)"
proof -
  have "diag_text x \<noteq> []" if "x \<in> set xs" for x
    using assms(3) [OF that] diag_text_not_Nil by (simp add: location_key_def)
  then have "split_location_segments (join_slash (map diag_text xs)) = map diag_text xs"
    by (intro split_joined) (auto simp: neutral_diag_text)
  moreover have "those (map (\<lambda>x. map_option (Pair (diag_text x)) (classify_segment lib (diag_text x))) xs) =
      Some (map (\<lambda>x. (diag_text x, key_segment x)) xs)"
    using assms(3)
  proof (induction xs)
    case (Cons x xs)
    then have "location_key x" by simp
    with Cons classify_key [OF assms(1,2), of x] show ?case by (simp del: diag_text.simps)
  qed simp
  ultimately show ?thesis by (simp add: classified_segments_def o_def del: diag_text.simps)
qed

end
