(* ===== verification/Witness_Inserter.thy ===== *)
theory Witness_Inserter
  imports Witness Std_Trim
begin

text \<open>
  Adding witnesses to a transaction (\<^verbatim>\<open>src/src/witness_inserter.rs\<close>). An input names
  witnesses in one of several encodings and shapes; what is read from it goes into the transaction
  the serialization library holds, of type \<open>'tx\<close>. A bootstrap witness, of type \<open>'boot\<close>, is
  only handed on.
\<close>

subsection \<open>Witnesses and the library\<close>

record 'boot extracted =
  ex_vkeys :: "vkey_witness list"
  ex_bootstraps :: "'boot list"

definition is_empty :: "'boot extracted \<Rightarrow> bool" where
  "is_empty e \<longleftrightarrow> ex_vkeys e = [] \<and> ex_bootstraps e = []"

record 'boot signer_set =
  sw_vkeys :: "vkey_witness list option"
  sw_bootstraps :: "'boot list option"

text \<open>
  What the code calls: the readers of JSON and base64, the library's readers and the operations
  of its transaction, and the items of the array the bytes hold as \<^verbatim>\<open>ciborium\<close> reads them,
  each with whether it is an integer and its bytes when written out.
\<close>

record ('tx, 'boot) inserter_library =
  il_json :: "string \<Rightarrow> string + json"
  il_base64 :: "string \<Rightarrow> bytes option"
  il_base64_url_safe :: "string \<Rightarrow> bytes option"
  il_array :: "bytes \<Rightarrow> (bool \<times> bytes option) list option"
  il_transaction :: "bytes \<Rightarrow> string + 'tx"
  il_witness_set :: "bytes \<Rightarrow> string + 'boot signer_set"
  il_vkey :: "bytes \<Rightarrow> string + vkey_witness"
  il_bootstrap :: "bytes \<Rightarrow> string + 'boot"
  il_hash :: "'tx \<Rightarrow> bytes"
  il_witnesses :: "'tx \<Rightarrow> 'boot signer_set"
  il_add_vkey :: "'tx \<Rightarrow> vkey_witness \<Rightarrow> 'tx"
  il_add_bootstrap :: "'tx \<Rightarrow> 'boot \<Rightarrow> 'tx"
  il_hex :: "'tx \<Rightarrow> string"

text \<open>The gate of the readers, \<open>well_formed_error\<close> its decoder.\<close>

type_synonym gate = "bytes \<Rightarrow> decode_error option"

subsection \<open>The text of an input\<close>

definition decode_input_to_bytes ::
  "csl \<Rightarrow> ('tx, 'boot) inserter_library \<Rightarrow> string \<Rightarrow> string + bytes" where
  "decode_input_to_bytes cs il input =
     (let trimmed = trim input in
      if trimmed = [] then Inl ''empty witness input''
      else if take 1 trimmed = ''{'' then
        (case il_json il trimmed of
           Inl e \<Rightarrow> Inl (''invalid JSON witness envelope: '' @ e)
         | Inr j \<Rightarrow>
             (case Option.bind (json_get j ''cborHex'') json_as_str of
                None \<Rightarrow> Inl ''JSON witness envelope has no string `cborHex` field''
              | Some cbor_hex \<Rightarrow>
                  (case cs_hex_decode cs (trim cbor_hex) of
                     Inl e \<Rightarrow> Inl (''invalid hex in `cborHex`: '' @ e)
                   | Inr bs \<Rightarrow> Inr bs)))
      else
        (case cs_hex_decode cs trimmed of
           Inr bs \<Rightarrow> Inr bs
         | Inl _ \<Rightarrow>
             (case il_base64 il trimmed of
                Some bs \<Rightarrow> Inr bs
              | None \<Rightarrow>
                  (case il_base64_url_safe il trimmed of
                     Some bs \<Rightarrow> Inr bs
                   | None \<Rightarrow>
                       Inl ''witness input is neither valid hex, base64 nor a JSON envelope''))))"

subsection \<open>The shapes\<close>

definition witnesses_from_set :: "'boot signer_set \<Rightarrow> 'boot extracted" where
  "witnesses_from_set ws =
     \<lparr>ex_vkeys = (case sw_vkeys ws of Some xs \<Rightarrow> xs | None \<Rightarrow> []),
      ex_bootstraps = (case sw_bootstraps ws of Some xs \<Rightarrow> xs | None \<Rightarrow> [])\<rparr>"

definition some_witnesses :: "'boot signer_set \<Rightarrow> 'boot extracted option" where
  "some_witnesses ws =
     (let e = witnesses_from_set ws in if is_empty e then None else Some e)"

definition try_decode_witnesses ::
  "csl \<Rightarrow> gate \<Rightarrow> ('tx, 'boot) inserter_library \<Rightarrow> bytes \<Rightarrow> 'boot extracted option" where
  "try_decode_witnesses cs well_formed_error il bs =
     (let admits = (\<lambda>shape. check_cbor (cs_minicbor cs) well_formed_error bs shape = Inr ());
          from_set =
            (if admits WitnessSet
             then (case il_witness_set il bs of Inr ws \<Rightarrow> some_witnesses ws | Inl _ \<Rightarrow> None) else None);
          from_tx =
            (if admits Transaction
             then (case il_transaction il bs of Inr tx \<Rightarrow> some_witnesses (il_witnesses il tx) | Inl _ \<Rightarrow> None)
             else None)
      in case from_set of
           Some e \<Rightarrow> Some e
         | None \<Rightarrow>
             (case from_tx of
                Some e \<Rightarrow> Some e
              | None \<Rightarrow>
                  if \<not> admits csl_shape.Item then None
                  else
                    (case il_vkey il bs of
                       Inr v \<Rightarrow> Some \<lparr>ex_vkeys = [v], ex_bootstraps = []\<rparr>
                     | Inl _ \<Rightarrow>
                         (case il_bootstrap il bs of
                            Inr b \<Rightarrow> Some \<lparr>ex_vkeys = [], ex_bootstraps = [b]\<rparr>
                          | Inl _ \<Rightarrow> None))))"

definition unwrap_cli_key_witness ::
  "('tx, 'boot) inserter_library \<Rightarrow> bytes \<Rightarrow> bytes option" where
  "unwrap_cli_key_witness il bs =
     (if MAX_CSL_NESTING_DEPTH < cbor_nesting_depth_capped bs MAX_CSL_NESTING_DEPTH then None
      else
        (case il_array il bs of
           Some [tag, witness] \<Rightarrow> if fst tag then snd witness else None
         | _ \<Rightarrow> None))"

definition extract_witnesses_from_bytes ::
  "csl \<Rightarrow> gate \<Rightarrow> ('tx, 'boot) inserter_library \<Rightarrow> bytes \<Rightarrow> string + 'boot extracted" where
  "extract_witnesses_from_bytes cs well_formed_error il bs =
     (case try_decode_witnesses cs well_formed_error il bs of
        Some e \<Rightarrow> Inr e
      | None \<Rightarrow>
          (case Option.bind (unwrap_cli_key_witness il bs) (try_decode_witnesses cs well_formed_error il) of
             Some e \<Rightarrow> Inr e
           | None \<Rightarrow>
               Inl (''could not decode input as a vkey witness, bootstrap witness, witness set or ''
                 @ ''transaction'')))"

definition extract_witnesses ::
  "csl \<Rightarrow> gate \<Rightarrow> ('tx, 'boot) inserter_library \<Rightarrow> string \<Rightarrow> string + 'boot extracted" where
  "extract_witnesses cs well_formed_error il input =
     (case decode_input_to_bytes cs il input of
        Inl e \<Rightarrow> Inl e
      | Inr bs \<Rightarrow> extract_witnesses_from_bytes cs well_formed_error il bs)"

subsection \<open>The exports\<close>

definition parse_fixed_transaction ::
  "csl \<Rightarrow> gate \<Rightarrow> ('tx, 'boot) inserter_library \<Rightarrow> string \<Rightarrow> string + 'tx" where
  "parse_fixed_transaction cs well_formed_error il tx_hex =
     (case check_cbor_hex cs well_formed_error tx_hex Transaction of
        Inl e \<Rightarrow> Inl (''Failed to parse transaction: '' @ e)
      | Inr bs \<Rightarrow>
          (case il_transaction il bs of
             Inl e \<Rightarrow> Inl (''Failed to parse transaction: '' @ transaction_parse_failure bs e)
           | Inr tx \<Rightarrow> Inr tx))"

definition apply_witnesses ::
  "('tx, 'boot) inserter_library \<Rightarrow> 'tx \<Rightarrow> 'boot extracted \<Rightarrow> 'tx" where
  "apply_witnesses il tx e =
     foldl (il_add_bootstrap il) (foldl (il_add_vkey il) tx (ex_vkeys e)) (ex_bootstraps e)"

text \<open>The index of an input as \<open>{}\<close> writes it, in the message that refuses it.\<close>

definition failure_at :: "string \<Rightarrow> nat \<Rightarrow> string \<Rightarrow> string" where
  "failure_at what i e = ''Failed to parse '' @ what @ '' at index '' @ decimal i @ '': '' @ e"

fun add_inputs ::
  "csl \<Rightarrow> gate \<Rightarrow> ('tx, 'boot) inserter_library \<Rightarrow> nat \<Rightarrow> string list \<Rightarrow> 'tx \<Rightarrow> string + 'tx" where
  "add_inputs cs well_formed_error il i [] tx = Inr tx"
| "add_inputs cs well_formed_error il i (input # rest) tx =
     (case extract_witnesses cs well_formed_error il input of
        Inl e \<Rightarrow> Inl (failure_at ''witness'' i e)
      | Inr e \<Rightarrow> add_inputs cs well_formed_error il (Suc i) rest (apply_witnesses il tx e))"

definition add_witnesses_to_tx ::
  "csl \<Rightarrow> gate \<Rightarrow> ('tx, 'boot) inserter_library \<Rightarrow> string \<Rightarrow> string list \<Rightarrow> string + string" where
  "add_witnesses_to_tx cs well_formed_error il tx_hex inputs =
     (case parse_fixed_transaction cs well_formed_error il tx_hex of
        Inl e \<Rightarrow> Inl e
      | Inr tx \<Rightarrow>
          (case add_inputs cs well_formed_error il 0 inputs tx of
             Inl e \<Rightarrow> Inl e | Inr tx' \<Rightarrow> Inr (il_hex il tx')))"

fun add_vkeys ::
  "csl \<Rightarrow> gate \<Rightarrow> ('tx, 'boot) inserter_library \<Rightarrow> nat \<Rightarrow> string list \<Rightarrow> 'tx \<Rightarrow> string + 'tx" where
  "add_vkeys cs well_formed_error il i [] tx = Inr tx"
| "add_vkeys cs well_formed_error il i (text # rest) tx =
     (case check_cbor_hex cs well_formed_error text csl_shape.Item of
        Inl e \<Rightarrow> Inl (failure_at ''vkey witness'' i e)
      | Inr bs \<Rightarrow>
          (case il_vkey il bs of
             Inl e \<Rightarrow> Inl (failure_at ''vkey witness'' i e)
           | Inr v \<Rightarrow> add_vkeys cs well_formed_error il (Suc i) rest (il_add_vkey il tx v)))"

definition add_vkey_witnesses_to_tx ::
  "csl \<Rightarrow> gate \<Rightarrow> ('tx, 'boot) inserter_library \<Rightarrow> string \<Rightarrow> string list \<Rightarrow> string + string" where
  "add_vkey_witnesses_to_tx cs well_formed_error il tx_hex vkeys =
     (case parse_fixed_transaction cs well_formed_error il tx_hex of
        Inl e \<Rightarrow> Inl e
      | Inr tx \<Rightarrow>
          (case add_vkeys cs well_formed_error il 0 vkeys tx of
             Inl e \<Rightarrow> Inl e | Inr tx' \<Rightarrow> Inr (il_hex il tx')))"

definition add_witness_set_to_tx ::
  "csl \<Rightarrow> gate \<Rightarrow> ('tx, 'boot) inserter_library \<Rightarrow> string \<Rightarrow> string \<Rightarrow> string + string" where
  "add_witness_set_to_tx cs well_formed_error il tx_hex set_hex =
     (case parse_fixed_transaction cs well_formed_error il tx_hex of
        Inl e \<Rightarrow> Inl e
      | Inr tx \<Rightarrow>
          (case check_cbor_hex cs well_formed_error set_hex WitnessSet of
             Inl e \<Rightarrow> Inl (''Failed to parse witness set: '' @ e)
           | Inr bs \<Rightarrow>
               (case il_witness_set il bs of
                  Inl e \<Rightarrow> Inl (''Failed to parse witness set: '' @ e)
                | Inr ws \<Rightarrow> Inr (il_hex il (apply_witnesses il tx (witnesses_from_set ws))))))"

subsection \<open>The report\<close>

record add_witnesses_report =
  aw_tx_hex :: string
  aw_added :: nat
  aw_duplicates :: nat
  aw_invalid :: nat
  aw_added_key_hashes :: "string list"

text \<open>The state of the loop: the transaction, the keys it holds, and what the report counts.\<close>

record 'tx inserting =
  is_tx :: 'tx
  is_present :: "bytes set"
  is_added :: nat
  is_duplicates :: nat
  is_invalid :: nat
  is_hashes :: "string list"

definition insert_vkey ::
  "witness_library \<Rightarrow> ('tx, 'boot) inserter_library \<Rightarrow> bytes \<Rightarrow> 'tx inserting \<Rightarrow> vkey_witness \<Rightarrow>
     'tx inserting" where
  "insert_vkey wl il tx_hash st v =
     (let pk = vw_public_key v in
      if \<not> wl_verify wl pk tx_hash (vw_signature v) then st\<lparr>is_invalid := is_invalid st + 1\<rparr>
      else if pk \<in> is_present st then st\<lparr>is_duplicates := is_duplicates st + 1\<rparr>
      else st\<lparr>is_present := insert pk (is_present st), is_tx := il_add_vkey il (is_tx st) v,
              is_added := is_added st + 1,
              is_hashes := is_hashes st @ [hex_encode (wl_key_hash wl pk)]\<rparr>)"

definition insert_bootstrap ::
  "('tx, 'boot) inserter_library \<Rightarrow> 'tx inserting \<Rightarrow> 'boot \<Rightarrow> 'tx inserting" where
  "insert_bootstrap il st b = st\<lparr>is_tx := il_add_bootstrap il (is_tx st) b\<rparr>"

definition insert_extracted ::
  "witness_library \<Rightarrow> ('tx, 'boot) inserter_library \<Rightarrow> bytes \<Rightarrow> 'tx inserting \<Rightarrow> 'boot extracted \<Rightarrow>
     'tx inserting" where
  "insert_extracted wl il tx_hash st e =
     foldl (insert_bootstrap il) (foldl (insert_vkey wl il tx_hash) st (ex_vkeys e)) (ex_bootstraps e)"

fun insert_inputs ::
  "csl \<Rightarrow> gate \<Rightarrow> witness_library \<Rightarrow> ('tx, 'boot) inserter_library \<Rightarrow> bytes \<Rightarrow> nat \<Rightarrow> string list \<Rightarrow>
     'tx inserting \<Rightarrow> string + 'tx inserting" where
  "insert_inputs cs well_formed_error wl il tx_hash i [] st = Inr st"
| "insert_inputs cs well_formed_error wl il tx_hash i (input # rest) st =
     (case extract_witnesses cs well_formed_error il input of
        Inl e \<Rightarrow> Inl (failure_at ''witness'' i e)
      | Inr e \<Rightarrow>
          insert_inputs cs well_formed_error wl il tx_hash (Suc i) rest
            (insert_extracted wl il tx_hash st e))"

definition present_keys :: "'boot signer_set \<Rightarrow> bytes set" where
  "present_keys ws = vw_public_key ` set (case sw_vkeys ws of Some xs \<Rightarrow> xs | None \<Rightarrow> [])"

definition inserting_into :: "('tx, 'boot) inserter_library \<Rightarrow> 'tx \<Rightarrow> 'tx inserting" where
  "inserting_into il tx =
     \<lparr>is_tx = tx, is_present = present_keys (il_witnesses il tx), is_added = 0, is_duplicates = 0,
      is_invalid = 0, is_hashes = []\<rparr>"

definition add_witnesses_with_report_internal ::
  "csl \<Rightarrow> gate \<Rightarrow> witness_library \<Rightarrow> ('tx, 'boot) inserter_library \<Rightarrow> string \<Rightarrow> string list \<Rightarrow>
     string + add_witnesses_report" where
  "add_witnesses_with_report_internal cs well_formed_error wl il tx_hex inputs =
     (case parse_fixed_transaction cs well_formed_error il tx_hex of
        Inl e \<Rightarrow> Inl e
      | Inr tx \<Rightarrow>
          map_sum id
            (\<lambda>st. \<lparr>aw_tx_hex = il_hex il (is_tx st), aw_added = is_added st,
                   aw_duplicates = is_duplicates st, aw_invalid = is_invalid st,
                   aw_added_key_hashes = is_hashes st\<rparr>)
            (insert_inputs cs well_formed_error wl il (il_hash il tx) 0 inputs (inserting_into il tx)))"

end
