(* ===== verification/Inserter_Facts.thy ===== *)
theory Inserter_Facts
  imports Witness_Inserter
begin

text \<open>
  What the report of added witnesses counts: of the keys the inputs offer, those that verify, and of
  these the first one for each key the transaction does not hold.
\<close>

subsection \<open>The keys that are new\<close>

definition verifies :: "witness_library \<Rightarrow> bytes \<Rightarrow> vkey_witness \<Rightarrow> bool" where
  "verifies wl h v \<longleftrightarrow> wl_verify wl (vw_public_key v) h (vw_signature v)"

fun new_vkeys :: "bytes set \<Rightarrow> vkey_witness list \<Rightarrow> vkey_witness list" where
  "new_vkeys held [] = []"
| "new_vkeys held (v # vs) =
     (if vw_public_key v \<in> held then new_vkeys held vs
      else v # new_vkeys (insert (vw_public_key v) held) vs)"

lemma new_vkeys_keys: "held \<union> vw_public_key ` set (new_vkeys held vs) = held \<union> vw_public_key ` set vs"
proof (induction held vs rule: new_vkeys.induct)
  case (2 held v vs)
  show ?case
  proof (cases "vw_public_key v \<in> held")
    case True
    then show ?thesis using "2.IH"(1) by auto
  next
    case False
    then show ?thesis using "2.IH"(2) by simp
  qed
qed simp

lemma new_vkeys_sub: "v \<in> set (new_vkeys held vs) \<Longrightarrow> v \<in> set vs \<and> vw_public_key v \<notin> held"
  by (induction held vs rule: new_vkeys.induct) (auto split: if_splits)

lemma new_vkeys_distinct: "distinct (map vw_public_key (new_vkeys held vs))"
proof (induction held vs rule: new_vkeys.induct)
  case (2 held v vs)
  have "vw_public_key v \<notin> vw_public_key ` set (new_vkeys (insert (vw_public_key v) held) vs)"
    using new_vkeys_sub by fastforce
  with 2 show ?case by simp
qed simp

lemma new_vkeys_none: "vw_public_key ` set vs \<subseteq> held \<Longrightarrow> new_vkeys held vs = []"
  by (induction held vs rule: new_vkeys.induct) auto

lemma new_vkeys_append:
  "new_vkeys held (us @ vs) = new_vkeys held us @ new_vkeys (held \<union> vw_public_key ` set us) vs"
  by (induction held us rule: new_vkeys.induct) (auto simp: insert_absorb)

lemma new_vkeys_length: "length (new_vkeys held vs) \<le> length vs"
  by (induction held vs rule: new_vkeys.induct) auto

text \<open>What each input adds to a transaction that holds these keys.\<close>

fun batches :: "(vkey_witness \<Rightarrow> bool) \<Rightarrow> bytes set \<Rightarrow> 'boot extracted list \<Rightarrow> 'boot extracted list" where
  "batches ok held [] = []"
| "batches ok held (e # es) =
     (let vs = new_vkeys held (filter ok (ex_vkeys e))
      in e\<lparr>ex_vkeys := vs\<rparr> # batches ok (held \<union> vw_public_key ` set vs) es)"

definition offered :: "'boot extracted list \<Rightarrow> vkey_witness list" where
  "offered es = concat (map ex_vkeys es)"

lemma offered_batches: "offered (batches ok held es) = new_vkeys held (filter ok (offered es))"
proof (induction ok held es rule: batches.induct)
  case (2 ok held e es)
  then show ?case
    by (simp add: Let_def offered_def new_vkeys_append new_vkeys_keys)
qed (simp add: offered_def)

subsection \<open>The loop\<close>

text \<open>What a run of the loop over \<open>vs\<close> does to the state, and to the counts of the report.\<close>

definition tallied :: "witness_library \<Rightarrow> bytes \<Rightarrow> vkey_witness list \<Rightarrow> 'tx inserting \<Rightarrow> 'tx inserting \<Rightarrow> bool" where
  "tallied wl h vs st st' \<longleftrightarrow>
     (let good = filter (verifies wl h) vs; new = new_vkeys (is_present st) good in
      is_present st' = is_present st \<union> vw_public_key ` set good \<and>
      is_added st' = is_added st + length new \<and>
      is_added st' + is_duplicates st' = is_added st + is_duplicates st + length good \<and>
      is_added st' + is_duplicates st' + is_invalid st' =
        is_added st + is_duplicates st + is_invalid st + length vs \<and>
      is_hashes st' = is_hashes st @ map (\<lambda>v. hex_encode (wl_key_hash wl (vw_public_key v))) new)"

lemma tallied_nil: "tallied wl h [] st st"
  by (simp add: tallied_def)

lemma tallied_append:
  assumes "tallied wl h us st st1" "tallied wl h vs st1 st2"
  shows "tallied wl h (us @ vs) st st2"
  using assms by (simp add: tallied_def Let_def new_vkeys_append image_Un Un_assoc)

lemma tallied_vkey: "tallied wl h [v] st (insert_vkey wl il h st v)"
  by (simp add: tallied_def insert_vkey_def verifies_def insert_absorb Let_def)

lemma tallied_vkeys: "tallied wl h vs st (foldl (insert_vkey wl il h) st vs)"
proof (induction vs arbitrary: st)
  case (Cons v vs)
  from tallied_append [OF tallied_vkey Cons.IH] show ?case by simp
qed (simp add: tallied_nil)

lemma tallied_bootstraps:
  "tallied wl h vs st st' \<Longrightarrow> tallied wl h vs st (foldl (insert_bootstrap il) st' bs)"
  by (induction bs arbitrary: st') (simp_all add: insert_bootstrap_def tallied_def)

lemma tallied_extracted: "tallied wl h (offered es) st (foldl (insert_extracted wl il h) st es)"
proof (induction es arbitrary: st)
  case (Cons e es)
  have "tallied wl h (ex_vkeys e) st (insert_extracted wl il h st e)"
    unfolding insert_extracted_def by (intro tallied_bootstraps tallied_vkeys)
  from tallied_append [OF this Cons.IH] show ?case by (simp add: offered_def)
qed (simp add: tallied_nil offered_def)

lemma insert_vkeys_tx:
  "is_tx (foldl (insert_vkey wl il h) st vs) =
     foldl (il_add_vkey il) (is_tx st) (new_vkeys (is_present st) (filter (verifies wl h) vs))"
  by (induction vs arbitrary: st) (simp_all add: insert_vkey_def verifies_def Let_def)

lemma insert_bootstraps_tx:
  "is_tx (foldl (insert_bootstrap il) st bs) = foldl (il_add_bootstrap il) (is_tx st) bs"
  by (induction bs arbitrary: st) (simp_all add: insert_bootstrap_def)

lemma insert_extracted_tx:
  "is_tx (foldl (insert_extracted wl il h) st es) =
     foldl (apply_witnesses il) (is_tx st) (batches (verifies wl h) (is_present st) es)"
proof (induction es arbitrary: st)
  case (Cons e es)
  have present: "is_present (insert_extracted wl il h st e) =
      is_present st \<union> vw_public_key ` set (new_vkeys (is_present st) (filter (verifies wl h) (ex_vkeys e)))"
    using tallied_bootstraps [OF tallied_vkeys, of wl h "ex_vkeys e" st il il "ex_bootstraps e"]
    unfolding new_vkeys_keys by (simp add: tallied_def insert_extracted_def Let_def)
  have "is_tx (insert_extracted wl il h st e) = apply_witnesses il (is_tx st)
      (e\<lparr>ex_vkeys := new_vkeys (is_present st) (filter (verifies wl h) (ex_vkeys e))\<rparr>)"
    by (simp add: insert_extracted_def insert_vkeys_tx insert_bootstraps_tx apply_witnesses_def)
  then show ?case by (simp add: Cons.IH present Let_def)
qed simp

text \<open>The inputs are read one by one, and the first that cannot be is the error.\<close>

lemma insert_inputs_Inr:
  "insert_inputs cs gt wl il h i inputs st = Inr st' \<longleftrightarrow>
     (\<exists>es. map (extract_witnesses cs gt il) inputs = map Inr es \<and>
           st' = foldl (insert_extracted wl il h) st es)"
proof (induction inputs arbitrary: i st)
  case (Cons input inputs)
  then show ?case by (auto split: sum.split simp: map_eq_Cons_conv) (metis list.simps(9) foldl_Cons)+
qed auto

lemma insert_inputs_Inl:
  "insert_inputs cs gt wl il h i inputs st = Inl err \<longleftrightarrow>
     (\<exists>n e es. n < length inputs \<and> extract_witnesses cs gt il (inputs ! n) = Inl e \<and>
        map (extract_witnesses cs gt il) (take n inputs) = map Inr es \<and>
        err = failure_at ''witness'' (i + n) e)"
proof (induction inputs arbitrary: i st)
  case (Cons input inputs)
  show ?case
  proof (cases "extract_witnesses cs gt il input")
    case (Inl e)
    have "(\<exists>n e' es. n < length (input # inputs) \<and> extract_witnesses cs gt il ((input # inputs) ! n) = Inl e' \<and>
        map (extract_witnesses cs gt il) (take n (input # inputs)) = map Inr es \<and>
        err = failure_at ''witness'' (i + n) e') \<longleftrightarrow> err = failure_at ''witness'' i e" (is "?L = ?R")
    proof
      assume ?L
      then obtain n e' es where n: "extract_witnesses cs gt il ((input # inputs) ! n) = Inl e'"
        "map (extract_witnesses cs gt il) (take n (input # inputs)) = map Inr es"
        "err = failure_at ''witness'' (i + n) e'" by blast
      have "n = 0" using n(2) Inl by (cases n) auto
      with n Inl show ?R by simp
    next
      assume ?R
      with Inl show ?L by (intro exI [of _ 0]) simp
    qed
    with Inl show ?thesis by auto
  next
    case (Inr a)
    let ?ext = "extract_witnesses cs gt il"
    have "(\<exists>n e es. n < length (input # inputs) \<and> ?ext ((input # inputs) ! n) = Inl e \<and>
        map ?ext (take n (input # inputs)) = map Inr es \<and> err = failure_at ''witness'' (i + n) e) \<longleftrightarrow>
      (\<exists>n e es. n < length inputs \<and> ?ext (inputs ! n) = Inl e \<and>
        map ?ext (take n inputs) = map Inr es \<and> err = failure_at ''witness'' (Suc i + n) e)" (is "?L = ?R")
    proof
      assume ?L
      then obtain n e es where n: "n < length (input # inputs)" "?ext ((input # inputs) ! n) = Inl e"
        "map ?ext (take n (input # inputs)) = map Inr es" "err = failure_at ''witness'' (i + n) e" by blast
      obtain m where "n = Suc m" using n(2) Inr by (cases n) auto
      with n Inr show ?R by (intro exI [of _ m] exI [of _ e]) (auto simp: map_eq_Cons_conv)
    next
      assume ?R
      then obtain n e es where n: "n < length inputs" "?ext (inputs ! n) = Inl e"
        "map ?ext (take n inputs) = map Inr es" "err = failure_at ''witness'' (Suc i + n) e" by blast
      then show ?L
        using Inr by (intro exI [of _ "Suc n"] exI [of _ e]) (auto intro!: exI [of _ "a # es"])
    qed
    with Inr Cons.IH [of "Suc i"] show ?thesis by simp
  qed
qed auto

subsection \<open>The report\<close>

definition all_read :: "csl \<Rightarrow> gate \<Rightarrow> ('tx, 'boot) inserter_library \<Rightarrow> string list \<Rightarrow> 'boot extracted list \<Rightarrow> bool" where
  "all_read cs gt il inputs es \<longleftrightarrow> map (extract_witnesses cs gt il) inputs = map Inr es"

lemma report_counts:
  assumes "add_witnesses_with_report_internal cs gt wl il tx_hex inputs = Inr r"
  obtains tx es where "parse_fixed_transaction cs gt il tx_hex = Inr tx" "all_read cs gt il inputs es"
    "aw_tx_hex r = il_hex il (foldl (apply_witnesses il) tx
       (batches (verifies wl (il_hash il tx)) (present_keys (il_witnesses il tx)) es))"
    "aw_added r = length (new_vkeys (present_keys (il_witnesses il tx))
       (filter (verifies wl (il_hash il tx)) (offered es)))"
    "aw_added r + aw_duplicates r = length (filter (verifies wl (il_hash il tx)) (offered es))"
    "aw_added r + aw_duplicates r + aw_invalid r = length (offered es)"
    "aw_added_key_hashes r = map (\<lambda>v. hex_encode (wl_key_hash wl (vw_public_key v)))
       (new_vkeys (present_keys (il_witnesses il tx)) (filter (verifies wl (il_hash il tx)) (offered es)))"
proof -
  obtain tx where tx: "parse_fixed_transaction cs gt il tx_hex = Inr tx"
    using assms by (auto simp: add_witnesses_with_report_internal_def split: sum.splits)
  obtain st where st: "insert_inputs cs gt wl il (il_hash il tx) 0 inputs (inserting_into il tx) = Inr st"
    and r: "r = \<lparr>aw_tx_hex = il_hex il (is_tx st), aw_added = is_added st,
      aw_duplicates = is_duplicates st, aw_invalid = is_invalid st, aw_added_key_hashes = is_hashes st\<rparr>"
    using assms tx
    by (cases "insert_inputs cs gt wl il (il_hash il tx) 0 inputs (inserting_into il tx)")
      (auto simp: add_witnesses_with_report_internal_def)
  obtain es where es: "all_read cs gt il inputs es"
    and st': "st = foldl (insert_extracted wl il (il_hash il tx)) (inserting_into il tx) es"
    using st unfolding insert_inputs_Inr all_read_def by blast
  have counts: "tallied wl (il_hash il tx) (offered es) (inserting_into il tx) st"
    unfolding st' by (rule tallied_extracted)
  have tx': "is_tx st = foldl (apply_witnesses il) tx
      (batches (verifies wl (il_hash il tx)) (present_keys (il_witnesses il tx)) es)"
    unfolding st' by (simp add: insert_extracted_tx inserting_into_def)
  show thesis
    by (rule that [OF tx es]) (use counts tx' in \<open>simp_all add: r inserting_into_def tallied_def Let_def\<close>)
qed

text \<open>Adding witnesses to a transaction that holds them already adds none.\<close>

lemma foldl_apply_keeps:
  assumes "\<And>tx v. il_hash il (il_add_vkey il tx v) = il_hash il tx"
    "\<And>tx b. il_hash il (il_add_bootstrap il tx b) = il_hash il tx"
  shows "il_hash il (foldl (apply_witnesses il) tx es) = il_hash il tx"
proof -
  have "il_hash il (foldl (il_add_vkey il) tx vs) = il_hash il tx" for tx vs
    by (induction vs arbitrary: tx) (simp_all add: assms)
  moreover have "il_hash il (foldl (il_add_bootstrap il) tx bs) = il_hash il tx" for tx bs
    by (induction bs arbitrary: tx) (simp_all add: assms)
  ultimately have "il_hash il (apply_witnesses il tx e) = il_hash il tx" for tx e
    by (simp add: apply_witnesses_def)
  then show ?thesis by (induction es arbitrary: tx) simp_all
qed

lemma foldl_apply_keys:
  assumes "\<And>tx v. present_keys (il_witnesses il (il_add_vkey il tx v)) =
      insert (vw_public_key v) (present_keys (il_witnesses il tx))"
    "\<And>tx b. present_keys (il_witnesses il (il_add_bootstrap il tx b)) = present_keys (il_witnesses il tx)"
  shows "present_keys (il_witnesses il (foldl (apply_witnesses il) tx es)) =
    present_keys (il_witnesses il tx) \<union> vw_public_key ` set (offered es)"
proof -
  have "present_keys (il_witnesses il (foldl (il_add_vkey il) tx vs)) =
      present_keys (il_witnesses il tx) \<union> vw_public_key ` set vs" for tx vs
    by (induction vs arbitrary: tx) (auto simp: assms)
  moreover have "present_keys (il_witnesses il (foldl (il_add_bootstrap il) tx bs)) =
      present_keys (il_witnesses il tx)" for tx bs
    by (induction bs arbitrary: tx) (simp_all add: assms)
  ultimately have "present_keys (il_witnesses il (apply_witnesses il tx e)) =
      present_keys (il_witnesses il tx) \<union> vw_public_key ` set (ex_vkeys e)" for tx e
    by (simp add: apply_witnesses_def)
  then show ?thesis by (induction es arbitrary: tx) (auto simp: offered_def)
qed

end
