(* ===== verification/Sample_Decoding.thy ===== *)
theory Sample_Decoding
  imports Location_Keys Sample_Validation Inserter_Facts
begin

text \<open>
  Concrete readers and libraries: a reader of \<^verbatim>\<open>CBOR\<close> headers and a hex decoder that do what
  theirs document, a float library that takes no text, and a transaction that is the list of its key
  witnesses.
\<close>

subsection \<open>Reading\<close>

definition sample_widen :: "arg_width \<Rightarrow> nat \<Rightarrow> u64" where
  "sample_widen = (\<lambda>w n. of_nat n)"

definition sample_reader :: cbor_reader where
  "sample_reader = plain_reader sample_widen"

definition sample_floats :: float_library where
  "sample_floats =
     \<lparr>fl_hex_decode = plain_hex_decode, fl_parse = \<lambda>s. None, fl_show = \<lambda>f. [], fl_of_int = of_int\<rparr>"

definition sample_location :: location_library where
  "sample_location =
     \<lparr>ll_floats = sample_floats, ll_reader = sample_reader, ll_max_rendered = 1024, ll_debug = id,
      ll_display = \<lambda>v. []\<rparr>"

lemma plain_hex_encode: "plain_hex_decode (hex_encode b) = Inr b"
proof (induction b)
  case (Cons x b)
  have digit: "plain_hex_digit (hex_digit n) = Some n" if "n < 16" for n
  proof -
    have "list_all (\<lambda>n. plain_hex_digit (hex_digit n) = Some n) [0..<16]" by code_simp
    with that show ?thesis by (simp add: list_all_iff)
  qed
  have "unat x < 256" using unsigned_less [of x, where 'a = nat] by simp
  then have "plain_hex_digit (hex_digit (unat x div 16)) = Some (unat x div 16)"
    "plain_hex_digit (hex_digit (unat x mod 16)) = Some (unat x mod 16)"
    by (simp_all add: digit)
  moreover have "hex_encode (x # b) = hex_digit (unat x div 16) # hex_digit (unat x mod 16) # hex_encode b"
    by (simp add: hex_encode_def)
  ultimately show ?case using Cons by simp
qed (simp add: hex_encode_def)

lemma sample_floats_hex [simp]: "fl_hex_decode sample_floats (hex_encode b) = Inr b"
  by (simp add: sample_floats_def plain_hex_encode)

lemma sample_floats_texts: "float_texts sample_floats"
  by (simp add: sample_floats_def float_texts_def)

subsection \<open>Adding witnesses\<close>

definition sample_inserter :: "(vkey_witness list, unit) inserter_library" where
  "sample_inserter =
     \<lparr>il_json = \<lambda>s. Inl [], il_base64 = \<lambda>s. None, il_base64_url_safe = \<lambda>s. None, il_array = \<lambda>bs. None,
      il_transaction = \<lambda>bs. Inr [],
      il_witness_set = \<lambda>bs. Inr \<lparr>sw_vkeys = Some [\<lparr>vw_public_key = [1], vw_signature = [9]\<rparr>],
        sw_bootstraps = None\<rparr>,
      il_vkey = \<lambda>bs. Inl [], il_bootstrap = \<lambda>bs. Inl [], il_hash = \<lambda>tx. [9],
      il_witnesses = \<lambda>tx. \<lparr>sw_vkeys = Some tx, sw_bootstraps = None\<rparr>,
      il_add_vkey = \<lambda>tx v. tx @ [v], il_add_bootstrap = \<lambda>tx b. tx, il_hex = \<lambda>tx. ''80''\<rparr>"

lemma sample_extracted:
  "extract_witnesses plain_csl (\<lambda>bs. None) sample_inserter ''80'' =
     Inr \<lparr>ex_vkeys = [\<lparr>vw_public_key = [1], vw_signature = [9]\<rparr>], ex_bootstraps = []\<rparr>"
proof -
  have "trim ''80'' = ''80''" by (rule trim_ascii) (simp_all add: ascii_white_def)
  then have "decode_input_to_bytes plain_csl sample_inserter ''80'' = Inr [0x80]"
    by (simp add: decode_input_to_bytes_def plain_csl_def)
  moreover have "shape_hazard [0x80] WitnessSet = None" by code_simp
  then have "check_cbor (cs_minicbor plain_csl) (\<lambda>bs. None) [0x80] WitnessSet = Inr ()"
    by (simp add: check_cbor_def check_cbor_within_ok nesting_verdict_def empty_array_nesting)
  ultimately show ?thesis
    by (simp add: extract_witnesses_def extract_witnesses_from_bytes_def try_decode_witnesses_def
        sample_inserter_def some_witnesses_def witnesses_from_set_def is_empty_def Let_def)
qed

lemma sample_report:
  "\<exists>r. add_witnesses_with_report_internal plain_csl (\<lambda>bs. None) plain_witnesses sample_inserter ''80''
       [''80'', ''80''] = Inr r \<and> aw_added r = 1 \<and> aw_duplicates r = 1"
proof -
  have "parse_fixed_transaction plain_csl (\<lambda>bs. None) sample_inserter ''80'' = Inr []"
    by (simp add: parse_fixed_transaction_def plain_gates sample_inserter_def)
  then show ?thesis
    by (simp add: add_witnesses_with_report_internal_def sample_extracted insert_extracted_def insert_vkey_def
        inserting_into_def present_keys_def Let_def)
      (simp add: sample_inserter_def plain_witnesses_def)
qed

end
