(* ===== verification/Tx_Signatures.thy ===== *)
theory Tx_Signatures
  imports Witness
begin

text \<open>
  Checking the signatures of a transaction or of a block's transactions
  (\<^verbatim>\<open>src/src/check_signatures.rs\<close>): those of the witness set, and that of a Catalyst
  registration in the metadata. A public key and a signature are their bytes.
\<close>

record check_result =
  ck_valid :: bool
  ck_tx_hash :: "string option"
  ck_invalid_catalyst_witnesses :: "string list"
  ck_invalid_vkey_witnesses :: "string list"

definition check_valid :: "string \<Rightarrow> check_result" where
  "check_valid tx_hash =
     \<lparr>ck_valid = True, ck_tx_hash = Some tx_hash, ck_invalid_catalyst_witnesses = [],
      ck_invalid_vkey_witnesses = []\<rparr>"

definition check_invalid :: "string \<Rightarrow> string list \<Rightarrow> string list \<Rightarrow> check_result" where
  "check_invalid tx_hash invalid_catalyst invalid_vkeys =
     \<lparr>ck_valid = False, ck_tx_hash = Some tx_hash, ck_invalid_catalyst_witnesses = invalid_catalyst,
      ck_invalid_vkey_witnesses = invalid_vkeys\<rparr>"

subsection \<open>The library\<close>

text \<open>Metadata: the value of each label it has.\<close>

datatype metadatum =
    MdMap "(metadatum \<times> metadatum) list"
  | MdList "metadatum list"
  | MdInt int
  | MdBytes bytes
  | MdText string

type_synonym metadata = "(u64 \<times> metadatum) list"

text \<open>A transaction with its hash: its witnesses' keys, and the metadata of its auxiliary data.\<close>

record signed_tx =
  st_hash :: bytes
  st_metadata :: "metadata option option"
  st_vkeys :: "vkey_witness list option"

text \<open>A block: its bodies' hashes, its witness sets, and the auxiliary data of an index.\<close>

record signed_block =
  sb_hashes :: "bytes list"
  sb_vkeys :: "vkey_witness list option list"
  sb_metadata :: "(nat \<times> metadata option) list"

record signature_library =
  sl_public_key :: "bytes \<Rightarrow> string + bytes"
  sl_signature :: "bytes \<Rightarrow> string + bytes"
  sl_verify :: "bytes \<Rightarrow> bytes \<Rightarrow> bytes \<Rightarrow> bool"
  sl_metadata_bytes :: "metadata \<Rightarrow> bytes"
  sl_blake2b_256 :: "bytes \<Rightarrow> bytes"
  sl_transaction :: "bytes \<Rightarrow> string + signed_tx"
  sl_block :: "bytes \<Rightarrow> string + signed_block"

type_synonym pub_key_signature = "bytes \<times> bytes"

subsection \<open>One signature\<close>

definition check_tx_signature ::
  "csl \<Rightarrow> signature_library \<Rightarrow> string \<Rightarrow> string \<Rightarrow> string \<Rightarrow> string + check_result" where
  "check_tx_signature cs sl tx_hash pub_key_hex signature_hex =
     (case cs_hex_decode cs pub_key_hex of
        Inl e \<Rightarrow> Inl e
      | Inr key_bytes \<Rightarrow>
          (case sl_public_key sl key_bytes of
             Inl e \<Rightarrow> Inl (''Failed to decode PublicKey: '' @ e)
           | Inr key \<Rightarrow>
               (case cs_hex_decode cs signature_hex of
                  Inl e \<Rightarrow> Inl e
                | Inr signature_bytes \<Rightarrow>
                    (case sl_signature sl signature_bytes of
                       Inl e \<Rightarrow> Inl (''Failed to decode Ed25519Signature: '' @ e)
                     | Inr signature \<Rightarrow>
                         (case cs_hex_decode cs tx_hash of
                            Inl e \<Rightarrow> Inl e
                          | Inr hash \<Rightarrow>
                              Inr \<lparr>ck_valid = sl_verify sl key hash signature, ck_tx_hash = Some tx_hash,
                                ck_invalid_catalyst_witnesses = [], ck_invalid_vkey_witnesses = []\<rparr>)))))"

subsection \<open>A Catalyst registration\<close>

definition extract_map_bytes :: "metadatum \<Rightarrow> int \<Rightarrow> string + bytes" where
  "extract_map_bytes datum key =
     (case datum of
        MdMap entries \<Rightarrow>
          (case map_of entries (MdInt key) of
             None \<Rightarrow> Inl ''key not found in map''
           | Some (MdBytes bs) \<Rightarrow> Inr bs
           | Some _ \<Rightarrow> Inl ''value not bytes'')
      | _ \<Rightarrow> Inl ''not a map'')"

definition get_catalyst_witnesses ::
  "signature_library \<Rightarrow> metadata option option \<Rightarrow> pub_key_signature list" where
  "get_catalyst_witnesses sl aux =
     (case aux of
        Some (Some md) \<Rightarrow>
          (case (map_of md 61284, map_of md 61285) of
             (Some registration, Some witness) \<Rightarrow>
               (case (extract_map_bytes registration 2, extract_map_bytes witness 1) of
                  (Inr key_bytes, Inr signature_bytes) \<Rightarrow>
                    (case (sl_public_key sl key_bytes, sl_signature sl signature_bytes) of
                       (Inr key, Inr signature) \<Rightarrow> [(key, signature)]
                     | _ \<Rightarrow> [])
                | _ \<Rightarrow> [])
           | _ \<Rightarrow> [])
      | _ \<Rightarrow> [])"

definition get_catalyst_registration_hash ::
  "signature_library \<Rightarrow> metadata option option \<Rightarrow> bytes option" where
  "get_catalyst_registration_hash sl aux =
     (case aux of
        Some (Some md) \<Rightarrow>
          (case map_of md 61284 of
             None \<Rightarrow> None
           | Some registration \<Rightarrow>
               Some (sl_blake2b_256 sl (sl_metadata_bytes sl [(61284, registration)])))
      | _ \<Rightarrow> None)"

subsection \<open>The transaction\<close>

definition get_vkey_witnesses :: "vkey_witness list option \<Rightarrow> pub_key_signature list" where
  "get_vkey_witnesses vkeys =
     (case vkeys of Some ws \<Rightarrow> map (\<lambda>w. (vw_public_key w, vw_signature w)) ws | None \<Rightarrow> [])"

definition validate_bytes_signature ::
  "signature_library \<Rightarrow> bytes option \<Rightarrow> pub_key_signature list \<Rightarrow> pub_key_signature list" where
  "validate_bytes_signature sl message witnesses =
     (case message of
        None \<Rightarrow> []
      | Some bs \<Rightarrow> filter (\<lambda>(key, signature). \<not> sl_verify sl key bs signature) witnesses)"

definition witnesses_list_to_signatures_list :: "pub_key_signature list \<Rightarrow> string list" where
  "witnesses_list_to_signatures_list ws = map (\<lambda>w. hex_encode (snd w)) ws"

definition check_body_signatures ::
  "signature_library \<Rightarrow> bytes \<Rightarrow> metadata option option \<Rightarrow> vkey_witness list option \<Rightarrow> check_result" where
  "check_body_signatures sl tx_hash aux vkeys =
     (let invalid_catalyst =
            validate_bytes_signature sl (get_catalyst_registration_hash sl aux) (get_catalyst_witnesses sl aux);
          invalid_vkeys = validate_bytes_signature sl (Some tx_hash) (get_vkey_witnesses vkeys)
      in if invalid_catalyst \<noteq> [] \<or> invalid_vkeys \<noteq> []
         then check_invalid (hex_encode tx_hash) (witnesses_list_to_signatures_list invalid_catalyst)
           (witnesses_list_to_signatures_list invalid_vkeys)
         else check_valid (hex_encode tx_hash))"

definition decode_transaction_from_hex ::
  "csl \<Rightarrow> (bytes \<Rightarrow> decode_error option) \<Rightarrow> signature_library \<Rightarrow> string \<Rightarrow> string + signed_tx" where
  "decode_transaction_from_hex cs well_formed_error sl hex =
     (case cs_hex_decode cs hex of
        Inl e \<Rightarrow> Inl e
      | Inr bs \<Rightarrow>
          (case check_cbor (cs_minicbor cs) well_formed_error bs Transaction of
             Inl e \<Rightarrow> Inl (''Cannot decode tx: '' @ preflight_error_display e)
           | Inr _ \<Rightarrow>
               (case sl_transaction sl bs of
                  Inl e \<Rightarrow> Inl (''Cannot decode tx: '' @ transaction_parse_failure bs e)
                | Inr tx \<Rightarrow> Inr tx)))"

definition check_tx_signatures_internal :: "signature_library \<Rightarrow> signed_tx \<Rightarrow> check_result" where
  "check_tx_signatures_internal sl tx =
     check_body_signatures sl (st_hash tx) (st_metadata tx) (st_vkeys tx)"

definition check_tx_signatures ::
  "csl \<Rightarrow> (bytes \<Rightarrow> decode_error option) \<Rightarrow> signature_library \<Rightarrow> string \<Rightarrow> string + check_result" where
  "check_tx_signatures cs well_formed_error sl tx_hex =
     map_sum id (check_tx_signatures_internal sl) (decode_transaction_from_hex cs well_formed_error sl tx_hex)"

subsection \<open>A block\<close>

definition decode_block_from_hex ::
  "csl \<Rightarrow> (bytes \<Rightarrow> decode_error option) \<Rightarrow> signature_library \<Rightarrow> string \<Rightarrow> string + signed_block" where
  "decode_block_from_hex cs well_formed_error sl hex =
     (case cs_hex_decode cs hex of
        Inl e \<Rightarrow> Inl e
      | Inr bs \<Rightarrow>
          (case check_cbor (cs_minicbor cs) well_formed_error bs Block of
             Inl e \<Rightarrow> Inl (''Cannot decode block: '' @ preflight_error_display e)
           | Inr _ \<Rightarrow>
               (case sl_block sl bs of
                  Inl e \<Rightarrow> Inl (''Cannot decode block: '' @ e)
                | Inr block \<Rightarrow> Inr block)))"

text \<open>The bodies with the witness set of the same index: \<open>None\<close> when there is no such set, a panic.\<close>

definition extract_transactions_from_block :: "signed_block \<Rightarrow> signed_tx list option" where
  "extract_transactions_from_block block =
     those (map (\<lambda>i. map_option
         (\<lambda>vkeys. \<lparr>st_hash = sb_hashes block ! i, st_metadata = map_of (sb_metadata block) i, st_vkeys = vkeys\<rparr>)
         (nth_opt (sb_vkeys block) i))
       [0..<length (sb_hashes block)])"

definition check_block_txs_signatures_internal ::
  "signature_library \<Rightarrow> signed_block \<Rightarrow> check_result list option" where
  "check_block_txs_signatures_internal sl block =
     map_option (map (check_tx_signatures_internal sl)) (extract_transactions_from_block block)"

definition check_block_txs_signatures ::
  "csl \<Rightarrow> (bytes \<Rightarrow> decode_error option) \<Rightarrow> signature_library \<Rightarrow> string \<Rightarrow>
     (string + check_result list) option" where
  "check_block_txs_signatures cs well_formed_error sl block_hex =
     (case decode_block_from_hex cs well_formed_error sl block_hex of
        Inl e \<Rightarrow> Some (Inl e)
      | Inr block \<Rightarrow> map_option Inr (check_block_txs_signatures_internal sl block))"

definition block_results :: "check_result list \<Rightarrow> check_result" where
  "block_results results =
     (case filter (\<lambda>r. \<not> ck_valid r) results of
        r # _ \<Rightarrow> r
      | [] \<Rightarrow> check_valid ''All block txs are valid'')"

definition check_block_or_tx_signatures ::
  "csl \<Rightarrow> (bytes \<Rightarrow> decode_error option) \<Rightarrow> signature_library \<Rightarrow> string \<Rightarrow>
     (string + check_result) option" where
  "check_block_or_tx_signatures cs well_formed_error sl hex =
     (case decode_block_from_hex cs well_formed_error sl hex of
        Inr block \<Rightarrow>
          map_option (\<lambda>rs. Inr (block_results rs)) (check_block_txs_signatures_internal sl block)
      | Inl block_error \<Rightarrow>
          Some (case decode_transaction_from_hex cs well_formed_error sl hex of
             Inr tx \<Rightarrow> Inr (check_tx_signatures_internal sl tx)
           | Inl tx_error \<Rightarrow>
               Inl (''cannot parse block or transaction from given hex ('' @ block_error @ ''; ''
                 @ tx_error @ '')'')))"

subsection \<open>What a verdict means\<close>

text \<open>
  The signatures a transaction carries: over its hash, those of its witness set; over the hash of
  its Catalyst registration, that of the registration's stake key when both labels can be read.
\<close>

definition carried :: "signature_library \<Rightarrow> signed_tx \<Rightarrow> (bytes \<times> pub_key_signature) list" where
  "carried sl tx =
     map (Pair (st_hash tx)) (get_vkey_witnesses (st_vkeys tx)) @
     (case get_catalyst_registration_hash sl (st_metadata tx) of
        Some h \<Rightarrow> map (Pair h) (get_catalyst_witnesses sl (st_metadata tx))
      | None \<Rightarrow> [])"

definition sound :: "signature_library \<Rightarrow> bytes \<times> pub_key_signature \<Rightarrow> bool" where
  "sound sl c \<longleftrightarrow> sl_verify sl (fst (snd c)) (fst c) (snd (snd c))"

lemma catalyst_witness_hash:
  "get_catalyst_witnesses sl aux \<noteq> [] \<Longrightarrow> get_catalyst_registration_hash sl aux \<noteq> None"
  by (auto simp: get_catalyst_witnesses_def get_catalyst_registration_hash_def split: option.splits)

lemma unsound_signatures:
  "validate_bytes_signature sl (Some h) ws = filter (\<lambda>w. \<not> sound sl (h, w)) ws"
  by (simp add: validate_bytes_signature_def sound_def case_prod_unfold)

lemma tx_verdict:
  fixes sl :: signature_library and tx :: signed_tx
  defines "r \<equiv> check_tx_signatures_internal sl tx"
  shows "ck_valid r \<longleftrightarrow> (\<forall>c \<in> set (carried sl tx). sound sl c)"
    "ck_invalid_vkey_witnesses r @ ck_invalid_catalyst_witnesses r =
       map (\<lambda>c. hex_encode (snd (snd c))) (filter (\<lambda>c. \<not> sound sl c) (carried sl tx))"
    "ck_tx_hash r = Some (hex_encode (st_hash tx))"
proof -
  let ?h = "get_catalyst_registration_hash sl (st_metadata tx)"
  define cs where "cs = (case ?h of
      Some h \<Rightarrow> map (Pair h) (get_catalyst_witnesses sl (st_metadata tx)) | None \<Rightarrow> [])"
  define vs where "vs = map (Pair (st_hash tx)) (get_vkey_witnesses (st_vkeys tx))"
  define bad where "bad = filter (\<lambda>c. \<not> sound sl c)"
  have all: "carried sl tx = vs @ cs" by (simp add: carried_def vs_def cs_def)
  have catalyst: "validate_bytes_signature sl ?h (get_catalyst_witnesses sl (st_metadata tx)) =
      map snd (bad cs)"
    by (simp add: cs_def bad_def unsound_signatures validate_bytes_signature_def [of sl None] filter_map
        o_def split: option.split)
  have vkeys: "validate_bytes_signature sl (Some (st_hash tx)) (get_vkey_witnesses (st_vkeys tx)) =
      map snd (bad vs)"
    by (simp add: vs_def bad_def unsound_signatures filter_map o_def)
  have bad: "bad (xs @ ys) = bad xs @ bad ys" "bad xs = [] \<longleftrightarrow> (\<forall>c \<in> set xs. sound sl c)" for xs ys
    by (simp_all add: bad_def filter_empty_conv)
  note unfolded = r_def check_tx_signatures_internal_def check_body_signatures_def catalyst vkeys Let_def
  show "ck_valid r \<longleftrightarrow> (\<forall>c \<in> set (carried sl tx). sound sl c)"
    unfolding unfolded all by (simp add: bad(2) check_valid_def check_invalid_def ball_Un)
  have "bad vs = [] \<and> bad cs = [] \<or> bad vs \<noteq> [] \<or> bad cs \<noteq> []" by blast
  then have "ck_invalid_vkey_witnesses r @ ck_invalid_catalyst_witnesses r =
       map (\<lambda>c. hex_encode (snd (snd c))) (bad (vs @ cs))"
    unfolding unfolded bad(1)
    by (auto simp: check_valid_def check_invalid_def witnesses_list_to_signatures_list_def)
  then show "ck_invalid_vkey_witnesses r @ ck_invalid_catalyst_witnesses r =
       map (\<lambda>c. hex_encode (snd (snd c))) (filter (\<lambda>c. \<not> sound sl c) (carried sl tx))"
    by (simp add: bad_def all)
  show "ck_tx_hash r = Some (hex_encode (st_hash tx))"
    unfolding unfolded by (simp add: check_valid_def check_invalid_def)
qed

lemma block_verdict:
  "ck_valid (block_results rs) \<longleftrightarrow> (\<forall>r \<in> set rs. ck_valid r)"
proof (cases "filter (\<lambda>r. \<not> ck_valid r) rs")
  case Nil
  then show ?thesis by (simp add: block_results_def check_valid_def filter_empty_conv)
next
  case (Cons r rest)
  then have "r \<in> set (filter (\<lambda>r. \<not> ck_valid r) rs)" by simp
  then have "r \<in> set rs" "\<not> ck_valid r" by simp_all
  with Cons show ?thesis by (auto simp: block_results_def)
qed

end
