(* ===== verification/Tx_Hashes.thy ===== *)
theory Tx_Hashes
  imports Witness
begin

text \<open>
  The hashes a transaction carries (\<^verbatim>\<open>src/src/hash_extractor.rs\<close>) and the script an output
  references (\<^verbatim>\<open>src/src/tx_utils.rs\<close>).
\<close>

subsection \<open>What is extracted\<close>

datatype plutus_version = V1 | V2 | V3

fun plutus_version_of :: "language \<Rightarrow> plutus_version" where
  "plutus_version_of PlutusV1 = V1"
| "plutus_version_of PlutusV2 = V2"
| "plutus_version_of PlutusV3 = V3"

record plutus_script_info =
  ps_hash :: string
  ps_version :: plutus_version

datatype inline_script_type = NativeInline | PlutusInline plutus_version

record inline_script_info =
  in_hash :: string
  in_script_type :: inline_script_type

record extracted_hashes =
  eh_witness_native_script_hashes :: "string option list"
  eh_witness_plutus_scripts :: "plutus_script_info option list"
  eh_witness_datum_hashes :: "string option list"
  eh_output_inline_scripts :: "inline_script_info option list"
  eh_output_inline_datum_hashes :: "string option list"
  eh_output_datum_hashes :: "string option list"

subsection \<open>The transaction\<close>

text \<open>
  An output: its script reference, whether it has inline data and what reads as it, and its data
  hash. A script reference answers for a native and for a Plutus script.
\<close>

record script_ref =
  sr_native :: "bytes option"
  sr_plutus :: "(language \<times> bytes) option"

record hashed_output =
  ho_script_ref :: "script_ref option"
  ho_has_plutus_data :: bool
  ho_plutus_data :: "bytes option"
  ho_data_hash :: "bytes option"

record hashed_tx =
  ht_witness_set :: witness_set
  ht_outputs :: "hashed_output list"

subsection \<open>The extraction\<close>

definition items_of :: "'a list option \<Rightarrow> 'a list" where
  "items_of xs = (case xs of Some ys \<Rightarrow> ys | None \<Rightarrow> [])"

definition extract_witness_set_hashes ::
  "witness_library \<Rightarrow> witness_set \<Rightarrow> extracted_hashes \<Rightarrow> extracted_hashes" where
  "extract_witness_set_hashes wl ws r =
     r\<lparr>eh_witness_native_script_hashes := eh_witness_native_script_hashes r @
          map (\<lambda>s. Some (hex_encode (wl_native_hash wl s))) (items_of (ws_native_scripts ws)),
        eh_witness_plutus_scripts := eh_witness_plutus_scripts r @
          map (\<lambda>(version, s). Some \<lparr>ps_hash = hex_encode (wl_plutus_hash wl version s),
              ps_version = plutus_version_of version\<rparr>) (items_of (ws_plutus_scripts ws)),
        eh_witness_datum_hashes := eh_witness_datum_hashes r @
          map (\<lambda>d. Some (hex_encode (wl_hash_plutus_data wl d))) (items_of (ws_plutus_data ws))\<rparr>"

definition inline_info :: "witness_library \<Rightarrow> script_ref option \<Rightarrow> inline_script_info option" where
  "inline_info wl script_ref =
     (case script_ref of
        None \<Rightarrow> None
      | Some sr \<Rightarrow>
          (case sr_native sr of
             Some s \<Rightarrow> Some \<lparr>in_hash = hex_encode (wl_native_hash wl s), in_script_type = NativeInline\<rparr>
           | None \<Rightarrow>
               (case sr_plutus sr of
                  Some (version, s) \<Rightarrow>
                    Some \<lparr>in_hash = hex_encode (wl_plutus_hash wl version s),
                      in_script_type = PlutusInline (plutus_version_of version)\<rparr>
                | None \<Rightarrow> None)))"

definition extract_output :: "witness_library \<Rightarrow> extracted_hashes \<Rightarrow> hashed_output \<Rightarrow> extracted_hashes" where
  "extract_output wl r output =
     r\<lparr>eh_output_inline_scripts := eh_output_inline_scripts r @ [inline_info wl (ho_script_ref output)],
       eh_output_inline_datum_hashes := eh_output_inline_datum_hashes r @
         [if ho_has_plutus_data output
          then map_option (\<lambda>d. hex_encode (wl_hash_plutus_data wl d)) (ho_plutus_data output) else None],
       eh_output_datum_hashes := eh_output_datum_hashes r @ [map_option hex_encode (ho_data_hash output)]\<rparr>"

definition extract_output_hashes ::
  "witness_library \<Rightarrow> hashed_output list \<Rightarrow> extracted_hashes \<Rightarrow> extracted_hashes" where
  "extract_output_hashes wl outputs r = foldl (extract_output wl) r outputs"

definition no_hashes :: extracted_hashes where
  "no_hashes =
     \<lparr>eh_witness_native_script_hashes = [], eh_witness_plutus_scripts = [], eh_witness_datum_hashes = [],
      eh_output_inline_scripts = [], eh_output_inline_datum_hashes = [], eh_output_datum_hashes = []\<rparr>"

definition extract_hashes_from_transaction ::
  "csl \<Rightarrow> (bytes \<Rightarrow> decode_error option) \<Rightarrow> witness_library \<Rightarrow> (bytes \<Rightarrow> string + hashed_tx) \<Rightarrow>
     string \<Rightarrow> string + extracted_hashes" where
  "extract_hashes_from_transaction cs well_formed_error wl transaction tx_hex =
     (case cs_hex_decode cs tx_hex of
        Inl e \<Rightarrow> Inl (''Failed to decode hex: '' @ e)
      | Inr bs \<Rightarrow>
          (case check_cbor (cs_minicbor cs) well_formed_error bs Transaction of
             Inl e \<Rightarrow> Inl (''Failed to decode transaction: '' @ preflight_error_display e)
           | Inr _ \<Rightarrow>
               (case transaction bs of
                  Inl e \<Rightarrow> Inl (''Failed to decode transaction: '' @ transaction_parse_failure bs e)
                | Inr tx \<Rightarrow>
                    Inr (extract_output_hashes wl (ht_outputs tx)
                      (extract_witness_set_hashes wl (ht_witness_set tx) no_hashes)))))"

subsection \<open>The script an output references\<close>

text \<open>
  The outputs as \<^verbatim>\<open>pallas\<close> reads them: one of the older form references none, one of the
  newer form may; a script is its encoding, whatever its kind.
\<close>

datatype minted_output = Legacy | PostAlonzo "bytes option"

definition get_ref_script_bytes ::
  "csl \<Rightarrow> (bytes \<Rightarrow> decode_error option) \<Rightarrow> (bytes \<Rightarrow> string + minted_output list) \<Rightarrow> string \<Rightarrow> u32 \<Rightarrow>
     string + string" where
  "get_ref_script_bytes cs well_formed_error minted_tx tx_hex output_index =
     (case check_hex (cs_hex_decode cs)
         (\<lambda>bs. check_pallas_cbor (cs_minicbor cs) well_formed_error bs Transaction) tx_hex of
        Inl e \<Rightarrow> Inl (''Failed to parse transaction: '' @ e)
      | Inr bs \<Rightarrow>
          (case minted_tx bs of
             Inl e \<Rightarrow> Inl (''Failed to parse transaction: '' @ e)
           | Inr outputs \<Rightarrow>
               if (of_nat (length outputs) :: u32) \<le> output_index then Inr []
               else
                 (case outputs ! unat output_index of
                    PostAlonzo (Some script) \<Rightarrow> Inr (hex_encode script)
                  | _ \<Rightarrow> Inr [])))"

subsection \<open>Every position has its place\<close>

lemma extract_output_hashes_at:
  fixes wl :: witness_library
  defines "r \<equiv> \<lambda>outputs r0. extract_output_hashes wl outputs r0"
  shows "eh_output_inline_scripts (r outputs r0) =
      eh_output_inline_scripts r0 @ map (\<lambda>out. inline_info wl (ho_script_ref out)) outputs"
    "eh_output_inline_datum_hashes (r outputs r0) = eh_output_inline_datum_hashes r0 @
      map (\<lambda>out. if ho_has_plutus_data out
        then map_option (\<lambda>d. hex_encode (wl_hash_plutus_data wl d)) (ho_plutus_data out) else None) outputs"
    "eh_output_datum_hashes (r outputs r0) =
      eh_output_datum_hashes r0 @ map (\<lambda>out. map_option hex_encode (ho_data_hash out)) outputs"
  unfolding r_def extract_output_hashes_def
  by (induction outputs arbitrary: r0) (simp_all add: extract_output_def)

lemma ref_script_bytes_at:
  assumes "get_ref_script_bytes cs gate minted_tx tx_hex i = Inr text" "text \<noteq> []"
  obtains bs outputs script where "minted_tx bs = Inr outputs" "unat i < length outputs"
    "outputs ! unat i = PostAlonzo (Some script)" "text = hex_encode script"
proof -
  obtain bs outputs where outs: "minted_tx bs = Inr outputs" "\<not> (of_nat (length outputs) :: u32) \<le> i"
    "(case outputs ! unat i of PostAlonzo (Some script) \<Rightarrow> Inr (hex_encode script) | _ \<Rightarrow> Inr []) =
       (Inr text :: string + string)"
    using assms by (auto simp: get_ref_script_bytes_def split: sum.splits if_splits)
  then obtain script where "outputs ! unat i = PostAlonzo (Some script)" "text = hex_encode script"
    using assms(2) by (auto split: minted_output.splits option.splits)
  moreover have "unat i < length outputs"
  proof -
    have "unat i < unat (of_nat (length outputs) :: u32)" using outs(2) by (simp add: word_le_nat_alt)
    also have "\<dots> \<le> length outputs" by (simp add: unat_of_nat)
    finally show ?thesis .
  qed
  ultimately show thesis using that outs(1) by blast
qed

end
