(* ===== verification/Spec2Isabelle.thy ===== *)
theory Spec2Isabelle
  imports Limits_Embedded Budgets Cddl_Limits Script_Spec Cbor_Errors Preflight_Facts Asset_Store
    Sample_Validation Loop_Bounds Walk_Driver Sample_Decoding Tx_Signatures Tx_Hashes
begin

text \<open>
  A development beside cquisitor-lib, the Rust core of a library that decodes and validates Cardano
  transactions. The root theory states the properties that span components; the others hold the
  components and their lemmas.

  The program. Every export takes bytes, as hexadecimal text, and answers JSON. Bytes from outside are
  checked before anything else reads them: \<^verbatim>\<open>cbor/limits.rs\<close> measures how deep an input nests and
  how many items it holds, and \<^verbatim>\<open>csl_preflight.rs\<close> refuses what would make the serialization library
  overflow its stack or read past its input. \<^verbatim>\<open>cbor/decoder.rs\<close> builds the tree of an input with its
  positions and oddities, and \<^verbatim>\<open>deep_json.rs\<close> prints it. The validators run the ledger's phase-1
  rules over a transaction and the context the caller supplies, then phase 2 runs its scripts;
  \<^verbatim>\<open>validators/validator.rs\<close> puts the two together. Around the schemas there are a cache of parsed
  documents, a driver that runs deep recursions on a stack of its own, the notation of map keys, and the
  locations a validation error is reported at. \<^verbatim>\<open>witness_inserter.rs\<close>, \<^verbatim>\<open>check_signatures.rs\<close> and
  \<^verbatim>\<open>hash_extractor.rs\<close> are exports over the serialization library. All paths here are under
  \<^verbatim>\<open>src/src\<close>.

  The theories and the code they model.
  Prelude, Std_Text, Std_Trim: machine integers and what is used of the standard library on texts.
  Cbor_Nav, Preflight, Preflight_Checks: \<^verbatim>\<open>csl_preflight.rs\<close>; Cbor_Spec and Cbor_Located hold the data
  items of RFC 8949 and their encodings, which the theorems about byte scans refer to; Preflight_Routes
  and Preflight_Facts show which byte strings the address scans reach and what the gate guarantees.
  Limits_Scan, Limits_Embedded, Budgets, Cddl_Limits: \<^verbatim>\<open>cbor/limits.rs\<close>; Limits_Depth and Loop_Bounds
  show that the scans measure the item and that they end.
  Native_Script, Script_Spec: \<^verbatim>\<open>native_script.rs\<close> and the executor, against the recursive script.
  Cbor_Errors, Json, Cbor_Decoder, Decoder_Nodes, Decoder_Loop: \<^verbatim>\<open>cbor/errors.rs\<close>,
  \<^verbatim>\<open>deep_json.rs\<close>, \<^verbatim>\<open>cbor/decoder.rs\<close>, \<^verbatim>\<open>cbor/tags.rs\<close>; Decoder_Tree is
  the tree by recursion over the item, Decoder_Facts, Decoder_Returns and Decoder_Whole show that the
  loop builds it and returns, and the last holds the exports of \<^verbatim>\<open>cbor/mod.rs\<close>.
  Source_Index, Document_Cache, Walk_Driver, with Source_Facts: \<^verbatim>\<open>cbor/source_index.rs\<close>,
  \<^verbatim>\<open>cbor/document_cache.rs\<close>, \<^verbatim>\<open>cbor/walk_driver.rs\<close>.
  Diagnostic, Diagnostic_Match: \<^verbatim>\<open>cbor/diagnostic.rs\<close>; Diagnostic_Facts and Diagnostic_Roundtrip show that
  a node matches the notation of its value and that what the notation writes is read back.
  Location_Text, Location_Tree, Location_Walk: the locations of \<^verbatim>\<open>cbor/validation.rs\<close>; Location_Facts
  and Location_Keys show that its memory changes no answer and that keys are read
  back.
  Asset_Store, Ledger_Context, Csl_Transaction, Validation_Result: values, the context, the transaction
  as the serialization library presents it, findings and results.
  Balance, Collateral, Fees_Outputs, Tx_Limits, Registration, Governance, Script_Refs, Witness,
  Witness_Required, Witness_Validate: the validators of \<^verbatim>\<open>validators/phase_1\<close>; the theories named after
  them with Facts or Reports show what each reports, in terms of the transaction.
  Necessary_Data, with Necessary_Facts and Necessary_Suffices: the list of data a caller must fetch.
  Phase2_Error, Phase2_Guard, Phase2_Context, Phase2_Eval, Phase2_Mapper, Phase2_Validation:
  \<^verbatim>\<open>validators/phase_2\<close>; Phase2_Facts holds their lemmas.
  Validator, Validator_Facts: \<^verbatim>\<open>validators/validator.rs\<close>.
  Witness_Inserter, Tx_Signatures, Tx_Hashes, with Inserter_Facts: the exports over the serialization
  library.
  Sample_Transaction, Sample_Validation, Sample_Decoding: the concrete inputs and library instances the
  properties are applied at.

  Interfaces. \<open>asset_store\<close> is what the balance needs of a multi-asset: that adding an asset adds its
  quantity and keeps the store sound; the code's nested association is its instance. \<open>charge_budget\<close>
  is the discipline of a budget that is charged on the way down and given back on the way up; the
  descent budget and both counts of a document's budget are instances. \<open>buffer\<close> is an input the address
  scans read, interpreted on the part of the bytes a \<open>usize\<close> can address.

  Representation. Bytes are \<open>8 word\<close>, other machine integers words of their width, or integers with the
  bounds written out where the code checks them; \<open>usize\<close> has 32 bits, as on the wasm target. A text is
  its UTF-8 bytes, each a character. A raised error is a value of a sum; a panic, or a loop that does
  not return, is the \<open>None\<close> of an option around the result. Mutable state
  is passed along, and what several callers share is a record that each operation answers anew. Objects
  of JSON keep the order of insertion, as \<^verbatim>\<open>serde_json\<close> does with the feature the build enables. A float
  is the bits of its 64-bit form.

  Loops and bounds. A loop over a buffer is a recursion whose measure is what is left of the buffer. The
  loops of the decoder are \<open>partial_function\<close>s, since a reader that did not move would keep them from
  returning; they return for every reader that moves forward inside its input, which is the documented
  behaviour of the crate's. The loops over the text of a map key carry the length of that text as fuel,
  and each turn takes at least one character of it. Levels are the constants of the code:
  32768 levels of nesting for a document, 32 for a map key and eight payloads inside one another.

  Parameters. What is not in the repository is an argument: the serialization library (\<open>csl\<close>,
  \<open>witness_library\<close>, \<open>mapper_library\<close>, \<open>inserter_library\<close>, \<open>signature_library\<close>), the evaluator of
  scripts (\<open>evaluator\<close>), the reader of headers (\<open>cbor_reader\<close>), the parser of schemas, the texts and the
  parser of floats and the hex decoder (\<open>float_library\<close>), Rust's \<open>Debug\<close> and \<open>Display\<close> texts, and the order
  in which a hash map is walked. A theorem that relies on one names what it relies on as a hypothesis.
  The index of a large map's keys is kept by node where the code keeps it by the node's address: equal
  nodes have equal entries.

  Not modelled. The walks over the syntax tree of the \<^verbatim>\<open>cddl\<close> crate (the rest of \<^verbatim>\<open>cbor/validation.rs\<close>,
  \<^verbatim>\<open>schema_mapper.rs\<close>, \<^verbatim>\<open>cddl_tools.rs\<close>, \<^verbatim>\<open>cbor_cddl_map.rs\<close>), whose every step is on a type that is not in
  the repository; the typed decoders, tables of calls of the serialization library; the JSON forms of
  script contexts and \<^verbatim>\<open>plutus\<close>, conversions between types of other crates; hints and bindings, whose
  content is wording; the tools that generate schemas.

  A finding of the development, proved below: writing a location as a path panics on some that are not
  in ASCII, since \<open>strip_prefix_ci\<close> slices a component at its eighth byte.
\<close>

unbundle bit_operations_syntax

section \<open>The whole validation\<close>



text \<open>
  C2: The two transaction parsers only matter on bytes their gate has passed: replacing what either
  does on any other bytes, a crash included, changes no validation.
\<close>

theorem parsers_see_only_checked_bytes:
  fixes lb :: "('info, 'i, 'p) libraries"
  assumes "\<And>bs. check_cbor (cs_minicbor (lb_csl lb)) (lb_well_formed_error lb) bs Transaction = Inr () \<Longrightarrow>
      csl_parser bs = lb_parse_csl lb bs"
    "\<And>bs. check_pallas_cbor (cs_minicbor (lb_csl lb)) (lb_well_formed_error lb) bs Transaction = Inr () \<Longrightarrow>
      pallas_parser bs = lb_parse_pallas lb bs"
  shows "validate_transaction (lb\<lparr>lb_parse_csl := csl_parser, lb_parse_pallas := pallas_parser\<rparr>) tx_hex ic =
    validate_transaction lb tx_hex ic"
  using assms by (rule validation_guarded)

theorem parsers_see_only_checked_bytes_witness:
  "validate_transaction (plain_libraries\<lparr>
       lb_parse_csl := \<lambda>bs. if bs = [] then Inl ''crash'' else Inr plain_transaction,
       lb_parse_pallas := \<lambda>bs. if bs = [] then Inl ''crash'' else Inr (Some plain_pallas)\<rparr>) ''80'' plain_context =
     validate_transaction plain_libraries ''80'' plain_context"
  by (rule parsers_see_only_checked_bytes)
    (auto simp: plain_libraries_def check_cbor_def check_pallas_cbor_def check_cbor_within_ok)



section \<open>Phase 2\<close>

text \<open>
  C4: Phase 2 reports no error exactly when every redeemer's result is a success whose cost is
  within the units the redeemer provides.
\<close>

theorem phase_2_clean_iff:
  "p2_errors (eval_all_redeemers ev tx utxos models slots protocol_major) = [] \<longleftrightarrow>
     (\<forall>res \<in> set (p2_results (eval_all_redeemers ev tx utxos models slots protocol_major)).
        er_success res \<and> \<not> over_budget (er_calculated_ex_units res) (er_provided_ex_units res))"
  by (rule eval_all_errors_Nil)

theorem phase_2_clean_iff_witness:
  "p2_errors (eval_all_redeemers plain_evaluator plain_pallas [] None (slot_config_network Preview) 10) = []"
  using phase_2_clean_iff [of plain_evaluator plain_pallas "[]" None "slot_config_network Preview" 10]
  by (simp add: eval_all_redeemers_def tx_redeemers_def plain_pallas_def)

text \<open>
  C5: Every redeemer is answered, in the order of the witness set and whatever the evaluator does
  with it: the result names its tag, index and units, and is a success exactly when it has no error
  text.
\<close>

theorem every_redeemer_is_answered:
  "list_all2 (\<lambda>r res. er_tag res = map_tag_to_redeemer_tag (px_tag r) \<and>
       er_index res = ucast (px_index r) \<and> er_provided_ex_units res = px_ex_units r \<and>
       (er_success res \<longleftrightarrow> er_error res = None))
     (tx_redeemers tx) (p2_results (eval_all_redeemers ev tx utxos models slots protocol_major))"
proof (rule list_all2_all_nthI)
  show "length (tx_redeemers tx) = length (p2_results (eval_all_redeemers ev tx utxos models slots protocol_major))"
    by (simp add: eval_all_parts evaluations_def)
  fix n assume "n < length (tx_redeemers tx)"
  from eval_all_results(2,3) [OF this, of ev utxos models slots protocol_major]
  show "er_tag (p2_results (eval_all_redeemers ev tx utxos models slots protocol_major) ! n) =
        map_tag_to_redeemer_tag (px_tag (tx_redeemers tx ! n)) \<and>
      er_index (p2_results (eval_all_redeemers ev tx utxos models slots protocol_major) ! n) =
        ucast (px_index (tx_redeemers tx ! n)) \<and>
      er_provided_ex_units (p2_results (eval_all_redeemers ev tx utxos models slots protocol_major) ! n) =
        px_ex_units (tx_redeemers tx ! n) \<and>
      (er_success (p2_results (eval_all_redeemers ev tx utxos models slots protocol_major) ! n) \<longleftrightarrow>
        er_error (p2_results (eval_all_redeemers ev tx utxos models slots protocol_major) ! n) = None)"
    by (simp add: answers_def)
qed

text \<open>
  C6: The lookup of a script is only consulted on transactions whose withdrawal keys are stake
  addresses, and the builder of a script context only on content it can translate and the script's
  language can represent: replacing what they do elsewhere, a panic included, changes no result.
\<close>

theorem evaluator_sees_only_translatable_content:
  assumes "stake_withdrawals (ev_read_address ev) tx \<Longrightarrow> lookup tx utxos r = ev_find_script ev tx utxos r"
    and "\<And>language. \<lbrakk>translatable (ev_read_address ev) tx; representable tx language\<rbrakk> \<Longrightarrow>
      builder language tx utxos slots = ev_tx_info ev language tx utxos slots"
  shows "eval_redeemer (ev\<lparr>ev_find_script := lookup, ev_tx_info := builder\<rparr>) tx utxos slots r models budget
      protocol_major = eval_redeemer ev tx utxos slots r models budget protocol_major"
  using assms by (rule evaluator_guarded)

theorem evaluator_sees_only_translatable_content_witness:
  "eval_redeemer (plain_evaluator\<lparr>ev_find_script := \<lambda>tx us r. Inl ''panic'', ev_tx_info := \<lambda>l tx us s. Inl ''panic''\<rparr>)
      (plain_pallas\<lparr>pb_withdrawals := Some [([1], 5)]\<rparr>) [] (slot_config_network Preview)
      \<lparr>px_tag = TagReward, px_index = 0, px_data = IntData 0, px_ex_units = \<lparr>eu_mem = 1, eu_steps = 1\<rparr>\<rparr>
      None remaining_budget 10 =
    eval_redeemer plain_evaluator (plain_pallas\<lparr>pb_withdrawals := Some [([1], 5)]\<rparr>) [] (slot_config_network Preview)
      \<lparr>px_tag = TagReward, px_index = 0, px_data = IntData 0, px_ex_units = \<lparr>eu_mem = 1, eu_steps = 1\<rparr>\<rparr>
      None remaining_budget 10"
  by (rule evaluator_sees_only_translatable_content)
    (simp_all add: translatable_def stake_withdrawals_def stake_accounts_def plain_evaluator_def)

text \<open>
  C7: Cost models taken out of every proposal a script context holds, in the list of proposals, the
  proposing redeemers and the script's own purpose, are put back where they were: entry 18 of each
  parameter map, the keys around it ascending.
\<close>

theorem context_gets_its_cost_models_back:
  assumes "context_without models full stripped"
  shows "restore_cost_models models stripped = Some full"
  using assms by (rule context_restored)

text \<open>A V3 context with one proposal that sets cost models, its redeemer and its own purpose.\<close>

definition proposal_data :: "(plutus_data \<times> plutus_data) list \<Rightarrow> plutus_data" where
  "proposal_data params =
     ConstrData 121 None [IntData 5, IntData 6, ConstrData 121 None [IntData 7, MapData params, IntData 8]]"

definition context_data :: "(plutus_data \<times> plutus_data) list \<Rightarrow> plutus_data" where
  "context_data params =
     (let proposing = ConstrData 126 None [IntData 0, proposal_data params] in
      ConstrData 121 None
        [ConstrData 121 None
           (replicate 9 (IntData 0) @ [MapData [(proposing, IntData 9)]] @ replicate 3 (IntData 0)
            @ [ArrayData [proposal_data params]]),
         IntData 9, proposing])"

theorem context_gets_its_cost_models_back_witness:
  "restore_cost_models [Some (MapData [])] (context_data [(IntData 0, IntData 44), (IntData 22, IntData 3)]) =
     Some (context_data [(IntData 0, IntData 44), (IntData 18, MapData []), (IntData 22, IntData 3)])"
proof -
  let ?full = "[(IntData 0, IntData 44), (IntData 18, MapData []), (IntData 22, IntData 3)]"
  have taken: "without_entry ?full = [(IntData 0, IntData 44), (IntData 22, IntData 3)]"
    by (simp add: without_entry_def COST_MODELS_KEY_def)
  have "integer_keys ?full [0, 18, 22]" by (simp add: integer_keys_def)
  then have proposal: "proposal_without (MapData []) (proposal_data ?full) (proposal_data (without_entry ?full))"
    unfolding proposal_data_def
    by (intro proposal_without.intros) (simp_all add: constructor_index_def PARAMETER_CHANGE_def)
  then have purpose: "purpose_without [Some (MapData [])] (ConstrData 126 None [IntData 0, proposal_data ?full])
      (ConstrData 126 None [IntData 0, proposal_data (without_entry ?full)])"
    using purpose_without.proposing [of 126 None 0 "[Some (MapData [])]"]
    by (simp add: entry_without_def constructor_index_def PROPOSING_def)
  have "context_without [Some (MapData [])] (context_data ?full) (context_data (without_entry ?full))"
    unfolding context_data_def Let_def
    by (rule context_without.intros)
      (use proposal purpose in \<open>auto simp: constructor_index_def TX_INFO_REDEEMERS_def
        TX_INFO_PROPOSAL_PROCEDURES_def entry_without_def nth_append nth_Cons split: nat.split\<close>)
  from context_gets_its_cost_models_back [OF this] show ?thesis by (simp only: taken)
qed

section \<open>Witnesses\<close>

text \<open>
  C8: What the witness validator finds missing is what the body demands and the transaction does not
  provide: a key is reported exactly when it is demanded and has not signed, a redeemer and a datum
  exactly when a Plutus script demands them and they are not provided, and a native script as failing
  exactly when it is demanded, provided and does not hold.
\<close>

theorem missing_witnesses_are_unmet_demands:
  assumes "witness_new cs wl wfe body ws tx_hash ic = Inr v"
  shows "((\<exists>at. (MissingVKeyWitnesses k, at) \<in> set (fst (witness_validate wl v))) \<longleftrightarrow>
      k \<in> hex_encode ` (keys_in (demands cs wl ic body) - signing_keys wl ws)) \<and>
    ((\<exists>at. (MissingRedeemer tag j, at) \<in> set (fst (witness_validate wl v))) \<longleftrightarrow>
      (\<exists>t. tag = wl_tag_text wl t \<and> (t, j) \<notin> pv_redeemers (wv_provided v) \<and>
         (t, j) \<in> redeemers_in (wv_provided v) (demands cs wl ic body))) \<and>
    ((\<exists>at. (MissingDatum d, at) \<in> set (fst (witness_validate wl v))) \<longleftrightarrow>
      d \<in> hex_encode ` (datums_in (wv_provided v) (demands cs wl ic body)
        - fst ` set (pv_datum_sources (wv_provided v)))) \<and>
    ((\<exists>at. (NativeScriptIsUnsuccessful h, at) \<in> set (fst (witness_validate wl v))) \<longleftrightarrow>
      h \<in> hex_encode ` {s \<in> scripts_kind (wv_provided v) IsNativeScript (demands cs wl ic body).
        failed_script cs (wv_provided v) (interval_of_body body) s})"
proof -
  note parts = required_parts [OF assms, symmetric]
  have "signing_keys wl ws = fst ` set (pv_vkey_witnesses (wv_provided v))"
    using collect_provided_facts(1) witness_new_parts(1) [OF assms] by blast
  then show ?thesis
    unfolding missing_keys missing_redeemers missing_datums unsuccessful_scripts [OF assms] parts
    by (auto simp: of_defs image_iff)
qed

theorem missing_witnesses_are_unmet_demands_witness:
  "keys_in (demands plain_csl plain_witnesses plain_context plain_body) \<subseteq> {[1]}"
proof -
  obtain v where v: "witness_new plain_csl plain_witnesses (\<lambda>bs. None) plain_body plain_witness_set [9] plain_context = Inr v"
      "fst (witness_validate plain_witnesses v) = []"
    using plain_witness by (auto split: sum.splits)
  have "hex_encode k \<notin> hex_encode ` (keys_in (demands plain_csl plain_witnesses plain_context plain_body)
      - signing_keys plain_witnesses plain_witness_set)" for k
    using missing_witnesses_are_unmet_demands [OF v(1)] v(2) by auto
  moreover have "signing_keys plain_witnesses plain_witness_set = {[1]}"
    by (simp add: signing_keys_def plain_witness_set_def plain_witnesses_def)
  ultimately show ?thesis by blast
qed

text \<open>
  The redeemer index of a spent input or a withdrawal is its rank: how many distinct ones come
  before it in the ledger's order, wherever it stands in the transaction.
\<close>

theorem redeemer_index_is_rank:
  assumes "strict_order lt" "x \<in> set xs"
  shows "sorted_index lt xs i x = of_nat (card {y \<in> set xs. lt y x})"
  using assms by (rule sorted_index_place)

theorem redeemer_index_is_rank_witness:
  "sorted_index (<) [9, 3, 5, 3 :: nat] 2 5 = 1"
proof -
  have "strict_order ((<) :: nat \<Rightarrow> nat \<Rightarrow> bool)" by (auto simp: strict_order_def)
  moreover have "{y \<in> set [9, 3, 5, 3 :: nat]. y < 5} = {3}" by auto
  ultimately show ?thesis using redeemer_index_is_rank [of "(<)" "5 :: nat" "[9, 3, 5, 3]" 2] by simp
qed

section \<open>The ledger's phase-1 rules\<close>

text \<open>
  C9: A value is reported as not conserved exactly when the ledger's equation fails: the lovelace
  of the spent UTxOs, refunds and withdrawals against that of the outputs, fee, deposits and
  donation, or some asset spent and minted against the same asset sent out and burnt.
\<close>

theorem value_not_conserved_iff:
  fixes cs :: csl and body :: tx_body and ic :: input_context
  assumes "balance_new cs body ic = Inr bv"
  shows "(\<exists>i out d at. (ValueNotConservedUTxO i out d, at) \<in> set (vr_errors (balance_validate cs ic bv)))
    \<longleftrightarrow> \<not> (sum_list (map (\<lambda>i. val_coins (input_value ic i)) (tb_inputs body))
         + sum_list (map refund_amount (fst (calculate_deposits_and_refunds cs body ic)))
         + sum_list (map (\<lambda>w. ucast (wd_amount w)) (get_withdrawals body))
       = sum_list (map (\<lambda>out. ucast (cv_coin (ou_amount out))) (tb_outputs body)) + ucast (tb_fee body)
         + sum_list (map deposit_amount (calculate_voting_proposals_deposits body
             @ snd (calculate_deposits_and_refunds cs body ic)))
         + get_donation body \<and>
       (\<forall>u. sum_list (map (\<lambda>i. held (input_value ic i) u) (tb_inputs body))
           + quantity_of (calculate_mints body) u
         = sum_list (map (\<lambda>out. held (new_from_csl_value (ou_amount out)) u) (tb_outputs body))
           + quantity_of (calculate_burn body) u))"
  unfolding value_error_iff value_eq_quantities [OF balance_totals(1,2) [OF assms]] held_def [symmetric]
    balance_totals(3-6) [OF assms] ..

theorem value_not_conserved_iff_witness:
  "\<exists>bv. balance_new sample_csl sample_body sample_context = Inr bv \<and>
     ((\<exists>i out d at. (ValueNotConservedUTxO i out d, at) \<in>
         set (vr_errors (balance_validate sample_csl sample_context bv))) \<longleftrightarrow> False)"
proof -
  obtain bv where bv: "balance_new sample_csl sample_body sample_context = Inr bv"
    using sample_balance by blast
  from value_not_conserved_iff [OF bv] bv show ?thesis
    by (simp add: sample_parts sample_sums)
qed

text \<open>
  C10: The totals the balance is judged on are well-formed values: each asset is listed once and
  none with quantity zero.
\<close>

theorem balance_totals_well_formed:
  assumes "balance_new cs body ic = Inr bv"
  shows "value_sound (bv_total_full_input bv) \<and> value_sound (bv_total_full_output bv)"
  using balance_totals(1,2) [OF assms] by simp

theorem balance_totals_well_formed_witness:
  "\<exists>bv. balance_new sample_csl sample_body sample_context = Inr bv \<and>
     value_sound (bv_total_full_input bv) \<and> value_sound (bv_total_full_output bv)"
  using sample_balance balance_totals_well_formed by blast

text \<open>
  C11: When the library's own split is not there, the minted less the burnt quantity of an asset is
  the sum of the amounts the mint lists for it, over each of its policies once, however often the
  mint's keys repeat a policy.
\<close>

theorem mint_less_burn_is_net:
  assumes "tb_mint body = Some m" "mi_positive m = None" "mi_negative m = None"
    and "\<forall>policy entries. mi_get m policy = Some entries \<longrightarrow> (\<forall>entry \<in> set entries. in_range entry)"
  shows "quantity_of (calculate_mints body) u - quantity_of (calculate_burn body) u =
    of_int (sum_list (map (net_policy m u) (fresh_policies {} (mi_keys m))))"
  using mint_sides_net [OF assms(4)] assms(1-3) by (simp add: calculate_mints_def calculate_burn_def)

theorem mint_less_burn_is_net_witness:
  "quantity_of (calculate_mints (sample_body\<lparr>tb_mint := Some sample_mint\<rparr>)) ''0a0b''
     - quantity_of (calculate_burn (sample_body\<lparr>tb_mint := Some sample_mint\<rparr>)) ''0a0b'' =
   of_int (sum_list (map (net_policy sample_mint ''0a0b'') (fresh_policies {} (mi_keys sample_mint))))"
  by (rule mint_less_burn_is_net) (simp_all add: sample_mint_def in_range_def i128_min_def i128_max_def)

text \<open>
  A quantity a context writes as a decimal text is read back as the same number, for every
  number of the 128-bit range: text and sign, no digit lost.
\<close>

theorem quantity_text_round_trip:
  assumes "i128_min \<le> n" "n \<le> i128_max"
  shows "new_from_common_assets [\<lparr>as_unit = ''lovelace'', as_quantity = signed_decimal n\<rparr>] =
    Inr (value_of_coins (of_int n))"
  using parse_signed_decimal [OF assms]
  by (simp add: new_from_common_assets_def value_defs)

theorem quantity_text_round_trip_witness:
  "new_from_common_assets [\<lparr>as_unit = ''lovelace'', as_quantity = signed_decimal (- 12)\<rparr>] =
     Inr (value_of_coins (- 12))"
  using quantity_text_round_trip [of "- 12"] by (simp add: i128_min_def i128_max_def)

text \<open>
  C12: A transaction that needs collateral is reported as offering too little exactly when a
  hundred times what it offers is less than the fee times the collateral percentage, the
  ledger's rule; the ceiling division and the 128-bit arithmetic in between change nothing.
\<close>

theorem collateral_insufficient_iff:
  assumes "collateral_new cs body rs ic = Inr v" "is_need_collateral rs"
  shows "(\<exists>c r at. (InsufficientCollateral c r, at) \<in>
        set (vr_errors (collateral_validate v :: ('e, 'w, 'r) validation_result))) \<longleftrightarrow>
    (\<exists>c. offered_collateral v = Some c \<and>
       100 * c < uint (tb_fee body) * uint (pp_collateral_percentage (ic_protocol_parameters ic)))"
  by (rule insufficient_rule [OF assms])

theorem collateral_insufficient_iff_witness:
  "\<exists>v. collateral_new sample_csl sample_body (Some sample_redeemers) sample_context = Inr v \<and>
     ((\<exists>c r at. (InsufficientCollateral c r, at) \<in>
         set (vr_errors (collateral_validate v :: (unit, unit, unit) validation_result))) \<longleftrightarrow>
      (\<exists>c. offered_collateral v = Some c \<and> 100 * c < 2 * 150))"
proof -
  obtain v where v: "collateral_new sample_csl sample_body (Some sample_redeemers) sample_context = Inr v"
    using sample_collateral by blast
  have "is_need_collateral (Some sample_redeemers)"
    by (simp add: is_need_collateral_def sample_redeemers_def)
  from collateral_insufficient_iff [OF v this, where 'e = unit and 'w = unit and 'r = unit] v show ?thesis
    by (simp add: sample_body_def sample_context_def sample_parameters_def)
qed

text \<open>
  C13: The reference scripts' size is that of the scripts of the spent and the referenced UTxOs,
  each UTxO once, whatever order the hash set is walked in; it is an error exactly when one of the
  scripts cannot be read.
\<close>

theorem reference_scripts_counted_once:
  assumes "mset (order (collect_utxos body ic)) = mset (collect_utxos body ic)"
  shows "total_reference_scripts_size cs wfe 0 (order (collect_utxos body ic)) = Inr n \<longleftrightarrow>
    (\<forall>u \<in> referenced body ic. \<exists>k. Limits_Facts.script_size cs wfe u = Inr k) \<and>
    n = (\<Sum>u \<in> referenced body ic. size_or_zero cs wfe u)"
  using assms by (rule scripts_total(1) [where order = order])

theorem reference_scripts_counted_once_witness:
  "total_reference_scripts_size sample_csl (\<lambda>bs. None) 0 (rev (collect_utxos sample_body sample_context)) = Inr 0
     \<longleftrightarrow> (\<forall>u \<in> referenced sample_body sample_context. \<exists>k. Limits_Facts.script_size sample_csl (\<lambda>bs. None) u = Inr k) \<and>
       0 = (\<Sum>u \<in> referenced sample_body sample_context. size_or_zero sample_csl (\<lambda>bs. None) u)"
  by (rule reference_scripts_counted_once) simp

text \<open>
  An output is reported as too big exactly when its value's bytes exceed the parameter, and as
  too small exactly when its lovelace is below the least the library asks of it, each at the
  output's own index.
\<close>

theorem output_reports:
  shows "((OutputsValueTooBig n limit, at) \<in> set (vr_errors (output_validate (output_new cs body ic))) \<longleftrightarrow>
       limit = pp_max_value_size (ic_protocol_parameters ic) \<and>
       (\<exists>i < length (tb_outputs body). at = indexed ''transaction.body.outputs.'' i \<and>
          n = output_size (tb_outputs body ! i) \<and> limit < n)) \<and>
    ((OutputTooSmallUTxO a b, at) \<in> set (vr_errors (output_validate (output_new cs body ic))) \<longleftrightarrow>
       (\<exists>i < length (tb_outputs body). at = indexed ''transaction.body.outputs.'' i \<and>
          a = ucast (cv_coin (ou_amount (tb_outputs body ! i))) \<and>
          b = ucast (least_ada cs ic (tb_outputs body ! i)) \<and>
          cv_coin (ou_amount (tb_outputs body ! i)) < least_ada cs ic (tb_outputs body ! i)))"
  unfolding output_errors by simp

text \<open>
  The inputs are reported as unsorted exactly when they are not in ascending order of
  transaction id and index, equal neighbours allowed, for any strict total order of ids.
\<close>

theorem inputs_not_sorted_iff:
  assumes "strict_order id_less"
    and "limits_new cs wfe order id_less reward_less tx_size body rs ic = Inr v"
  shows "(\<exists>at. (InputsAreNotSorted, at) \<in> set (vr_warnings (limits_validate ic v))) \<longleftrightarrow>
    \<not> sorted_wrt (input_le id_less) (tb_inputs body)"
  using inputs_ascend_sorted [OF assms(1)]
  by (auto simp: limits_validate_def limits_new_parts(3) [OF assms(2)] check_inputs_sorted_def)

theorem inputs_not_sorted_iff_witness:
  "\<exists>v. limits_new sample_csl (\<lambda>bs. None) id byte_less (\<lambda>a b. False) 100 sample_body
       (Some sample_redeemers) sample_context = Inr v \<and>
     ((\<exists>at. (InputsAreNotSorted, at) \<in> set (vr_warnings (limits_validate sample_context v))) \<longleftrightarrow>
       \<not> sorted_wrt (input_le byte_less) (tb_inputs sample_body))"
proof -
  obtain v where v: "limits_new sample_csl (\<lambda>bs. None) id byte_less (\<lambda>a b. False) 100 sample_body
      (Some sample_redeemers) sample_context = Inr v"
    using sample_limits by blast
  from inputs_not_sorted_iff [OF byte_less_order v] v show ?thesis by blast
qed

text \<open>
  C14: The limits report an input as bad exactly when it is a spent, reference or collateral input
  whose UTxO the context does not know or knows as spent; report the validity interval exactly
  when the slot is before its start or not before its end; and report an overlap exactly for a
  reference input that is also spent.
\<close>

theorem limits_reports:
  assumes "limits_new cs wfe order id_less reward_less tx_size body rs ic = Inr v"
  shows "((\<exists>at. (BadInputsUTxO t, at) \<in> set (vr_errors (limits_validate ic v))) \<longleftrightarrow>
      (\<exists>i \<in> set (tb_inputs body) \<union> set (case tb_reference_inputs body of Some is \<Rightarrow> is | None \<Rightarrow> [])
           \<union> set (case tb_collateral body of Some is \<Rightarrow> is | None \<Rightarrow> []).
         t = input_of i \<and> \<not> known_unspent ic i)) \<and>
    ((\<exists>slot start until_slot at. (OutsideValidityIntervalUTxO slot start until_slot, at) \<in>
        set (vr_errors (limits_validate ic v))) \<longleftrightarrow> \<not> within_validity body (ic_slot ic)) \<and>
    ((\<exists>at. (ReferenceInputOverlapsWithInput t, at) \<in> set (vr_errors (limits_validate ic v))) \<longleftrightarrow>
      t \<in> input_of ` set (case tb_reference_inputs body of Some is \<Rightarrow> is | None \<Rightarrow> []) \<and>
      t \<in> input_of ` set (tb_inputs body))"
  using bad_input_errors [OF assms] validity_errors [OF assms] overlap_errors [OF assms] by (intro conjI)

theorem limits_reports_witness:
  "\<exists>v. limits_new sample_csl (\<lambda>bs. None) id byte_less (\<lambda>a b. False) 100 sample_body
       (Some sample_redeemers) sample_context = Inr v \<and>
     \<not> (\<exists>at. (BadInputsUTxO (input_of sample_input), at) \<in> set (vr_errors (limits_validate sample_context v)))"
proof -
  obtain v where v: "limits_new sample_csl (\<lambda>bs. None) id byte_less (\<lambda>a b. False) 100 sample_body
      (Some sample_redeemers) sample_context = Inr v"
    using sample_limits by blast
  have "\<forall>i \<in> set (tb_inputs sample_body) \<union>
      set (case tb_reference_inputs sample_body of Some is \<Rightarrow> is | None \<Rightarrow> []) \<union>
      set (case tb_collateral sample_body of Some is \<Rightarrow> is | None \<Rightarrow> []). known_unspent sample_context i"
    by (simp add: sample_body_def known_unspent_def sample_found) (simp add: sample_utxo_def)
  with limits_reports [OF v, of "input_of sample_input"] v show ?thesis by blast
qed

text \<open>
  The network check is silent exactly when every output address, withdrawal account, proposal
  return account and treasury withdrawal account, and the network id the body declares, are those
  of the context's network (outputs and withdrawals that have no text form aside).
\<close>

theorem network_silent_iff:
  "vr_errors (network_validate (network_new cs body ic)) = [] \<longleftrightarrow>
     on_network cs (expected_network_id cs (ic_network_type ic)) body"
  by (rule network_errors_Nil)

text \<open>
  The auxiliary data check is silent exactly when there is no auxiliary data, whatever hash
  the body declares, or the body declares the hash of the data that is there.
\<close>

theorem auxiliary_silent_iff:
  "vr_errors (auxiliary_validate (auxiliary_new hash_auxiliary_data body auxiliary_data)) = [] \<longleftrightarrow>
     (case auxiliary_data of
        None \<Rightarrow> True
      | Some bs \<Rightarrow> tb_auxiliary_data_hash body = Some (hash_auxiliary_data bs))"
  by (auto simp: auxiliary_validate_def auxiliary_new_def split: option.split)


text \<open>
  C16: After any certificate the registration state keeps its invariant, nothing is registered and
  deregistered at once and no pool is ever deregistered, and what it calls registered changes the
  way the ledger's set does.
\<close>

theorem registration_state_kept:
  assumes "state_ok s"
  shows "state_ok (update_state s ct i) \<and> registered (update_state s ct i) = ledger_step ct (registered s)"
  using state_ok_update [OF assms] registered_update [OF assms] by simp

theorem registration_state_kept_witness:
  "state_ok (update_state (start_state {AccountEntity ''a''}) (StakeDeregistrationCert ''a'') 0) \<and>
     registered (update_state (start_state {AccountEntity ''a''}) (StakeDeregistrationCert ''a'') 0) = {}"
  using registration_state_kept [OF state_ok_start, of "{AccountEntity ''a''}" "StakeDeregistrationCert ''a''" 0]
  by simp



section \<open>Native scripts\<close>

text \<open>
  A decoder for headers of one byte, on which the properties with a decoder are applied.
\<close>

definition short_header :: "u8 \<Rightarrow> bytes \<Rightarrow> nat \<Rightarrow> string + u64 \<times> nat" where
  "short_header major bs pos =
     (if pos < length bs \<and> drop_bit 5 (bs ! pos) = major \<and> bs ! pos AND 31 < 24
      then Inr (ucast (bs ! pos AND 31), pos + 1) else Inl ''unexpected type'')"

definition short_decoder :: minicbor where
  "short_decoder =
     \<lparr>mc_array = (\<lambda>bs pos. bind_result (short_header 4 bs pos) (\<lambda>(n, pos). Inr (Some n, pos))),
      mc_u64 = short_header 0,
      mc_i64 = short_header 0,
      mc_bytes = (\<lambda>bs pos. bind_result (short_header 2 bs pos) (\<lambda>(n, pos).
        Inr (take (unat n) (drop pos bs), pos + unat n))),
      mc_tag = short_header 6,
      mc_datatype = (\<lambda>bs pos. if pos < length bs then Inr Type_Other else Inl ''end of input''),
      mc_message = (\<lambda>m. m)\<rparr>"

lemma short_decoder_reads:
  "from_cbor short_decoder [0x82, 0x01, 0x81, 0x82, 0x04, 0x05] =
     Inr (flatten (Script All [Script (TimelockStart 5) []]))"
  by (simp add: from_cbor_def read_script.simps read_node_def read_kind_def read_list_header_def
      close_script_def finish_def list_more_def read_start_def short_decoder_def short_header_def
      u32_max_def flatten_def Let_def)

text \<open>
  C18: The reverse sweep over the pre-order array evaluates the script the way the ledger's
  recursive rules do, for every script, set of signers and validity interval.
\<close>

theorem flat_evaluation_is_recursive:
  "evaluate (flatten s) signers interval = script_holds signers interval s"
  by (rule evaluate_flatten)

text \<open>
  C19: Whatever bytes the reader accepts, under any decoder, the arrays it builds are the
  pre-order array of one script in which only list scripts have sub-scripts.
\<close>

theorem reader_builds_a_script:
  assumes "from_cbor d bs = Inr fl"
  shows "\<exists>s. proper s \<and> fl = flatten s"
  using assms by (rule from_cbor_flatten)

theorem reader_builds_a_script_witness:
  "\<exists>s. proper s \<and> from_cbor short_decoder [0x82, 0x01, 0x81, 0x82, 0x04, 0x05] = Inr (flatten s)"
  using reader_builds_a_script [OF short_decoder_reads] short_decoder_reads by auto

text \<open>
  C20: What the executor answers for a script's bytes is the ledger's evaluation of the script
  those bytes were read as.
\<close>

theorem executor_follows_ledger_rules:
  assumes "execute d script signatures interval = Inr verdict"
  shows "\<exists>s. proper s \<and> from_cbor d script = Inr (flatten s) \<and>
    verdict = script_holds (signer_bytes signatures) interval s"
proof -
  obtain fl where fl: "from_cbor d script = Inr fl"
    "verdict = evaluate fl (signer_bytes signatures) interval"
    using assms by (auto simp: execute_def)
  from from_cbor_flatten [OF fl(1)] fl show ?thesis
    by (auto simp: evaluate_flatten)
qed

theorem executor_follows_ledger_rules_witness:
  "\<exists>s. proper s \<and> from_cbor short_decoder [0x82, 0x01, 0x81, 0x82, 0x04, 0x05] = Inr (flatten s) \<and>
     script_holds (signer_bytes []) \<lparr>invalid_before = Some 7, invalid_hereafter = None\<rparr> s"
proof -
  have "execute short_decoder [0x82, 0x01, 0x81, 0x82, 0x04, 0x05] []
      \<lparr>invalid_before = Some 7, invalid_hereafter = None\<rparr> = Inr True"
    unfolding execute_def short_decoder_reads by (simp add: evaluate_flatten)
  from executor_follows_ledger_rules [OF this] show ?thesis by simp
qed

text \<open>
  The one-pass writer prints the script's JSON: the text of the recursive printer, with
  every list closed where its last sub-script ends.
\<close>

theorem json_writer_is_recursive_printer:
  assumes "proper s"
  shows "to_csl_json (flatten s) = script_json s"
  using assms by (rule to_csl_json_flatten)

theorem json_writer_is_recursive_printer_witness:
  "to_csl_json (flatten (Script All [Script (TimelockStart 5) []])) =
     script_json (Script All [Script (TimelockStart 5) []])"
  by (rule json_writer_is_recursive_printer) simp

section \<open>The preflight checks\<close>

text \<open>
  C21: On an encoded item the address scan answers the first byte string with no payload among the
  places where the serialization library reads an address in that shape, and the witness scan the
  first simple or floating value among the items of the witness lists it reads there.
\<close>

theorem hazards_are_first_at_library_sites:
  assumes "well_formed x" "length (encode x) \<le> usize_max"
  shows "address_hazard (encode x) shape = first_empty (address_sites shape (0, x)) \<and>
    witness_list_hazard (encode x) shape =
      first_such (\<lambda>x. major_of x = 7) (witness_sites shape (0, x))"
  using address_hazard_encode [OF assms] witness_hazard_encode [OF assms] by (rule conjI)

theorem hazards_are_first_at_library_sites_witness:
  "address_hazard (encode (Arr Inline [Str 2 Inline [1], Str 2 Inline []])) RewardAddresses =
     first_empty (address_sites RewardAddresses (0, Arr Inline [Str 2 Inline [1], Str 2 Inline []]))"
  using hazards_are_first_at_library_sites [of "Arr Inline [Str 2 Inline [1], Str 2 Inline []]" RewardAddresses]
  by (simp add: usize_max_def enc_head_def)

text \<open>
  C22: An encoded item passes the check for a reader exactly when the decoder finds it
  well-formed, the reader's nesting bound admits it, no witness list in it holds a simple value
  and no address in it is empty.
\<close>

theorem checked_document_is_safe:
  assumes "well_formed x" "length (encode x) \<le> usize_max"
  shows "check_cbor_within d well_formed_error (encode x) shape reader = Inr () \<longleftrightarrow>
    well_formed_error (encode x) = None \<and>
    nesting_verdict d (encode x) shape reader = None \<and>
    (\<forall>p \<in> set (witness_sites shape (0, x)). major_of (snd p) \<noteq> 7) \<and>
    (\<forall>p \<in> set (address_sites shape (0, x)). payload_len (snd p) \<noteq> Some 0)"
proof -
  have "encode x \<noteq> []"
    using assms(1) by (cases x) (simp_all add: enc_head_def)
  then show ?thesis
    using shape_hazard_encode [OF assms] by (simp add: check_cbor_within_ok)
qed

theorem checked_document_is_safe_witness:
  "check_cbor_within short_decoder (\<lambda>_. None) (encode (Scalar 0 Inline 5)) Item Csl = Inr () \<longleftrightarrow>
    nesting_verdict short_decoder (encode (Scalar 0 Inline 5)) Item Csl = None"
  using checked_document_is_safe [of "Scalar 0 Inline 5" short_decoder "\<lambda>_. None" Item Csl]
  by (simp add: usize_max_def enc_head_def address_sites_def witness_sites_def)

text \<open>
  The refusals are ordered: empty input, then the decoder's own error, then the nesting
  refusal, then the shape's hazard, and a document is refused for the first that applies.
\<close>

theorem check_refuses_for_first_reason:
  "check_cbor_within d well_formed_error bs shape reader = Inl e \<longleftrightarrow>
     bs = [] \<and> e = Empty \<or>
     bs \<noteq> [] \<and> (\<exists>error. well_formed_error bs = Some error \<and> e = preflight_of_decode_error error) \<or>
     bs \<noteq> [] \<and> well_formed_error bs = None \<and> nesting_verdict d bs shape reader = Some e \<or>
     bs \<noteq> [] \<and> well_formed_error bs = None \<and> nesting_verdict d bs shape reader = None \<and>
       shape_hazard bs shape = Some e"
  by (rule check_cbor_within_error)

text \<open>
  The ledger's size of a transaction is one byte more than the lengths of its body,
  witness set and auxiliary data as written, without the validity flag of a four-element
  transaction; anything but an array of three or four items has none.
\<close>

theorem ledger_size_is_component_lengths:
  assumes "well_formed x" "length (encode x) \<le> usize_max"
  shows "ledger_tx_size (encode x) =
    (if is_arr x then
       (case map (\<lambda>y. length (encode y)) (contents x) of
          [body, witnesses, is_valid, auxiliary] \<Rightarrow> Some (1 + (body + witnesses + auxiliary))
        | [body, witnesses, auxiliary] \<Rightarrow> Some (1 + (body + witnesses + auxiliary))
        | _ \<Rightarrow> None)
     else None)"
  using assms by (rule ledger_tx_size_encode)

theorem ledger_size_is_component_lengths_witness:
  "ledger_tx_size (encode (Arr Inline [Assoc Inline [], Assoc Inline [], Scalar 7 Inline 21, Scalar 7 Inline 22])) = Some 4"
  using ledger_size_is_component_lengths
    [of "Arr Inline [Assoc Inline [], Assoc Inline [], Scalar 7 Inline 21, Scalar 7 Inline 22]"]
  by (simp add: usize_max_def enc_head_def)

section \<open>The limits\<close>

text \<open>
  C23: The shape scan measures the item: on the encoding of a well-formed item the depth is the level
  of the deepest item and the count the number of data items, tags and string chunks left out, each
  cut just above the ceiling it was given.
\<close>

theorem shape_scan_measures_item:
  assumes "well_formed x" "length (encode x) \<le> usize_max" "ceiling \<le> usize_max"
  shows "cbor_nesting_depth_capped (encode x) ceiling = min (item_depth x) (Suc ceiling) \<and>
    cbor_item_count_capped (encode x) ceiling = min (item_count x) (Suc ceiling)"
  using nesting_depth_encode [OF assms] item_count_encode [OF assms] by (rule conjI)

theorem shape_scan_measures_item_witness:
  "cbor_nesting_depth_capped (encode (Tagged Arg2 258 (Arr Inline [Arr Inline [], Scalar 0 Inline 0]))) 8 = 2 \<and>
   cbor_item_count_capped (encode (Tagged Arg2 258 (Arr Inline [Arr Inline [], Scalar 0 Inline 0]))) 8 = 3"
  using shape_scan_measures_item [of "Tagged Arg2 258 (Arr Inline [Arr Inline [], Scalar 0 Inline 0])" 8]
  by (simp add: usize_max_def enc_head_def)



text \<open>
  C25: A schema is let through exactly when its brackets nest no deeper than the depth limit
  and the work they add up to stays within the work limit.
\<close>

theorem schema_accepted_iff:
  assumes "work_limit < u64_max"
  shows "cddl_nesting_overflow_at src depth_limit work_limit = None \<longleftrightarrow>
    bracket_depth 0 (brackets Code 0 src) \<le> depth_limit \<and>
    total_work 0 (brackets Code 0 src) \<le> work_limit"
  using assms by (rule cddl_accepts_iff)

theorem schema_accepted_iff_witness:
  "cddl_nesting_overflow_at (map byte ''a=[{b}]'') 2 10 = None"
  using schema_accepted_iff [of 10 "map byte ''a=[{b}]''" 2]
  by (simp add: u64_max_def byte_def opens_def closes_def is_quote_def bracket_work_def
      FREE_CDDL_NESTING_DEPTH_def)

section \<open>The budgets\<close>

text \<open>
  A descent budget holds exactly what its open steps were charged and never more than its
  limit, whatever steps a walk opens and leaves, in whatever order.
\<close>

theorem descent_walk_within_limit:
  assumes "limit < usize_max"
    and "foldl descent.walk_step (descent_new limit, []) ops = (b, opened)"
  shows "db_spent b = sum_list opened \<and> db_spent b \<le> limit"
proof -
  have "descent_sound (descent_new limit)"
    using assms(1) by (simp add: descent_sound_def descent_new_def)
  from descent.walk_held [OF this assms(2)]
    descent.walk_balanced [of 0 limit "(descent_new limit, [])" ops] assms this
  show ?thesis
    by (simp add: descent.balanced_def descent_new_def)
qed

theorem descent_walk_within_limit_witness:
  "\<exists>b. foldl descent.walk_step (descent_new 10, []) [Enter 4, Enter 5, Leave 1, Enter 9] = (b, [5])
     \<and> db_spent b = 5"
proof -
  obtain b where b: "foldl descent.walk_step (descent_new 10, []) [Enter 4, Enter 5, Leave 1, Enter 9] = (b, [5])"
    by (simp add: descent_charge_def descent_new_def usize_saturating_add_def usize_max_def
        descent_drop_def Let_def)
  with descent_walk_within_limit [OF _ b] show ?thesis
    by (simp add: usize_max_def)
qed

text \<open>
  C26: Through any sequence of embedded payloads entered and left, a document's budget keeps
  the levels of its open payloads plus the levels left equal to what the document left, and
  never has more than the supported number of payloads open.
\<close>

theorem embedded_walk_keeps_levels:
  assumes "nesting_for_document document = Some b"
    and "foldl levels.walk_step (b, []) ops = (b', opened)"
  shows "nb_remaining b' + sum_list opened = nb_remaining b \<and>
    nb_open_payloads b' \<le> MAX_EMBEDDED_DEPTH"
proof -
  have b: "nb_remaining b \<le> MAX_CBOR_NESTING_DEPTH" "nb_open_payloads b = 0"
    using assms(1) by (auto simp: nesting_for_document_def Let_def split: if_splits)
  have "nb_open_payloads b' \<le> MAX_EMBEDDED_DEPTH"
    using payloads.walk_held [of b ops b' opened] b assms(2) by simp
  moreover have "levels_held b' = levels_held b + sum_list opened \<and> levels_held b' \<le> MAX_CBOR_NESTING_DEPTH"
    using levels.walk_held [OF b(1) assms(2)] by simp
  moreover have "nb_remaining b' \<le> MAX_CBOR_NESTING_DEPTH"
    using levels.walk_balanced [of "levels_held b" MAX_CBOR_NESTING_DEPTH "(b, [])" ops] b(1) assms(2)
    by (simp add: levels.balanced_def)
  ultimately show ?thesis
    using b(1) unfolding levels_held_def by linarith
qed

theorem embedded_walk_keeps_levels_witness:
  "\<exists>b b'. nesting_for_document [0x81, 0x00] = Some b \<and>
     foldl levels.walk_step (b, []) [Enter [0x81, 0x80], Enter [0x00]] = (b', [0, 1]) \<and>
     nb_remaining b' + sum_list [0, 1] = nb_remaining b \<and> nb_open_payloads b' \<le> MAX_EMBEDDED_DEPTH"
proof -
  have scans: "cbor_nesting_depth_capped [0x81, 0x00] c = min 1 (Suc c)"
    "cbor_nesting_depth_capped [0x81, 0x80] c = min 1 (Suc c)"
    "cbor_nesting_depth_capped [0x00] c = 0" if "c \<le> usize_max" for c
    using nesting_depth_encode [of "Arr Inline [Scalar 0 Inline 0]" c] that
      nesting_depth_encode [of "Arr Inline [Arr Inline []]" c]
      nesting_depth_encode [of "Scalar 0 Inline 0" c]
    by (simp_all add: usize_max_def enc_head_def initial_byte_def)
  obtain b where b: "nesting_for_document [0x81, 0x00] = Some b" "nb_remaining b = 32767"
    "nb_open_payloads b = 0"
    by (simp add: nesting_for_document_def scans MAX_CBOR_NESTING_DEPTH_def usize_max_def)
  then obtain b' where "foldl levels.walk_step (b, []) [Enter [0x81, 0x80], Enter [0x00]] = (b', [0, 1])"
    by (simp add: enter_embedded_def scans usize_max_def MAX_EMBEDDED_DEPTH_def Let_def)
  from b(1) this embedded_walk_keeps_levels [OF b(1) this] show ?thesis
    by blast
qed

section \<open>Walking CBOR without recursion\<close>

text \<open>
  \<open>skip_item\<close> steps over exactly one data item: on a buffer that holds the encoding of a
  well-formed item anywhere, in any of its encodings, it answers the offset just past it.
\<close>

theorem skip_item_on_encoded:
  assumes "well_formed x" "length bs \<le> usize_max" "occurs bs i (encode x)"
  shows "skip_item bs i = Some (i + length (encode x))"
  using assms by (rule skip_item_encode)

theorem skip_item_on_encoded_witness:
  "skip_item (encode (Arr Inline [Scalar 0 Inline 1, StrIndef 2 [(Inline, [7])]])) 0 = Some 6"
  using skip_item_on_encoded [of "Arr Inline [Scalar 0 Inline 1, StrIndef 2 [(Inline, [7])]]"
      "encode (Arr Inline [Scalar 0 Inline 1, StrIndef 2 [(Inline, [7])]])" 0]
  by (simp add: usize_max_def enc_head_def enc_chunk_def occurs_def)

text \<open>
  C27: The element offsets of an encoded array, wherever it sits in the buffer and whether its length
  is definite or not, are the starts of the encodings of its elements, in order; the entry offsets of
  an encoded map are the starts of its keys paired with the starts of their values.
\<close>

theorem container_offsets_on_encoded:
  assumes "length bs \<le> usize_max" "well_formed x" "occurs bs i (encode x)"
  shows "(is_arr x \<longrightarrow> array_element_offsets bs i = Some (item_starts (i + body_start x) (contents x))) \<and>
    (is_assoc x \<longrightarrow>
      map_entry_offsets bs i = Some (pair_up (item_starts (i + body_start x) (contents x))))"
  using array_element_offsets_encode [OF assms] map_entry_offsets_encode [OF assms] by blast

theorem container_offsets_on_encoded_witness:
  "array_element_offsets (encode (ArrIndef [Scalar 0 Arg1 24, Str 3 Inline [65], Scalar 7 Inline 22])) 0
     = Some [1, 3, 5]"
  using container_offsets_on_encoded
    [of "encode (ArrIndef [Scalar 0 Arg1 24, Str 3 Inline [65], Scalar 7 Inline 22])"
      "ArrIndef [Scalar 0 Arg1 24, Str 3 Inline [65], Scalar 7 Inline 22]" 0]
  by (simp add: usize_max_def enc_head_def occurs_def)

text \<open>
  C28: On any input at all, malformed input included, the element offsets that the array walk
  answers strictly increase, lie past the array's own header and stay inside the buffer.
\<close>

theorem array_offsets_in_bounds:
  assumes "array_element_offsets bs at = Some offs"
  shows "sorted_wrt (<) offs \<and> (\<forall>x \<in> set offs. at < x \<and> x < length bs)"
  using assms by (rule array_element_offsets_bound)

theorem array_offsets_in_bounds_witness:
  "sorted_wrt (<) [1, 3, 5 :: nat] \<and>
     5 < length (encode (ArrIndef [Scalar 0 Arg1 24, Str 3 Inline [65], Scalar 7 Inline 22]))"
  using array_offsets_in_bounds
    [of "encode (ArrIndef [Scalar 0 Arg1 24, Str 3 Inline [65], Scalar 7 Inline 22])" 0 "[1, 3, 5]"]
    array_element_offsets_encode
      [of "encode (ArrIndef [Scalar 0 Arg1 24, Str 3 Inline [65], Scalar 7 Inline 22])"
        "ArrIndef [Scalar 0 Arg1 24, Str 3 Inline [65], Scalar 7 Inline 22]" 0]
  by (simp add: usize_max_def enc_head_def occurs_def)

text \<open>
  C29: The shape scan and the walk over one item end on every input, malformed input included, after
  at most as many turns as the buffer has bytes, in the state their models answer from.
\<close>

theorem buffer_loops_end:
  "(\<exists>n s. n \<le> length bs \<and> (scan_start, s) \<in> scan_turns bs depth_ceiling item_ceiling collect skip ^^ n \<and>
     scan_step bs depth_ceiling item_ceiling collect skip s =
       Inl (scan_loop bs depth_ceiling item_ceiling collect skip scan_start)) \<and>
   (\<exists>n s. n \<le> length bs \<and> ((i, []), s) \<in> skip_turns bs ^^ n \<and> s \<notin> Domain (skip_turns bs) \<and>
     skip_loop bs (fst s) (snd s) = skip_item bs i)"
  using scan_loop_ends skip_loop_ends by (rule conjI)

section \<open>The decoder\<close>

text \<open>
  C30: On the bytes of a well-formed item that the tree can represent, the decoder answers the item's
  tree, the well-formedness gate passes, and the export prints the tree under \<open>ok\<close>, whatever widths,
  chunks and indefinite lengths the item is written with.
\<close>

theorem decoder_builds_item_tree:
  assumes "reads_headers rd fl (encode x)" "length (encode x) \<le> usize_max" "well_formed x"
    "decodable fl x" "item_depth x \<le> MAX_CBOR_DECODE_NESTING_DEPTH"
    "cr_hex_decode rd cbor_hex = Inr (encode x)"
  shows "decode_cbor_to_value rd (encode x) = Some (Inr (tree rd fl (encode x) 0 x)) \<and>
    well_formedness_error rd (encode x) = Some None \<and>
    cbor_to_json rd show_number cbor_hex =
      Some (json_text show_number (ok_result (tree rd fl (encode x) 0 x)))"
  using decoder_whole_item [OF assms(1-5)] well_formedness_error_item [OF assms(1-5)]
    cbor_to_json_item [OF assms(6,1-5)] by blast

theorem decoder_builds_item_tree_witness:
  "well_formedness_error sample_reader [0x82, 0x01, 0x61, 0x61] = Some None"
proof -
  let ?x = "Arr Inline [Scalar 0 Inline 1, Str 3 Inline [0x61]]"
  have enc: "encode ?x = [0x82, 0x01, 0x61, 0x61]" by (simp add: enc_head_def initial_byte_def)
  have "reads_headers sample_reader sample_widen (encode ?x)"
    unfolding sample_reader_def by (rule plain_reader_documented) (simp add: enc usize_max_def)
  moreover have "cr_hex_decode sample_reader ''82016161'' = Inr (encode ?x)"
    unfolding enc by code_simp
  moreover have "length (encode ?x) \<le> usize_max" unfolding enc by (simp add: usize_max_def)
  moreover have "well_formed ?x" "decodable sample_widen ?x" "item_depth ?x \<le> MAX_CBOR_DECODE_NESTING_DEPTH"
    by (simp_all add: MAX_CBOR_DECODE_NESTING_DEPTH_def)
  ultimately have "well_formedness_error sample_reader (encode ?x) = Some None"
    by (intro decoder_builds_item_tree [THEN conjunct2, THEN conjunct1])
  then show ?thesis unfolding enc .
qed

text \<open>
  C31: The decoder returns on every input, malformed input included, and so do the gate and the
  export, as long as every header read moves forward inside the input.
\<close>

theorem decoder_returns_on_every_input:
  assumes "\<And>bs. advances rd bs"
  shows "(\<exists>r. decode_cbor_to_value rd bs = Some r) \<and> (\<exists>e. well_formedness_error rd bs = Some e) \<and>
    (\<exists>text. cbor_to_json rd show_number cbor_hex = Some text)"
  using decoder_returns [OF assms] cbor_to_json_returns [of rd cbor_hex show_number] assms
  by (auto simp: well_formedness_error_def)

theorem decoder_returns_on_every_input_witness:
  "\<exists>r. decode_cbor_to_value sample_reader [0x9F, 0xFF, 0xFF] = Some r"
  using decoder_returns_on_every_input [of sample_reader "[0x9F, 0xFF, 0xFF]"] plain_reader_advances
  unfolding sample_reader_def by blast

section \<open>Locations\<close>





text \<open>
  C34: Writing a location as a path cannot panic when the location is in ASCII, and it does on one that
  is not: the classification slices a component at its eighth byte, which in the key of the second
  conjunct, an array of one and a Cyrillic word, lies inside a character.
\<close>

theorem location_paths_need_ascii:
  "(ascii loc \<longrightarrow> cbor_location_to_json_path lib loc \<noteq> None) \<and>
   cbor_location_to_json_path lib (''/'' @ split_character) = None"
  using path_ascii path_panics by blast

theorem location_paths_need_ascii_witness:
  "cbor_location_to_json_path sample_floats ''/0/[1, 2]'' \<noteq> None"
proof -
  have "ascii ''/0/[1, 2]''" by simp
  with location_paths_need_ascii [of "''/0/[1, 2]''" sample_floats] show ?thesis by blast
qed

text \<open>
  C35: The memory of a report changes no lookup: after any sequence of lookups in a document, what the
  next one answers, from the locations seen before or through the index of a large map's keys, is what
  a fresh walk of the tree answers, and it panics or does not return when that does.
\<close>

theorem located_lookup_is_fresh:
  assumes "resolve_all lib root len locs located_new = Some ln"
  shows "map_option fst (resolve lib ln root loc len) =
    map_option fst (locate_cbor_node lib root loc len None)"
  using assms by (rule resolved_fresh)

theorem located_lookup_is_fresh_witness:
  "\<exists>ln. resolve_all sample_location JNull 0 [[]] located_new = Some ln \<and>
     map_option fst (resolve sample_location ln JNull [] 0) =
       map_option fst (locate_cbor_node sample_location JNull [] 0 None)"
proof -
  obtain ln where "resolve_all sample_location JNull 0 [[]] located_new = Some ln"
    by (simp add: resolve_def located_new_def locate_cbor_node_def trim_start_slashes_def locate_in_def
        locate_from.simps Let_def)
  with located_lookup_is_fresh [OF this, of "[]"] show ?thesis by blast
qed

section \<open>Schema texts\<close>

text \<open>
  C36: The cache of schema documents changes no answer: after any sequence of lookups the next one
  gives the entry a fresh parse gives, an entry answers both questions asked of it, and the documents
  resident are the last four different ones asked for, most recent first.
\<close>

theorem cached_document_is_fresh:
  "fst (cache_lookup p (lookups p srcs) src) = build_entry p src \<and>
   unchecked_ast (build_entry p src) \<noteq> None \<and> checked_ast (build_entry p src) \<noteq> None \<and>
   map fst (lookups p srcs) = take 4 (recent_first (rev srcs))"
  by (simp add: cache_lookup_ok [OF lookups_ok] build_entry_reachable lookups_recent CACHE_CAPACITY_def)

text \<open>
  C37: A span of a schema text is reported in UTF-16 units that cover its bytes: it starts where the
  character holding its first byte starts and ends with the last character begun in it; and the index
  and the document cache, which count lines each their own way, agree on the line of every offset.
\<close>

theorem spans_cover_whole_characters:
  assumes "valid_utf8 s" "i < j"
  shows "sp_char_offset (source_span (utf16_new s) i j l) = units_before (chars s) i \<and>
    sp_char_offset (source_span (utf16_new s) i j l) + sp_char_length (source_span (utf16_new s) i j l) =
      units_begun (chars s) j \<and>
    line_at (utf16_new s) i = line_of s i"
  using source_span_units [OF assms] line_at_line_of [OF assms(1)] by blast

theorem spans_cover_whole_characters_witness:
  "sp_char_offset (source_span (utf16_new [0x0A, 0xC3, 0xA9, 0x61]) 2 3 2) = 1 \<and>
   line_at (utf16_new [0x0A, 0xC3, 0xA9, 0x61]) 2 = 2"
proof -
  have "valid_utf8 [0x0A, 0xC3, 0xA9, 0x61]" "units_before (chars [0x0A, 0xC3, 0xA9, 0x61]) 2 = 1"
    "line_of [0x0A, 0xC3, 0xA9, 0x61] 2 = 2"
    by code_simp+
  with spans_cover_whole_characters [of "[0x0A, 0xC3, 0xA9, 0x61]" 2 3 2] show ?thesis by simp
qed


section \<open>Signatures\<close>

text \<open>
  C39: The report of added witnesses accounts for every key offered: of the keys the inputs hold, the
  ones whose signature verifies against the body are added, the first for each key the transaction does
  not hold, or counted as duplicates, and the others as invalid; the transaction answered is the one
  with exactly the added ones put in, and their hashes are listed in order.
\<close>

theorem added_witnesses_are_accounted_for:
  assumes "add_witnesses_with_report_internal cs gate wl il tx_hex inputs = Inr r"
  shows "\<exists>tx es. parse_fixed_transaction cs gate il tx_hex = Inr tx \<and> all_read cs gate il inputs es \<and>
    (let held = present_keys (il_witnesses il tx); ok = verifies wl (il_hash il tx);
         good = filter ok (offered es); added = new_vkeys held good in
     distinct (map vw_public_key added) \<and>
     aw_added r = length added \<and>
     aw_added r + aw_duplicates r = length good \<and>
     aw_added r + aw_duplicates r + aw_invalid r = length (offered es) \<and>
     aw_added_key_hashes r = map (\<lambda>v. hex_encode (wl_key_hash wl (vw_public_key v))) added \<and>
     offered (batches ok held es) = added \<and>
     aw_tx_hex r = il_hex il (foldl (apply_witnesses il) tx (batches ok held es)))"
proof (rule report_counts [OF assms], goal_cases)
  case (1 tx es)
  then show ?case
    by (intro exI [of _ tx] exI [of _ es])
      (simp add: Let_def offered_batches new_vkeys_distinct del: set_filter)
qed

theorem added_witnesses_are_accounted_for_witness:
  "\<exists>r. add_witnesses_with_report_internal plain_csl (\<lambda>bs. None) plain_witnesses sample_inserter ''80''
       [''80'', ''80''] = Inr r \<and> aw_added r + aw_duplicates r = 2"
proof -
  obtain r where r: "add_witnesses_with_report_internal plain_csl (\<lambda>bs. None) plain_witnesses
      sample_inserter ''80'' [''80'', ''80''] = Inr r" "aw_added r = 1" "aw_duplicates r = 1"
    using sample_report by blast
  with added_witnesses_are_accounted_for [OF r(1)] show ?thesis by (auto simp: Let_def)
qed


end
